(* ===== verification/Prelude.thy ===== *)
theory Prelude
  imports Main "HOL-Library.Word"
begin

text \<open>
  What every component shares: results with an error branch and a panic branch and the
  combinators that stand for the \<open>?\<close> operator, Rust strings as lists of code points with the
  standard-library operations the code calls on them, instants and checked instant arithmetic,
  the conversions between \<open>u64\<close>, \<open>i64\<close> and \<open>usize\<close>, and JSON values.
\<close>

named_theorems res_simps \<open>inversion of the result combinators\<close>
named_theorems wf_intros \<open>introduction rules for well-formedness invariants\<close>

section \<open>Results\<close>

text \<open>
  A fallible call returns a value, an error of its error type, panics, or does not return.
  The binary is built with \<open>cargo build --release\<close>, so integer overflow wraps and does not
  panic; the panics that remain are those of the time arithmetic.
\<close>

datatype 'e failure = Fail 'e | Panic | Diverge

type_synonym ('e, 'a) res = "'e failure + 'a"

abbreviation Ok :: "'a \<Rightarrow> ('e, 'a) res" where "Ok x \<equiv> Inr x"
abbreviation Err :: "'e \<Rightarrow> ('e, 'a) res" where "Err e \<equiv> Inl (Fail e)"

definition rbind :: "('e, 'a) res \<Rightarrow> ('a \<Rightarrow> ('e, 'b) res) \<Rightarrow> ('e, 'b) res" where
  "rbind r f = (case r of Inl e \<Rightarrow> Inl e | Inr x \<Rightarrow> f x)"

definition guard :: "bool \<Rightarrow> 'e \<Rightarrow> ('e, unit) res" where
  "guard b e = (if b then Ok () else Err e)"

definition ok_or :: "'e \<Rightarrow> 'a option \<Rightarrow> ('e, 'a) res" where
  "ok_or e v = (case v of None \<Rightarrow> Err e | Some x \<Rightarrow> Ok x)"

definition map_err :: "('e \<Rightarrow> 'f) \<Rightarrow> ('e, 'a) res \<Rightarrow> ('f, 'a) res" where
  "map_err g r = (case r of Inl e \<Rightarrow> Inl (map_failure g e) | Inr x \<Rightarrow> Inr x)"

text \<open>\<open>Option::map(f).transpose()\<close>.\<close>

definition transpose_map :: "('a \<Rightarrow> ('e, 'b) res) \<Rightarrow> 'a option \<Rightarrow> ('e, 'b option) res" where
  "transpose_map f v = (case v of None \<Rightarrow> Ok None | Some x \<Rightarrow> rbind (f x) (\<lambda>y. Ok (Some y)))"

text \<open>\<open>iter().map(f).collect::<Result<Vec<_>, _>>()\<close>: stops at the first error.\<close>

fun collect_map :: "('a \<Rightarrow> ('e, 'b) res) \<Rightarrow> 'a list \<Rightarrow> ('e, 'b list) res" where
  "collect_map f [] = Ok []"
| "collect_map f (x # xs) = rbind (f x) (\<lambda>y. rbind (collect_map f xs) (\<lambda>ys. Ok (y # ys)))"

lemma rbind_simps [simp]:
  "rbind (Inr x) f = f x"
  "rbind (Inl e) f = Inl e"
  by (simp_all add: rbind_def)

lemma rbind_eq_Inr [res_simps]: "rbind r f = Inr y \<longleftrightarrow> (\<exists>x. r = Inr x \<and> f x = Inr y)"
  by (cases r) simp_all

lemma rbindE: "rbind r f = Inr y \<Longrightarrow> (\<And>x. r = Inr x \<Longrightarrow> f x = Inr y \<Longrightarrow> thesis) \<Longrightarrow> thesis"
  by (cases r) simp_all

lemma rbind_eq_Inl [res_simps]:
  "rbind r f = Inl e \<longleftrightarrow> r = Inl e \<or> (\<exists>x. r = Inr x \<and> f x = Inl e)"
  by (cases r) auto

lemma rbind_assoc: "rbind (rbind r f) g = rbind r (\<lambda>x. rbind (f x) g)"
  by (cases r) simp_all

lemma guard_eq_Inr [res_simps]: "guard b e = Inr u \<longleftrightarrow> b"
  by (simp add: guard_def)

lemma guard_eq_Inl [res_simps]: "guard b e = Inl d \<longleftrightarrow> \<not> b \<and> d = Fail e"
  by (auto simp: guard_def)

lemma guard_simps [simp]: "guard True e = Ok ()" "guard False e = Err e"
  by (simp_all add: guard_def)

lemma ok_or_simps [simp]: "ok_or e (Some x) = Ok x" "ok_or e None = Err e"
  by (simp_all add: ok_or_def)

lemma ok_or_eq_Inr [res_simps]: "ok_or e v = Inr x \<longleftrightarrow> v = Some x"
  by (cases v) simp_all

lemma map_err_simps [simp]:
  "map_err g (Inr x) = Inr x"
  "map_err g (Inl (Fail e)) = Err (g e)"
  "map_err g (Inl Panic) = Inl Panic"
  "map_err g (Inl Diverge) = Inl Diverge"
  by (simp_all add: map_err_def)

lemma map_err_eq_Inr [res_simps]: "map_err g r = Inr x \<longleftrightarrow> r = Inr x"
  by (cases r) (simp_all add: map_err_def)

lemma transpose_map_simps [simp]:
  "transpose_map f None = Ok None"
  "transpose_map f (Some x) = rbind (f x) (\<lambda>y. Ok (Some y))"
  by (simp_all add: transpose_map_def)

lemma transpose_map_eq_Inr [res_simps]:
  "transpose_map f v = Inr w \<longleftrightarrow>
     (v = None \<and> w = None) \<or> (\<exists>x y. v = Some x \<and> f x = Inr y \<and> w = Some y)"
  by (cases v) (auto simp: rbind_eq_Inr)

lemma collect_map_eq_Inr:
  "collect_map f xs = Inr ys \<longleftrightarrow> list_all2 (\<lambda>x y. f x = Inr y) xs ys"
  by (induction xs arbitrary: ys) (auto simp: res_simps list_all2_Cons1)

lemma collect_map_Ok: "(\<And>x. x \<in> set xs \<Longrightarrow> f x = Inr (g x)) \<Longrightarrow> collect_map f xs = Ok (map g xs)"
  by (induction xs) auto

lemma ball_1_Suc: "(\<forall>j\<in>{1..Suc m}. P j) \<longleftrightarrow> P 1 \<and> (\<forall>j\<in>{1..m}. P (Suc j))"
proof -
  have "{1..Suc m} = insert 1 (Suc ` {1..m})"
    by (auto simp: image_Suc_atLeastAtMost)
  then show ?thesis by (simp only: ball_simps)
qed

section \<open>Strings\<close>

text \<open>
  A Rust \<open>String\<close> is the list of its code points; \<open>str::len\<close> is its length in UTF-8 bytes.
  Literals of the source are ASCII and are written \<open>lit ''...''\<close>.
\<close>

type_synonym ustring = "nat list"

abbreviation lit :: "string \<Rightarrow> ustring" where "lit s \<equiv> map of_char s"

definition utf8_width :: "nat \<Rightarrow> nat" where
  "utf8_width c = (if c < 128 then 1 else if c < 2048 then 2 else if c < 65536 then 3 else 4)"

definition utf8_len :: "ustring \<Rightarrow> nat" where
  "utf8_len s = sum_list (map utf8_width s)"

text \<open>\<open>char::is_whitespace\<close>: the Unicode \<open>White_Space\<close> property.\<close>

definition is_whitespace :: "nat \<Rightarrow> bool" where
  "is_whitespace c \<longleftrightarrow> (9 \<le> c \<and> c \<le> 13) \<or> c = 32 \<or> c = 133 \<or> c = 160 \<or> c = 5760
     \<or> (8192 \<le> c \<and> c \<le> 8202) \<or> c = 8232 \<or> c = 8233 \<or> c = 8239 \<or> c = 8287 \<or> c = 12288"

definition trim :: "ustring \<Rightarrow> ustring" where
  "trim s = rev (dropWhile is_whitespace (rev (dropWhile is_whitespace s)))"

definition to_ascii_lowercase :: "ustring \<Rightarrow> ustring" where
  "to_ascii_lowercase s = map (\<lambda>c. if 65 \<le> c \<and> c \<le> 90 then c + 32 else c) s"

definition is_ascii_lowercase :: "nat \<Rightarrow> bool" where
  "is_ascii_lowercase c \<longleftrightarrow> 97 \<le> c \<and> c \<le> 122"

definition is_ascii_digit :: "nat \<Rightarrow> bool" where
  "is_ascii_digit c \<longleftrightarrow> 48 \<le> c \<and> c \<le> 57"

definition is_ascii_alphabetic :: "nat \<Rightarrow> bool" where
  "is_ascii_alphabetic c \<longleftrightarrow> (65 \<le> c \<and> c \<le> 90) \<or> (97 \<le> c \<and> c \<le> 122)"

definition is_ascii_alphanumeric :: "nat \<Rightarrow> bool" where
  "is_ascii_alphanumeric c \<longleftrightarrow> is_ascii_alphabetic c \<or> is_ascii_digit c"

definition is_ascii_hexdigit :: "nat \<Rightarrow> bool" where
  "is_ascii_hexdigit c \<longleftrightarrow> is_ascii_digit c \<or> (65 \<le> c \<and> c \<le> 70) \<or> (97 \<le> c \<and> c \<le> 102)"

text \<open>\<open>str::split_once\<close> and \<open>str::strip_prefix\<close> for a string pattern.\<close>

fun split_once :: "'a list \<Rightarrow> 'a list \<Rightarrow> ('a list \<times> 'a list) option" where
  "split_once p [] = (if p = [] then Some ([], []) else None)"
| "split_once p (c # cs) =
     (if take (length p) (c # cs) = p then Some ([], drop (length p) (c # cs))
      else map_option (\<lambda>(a, b). (c # a, b)) (split_once p cs))"

definition strip_prefix :: "'a list \<Rightarrow> 'a list \<Rightarrow> 'a list option" where
  "strip_prefix p s = (if take (length p) s = p then Some (drop (length p) s) else None)"

definition utf8_char :: "nat \<Rightarrow> nat list" where
  "utf8_char c =
     (if c < 128 then [c]
      else if c < 2048 then [192 + c div 64, 128 + c mod 64]
      else if c < 65536 then [224 + c div 4096, 128 + c div 64 mod 64, 128 + c mod 64]
      else [240 + c div 262144, 128 + c div 4096 mod 64, 128 + c div 64 mod 64, 128 + c mod 64])"

definition utf8_bytes :: "ustring \<Rightarrow> nat list" where
  "utf8_bytes s = concat (map utf8_char s)"

text \<open>\<open>s.get(i..)\<close> on the bytes of a string: \<open>None\<close> unless \<open>i\<close> is a character boundary.\<close>

definition get_from :: "nat list \<Rightarrow> nat \<Rightarrow> nat list option" where
  "get_from bs i =
     (if i = length bs then Some []
      else if i < length bs \<and> \<not> (128 \<le> bs ! i \<and> bs ! i < 192) then Some (drop i bs)
      else None)"

lemma length_utf8_bytes: "length (utf8_bytes s) = utf8_len s"
  by (induction s) (auto simp: utf8_bytes_def utf8_len_def utf8_width_def utf8_char_def)

lemma utf8_len_ge_length: "length s \<le> utf8_len s"
proof (induction s)
  case (Cons c s)
  have "1 \<le> utf8_width c" by (simp add: utf8_width_def)
  with Cons show ?case by (simp add: utf8_len_def)
qed (simp add: utf8_len_def)

lemma utf8_len_ascii: "(\<And>c. c \<in> set s \<Longrightarrow> c < 128) \<Longrightarrow> utf8_len s = length s"
  by (induction s) (auto simp: utf8_len_def utf8_width_def)

lemma dropWhile_end_trim:
  "xs = rev (dropWhile P (rev ys)) \<Longrightarrow> rev (dropWhile P (rev xs)) = xs"
  by (simp add: dropWhile_idem)

lemma trim_eq_Nil: "trim s = [] \<longleftrightarrow> (\<forall>c \<in> set s. is_whitespace c)"
proof -
  have "trim s = [] \<longleftrightarrow> (\<forall>c \<in> set (dropWhile is_whitespace s). is_whitespace c)"
    by (simp add: trim_def dropWhile_eq_Nil_conv)
  also have "\<dots> \<longleftrightarrow> (\<forall>c \<in> set s. is_whitespace c)"
    by (induction s) auto
  finally show ?thesis .
qed

lemma hd_rev_dropWhile_rev:
  assumes "xs \<noteq> []" and "\<not> P (hd xs)"
  shows "rev (dropWhile P (rev xs)) \<noteq> []" and "hd (rev (dropWhile P (rev xs))) = hd xs"
proof -
  obtain y ys where xs: "xs = y # ys" using assms(1) by (cases xs) auto
  with assms(2) have "\<not> P y" by simp
  then have eq: "dropWhile P (rev ys @ [y]) = dropWhile P (rev ys) @ [y]"
  proof (induction "rev ys" arbitrary: ys)
    case Nil
    then show ?case by simp
  next
    case (Cons a zs)
    from Cons.hyps(2) have e: "rev ys = a # zs" by simp
    have "dropWhile P (zs @ [y]) = dropWhile P zs @ [y]"
      using Cons.hyps(1) [of "rev zs"] Cons.prems by simp
    with e show ?case by simp
  qed
  show "rev (dropWhile P (rev xs)) \<noteq> []" using eq by (simp add: xs)
  show "hd (rev (dropWhile P (rev xs))) = hd xs" using eq by (simp add: xs)
qed

lemma trim_idem [simp]: "trim (trim s) = trim s"
proof (cases "trim s = []")
  case True
  have "trim [] = []" by (simp add: trim_def)
  with True show ?thesis by simp
next
  case False
  define u where "u = dropWhile is_whitespace s"
  have "trim s = rev (dropWhile is_whitespace (rev u))" by (simp add: trim_def u_def)
  with False have u: "u \<noteq> []" by auto
  have nw: "\<not> is_whitespace (hd u)" using u by (simp add: u_def hd_dropWhile)
  have t: "trim s = rev (dropWhile is_whitespace (rev u))" by (simp add: trim_def u_def)
  have "hd (trim s) = hd u" unfolding t by (rule hd_rev_dropWhile_rev(2) [where P = is_whitespace, OF u nw])
  with nw False have "dropWhile is_whitespace (trim s) = trim s"
    by (cases "trim s") auto
  then show ?thesis
    by (simp add: trim_def [of "trim s"]) (simp add: t dropWhile_idem)
qed

section \<open>Instants\<close>

text \<open>
  An \<open>OffsetDateTime\<close> is the instant it denotes, in nanoseconds since the Unix epoch: the
  code compares by instant and normalises to UTC. The \<open>time\<close> crate represents the years
  -9999 to 9999; leaving that range in \<open>+\<close> or in \<open>to_offset(UTC)\<close> panics.
\<close>

type_synonym instant = int

definition ns_per_sec :: int where "ns_per_sec = 1000000000"
definition ns_per_ms :: int where "ns_per_ms = 1000000"

definition min_instant :: instant where "min_instant = - 377705116800 * 1000000000"
definition max_instant :: instant where "max_instant = 253402300800 * 1000000000 - 1"

definition valid_instant :: "instant \<Rightarrow> bool" where
  "valid_instant t \<longleftrightarrow> min_instant \<le> t \<and> t \<le> max_instant"

text \<open>The text form (RFC 3339) exists for the years 0 to 9999 only.\<close>

definition year_zero :: instant where "year_zero = - 62167219200 * 1000000000"

definition rfc3339_ok :: "instant \<Rightarrow> bool" where
  "rfc3339_ok t \<longleftrightarrow> year_zero \<le> t \<and> t \<le> max_instant"

definition to_utc :: "instant \<Rightarrow> ('e, instant) res" where
  "to_utc t = (if valid_instant t then Ok t else Inl Panic)"

definition time_add :: "instant \<Rightarrow> int \<Rightarrow> ('e, instant) res" where
  "time_add t d = (if valid_instant (t + d) then Ok (t + d) else Inl Panic)"

definition seconds :: "int \<Rightarrow> int" where "seconds n = n * ns_per_sec"

lemma time_add_eq_Inr [res_simps]: "time_add t d = Inr u \<longleftrightarrow> valid_instant (t + d) \<and> u = t + d"
  by (auto simp: time_add_def)

lemma to_utc_eq_Inr [res_simps]: "to_utc t = Inr u \<longleftrightarrow> valid_instant t \<and> u = t"
  by (auto simp: to_utc_def)

text \<open>Truncation to whole milliseconds, the precision of the stored text.\<close>

definition trunc_ms :: "instant \<Rightarrow> instant" where
  "trunc_ms t = t div ns_per_ms * ns_per_ms"

lemma trunc_ms_le: "trunc_ms t \<le> t"
  by (simp add: trunc_ms_def ns_per_ms_def)

lemma trunc_ms_gt: "t < trunc_ms t + ns_per_ms"
  by (simp add: trunc_ms_def ns_per_ms_def)

lemma trunc_ms_idem [simp]: "trunc_ms (trunc_ms t) = trunc_ms t"
  by (simp add: trunc_ms_def ns_per_ms_def)

lemma trunc_ms_mono: "s \<le> t \<Longrightarrow> trunc_ms s \<le> trunc_ms t"
  by (simp add: trunc_ms_def ns_per_ms_def zdiv_mono1)

lemma trunc_ms_year_zero: "trunc_ms year_zero = year_zero"
  by (simp add: trunc_ms_def year_zero_def ns_per_ms_def)

lemma trunc_ms_rfc3339: "rfc3339_ok t \<Longrightarrow> rfc3339_ok (trunc_ms t)"
  using trunc_ms_le [of t] trunc_ms_mono [of year_zero t]
  by (simp add: rfc3339_ok_def trunc_ms_year_zero)

lemma rfc3339_ok_valid: "rfc3339_ok t \<Longrightarrow> valid_instant t"
  by (simp add: rfc3339_ok_def valid_instant_def year_zero_def min_instant_def)

section \<open>Integers\<close>

type_synonym u64 = "64 word"

definition i64_max :: int where "i64_max = 9223372036854775807"

definition i64_try_from_u64 :: "u64 \<Rightarrow> int option" where
  "i64_try_from_u64 w = (if uint w \<le> i64_max then Some (uint w) else None)"

definition u64_try_from_i64 :: "int \<Rightarrow> u64 option" where
  "u64_try_from_i64 i = (if 0 \<le> i then Some (word_of_int i) else None)"

lemma u64_i64_roundtrip [simp]:
  "i64_try_from_u64 w = Some i \<Longrightarrow> u64_try_from_i64 i = Some w"
  by (auto simp: i64_try_from_u64_def u64_try_from_i64_def split: if_splits)

lemma uint_add_one: "uint (w :: u64) < 2 ^ 64 - 1 \<Longrightarrow> uint (w + 1) = uint w + 1"
  by (simp add: uint_word_ariths take_bit_eq_mod)

text \<open>Identifiers: a UUID is its 128-bit value; its text form is fixed-width lower-case
  hexadecimal, so text order is numeric order.\<close>

type_synonym uuid = nat

section \<open>JSON\<close>

text \<open>\<open>JTime\<close> is a JSON string that holds a canonical timestamp, \<open>JUuid\<close> one that holds an
  identifier.\<close>

datatype json =
    JNull
  | JBool bool
  | JNum int
  | JStr ustring
  | JTime int
  | JUuid uuid
  | JArr "json list"
  | JObj "(string \<times> json) list"

fun is_object :: "json \<Rightarrow> bool" where
  "is_object (JObj _) = True"
| "is_object _ = False"

definition json_opt :: "('a \<Rightarrow> json) \<Rightarrow> 'a option \<Rightarrow> json" where
  "json_opt f v = (case v of None \<Rightarrow> JNull | Some x \<Rightarrow> f x)"

end
