(* ===== verification/Model.thy ===== *)
theory Model
  imports Prelude
begin

text \<open>
  \<open>src/remindi/model.rs\<close>: the error type, the enums with their stored names, triggers and
  their validation, the recurrence specification, timestamps, and the item record.
\<close>

section \<open>Errors\<close>

datatype domain_error =
    TimestampOffsetRequired
  | InvalidTimestamp
  | TimestampFormatting
  | TerminalState
  | SnoozeRequiresReadyState
  | SnoozeMustBeFuture
  | ReasonRequired
  | CompletionEvidenceRequired
  | InvalidRecurrenceInterval
  | InvalidMaxOccurrences
  | FinalOccurrence
  | InvalidCatchUpLimit
  | EmptyEvidenceAssertion
  | StableEvidenceReferenceRequired
  | InvalidEvidenceReference
  | EvidenceReferenceContainsCredentials
  | InvalidContentHash
  | EvidenceObservedInFuture
  | EvidenceMetadataMustBeObject
  | AdapterResultIsNotCompletionEvidence
  | ConditionParametersMustBeObject
  | InvalidElapsedDuration
  | InvalidTriggerInterval
  | InvalidConditionAdapter
  | InvalidGoalId
  | InvalidConditionPollInterval
  | RecurrenceRequiresIntervalTrigger
  | RecurrenceIntervalMismatch
  | InvalidPersistedValue

section \<open>Timestamps\<close>

text \<open>
  \<open>has_explicit_offset\<close> looks at the last six bytes; \<open>len().saturating_sub(6)\<close> is truncated
  subtraction on \<open>nat\<close>.
\<close>

definition has_explicit_offset :: "ustring \<Rightarrow> bool" where
  "has_explicit_offset value \<longleftrightarrow>
     (value \<noteq> [] \<and> last value = 90) \<or>
     (case get_from (utf8_bytes value) (utf8_len value - 6) of
        None \<Rightarrow> False
      | Some tail \<Rightarrow>
          tail \<noteq> [] \<and> (tail ! 0 = 43 \<or> tail ! 0 = 45) \<and> 3 < length tail \<and> tail ! 3 = 58)"

text \<open>
  The RFC 3339 parser is the \<open>time\<close> crate's: the parameter \<open>rfc3339\<close>, the instant of a text
  or \<open>None\<close>. Normalising its result to UTC panics outside the representable years.
\<close>

definition parse_timestamp ::
  "(ustring \<Rightarrow> instant option) \<Rightarrow> ustring \<Rightarrow> (domain_error, instant) res" where
  "parse_timestamp rfc3339 value =
     (if \<not> has_explicit_offset value then Err TimestampOffsetRequired
      else case rfc3339 value of
             None \<Rightarrow> Err InvalidTimestamp
           | Some t \<Rightarrow> to_utc t)"

text \<open>
  A canonical timestamp is the text \<open>YYYY-MM-DDThh:mm:ss.mmmZ\<close> of an instant. It is fixed
  width for the years 0 to 9999, so texts compare as the millisecond counts they denote; the
  model keeps the count. Reading the text back with \<open>parse_timestamp\<close> fails for the signed
  years below 0, which RFC 3339 does not have.
\<close>

type_synonym stamp = int

definition canonical_timestamp :: "instant \<Rightarrow> (domain_error, stamp) res" where
  "canonical_timestamp value = rbind (to_utc value) (\<lambda>t. Ok (t div ns_per_ms))"

definition parse_canonical :: "stamp \<Rightarrow> (domain_error, instant) res" where
  "parse_canonical s =
     (if rfc3339_ok (s * ns_per_ms) then Ok (s * ns_per_ms) else Err InvalidTimestamp)"

lemma canonical_timestamp_eq_Inr [res_simps]:
  "canonical_timestamp t = Inr s \<longleftrightarrow> valid_instant t \<and> s = t div ns_per_ms"
  by (auto simp: canonical_timestamp_def res_simps)

lemma canonical_timestamp_Ok: "rfc3339_ok t \<Longrightarrow> canonical_timestamp t = Ok (t div ns_per_ms)"
  by (simp add: canonical_timestamp_def to_utc_def rfc3339_ok_valid)

lemma parse_canonical_eq_Inr [res_simps]:
  "parse_canonical s = Inr t \<longleftrightarrow> rfc3339_ok (s * ns_per_ms) \<and> t = s * ns_per_ms"
  by (auto simp: parse_canonical_def)

lemma parse_canonical_stamp: "rfc3339_ok t \<Longrightarrow> parse_canonical (t div ns_per_ms) = Ok (trunc_ms t)"
  using trunc_ms_rfc3339 [of t] by (simp add: parse_canonical_def trunc_ms_def)

section \<open>Enums\<close>

datatype remindi_state = Scheduled | Due | Overdue | Snoozed | Completed | Cancelled

definition is_active :: "remindi_state \<Rightarrow> bool" where
  "is_active s \<longleftrightarrow> s = Scheduled \<or> s = Due \<or> s = Overdue \<or> s = Snoozed"

definition is_terminal :: "remindi_state \<Rightarrow> bool" where
  "is_terminal s \<longleftrightarrow> s = Completed \<or> s = Cancelled"

lemma is_active_iff_not_terminal: "is_active s \<longleftrightarrow> \<not> is_terminal s"
  by (cases s) (simp_all add: is_active_def is_terminal_def)

datatype priority_level = Low | Normal | High | Critical

datatype readiness_kind = R_Due | R_Overdue | R_ManualVerification

datatype missed_policy_kind = Coalesce | CatchUp | Skip

datatype occurrence_disposition = Acknowledged | Skipped

datatype evidence_type_kind =
  Observation | TestResult | ArtifactEvidence | LogReference | ChangeReference
  | UserConfirmation | ExternalReference

datatype event_type_kind =
  E_Created | E_Checked | E_BecameDue | E_BecameOverdue | E_ConditionEvaluated
  | E_OccurrenceAdvanced | E_Snoozed | E_Updated | E_Completed | E_Cancelled
  | E_DeliveryAttempted | E_DeliverySucceeded | E_DeliveryFailed

datatype actor_type_kind = A_User | A_Agent | A_Scheduler | A_System

datatype link_type_kind = L_Goal | L_Memory | L_Issue | L_Url | L_Artifact

datatype lifecycle_event_kind = TaskStart | Checkpoint | Continuation | FinalReview

datatype condition_status = CS_Satisfied | CS_Unsatisfied | CS_Unknown | CS_Error

text \<open>
  \<open>string_enum!\<close>: the variant in snake case (\<open>Display\<close>), and back (\<open>FromStr\<close>); any other text
  is \<open>InvalidPersistedValue\<close>.
\<close>

primrec state_name :: "remindi_state \<Rightarrow> string" where
  "state_name Scheduled = ''scheduled''"
| "state_name Due = ''due''"
| "state_name Overdue = ''overdue''"
| "state_name Snoozed = ''snoozed''"
| "state_name Completed = ''completed''"
| "state_name Cancelled = ''cancelled''"

primrec priority_name :: "priority_level \<Rightarrow> string" where
  "priority_name Low = ''low''"
| "priority_name Normal = ''normal''"
| "priority_name High = ''high''"
| "priority_name Critical = ''critical''"

primrec event_type_name :: "event_type_kind \<Rightarrow> string" where
  "event_type_name E_Created = ''created''"
| "event_type_name E_Checked = ''checked''"
| "event_type_name E_BecameDue = ''became_due''"
| "event_type_name E_BecameOverdue = ''became_overdue''"
| "event_type_name E_ConditionEvaluated = ''condition_evaluated''"
| "event_type_name E_OccurrenceAdvanced = ''occurrence_advanced''"
| "event_type_name E_Snoozed = ''snoozed''"
| "event_type_name E_Updated = ''updated''"
| "event_type_name E_Completed = ''completed''"
| "event_type_name E_Cancelled = ''cancelled''"
| "event_type_name E_DeliveryAttempted = ''delivery_attempted''"
| "event_type_name E_DeliverySucceeded = ''delivery_succeeded''"
| "event_type_name E_DeliveryFailed = ''delivery_failed''"

primrec condition_status_name :: "condition_status \<Rightarrow> string" where
  "condition_status_name CS_Satisfied = ''satisfied''"
| "condition_status_name CS_Unsatisfied = ''unsatisfied''"
| "condition_status_name CS_Unknown = ''unknown''"
| "condition_status_name CS_Error = ''error''"

primrec lifecycle_event_name :: "lifecycle_event_kind \<Rightarrow> string" where
  "lifecycle_event_name TaskStart = ''task_start''"
| "lifecycle_event_name Checkpoint = ''checkpoint''"
| "lifecycle_event_name Continuation = ''continuation''"
| "lifecycle_event_name FinalReview = ''final_review''"

definition from_str :: "('a \<Rightarrow> string) \<Rightarrow> 'a list \<Rightarrow> string \<Rightarrow> (domain_error, 'a) res" where
  "from_str name variants s = ok_or InvalidPersistedValue (find (\<lambda>v. name v = s) variants)"

definition state_variants :: "remindi_state list" where
  "state_variants = [Scheduled, Due, Overdue, Snoozed, Completed, Cancelled]"

definition priority_variants :: "priority_level list" where
  "priority_variants = [Low, Normal, High, Critical]"

definition condition_status_variants :: "condition_status list" where
  "condition_status_variants = [CS_Satisfied, CS_Unsatisfied, CS_Unknown, CS_Error]"

definition event_type_variants :: "event_type_kind list" where
  "event_type_variants = [E_Created, E_Checked, E_BecameDue, E_BecameOverdue, E_ConditionEvaluated,
     E_OccurrenceAdvanced, E_Snoozed, E_Updated, E_Completed, E_Cancelled, E_DeliveryAttempted,
     E_DeliverySucceeded, E_DeliveryFailed]"

definition state_from_str :: "string \<Rightarrow> (domain_error, remindi_state) res" where
  "state_from_str = from_str state_name state_variants"

definition priority_from_str :: "string \<Rightarrow> (domain_error, priority_level) res" where
  "priority_from_str = from_str priority_name priority_variants"

definition condition_status_from_str :: "string \<Rightarrow> (domain_error, condition_status) res" where
  "condition_status_from_str = from_str condition_status_name condition_status_variants"

definition event_type_from_str :: "string \<Rightarrow> (domain_error, event_type_kind) res" where
  "event_type_from_str = from_str event_type_name event_type_variants"

lemma state_from_str_name [simp]: "state_from_str (state_name s) = Ok s"
  by (cases s) (simp_all add: state_from_str_def from_str_def state_variants_def)

lemma priority_from_str_name [simp]: "priority_from_str (priority_name p) = Ok p"
  by (cases p) (simp_all add: priority_from_str_def from_str_def priority_variants_def)

lemma condition_status_from_str_name [simp]:
  "condition_status_from_str (condition_status_name c) = Ok c"
  by (cases c)
    (simp_all add: condition_status_from_str_def from_str_def condition_status_variants_def)

lemma event_type_from_str_name [simp]: "event_type_from_str (event_type_name e) = Ok e"
  by (cases e) (simp_all add: event_type_from_str_def from_str_def event_type_variants_def)

lemma state_name_inject [simp]: "state_name a = state_name b \<longleftrightarrow> a = b"
proof
  assume "state_name a = state_name b"
  then have "state_from_str (state_name a) = state_from_str (state_name b)" by simp
  then show "a = b" by simp
qed simp

lemma event_type_name_inject [simp]: "event_type_name a = event_type_name b \<longleftrightarrow> a = b"
proof
  assume "event_type_name a = event_type_name b"
  then have "event_type_from_str (event_type_name a) = event_type_from_str (event_type_name b)"
    by simp
  then show "a = b" by simp
qed simp

section \<open>Triggers\<close>

datatype trigger_spec =
    AtTime instant
  | AfterElapsed u64
  | Interval instant u64
  | NextSession
  | NextContinuation
  | GoalActive ustring
  | Condition ustring json "u64 option" "instant option"

definition valid_adapter_name :: "ustring \<Rightarrow> bool" where
  "valid_adapter_name name \<longleftrightarrow>
     (case name of [] \<Rightarrow> False | c # _ \<Rightarrow> 97 \<le> c \<and> c \<le> 122)
     \<and> utf8_len name \<le> 64
     \<and> list_all (\<lambda>b. is_ascii_lowercase b \<or> is_ascii_digit b \<or> b = 95) (drop 1 name)"

fun validate_trigger :: "trigger_spec \<Rightarrow> (domain_error, unit) res" where
  "validate_trigger (AtTime _) = Ok ()"
| "validate_trigger NextSession = Ok ()"
| "validate_trigger NextContinuation = Ok ()"
| "validate_trigger (AfterElapsed after_seconds) =
     (if 1 \<le> after_seconds \<and> after_seconds \<le> 31536000 then Ok () else Err InvalidElapsedDuration)"
| "validate_trigger (Interval _ every) =
     (if 60 \<le> every \<and> every \<le> 31536000 then Ok () else Err InvalidTriggerInterval)"
| "validate_trigger (GoalActive goal_id) =
     (if 1 \<le> length goal_id \<and> length goal_id \<le> 512 then Ok () else Err InvalidGoalId)"
| "validate_trigger (Condition adapter params poll manual) =
     (if \<not> valid_adapter_name adapter then Err InvalidConditionAdapter
      else if \<not> is_object params then Err ConditionParametersMustBeObject
      else if (case poll of None \<Rightarrow> False | Some s \<Rightarrow> \<not> (30 \<le> s \<and> s \<le> 86400))
        then Err InvalidConditionPollInterval
      else Ok ())"

record recurrence_spec =
  every_seconds :: u64
  missed_policy :: missed_policy_kind
  max_occurrences :: "u64 option"
  end_at :: "instant option"

definition every_hour :: recurrence_spec where
  "every_hour = \<lparr>every_seconds = 3600, missed_policy = Coalesce, max_occurrences = None,
     end_at = None\<rparr>"

section \<open>The item\<close>

record remindi =
  remindi_id :: uuid
  owner_id :: ustring
  project_id :: ustring
  task_id :: "ustring option"
  message :: ustring
  instructions :: "ustring option"
  state :: remindi_state
  priority :: priority_level
  trigger :: trigger_spec
  recurrence :: "recurrence_spec option"
  next_fire_at :: "instant option"
  next_evaluation_at :: "instant option"
  original_next_fire_at :: "instant option"
  due_since :: "instant option"
  snooze_until :: "instant option"
  snoozed_from_state :: "remindi_state option"
  overdue_after_seconds :: u64
  occurrence_no :: u64
  source_session_id :: "ustring option"
  source_task_lineage_id :: "ustring option"
  last_checked_at :: "instant option"
  last_condition_status :: "condition_status option"
  last_condition_detail :: "ustring option"
  snooze_count :: u64
  version :: u64
  created_at :: instant
  updated_at :: instant
  completed_at :: "instant option"
  cancelled_at :: "instant option"

record remindi_link =
  link_type :: link_type_kind
  link_value :: ustring
  link_created_at :: instant

record remindi_event =
  event_sequence :: "int option"
  event_id :: uuid
  event_remindi_id :: uuid
  event_type :: event_type_kind
  event_actor_type :: actor_type_kind
  event_actor_id :: ustring
  event_request_id :: "ustring option"
  occurred_at :: instant
  prior_version :: "u64 option"
  new_version :: "u64 option"
  details :: json

section \<open>Properties\<close>

text \<open>
  The canonical text of an instant of the years 0 to 9999 reads back as the instant without
  its sub-millisecond part, and writing that again gives the same text; texts keep the order of
  their instants.
\<close>

theorem timestamp_roundtrip:
  assumes "rfc3339_ok t" and "rfc3339_ok u" and "t \<le> u"
  shows "\<exists>s v. canonical_timestamp t = Ok s \<and> canonical_timestamp u = Ok v \<and> s \<le> v \<and>
    parse_canonical s = Ok (trunc_ms t) \<and> canonical_timestamp (trunc_ms t) = Ok s"
proof (intro exI conjI)
  show "canonical_timestamp t = Ok (t div ns_per_ms)" using assms(1) by (rule canonical_timestamp_Ok)
  show "canonical_timestamp u = Ok (u div ns_per_ms)" using assms(2) by (rule canonical_timestamp_Ok)
  show "t div ns_per_ms \<le> u div ns_per_ms" using assms(3) by (simp add: ns_per_ms_def zdiv_mono1)
  show "parse_canonical (t div ns_per_ms) = Ok (trunc_ms t)" using assms(1) by (rule parse_canonical_stamp)
  have "trunc_ms t div ns_per_ms = t div ns_per_ms" by (simp add: trunc_ms_def ns_per_ms_def)
  with canonical_timestamp_Ok [OF trunc_ms_rfc3339 [OF assms(1)]]
  show "canonical_timestamp (trunc_ms t) = Ok (t div ns_per_ms)" by simp
qed

theorem timestamp_roundtrip_witness:
  "\<exists>s v. canonical_timestamp 1700000000123456789 = Ok s \<and> canonical_timestamp 1700000000999999999 = Ok v \<and>
     s \<le> v \<and> parse_canonical s = Ok 1700000000123000000 \<and> canonical_timestamp 1700000000123000000 = Ok s"
  using timestamp_roundtrip [of 1700000000123456789 1700000000999999999]
  by (simp add: rfc3339_ok_def year_zero_def max_instant_def trunc_ms_def ns_per_ms_def)

lemma from_str_inv: "from_str name vs n = Inr v \<Longrightarrow> n = name v"
  by (auto simp: from_str_def ok_or_eq_Inr find_Some_iff)

text \<open>
  The stored name of a state, a priority, an event type or a condition status reads back as
  the value, and only the names of values are read.
\<close>

theorem enum_roundtrip:
  "(state_from_str n = Inr st \<longleftrightarrow> n = state_name st) \<and>
   (priority_from_str n = Inr pr \<longleftrightarrow> n = priority_name pr) \<and>
   (event_type_from_str n = Inr ev \<longleftrightarrow> n = event_type_name ev) \<and>
   (condition_status_from_str n = Inr cs \<longleftrightarrow> n = condition_status_name cs)"
proof -
  have "state_from_str n = Inr st \<Longrightarrow> n = state_name st"
    "priority_from_str n = Inr pr \<Longrightarrow> n = priority_name pr"
    "event_type_from_str n = Inr ev \<Longrightarrow> n = event_type_name ev"
    "condition_status_from_str n = Inr cs \<Longrightarrow> n = condition_status_name cs"
    unfolding state_from_str_def priority_from_str_def event_type_from_str_def condition_status_from_str_def
    by (rule from_str_inv, assumption)+
  then show ?thesis by auto
qed

end
