(* ===== verification/Samples.thy ===== *)
theory Samples
  imports Model
begin

text \<open>
  Concrete items at which the properties are applied: a due item of a fixed-interval trigger with
  an hour of grace, read at the instant \<open>t0\<close> (November 2023).
\<close>

definition t0 :: instant where "t0 = 1700000000 * 1000000000"

definition sample_item :: remindi where
  "sample_item =
     \<lparr>remindi_id = 7, owner_id = lit ''owner'', project_id = lit ''proj'', task_id = None,
      message = lit ''water the plants'', instructions = None, state = Due, priority = High,
      trigger = Interval t0 3600, recurrence = Some every_hour, next_fire_at = Some t0,
      next_evaluation_at = None, original_next_fire_at = Some t0, due_since = Some t0,
      snooze_until = None, snoozed_from_state = None, overdue_after_seconds = 3600,
      occurrence_no = 1, source_session_id = None, source_task_lineage_id = None,
      last_checked_at = None, last_condition_status = None, last_condition_detail = None,
      snooze_count = 0, version = 2, created_at = t0, updated_at = t0, completed_at = None,
      cancelled_at = None\<rparr>"

abbreviation scheduled_item :: remindi where
  "scheduled_item \<equiv> sample_item\<lparr>state := Scheduled, due_since := None, version := 1\<rparr>"

abbreviation completed_item :: remindi where
  "completed_item \<equiv> sample_item\<lparr>state := Completed, completed_at := Some t0\<rparr>"

end
