(* ===== verification/Recurrence.thy ===== *)
theory Recurrence
  imports Model Samples
begin

text \<open>
  \<open>src/remindi/recurrence.rs\<close>: bounds of a fixed recurrence, the advance of its anchor after an
  explicit disposition, and the count of ready catch-up occurrences. The \<open>while\<close> loop of
  \<open>advance\<close> has no static bound, so it is a partial function whose \<open>None\<close> is a loop that does
  not end; the lemmas show that it always ends for a valid specification and give its result in
  closed form.
\<close>

section \<open>Validation\<close>

record recurrence_advance =
  adv_next_fire_at :: instant
  adv_occurrence_no :: u64
  adv_skipped_count :: u64

definition validate_recurrence :: "recurrence_spec \<Rightarrow> (domain_error, unit) res" where
  "validate_recurrence spec =
     (if \<not> (60 \<le> every_seconds spec \<and> every_seconds spec \<le> 31536000)
      then Err InvalidRecurrenceInterval
      else if (case max_occurrences spec of None \<Rightarrow> False
               | Some maximum \<Rightarrow> \<not> (1 \<le> maximum \<and> maximum \<le> 1000000))
      then Err InvalidMaxOccurrences
      else Ok ())"

definition validate_for_trigger ::
  "recurrence_spec \<Rightarrow> trigger_spec \<Rightarrow> (domain_error, unit) res" where
  "validate_for_trigger spec trig =
     rbind (validate_recurrence spec) (\<lambda>_.
       case trig of
         Interval _ every \<Rightarrow>
           if every \<noteq> every_seconds spec then Err RecurrenceIntervalMismatch else Ok ()
       | _ \<Rightarrow> Err RecurrenceRequiresIntervalTrigger)"

definition ensure_permitted ::
  "recurrence_spec \<Rightarrow> instant \<Rightarrow> u64 \<Rightarrow> (domain_error, unit) res" where
  "ensure_permitted spec next occurrence =
     (if (case max_occurrences spec of None \<Rightarrow> False | Some maximum \<Rightarrow> occurrence > maximum)
         \<or> (case end_at spec of None \<Rightarrow> False | Some e \<Rightarrow> next > e)
      then Err FinalOccurrence else Ok ())"

text \<open>\<open>Duration::seconds(i64::try_from(self.every_seconds)?)\<close>.\<close>

definition interval_duration :: "recurrence_spec \<Rightarrow> (domain_error, int) res" where
  "interval_duration spec =
     rbind (ok_or InvalidRecurrenceInterval (i64_try_from_u64 (every_seconds spec)))
       (\<lambda>n. Ok (seconds n))"

section \<open>Advancing the anchor\<close>

partial_function (option) advance_loop ::
  "recurrence_spec \<Rightarrow> int \<Rightarrow> instant \<Rightarrow> instant \<Rightarrow> u64 \<Rightarrow> u64
     \<Rightarrow> (domain_error, recurrence_advance) res option" where
  "advance_loop spec interval now next occurrence skipped =
     (if next \<le> now then
        (let skipped' = (if missed_policy spec = Skip then skipped + 1 else skipped) in
         case time_add next interval of
           Inl e \<Rightarrow> Some (Inl e)
         | Inr next' \<Rightarrow>
             (case ensure_permitted spec next' (occurrence + 1) of
                Inl e \<Rightarrow> Some (Inl e)
              | Inr _ \<Rightarrow> advance_loop spec interval now next' (occurrence + 1) skipped'))
      else Some (Ok \<lparr>adv_next_fire_at = next, adv_occurrence_no = occurrence,
                     adv_skipped_count = skipped\<rparr>))"

definition advance ::
  "recurrence_spec \<Rightarrow> instant \<Rightarrow> u64 \<Rightarrow> instant \<Rightarrow> occurrence_disposition
     \<Rightarrow> (domain_error, recurrence_advance) res" where
  "advance spec previous occurrence now disposition =
     rbind (validate_recurrence spec) (\<lambda>_.
     rbind (interval_duration spec) (\<lambda>interval.
     rbind (time_add previous interval) (\<lambda>next.
     rbind (ensure_permitted spec next (occurrence + 1)) (\<lambda>_.
       if missed_policy spec = Coalesce \<or> missed_policy spec = Skip
       then (case advance_loop spec interval now next (occurrence + 1) 0 of
               None \<Rightarrow> Inl Diverge
             | Some r \<Rightarrow> r)
       else Ok \<lparr>adv_next_fire_at = next, adv_occurrence_no = occurrence + 1,
                adv_skipped_count = 0\<rparr>))))"

section \<open>Counting ready occurrences\<close>

function ready_loop ::
  "recurrence_spec \<Rightarrow> int \<Rightarrow> instant \<Rightarrow> nat \<Rightarrow> instant \<Rightarrow> u64 \<Rightarrow> nat
     \<Rightarrow> (domain_error, nat) res" where
  "ready_loop spec interval now maximum anchor number ready =
     (if anchor \<le> now \<and> ready < maximum then
        (case ensure_permitted spec anchor number of
           Inl _ \<Rightarrow> Ok ready
         | Inr _ \<Rightarrow>
             rbind (time_add anchor interval) (\<lambda>anchor'.
               ready_loop spec interval now maximum anchor' (number + 1) (ready + 1)))
      else Ok ready)"
  by pat_completeness auto
termination
  by (relation "measure (\<lambda>(spec, i, now, maximum, a, n, ready). maximum - ready)") auto

declare ready_loop.simps [simp del]

definition ready_occurrences ::
  "recurrence_spec \<Rightarrow> instant \<Rightarrow> u64 \<Rightarrow> instant \<Rightarrow> nat \<Rightarrow> (domain_error, nat) res" where
  "ready_occurrences spec anchor occurrence now maximum =
     rbind (validate_recurrence spec) (\<lambda>_.
       if maximum = 0 then Err InvalidCatchUpLimit
       else rbind (interval_duration spec) (\<lambda>interval.
         ready_loop spec interval now maximum anchor occurrence 0))"

section \<open>The interval of a valid specification\<close>

definition interval_ns :: "recurrence_spec \<Rightarrow> int" where
  "interval_ns spec = seconds (uint (every_seconds spec))"

definition valid_recurrence :: "recurrence_spec \<Rightarrow> bool" where
  "valid_recurrence spec \<longleftrightarrow>
     60 \<le> uint (every_seconds spec) \<and> uint (every_seconds spec) \<le> 31536000 \<and>
     (case max_occurrences spec of None \<Rightarrow> True
      | Some maximum \<Rightarrow> 1 \<le> uint maximum \<and> uint maximum \<le> 1000000)"

lemma validate_recurrence_Ok [res_simps]:
  "validate_recurrence spec = Inr u \<longleftrightarrow> valid_recurrence spec"
  by (auto simp: validate_recurrence_def valid_recurrence_def word_le_def split: option.splits)

lemma validate_recurrence_cases:
  "\<not> valid_recurrence spec \<Longrightarrow>
     validate_recurrence spec = Err InvalidRecurrenceInterval \<or>
     validate_recurrence spec = Err InvalidMaxOccurrences"
  by (auto simp: validate_recurrence_def valid_recurrence_def word_le_def split: option.splits)

lemma interval_ns_bounds:
  "valid_recurrence spec \<Longrightarrow> 60 * ns_per_sec \<le> interval_ns spec"
  "valid_recurrence spec \<Longrightarrow> interval_ns spec \<le> 31536000 * ns_per_sec"
  by (simp_all add: valid_recurrence_def interval_ns_def seconds_def ns_per_sec_def)

lemma interval_ns_pos: "valid_recurrence spec \<Longrightarrow> 0 < interval_ns spec"
  using interval_ns_bounds(1) [of spec] by (simp add: ns_per_sec_def)

lemma interval_duration_valid:
  "valid_recurrence spec \<Longrightarrow> interval_duration spec = Ok (interval_ns spec)"
  by (simp add: interval_duration_def i64_try_from_u64_def valid_recurrence_def i64_max_def
      interval_ns_def)

lemma ensure_permitted_cases: "ensure_permitted spec t n = Ok () \<or> ensure_permitted spec t n = Err FinalOccurrence"
  by (simp add: ensure_permitted_def)

section \<open>The advance loop ends, and where\<close>

text \<open>\<open>m\<close> further intervals are needed, possible and allowed.\<close>

definition loop_run :: "recurrence_spec \<Rightarrow> int \<Rightarrow> instant \<Rightarrow> instant \<Rightarrow> u64 \<Rightarrow> nat \<Rightarrow> bool" where
  "loop_run spec interval now next occurrence m \<longleftrightarrow>
     (\<forall>j<m. next + int j * interval \<le> now) \<and> now < next + int m * interval \<and>
     (\<forall>j\<in>{1..m}. valid_instant (next + int j * interval) \<and>
        ensure_permitted spec (next + int j * interval) (occurrence + of_nat j) = Ok ())"

lemma loop_run_0: "loop_run spec i now next n 0 \<longleftrightarrow> now < next"
  by (simp add: loop_run_def)

lemma loop_run_Suc:
  "loop_run spec i now next n (Suc m) \<longleftrightarrow>
     next \<le> now \<and> valid_instant (next + i) \<and> ensure_permitted spec (next + i) (n + 1) = Ok () \<and>
     loop_run spec i now (next + i) (n + 1) m"
proof -
  have all: "(\<forall>j<Suc m. P j) \<longleftrightarrow> P 0 \<and> (\<forall>j<m. P (Suc j))" for P
    by (auto simp: less_Suc_eq_0_disj)
  show ?thesis
    unfolding loop_run_def ball_1_Suc all by (auto simp: algebra_simps)
qed

definition loop_result ::
  "recurrence_spec \<Rightarrow> int \<Rightarrow> instant \<Rightarrow> u64 \<Rightarrow> u64 \<Rightarrow> nat \<Rightarrow> recurrence_advance" where
  "loop_result spec interval next occurrence skipped m =
     \<lparr>adv_next_fire_at = next + int m * interval, adv_occurrence_no = occurrence + of_nat m,
      adv_skipped_count = (if missed_policy spec = Skip then skipped + of_nat m else skipped)\<rparr>"

lemma advance_loop_run:
  "loop_run spec i now next n m \<Longrightarrow>
     advance_loop spec i now next n sk = Some (Ok (loop_result spec i next n sk m))"
proof (induction m arbitrary: "next" n sk)
  case 0
  then show ?case
    by (subst advance_loop.simps) (simp add: loop_run_0 loop_result_def)
next
  case (Suc m)
  then show ?case
    by (subst advance_loop.simps)
      (simp add: loop_run_Suc time_add_def Let_def loop_result_def algebra_simps)
qed

lemma advance_loop_cases:
  assumes "0 < i"
  shows "(\<exists>m. loop_run spec i now next n m) \<or>
     advance_loop spec i now next n sk \<in> {Some (Err FinalOccurrence), Some (Inl Panic)}"
proof (induction "nat (now + 1 - next)" arbitrary: "next" n sk rule: less_induct)
  case less
  show ?case
  proof (cases "next \<le> now \<and> valid_instant (next + i) \<and> ensure_permitted spec (next + i) (n + 1) = Ok ()")
    case True
    with assms have dec: "nat (now + 1 - (next + i)) < nat (now + 1 - next)" by simp
    from True have step: "advance_loop spec i now next n sk =
        advance_loop spec i now (next + i) (n + 1) (if missed_policy spec = Skip then sk + 1 else sk)"
      by (subst advance_loop.simps) (simp add: time_add_def Let_def)
    from less [OF dec, of "n + 1" "if missed_policy spec = Skip then sk + 1 else sk"] True
    show ?thesis unfolding step using loop_run_Suc [of spec i now "next" n] by blast
  next
    case False
    show ?thesis
    proof (cases "next \<le> now")
      case True
      with False show ?thesis
        using ensure_permitted_cases [of spec "next + i" "n + 1"]
        by (subst advance_loop.simps) (auto simp: time_add_def Let_def)
    next
      case False
      then have "loop_run spec i now next n 0" by (simp add: loop_run_0)
      then show ?thesis by blast
    qed
  qed
qed

lemma loop_count_div:
  assumes "0 < i" and le: "\<forall>j<m. next + int j * i \<le> now" and lt: "now < next + int m * i"
  shows "int m = (if now < next then 0 else (now - next) div i + 1)"
proof (cases m)
  case 0
  with lt show ?thesis by simp
next
  case (Suc k)
  have le_k: "next + int k * i \<le> now" using le Suc by simp
  have "next + int 0 * i \<le> now" using le Suc by blast
  then have "next \<le> now" by simp
  have "(now - next) div i = int k"
    using le_k lt Suc
    by (intro int_div_pos_eq [where r = "now - next - int k * i"]) (simp_all add: algebra_simps)
  with \<open>next \<le> now\<close> Suc show ?thesis by simp
qed

section \<open>Advance in closed form\<close>

text \<open>The number of intervals the anchor moves.\<close>

definition advance_steps :: "recurrence_spec \<Rightarrow> instant \<Rightarrow> instant \<Rightarrow> nat" where
  "advance_steps spec previous now =
     (if missed_policy spec = CatchUp then 1
      else nat (max 1 ((now - previous) div interval_ns spec + 1)))"

definition advance_result :: "recurrence_spec \<Rightarrow> instant \<Rightarrow> u64 \<Rightarrow> nat \<Rightarrow> recurrence_advance" where
  "advance_result spec previous occurrence k =
     \<lparr>adv_next_fire_at = previous + int k * interval_ns spec,
      adv_occurrence_no = occurrence + of_nat k,
      adv_skipped_count = (if missed_policy spec = Skip then of_nat (k - 1) else 0)\<rparr>"

lemma advance_unfold:
  assumes "valid_recurrence spec"
  shows "advance spec previous occurrence now d =
     rbind (time_add previous (interval_ns spec)) (\<lambda>next.
     rbind (ensure_permitted spec next (occurrence + 1)) (\<lambda>_.
       if missed_policy spec = CatchUp
       then Ok (advance_result spec previous occurrence 1)
       else (case advance_loop spec (interval_ns spec) now next (occurrence + 1) 0 of
               None \<Rightarrow> Inl Diverge | Some r \<Rightarrow> r)))"
proof -
  have "validate_recurrence spec = Ok ()" using assms by (simp add: res_simps)
  moreover have "(missed_policy spec = Coalesce \<or> missed_policy spec = Skip)
      \<longleftrightarrow> missed_policy spec \<noteq> CatchUp"
    by (cases "missed_policy spec") simp_all
  ultimately show ?thesis
    by (auto simp: advance_def interval_duration_valid [OF assms] advance_result_def rbind_def
        time_add_def split: sum.splits)
qed

text \<open>A step count \<open>k\<close> is feasible when every anchor up to it is representable and allowed.\<close>

definition steps_permitted :: "recurrence_spec \<Rightarrow> instant \<Rightarrow> u64 \<Rightarrow> nat \<Rightarrow> bool" where
  "steps_permitted spec previous occurrence k \<longleftrightarrow>
     (\<forall>j\<in>{1..k}. valid_instant (previous + int j * interval_ns spec) \<and>
        ensure_permitted spec (previous + int j * interval_ns spec) (occurrence + of_nat j) = Ok ())"

lemma steps_permitted_Suc:
  "steps_permitted spec previous occurrence (Suc m) \<longleftrightarrow>
     valid_instant (previous + interval_ns spec) \<and>
     ensure_permitted spec (previous + interval_ns spec) (occurrence + 1) = Ok () \<and>
     steps_permitted spec (previous + interval_ns spec) (occurrence + 1) m"
  unfolding steps_permitted_def ball_1_Suc by (auto simp: algebra_simps)

lemma loop_run_iff_steps:
  "loop_run spec (interval_ns spec) now next n m \<longleftrightarrow>
     (\<forall>j<m. next + int j * interval_ns spec \<le> now) \<and> now < next + int m * interval_ns spec \<and>
     steps_permitted spec next n m"
  by (simp add: loop_run_def steps_permitted_def)

lemma advance_steps_pos: "1 \<le> advance_steps spec previous now"
  by (auto simp: advance_steps_def)

lemma advance_steps_loop:
  assumes v: "valid_recurrence spec" and nc: "missed_policy spec \<noteq> CatchUp"
    and le: "\<forall>j<m. previous + interval_ns spec + int j * interval_ns spec \<le> now"
    and lt: "now < previous + interval_ns spec + int m * interval_ns spec"
  shows "advance_steps spec previous now = Suc m"
proof -
  let ?i = "interval_ns spec"
  have i: "0 < ?i" by (rule interval_ns_pos) fact
  have m: "int m = (if now < previous + ?i then 0 else (now - (previous + ?i)) div ?i + 1)"
    by (rule loop_count_div [OF i le lt])
  have "(now - previous) div ?i = ((now - (previous + ?i)) + 1 * ?i) div ?i" by simp
  also have "\<dots> = 1 + (now - (previous + ?i)) div ?i"
    using i by (intro div_mult_self1) simp
  finally have shift: "(now - previous) div ?i = (now - (previous + ?i)) div ?i + 1" by simp
  show ?thesis
  proof (cases "now < previous + ?i")
    case True
    then have "(now - (previous + ?i)) div ?i < 0"
      using i by (intro div_neg_pos_less0) simp_all
    with True m nc shift show ?thesis by (simp add: advance_steps_def)
  next
    case False
    then have "0 \<le> (now - (previous + ?i)) div ?i"
      using i by (simp add: pos_imp_zdiv_nonneg_iff)
    with False m nc shift show ?thesis by (simp add: advance_steps_def)
  qed
qed

lemma loop_run_exists:
  assumes i: "0 < i"
  obtains m where "\<forall>j<m. next + int j * i \<le> now" and "now < next + int m * i"
proof (cases "now < next")
  case True
  then show ?thesis using that [of 0] by simp
next
  case False
  define m where "m = nat ((now - next) div i + 1)"
  have m: "int m = (now - next) div i + 1"
    using False i by (simp add: m_def pos_imp_zdiv_nonneg_iff)
  have lower: "(now - next) div i * i \<le> now - next"
    using i by (simp add: div_times_less_eq_dividend minus_mod_eq_div_mult [symmetric])
  have "now - next < (now - next) div i * i + i"
    using i pos_mod_bound [of i "now - next"] div_mult_mod_eq [of "now - next" i] by linarith
  then have "now < next + int m * i" by (simp add: m algebra_simps)
  moreover have "next + int j * i \<le> now" if "j < m" for j
  proof -
    have "int j \<le> (now - next) div i" using that m by linarith
    then have "int j * i \<le> (now - next) div i * i" using i by (intro mult_right_mono) simp_all
    with lower show ?thesis by linarith
  qed
  ultimately show ?thesis using that [of m] by blast
qed

text \<open>The whole behaviour of \<open>advance\<close> on a valid specification.\<close>

lemma advance_permitted:
  assumes v: "valid_recurrence spec"
    and p: "steps_permitted spec previous occurrence (advance_steps spec previous now)"
  shows "advance spec previous occurrence now d =
     Ok (advance_result spec previous occurrence (advance_steps spec previous now))"
proof (cases "missed_policy spec = CatchUp")
  case True
  with p show ?thesis
    by (simp add: advance_unfold [OF v] advance_steps_def steps_permitted_def time_add_def)
next
  case False
  let ?i = "interval_ns spec"
  obtain m where le: "\<forall>j<m. previous + ?i + int j * ?i \<le> now"
    and lt: "now < previous + ?i + int m * ?i"
    using loop_run_exists [OF interval_ns_pos [OF v]] by blast
  have k: "advance_steps spec previous now = Suc m"
    by (rule advance_steps_loop [OF v False le lt])
  with p have q: "valid_instant (previous + ?i)"
      "ensure_permitted spec (previous + ?i) (occurrence + 1) = Ok ()"
      "steps_permitted spec (previous + ?i) (occurrence + 1) m"
    by (simp_all add: steps_permitted_Suc)
  from q(3) le lt have "loop_run spec ?i now (previous + ?i) (occurrence + 1) m"
    by (simp add: loop_run_iff_steps)
  then have "advance_loop spec ?i now (previous + ?i) (occurrence + 1) 0 =
      Some (Ok (loop_result spec ?i (previous + ?i) (occurrence + 1) 0 m))"
    by (rule advance_loop_run)
  with q(1,2) False show ?thesis
    by (simp add: advance_unfold [OF v] time_add_def k loop_result_def advance_result_def
        algebra_simps)
qed

lemma advance_not_permitted:
  assumes v: "valid_recurrence spec"
    and p: "\<not> steps_permitted spec previous occurrence (advance_steps spec previous now)"
  shows "advance spec previous occurrence now d \<in> {Err FinalOccurrence, Inl Panic}"
proof -
  let ?i = "interval_ns spec"
  show ?thesis
  proof (cases "valid_instant (previous + ?i) \<and>
      ensure_permitted spec (previous + ?i) (occurrence + 1) = Ok ()")
    case False
    then show ?thesis
      using ensure_permitted_cases [of spec "previous + ?i" "occurrence + 1"]
      by (auto simp: advance_unfold [OF v] time_add_def)
  next
    case first: True
    have nc: "missed_policy spec \<noteq> CatchUp"
      using p first by (auto simp: advance_steps_def steps_permitted_def)
    have "\<not> loop_run spec ?i now (previous + ?i) (occurrence + 1) m" for m
    proof
      assume "loop_run spec ?i now (previous + ?i) (occurrence + 1) m"
      then have le: "\<forall>j<m. previous + ?i + int j * ?i \<le> now"
        and lt: "now < previous + ?i + int m * ?i"
        and sp: "steps_permitted spec (previous + ?i) (occurrence + 1) m"
        by (simp_all add: loop_run_iff_steps)
      have "advance_steps spec previous now = Suc m"
        by (rule advance_steps_loop [OF v nc le lt])
      with p first sp show False by (simp add: steps_permitted_Suc)
    qed
    then have "advance_loop spec ?i now (previous + ?i) (occurrence + 1) 0
        \<in> {Some (Err FinalOccurrence), Some (Inl Panic)}"
      using advance_loop_cases [OF interval_ns_pos [OF v]] by blast
    with first nc show ?thesis by (auto simp: advance_unfold [OF v] time_add_def)
  qed
qed

lemma advance_Ok_iff:
  assumes v: "valid_recurrence spec"
  shows "advance spec previous occurrence now d = Inr a \<longleftrightarrow>
     steps_permitted spec previous occurrence (advance_steps spec previous now) \<and>
     a = advance_result spec previous occurrence (advance_steps spec previous now)"
proof (cases "steps_permitted spec previous occurrence (advance_steps spec previous now)")
  case True
  then show ?thesis using advance_permitted [OF v True, of d] by auto
next
  case False
  then show ?thesis using advance_not_permitted [OF v False, of d] by auto
qed

lemma advance_invalid:
  "\<not> valid_recurrence spec \<Longrightarrow>
     advance spec previous occurrence now d \<in> {Err InvalidRecurrenceInterval, Err InvalidMaxOccurrences}"
  using validate_recurrence_cases [of spec] by (auto simp: advance_def)

lemma advance_Ok_valid: "advance spec previous occurrence now d = Inr a \<Longrightarrow> valid_recurrence spec"
  by (auto simp: advance_def res_simps)

section \<open>The count of ready occurrences\<close>

text \<open>The first \<open>k\<close> occurrences from the anchor on are due by \<open>now\<close> and allowed.\<close>

definition due_prefix :: "recurrence_spec \<Rightarrow> int \<Rightarrow> instant \<Rightarrow> instant \<Rightarrow> u64 \<Rightarrow> nat \<Rightarrow> bool" where
  "due_prefix spec interval now anchor number k \<longleftrightarrow>
     (\<forall>j<k. anchor + int j * interval \<le> now \<and>
        ensure_permitted spec (anchor + int j * interval) (number + of_nat j) = Ok ())"

lemma due_prefix_0 [simp]: "due_prefix spec i now a n 0"
  by (simp add: due_prefix_def)

lemma due_prefix_Suc:
  "due_prefix spec i now a n (Suc k) \<longleftrightarrow>
     a \<le> now \<and> ensure_permitted spec a n = Ok () \<and> due_prefix spec i now (a + i) (n + 1) k"
proof -
  have all: "(\<forall>j<Suc m. P j) \<longleftrightarrow> P 0 \<and> (\<forall>j<m. P (Suc j))" for P m
    by (auto simp: less_Suc_eq_0_disj)
  show ?thesis unfolding due_prefix_def all by (auto simp: algebra_simps)
qed

lemma ready_loop_result:
  "ready_loop spec i now maximum anchor number ready = Inr r \<Longrightarrow> ready \<le> maximum \<Longrightarrow>
     \<exists>k. r = ready + k \<and> r \<le> maximum \<and> due_prefix spec i now anchor number k \<and>
         (r = maximum \<or> \<not> due_prefix spec i now anchor number (Suc k))"
proof (induction spec i now maximum anchor number ready arbitrary: r rule: ready_loop.induct)
  case (1 spec i now maximum anchor number ready)
  show ?case
  proof (cases "anchor \<le> now \<and> ready < maximum \<and> ensure_permitted spec anchor number = Ok ()")
    case False
    with "1.prems" have r: "r = ready"
      by (subst (asm) ready_loop.simps) (auto split: if_splits sum.splits)
    with False "1.prems"(2) have "r = maximum \<or> \<not> due_prefix spec i now anchor number (Suc 0)"
      by (auto simp: due_prefix_Suc)
    with r "1.prems"(2) show ?thesis by (intro exI [of _ 0]) simp
  next
    case True
    with "1.prems"(1) have rec:
      "ready_loop spec i now maximum (anchor + i) (number + 1) (ready + 1) = Inr r"
      by (subst (asm) ready_loop.simps) (auto simp: res_simps)
    from True "1.prems"(1) have "time_add anchor i = Inr (anchor + i)"
      by (subst (asm) ready_loop.simps) (auto simp: res_simps)
    then obtain k where "r = ready + 1 + k" "r \<le> maximum"
      "due_prefix spec i now (anchor + i) (number + 1) k"
      "r = maximum \<or> \<not> due_prefix spec i now (anchor + i) (number + 1) (Suc k)"
      using "1.IH" [of "()" "anchor + i" r] True rec by auto
    with True show ?thesis
      by (intro exI [of _ "Suc k"]) (auto simp: due_prefix_Suc [of spec i now anchor number])
  qed
qed

section \<open>Properties\<close>

text \<open>
  C@: \<open>advance\<close> returns on every input: its catch-up loop never runs for ever.
\<close>

theorem advance_returns: "advance spec previous occurrence now d \<noteq> Inl Diverge"
proof (cases "valid_recurrence spec")
  case True
  then show ?thesis
    using advance_permitted [OF True, of previous occurrence now d] advance_not_permitted [OF True, of previous occurrence now d]
    by (cases "steps_permitted spec previous occurrence (advance_steps spec previous now)") auto
next
  case False
  then show ?thesis using advance_invalid [OF False, of previous occurrence now d] by auto
qed


lemma hourly_advance:
  "advance every_hour 0 1 (2 * 3600 * 1000000000) Acknowledged =
     Inr \<lparr>adv_next_fire_at = 3 * 3600 * 1000000000, adv_occurrence_no = 4, adv_skipped_count = 0\<rparr>"
  by code_simp (simp add: advance_loop.simps time_add_def ensure_permitted_def valid_instant_def
      min_instant_def max_instant_def)


text \<open>
  C@: \<open>ready_occurrences\<close> counts the occurrences from the anchor on that are due by \<open>now\<close> and
  permitted, and stops at \<open>maximum\<close>: the answer is the length of the longest such prefix, capped.
\<close>

theorem ready_occurrences_counts:
  assumes "ready_occurrences spec anchor occurrence now maximum = Inr n"
  shows "n \<le> maximum \<and> due_prefix spec (interval_ns spec) now anchor occurrence n \<and>
    (n = maximum \<or> \<not> due_prefix spec (interval_ns spec) now anchor occurrence (Suc n))"
proof -
  from assms have v: "valid_recurrence spec"
    by (auto simp: ready_occurrences_def res_simps)
  from assms have "ready_loop spec (interval_ns spec) now maximum anchor occurrence 0 = Inr n"
    by (auto simp: ready_occurrences_def interval_duration_valid [OF v] res_simps split: if_splits)
  from ready_loop_result [OF this] show ?thesis by auto
qed

lemma hourly_ready: "ready_occurrences every_hour 0 1 (2 * 3600 * 1000000000) 5 = Inr 3"
  by code_simp

theorem ready_occurrences_counts_witness:
  "(3::nat) \<le> 5 \<and> due_prefix every_hour (interval_ns every_hour) (2 * 3600 * 1000000000) 0 1 3"
  using ready_occurrences_counts [OF hourly_ready] by simp

end
