(* ===== verification/Evidence.thy ===== *)
theory Evidence
  imports Model Samples
begin

text \<open>
  \<open>src/remindi/evidence.rs\<close>: structural validation of completion evidence. \<open>validate\<close> consumes
  the proposal and returns it normalised (summary trimmed, hash in the canonical
  \<open>sha256:<lower-case hex>\<close> form) or the first error in the order of the checks.
\<close>

datatype evidence_source = AuthenticatedActor | AdapterTrigger

record evidence_input =
  evidence_type :: evidence_type_kind
  summary :: ustring
  reference_uri :: "ustring option"
  content_hash :: "ustring option"
  observed_at :: instant
  metadata :: "json option"
  evidence_source :: evidence_source

datatype validated_evidence = ValidatedEvidence (evidence_of: evidence_input)

section \<open>References and hashes\<close>

text \<open>The scheme bytes: non-ASCII code points are never accepted, as their UTF-8 bytes are not.\<close>

definition valid_uri :: "ustring \<Rightarrow> bool" where
  "valid_uri reference =
     (case split_once (lit '':'') reference of
        None \<Rightarrow> False
      | Some (scheme, remainder) \<Rightarrow>
          (case scheme of [] \<Rightarrow> False | b # _ \<Rightarrow> is_ascii_alphabetic b)
          \<and> list_all (\<lambda>b. is_ascii_alphanumeric b \<or> b = 43 \<or> b = 45 \<or> b = 46) (drop 1 scheme)
          \<and> remainder \<noteq> []
          \<and> \<not> list_ex is_whitespace reference)"

definition authority_contains_credentials :: "ustring \<Rightarrow> bool" where
  "authority_contains_credentials reference =
     (case split_once (lit ''://'') reference of
        None \<Rightarrow> False
      | Some (_, remainder) \<Rightarrow>
          64 \<in> set (takeWhile (\<lambda>c. c \<noteq> 47 \<and> c \<noteq> 63 \<and> c \<noteq> 35) remainder))"

definition validate_reference :: "ustring \<Rightarrow> (domain_error, unit) res" where
  "validate_reference reference =
     (if length reference > 4096 then Err InvalidEvidenceReference
      else if \<not> valid_uri reference then Err InvalidEvidenceReference
      else if authority_contains_credentials reference then Err EvidenceReferenceContainsCredentials
      else Ok ())"

definition normalize_hash :: "ustring \<Rightarrow> (domain_error, ustring) res" where
  "normalize_hash hash =
     (let value = (case strip_prefix (lit ''sha256:'') hash of Some v \<Rightarrow> v | None \<Rightarrow> hash)
      in if utf8_len value \<noteq> 64 \<or> \<not> list_all is_ascii_hexdigit value
         then Err InvalidContentHash
         else Ok (lit ''sha256:'' @ to_ascii_lowercase value))"

section \<open>Validation\<close>

text \<open>A \<open>std::time::Duration\<close> in nanoseconds; \<open>time::Duration::try_from\<close> fails past \<open>i64::MAX\<close>
  seconds.\<close>

type_synonym std_duration = nat

text \<open>\<open>Duration::from_secs\<close>, in nanoseconds.\<close>

definition from_secs :: "nat \<Rightarrow> std_duration" where "from_secs n = n * 1000000000"

definition duration_try_from :: "std_duration \<Rightarrow> int option" where
  "duration_try_from d = (if int d div ns_per_sec \<le> i64_max then Some (int d) else None)"

definition validate_evidence ::
  "evidence_input \<Rightarrow> instant \<Rightarrow> std_duration \<Rightarrow> (domain_error, validated_evidence) res" where
  "validate_evidence ev now maximum_future_skew =
     (let ev1 = ev\<lparr>summary := trim (summary ev)\<rparr>;
          normalized_summary = to_ascii_lowercase (summary ev1)
      in if summary ev1 = [] \<or> length (summary ev1) > 4096
            \<or> normalized_summary = lit ''done'' \<or> normalized_summary = lit ''looks good''
         then Err EmptyEvidenceAssertion
         else if evidence_source ev1 = AdapterTrigger
         then Err AdapterResultIsNotCompletionEvidence
         else if reference_uri ev1 = None \<and> content_hash ev1 = None
         then Err StableEvidenceReferenceRequired
         else
           rbind (case reference_uri ev1 of None \<Rightarrow> Ok () | Some r \<Rightarrow> validate_reference r) (\<lambda>_.
           rbind (transpose_map normalize_hash (content_hash ev1)) (\<lambda>hash.
           let ev2 = ev1\<lparr>content_hash := hash\<rparr> in
           if (case metadata ev2 of None \<Rightarrow> False | Some v \<Rightarrow> \<not> is_object v)
           then Err EvidenceMetadataMustBeObject
           else
             rbind (ok_or EvidenceObservedInFuture (duration_try_from maximum_future_skew)) (\<lambda>skew.
             rbind (time_add now skew) (\<lambda>limit.
               if observed_at ev2 > limit then Err EvidenceObservedInFuture
               else Ok (ValidatedEvidence ev2))))))"

section \<open>What a validated record satisfies\<close>

definition canonical_hash :: "ustring \<Rightarrow> bool" where
  "canonical_hash h \<longleftrightarrow>
     (\<exists>v. h = lit ''sha256:'' @ v \<and> length v = 64 \<and>
        list_all (\<lambda>c. is_ascii_digit c \<or> (97 \<le> c \<and> c \<le> 102)) v)"

definition sound_evidence :: "evidence_input \<Rightarrow> bool" where
  "sound_evidence ev \<longleftrightarrow>
     summary ev \<noteq> [] \<and> trim (summary ev) = summary ev \<and> length (summary ev) \<le> 4096 \<and>
     evidence_source ev = AuthenticatedActor \<and>
     (reference_uri ev \<noteq> None \<or> content_hash ev \<noteq> None) \<and>
     (\<forall>u. reference_uri ev = Some u \<longrightarrow> valid_uri u \<and> \<not> authority_contains_credentials u) \<and>
     (\<forall>h. content_hash ev = Some h \<longrightarrow> canonical_hash h) \<and>
     (\<forall>m. metadata ev = Some m \<longrightarrow> is_object m)"

lemma hexdigit_lower:
  "is_ascii_hexdigit c \<Longrightarrow>
     is_ascii_digit (if 65 \<le> c \<and> c \<le> 90 then c + 32 else c) \<or>
     (97 \<le> (if 65 \<le> c \<and> c \<le> 90 then c + 32 else c) \<and> (if 65 \<le> c \<and> c \<le> 90 then c + 32 else c) \<le> 102)"
  by (auto simp: is_ascii_hexdigit_def is_ascii_digit_def)

lemma normalize_hash_canonical: "normalize_hash hash = Inr h \<Longrightarrow> canonical_hash h"
proof -
  assume eq: "normalize_hash hash = Inr h"
  define v where "v = (case strip_prefix (lit ''sha256:'') hash of Some v \<Rightarrow> v | None \<Rightarrow> hash)"
  from eq have len: "utf8_len v = 64" and hex: "list_all is_ascii_hexdigit v"
    and h: "h = lit ''sha256:'' @ to_ascii_lowercase v"
    by (auto simp: normalize_hash_def v_def Let_def split: if_splits)
  from hex have "utf8_len v = length v"
    by (intro utf8_len_ascii) (auto simp: list_all_iff is_ascii_hexdigit_def is_ascii_digit_def)
  with len have "length (to_ascii_lowercase v) = 64" by (simp add: to_ascii_lowercase_def)
  moreover have "list_all (\<lambda>c. is_ascii_digit c \<or> (97 \<le> c \<and> c \<le> 102)) (to_ascii_lowercase v)"
    unfolding to_ascii_lowercase_def list_all_iff
    using hex hexdigit_lower by (fastforce simp: list_all_iff)
  ultimately show ?thesis unfolding canonical_hash_def h by blast
qed

lemma to_ascii_lowercase_id:
  "list_all (\<lambda>c. is_ascii_digit c \<or> (97 \<le> c \<and> c \<le> 102)) v \<Longrightarrow> to_ascii_lowercase v = v"
  by (induction v) (auto simp: to_ascii_lowercase_def is_ascii_digit_def)

lemma normalize_hash_idem:
  assumes "canonical_hash h"
  shows "normalize_hash h = Ok h"
proof -
  from assms obtain v where h: "h = lit ''sha256:'' @ v" and len: "length v = 64"
    and v: "list_all (\<lambda>c. is_ascii_digit c \<or> (97 \<le> c \<and> c \<le> 102)) v"
    by (auto simp: canonical_hash_def)
  have "utf8_len v = 64"
    using v len utf8_len_ascii [of v] by (fastforce simp: list_all_iff is_ascii_digit_def)
  moreover have "list_all is_ascii_hexdigit v"
    using v by (auto simp: list_all_iff is_ascii_hexdigit_def)
  moreover have "strip_prefix (lit ''sha256:'') h = Some v"
    by (simp add: strip_prefix_def h)
  ultimately show ?thesis by (simp add: normalize_hash_def h to_ascii_lowercase_id [OF v])
qed

lemma validate_evidence_Ok:
  assumes "validate_evidence ev now skew = Inr v"
  shows "sound_evidence (evidence_of v)"
    and "observed_at (evidence_of v) = observed_at ev"
    and "observed_at ev \<le> now + int skew"
proof -
  have nt: "evidence_source ev = AuthenticatedActor \<longleftrightarrow> evidence_source ev \<noteq> AdapterTrigger"
    by (cases "evidence_source ev") simp_all
  show "sound_evidence (evidence_of v)"
    using assms
    by (auto simp: validate_evidence_def Let_def res_simps sound_evidence_def validate_reference_def nt
        duration_try_from_def dest: normalize_hash_canonical split: if_splits option.splits)
  show "observed_at (evidence_of v) = observed_at ev"
    using assms
    by (auto simp: validate_evidence_def Let_def res_simps split: if_splits option.splits)
  show "observed_at ev \<le> now + int skew"
    using assms
    by (auto simp: validate_evidence_def Let_def res_simps duration_try_from_def
        split: if_splits option.splits)
qed

section \<open>Properties\<close>

text \<open>
  Evidence that passes validation is sound: a trimmed non-empty summary of at most 4096
  characters from an authenticated actor, a stable reference (a URI without credentials or a
  canonical SHA-256), object metadata, and an observation no later than the allowed clock skew.
  Validation is also stable: validated evidence passes again and is not changed.
\<close>

theorem validated_evidence_sound:
  assumes "validate_evidence ev now skew = Inr v"
  shows "sound_evidence (evidence_of v) \<and> observed_at (evidence_of v) \<le> now + int skew \<and>
    validate_evidence (evidence_of v) now skew = Inr v"
proof -
  note ok = validate_evidence_Ok [OF assms]
  from assms obtain hash d where h: "transpose_map normalize_hash (content_hash ev) = Inr hash"
    and e: "evidence_of v = ev\<lparr>summary := trim (summary ev), content_hash := hash\<rparr>"
    and v: "v = ValidatedEvidence (evidence_of v)"
    and nd: "to_ascii_lowercase (trim (summary ev)) \<noteq> lit ''done''"
      "to_ascii_lowercase (trim (summary ev)) \<noteq> lit ''looks good''"
    and ref: "(case reference_uri ev of None \<Rightarrow> Ok () | Some r \<Rightarrow> validate_reference r) = Ok ()"
    and d: "duration_try_from skew = Some d" "valid_instant (now + d)" "observed_at ev \<le> now + d"
    by (auto simp: validate_evidence_def Let_def rbind_eq_Inr ok_or_eq_Inr time_add_eq_Inr
        split: if_splits)
  have hash: "transpose_map normalize_hash hash = Ok hash"
    using ok(1) normalize_hash_idem by (cases hash) (auto simp: sound_evidence_def e)
  have s: "summary (evidence_of v) = trim (summary ev)" "content_hash (evidence_of v) = hash"
    "reference_uri (evidence_of v) = reference_uri ev" "metadata (evidence_of v) = metadata ev"
    "evidence_source (evidence_of v) = evidence_source ev" "observed_at (evidence_of v) = observed_at ev"
    by (simp_all add: e)
  have src: "evidence_source ev = AuthenticatedActor"
    and obj: "\<not> (case metadata ev of None \<Rightarrow> False | Some m \<Rightarrow> \<not> is_object m)"
    using ok(1) by (auto simp: sound_evidence_def e split: option.splits)
  have same: "(evidence_of v)\<lparr>summary := trim (summary ev), content_hash := hash\<rparr> = evidence_of v"
    by (simp add: e)
  have "validate_evidence (evidence_of v) now skew = Ok (ValidatedEvidence (evidence_of v))"
    using ok(1) nd d src obj
    by (simp add: validate_evidence_def Let_def s hash ref same sound_evidence_def time_add_def)
  with ok v show ?thesis by simp
qed

definition sample_evidence :: evidence_input where
  "sample_evidence = \<lparr>evidence_type = TestResult, summary = lit ''  all tests pass '',
     reference_uri = Some (lit ''https://ci.example/run/7''), content_hash = None, observed_at = t0,
     metadata = None, evidence_source = AuthenticatedActor\<rparr>"

lemma sample_evidence_valid:
  "validate_evidence sample_evidence t0 5 =
     Inr (ValidatedEvidence (sample_evidence\<lparr>summary := lit ''all tests pass''\<rparr>))"
  by (simp add: validate_evidence_def sample_evidence_def trim_def is_whitespace_def to_ascii_lowercase_def
      validate_reference_def valid_uri_def authority_contains_credentials_def strip_prefix_def
      is_ascii_alphabetic_def is_ascii_alphanumeric_def is_ascii_digit_def duration_try_from_def
      ns_per_sec_def i64_max_def time_add_def valid_instant_def min_instant_def max_instant_def t0_def Let_def)

theorem validated_evidence_sound_witness:
  "sound_evidence (sample_evidence\<lparr>summary := lit ''all tests pass''\<rparr>)"
  using validated_evidence_sound [OF sample_evidence_valid] by simp

end
