(* ===== verification/StateMachine.thy ===== *)
theory StateMachine
  imports Model Samples
begin

text \<open>
  \<open>src/remindi/state_machine.rs\<close>: the four lifecycle commands of an item. A method that takes
  \<open>&mut self\<close> returns the updated item with its event; every check comes before the first
  assignment, so on an error the item is unchanged. \<open>item_wf\<close> is the lifecycle invariant: the
  table constraints of \<open>migrations/0001_initial.sql\<close> and the link between the ready states and
  \<open>due_since\<close>.
\<close>

section \<open>Commands\<close>

definition clear_snooze :: "remindi \<Rightarrow> remindi" where
  "clear_snooze r = r\<lparr>snooze_until := None, snoozed_from_state := None\<rparr>"

definition snooze_item ::
  "remindi \<Rightarrow> instant \<Rightarrow> ustring \<Rightarrow> instant \<Rightarrow> (domain_error, remindi \<times> event_type_kind) res" where
  "snooze_item r until reason now =
     (if is_terminal (state r) then Err TerminalState
      else if \<not> (state r = Due \<or> state r = Overdue) then Err SnoozeRequiresReadyState
      else if trim reason = [] then Err ReasonRequired
      else if until \<le> now then Err SnoozeMustBeFuture
      else Ok (r\<lparr>snoozed_from_state := Some (state r),
                 snooze_until := Some until,
                 state := Snoozed,
                 snooze_count := snooze_count r + 1,
                 version := version r + 1,
                 updated_at := now\<rparr>, E_Snoozed))"

text \<open>\<open>complete\<close> reads only the summary of the validated evidence.\<close>

definition complete_item ::
  "remindi \<Rightarrow> ustring \<Rightarrow> instant \<Rightarrow> (domain_error, remindi \<times> event_type_kind) res" where
  "complete_item r evidence_summary now =
     (if \<not> is_active (state r) then Err TerminalState
      else if evidence_summary = [] then Err CompletionEvidenceRequired
      else Ok ((clear_snooze r)\<lparr>state := Completed,
                 completed_at := Some now,
                 version := version r + 1,
                 updated_at := now\<rparr>, E_Completed))"

definition cancel_item ::
  "remindi \<Rightarrow> ustring \<Rightarrow> instant \<Rightarrow> (domain_error, remindi \<times> event_type_kind) res" where
  "cancel_item r reason now =
     (if \<not> is_active (state r) then Err TerminalState
      else if trim reason = [] then Err ReasonRequired
      else Ok ((clear_snooze r)\<lparr>state := Cancelled,
                 cancelled_at := Some now,
                 version := version r + 1,
                 updated_at := now\<rparr>, E_Cancelled))"

definition replace_trigger ::
  "remindi \<Rightarrow> trigger_spec \<Rightarrow> instant option \<Rightarrow> instant
     \<Rightarrow> (domain_error, remindi \<times> event_type_kind) res" where
  "replace_trigger r trig next now =
     (if \<not> is_active (state r) then Err TerminalState
      else rbind (validate_trigger trig) (\<lambda>_.
        let r1 = r\<lparr>trigger := trig, next_fire_at := next, original_next_fire_at := next,
                   next_evaluation_at := None\<rparr>;
            r2 = (if state r1 = Snoozed
                  then (clear_snooze (r1\<lparr>due_since := None\<rparr>))\<lparr>state := Scheduled\<rparr>
                  else r1)
        in Ok (r2\<lparr>version := version r2 + 1, updated_at := now\<rparr>, E_Updated)))"

section \<open>The lifecycle invariant\<close>

definition snooze_wf :: "remindi \<Rightarrow> bool" where
  "snooze_wf r \<longleftrightarrow>
     (if state r = Snoozed
      then snooze_until r \<noteq> None \<and> snoozed_from_state r \<in> {Some Due, Some Overdue}
      else snooze_until r = None \<and> snoozed_from_state r = None)"

definition terminal_wf :: "remindi \<Rightarrow> bool" where
  "terminal_wf r \<longleftrightarrow>
     (completed_at r \<noteq> None \<longleftrightarrow> state r = Completed) \<and>
     (cancelled_at r \<noteq> None \<longleftrightarrow> state r = Cancelled)"

definition due_wf :: "remindi \<Rightarrow> bool" where
  "due_wf r \<longleftrightarrow>
     (state r \<in> {Due, Overdue, Snoozed} \<longrightarrow> due_since r \<noteq> None) \<and>
     (state r = Scheduled \<longrightarrow> due_since r = None)"

definition item_wf :: "remindi \<Rightarrow> bool" where
  "item_wf r \<longleftrightarrow> snooze_wf r \<and> terminal_wf r \<and> due_wf r"

lemmas item_wf_defs = item_wf_def snooze_wf_def terminal_wf_def due_wf_def

text \<open>What no command may touch: identity, ownership, provenance and creation time.\<close>

definition same_identity :: "remindi \<Rightarrow> remindi \<Rightarrow> bool" where
  "same_identity a b \<longleftrightarrow>
     remindi_id a = remindi_id b \<and> owner_id a = owner_id b \<and> project_id a = project_id b \<and>
     task_id a = task_id b \<and> source_session_id a = source_session_id b \<and>
     source_task_lineage_id a = source_task_lineage_id b \<and> created_at a = created_at b"

lemma same_identity_refl [simp]: "same_identity r r"
  by (simp add: same_identity_def)

lemma same_identity_trans: "same_identity a b \<Longrightarrow> same_identity b c \<Longrightarrow> same_identity a c"
  by (simp add: same_identity_def)

text \<open>The contract of a successful command: one version step, identity kept, stamped now.\<close>

definition command_step :: "remindi \<Rightarrow> remindi \<Rightarrow> instant \<Rightarrow> bool" where
  "command_step r r' now \<longleftrightarrow>
     same_identity r r' \<and> version r' = version r + 1 \<and> updated_at r' = now"

section \<open>Success, inverted\<close>

lemma snooze_item_Ok [res_simps]:
  "snooze_item r until reason now = Inr y \<longleftrightarrow>
     (state r = Due \<or> state r = Overdue) \<and> trim reason \<noteq> [] \<and> now < until \<and>
     y = (r\<lparr>snoozed_from_state := Some (state r), snooze_until := Some until, state := Snoozed,
            snooze_count := snooze_count r + 1, version := version r + 1, updated_at := now\<rparr>,
          E_Snoozed)"
  by (auto simp: snooze_item_def is_terminal_def)

lemma complete_item_Ok [res_simps]:
  "complete_item r s now = Inr y \<longleftrightarrow>
     is_active (state r) \<and> s \<noteq> [] \<and>
     y = ((clear_snooze r)\<lparr>state := Completed, completed_at := Some now,
            version := version r + 1, updated_at := now\<rparr>, E_Completed)"
  by (auto simp: complete_item_def)

lemma cancel_item_Ok [res_simps]:
  "cancel_item r reason now = Inr y \<longleftrightarrow>
     is_active (state r) \<and> trim reason \<noteq> [] \<and>
     y = ((clear_snooze r)\<lparr>state := Cancelled, cancelled_at := Some now,
            version := version r + 1, updated_at := now\<rparr>, E_Cancelled)"
  by (auto simp: cancel_item_def)

lemma replace_trigger_Ok:
  "replace_trigger r trig next now = Inr (r', e) \<longleftrightarrow>
     is_active (state r) \<and> validate_trigger trig = Ok () \<and> e = E_Updated \<and>
     r' = (if state r = Snoozed
           then r\<lparr>trigger := trig, next_fire_at := next, original_next_fire_at := next,
                  next_evaluation_at := None, due_since := None, snooze_until := None,
                  snoozed_from_state := None, state := Scheduled,
                  version := version r + 1, updated_at := now\<rparr>
           else r\<lparr>trigger := trig, next_fire_at := next, original_next_fire_at := next,
                  next_evaluation_at := None, version := version r + 1, updated_at := now\<rparr>)"
  by (auto simp: replace_trigger_def res_simps Let_def clear_snooze_def)

section \<open>Preservation\<close>

lemma snooze_item_wf [wf_intros]:
  "snooze_item r until reason now = Inr (r', e) \<Longrightarrow> item_wf r \<Longrightarrow> item_wf r'"
  by (auto simp: res_simps item_wf_defs)

lemma complete_item_wf [wf_intros]:
  "complete_item r s now = Inr (r', e) \<Longrightarrow> item_wf r \<Longrightarrow> item_wf r'"
  by (auto simp: res_simps item_wf_defs clear_snooze_def is_active_def)

lemma cancel_item_wf [wf_intros]:
  "cancel_item r reason now = Inr (r', e) \<Longrightarrow> item_wf r \<Longrightarrow> item_wf r'"
  by (auto simp: res_simps item_wf_defs clear_snooze_def is_active_def)

lemma replace_trigger_wf [wf_intros]:
  "replace_trigger r trig next now = Inr (r', e) \<Longrightarrow> item_wf r \<Longrightarrow> item_wf r'"
  by (auto simp: replace_trigger_Ok item_wf_defs is_active_def)

lemma snooze_item_step: "snooze_item r until reason now = Inr (r', e) \<Longrightarrow> command_step r r' now"
  by (auto simp: res_simps command_step_def same_identity_def)

lemma complete_item_step: "complete_item r s now = Inr (r', e) \<Longrightarrow> command_step r r' now"
  by (auto simp: res_simps command_step_def same_identity_def clear_snooze_def)

lemma cancel_item_step: "cancel_item r reason now = Inr (r', e) \<Longrightarrow> command_step r r' now"
  by (auto simp: res_simps command_step_def same_identity_def clear_snooze_def)

lemma replace_trigger_step:
  "replace_trigger r trig next now = Inr (r', e) \<Longrightarrow> command_step r r' now"
  by (auto simp: replace_trigger_Ok command_step_def same_identity_def)

section \<open>Terminal items\<close>

lemma terminal_rejects_all:
  assumes "is_terminal (state r)"
  shows "snooze_item r until reason now = Err TerminalState"
    and "complete_item r s now = Err TerminalState"
    and "cancel_item r reason now = Err TerminalState"
    and "replace_trigger r trig next now = Err TerminalState"
  using assms
  by (simp_all add: snooze_item_def complete_item_def cancel_item_def replace_trigger_def
      is_active_iff_not_terminal)

lemma snooze_keeps_schedule:
  "snooze_item r until reason now = Inr (r', e) \<Longrightarrow>
     next_fire_at r' = next_fire_at r \<and> original_next_fire_at r' = original_next_fire_at r \<and>
     due_since r' = due_since r \<and> occurrence_no r' = occurrence_no r"
  by (auto simp: res_simps)

section \<open>Properties\<close>

text \<open>The outcome of a command on an item: the promise for a success, nothing for an error.\<close>

definition command_ok ::
  "remindi \<Rightarrow> instant \<Rightarrow> (domain_error, remindi \<times> event_type_kind) res \<Rightarrow> bool" where
  "command_ok r now res \<longleftrightarrow> (\<forall>r' e. res = Inr (r', e) \<longrightarrow> item_wf r' \<and> command_step r r' now)"

text \<open>
  Every successful lifecycle command on a well-formed item keeps it well formed (the snooze
  columns, the terminal timestamps and \<open>due_since\<close> agree with the state), keeps its identity,
  raises its version by one and stamps it with the current time.
\<close>

theorem commands_preserve:
  assumes "item_wf r"
  shows "command_ok r now (snooze_item r until reason now) \<and>
    command_ok r now (complete_item r s now) \<and>
    command_ok r now (cancel_item r reason now) \<and>
    command_ok r now (replace_trigger r trig nf now)"
  unfolding command_ok_def using assms
  by (blast intro: snooze_item_wf snooze_item_step complete_item_wf complete_item_step
      cancel_item_wf cancel_item_step replace_trigger_wf replace_trigger_step)

theorem commands_preserve_witness:
  "command_ok sample_item t0 (snooze_item sample_item (t0 + 1) (lit ''later'') t0) \<and>
   item_wf (fst (projr (snooze_item sample_item (t0 + 1) (lit ''later'') t0)))"
proof -
  have wf: "item_wf sample_item" by (simp add: sample_item_def item_wf_defs)
  note c = commands_preserve [OF wf, of t0 "t0 + 1" "lit ''later''" "[]" NextSession None, THEN conjunct1]
  have "\<exists>y. snooze_item sample_item (t0 + 1) (lit ''later'') t0 = Inr y"
    by (simp add: snooze_item_Ok sample_item_def trim_def is_whitespace_def)
  with c show ?thesis by (auto simp: command_ok_def)
qed

text \<open>
  A terminal item rejects every command with \<open>TerminalState\<close>, and the error branches of
  \<open>snooze\<close> are taken in the order of the source: state, reason, deadline.
\<close>

theorem terminal_rejects:
  "is_terminal (state r) \<Longrightarrow>
     snooze_item r until reason now = Err TerminalState \<and>
     complete_item r s now = Err TerminalState \<and>
     cancel_item r reason now = Err TerminalState \<and>
     replace_trigger r trig nf now = Err TerminalState"
  using terminal_rejects_all by blast

theorem terminal_rejects_witness:
  "complete_item completed_item (lit ''proof'') t0 = Err TerminalState"
  using terminal_rejects [of completed_item t0 "[]" t0 "lit ''proof''" NextSession None]
  by (simp add: is_terminal_def)

text \<open>
  C@: \<open>snooze\<close> succeeds exactly for a ready item, a reason with a character that is not white
  space and a deadline in the future; it then keeps the schedule, \<open>due_since\<close> and the occurrence,
  and remembers the state it left.
\<close>

theorem snooze_exact:
  "(\<exists>y. snooze_item r until reason now = Inr y) \<longleftrightarrow>
     (state r = Due \<or> state r = Overdue) \<and> (\<exists>c \<in> set reason. \<not> is_whitespace c) \<and> now < until"
  by (auto simp: snooze_item_Ok trim_eq_Nil)

end
