(* ===== verification/Requests.thy ===== *)
theory Requests
  imports Recurrence Evidence StateMachine
begin

text \<open>
  The request types of \<open>src/remindi/service.rs\<close>, its error type and the mappings into it, and
  the pure validation and normalisation helpers the handlers run before they touch the database.
\<close>

section \<open>Actors and requests\<close>

record actor =
  actor_type :: actor_type_kind
  actor_id :: ustring
  request_id :: "ustring option"

definition agent_actor :: "ustring \<Rightarrow> ustring option \<Rightarrow> actor" where
  "agent_actor aid rid = \<lparr>actor_type = A_Agent, actor_id = aid, request_id = rid\<rparr>"

record link_input =
  li_type :: link_type_kind
  li_value :: ustring

record add_request =
  ar_project_id :: ustring
  ar_task_id :: "ustring option"
  ar_message :: ustring
  ar_instructions :: "ustring option"
  ar_priority :: priority_level
  ar_trigger :: trigger_spec
  ar_recurrence :: "recurrence_spec option"
  ar_overdue_after_seconds :: u64
  ar_links :: "link_input list"
  ar_session_id :: "ustring option"
  ar_task_lineage_id :: "ustring option"
  ar_idempotency_key :: ustring

record complete_request =
  cr_remindi_id :: uuid
  cr_expected_version :: u64
  cr_evidence :: evidence_input
  cr_completion_note :: "ustring option"
  cr_idempotency_key :: ustring

record snooze_request =
  sr_remindi_id :: uuid
  sr_expected_version :: u64
  sr_snooze_until :: instant
  sr_reason :: ustring
  sr_idempotency_key :: ustring

record update_request =
  ur_remindi_id :: uuid
  ur_expected_version :: u64
  ur_message :: "ustring option"
  ur_instructions :: "ustring option option"
  ur_priority :: "priority_level option"
  ur_trigger :: "trigger_spec option"
  ur_recurrence :: "recurrence_spec option option"
  ur_overdue_after_seconds :: "u64 option"
  ur_links :: "link_input list option"
  ur_disposition :: "occurrence_disposition option"
  ur_reason :: ustring
  ur_idempotency_key :: ustring

record cancel_request =
  xr_remindi_id :: uuid
  xr_expected_version :: u64
  xr_reason :: ustring
  xr_idempotency_key :: ustring

section \<open>Errors\<close>

datatype service_error =
    Validation
  | NotFound
  | InvalidState
  | VersionConflict u64
  | IdempotencyKeyReused
  | InvalidCursor
  | DatabaseBusy
  | MaintenanceActive
  | Internal

text \<open>A \<open>sqlx::Error\<close> is a database error with its code, or any other kind.\<close>

datatype sqlx_error = SqlxDatabase "string option" | SqlxOther

datatype repository_error = RepoSql sqlx_error | InvalidData

datatype database_error =
    MissingParent
  | WorldWritableDirectory
  | WrongOwner
  | NewerSchema int
  | MigrationDrift int
  | InvalidBootstrapRows
  | Integrity
  | MaintenanceInProgress
  | Closed
  | DbSql sqlx_error
  | DbIo

fun map_domain :: "domain_error \<Rightarrow> service_error" where
  "map_domain TerminalState = InvalidState"
| "map_domain SnoozeRequiresReadyState = InvalidState"
| "map_domain FinalOccurrence = InvalidState"
| "map_domain _ = Validation"

definition sqlite_busy :: "string option \<Rightarrow> bool" where
  "sqlite_busy code \<longleftrightarrow> code = Some ''5'' \<or> code = Some ''6''"

fun map_database :: "database_error \<Rightarrow> service_error" where
  "map_database MaintenanceInProgress = MaintenanceActive"
| "map_database Closed = MaintenanceActive"
| "map_database (DbSql (SqlxDatabase code)) = (if sqlite_busy code then DatabaseBusy else Internal)"
| "map_database _ = Internal"

fun map_repository :: "repository_error \<Rightarrow> service_error" where
  "map_repository (RepoSql (SqlxDatabase code)) = (if sqlite_busy code then DatabaseBusy else Internal)"
| "map_repository _ = Internal"

section \<open>Field validation\<close>

definition validate_actor :: "actor \<Rightarrow> (service_error, unit) res" where
  "validate_actor a = (if trim (actor_id a) = [] then Err Validation else Ok ())"

definition validate_idempotency_key :: "ustring \<Rightarrow> (service_error, unit) res" where
  "validate_idempotency_key key =
     (if 8 \<le> utf8_len key \<and> utf8_len key \<le> 128
         \<and> list_all (\<lambda>b. is_ascii_alphanumeric b \<or> b = 46 \<or> b = 95 \<or> b = 58 \<or> b = 45) key
      then Ok () else Err Validation)"

definition validate_expected_version :: "u64 \<Rightarrow> (service_error, unit) res" where
  "validate_expected_version v = (if v = 0 then Err Validation else Ok ())"

definition required_text :: "ustring \<Rightarrow> nat \<Rightarrow> (service_error, ustring) res" where
  "required_text value maximum =
     (let trimmed = trim value in
      if trimmed = [] \<or> length trimmed > maximum then Err Validation else Ok trimmed)"

definition optional_text :: "ustring option \<Rightarrow> nat \<Rightarrow> (service_error, ustring option) res" where
  "optional_text value maximum = transpose_map (\<lambda>v. required_text v maximum) value"

definition optional_context :: "ustring option \<Rightarrow> nat \<Rightarrow> (service_error, ustring option) res" where
  "optional_context value maximum =
     rbind (transpose_map (\<lambda>v. let trimmed = trim v in
              if length trimmed > maximum then Err Validation
              else if trimmed = [] then Ok None
              else Ok (Some trimmed)) value)
       (\<lambda>v. Ok (case v of None \<Rightarrow> None | Some w \<Rightarrow> w))"

definition optional_bounded :: "ustring option \<Rightarrow> nat \<Rightarrow> (service_error, ustring option) res" where
  "optional_bounded value maximum =
     transpose_map (\<lambda>v. if length v \<le> maximum then Ok v else Err Validation) value"

definition trigger_type :: "trigger_spec \<Rightarrow> string" where
  "trigger_type trig =
     (case trig of
        AtTime _ \<Rightarrow> ''at_time''
      | AfterElapsed _ \<Rightarrow> ''after_elapsed''
      | Interval _ _ \<Rightarrow> ''interval''
      | NextSession \<Rightarrow> ''next_session''
      | NextContinuation \<Rightarrow> ''next_continuation''
      | GoalActive _ \<Rightarrow> ''goal_active''
      | Condition _ _ _ _ \<Rightarrow> ''condition'')"

definition validate_trigger_types :: "ustring list \<Rightarrow> (service_error, unit) res" where
  "validate_trigger_types values =
     (if list_all (\<lambda>v. v \<in> set (map lit [''at_time'', ''after_elapsed'', ''interval'', ''next_session'',
           ''next_continuation'', ''goal_active'', ''condition''])) values
      then Ok () else Err Validation)"

text \<open>The loop of \<open>validate_links\<close>, with the links before the current index.\<close>

fun links_ok :: "link_input list \<Rightarrow> link_input list \<Rightarrow> bool" where
  "links_ok earlier [] = True"
| "links_ok earlier (l # ls) =
     (if trim (li_value l) = [] \<or> length (li_value l) > 2048
         \<or> list_ex (\<lambda>p. li_type p = li_type l \<and> li_value p = li_value l) earlier
      then False else links_ok (earlier @ [l]) ls)"

definition validate_links :: "link_input list \<Rightarrow> (service_error, unit) res" where
  "validate_links ls =
     (if length ls > 100 then Err Validation
      else if links_ok [] ls then Ok () else Err Validation)"

definition validate_goal_link ::
  "trigger_spec \<Rightarrow> link_input list \<Rightarrow> (service_error, unit) res" where
  "validate_goal_link trig ls =
     (case trig of
        GoalActive goal_id \<Rightarrow>
          (let matching = length (filter (\<lambda>l. li_type l = L_Goal \<and> li_value l = goal_id) ls);
               all_goals = length (filter (\<lambda>l. li_type l = L_Goal) ls)
           in if matching = 1 \<and> all_goals = 1 then Ok () else Err Validation)
      | _ \<Rightarrow> Ok ())"

definition links_of :: "link_input list \<Rightarrow> instant \<Rightarrow> remindi_link list" where
  "links_of values now =
     map (\<lambda>l. \<lparr>link_type = li_type l, link_value = li_value l, link_created_at = now\<rparr>) values"

definition has_update :: "update_request \<Rightarrow> bool" where
  "has_update u \<longleftrightarrow>
     ur_message u \<noteq> None \<or> ur_instructions u \<noteq> None \<or> ur_priority u \<noteq> None \<or>
     ur_trigger u \<noteq> None \<or> ur_recurrence u \<noteq> None \<or> ur_overdue_after_seconds u \<noteq> None \<or>
     ur_links u \<noteq> None \<or> ur_disposition u \<noteq> None"

definition max_page :: nat where "max_page = 200"

definition page_limit :: "nat \<Rightarrow> nat \<Rightarrow> (service_error, nat) res" where
  "page_limit value dflt =
     (let v = (if value = 0 then dflt else value) in
      if v \<le> max_page then Ok v else Err Validation)"

section \<open>Times\<close>

text \<open>\<open>nanosecond()\<close> is the sub-second part; replacing it by whole milliseconds cannot fail.\<close>

definition normalize_instant :: "instant \<Rightarrow> (service_error, instant) res" where
  "normalize_instant value =
     rbind (to_utc value) (\<lambda>t.
       let ns = t mod ns_per_sec in Ok (t - ns + ns div 1000000 * 1000000))"

fun normalize_trigger :: "trigger_spec \<Rightarrow> (service_error, trigger_spec) res" where
  "normalize_trigger (AtTime at) = rbind (normalize_instant at) (\<lambda>t. Ok (AtTime t))"
| "normalize_trigger (Interval first every) =
     rbind (normalize_instant first) (\<lambda>t. Ok (Interval t every))"
| "normalize_trigger (Condition adapter params poll manual) =
     rbind (transpose_map normalize_instant manual) (\<lambda>m. Ok (Condition adapter params poll m))"
| "normalize_trigger trig = Ok trig"

definition normalize_recurrence ::
  "recurrence_spec \<Rightarrow> (service_error, recurrence_spec) res" where
  "normalize_recurrence spec =
     rbind (transpose_map normalize_instant (end_at spec)) (\<lambda>e. Ok (spec\<lparr>end_at := e\<rparr>))"

definition initial_next_fire_at ::
  "trigger_spec \<Rightarrow> instant \<Rightarrow> (service_error, instant option) res" where
  "initial_next_fire_at trig now =
     (case trig of
        AtTime at \<Rightarrow> Ok (Some at)
      | AfterElapsed after_seconds \<Rightarrow>
          rbind (ok_or Validation (i64_try_from_u64 after_seconds)) (\<lambda>n.
          rbind (time_add now (seconds n)) (\<lambda>t. Ok (Some t)))
      | Interval first_at _ \<Rightarrow> Ok (Some first_at)
      | _ \<Rightarrow> Ok None)"

definition initial_next_evaluation_at ::
  "trigger_spec \<Rightarrow> instant \<Rightarrow> (service_error, instant option) res" where
  "initial_next_evaluation_at trig now =
     (case trig of
        Condition _ _ poll manual \<Rightarrow>
          rbind (transpose_map (\<lambda>n. time_add now (seconds n))
                  (i64_try_from_u64 (case poll of None \<Rightarrow> 30 | Some s \<Rightarrow> s))) (\<lambda>p.
            Ok (case (p, manual) of
                  (Some p, Some m) \<Rightarrow> Some (min p m)
                | (Some p, None) \<Rightarrow> Some p
                | (None, m) \<Rightarrow> m))
      | _ \<Rightarrow> Ok None)"

section \<open>Facts about the helpers\<close>

lemma required_text_Ok [res_simps]:
  "required_text v n = Inr t \<longleftrightarrow> t = trim v \<and> t \<noteq> [] \<and> length t \<le> n"
  by (auto simp: required_text_def Let_def)

lemma required_text_idem: "required_text v n = Inr t \<Longrightarrow> required_text t n = Inr t"
  by (auto simp: res_simps)

lemma validate_actor_Ok [res_simps]: "validate_actor a = Inr u \<longleftrightarrow> trim (actor_id a) \<noteq> []"
  by (simp add: validate_actor_def)

lemma validate_expected_version_Ok [res_simps]:
  "validate_expected_version v = Inr u \<longleftrightarrow> v \<noteq> 0"
  by (simp add: validate_expected_version_def)

lemma page_limit_Ok [res_simps]:
  "page_limit v d = Inr n \<longleftrightarrow> n = (if v = 0 then d else v) \<and> n \<le> max_page"
  by (auto simp: page_limit_def Let_def)

lemma links_ok_iff:
  "links_ok earlier ls \<longleftrightarrow>
     (\<forall>l\<in>set ls. trim (li_value l) \<noteq> [] \<and> length (li_value l) \<le> 2048) \<and>
     distinct (map (\<lambda>l. (li_type l, li_value l)) ls) \<and>
     (\<forall>p\<in>set earlier. \<forall>l\<in>set ls. (li_type p, li_value p) \<noteq> (li_type l, li_value l))"
proof (induction ls arbitrary: earlier)
  case (Cons l ls)
  show ?case
    by (auto simp: Cons.IH list_ex_iff)
qed simp

lemma validate_links_Ok [res_simps]:
  "validate_links ls = Inr u \<longleftrightarrow>
     length ls \<le> 100 \<and>
     (\<forall>l\<in>set ls. trim (li_value l) \<noteq> [] \<and> length (li_value l) \<le> 2048) \<and>
     distinct (map (\<lambda>l. (li_type l, li_value l)) ls)"
  by (auto simp: validate_links_def links_ok_iff)

lemma validate_goal_link_Ok:
  "validate_goal_link (GoalActive g) ls = Inr u \<longleftrightarrow>
     filter (\<lambda>l. li_type l = L_Goal) ls = [\<lparr>li_type = L_Goal, li_value = g\<rparr>]"
proof -
  let ?goals = "filter (\<lambda>l. li_type l = L_Goal) ls"
  have m: "filter (\<lambda>l. li_type l = L_Goal \<and> li_value l = g) ls = filter (\<lambda>l. li_value l = g) ?goals"
    by (simp add: conj_commute)
  show ?thesis
  proof
    assume "validate_goal_link (GoalActive g) ls = Inr u"
    then have one: "length ?goals = 1" and match: "length (filter (\<lambda>l. li_value l = g) ?goals) = 1"
      by (auto simp: validate_goal_link_def Let_def m [symmetric] split: if_splits)
    from one obtain l where l: "?goals = [l]" by (auto simp: length_Suc_conv)
    with match have "li_value l = g" by (auto split: if_splits)
    moreover have "l \<in> set ?goals" by (simp only: l) simp
    then have "li_type l = L_Goal" by simp
    ultimately have "l = \<lparr>li_type = L_Goal, li_value = g\<rparr>" by simp
    with l show "?goals = [\<lparr>li_type = L_Goal, li_value = g\<rparr>]" by simp
  next
    assume "?goals = [\<lparr>li_type = L_Goal, li_value = g\<rparr>]"
    then show "validate_goal_link (GoalActive g) ls = Inr u"
      by (simp add: validate_goal_link_def m)
  qed
qed

lemma normalize_instant_eq:
  "normalize_instant v = (if valid_instant v then Ok (trunc_ms v) else Inl Panic)"
proof -
  have "t - t mod ns_per_sec + t mod ns_per_sec div 1000000 * 1000000 = trunc_ms t" for t :: int
  proof -
    let ?q = "t div ns_per_sec" and ?n = "t mod ns_per_sec"
    have t: "t = ?n + (?q * 1000) * ns_per_ms"
      using div_mult_mod_eq [of t ns_per_sec] by (simp add: ns_per_sec_def ns_per_ms_def)
    have "t div ns_per_ms = (?n + (?q * 1000) * ns_per_ms) div ns_per_ms"
      using t by simp
    also have "\<dots> = ?q * 1000 + ?n div ns_per_ms"
      by (rule div_mult_self1) (simp add: ns_per_ms_def)
    finally have "trunc_ms t = (?q * 1000 + ?n div ns_per_ms) * ns_per_ms"
      by (simp add: trunc_ms_def)
    moreover have "t - ?n = (?q * 1000) * ns_per_ms" using t by linarith
    ultimately show ?thesis by (simp add: ns_per_ms_def algebra_simps)
  qed
  then show ?thesis by (simp add: normalize_instant_def to_utc_def Let_def)
qed

lemma map_domain_cases:
  "map_domain e = InvalidState \<longleftrightarrow> e \<in> {TerminalState, SnoozeRequiresReadyState, FinalOccurrence}"
  by (cases e) simp_all

end
