(* ===== verification/Database.thy ===== *)
theory Database
  imports Requests Samples
begin

text \<open>
  The tables of \<open>migrations/0001_initial.sql\<close> the service writes, their \<open>CHECK\<close> constraints, and
  the column codec of \<open>src/remindi/repository.rs\<close> (\<open>remindi_from_row\<close>, the bindings of the write
  statements and their helpers). Columns hold what SQLite stores: enum names as text, timestamps
  as canonical texts (their millisecond counts), counters as \<open>i64\<close>. JSON columns hold the value
  their text denotes.
\<close>

section \<open>Rows\<close>

record remindi_row =
  c_id :: uuid
  c_owner_id :: ustring
  c_project_id :: ustring
  c_task_id :: "ustring option"
  c_message :: ustring
  c_instructions :: "ustring option"
  c_state :: string
  c_priority :: string
  c_trigger_type :: string
  c_trigger_spec :: trigger_spec
  c_recurrence_spec :: "recurrence_spec option"
  c_next_fire_at :: "stamp option"
  c_next_evaluation_at :: "stamp option"
  c_original_next_fire_at :: "stamp option"
  c_due_since :: "stamp option"
  c_snooze_until :: "stamp option"
  c_snoozed_from_state :: "string option"
  c_overdue_after_seconds :: int
  c_occurrence_no :: int
  c_source_session_id :: "ustring option"
  c_source_task_lineage_id :: "ustring option"
  c_last_checked_at :: "stamp option"
  c_last_condition_status :: "string option"
  c_last_condition_detail :: "ustring option"
  c_snooze_count :: int
  c_version :: int
  c_created_at :: stamp
  c_updated_at :: stamp
  c_completed_at :: "stamp option"
  c_cancelled_at :: "stamp option"

record link_row =
  k_remindi_id :: uuid
  k_link_type :: link_type_kind
  k_link_value :: ustring
  k_created_at :: stamp

record event_row =
  e_sequence :: int
  e_event_id :: uuid
  e_remindi_id :: uuid
  e_event_type :: string
  e_actor_type :: actor_type_kind
  e_actor_id :: ustring
  e_request_id :: "ustring option"
  e_occurred_at :: stamp
  e_prior_version :: "int option"
  e_new_version :: "int option"
  e_details :: json

record evidence_row =
  v_id :: uuid
  v_remindi_id :: uuid
  v_evidence_type :: evidence_type_kind
  v_summary :: ustring
  v_reference_uri :: "ustring option"
  v_content_hash :: "ustring option"
  v_observed_at :: stamp
  v_recorded_at :: stamp
  v_recorded_by :: ustring
  v_metadata :: "json option"

text \<open>The request digest (hex SHA-256) as a number; the response as the item it serialises.\<close>

type_synonym digest = nat

record idempotency_row =
  i_actor_id :: ustring
  i_tool_name :: string
  i_key :: ustring
  i_request_hash :: digest
  i_response :: remindi
  i_remindi_id :: uuid
  i_created_at :: stamp
  i_expires_at :: stamp

record lease_row =
  s_lease_name :: string
  s_holder_id :: ustring
  s_acquired_at :: stamp
  s_expires_at :: stamp
  s_version :: int

record runtime_row =
  t_component :: string
  t_desired_state :: string
  t_version :: int
  t_updated_at :: stamp
  t_updated_by :: ustring

record db =
  remindi_table :: "remindi_row list"
  link_table :: "link_row list"
  event_table :: "event_row list"
  last_sequence :: int
  evidence_table :: "evidence_row list"
  idempotency_table :: "idempotency_row list"
  lease_table :: "lease_row list"
  runtime_table :: "runtime_row list"

section \<open>Constraints\<close>

text \<open>SQLite's \<open>length\<close> counts the characters before the first NUL.\<close>

definition sql_length :: "ustring \<Rightarrow> nat" where
  "sql_length s = length (takeWhile (\<lambda>c. c \<noteq> 0) s)"

definition check_remindi :: "remindi_row \<Rightarrow> bool" where
  "check_remindi r \<longleftrightarrow>
     1 \<le> sql_length (c_message r) \<and> sql_length (c_message r) \<le> 8192 \<and>
     (case c_instructions r of None \<Rightarrow> True | Some s \<Rightarrow> sql_length s \<le> 32768) \<and>
     c_state r \<in> set (map state_name state_variants) \<and>
     c_priority r \<in> set (map priority_name priority_variants) \<and>
     (c_snoozed_from_state r = None \<or> c_snoozed_from_state r = Some ''due''
        \<or> c_snoozed_from_state r = Some ''overdue'') \<and>
     0 \<le> c_overdue_after_seconds r \<and> 1 \<le> c_occurrence_no r \<and> 0 \<le> c_snooze_count r \<and>
     1 \<le> c_version r \<and>
     ((c_state r = ''completed'' \<and> c_completed_at r \<noteq> None \<and> c_cancelled_at r = None)
      \<or> (c_state r = ''cancelled'' \<and> c_cancelled_at r \<noteq> None \<and> c_completed_at r = None)
      \<or> (c_state r \<noteq> ''completed'' \<and> c_state r \<noteq> ''cancelled''
          \<and> c_completed_at r = None \<and> c_cancelled_at r = None)) \<and>
     ((c_state r = ''snoozed'' \<and> c_snooze_until r \<noteq> None \<and> c_snoozed_from_state r \<noteq> None)
      \<or> (c_state r \<noteq> ''snoozed'' \<and> c_snooze_until r = None \<and> c_snoozed_from_state r = None))"

definition check_link :: "link_row \<Rightarrow> bool" where
  "check_link l \<longleftrightarrow> 1 \<le> sql_length (k_link_value l) \<and> sql_length (k_link_value l) \<le> 2048"

definition check_evidence :: "evidence_row \<Rightarrow> bool" where
  "check_evidence v \<longleftrightarrow>
     1 \<le> sql_length (v_summary v) \<and> sql_length (v_summary v) \<le> 4096 \<and>
     (v_reference_uri v \<noteq> None \<or> v_content_hash v \<noteq> None)"

section \<open>The column codec\<close>

definition timestamp :: "instant \<Rightarrow> (repository_error, stamp) res" where
  "timestamp value = map_err (\<lambda>_. InvalidData) (canonical_timestamp value)"

definition optional_timestamp :: "instant option \<Rightarrow> (repository_error, stamp option) res" where
  "optional_timestamp value = transpose_map timestamp value"

definition required_time :: "stamp \<Rightarrow> (repository_error, instant) res" where
  "required_time column = map_err (\<lambda>_. InvalidData) (parse_canonical column)"

definition optional_time :: "stamp option \<Rightarrow> (repository_error, instant option) res" where
  "optional_time column = transpose_map required_time column"

definition i64_from_u64 :: "u64 \<Rightarrow> (repository_error, int) res" where
  "i64_from_u64 value = ok_or InvalidData (i64_try_from_u64 value)"

definition u64_from_i64 :: "int \<Rightarrow> (repository_error, u64) res" where
  "u64_from_i64 value = ok_or InvalidData (u64_try_from_i64 value)"

definition optional_u64 :: "int option \<Rightarrow> (repository_error, u64 option) res" where
  "optional_u64 column = transpose_map u64_from_i64 column"

definition parse_enum :: "(string \<Rightarrow> (domain_error, 'a) res) \<Rightarrow> string \<Rightarrow> (repository_error, 'a) res" where
  "parse_enum from column = map_err (\<lambda>_. InvalidData) (from column)"

definition optional_enum ::
  "(string \<Rightarrow> (domain_error, 'a) res) \<Rightarrow> string option \<Rightarrow> (repository_error, 'a option) res" where
  "optional_enum from column = transpose_map (parse_enum from) column"

definition trigger_name :: "trigger_spec \<Rightarrow> string" where
  "trigger_name trig =
     (case trig of
        AtTime _ \<Rightarrow> ''at_time''
      | AfterElapsed _ \<Rightarrow> ''after_elapsed''
      | Interval _ _ \<Rightarrow> ''interval''
      | NextSession \<Rightarrow> ''next_session''
      | NextContinuation \<Rightarrow> ''next_continuation''
      | GoalActive _ \<Rightarrow> ''goal_active''
      | Condition _ _ _ _ \<Rightarrow> ''condition'')"

text \<open>
  Serialising a trigger or a recurrence writes its instants with \<open>time::serde::rfc3339\<close>, which
  refuses a year outside 0 to 9999.
\<close>

fun trigger_serializable :: "trigger_spec \<Rightarrow> bool" where
  "trigger_serializable (AtTime at) = rfc3339_ok at"
| "trigger_serializable (Interval first_at _) = rfc3339_ok first_at"
| "trigger_serializable (Condition _ _ _ manual) = (case manual of None \<Rightarrow> True | Some t \<Rightarrow> rfc3339_ok t)"
| "trigger_serializable _ = True"

definition recurrence_serializable :: "recurrence_spec option \<Rightarrow> bool" where
  "recurrence_serializable v =
     (case v of None \<Rightarrow> True | Some spec \<Rightarrow> (case end_at spec of None \<Rightarrow> True | Some t \<Rightarrow> rfc3339_ok t))"

definition json_trigger :: "trigger_spec \<Rightarrow> (repository_error, trigger_spec) res" where
  "json_trigger t = (if trigger_serializable t then Ok t else Err InvalidData)"

definition json_recurrence ::
  "recurrence_spec option \<Rightarrow> (repository_error, recurrence_spec option) res" where
  "json_recurrence v = (if recurrence_serializable v then Ok v else Err InvalidData)"

text \<open>The bound columns of \<open>INSERT\<close> and \<open>UPDATE\<close>, in the order of the \<open>bind\<close> calls.\<close>

definition row_of :: "remindi \<Rightarrow> (repository_error, remindi_row) res" where
  "row_of item =
     rbind (json_trigger (trigger item)) (\<lambda>trig.
     rbind (json_recurrence (recurrence item)) (\<lambda>recur.
     rbind (optional_timestamp (next_fire_at item)) (\<lambda>nfire.
     rbind (optional_timestamp (next_evaluation_at item)) (\<lambda>neval.
     rbind (optional_timestamp (original_next_fire_at item)) (\<lambda>onfire.
     rbind (optional_timestamp (due_since item)) (\<lambda>due.
     rbind (optional_timestamp (snooze_until item)) (\<lambda>snz.
     rbind (i64_from_u64 (overdue_after_seconds item)) (\<lambda>grace.
     rbind (i64_from_u64 (occurrence_no item)) (\<lambda>occ.
     rbind (optional_timestamp (last_checked_at item)) (\<lambda>checked.
     rbind (i64_from_u64 (snooze_count item)) (\<lambda>snzc.
     rbind (i64_from_u64 (version item)) (\<lambda>ver.
     rbind (timestamp (created_at item)) (\<lambda>created.
     rbind (timestamp (updated_at item)) (\<lambda>updated.
     rbind (optional_timestamp (completed_at item)) (\<lambda>completed.
     rbind (optional_timestamp (cancelled_at item)) (\<lambda>cancelled.
       Ok \<lparr>c_id = remindi_id item, c_owner_id = owner_id item, c_project_id = project_id item,
           c_task_id = task_id item, c_message = message item, c_instructions = instructions item,
           c_state = state_name (state item), c_priority = priority_name (priority item),
           c_trigger_type = trigger_name (trigger item), c_trigger_spec = trig,
           c_recurrence_spec = recur, c_next_fire_at = nfire, c_next_evaluation_at = neval,
           c_original_next_fire_at = onfire, c_due_since = due, c_snooze_until = snz,
           c_snoozed_from_state = map_option state_name (snoozed_from_state item),
           c_overdue_after_seconds = grace, c_occurrence_no = occ,
           c_source_session_id = source_session_id item,
           c_source_task_lineage_id = source_task_lineage_id item, c_last_checked_at = checked,
           c_last_condition_status = map_option condition_status_name (last_condition_status item),
           c_last_condition_detail = last_condition_detail item, c_snooze_count = snzc,
           c_version = ver, c_created_at = created, c_updated_at = updated,
           c_completed_at = completed, c_cancelled_at = cancelled\<rparr>))))))))))))))))"

definition remindi_from_row :: "remindi_row \<Rightarrow> (repository_error, remindi) res" where
  "remindi_from_row r =
     rbind (parse_enum state_from_str (c_state r)) (\<lambda>st.
     rbind (parse_enum priority_from_str (c_priority r)) (\<lambda>prio.
     rbind (optional_time (c_next_fire_at r)) (\<lambda>nfire.
     rbind (optional_time (c_next_evaluation_at r)) (\<lambda>neval.
     rbind (optional_time (c_original_next_fire_at r)) (\<lambda>onfire.
     rbind (optional_time (c_due_since r)) (\<lambda>due.
     rbind (optional_time (c_snooze_until r)) (\<lambda>snz.
     rbind (optional_enum state_from_str (c_snoozed_from_state r)) (\<lambda>from.
     rbind (u64_from_i64 (c_overdue_after_seconds r)) (\<lambda>grace.
     rbind (u64_from_i64 (c_occurrence_no r)) (\<lambda>occ.
     rbind (optional_time (c_last_checked_at r)) (\<lambda>checked.
     rbind (optional_enum condition_status_from_str (c_last_condition_status r)) (\<lambda>cond.
     rbind (u64_from_i64 (c_snooze_count r)) (\<lambda>snzc.
     rbind (u64_from_i64 (c_version r)) (\<lambda>ver.
     rbind (required_time (c_created_at r)) (\<lambda>created.
     rbind (required_time (c_updated_at r)) (\<lambda>updated.
     rbind (optional_time (c_completed_at r)) (\<lambda>completed.
     rbind (optional_time (c_cancelled_at r)) (\<lambda>cancelled.
       Ok \<lparr>remindi_id = c_id r, owner_id = c_owner_id r, project_id = c_project_id r,
           task_id = c_task_id r, message = c_message r, instructions = c_instructions r,
           state = st, priority = prio, trigger = c_trigger_spec r, recurrence = c_recurrence_spec r,
           next_fire_at = nfire, next_evaluation_at = neval, original_next_fire_at = onfire,
           due_since = due, snooze_until = snz, snoozed_from_state = from,
           overdue_after_seconds = grace, occurrence_no = occ,
           source_session_id = c_source_session_id r,
           source_task_lineage_id = c_source_task_lineage_id r, last_checked_at = checked,
           last_condition_status = cond, last_condition_detail = c_last_condition_detail r,
           snooze_count = snzc, version = ver, created_at = created, updated_at = updated,
           completed_at = completed, cancelled_at = cancelled\<rparr>))))))))))))))))))"

section \<open>The codec round trip\<close>

text \<open>What storing and reading back makes of an item: every instant loses its sub-millisecond part.\<close>

definition stored :: "remindi \<Rightarrow> remindi" where
  "stored r = r\<lparr>
     next_fire_at := map_option trunc_ms (next_fire_at r),
     next_evaluation_at := map_option trunc_ms (next_evaluation_at r),
     original_next_fire_at := map_option trunc_ms (original_next_fire_at r),
     due_since := map_option trunc_ms (due_since r),
     snooze_until := map_option trunc_ms (snooze_until r),
     last_checked_at := map_option trunc_ms (last_checked_at r),
     created_at := trunc_ms (created_at r),
     updated_at := trunc_ms (updated_at r),
     completed_at := map_option trunc_ms (completed_at r),
     cancelled_at := map_option trunc_ms (cancelled_at r)\<rparr>"

abbreviation opt_ok :: "instant option \<Rightarrow> bool" where
  "opt_ok v \<equiv> (\<forall>t. v = Some t \<longrightarrow> rfc3339_ok t)"

definition times_ok :: "remindi \<Rightarrow> bool" where
  "times_ok r \<longleftrightarrow>
     opt_ok (next_fire_at r) \<and> opt_ok (next_evaluation_at r) \<and> opt_ok (original_next_fire_at r) \<and>
     opt_ok (due_since r) \<and> opt_ok (snooze_until r) \<and> opt_ok (last_checked_at r) \<and>
     rfc3339_ok (created_at r) \<and> rfc3339_ok (updated_at r) \<and> opt_ok (completed_at r) \<and>
     opt_ok (cancelled_at r)"

definition counters_ok :: "remindi \<Rightarrow> bool" where
  "counters_ok r \<longleftrightarrow>
     uint (overdue_after_seconds r) \<le> i64_max \<and> uint (occurrence_no r) \<le> i64_max \<and>
     uint (snooze_count r) \<le> i64_max \<and> uint (version r) \<le> i64_max"

definition storable :: "remindi \<Rightarrow> bool" where
  "storable r \<longleftrightarrow> times_ok r \<and> counters_ok r \<and> trigger_serializable (trigger r) \<and>
     recurrence_serializable (recurrence r)"

abbreviation stamp_of :: "instant \<Rightarrow> stamp" where "stamp_of t \<equiv> t div ns_per_ms"

definition columns :: "remindi \<Rightarrow> remindi_row" where
  "columns item =
     \<lparr>c_id = remindi_id item, c_owner_id = owner_id item, c_project_id = project_id item,
      c_task_id = task_id item, c_message = message item, c_instructions = instructions item,
      c_state = state_name (state item), c_priority = priority_name (priority item),
      c_trigger_type = trigger_name (trigger item), c_trigger_spec = trigger item,
      c_recurrence_spec = recurrence item,
      c_next_fire_at = map_option stamp_of (next_fire_at item),
      c_next_evaluation_at = map_option stamp_of (next_evaluation_at item),
      c_original_next_fire_at = map_option stamp_of (original_next_fire_at item),
      c_due_since = map_option stamp_of (due_since item),
      c_snooze_until = map_option stamp_of (snooze_until item),
      c_snoozed_from_state = map_option state_name (snoozed_from_state item),
      c_overdue_after_seconds = uint (overdue_after_seconds item),
      c_occurrence_no = uint (occurrence_no item),
      c_source_session_id = source_session_id item,
      c_source_task_lineage_id = source_task_lineage_id item,
      c_last_checked_at = map_option stamp_of (last_checked_at item),
      c_last_condition_status = map_option condition_status_name (last_condition_status item),
      c_last_condition_detail = last_condition_detail item,
      c_snooze_count = uint (snooze_count item), c_version = uint (version item),
      c_created_at = stamp_of (created_at item), c_updated_at = stamp_of (updated_at item),
      c_completed_at = map_option stamp_of (completed_at item),
      c_cancelled_at = map_option stamp_of (cancelled_at item)\<rparr>"

lemma timestamp_Ok: "rfc3339_ok t \<Longrightarrow> timestamp t = Ok (stamp_of t)"
  by (simp add: timestamp_def canonical_timestamp_Ok)

lemma optional_timestamp_Ok: "opt_ok v \<Longrightarrow> optional_timestamp v = Ok (map_option stamp_of v)"
  by (cases v) (simp_all add: optional_timestamp_def timestamp_Ok)

lemma required_time_stamp: "rfc3339_ok t \<Longrightarrow> required_time (stamp_of t) = Ok (trunc_ms t)"
  by (simp add: required_time_def parse_canonical_stamp)

lemma optional_time_stamp:
  "opt_ok v \<Longrightarrow> optional_time (map_option stamp_of v) = Ok (map_option trunc_ms v)"
  by (cases v) (simp_all add: optional_time_def required_time_stamp)

lemma i64_from_u64_Ok: "uint w \<le> i64_max \<Longrightarrow> i64_from_u64 w = Ok (uint w)"
  by (simp add: i64_from_u64_def i64_try_from_u64_def)

lemma u64_from_i64_uint [simp]: "u64_from_i64 (uint w) = Ok w"
  by (simp add: u64_from_i64_def u64_try_from_i64_def)

lemma row_of_storable: "storable item \<Longrightarrow> row_of item = Ok (columns item)"
  by (simp add: row_of_def storable_def times_ok_def counters_ok_def json_trigger_def
      json_recurrence_def optional_timestamp_Ok timestamp_Ok i64_from_u64_Ok columns_def)

lemma optional_enum_state [simp]:
  "optional_enum state_from_str (map_option state_name v) = Ok v"
  by (cases v) (simp_all add: optional_enum_def parse_enum_def)

lemma optional_enum_condition [simp]:
  "optional_enum condition_status_from_str (map_option condition_status_name v) = Ok v"
  by (cases v) (simp_all add: optional_enum_def parse_enum_def)

lemma from_row_columns: "times_ok item \<Longrightarrow> remindi_from_row (columns item) = Ok (stored item)"
  by (simp add: remindi_from_row_def columns_def times_ok_def parse_enum_def optional_time_stamp
      required_time_stamp stored_def)

lemma row_of_version:
  "row_of item = Inr r \<Longrightarrow> c_version r = uint (version item) \<and> uint (version item) \<le> i64_max \<and>
     c_id r = remindi_id item \<and> c_owner_id r = owner_id item"
  by (auto simp: row_of_def res_simps i64_from_u64_def i64_try_from_u64_def split: if_splits)

lemma row_of_names:
  "row_of item = Inr r \<Longrightarrow> c_state r = state_name (state item) \<and> c_trigger_spec r = trigger item \<and>
     c_trigger_type r = trigger_name (trigger item)"
  by (auto simp: row_of_def res_simps json_trigger_def split: if_splits)

text \<open>A successful \<open>row_of\<close> is \<open>columns\<close>, whatever the range of the instants.\<close>

lemma timestamp_eq: "timestamp t = Inr s \<Longrightarrow> s = stamp_of t"
  by (auto simp: timestamp_def res_simps)

lemma optional_timestamp_eq: "optional_timestamp v = Inr s \<Longrightarrow> s = map_option stamp_of v"
  by (auto simp: optional_timestamp_def res_simps dest: timestamp_eq)

lemma i64_from_u64_eq: "i64_from_u64 w = Inr i \<Longrightarrow> i = uint w"
  by (auto simp: i64_from_u64_def i64_try_from_u64_def res_simps split: if_splits)

lemma row_of_columns: "row_of item = Inr r \<Longrightarrow> r = columns item"
  unfolding row_of_def columns_def
  by (auto simp: res_simps json_trigger_def json_recurrence_def split: if_splits
      dest!: timestamp_eq optional_timestamp_eq i64_from_u64_eq)

lemma from_row_version:
  "remindi_from_row r = Inr item \<Longrightarrow>
     c_version r = uint (version item) \<or> i64_max < c_version r"
proof -
  assume "remindi_from_row r = Inr item"
  then have "u64_from_i64 (c_version r) = Inr (version item)"
    by (auto simp: remindi_from_row_def res_simps)
  then have "0 \<le> c_version r" and "version item = word_of_int (c_version r)"
    by (auto simp: u64_from_i64_def u64_try_from_i64_def res_simps split: if_splits)
  then show ?thesis
    by (cases "c_version r \<le> i64_max") (auto simp: i64_max_def uint_word_of_int)
qed

lemma from_row_identity:
  "remindi_from_row r = Inr item \<Longrightarrow> remindi_id item = c_id r \<and> owner_id item = c_owner_id r"
  by (auto simp: remindi_from_row_def res_simps)

lemma stored_simps [simp]:
  "remindi_id (stored r) = remindi_id r" "owner_id (stored r) = owner_id r"
  "version (stored r) = version r" "state (stored r) = state r" "trigger (stored r) = trigger r"
  "recurrence (stored r) = recurrence r" "occurrence_no (stored r) = occurrence_no r"
  "snoozed_from_state (stored r) = snoozed_from_state r"
  by (simp_all add: stored_def)

lemma stored_idem [simp]: "stored (stored r) = stored r"
  by (simp add: stored_def option.map_comp comp_def)

lemma stored_wf: "item_wf r \<Longrightarrow> item_wf (stored r)"
  by (auto simp: item_wf_defs stored_def)

section \<open>Properties\<close>

text \<open>
  C20: the codec of the item table: an item whose instants and counters fit the columns is written
  and read back as the same item with its instants cut to milliseconds; reading what was read
  and written again changes nothing.
\<close>

theorem row_roundtrip:
  assumes "storable item"
  shows "\<exists>row. row_of item = Ok row \<and> remindi_from_row row = Ok (stored item) \<and> row_of (stored item) = Ok row"
proof -
  have t: "times_ok item" using assms by (simp add: storable_def)
  have "storable (stored item)"
    using assms trunc_ms_rfc3339 by (auto simp: storable_def times_ok_def counters_ok_def stored_def)
  moreover have "columns (stored item) = columns item"
    by (simp add: columns_def stored_def option.map_comp comp_def trunc_ms_def ns_per_ms_def)
  ultimately show ?thesis
    using row_of_storable [OF assms] row_of_storable from_row_columns [OF t] by fastforce
qed

theorem row_roundtrip_witness:
  "\<exists>row. row_of (sample_item\<lparr>last_checked_at := Some (t0 + 123456789)\<rparr>) = Ok row \<and>
     remindi_from_row row = Ok (sample_item\<lparr>last_checked_at := Some (t0 + 123000000)\<rparr>)"
proof -
  have st: "storable (sample_item\<lparr>last_checked_at := Some (t0 + 123456789)\<rparr>)"
    by (simp add: storable_def times_ok_def counters_ok_def sample_item_def rfc3339_ok_def year_zero_def
        max_instant_def t0_def i64_max_def recurrence_serializable_def every_hour_def)
  have "stored (sample_item\<lparr>last_checked_at := Some (t0 + 123456789)\<rparr>) =
      sample_item\<lparr>last_checked_at := Some (t0 + 123000000)\<rparr>"
    by (simp add: stored_def sample_item_def t0_def trunc_ms_def ns_per_ms_def)
  with row_roundtrip [OF st] show ?thesis by auto
qed

text \<open>
  The lifecycle invariant is what the table's \<open>CHECK\<close> constraints ask: for a row of an item
  with a text of 1 to 8192 characters without NUL, bounded instructions and positive counters, the
  constraints hold exactly if the snooze columns and the terminal timestamps agree with the state.
\<close>

theorem constraints_are_invariant:
  assumes "1 \<le> length (message item)" "length (message item) \<le> 8192" "0 \<notin> set (message item)"
    and "instructions item = None" and "occurrence_no item \<noteq> 0" and "version item \<noteq> 0"
  shows "check_remindi (columns item) \<longleftrightarrow> snooze_wf item \<and> terminal_wf item"
proof -
  have "takeWhile (\<lambda>c. c \<noteq> 0) (message item) = message item"
    unfolding takeWhile_eq_all_conv using assms(3) by metis
  then have len: "sql_length (message item) = length (message item)"
    by (simp only: sql_length_def)
  have pos: "1 \<le> uint (occurrence_no item)" "1 \<le> uint (version item)"
    using assms(5,6) by (simp_all add: int_one_le_iff_zero_less word_gt_0 uint_0_iff order_less_le)
  have names: "priority_name (priority item) \<in> set (map priority_name priority_variants)"
    "state_name (state item) \<in> set (map state_name state_variants)"
    by (cases "priority item"; simp add: priority_variants_def) (cases "state item"; simp add: state_variants_def)
  have nm: "state_name a = ''due'' \<longleftrightarrow> a = Due" "state_name a = ''overdue'' \<longleftrightarrow> a = Overdue" for a
    by (cases a; simp)+
  show ?thesis
    using assms len pos names
    by (cases "state item"; cases "snoozed_from_state item")
      (auto simp: nm check_remindi_def columns_def snooze_wf_def terminal_wf_def split: remindi_state.splits)
qed

theorem constraints_are_invariant_witness: "check_remindi (columns sample_item)"
  using constraints_are_invariant [of sample_item]
  by (simp add: sample_item_def snooze_wf_def terminal_wf_def)

text \<open>
  A message that starts with NUL passes the service's validation, but SQLite counts no
  character in it, and the constraint on the message refuses its row.
\<close>

theorem nul_message_refused:
  "required_text (0 # s) 8192 = Inr (0 # s) \<Longrightarrow> \<not> check_remindi ((columns item)\<lparr>c_message := 0 # s\<rparr>)"
  by (simp add: check_remindi_def sql_length_def)

theorem nul_message_refused_witness:
  "required_text [0, 65] 8192 = Inr [0, 65] \<and> \<not> check_remindi ((columns sample_item)\<lparr>c_message := [0, 65]\<rparr>)"
  using nul_message_refused [of "[65]" sample_item] by (simp add: required_text_def trim_def is_whitespace_def)

end
