(* ===== verification/Paging.thy ===== *)
theory Paging
  imports Requests "HOL-Library.Product_Lexorder" Samples
begin

text \<open>
  Order and pagination. The first half is generic: a stable sort by a comparator, and keyset
  pagination as an interface (\<open>keyset\<close>) with the one law the client needs, that the cursor of an
  item admits exactly the later items. The second half is the check order and the check cursor of
  \<open>src/remindi/service.rs\<close>, the cursor envelope and the interpretation of the interface.
\<close>

section \<open>Comparators\<close>

datatype ordering = Less | Equal | Greater

definition cmp :: "'a::linorder \<Rightarrow> 'a \<Rightarrow> ordering" where
  "cmp a b = (if a < b then Less else if a = b then Equal else Greater)"

definition then_with :: "ordering \<Rightarrow> ordering \<Rightarrow> ordering" where
  "then_with a b = (case a of Equal \<Rightarrow> b | _ \<Rightarrow> a)"

text \<open>\<open>slice::sort_by\<close> is stable.\<close>

fun insert_by :: "('a \<Rightarrow> 'a \<Rightarrow> ordering) \<Rightarrow> 'a \<Rightarrow> 'a list \<Rightarrow> 'a list" where
  "insert_by c x [] = [x]"
| "insert_by c x (y # ys) = (if c x y = Greater then y # insert_by c x ys else x # y # ys)"

definition sort_by :: "('a \<Rightarrow> 'a \<Rightarrow> ordering) \<Rightarrow> 'a list \<Rightarrow> 'a list" where
  "sort_by c xs = foldr (insert_by c) xs []"

lemma cmp_iff [simp]:
  "cmp a b = Less \<longleftrightarrow> a < b" "cmp a b = Equal \<longleftrightarrow> a = b" "cmp a b = Greater \<longleftrightarrow> b < a"
  by (auto simp: cmp_def)

lemma cmp_pair: "cmp (a, b) (c, d) = then_with (cmp a c) (cmp b d)"
  by (auto simp: cmp_def then_with_def)

lemma insert_by_key:
  assumes "\<And>x y. c x y = cmp (f x) (f y)"
  shows "insert_by c x ys = insort_key f x ys"
  by (induction ys) (auto simp: assms)

lemma sort_by_key:
  assumes "\<And>x y. c x y = cmp (f x) (f y)"
  shows "sort_by c xs = sort_key f xs"
proof -
  have "insert_by c = insort_key f"
    by (intro ext insert_by_key assms)
  then show ?thesis by (simp add: sort_by_def sort_key_def)
qed

section \<open>Keyset pagination\<close>

definition keyset_page ::
  "('a \<Rightarrow> 'c \<Rightarrow> bool) \<Rightarrow> ('a \<Rightarrow> 'c) \<Rightarrow> nat \<Rightarrow> 'a list \<Rightarrow> 'c option \<Rightarrow> 'a list \<times> 'c option" where
  "keyset_page after cursor_of limit xs c =
     (let ys = (case c of None \<Rightarrow> xs | Some k \<Rightarrow> filter (\<lambda>x. after x k) xs);
          page = take limit ys
      in (page, if length ys > limit then Some (cursor_of (last page)) else None))"

text \<open>A client that follows \<open>next_cursor\<close> until it is absent; \<open>fuel\<close> bounds the requests.\<close>

fun walk_pages :: "nat \<Rightarrow> ('c option \<Rightarrow> 'a list \<times> 'c option) \<Rightarrow> 'c option \<Rightarrow> 'a list list option" where
  "walk_pages 0 fetch c = None"
| "walk_pages (Suc fuel) fetch c =
     (case fetch c of
        (page, None) \<Rightarrow> Some [page]
      | (page, Some c') \<Rightarrow> map_option ((#) page) (walk_pages fuel fetch (Some c')))"

locale keyset =
  fixes key :: "'a \<Rightarrow> 'k::linorder"
    and after :: "'a \<Rightarrow> 'c \<Rightarrow> bool"
    and cursor_of :: "'a \<Rightarrow> 'c"
    and good :: "'a \<Rightarrow> bool"
  assumes after_iff: "good x \<Longrightarrow> good y \<Longrightarrow> after x (cursor_of y) \<longleftrightarrow> key y < key x"
begin

definition ordered :: "'a list \<Rightarrow> bool" where
  "ordered xs \<longleftrightarrow> sorted_wrt (\<lambda>x y. key x < key y) xs \<and> (\<forall>x\<in>set xs. good x)"

lemma ordered_sort_key:
  assumes "distinct (map key xs)" and "\<forall>x\<in>set xs. good x"
  shows "ordered (sort_key key xs)"
proof -
  have "distinct (map key (sort_key key xs))"
    using assms(1) by (simp add: distinct_map)
  moreover have "sorted (map key (sort_key key xs))" by simp
  ultimately have "sorted_wrt (<) (map key (sort_key key xs))"
    by (simp add: strict_sorted_iff)
  with assms(2) show ?thesis by (simp add: ordered_def sorted_wrt_map)
qed

lemma after_last_take:
  assumes "ordered xs" and "0 < n" and "n < length xs"
  shows "filter (\<lambda>x. after x (cursor_of (last (take n xs)))) xs = drop n xs"
proof -
  let ?l = "last (take n xs)"
  have ne: "take n xs \<noteq> []" using assms by auto
  have split: "xs = butlast (take n xs) @ ?l # drop n xs"
    using append_butlast_last_id [OF ne] append_take_drop_id [of n xs]
    by (metis append.assoc append_Cons append_Nil)
  have srt: "sorted_wrt (\<lambda>x y. key x < key y) (butlast (take n xs) @ ?l # drop n xs)"
    using assms(1) split by (simp add: ordered_def)
  have good: "\<forall>x\<in>set xs. good x" using assms(1) by (simp add: ordered_def)
  have gl: "good ?l" using good ne by (meson in_set_takeD last_in_set)
  have early: "\<not> after x (cursor_of ?l)" if "x \<in> set (butlast (take n xs) @ [?l])" for x
  proof -
    have "x \<in> set (take n xs)" using that append_butlast_last_id [OF ne] by simp
    then have "good x" using good by (meson in_set_takeD)
    moreover have "key x \<le> key ?l"
      using that srt by (auto simp: sorted_wrt_append intro: less_imp_le)
    ultimately show ?thesis using after_iff [of x ?l] gl by auto
  qed
  have late: "after x (cursor_of ?l)" if "x \<in> set (drop n xs)" for x
  proof -
    have "good x" using that good by (meson in_set_dropD)
    moreover have "key ?l < key x"
      using that srt by (simp add: sorted_wrt_append)
    ultimately show ?thesis using after_iff [of x ?l] gl by simp
  qed
  have "filter (\<lambda>x. after x (cursor_of ?l)) xs
      = filter (\<lambda>x. after x (cursor_of ?l)) ((butlast (take n xs) @ [?l]) @ drop n xs)"
    using split by simp
  also have "\<dots> = drop n xs"
    using early late by (simp add: filter_id_conv)
  finally show ?thesis .
qed

lemma walk_from:
  assumes "ordered xs" and "0 < limit" and "k < length xs" and "0 < k"
    and "length xs - k < fuel"
  shows "\<exists>ps. walk_pages fuel (keyset_page after cursor_of limit xs)
        (Some (cursor_of (last (take k xs)))) = Some ps \<and> concat ps = drop k xs"
  using assms
proof (induction fuel arbitrary: k)
  case (Suc fuel)
  let ?rest = "drop k xs"
  have rest: "filter (\<lambda>x. after x (cursor_of (last (take k xs)))) xs = ?rest"
    using Suc.prems by (intro after_last_take) auto
  show ?case
  proof (cases "length ?rest > limit")
    case False
    then show ?thesis by (simp add: keyset_page_def rest)
  next
    case True
    then have kl: "k + limit < length xs" by simp
    have "take limit ?rest \<noteq> []" using True Suc.prems(2) by auto
    then have lst: "last (take limit ?rest) = last (take (k + limit) xs)"
      by (simp add: take_add)
    have "length xs - (k + limit) < fuel" using Suc.prems(2,5) kl by linarith
    then obtain ps where "walk_pages fuel (keyset_page after cursor_of limit xs)
        (Some (cursor_of (last (take (k + limit) xs)))) = Some ps"
      and ps: "concat ps = drop (k + limit) xs"
      using Suc.IH [OF Suc.prems(1,2) kl] Suc.prems(4) by auto
    with True have "walk_pages (Suc fuel) (keyset_page after cursor_of limit xs)
        (Some (cursor_of (last (take k xs)))) = Some (take limit ?rest # ps)"
      by (simp add: keyset_page_def rest lst)
    moreover have "concat (take limit ?rest # ps) = ?rest"
      using append_take_drop_id [of limit ?rest] by (simp add: ps add.commute)
    ultimately show ?thesis by blast
  qed
qed simp

text \<open>Following the cursors returns every item exactly once, in order.\<close>

lemma walk_all:
  assumes "ordered xs" and "0 < limit" and "length xs < fuel"
  shows "\<exists>ps. walk_pages fuel (keyset_page after cursor_of limit xs) None = Some ps \<and> concat ps = xs"
proof (cases "length xs > limit")
  case False
  with assms(3) show ?thesis by (cases fuel) (simp_all add: keyset_page_def)
next
  case True
  obtain f where f: "fuel = Suc f" using assms(3) by (cases fuel) auto
  have "length xs - limit < f" using assms(2,3) f True by linarith
  then obtain ps where "walk_pages f (keyset_page after cursor_of limit xs)
        (Some (cursor_of (last (take limit xs)))) = Some ps" and "concat ps = drop limit xs"
    using walk_from [OF assms(1,2) True assms(2), of f] by auto
  then have "walk_pages fuel (keyset_page after cursor_of limit xs) None = Some (take limit xs # ps)"
    and "concat (take limit xs # ps) = xs"
    using True by (simp_all add: f keyset_page_def Let_def)
  then show ?thesis by blast
qed

end

section \<open>The check order\<close>

record checked_item =
  ci_remindi :: remindi
  ci_readiness :: readiness_kind

primrec readiness_rank :: "readiness_kind \<Rightarrow> nat" where
  "readiness_rank R_Overdue = 0"
| "readiness_rank R_Due = 1"
| "readiness_rank R_ManualVerification = 2"

primrec priority_rank :: "priority_level \<Rightarrow> nat" where
  "priority_rank Low = 0"
| "priority_rank Normal = 1"
| "priority_rank High = 2"
| "priority_rank Critical = 3"

definition check_order :: "checked_item \<Rightarrow> checked_item \<Rightarrow> ordering" where
  "check_order l r =
     then_with (cmp (readiness_rank (ci_readiness l)) (readiness_rank (ci_readiness r)))
    (then_with (cmp (priority_rank (priority (ci_remindi r))) (priority_rank (priority (ci_remindi l))))
    (then_with (case (next_fire_at (ci_remindi l), next_fire_at (ci_remindi r)) of
                  (Some a, Some b) \<Rightarrow> cmp a b
                | (Some _, None) \<Rightarrow> Less
                | (None, Some _) \<Rightarrow> Greater
                | (None, None) \<Rightarrow> Equal)
      (cmp (remindi_id (ci_remindi l)) (remindi_id (ci_remindi r)))))"

record check_cursor =
  cc_readiness :: nat
  cc_priority :: nat
  cc_next_fire_at :: "stamp option"
  cc_id :: uuid

definition check_cursor_of :: "checked_item \<Rightarrow> (service_error, check_cursor) res" where
  "check_cursor_of i =
     rbind (map_err map_domain (transpose_map canonical_timestamp (next_fire_at (ci_remindi i)))) (\<lambda>t.
       Ok \<lparr>cc_readiness = readiness_rank (ci_readiness i),
           cc_priority = priority_rank (priority (ci_remindi i)),
           cc_next_fire_at = t, cc_id = remindi_id (ci_remindi i)\<rparr>)"

text \<open>
  The tuple comparison of \<open>check_after_cursor\<close>; \<open>Reverse(p)\<close> is the negated rank. The texts
  compare as their millisecond counts; both are empty when both are absent.
\<close>

definition check_after_cursor :: "checked_item \<Rightarrow> check_cursor \<Rightarrow> bool" where
  "check_after_cursor i c =
     (let t = (case next_fire_at (ci_remindi i) of
                 None \<Rightarrow> None
               | Some v \<Rightarrow> (case canonical_timestamp v of Inr s \<Rightarrow> Some s | Inl _ \<Rightarrow> None))
      in (readiness_rank (ci_readiness i), - int (priority_rank (priority (ci_remindi i))),
          t = None, (case t of None \<Rightarrow> 0 | Some s \<Rightarrow> s), remindi_id (ci_remindi i))
       > (cc_readiness c, - int (cc_priority c),
          cc_next_fire_at c = None, (case cc_next_fire_at c of None \<Rightarrow> 0 | Some s \<Rightarrow> s), cc_id c))"

text \<open>The sort key the comparator compares.\<close>

definition check_key :: "checked_item \<Rightarrow> nat \<times> int \<times> bool \<times> int \<times> nat" where
  "check_key i =
     (readiness_rank (ci_readiness i), - int (priority_rank (priority (ci_remindi i))),
      next_fire_at (ci_remindi i) = None,
      (case next_fire_at (ci_remindi i) of None \<Rightarrow> 0 | Some t \<Rightarrow> t),
      remindi_id (ci_remindi i))"

lemma check_order_key: "check_order a b = cmp (check_key a) (check_key b)"
  by (auto simp: check_order_def check_key_def cmp_pair then_with_def cmp_def split: option.splits)

lemma sort_check_order: "sort_by check_order xs = sort_key check_key xs"
  by (rule sort_by_key) (rule check_order_key)

text \<open>Items read from the table have a representable schedule of whole milliseconds.\<close>

definition stored_schedule :: "checked_item \<Rightarrow> bool" where
  "stored_schedule i \<longleftrightarrow>
     (\<forall>t. next_fire_at (ci_remindi i) = Some t \<longrightarrow> valid_instant t \<and> trunc_ms t = t)"

definition check_cursor_value :: "checked_item \<Rightarrow> check_cursor" where
  "check_cursor_value i =
     \<lparr>cc_readiness = readiness_rank (ci_readiness i),
      cc_priority = priority_rank (priority (ci_remindi i)),
      cc_next_fire_at = map_option (\<lambda>t. t div ns_per_ms) (next_fire_at (ci_remindi i)),
      cc_id = remindi_id (ci_remindi i)\<rparr>"

lemma check_cursor_of_stored:
  "stored_schedule i \<Longrightarrow> check_cursor_of i = Ok (check_cursor_value i)"
  by (cases "next_fire_at (ci_remindi i)")
    (simp_all add: check_cursor_of_def check_cursor_value_def stored_schedule_def
      canonical_timestamp_def to_utc_def)

lemma div_ms_less:
  assumes "trunc_ms s = s" and "trunc_ms t = t"
  shows "s div ns_per_ms < t div ns_per_ms \<longleftrightarrow> s < t"
proof -
  have "s = s div ns_per_ms * ns_per_ms" "t = t div ns_per_ms * ns_per_ms"
    using assms by (simp_all add: trunc_ms_def)
  moreover have "0 < ns_per_ms" by (simp add: ns_per_ms_def)
  ultimately show ?thesis by (metis mult_less_cancel_right_pos)
qed

lemma div_ms_eq:
  assumes "trunc_ms s = s" and "trunc_ms t = t"
  shows "s div ns_per_ms = t div ns_per_ms \<longleftrightarrow> s = t"
  using assms by (metis trunc_ms_def)

lemma div_ms_le:
  assumes "trunc_ms s = s" and "trunc_ms t = t"
  shows "s div ns_per_ms \<le> t div ns_per_ms \<longleftrightarrow> s \<le> t"
  using div_ms_less [OF assms(2,1)] by linarith

lemma check_after_cursor_key:
  assumes "stored_schedule x" and "stored_schedule y"
  shows "check_after_cursor x (check_cursor_value y) \<longleftrightarrow> check_key y < check_key x"
  using assms
  by (cases "next_fire_at (ci_remindi x)"; cases "next_fire_at (ci_remindi y)")
    (auto simp: check_after_cursor_def check_cursor_value_def check_key_def stored_schedule_def
      Let_def canonical_timestamp_def to_utc_def div_ms_less div_ms_eq div_ms_le)

interpretation check_keyset: keyset check_key check_after_cursor check_cursor_value stored_schedule
  by unfold_locales (rule check_after_cursor_key)

section \<open>The cursor envelope\<close>

record list_cursor =
  lc_created_at :: stamp
  lc_id :: uuid

datatype cursor_value = ListCursorValue list_cursor | HistoryCursorValue int | CheckCursorValue check_cursor

record cursor_payload =
  cp_version :: nat
  cp_kind :: string
  cp_value :: cursor_value

text \<open>
  What the base64 and JSON layers of a cursor text decode to: nothing, or an envelope of payload
  bytes and a tag. Payload bytes are the JSON of a payload or any other bytes. The keyed hash
  \<open>mac\<close> (HMAC-SHA256 under the service's cursor key) is a parameter.
\<close>

datatype cursor_bytes = PayloadBytes cursor_payload | RawBytes "nat list"

datatype cursor_text = Undecodable | Envelope cursor_bytes nat

definition encode_cursor :: "(cursor_bytes \<Rightarrow> nat) \<Rightarrow> string \<Rightarrow> cursor_value \<Rightarrow> cursor_text" where
  "encode_cursor mac kind value =
     (let payload = PayloadBytes \<lparr>cp_version = 1, cp_kind = kind, cp_value = value\<rparr>
      in Envelope payload (mac payload))"

definition decode_cursor ::
  "(cursor_bytes \<Rightarrow> nat) \<Rightarrow> cursor_text \<Rightarrow> string \<Rightarrow> (service_error, cursor_value) res" where
  "decode_cursor mac encoded kind =
     (case encoded of
        Undecodable \<Rightarrow> Err InvalidCursor
      | Envelope payload tag \<Rightarrow>
          if mac payload \<noteq> tag then Err InvalidCursor
          else case payload of
                 RawBytes _ \<Rightarrow> Err InvalidCursor
               | PayloadBytes p \<Rightarrow>
                   if cp_version p \<noteq> 1 \<or> cp_kind p \<noteq> kind then Err InvalidCursor
                   else Ok (cp_value p))"

text \<open>Deserialising the value as the type of the caller's cursor.\<close>

definition decode_list_cursor ::
  "(cursor_bytes \<Rightarrow> nat) \<Rightarrow> cursor_text \<Rightarrow> (service_error, list_cursor) res" where
  "decode_list_cursor mac t =
     rbind (decode_cursor mac t ''list'') (\<lambda>v.
       case v of ListCursorValue c \<Rightarrow> Ok c | _ \<Rightarrow> Err InvalidCursor)"

definition decode_history_cursor ::
  "(cursor_bytes \<Rightarrow> nat) \<Rightarrow> cursor_text \<Rightarrow> (service_error, int) res" where
  "decode_history_cursor mac t =
     rbind (decode_cursor mac t ''history'') (\<lambda>v.
       case v of HistoryCursorValue c \<Rightarrow> Ok c | _ \<Rightarrow> Err InvalidCursor)"

definition decode_check_cursor ::
  "(cursor_bytes \<Rightarrow> nat) \<Rightarrow> cursor_text \<Rightarrow> (service_error, check_cursor) res" where
  "decode_check_cursor mac t =
     rbind (decode_cursor mac t ''check'') (\<lambda>v.
       case v of CheckCursorValue c \<Rightarrow> Ok c | _ \<Rightarrow> Err InvalidCursor)"

lemma decode_encode_cursor [simp]: "decode_cursor mac (encode_cursor mac kind v) kind = Ok v"
  by (simp add: encode_cursor_def decode_cursor_def Let_def)

lemma payload_eta:
  "cp_version p = Suc 0 \<Longrightarrow> \<lparr>cp_version = Suc 0, cp_kind = cp_kind p, cp_value = cp_value p\<rparr> = p"
  by (cases p) simp

lemma decode_cursor_Ok:
  "decode_cursor mac t kind = Inr v \<Longrightarrow> t = encode_cursor mac kind v"
  by (auto simp: decode_cursor_def encode_cursor_def Let_def payload_eta split: cursor_text.splits cursor_bytes.splits if_splits)

lemma decode_check_encode [simp]:
  "decode_check_cursor mac (encode_cursor mac ''check'' (CheckCursorValue c)) = Ok c"
  by (simp add: decode_check_cursor_def)

lemma decode_list_encode [simp]:
  "decode_list_cursor mac (encode_cursor mac ''list'' (ListCursorValue c)) = Ok c"
  by (simp add: decode_list_cursor_def)

lemma decode_history_encode [simp]:
  "decode_history_cursor mac (encode_cursor mac ''history'' (HistoryCursorValue n)) = Ok n"
  by (simp add: decode_history_cursor_def)

section \<open>Properties\<close>

text \<open>
  A cursor is accepted exactly when the service itself made it: a text decodes to a value of a
  kind only if it is the text \<open>encode_cursor\<close> produces for them, so a changed tag, version, kind or
  payload is refused, and every encoded cursor reads back as its value.
\<close>

theorem cursor_authentic: "decode_cursor mac t kind = Inr v \<longleftrightarrow> t = encode_cursor mac kind v"
  using decode_cursor_Ok by auto

text \<open>
  The check order is a total order with no ties but between checks of the same item key:
  readiness first, then priority from critical down, then schedule with absent ones last, then
  identifier; sorting by the comparator is sorting by that key.
\<close>

theorem check_order_total:
  "check_order a b = cmp (check_key a) (check_key b) \<and>
   (check_order a b = Equal \<longrightarrow> remindi_id (ci_remindi a) = remindi_id (ci_remindi b)) \<and>
   (check_order a b = Greater \<longleftrightarrow> check_order b a = Less) \<and>
   (check_order a b \<noteq> Greater \<and> check_order b c \<noteq> Greater \<longrightarrow> check_order a c \<noteq> Greater) \<and>
   sort_by check_order xs = sort_key check_key xs"
proof -
  have tot: "check_order a c \<noteq> Greater" if "check_order a b \<noteq> Greater" "check_order b c \<noteq> Greater"
    using that by (auto simp: check_order_key not_less)
  have eq: "remindi_id (ci_remindi a) = remindi_id (ci_remindi b)" if "check_order a b = Equal"
    using that by (simp add: check_order_key check_key_def)
  show ?thesis using tot eq sort_check_order check_order_key by (auto simp: check_order_key)
qed

theorem check_order_total_witness:
  "check_order \<lparr>ci_remindi = sample_item, ci_readiness = R_Overdue\<rparr> \<lparr>ci_remindi = sample_item, ci_readiness = R_Due\<rparr> = Less \<and>
   check_order \<lparr>ci_remindi = sample_item, ci_readiness = R_Due\<rparr> \<lparr>ci_remindi = sample_item, ci_readiness = R_Overdue\<rparr> = Greater"
  using check_order_total [of "\<lparr>ci_remindi = sample_item, ci_readiness = R_Due\<rparr>" "\<lparr>ci_remindi = sample_item, ci_readiness = R_Overdue\<rparr>"]
  by (simp add: check_order_def then_with_def cmp_def)

end
