(* ===== verification/Repository.thy ===== *)
theory Repository
  imports Database Paging "HOL-Library.Option_ord" "HOL-Library.List_Lexorder"
begin

text \<open>
  The statements of \<open>src/remindi/repository.rs\<close> on the tables. A read is a function of the
  database; a write returns the changed database or the error, and a failing statement changes
  nothing. A violated constraint is a database error with SQLite's extended code.
\<close>

section \<open>Statement errors\<close>

definition sql_error :: "string \<Rightarrow> (repository_error, 'a) res" where
  "sql_error code = Err (RepoSql (SqlxDatabase (Some code)))"

abbreviation check_failed :: "(repository_error, 'a) res" where "check_failed \<equiv> sql_error ''275''"
abbreviation foreign_key_failed :: "(repository_error, 'a) res" where
  "foreign_key_failed \<equiv> sql_error ''787''"
abbreviation primary_key_failed :: "(repository_error, 'a) res" where
  "primary_key_failed \<equiv> sql_error ''1555''"
abbreviation unique_failed :: "(repository_error, 'a) res" where "unique_failed \<equiv> sql_error ''2067''"

section \<open>Items\<close>

definition find_row :: "db \<Rightarrow> ustring \<Rightarrow> uuid \<Rightarrow> remindi_row option" where
  "find_row d owner i = find (\<lambda>r. c_owner_id r = owner \<and> c_id r = i) (remindi_table d)"

definition find_remindi :: "db \<Rightarrow> ustring \<Rightarrow> uuid \<Rightarrow> (repository_error, remindi option) res" where
  "find_remindi d owner i = transpose_map remindi_from_row (find_row d owner i)"

definition insert_remindi :: "db \<Rightarrow> remindi \<Rightarrow> (repository_error, db) res" where
  "insert_remindi d item =
     rbind (row_of item) (\<lambda>row.
       if \<not> check_remindi row then check_failed
       else if list_ex (\<lambda>r. c_id r = c_id row) (remindi_table d) then primary_key_failed
       else Ok (d\<lparr>remindi_table := remindi_table d @ [row]\<rparr>))"

text \<open>\<open>SET\<close> writes every column but the identity, ownership and creation ones.\<close>

definition set_columns :: "remindi_row \<Rightarrow> remindi_row \<Rightarrow> remindi_row" where
  "set_columns new old = new\<lparr>c_id := c_id old, c_owner_id := c_owner_id old,
     c_project_id := c_project_id old, c_task_id := c_task_id old, c_created_at := c_created_at old\<rparr>"

definition update_matches :: "remindi_row \<Rightarrow> int \<Rightarrow> remindi_row \<Rightarrow> bool" where
  "update_matches new expected old \<longleftrightarrow>
     c_owner_id old = c_owner_id new \<and> c_id old = c_id new \<and> c_version old = expected"

definition update_cas :: "db \<Rightarrow> remindi \<Rightarrow> u64 \<Rightarrow> (repository_error, db \<times> bool) res" where
  "update_cas d item expected_version =
     rbind (row_of item) (\<lambda>new.
     rbind (i64_from_u64 expected_version) (\<lambda>expected.
       let hits = filter (update_matches new expected) (remindi_table d) in
       if \<not> list_all (\<lambda>old. check_remindi (set_columns new old)) hits then check_failed
       else Ok (d\<lparr>remindi_table := map (\<lambda>old. if update_matches new expected old
                                         then set_columns new old else old) (remindi_table d)\<rparr>,
                length hits = 1)))"

section \<open>Links, events, evidence, idempotency\<close>

definition insert_link :: "uuid \<Rightarrow> remindi_link \<Rightarrow> db \<Rightarrow> (repository_error, db) res" where
  "insert_link i l d =
     rbind (timestamp (link_created_at l)) (\<lambda>created.
       let row = \<lparr>k_remindi_id = i, k_link_type = link_type l, k_link_value = link_value l,
                  k_created_at = created\<rparr> in
       if \<not> check_link row then check_failed
       else if list_ex (\<lambda>k. k_remindi_id k = i \<and> k_link_type k = link_type l
                            \<and> k_link_value k = link_value l) (link_table d) then primary_key_failed
       else if \<not> list_ex (\<lambda>r. c_id r = i) (remindi_table d) then foreign_key_failed
       else Ok (d\<lparr>link_table := link_table d @ [row]\<rparr>))"

fun insert_links :: "uuid \<Rightarrow> remindi_link list \<Rightarrow> db \<Rightarrow> (repository_error, db) res" where
  "insert_links i [] d = Ok d"
| "insert_links i (l # ls) d = rbind (insert_link i l d) (insert_links i ls)"

definition replace_links :: "db \<Rightarrow> remindi \<Rightarrow> remindi_link list \<Rightarrow> (repository_error, db) res" where
  "replace_links d item ls =
     insert_links (remindi_id item) ls
       (d\<lparr>link_table := filter (\<lambda>k. k_remindi_id k \<noteq> remindi_id item) (link_table d)\<rparr>)"

definition append_event :: "db \<Rightarrow> remindi_event \<Rightarrow> (repository_error, db) res" where
  "append_event d ev =
     rbind (timestamp (occurred_at ev)) (\<lambda>occurred.
     rbind (transpose_map i64_from_u64 (prior_version ev)) (\<lambda>prior.
     rbind (transpose_map i64_from_u64 (new_version ev)) (\<lambda>new.
       if list_ex (\<lambda>e. e_event_id e = event_id ev) (event_table d) then unique_failed
       else if \<not> list_ex (\<lambda>r. c_id r = event_remindi_id ev) (remindi_table d) then foreign_key_failed
       else Ok (d\<lparr>event_table := event_table d @
                    [\<lparr>e_sequence = last_sequence d + 1, e_event_id = event_id ev,
                      e_remindi_id = event_remindi_id ev,
                      e_event_type = event_type_name (event_type ev),
                      e_actor_type = event_actor_type ev, e_actor_id = event_actor_id ev,
                      e_request_id = event_request_id ev, e_occurred_at = occurred,
                      e_prior_version = prior, e_new_version = new, e_details = details ev\<rparr>],
                  last_sequence := last_sequence d + 1\<rparr>))))"

record completion_evidence =
  ce_id :: uuid
  ce_remindi_id :: uuid
  ce_evidence_type :: evidence_type_kind
  ce_summary :: ustring
  ce_reference_uri :: "ustring option"
  ce_content_hash :: "ustring option"
  ce_observed_at :: instant
  ce_recorded_at :: instant
  ce_recorded_by :: ustring
  ce_metadata :: "json option"

definition insert_evidence :: "db \<Rightarrow> completion_evidence \<Rightarrow> (repository_error, db) res" where
  "insert_evidence d ev =
     rbind (timestamp (ce_observed_at ev)) (\<lambda>observed.
     rbind (timestamp (ce_recorded_at ev)) (\<lambda>recorded.
       let row = \<lparr>v_id = ce_id ev, v_remindi_id = ce_remindi_id ev,
                  v_evidence_type = ce_evidence_type ev, v_summary = ce_summary ev,
                  v_reference_uri = ce_reference_uri ev, v_content_hash = ce_content_hash ev,
                  v_observed_at = observed, v_recorded_at = recorded,
                  v_recorded_by = ce_recorded_by ev, v_metadata = ce_metadata ev\<rparr> in
       if \<not> check_evidence row then check_failed
       else if list_ex (\<lambda>v. v_id v = ce_id ev) (evidence_table d) then primary_key_failed
       else if list_ex (\<lambda>v. v_remindi_id v = ce_remindi_id ev) (evidence_table d) then unique_failed
       else if \<not> list_ex (\<lambda>r. c_id r = ce_remindi_id ev) (remindi_table d) then foreign_key_failed
       else Ok (d\<lparr>evidence_table := evidence_table d @ [row]\<rparr>)))"

definition idempotency ::
  "db \<Rightarrow> ustring \<Rightarrow> string \<Rightarrow> ustring \<Rightarrow> (digest \<times> remindi) option" where
  "idempotency d aid tool key =
     map_option (\<lambda>r. (i_request_hash r, i_response r))
       (find (\<lambda>r. i_actor_id r = aid \<and> i_tool_name r = tool \<and> i_key r = key) (idempotency_table d))"

definition insert_idempotency ::
  "db \<Rightarrow> ustring \<Rightarrow> string \<Rightarrow> ustring \<Rightarrow> digest \<Rightarrow> remindi \<Rightarrow> instant \<Rightarrow> instant
     \<Rightarrow> (repository_error, db) res" where
  "insert_idempotency d aid tool key hash response created expires =
     rbind (timestamp created) (\<lambda>created'.
     rbind (timestamp expires) (\<lambda>expires'.
       if list_ex (\<lambda>r. i_actor_id r = aid \<and> i_tool_name r = tool \<and> i_key r = key) (idempotency_table d)
       then primary_key_failed
       else Ok (d\<lparr>idempotency_table := idempotency_table d @
              [\<lparr>i_actor_id = aid, i_tool_name = tool, i_key = key, i_request_hash = hash,
                i_response = response, i_remindi_id = remindi_id response,
                i_created_at = created', i_expires_at = expires'\<rparr>]\<rparr>)))"

section \<open>Queries\<close>

record list_filter =
  lf_owner_id :: ustring
  lf_project_id :: "ustring option"
  lf_task_id :: "ustring option"
  lf_states :: "remindi_state list"
  lf_trigger_types :: "ustring list"
  lf_linked_goal_id :: "ustring option"
  lf_linked_memory_hash :: "ustring option"
  lf_after :: "(stamp \<times> uuid) option"
  lf_limit :: nat

text \<open>\<open>push_enum_filter\<close>: no condition for an empty list.\<close>

definition in_filter :: "'a \<Rightarrow> 'a list \<Rightarrow> bool" where
  "in_filter x xs \<longleftrightarrow> xs = [] \<or> x \<in> set xs"

definition linked :: "db \<Rightarrow> uuid \<Rightarrow> link_type_kind \<Rightarrow> ustring \<Rightarrow> bool" where
  "linked d i lt v = list_ex (\<lambda>k. k_remindi_id k = i \<and> k_link_type k = lt \<and> k_link_value k = v) (link_table d)"

definition list_where :: "db \<Rightarrow> list_filter \<Rightarrow> remindi_row \<Rightarrow> bool" where
  "list_where d f r \<longleftrightarrow>
     c_owner_id r = lf_owner_id f \<and>
     (case lf_project_id f of None \<Rightarrow> True | Some p \<Rightarrow> c_project_id r = p) \<and>
     (case lf_task_id f of None \<Rightarrow> True | Some t \<Rightarrow> c_task_id r = Some t) \<and>
     in_filter (c_state r) (map state_name (lf_states f)) \<and>
     in_filter (lit (c_trigger_type r)) (lf_trigger_types f) \<and>
     (case lf_linked_goal_id f of None \<Rightarrow> True | Some g \<Rightarrow> linked d (c_id r) L_Goal g) \<and>
     (case lf_linked_memory_hash f of None \<Rightarrow> True | Some m \<Rightarrow> linked d (c_id r) L_Memory m)"

definition list_after :: "remindi_row \<Rightarrow> stamp \<times> uuid \<Rightarrow> bool" where
  "list_after r k = (case k of (created, i) \<Rightarrow>
     c_created_at r < created \<or> (c_created_at r = created \<and> c_id r > i))"

text \<open>\<open>ORDER BY r.created_at DESC, r.id ASC\<close>.\<close>

definition list_key :: "remindi_row \<Rightarrow> int \<times> nat" where
  "list_key r = (- c_created_at r, c_id r)"

definition list_rows :: "db \<Rightarrow> list_filter \<Rightarrow> remindi_row list" where
  "list_rows d f =
     take (lf_limit f) (sort_key list_key
       (filter (\<lambda>r. list_where d f r \<and>
                    (case lf_after f of None \<Rightarrow> True | Some k \<Rightarrow> list_after r k)) (remindi_table d)))"

definition list_remindi :: "db \<Rightarrow> list_filter \<Rightarrow> (repository_error, remindi list) res" where
  "list_remindi d f =
     (if int (lf_limit f) > i64_max then Err InvalidData
      else collect_map remindi_from_row (list_rows d f))"

text \<open>The union of \<open>check_candidates_query\<close>, in its order.\<close>

definition check_scope :: "ustring \<Rightarrow> ustring \<Rightarrow> ustring option \<Rightarrow> remindi_row \<Rightarrow> bool" where
  "check_scope owner project task r \<longleftrightarrow>
     c_owner_id r = owner \<and> c_project_id r = project \<and>
     (case task of None \<Rightarrow> True | Some t \<Rightarrow> c_task_id r = Some t)"

definition due_column :: "stamp option \<Rightarrow> stamp \<Rightarrow> bool" where
  "due_column v now = (case v of None \<Rightarrow> False | Some t \<Rightarrow> t \<le> now)"

definition check_candidate_rows ::
  "db \<Rightarrow> ustring \<Rightarrow> ustring \<Rightarrow> ustring option \<Rightarrow> stamp \<Rightarrow> bool \<Rightarrow> remindi_row list" where
  "check_candidate_rows d owner project task now include_scheduled =
     (let scoped = filter (check_scope owner project task) (remindi_table d) in
      if include_scheduled
      then filter (\<lambda>r. c_state r \<in> {''scheduled'', ''due'', ''overdue'', ''snoozed''}) scoped
      else
        filter (\<lambda>r. c_state r \<in> {''due'', ''overdue''}) scoped @
        filter (\<lambda>r. c_state r = ''snoozed'' \<and> due_column (c_snooze_until r) now) scoped @
        filter (\<lambda>r. c_state r = ''scheduled''
                    \<and> c_trigger_type r \<in> {''at_time'', ''after_elapsed'', ''interval''}
                    \<and> due_column (c_next_fire_at r) now) scoped @
        filter (\<lambda>r. c_state r = ''scheduled''
                    \<and> c_trigger_type r \<in> {''next_session'', ''next_continuation'', ''goal_active'', ''condition''})
          scoped)"

definition check_candidates ::
  "db \<Rightarrow> ustring \<Rightarrow> ustring \<Rightarrow> ustring option \<Rightarrow> instant \<Rightarrow> bool \<Rightarrow> (repository_error, remindi list) res" where
  "check_candidates d owner project task now include_scheduled =
     rbind (if include_scheduled then Ok 0 else timestamp now) (\<lambda>n.
       collect_map remindi_from_row (check_candidate_rows d owner project task n include_scheduled))"

text \<open>
  \<open>julianday\<close> has millisecond resolution, so its comparisons are on millisecond counts; the
  deadline of a due row, a sum with a fraction of a day there, is taken exactly here.
\<close>

definition manual_check_at :: "trigger_spec \<Rightarrow> instant option" where
  "manual_check_at trig = (case trig of Condition _ _ _ manual \<Rightarrow> manual | _ \<Rightarrow> None)"

definition scheduler_due :: "stamp \<Rightarrow> remindi_row \<Rightarrow> bool" where
  "scheduler_due now r \<longleftrightarrow>
     (c_state r = ''snoozed'' \<and> due_column (c_snooze_until r) now)
     \<or> (c_state r = ''due''
        \<and> (case c_due_since r of None \<Rightarrow> False
           | Some d \<Rightarrow> d + c_overdue_after_seconds r * 1000 \<le> now))
     \<or> (c_state r = ''scheduled''
        \<and> ((c_trigger_type r \<in> {''at_time'', ''after_elapsed'', ''interval''}
              \<and> due_column (c_next_fire_at r) now)
           \<or> (c_trigger_type r = ''condition''
              \<and> (due_column (c_next_evaluation_at r) now
                 \<or> due_column (map_option stamp_of (manual_check_at (c_trigger_spec r))) now))))"

text \<open>
  The \<open>ORDER BY\<close> expression compares texts. A canonical text ends in three decimals and \<open>Z\<close>,
  an RFC 3339 text of the trigger JSON in as many decimals as the instant needs; both agree up to
  the seconds. The key is the second and the rest of the text.
\<close>

fun decimal_digits :: "nat \<Rightarrow> nat \<Rightarrow> nat list" where
  "decimal_digits 0 n = []"
| "decimal_digits (Suc k) n = decimal_digits k (n div 10) @ [48 + n mod 10]"

definition canonical_text_key :: "stamp \<Rightarrow> int \<times> nat list" where
  "canonical_text_key s = (s div 1000, 46 # decimal_digits 3 (nat (s mod 1000)) @ [90])"

definition rfc3339_text_key :: "instant \<Rightarrow> int \<times> nat list" where
  "rfc3339_text_key t =
     (let ns = nat (t mod ns_per_sec) in
      (t div ns_per_sec,
       if ns = 0 then [90]
       else 46 # rev (dropWhile (\<lambda>c. c = 48) (rev (decimal_digits 9 ns))) @ [90]))"

definition scheduler_text :: "remindi_row \<Rightarrow> (int \<times> nat list) option" where
  "scheduler_text r =
     (if c_state r = ''snoozed'' then map_option canonical_text_key (c_snooze_until r)
      else if c_state r = ''due'' then map_option canonical_text_key (c_due_since r)
      else if c_trigger_type r = ''condition'' then
        (case (c_next_evaluation_at r, manual_check_at (c_trigger_spec r)) of
           (None, m) \<Rightarrow> map_option rfc3339_text_key m
         | (Some e, None) \<Rightarrow> Some (canonical_text_key e)
         | (Some e, Some m) \<Rightarrow>
             if e \<le> stamp_of m then Some (canonical_text_key e) else Some (rfc3339_text_key m))
      else map_option canonical_text_key (c_next_fire_at r))"

definition scheduler_rows :: "db \<Rightarrow> ustring \<Rightarrow> stamp \<Rightarrow> nat \<Rightarrow> remindi_row list" where
  "scheduler_rows d owner now limit =
     take limit (sort_key (\<lambda>r. (scheduler_text r, c_id r))
       (filter (\<lambda>r. c_owner_id r = owner \<and> scheduler_due now r) (remindi_table d)))"

definition scheduler_candidates ::
  "db \<Rightarrow> ustring \<Rightarrow> instant \<Rightarrow> nat \<Rightarrow> (repository_error, remindi list) res" where
  "scheduler_candidates d owner now limit =
     rbind (timestamp now) (\<lambda>n.
       if int limit > i64_max then Err InvalidData
       else collect_map remindi_from_row (scheduler_rows d owner n limit))"

definition event_from_row :: "event_row \<Rightarrow> (repository_error, remindi_event) res" where
  "event_from_row r =
     rbind (parse_enum event_type_from_str (e_event_type r)) (\<lambda>et.
     rbind (required_time (e_occurred_at r)) (\<lambda>occurred.
     rbind (optional_u64 (e_prior_version r)) (\<lambda>prior.
     rbind (optional_u64 (e_new_version r)) (\<lambda>new.
       Ok \<lparr>event_sequence = Some (e_sequence r), event_id = e_event_id r,
           event_remindi_id = e_remindi_id r, event_type = et, event_actor_type = e_actor_type r,
           event_actor_id = e_actor_id r, event_request_id = e_request_id r,
           occurred_at = occurred, prior_version = prior, new_version = new,
           details = e_details r\<rparr>))))"

definition history_rows ::
  "db \<Rightarrow> uuid \<Rightarrow> int \<Rightarrow> event_type_kind list \<Rightarrow> nat \<Rightarrow> event_row list" where
  "history_rows d i after types limit =
     take limit (sort_key e_sequence
       (filter (\<lambda>e. e_remindi_id e = i \<and> e_sequence e > after
                    \<and> in_filter (e_event_type e) (map event_type_name types)) (event_table d)))"

definition history_events ::
  "db \<Rightarrow> ustring \<Rightarrow> uuid \<Rightarrow> int \<Rightarrow> event_type_kind list \<Rightarrow> nat
     \<Rightarrow> (repository_error, remindi_event list) res" where
  "history_events d owner i after types limit =
     rbind (find_remindi d owner i) (\<lambda>found.
       if found = None then Ok []
       else if int limit > i64_max then Err InvalidData
       else collect_map event_from_row (history_rows d i after types limit))"

definition evidence_from_row :: "evidence_row \<Rightarrow> (repository_error, completion_evidence) res" where
  "evidence_from_row r =
     rbind (required_time (v_observed_at r)) (\<lambda>observed.
     rbind (required_time (v_recorded_at r)) (\<lambda>recorded.
       Ok \<lparr>ce_id = v_id r, ce_remindi_id = v_remindi_id r, ce_evidence_type = v_evidence_type r,
           ce_summary = v_summary r, ce_reference_uri = v_reference_uri r,
           ce_content_hash = v_content_hash r, ce_observed_at = observed,
           ce_recorded_at = recorded, ce_recorded_by = v_recorded_by r,
           ce_metadata = v_metadata r\<rparr>))"

definition evidence_of_item ::
  "db \<Rightarrow> ustring \<Rightarrow> uuid \<Rightarrow> (repository_error, completion_evidence option) res" where
  "evidence_of_item d owner i =
     transpose_map evidence_from_row
       (find (\<lambda>v. v_remindi_id v = i
                  \<and> list_ex (\<lambda>r. c_id r = i \<and> c_owner_id r = owner) (remindi_table d))
         (evidence_table d))"

end
