(* ===== verification/Evaluator.thy ===== *)
theory Evaluator
  imports StateMachine Samples
begin

text \<open>
  \<open>src/triggers/evaluator.rs\<close>: one deterministic evaluation of an item. The function takes
  \<open>&mut Remindi\<close>: the model returns the evaluated item with the readiness and the events. On an
  error the caller discards the item, so the model returns the error alone.
\<close>

record check_context =
  session_id :: "ustring option"
  task_lineage_id :: "ustring option"
  lifecycle_event :: lifecycle_event_kind
  active_goal_ids :: "ustring list"

datatype condition_evaluation = CE_NotEvaluated | CE_Satisfied | CE_Unsatisfied | CE_Unknown | CE_Error

record evaluation_result =
  res_readiness :: "readiness_kind option"
  res_events :: "event_type_kind list"

definition ready_result :: "readiness_kind \<Rightarrow> event_type_kind list \<Rightarrow> evaluation_result" where
  "ready_result rd es = \<lparr>res_readiness = Some rd, res_events = es\<rparr>"

definition nonempty_text :: "ustring option \<Rightarrow> bool" where
  "nonempty_text v = (case v of None \<Rightarrow> False | Some s \<Rightarrow> s \<noteq> [])"

text \<open>\<open>i64::try_from(overdue_after_seconds).unwrap_or(i64::MAX)\<close>.\<close>

definition grace_seconds :: "remindi \<Rightarrow> int" where
  "grace_seconds r = (case i64_try_from_u64 (overdue_after_seconds r) of Some n \<Rightarrow> n | None \<Rightarrow> i64_max)"

section \<open>Trigger satisfaction\<close>

fun condition_status_of :: "condition_evaluation \<Rightarrow> condition_status option" where
  "condition_status_of CE_NotEvaluated = None"
| "condition_status_of CE_Satisfied = Some CS_Satisfied"
| "condition_status_of CE_Unsatisfied = Some CS_Unsatisfied"
| "condition_status_of CE_Unknown = Some CS_Unknown"
| "condition_status_of CE_Error = Some CS_Error"

definition poll_seconds :: "u64 option \<Rightarrow> int" where
  "poll_seconds poll =
     (case i64_try_from_u64 (case poll of None \<Rightarrow> 30 | Some s \<Rightarrow> s) of Some n \<Rightarrow> n | None \<Rightarrow> 86400)"

definition trigger_satisfaction ::
  "remindi \<Rightarrow> instant \<Rightarrow> check_context \<Rightarrow> condition_evaluation
     \<Rightarrow> (domain_error, remindi \<times> bool \<times> readiness_kind \<times> event_type_kind list) res" where
  "trigger_satisfaction r now ctx condition =
     (let anchored = (case next_fire_at r of None \<Rightarrow> False | Some anchor \<Rightarrow> now \<ge> anchor) in
      case trigger r of
        AtTime _ \<Rightarrow> Ok (r, anchored, R_Due, [])
      | AfterElapsed _ \<Rightarrow> Ok (r, anchored, R_Due, [])
      | Interval _ _ \<Rightarrow> Ok (r, anchored, R_Due, [])
      | NextSession \<Rightarrow>
          Ok (r, nonempty_text (session_id ctx) \<and> session_id ctx \<noteq> source_session_id r, R_Due, [])
      | NextContinuation \<Rightarrow>
          Ok (r, lifecycle_event ctx = Continuation
                 \<and> nonempty_text (session_id ctx)
                 \<and> session_id ctx \<noteq> source_session_id r
                 \<and> task_lineage_id ctx = source_task_lineage_id r
                 \<and> source_task_lineage_id r \<noteq> None, R_Due, [])
      | GoalActive goal_id \<Rightarrow> Ok (r, goal_id \<in> set (active_goal_ids ctx), R_Due, [])
      | Condition _ params poll manual_check_at \<Rightarrow>
          if \<not> is_object params then Err ConditionParametersMustBeObject
          else
            let r1 = r\<lparr>last_condition_status := condition_status_of condition\<rparr>;
                evaluated = (condition \<noteq> CE_NotEvaluated);
                manual = (condition \<noteq> CE_Satisfied \<and>
                          (case manual_check_at of None \<Rightarrow> False | Some deadline \<Rightarrow> now \<ge> deadline))
            in rbind
                 (if evaluated
                  then (if condition = CE_Satisfied \<or> manual
                        then Ok (r1\<lparr>next_evaluation_at := None\<rparr>)
                        else rbind (time_add now (seconds (poll_seconds poll))) (\<lambda>t.
                               Ok (r1\<lparr>next_evaluation_at := Some t\<rparr>)))
                  else if manual then Ok (r1\<lparr>next_evaluation_at := None\<rparr>)
                  else Ok r1)
                 (\<lambda>r2. Ok (r2, condition = CE_Satisfied \<or> manual,
                          if manual then R_ManualVerification else R_Due,
                          if evaluated then [E_ConditionEvaluated] else [])))"

section \<open>Snoozed and due items\<close>

definition evaluate_snooze ::
  "remindi \<Rightarrow> instant \<Rightarrow> (domain_error, remindi \<times> evaluation_result) res" where
  "evaluate_snooze r now =
     (case snooze_until r of
        None \<Rightarrow> Err SnoozeRequiresReadyState
      | Some deadline \<Rightarrow>
          if now < deadline then Ok (r, \<lparr>res_readiness = None, res_events = []\<rparr>)
          else
            let r1 = clear_snooze r in
            rbind (case due_since r1 of
                     None \<Rightarrow> Ok False
                   | Some d \<Rightarrow> rbind (time_add d (seconds (grace_seconds r1))) (\<lambda>t. Ok (now \<ge> t)))
              (\<lambda>overdue.
                Ok (r1\<lparr>state := (if overdue then Overdue else Due),
                       updated_at := now,
                       version := version r1 + 1\<rparr>,
                    ready_result (if overdue then R_Overdue else R_Due)
                      [if overdue then E_BecameOverdue else E_BecameDue])))"

definition evaluate_due ::
  "remindi \<Rightarrow> instant \<Rightarrow> event_type_kind list \<Rightarrow> (domain_error, remindi \<times> evaluation_result) res" where
  "evaluate_due r now events =
     (case due_since r of
        None \<Rightarrow> Ok (r, ready_result R_Due events)
      | Some d \<Rightarrow>
          rbind (time_add d (seconds (grace_seconds r))) (\<lambda>t.
            if now \<ge> t
            then Ok (r\<lparr>state := Overdue, updated_at := now, version := version r + 1\<rparr>,
                     ready_result R_Overdue (events @ [E_BecameOverdue]))
            else Ok (r, ready_result R_Due events)))"

section \<open>Evaluation\<close>

definition evaluate ::
  "remindi \<Rightarrow> instant \<Rightarrow> check_context \<Rightarrow> condition_evaluation
     \<Rightarrow> (domain_error, remindi \<times> evaluation_result) res" where
  "evaluate r now ctx condition =
     (if is_terminal (state r) then Err TerminalState
      else
        let r1 = r\<lparr>last_checked_at := Some now\<rparr> in
        if state r1 = Snoozed then evaluate_snooze r1 now
        else if state r1 = Overdue then Ok (r1, ready_result R_Overdue [])
        else if state r1 = Due then evaluate_due r1 now []
        else
          rbind (trigger_satisfaction r1 now ctx condition) (\<lambda>(r2, satisfied, rd, events).
            if \<not> satisfied then Ok (r2, \<lparr>res_readiness = None, res_events = events\<rparr>)
            else Ok (r2\<lparr>state := Due, due_since := Some now, updated_at := now,
                        version := version r2 + 1\<rparr>,
                     ready_result rd (events @ [E_BecameDue]))))"

section \<open>Frame and invariant\<close>

text \<open>Evaluation writes the check bookkeeping and the lifecycle fields only.\<close>

definition eval_frame :: "remindi \<Rightarrow> remindi \<Rightarrow> bool" where
  "eval_frame a b \<longleftrightarrow>
     same_identity a b \<and> message a = message b \<and> instructions a = instructions b \<and>
     priority a = priority b \<and> trigger a = trigger b \<and> recurrence a = recurrence b \<and>
     next_fire_at a = next_fire_at b \<and> original_next_fire_at a = original_next_fire_at b \<and>
     overdue_after_seconds a = overdue_after_seconds b \<and> occurrence_no a = occurrence_no b \<and>
     snooze_count a = snooze_count b \<and> completed_at a = completed_at b \<and>
     cancelled_at a = cancelled_at b \<and> last_condition_detail a = last_condition_detail b"

lemma trigger_satisfaction_frame:
  "trigger_satisfaction r now ctx c = Inr (r', sat, rd, es) \<Longrightarrow>
     eval_frame r r' \<and> state r' = state r \<and> due_since r' = due_since r \<and>
     snooze_until r' = snooze_until r \<and> snoozed_from_state r' = snoozed_from_state r \<and>
     version r' = version r \<and> updated_at r' = updated_at r"
  by (auto simp: trigger_satisfaction_def Let_def res_simps eval_frame_def same_identity_def
      split: trigger_spec.splits if_splits)

lemma trigger_satisfaction_events:
  "trigger_satisfaction r now ctx c = Inr (r', sat, rd, es) \<Longrightarrow>
     es = (case trigger r of Condition _ _ _ _ \<Rightarrow>
             if c = CE_NotEvaluated then [] else [E_ConditionEvaluated] | _ \<Rightarrow> [])"
  by (auto simp: trigger_satisfaction_def Let_def res_simps split: trigger_spec.splits if_splits)

lemma trigger_satisfaction_rd:
  "trigger_satisfaction r now ctx c = Inr (r', sat, rd, es) \<Longrightarrow> rd \<noteq> R_Overdue"
  by (auto simp: trigger_satisfaction_def Let_def res_simps split: trigger_spec.splits if_splits)

text \<open>The four outcomes of a successful evaluation.\<close>

lemma evaluate_cases [consumes 1, case_names quiet due overdue woken]:
  assumes "evaluate r now ctx c = Inr (r', out)"
  obtains
    (quiet) "state r' = state r" "version r' = version r" "updated_at r' = updated_at r"
      "snooze_until r' = snooze_until r" "snoozed_from_state r' = snoozed_from_state r"
      "due_since r' = due_since r" "res_events out \<in> {[], [E_ConditionEvaluated]}"
      "res_readiness out = (case state r of Due \<Rightarrow> Some R_Due | Overdue \<Rightarrow> Some R_Overdue | _ \<Rightarrow> None)"
  | (due) "state r = Scheduled" "state r' = Due" "due_since r' = Some now"
      "version r' = version r + 1" "updated_at r' = now"
      "snooze_until r' = snooze_until r" "snoozed_from_state r' = snoozed_from_state r"
      "res_events out \<in> {[E_BecameDue], [E_ConditionEvaluated, E_BecameDue]}"
      "res_readiness out \<in> {Some R_Due, Some R_ManualVerification}"
  | (overdue) "state r = Due" "state r' = Overdue" "due_since r' = due_since r"
      "version r' = version r + 1" "updated_at r' = now"
      "snooze_until r' = snooze_until r" "snoozed_from_state r' = snoozed_from_state r"
      "res_events out = [E_BecameOverdue]" "res_readiness out = Some R_Overdue"
  | (woken) t where "state r = Snoozed" "snooze_until r = Some t" "t \<le> now"
      "state r' \<in> {Due, Overdue}" "due_since r' = due_since r"
      "version r' = version r + 1" "updated_at r' = now"
      "snooze_until r' = None" "snoozed_from_state r' = None"
      "res_events out = [if state r' = Overdue then E_BecameOverdue else E_BecameDue]"
      "res_readiness out = Some (if state r' = Overdue then R_Overdue else R_Due)"
proof (cases "state r")
  case Scheduled
  with assms obtain r2 sat rd es where
    ts: "trigger_satisfaction (r\<lparr>last_checked_at := Some now\<rparr>) now ctx c = Inr (r2, sat, rd, es)"
    and eq: "Inr (r', out) = (if \<not> sat then Ok (r2, \<lparr>res_readiness = None, res_events = es\<rparr>)
        else Ok (r2\<lparr>state := Due, due_since := Some now, updated_at := now,
                    version := version r2 + 1\<rparr>, ready_result rd (es @ [E_BecameDue]))
        :: (domain_error, remindi \<times> evaluation_result) res)"
    by (auto simp: evaluate_def is_terminal_def Let_def res_simps)
  note f = trigger_satisfaction_frame [OF ts] trigger_satisfaction_rd [OF ts]
  have es: "es \<in> {[], [E_ConditionEvaluated]}"
    using trigger_satisfaction_events [OF ts] by (auto split: trigger_spec.splits if_splits)
  show ?thesis
  proof (cases sat)
    case True
    with eq f es Scheduled show ?thesis
      by (intro due) (cases rd; auto simp: ready_result_def)+
  next
    case False
    with eq f es Scheduled show ?thesis by (intro quiet) auto
  qed
next
  case Due
  with assms have e: "evaluate_due (r\<lparr>last_checked_at := Some now\<rparr>) now [] = Inr (r', out)"
    by (simp add: evaluate_def is_terminal_def Let_def)
  show ?thesis
  proof (cases "state r' = Overdue")
    case True
    with e Due show ?thesis
      by (intro overdue) (auto simp: evaluate_due_def res_simps ready_result_def split: option.splits if_splits)
  next
    case False
    with e Due show ?thesis
      by (intro quiet) (auto simp: evaluate_due_def res_simps ready_result_def split: option.splits if_splits)
  qed
next
  case Overdue
  with assms have "r' = r\<lparr>last_checked_at := Some now\<rparr>" "out = ready_result R_Overdue []"
    by (auto simp: evaluate_def is_terminal_def Let_def)
  with Overdue show ?thesis by (intro quiet) (simp_all add: ready_result_def)
next
  case Snoozed
  with assms have e: "evaluate_snooze (r\<lparr>last_checked_at := Some now\<rparr>) now = Inr (r', out)"
    by (simp add: evaluate_def is_terminal_def Let_def)
  then obtain t where t: "snooze_until r = Some t"
    by (auto simp: evaluate_snooze_def split: option.splits)
  show ?thesis
  proof (cases "now < t")
    case True
    with e t have "r' = r\<lparr>last_checked_at := Some now\<rparr>" "out = \<lparr>res_readiness = None, res_events = []\<rparr>"
      by (auto simp: evaluate_snooze_def)
    with Snoozed show ?thesis by (intro quiet) simp_all
  next
    case False
    with e t obtain od where
      "r' = (clear_snooze (r\<lparr>last_checked_at := Some now\<rparr>))\<lparr>state := (if od then Overdue else Due),
               updated_at := now, version := version r + 1\<rparr>"
      "out = ready_result (if od then R_Overdue else R_Due) [if od then E_BecameOverdue else E_BecameDue]"
      by (auto simp: evaluate_snooze_def Let_def res_simps clear_snooze_def)
    with Snoozed t False show ?thesis
      by (intro woken [of t]) (auto simp: clear_snooze_def ready_result_def)
  qed
qed (use assms in \<open>simp_all add: evaluate_def is_terminal_def\<close>)

lemma evaluate_frame:
  assumes "evaluate r now ctx c = Inr (r', out)"
  shows "eval_frame r r'"
proof -
  have chk: "eval_frame r (r\<lparr>last_checked_at := Some now\<rparr>)"
    by (simp add: eval_frame_def same_identity_def)
  have trans: "eval_frame a d" if "eval_frame a b" "eval_frame b d" for a b d
    using that by (simp add: eval_frame_def same_identity_def)
  have "eval_frame (r\<lparr>last_checked_at := Some now\<rparr>) r'"
  proof (cases "state r")
    case Scheduled
    with assms obtain r2 sat rd es where
      ts: "trigger_satisfaction (r\<lparr>last_checked_at := Some now\<rparr>) now ctx c = Inr (r2, sat, rd, es)"
      and "r' = r2 \<or> r' = r2\<lparr>state := Due, due_since := Some now, updated_at := now,
             version := version r2 + 1\<rparr>"
      by (auto simp: evaluate_def is_terminal_def Let_def res_simps split: if_splits)
    with trigger_satisfaction_frame [OF ts] show ?thesis
      by (auto simp: eval_frame_def same_identity_def)
  qed (use assms in \<open>auto simp: evaluate_def is_terminal_def Let_def res_simps evaluate_due_def
      evaluate_snooze_def clear_snooze_def eval_frame_def same_identity_def
      split: if_splits option.splits\<close>)
  with chk show ?thesis by (rule trans)
qed

lemma evaluate_wf [wf_intros]:
  assumes "evaluate r now ctx c = Inr (r', out)" and "item_wf r"
  shows "item_wf r'"
proof -
  have frame: "completed_at r' = completed_at r" "cancelled_at r' = cancelled_at r"
    using evaluate_frame [OF assms(1)] by (simp_all add: eval_frame_def)
  from assms(1) show ?thesis
  proof (cases rule: evaluate_cases)
    case quiet
    with assms(2) frame show ?thesis by (auto simp: item_wf_defs)
  next
    case due
    with assms(2) frame show ?thesis by (simp add: item_wf_defs)
  next
    case overdue
    with assms(2) frame show ?thesis by (simp add: item_wf_defs)
  next
    case (woken t)
    with assms(2) frame show ?thesis by (auto simp: item_wf_defs)
  qed
qed

text \<open>Readiness and the resulting state agree, and no event means no version step.\<close>

lemma evaluate_readiness:
  assumes "evaluate r now ctx c = Inr (r', out)"
  shows "res_readiness out = None \<longleftrightarrow> state r' \<in> {Scheduled, Snoozed}"
    and "res_readiness out = Some R_Overdue \<longleftrightarrow> state r' = Overdue"
  using assms by (cases rule: evaluate_cases; cases "state r";
      auto simp: evaluate_def is_terminal_def)+

lemma evaluate_no_events:
  assumes "evaluate r now ctx c = Inr (r', out)" and "res_events out = []"
  shows "version r' = version r" and "state r' = state r"
  using assms(1) by (cases rule: evaluate_cases; use assms(2) in auto)+

section \<open>Properties\<close>

text \<open>
  A successful evaluation of a well-formed item keeps it well formed, changes nothing but the
  check bookkeeping and the lifecycle fields, reports readiness exactly in the states due and
  overdue, and steps the version exactly when the state changes.
\<close>

theorem evaluate_sound:
  assumes "item_wf r" and "evaluate r now ctx c = Inr (r', out)"
  shows "item_wf r' \<and> eval_frame r r' \<and>
    (res_readiness out = None \<longleftrightarrow> state r' \<in> {Scheduled, Snoozed}) \<and>
    (res_readiness out = Some R_Overdue \<longleftrightarrow> state r' = Overdue) \<and>
    version r' = version r + (if state r' = state r then 0 else 1) \<and>
    (state r' \<noteq> state r \<longrightarrow> res_events out \<noteq> [] \<and> updated_at r' = now)"
proof -
  have "version r' = version r + (if state r' = state r then 0 else 1) \<and>
    (state r' \<noteq> state r \<longrightarrow> res_events out \<noteq> [] \<and> updated_at r' = now)"
    using assms(2) by (cases rule: evaluate_cases) auto
  with evaluate_wf [OF assms(2,1)] evaluate_frame [OF assms(2)] evaluate_readiness [OF assms(2)]
  show ?thesis by blast
qed

definition plain_context :: check_context where
  "plain_context = \<lparr>session_id = None, task_lineage_id = None, lifecycle_event = Checkpoint, active_goal_ids = []\<rparr>"

lemma sample_becomes_due:
  "evaluate scheduled_item t0 plain_context CE_NotEvaluated =
     Inr (scheduled_item\<lparr>last_checked_at := Some t0, state := Due, due_since := Some t0, updated_at := t0, version := 2\<rparr>,
          \<lparr>res_readiness = Some R_Due, res_events = [E_BecameDue]\<rparr>)"
  by (simp add: evaluate_def is_terminal_def Let_def trigger_satisfaction_def sample_item_def ready_result_def)

theorem evaluate_sound_witness:
  "item_wf (scheduled_item\<lparr>last_checked_at := Some t0, state := Due, due_since := Some t0, updated_at := t0, version := 2\<rparr>)"
  using evaluate_sound [OF _ sample_becomes_due] by (simp add: sample_item_def item_wf_defs)

text \<open>
  Snoozing and waking. Before the deadline an evaluation reports nothing and leaves the
  snoozed item alone; from the deadline on it resurfaces the same occurrence: as overdue when the
  grace period counted from the original \<open>due_since\<close> has elapsed, as due otherwise, with the
  schedule and \<open>due_since\<close> the item had before it was snoozed.
\<close>

theorem snooze_resurfaces:
  assumes "item_wf r" and "snooze_item r until reason now = Inr (s, e)" and "evaluate s t ctx c = Inr (s', out)"
  shows "if t < until then s' = s\<lparr>last_checked_at := Some t\<rparr> \<and> res_readiness out = None \<and> res_events out = []
    else \<exists>d. due_since r = Some d \<and> due_since s' = Some d \<and>
      state s' = (if d + seconds (grace_seconds r) \<le> t then Overdue else Due) \<and>
      snooze_until s' = None \<and> snoozed_from_state s' = None \<and>
      next_fire_at s' = next_fire_at r \<and> occurrence_no s' = occurrence_no r \<and>
      res_events out = [if state s' = Overdue then E_BecameOverdue else E_BecameDue]"
proof -
  from assms(2) have s: "s = r\<lparr>snoozed_from_state := Some (state r), snooze_until := Some until, state := Snoozed,
      snooze_count := snooze_count r + 1, version := version r + 1, updated_at := now\<rparr>"
    and st: "state r = Due \<or> state r = Overdue"
    by (simp_all add: snooze_item_Ok)
  from assms(1) st obtain d where d: "due_since r = Some d" by (auto simp: item_wf_defs)
  have e: "evaluate_snooze (s\<lparr>last_checked_at := Some t\<rparr>) t = Inr (s', out)"
    using assms(3) by (simp add: evaluate_def is_terminal_def Let_def s)
  show ?thesis
  proof (cases "t < until")
    case True
    with e show ?thesis by (auto simp: evaluate_snooze_def s)
  next
    case False
    have g: "grace_seconds (clear_snooze (s\<lparr>last_checked_at := Some t\<rparr>)) = grace_seconds r"
      by (simp add: grace_seconds_def clear_snooze_def s)
    have sn: "snooze_until (s\<lparr>last_checked_at := Some t\<rparr>) = Some until" by (simp add: s)
    have ds: "due_since (clear_snooze (s\<lparr>last_checked_at := Some t\<rparr>)) = Some d"
      by (simp add: s d clear_snooze_def)
    from e sn ds g False have "s' = (clear_snooze (s\<lparr>last_checked_at := Some t\<rparr>))\<lparr>
        state := (if d + seconds (grace_seconds r) \<le> t then Overdue else Due), updated_at := t,
        version := version s + 1\<rparr>"
      and "out = ready_result (if d + seconds (grace_seconds r) \<le> t then R_Overdue else R_Due)
        [if d + seconds (grace_seconds r) \<le> t then E_BecameOverdue else E_BecameDue]"
      by (auto simp: evaluate_snooze_def Let_def res_simps clear_snooze_def)
    with d False show ?thesis by (auto simp: clear_snooze_def s ready_result_def)
  qed
qed

lemma sample_snoozed:
  "snooze_item sample_item (t0 + 60) (lit ''later'') t0 =
     Inr (sample_item\<lparr>snoozed_from_state := Some Due, snooze_until := Some (t0 + 60), state := Snoozed,
       snooze_count := 1, version := 3, updated_at := t0\<rparr>, E_Snoozed)"
  by (simp add: snooze_item_def is_terminal_def sample_item_def trim_def is_whitespace_def)

lemma sample_wakes:
  "evaluate (sample_item\<lparr>snoozed_from_state := Some Due, snooze_until := Some (t0 + 60), state := Snoozed,
       snooze_count := 1, version := 3, updated_at := t0\<rparr>) (t0 + 60) plain_context CE_NotEvaluated =
     Inr (sample_item\<lparr>last_checked_at := Some (t0 + 60), snooze_count := 1, version := 4, updated_at := t0 + 60\<rparr>,
       \<lparr>res_readiness = Some R_Due, res_events = [E_BecameDue]\<rparr>)"
  by (simp add: evaluate_def is_terminal_def Let_def evaluate_snooze_def clear_snooze_def sample_item_def
      grace_seconds_def i64_try_from_u64_def i64_max_def time_add_def valid_instant_def min_instant_def
      max_instant_def seconds_def ns_per_sec_def t0_def ready_result_def)

theorem snooze_resurfaces_witness:
  "\<exists>d. due_since sample_item = Some d \<and>
     (if d + seconds (grace_seconds sample_item) \<le> t0 + 60 then Overdue else Due) = Due"
  using snooze_resurfaces [OF _ sample_snoozed sample_wakes] by (simp add: sample_item_def item_wf_defs)

lemma trigger_satisfaction_again:
  assumes "trigger_satisfaction r now ctx c = Inr (r1, sat, rd, es)"
    and "trigger_satisfaction (r1\<lparr>last_checked_at := x\<rparr>) now ctx c = Inr (r2, sat', rd', es')"
  shows "sat' = sat"
  using assms
  by (cases "trigger r") (auto simp: trigger_satisfaction_def Let_def res_simps split: if_splits)

lemma evaluate_due_state:
  assumes "state r = Due" and "evaluate r now ctx c = Inr (r', out)"
  shows "state r' = (case due_since r of None \<Rightarrow> Due
    | Some d \<Rightarrow> if d + seconds (grace_seconds r) \<le> now then Overdue else Due)"
proof -
  have "grace_seconds (r\<lparr>last_checked_at := Some now\<rparr>) = grace_seconds r" by (simp add: grace_seconds_def)
  with assms show ?thesis
    by (auto simp: evaluate_def is_terminal_def Let_def evaluate_due_def res_simps split: option.splits if_splits)
qed

lemma evaluate_scheduled:
  assumes "state r = Scheduled" and "evaluate r now ctx c = Inr (r', out)"
  obtains r2 sat rd es where
    "trigger_satisfaction (r\<lparr>last_checked_at := Some now\<rparr>) now ctx c = Inr (r2, sat, rd, es)"
    "if sat then state r' = Due else r' = r2"
  using assms by (auto simp: evaluate_def is_terminal_def Let_def res_simps ready_result_def split: if_splits)

lemma evaluate_woken_state:
  assumes "state r = Snoozed" "evaluate r now ctx c = Inr (r', out)" "state r' = Due" "due_since r = Some d"
  shows "now < d + seconds (grace_seconds r)"
proof -
  have "grace_seconds (clear_snooze (r\<lparr>last_checked_at := Some now\<rparr>)) = grace_seconds r"
    by (simp add: grace_seconds_def clear_snooze_def)
  moreover have "due_since (clear_snooze (r\<lparr>last_checked_at := Some now\<rparr>)) = Some d"
    using assms(4) by (simp add: clear_snooze_def)
  ultimately show ?thesis
    using assms(1-3)
    by (auto simp: evaluate_def is_terminal_def Let_def evaluate_snooze_def res_simps split: option.splits if_splits)
qed

text \<open>
  Evaluation settles: a second evaluation at the same instant, in the same context and with
  the same condition, changes neither the state nor the version, unless the item has no grace
  period at all (then \<open>due\<close> may pass to \<open>overdue\<close>).
\<close>

theorem evaluate_settles:
  assumes "item_wf r" and "0 < grace_seconds r"
    and "evaluate r now ctx c = Inr (r1, o1)" and "evaluate r1 now ctx c = Inr (r2, o2)"
  shows "state r2 = state r1 \<and> version r2 = version r1"
  using assms(4)
proof (cases rule: evaluate_cases)
  case quiet
  then show ?thesis by simp
next
  case due
  from assms(3) have "state r = Scheduled \<and> r1 = r1"
    by (cases rule: evaluate_cases) (use due in auto)
  then have "state r = Scheduled" by simp
  from evaluate_scheduled [OF this assms(3)] due obtain rd es where
    ts: "trigger_satisfaction (r\<lparr>last_checked_at := Some now\<rparr>) now ctx c = Inr (r1, False, rd, es)"
    by (metis remindi_state.distinct(1))
  from evaluate_scheduled [OF due(1) assms(4)] due obtain x sat rd' es' where
    ts2: "trigger_satisfaction (r1\<lparr>last_checked_at := Some now\<rparr>) now ctx c = Inr (x, sat, rd', es')"
    and s: "if sat then state r2 = Due else r2 = x" by metis
  from trigger_satisfaction_again [OF ts ts2] s have "r2 = x" by simp
  with trigger_satisfaction_frame [OF ts2] due show ?thesis by simp
next
  case overdue
  have g: "grace_seconds r1 = grace_seconds r"
    using evaluate_frame [OF assms(3)] by (simp add: eval_frame_def grace_seconds_def)
  from evaluate_due_state [OF overdue(1) assms(4)] overdue(2) g obtain d where
    d: "due_since r1 = Some d" "d + seconds (grace_seconds r) \<le> now"
    by (auto split: option.splits if_splits)
  from assms(3) have False
  proof (cases rule: evaluate_cases)
    case quiet
    then have "state r = Due" "due_since r = Some d" using overdue(1) d by simp_all
    with evaluate_due_state [OF _ assms(3)] d(2) overdue(1) show False by simp
  next
    case due
    then show False using d assms(2) by (simp add: seconds_def ns_per_sec_def)
  next
    case (woken t)
    then have "due_since r = Some d" using d by simp
    with evaluate_woken_state [OF woken(1) assms(3) overdue(1)] d(2) show False by simp
  qed (use overdue in simp)
  then show ?thesis ..
next
  case (woken t)
  from assms(3) have "state r = Snoozed \<and> snooze_until r = Some t"
    by (cases rule: evaluate_cases) (use woken in auto)
  moreover have "evaluate_snooze (r\<lparr>last_checked_at := Some now\<rparr>) now = Inr (r1, o1)"
    using assms(3) calculation by (simp add: evaluate_def is_terminal_def Let_def)
  ultimately have "state r1 \<noteq> Snoozed"
    using woken(3) by (auto simp: evaluate_snooze_def Let_def res_simps split: if_splits)
  with woken(1) show ?thesis by simp
qed

lemma due_item_again:
  "evaluate (scheduled_item\<lparr>last_checked_at := Some t0, state := Due, due_since := Some t0, updated_at := t0, version := 2\<rparr>)
     t0 plain_context CE_NotEvaluated =
   Inr (scheduled_item\<lparr>last_checked_at := Some t0, state := Due, due_since := Some t0, updated_at := t0, version := 2\<rparr>,
     \<lparr>res_readiness = Some R_Due, res_events = []\<rparr>)"
  by (simp add: evaluate_def is_terminal_def Let_def evaluate_due_def sample_item_def
      grace_seconds_def i64_try_from_u64_def i64_max_def time_add_def valid_instant_def min_instant_def
      max_instant_def seconds_def ns_per_sec_def t0_def ready_result_def)

theorem evaluate_settles_witness:
  "state scheduled_item = Scheduled \<and>
   (\<exists>r1 o1 r2 o2. evaluate scheduled_item t0 plain_context CE_NotEvaluated = Inr (r1, o1) \<and> state r1 = Due \<and>
      evaluate r1 t0 plain_context CE_NotEvaluated = Inr (r2, o2) \<and> state r2 = state r1 \<and> version r2 = version r1)"
  using evaluate_settles [OF _ _ sample_becomes_due due_item_again] sample_becomes_due due_item_again
  by (simp add: sample_item_def item_wf_defs grace_seconds_def i64_try_from_u64_def i64_max_def)

end
