(* ===== verification/Operations.thy ===== *)
theory Operations
  imports Database Evaluator Recurrence Samples
begin

text \<open>
  The pure halves of the mutation handlers of \<open>src/remindi/service.rs\<close>: the preparation of each
  request (validation and normalisation, in the source's order) and the closure each handler
  passes to \<open>mutate\<close>. The interface \<open>mutation_closure\<close> is what \<open>mutate\<close> relies on; every closure
  is shown to be an instance.
\<close>

section \<open>Preparing requests\<close>

definition prepare_add :: "actor \<Rightarrow> add_request \<Rightarrow> (service_error, add_request) res" where
  "prepare_add a req =
     rbind (validate_actor a) (\<lambda>_.
     rbind (validate_idempotency_key (ar_idempotency_key req)) (\<lambda>_.
     rbind (required_text (ar_project_id req) 512) (\<lambda>project.
     rbind (required_text (ar_message req) 8192) (\<lambda>msg.
     rbind (optional_text (ar_task_id req) 512) (\<lambda>task.
     rbind (optional_bounded (ar_instructions req) 32768) (\<lambda>instr.
     rbind (optional_context (ar_session_id req) 512) (\<lambda>session.
     rbind (optional_context (ar_task_lineage_id req) 512) (\<lambda>lineage.
     rbind (normalize_trigger (ar_trigger req)) (\<lambda>trig.
     rbind (transpose_map normalize_recurrence (ar_recurrence req)) (\<lambda>recur.
     rbind (map_err map_domain (validate_trigger trig)) (\<lambda>_.
     rbind (case recur of None \<Rightarrow> Ok ()
            | Some spec \<Rightarrow> map_err map_domain (validate_for_trigger spec trig)) (\<lambda>_.
     rbind (if ar_overdue_after_seconds req > 31536000 then Err Validation else Ok ()) (\<lambda>_.
     rbind (validate_links (ar_links req)) (\<lambda>_.
     rbind (validate_goal_link trig (ar_links req)) (\<lambda>_.
       Ok (req\<lparr>ar_project_id := project, ar_message := msg, ar_task_id := task,
               ar_instructions := instr, ar_session_id := session, ar_task_lineage_id := lineage,
               ar_trigger := trig, ar_recurrence := recur\<rparr>))))))))))))))))"

definition prepare_complete :: "actor \<Rightarrow> complete_request \<Rightarrow> (service_error, complete_request) res" where
  "prepare_complete a req =
     rbind (validate_actor a) (\<lambda>_.
     rbind (validate_idempotency_key (cr_idempotency_key req)) (\<lambda>_.
     rbind (validate_expected_version (cr_expected_version req)) (\<lambda>_.
     rbind (optional_bounded (cr_completion_note req) 4096) (\<lambda>note.
       Ok (req\<lparr>cr_completion_note := note\<rparr>)))))"

definition prepare_snooze :: "actor \<Rightarrow> snooze_request \<Rightarrow> (service_error, snooze_request) res" where
  "prepare_snooze a req =
     rbind (validate_actor a) (\<lambda>_.
     rbind (validate_idempotency_key (sr_idempotency_key req)) (\<lambda>_.
     rbind (validate_expected_version (sr_expected_version req)) (\<lambda>_.
     rbind (required_text (sr_reason req) 4096) (\<lambda>reason.
     rbind (normalize_instant (sr_snooze_until req)) (\<lambda>until.
       Ok (req\<lparr>sr_reason := reason, sr_snooze_until := until\<rparr>))))))"

text \<open>The horizon check of \<open>snooze\<close>; \<open>now + maximum\<close> is instant arithmetic and can panic.\<close>

definition check_horizon :: "instant \<Rightarrow> instant \<Rightarrow> std_duration \<Rightarrow> (service_error, unit) res" where
  "check_horizon until now maximum_horizon =
     rbind (ok_or Validation (duration_try_from maximum_horizon)) (\<lambda>maximum.
     rbind (time_add now maximum) (\<lambda>limit.
       if until > limit then Err Validation else Ok ()))"

definition prepare_cancel :: "actor \<Rightarrow> cancel_request \<Rightarrow> (service_error, cancel_request) res" where
  "prepare_cancel a req =
     rbind (validate_actor a) (\<lambda>_.
     rbind (validate_idempotency_key (xr_idempotency_key req)) (\<lambda>_.
     rbind (validate_expected_version (xr_expected_version req)) (\<lambda>_.
     rbind (required_text (xr_reason req) 4096) (\<lambda>reason.
       Ok (req\<lparr>xr_reason := reason\<rparr>)))))"

definition prepare_update :: "actor \<Rightarrow> update_request \<Rightarrow> (service_error, update_request) res" where
  "prepare_update a req =
     rbind (validate_actor a) (\<lambda>_.
     rbind (validate_idempotency_key (ur_idempotency_key req)) (\<lambda>_.
     rbind (validate_expected_version (ur_expected_version req)) (\<lambda>_.
     rbind (required_text (ur_reason req) 4096) (\<lambda>reason.
     rbind (guard (has_update req) Validation) (\<lambda>_.
     rbind (transpose_map (\<lambda>m. required_text m 8192) (ur_message req)) (\<lambda>msg.
     rbind (transpose_map (\<lambda>v. optional_bounded v 32768) (ur_instructions req)) (\<lambda>instr.
     rbind (case ur_trigger req of None \<Rightarrow> Ok ()
            | Some t \<Rightarrow> map_err map_domain (validate_trigger t)) (\<lambda>_.
     rbind (transpose_map normalize_trigger (ur_trigger req)) (\<lambda>trig.
     rbind (transpose_map (transpose_map normalize_recurrence) (ur_recurrence req)) (\<lambda>recur.
     rbind (case ur_overdue_after_seconds req of None \<Rightarrow> Ok ()
            | Some s \<Rightarrow> if s > 31536000 then Err Validation else Ok ()) (\<lambda>_.
     rbind (case ur_links req of None \<Rightarrow> Ok () | Some ls \<Rightarrow> validate_links ls) (\<lambda>_.
     rbind (case trig of
              Some (GoalActive g) \<Rightarrow>
                rbind (ok_or Validation (ur_links req)) (validate_goal_link (GoalActive g))
            | _ \<Rightarrow> Ok ()) (\<lambda>_.
       Ok (req\<lparr>ur_reason := reason, ur_message := msg, ur_instructions := instr,
               ur_trigger := trig, ur_recurrence := recur\<rparr>))))))))))))))"

section \<open>The closures passed to mutate\<close>

record op_output =
  op_event :: event_type_kind
  op_details :: json
  op_evidence :: "validated_evidence option"
  op_links :: "remindi_link list option"

type_synonym operation = "remindi \<Rightarrow> (service_error, remindi \<times> op_output) res"

definition complete_operation ::
  "complete_request \<Rightarrow> validated_evidence \<Rightarrow> instant \<Rightarrow> operation" where
  "complete_operation req evidence now item =
     rbind (map_err map_domain (complete_item item (summary (evidence_of evidence)) now)) (\<lambda>(item', _).
       Ok (item', \<lparr>op_event = E_Completed,
                   op_details = JObj [(''completion_note'', json_opt JStr (cr_completion_note req))],
                   op_evidence = Some evidence, op_links = None\<rparr>))"

definition snooze_operation :: "snooze_request \<Rightarrow> instant \<Rightarrow> operation" where
  "snooze_operation req now item =
     (let prior = next_fire_at item in
      rbind (map_err map_domain (snooze_item item (sr_snooze_until req) (sr_reason req) now)) (\<lambda>(item', _).
      rbind (map_err map_domain (transpose_map canonical_timestamp prior)) (\<lambda>prior'.
      rbind (map_err map_domain (canonical_timestamp (sr_snooze_until req))) (\<lambda>until.
        Ok (item', \<lparr>op_event = E_Snoozed,
                    op_details = JObj [(''prior_next_fire_at'', json_opt JTime prior'),
                                       (''snooze_until'', JTime until),
                                       (''reason'', JStr (sr_reason req))],
                    op_evidence = None, op_links = None\<rparr>)))))"

definition cancel_operation :: "cancel_request \<Rightarrow> instant \<Rightarrow> operation" where
  "cancel_operation req now item =
     rbind (map_err map_domain (cancel_item item (xr_reason req) now)) (\<lambda>(item', _).
       Ok (item', \<lparr>op_event = E_Cancelled, op_details = JObj [(''reason'', JStr (xr_reason req))],
                   op_evidence = None, op_links = None\<rparr>))"

definition trigger_summary :: "remindi \<Rightarrow> (service_error, json) res" where
  "trigger_summary item =
     rbind (map_err map_domain (transpose_map canonical_timestamp (next_fire_at item))) (\<lambda>nf.
     rbind (map_err map_domain (transpose_map canonical_timestamp (next_evaluation_at item))) (\<lambda>ne.
       Ok (JObj [(''type'', JStr (lit (trigger_type (trigger item)))),
                 (''next_fire_at'', json_opt JTime nf),
                 (''next_evaluation_at'', json_opt JTime ne)])))"

definition changed_fields :: "update_request \<Rightarrow> string list" where
  "changed_fields req =
     (if ur_message req \<noteq> None then [''message''] else []) @
     (if ur_instructions req \<noteq> None then [''instructions''] else []) @
     (if ur_priority req \<noteq> None then [''priority''] else []) @
     (if ur_overdue_after_seconds req \<noteq> None then [''overdue_after_seconds''] else []) @
     (if ur_trigger req \<noteq> None then [''trigger''] else []) @
     (if ur_recurrence req \<noteq> None then [''recurrence''] else []) @
     (if ur_disposition req \<noteq> None then [''occurrence_disposition''] else []) @
     (if ur_links req \<noteq> None then [''links''] else [])"

text \<open>The assignments of the optional plain fields.\<close>

definition update_fields :: "update_request \<Rightarrow> remindi \<Rightarrow> remindi" where
  "update_fields req item =
     item\<lparr>message := (case ur_message req of Some m \<Rightarrow> m | None \<Rightarrow> message item),
          instructions := (case ur_instructions req of Some i \<Rightarrow> i | None \<Rightarrow> instructions item),
          priority := (case ur_priority req of Some p \<Rightarrow> p | None \<Rightarrow> priority item),
          overdue_after_seconds :=
            (case ur_overdue_after_seconds req of Some s \<Rightarrow> s | None \<Rightarrow> overdue_after_seconds item)\<rparr>"

definition update_trigger :: "update_request \<Rightarrow> instant \<Rightarrow> remindi \<Rightarrow> (service_error, remindi) res" where
  "update_trigger req now item =
     (case ur_trigger req of
        None \<Rightarrow> Ok item
      | Some trig \<Rightarrow>
          rbind (initial_next_fire_at trig now) (\<lambda>next.
          rbind (initial_next_evaluation_at trig now) (\<lambda>next_evaluation.
          rbind (map_err map_domain (replace_trigger item trig next now)) (\<lambda>(item', _).
            Ok (item'\<lparr>next_evaluation_at := next_evaluation\<rparr>)))))"

definition update_recurrence :: "update_request \<Rightarrow> remindi \<Rightarrow> (service_error, remindi) res" where
  "update_recurrence req item =
     (let item' = (case ur_recurrence req of None \<Rightarrow> item | Some v \<Rightarrow> item\<lparr>recurrence := v\<rparr>) in
      case recurrence item' of
        None \<Rightarrow> Ok item'
      | Some spec \<Rightarrow>
          rbind (map_err map_domain (validate_for_trigger spec (trigger item'))) (\<lambda>_. Ok item'))"

definition apply_advance :: "recurrence_advance \<Rightarrow> remindi \<Rightarrow> remindi" where
  "apply_advance adv item =
     item\<lparr>next_fire_at := Some (adv_next_fire_at adv),
          original_next_fire_at := Some (adv_next_fire_at adv),
          occurrence_no := adv_occurrence_no adv,
          due_since := None, state := Scheduled\<rparr>"

definition update_disposition ::
  "update_request \<Rightarrow> instant \<Rightarrow> remindi \<Rightarrow> (service_error, remindi \<times> u64 option) res" where
  "update_disposition req now item =
     (case ur_disposition req of
        None \<Rightarrow> Ok (item, None)
      | Some disposition \<Rightarrow>
          rbind (ok_or InvalidState (recurrence item)) (\<lambda>spec.
          rbind (ok_or InvalidState (next_fire_at item)) (\<lambda>anchor.
          rbind (map_err map_domain (advance spec anchor (occurrence_no item) now disposition)) (\<lambda>adv.
            Ok (apply_advance adv item, Some (adv_skipped_count adv))))))"

definition update_details ::
  "update_request \<Rightarrow> remindi \<Rightarrow> json \<Rightarrow> remindi \<Rightarrow> u64 option \<Rightarrow> (service_error, json) res" where
  "update_details req prior prior_trigger item skipped =
     (if ur_disposition req \<noteq> None then
        rbind (map_err map_domain (transpose_map canonical_timestamp (next_fire_at prior))) (\<lambda>ps.
        rbind (map_err map_domain (transpose_map canonical_timestamp (next_fire_at item))) (\<lambda>ns.
          Ok (JObj [(''reason'', JStr (ur_reason req)),
                    (''previous_occurrence_no'', JNum (uint (occurrence_no prior))),
                    (''next_occurrence_no'', JNum (uint (occurrence_no item))),
                    (''previous_schedule'', json_opt JTime ps),
                    (''next_schedule'', json_opt JTime ns),
                    (''skipped_count'', JNum (case skipped of Some n \<Rightarrow> uint n | None \<Rightarrow> 0))])))
      else
        rbind (trigger_summary item) (\<lambda>after.
          Ok (JObj [(''reason'', JStr (ur_reason req)),
                    (''changed_fields'', JArr (map (\<lambda>f. JStr (lit f)) (changed_fields req))),
                    (''before_trigger'', prior_trigger),
                    (''after_trigger'', after)])))"

text \<open>\<open>if item.version == prior_version\<close>: the trigger replacement has not stepped the version yet.\<close>

definition ensure_bumped :: "instant \<Rightarrow> remindi \<Rightarrow> remindi \<Rightarrow> remindi" where
  "ensure_bumped now prior item =
     (if version item = version prior then item\<lparr>version := version item + 1, updated_at := now\<rparr>
      else item)"

definition finish_update ::
  "update_request \<Rightarrow> instant \<Rightarrow> remindi \<Rightarrow> json \<Rightarrow> remindi \<Rightarrow> u64 option
     \<Rightarrow> (service_error, remindi \<times> op_output) res" where
  "finish_update req now prior prior_trigger item skipped =
     (let item' = ensure_bumped now prior item;
          replacement = map_option (\<lambda>values. links_of values now) (ur_links req) in
      rbind (case ur_links req of None \<Rightarrow> Ok ()
             | Some values \<Rightarrow> validate_goal_link (trigger item') values) (\<lambda>_.
      rbind (update_details req prior prior_trigger item' skipped) (\<lambda>dets.
        Ok (item', \<lparr>op_event = (if ur_disposition req \<noteq> None then E_OccurrenceAdvanced else E_Updated),
                    op_details = dets, op_evidence = None, op_links = replacement\<rparr>))))"

definition update_operation :: "update_request \<Rightarrow> instant \<Rightarrow> operation" where
  "update_operation req now item =
     (if is_terminal (state item) then Err InvalidState
      else if ur_disposition req \<noteq> None \<and> \<not> (state item = Due \<or> state item = Overdue)
      then Err InvalidState
      else
        rbind (trigger_summary item) (\<lambda>prior_trigger.
        rbind (update_trigger req now (update_fields req item)) (\<lambda>item1.
        rbind (update_recurrence req item1) (\<lambda>item2.
        rbind (update_disposition req now item2) (\<lambda>(item3, skipped).
          finish_update req now item prior_trigger item3 skipped)))))"

section \<open>Times a column can hold\<close>

text \<open>
  The canonical text of a year below 0 is signed and cannot be read back. No operation produces
  one from an item that has none: \<open>times_low\<close> is kept, provided the clock and the trigger have none.
\<close>

abbreviation opt_low :: "instant option \<Rightarrow> bool" where
  "opt_low v \<equiv> (\<forall>t. v = Some t \<longrightarrow> year_zero \<le> t)"

definition times_low :: "remindi \<Rightarrow> bool" where
  "times_low r \<longleftrightarrow>
     opt_low (next_fire_at r) \<and> opt_low (next_evaluation_at r) \<and> opt_low (original_next_fire_at r) \<and>
     opt_low (due_since r) \<and> opt_low (snooze_until r) \<and> opt_low (last_checked_at r) \<and>
     year_zero \<le> created_at r \<and> year_zero \<le> updated_at r \<and> opt_low (completed_at r) \<and>
     opt_low (cancelled_at r)"

lemma rfc3339_ok_low: "rfc3339_ok t \<longleftrightarrow> valid_instant t \<and> year_zero \<le> t"
  by (auto simp: rfc3339_ok_def valid_instant_def min_instant_def year_zero_def)

lemma times_ok_low: "times_ok r \<Longrightarrow> times_low r"
  by (simp add: times_ok_def times_low_def rfc3339_ok_low)

lemma timestamp_valid: "timestamp t = Inr s \<Longrightarrow> valid_instant t"
  by (auto simp: timestamp_def res_simps)

lemma optional_timestamp_valid: "optional_timestamp v = Inr s \<Longrightarrow> v = Some t \<Longrightarrow> valid_instant t"
  by (auto simp: optional_timestamp_def res_simps dest: timestamp_valid)

lemma i64_from_u64_bound: "i64_from_u64 w = Inr i \<Longrightarrow> uint w \<le> i64_max"
  by (auto simp: i64_from_u64_def i64_try_from_u64_def res_simps split: if_splits)

text \<open>What a successful write implies of the item written.\<close>

lemma row_of_storable_iff:
  assumes "row_of item = Inr row" and "times_low item"
  shows "storable item"
proof -
  from assms(1) have s: "trigger_serializable (trigger item)" "recurrence_serializable (recurrence item)"
    and c: "counters_ok item"
    by (auto simp: row_of_def res_simps json_trigger_def json_recurrence_def counters_ok_def
        dest: i64_from_u64_bound split: if_splits)
  from assms(1) have
    "\<exists>s. optional_timestamp (next_fire_at item) = Inr s" "\<exists>s. optional_timestamp (next_evaluation_at item) = Inr s"
    "\<exists>s. optional_timestamp (original_next_fire_at item) = Inr s" "\<exists>s. optional_timestamp (due_since item) = Inr s"
    "\<exists>s. optional_timestamp (snooze_until item) = Inr s" "\<exists>s. optional_timestamp (last_checked_at item) = Inr s"
    "\<exists>s. timestamp (created_at item) = Inr s" "\<exists>s. timestamp (updated_at item) = Inr s"
    "\<exists>s. optional_timestamp (completed_at item) = Inr s" "\<exists>s. optional_timestamp (cancelled_at item) = Inr s"
    by (simp_all add: row_of_def rbind_eq_Inr) blast+
  then have "times_ok item"
    using assms(2) unfolding times_ok_def times_low_def rfc3339_ok_low
    by (blast dest: timestamp_valid optional_timestamp_valid)
  with s c show ?thesis by (simp add: storable_def)
qed

lemma row_of_trigger: "row_of item = Inr row \<Longrightarrow> trigger_serializable (trigger item)"
  by (auto simp: row_of_def res_simps json_trigger_def split: if_splits)

lemma seconds_later: "0 \<le> n \<Longrightarrow> year_zero \<le> now \<Longrightarrow> year_zero \<le> now + seconds n"
  by (simp add: seconds_def ns_per_sec_def)

text \<open>Evaluation keeps it too.\<close>

lemma trigger_satisfaction_times:
  assumes "trigger_satisfaction r now ctx c = Inr (r', sat, rd, es)" and "times_low r" and "year_zero \<le> now"
  shows "times_low r'"
proof (cases "trigger r")
  case (Condition adapter params poll manual)
  have "0 \<le> poll_seconds poll" by (auto simp: poll_seconds_def i64_try_from_u64_def)
  then have "year_zero \<le> now + seconds (poll_seconds poll)" using assms(3) by (rule seconds_later)
  with assms(1,2) Condition show ?thesis
    by (auto simp: trigger_satisfaction_def Let_def res_simps times_low_def split: if_splits)
qed (use assms in \<open>auto simp: trigger_satisfaction_def Let_def\<close>)

lemma evaluate_times:
  assumes "evaluate r now ctx c = Inr (r', out)" and "times_low r" and "year_zero \<le> now"
  shows "times_low r'"
proof -
  have low: "times_low (r\<lparr>last_checked_at := Some now\<rparr>)" using assms(2,3) by (simp add: times_low_def)
  show ?thesis
  proof (cases "state r")
    case Scheduled
    with assms(1) obtain r2 sat rd es where
      ts: "trigger_satisfaction (r\<lparr>last_checked_at := Some now\<rparr>) now ctx c = Inr (r2, sat, rd, es)"
      and "r' = r2 \<or> r' = r2\<lparr>state := Due, due_since := Some now, updated_at := now,
             version := version r2 + 1\<rparr>"
      by (auto simp: evaluate_def is_terminal_def Let_def res_simps split: if_splits)
    with trigger_satisfaction_times [OF ts low assms(3)] assms(3) show ?thesis
      by (auto simp: times_low_def)
  qed (use assms low in \<open>auto simp: evaluate_def is_terminal_def Let_def res_simps evaluate_due_def
      evaluate_snooze_def clear_snooze_def times_low_def split: if_splits option.splits\<close>)
qed

section \<open>The contract of a closure\<close>

text \<open>
  What \<open>mutate\<close> relies on when it runs a closure on the item it has read: identity and creation
  fields are kept, the version grows by one, the lifecycle invariant is kept, the audit details
  are an object.
\<close>

locale mutation_closure =
  fixes op :: operation
    and at :: instant
  assumes keeps_identity: "op r = Inr (r', out) \<Longrightarrow> same_identity r r'"
    and bumps_version: "op r = Inr (r', out) \<Longrightarrow> version r' = version r + 1"
    and stamps: "op r = Inr (r', out) \<Longrightarrow> updated_at r' = at"
    and keeps_wf: "op r = Inr (r', out) \<Longrightarrow> item_wf r \<Longrightarrow> item_wf r'"
    and details_object: "op r = Inr (r', out) \<Longrightarrow> is_object (op_details out)"
    and active_only: "op r = Inr (r', out) \<Longrightarrow> is_active (state r)"
    and keeps_times: "op r = Inr (r', out) \<Longrightarrow> times_low r \<Longrightarrow> year_zero \<le> at \<Longrightarrow>
      trigger_serializable (trigger r') \<Longrightarrow> times_low r'"
begin

lemma version_changes: "op r = Inr (r', out) \<Longrightarrow> version r' \<noteq> version r"
  using bumps_version by fastforce

lemma same_owner: "op r = Inr (r', out) \<Longrightarrow> owner_id r' = owner_id r \<and> remindi_id r' = remindi_id r"
  using keeps_identity by (fastforce simp: same_identity_def)

lemma terminal_fails: "is_terminal (state r) \<Longrightarrow> \<exists>e. op r = Inl e"
  using active_only [of r] is_active_iff_not_terminal [of "state r"]
  by (cases "op r") auto

end

subsection \<open>The four closures satisfy it\<close>

lemma snooze_operation_Ok:
  "snooze_operation req now item = Inr (item', out) \<Longrightarrow>
     snooze_item item (sr_snooze_until req) (sr_reason req) now = Inr (item', E_Snoozed) \<and>
     is_object (op_details out) \<and> op_event out = E_Snoozed \<and> op_evidence out = None \<and>
     op_links out = None"
  by (auto simp: snooze_operation_def Let_def rbind_eq_Inr map_err_eq_Inr snooze_item_Ok)

lemma complete_operation_Ok:
  "complete_operation req ev now item = Inr (item', out) \<Longrightarrow>
     complete_item item (summary (evidence_of ev)) now = Inr (item', E_Completed) \<and>
     is_object (op_details out) \<and> op_event out = E_Completed \<and> op_evidence out = Some ev \<and>
     op_links out = None"
  by (auto simp: complete_operation_def rbind_eq_Inr map_err_eq_Inr complete_item_Ok)

lemma cancel_operation_Ok:
  "cancel_operation req now item = Inr (item', out) \<Longrightarrow>
     cancel_item item (xr_reason req) now = Inr (item', E_Cancelled) \<and>
     is_object (op_details out) \<and> op_event out = E_Cancelled \<and> op_evidence out = None \<and>
     op_links out = None"
  by (auto simp: cancel_operation_def rbind_eq_Inr map_err_eq_Inr cancel_item_Ok)

lemma command_times:
  "snooze_item r until reason now = Inr (r', e) \<Longrightarrow> times_low r \<Longrightarrow> year_zero \<le> now \<Longrightarrow> times_low r'"
  "complete_item r s now = Inr (r', e) \<Longrightarrow> times_low r \<Longrightarrow> year_zero \<le> now \<Longrightarrow> times_low r'"
  "cancel_item r reason now = Inr (r', e) \<Longrightarrow> times_low r \<Longrightarrow> year_zero \<le> now \<Longrightarrow> times_low r'"
  by (auto simp: res_simps times_low_def clear_snooze_def)

interpretation snooze_closure: mutation_closure "snooze_operation req now" now for req now
  by unfold_locales
    (auto dest!: snooze_operation_Ok dest: snooze_item_wf snooze_item_step command_times
      simp: command_step_def is_active_def snooze_item_Ok)

interpretation complete_closure: mutation_closure "complete_operation req ev now" now for req ev now
  by unfold_locales
    (auto dest!: complete_operation_Ok dest: complete_item_wf complete_item_step command_times
      simp: command_step_def complete_item_Ok)

interpretation cancel_closure: mutation_closure "cancel_operation req now" now for req now
  by unfold_locales
    (auto dest!: cancel_operation_Ok dest: cancel_item_wf cancel_item_step command_times
      simp: command_step_def cancel_item_Ok)

subsection \<open>The update closure\<close>

lemma update_fields_frame [simp]:
  "state (update_fields req item) = state item" "version (update_fields req item) = version item"
  "trigger (update_fields req item) = trigger item"
  "recurrence (update_fields req item) = recurrence item"
  "next_fire_at (update_fields req item) = next_fire_at item"
  "occurrence_no (update_fields req item) = occurrence_no item"
  "same_identity item (update_fields req item)"
  "item_wf (update_fields req item) = item_wf item"
  by (simp_all add: update_fields_def same_identity_def item_wf_defs)

text \<open>One stage of the closure: identity and invariant kept, at most one version step.\<close>

definition stage :: "instant \<Rightarrow> remindi \<Rightarrow> remindi \<Rightarrow> bool" where
  "stage now a b \<longleftrightarrow>
     same_identity a b \<and> (item_wf a \<longrightarrow> item_wf b) \<and>
     (version b = version a \<or> (version b = version a + 1 \<and> updated_at b = now))"

lemma update_trigger_stage:
  assumes "update_trigger req now item = Inr item'"
  shows "stage now item item'"
    and "state item' = (if ur_trigger req \<noteq> None \<and> state item = Snoozed then Scheduled else state item)"
    and "version item' = version item \<longleftrightarrow> ur_trigger req = None"
proof -
  have "stage now item item' \<and>
      state item' = (if ur_trigger req \<noteq> None \<and> state item = Snoozed then Scheduled else state item) \<and>
      (version item' = version item \<longleftrightarrow> ur_trigger req = None)"
  proof (cases "ur_trigger req")
    case None
    with assms show ?thesis by (simp add: update_trigger_def stage_def)
  next
    case (Some trig)
    with assms obtain nf ne it e where rt: "replace_trigger item trig nf now = Inr (it, e)"
      and item': "item' = it\<lparr>next_evaluation_at := ne\<rparr>"
      by (auto simp: update_trigger_def rbind_eq_Inr map_err_eq_Inr)
    have w: "item_wf item' = item_wf it" by (simp add: item' item_wf_defs)
    have st: "state it = (if state item = Snoozed then Scheduled else state item)"
      using rt by (cases "state item = Snoozed") (simp_all add: replace_trigger_Ok)
    have stg: "command_step item it now" by (rule replace_trigger_step [OF rt])
    then have "same_identity item item'" by (simp add: command_step_def same_identity_def item')
    moreover have "version item' = version item + 1" "updated_at item' = now"
      using stg by (simp_all add: command_step_def item')
    moreover have "item_wf item \<longrightarrow> item_wf item'" using replace_trigger_wf [OF rt] w by simp
    ultimately show ?thesis using Some st by (simp add: stage_def item')
  qed
  then show "stage now item item'"
    and "state item' = (if ur_trigger req \<noteq> None \<and> state item = Snoozed then Scheduled else state item)"
    and "version item' = version item \<longleftrightarrow> ur_trigger req = None"
    by simp_all
qed

lemma update_recurrence_frame:
  "update_recurrence req item = Inr item' \<Longrightarrow>
     item' = item\<lparr>recurrence := (case ur_recurrence req of None \<Rightarrow> recurrence item | Some v \<Rightarrow> v)\<rparr> \<and>
     (\<forall>spec. recurrence item' = Some spec \<longrightarrow> validate_for_trigger spec (trigger item) = Ok ())"
  by (auto simp: update_recurrence_def Let_def rbind_eq_Inr map_err_eq_Inr split: option.splits)

lemma apply_advance_frame [simp]:
  "state (apply_advance adv item) = Scheduled" "version (apply_advance adv item) = version item"
  "updated_at (apply_advance adv item) = updated_at item"
  "next_fire_at (apply_advance adv item) = Some (adv_next_fire_at adv)"
  "occurrence_no (apply_advance adv item) = adv_occurrence_no adv"
  "same_identity item (apply_advance adv item)"
  by (simp_all add: apply_advance_def same_identity_def)

lemma apply_advance_wf: "item_wf item \<Longrightarrow> state item \<in> {Due, Overdue} \<Longrightarrow> item_wf (apply_advance adv item)"
  by (auto simp: apply_advance_def item_wf_defs split: if_splits)

lemma update_disposition_frame:
  assumes "update_disposition req now item = Inr (item', sk)"
  shows "(ur_disposition req = None \<and> item' = item \<and> sk = None) \<or>
     (\<exists>d spec anchor adv. ur_disposition req = Some d \<and> recurrence item = Some spec \<and>
        next_fire_at item = Some anchor \<and> advance spec anchor (occurrence_no item) now d = Inr adv \<and>
        item' = apply_advance adv item \<and> sk = Some (adv_skipped_count adv))"
  using assms
  by (cases "ur_disposition req")
    (auto simp: update_disposition_def rbind_eq_Inr map_err_eq_Inr ok_or_eq_Inr)

lemma update_details_object: "update_details req a t b sk = Inr j \<Longrightarrow> is_object j"
  by (auto simp: update_details_def rbind_eq_Inr split: if_splits)

text \<open>The stages of a successful update.\<close>

lemma finish_update_Ok:
  assumes "finish_update req now prior pt item sk = Inr (item', out)"
  shows "item' = ensure_bumped now prior item"
    and "ur_links req = Some vs \<Longrightarrow> validate_goal_link (trigger item') vs = Ok ()"
    and "is_object (op_details out)"
    and "op_event out = (if ur_disposition req \<noteq> None then E_OccurrenceAdvanced else E_Updated)"
    and "op_evidence out = None"
    and "op_links out = map_option (\<lambda>vs. links_of vs now) (ur_links req)"
  using assms update_details_object
  by (auto simp: finish_update_def Let_def rbind_eq_Inr)

lemma update_operation_Ok:
  assumes "update_operation req now item = Inr (item', out)"
  obtains pt item1 item2 item3 sk where
    "is_active (state item)"
    "ur_disposition req \<noteq> None \<Longrightarrow> state item \<in> {Due, Overdue}"
    "update_trigger req now (update_fields req item) = Inr item1"
    "update_recurrence req item1 = Inr item2"
    "update_disposition req now item2 = Inr (item3, sk)"
    "finish_update req now item pt item3 sk = Inr (item', out)"
proof -
  from assms have act: "is_active (state item)"
    and disp: "ur_disposition req \<noteq> None \<Longrightarrow> state item \<in> {Due, Overdue}"
    by (auto simp: update_operation_def is_active_iff_not_terminal split: if_splits)
  from act have nt: "\<not> is_terminal (state item)" by (simp add: is_active_iff_not_terminal)
  from disp have nd: "\<not> (ur_disposition req \<noteq> None \<and> \<not> (state item = Due \<or> state item = Overdue))"
    by auto
  note eq = assms [unfolded update_operation_def if_not_P [OF nt] if_not_P [OF nd]]
  from eq obtain pt item1 item2 item3 sk where
    "update_trigger req now (update_fields req item) = Inr item1"
    "update_recurrence req item1 = Inr item2"
    "update_disposition req now item2 = Inr (item3, sk)"
    "finish_update req now item pt item3 sk = Inr (item', out)"
    by (auto simp: rbind_eq_Inr)
  with act disp show ?thesis using that by blast
qed

lemma update_operation_step:
  assumes "update_operation req now item = Inr (item', out)"
  shows "same_identity item item'" and "version item' = version item + 1"
    and "updated_at item' = now" and "item_wf item \<Longrightarrow> item_wf item'"
    and "state item' = (if ur_disposition req \<noteq> None then Scheduled
                        else if ur_trigger req \<noteq> None \<and> state item = Snoozed then Scheduled
                        else state item)"
proof -
  from assms obtain pt item1 item2 item3 sk where
    disp: "ur_disposition req \<noteq> None \<Longrightarrow> state item \<in> {Due, Overdue}"
    and a: "update_trigger req now (update_fields req item) = Inr item1"
    and b: "update_recurrence req item1 = Inr item2"
    and c: "update_disposition req now item2 = Inr (item3, sk)"
    and fin: "finish_update req now item pt item3 sk = Inr (item', out)"
    by (rule update_operation_Ok) blast
  note e = finish_update_Ok(1) [OF fin, unfolded ensure_bumped_def]
  note ta = update_trigger_stage [OF a]
  have id1: "same_identity item item1"
    using ta(1) same_identity_trans [OF update_fields_frame(7), of req item item1]
    by (simp add: stage_def)
  have v1: "version item1 = version item \<or> (version item1 = version item + 1 \<and> updated_at item1 = now)"
    using ta(1) by (simp add: stage_def)
  note rb = update_recurrence_frame [OF b]
  have v2: "version item2 = version item1" "updated_at item2 = updated_at item1" "state item2 = state item1"
    "same_identity item1 item2" "item_wf item2 = item_wf item1"
    using rb by (auto simp: same_identity_def item_wf_defs)
  have v3: "version item3 = version item2" "updated_at item3 = updated_at item2" "same_identity item2 item3"
    using update_disposition_frame [OF c] by auto
  show "same_identity item item'"
    using id1 v2 v3 by (simp add: e same_identity_def)
  show "version item' = version item + 1"
    using v1 v2 v3 by (auto simp: e)
  show "updated_at item' = now"
    using v1 v2 v3 by (auto simp: e)
  show st: "state item' = (if ur_disposition req \<noteq> None then Scheduled
                        else if ur_trigger req \<noteq> None \<and> state item = Snoozed then Scheduled
                        else state item)"
    using update_disposition_frame [OF c] ta(2) v2(3) by (auto simp: e)
  show "item_wf item'" if wf: "item_wf item"
  proof -
    have wf2: "item_wf item2" using ta(1) wf v2(5) by (simp add: stage_def)
    have "item_wf item3"
    proof (cases "ur_disposition req")
      case None
      with wf2 update_disposition_frame [OF c] show ?thesis by simp
    next
      case (Some d)
      with disp ta(2) v2(3) have "state item2 \<in> {Due, Overdue}" by auto
      with wf2 Some update_disposition_frame [OF c] show ?thesis
        by (auto intro: apply_advance_wf)
    qed
    then show ?thesis by (auto simp: e item_wf_defs)
  qed
qed

lemma initial_fire_low:
  "trigger_serializable trig \<Longrightarrow> initial_next_fire_at trig now = Inr v \<Longrightarrow> year_zero \<le> now \<Longrightarrow> opt_low v"
  by (cases trig) (auto simp: initial_next_fire_at_def res_simps rfc3339_ok_low
      i64_try_from_u64_def seconds_later split: if_splits)

lemma initial_evaluation_low:
  assumes "trigger_serializable trig" and "initial_next_evaluation_at trig now = Inr v" and "year_zero \<le> now"
  shows "opt_low v"
proof (cases trig)
  case (Condition adapter params poll manual)
  have "opt_low manual" using assms(1) Condition by (auto simp: rfc3339_ok_low split: option.splits)
  with assms(2,3) Condition show ?thesis
    by (auto simp: initial_next_evaluation_at_def res_simps i64_try_from_u64_def seconds_later
        min_def split: if_splits option.splits)
qed (use assms in \<open>simp_all add: initial_next_evaluation_at_def\<close>)

lemma advance_later: "advance spec previous occurrence now d = Inr a \<Longrightarrow> previous < adv_next_fire_at a"
  using advance_Ok_valid [of spec previous occurrence now d a] advance_steps_pos [of spec previous now]
    interval_ns_pos [of spec]
  by (auto simp: advance_Ok_iff advance_result_def)

lemma update_trigger_times:
  assumes "update_trigger req now item = Inr item'" and "times_low item" and "year_zero \<le> now"
    and "trigger_serializable (trigger item')"
  shows "times_low item'"
proof (cases "ur_trigger req")
  case (Some trig)
  with assms(1) obtain nf ne it e where rt: "replace_trigger item trig nf now = Inr (it, e)"
    and nf: "initial_next_fire_at trig now = Inr nf" and ne: "initial_next_evaluation_at trig now = Inr ne"
    and item': "item' = it\<lparr>next_evaluation_at := ne\<rparr>"
    by (auto simp: update_trigger_def rbind_eq_Inr map_err_eq_Inr)
  have "trigger it = trig" using rt by (auto simp: replace_trigger_Ok)
  with assms(4) have ser: "trigger_serializable trig" by (simp add: item')
  from initial_fire_low [OF ser nf assms(3)] initial_evaluation_low [OF ser ne assms(3)] assms(2,3) rt
  show ?thesis by (auto simp: item' times_low_def replace_trigger_Ok)
qed (use assms in \<open>simp add: update_trigger_def\<close>)

lemma update_operation_times:
  assumes "update_operation req now item = Inr (item', out)" and low: "times_low item" "year_zero \<le> now"
    and ser: "trigger_serializable (trigger item')"
  shows "times_low item'"
proof -
  from assms(1) obtain pt item1 item2 item3 sk where
    a: "update_trigger req now (update_fields req item) = Inr item1"
    and b: "update_recurrence req item1 = Inr item2"
    and c: "update_disposition req now item2 = Inr (item3, sk)"
    and fin: "finish_update req now item pt item3 sk = Inr (item', out)"
    by (rule update_operation_Ok) blast
  note e = finish_update_Ok(1) [OF fin, unfolded ensure_bumped_def]
  have t1: "trigger item2 = trigger item1" "times_low item2 = times_low item1"
    using update_recurrence_frame [OF b] by (auto simp: times_low_def)
  have t2: "trigger item3 = trigger item2"
    using update_disposition_frame [OF c] by (auto simp: apply_advance_def)
  have t3: "trigger item' = trigger item3" by (simp add: e)
  have "times_low (update_fields req item)" using low(1) by (simp add: times_low_def update_fields_def)
  then have "times_low item1" using update_trigger_times [OF a _ low(2)] ser t1 t2 t3 by simp
  then have "times_low item3"
    using update_disposition_frame [OF c] t1 advance_later
    by (fastforce simp: times_low_def apply_advance_def)
  then show ?thesis using low(2) by (simp add: e times_low_def)
qed

lemma update_operation_active:
  assumes "update_operation req now item = Inr (item', out)"
  shows "is_active (state item)" and "is_object (op_details out)"
  using assms by (auto elim!: update_operation_Ok intro: finish_update_Ok(3))

interpretation update_closure: mutation_closure "update_operation req now" now for req now
  by unfold_locales (rule update_operation_step update_operation_active update_operation_times; assumption)+

section \<open>Properties\<close>

subsection \<open>Normalisation is stable\<close>

lemma valid_trunc: "valid_instant t \<Longrightarrow> valid_instant (trunc_ms t)"
proof -
  assume v: "valid_instant t"
  have m: "trunc_ms min_instant = min_instant" by (simp add: trunc_ms_def min_instant_def ns_per_ms_def)
  from v have "min_instant \<le> trunc_ms t"
    using trunc_ms_mono [of min_instant t] by (simp add: valid_instant_def m)
  with v trunc_ms_le [of t] show ?thesis by (simp add: valid_instant_def)
qed

lemma normalize_instant_idem: "normalize_instant v = Inr t \<Longrightarrow> normalize_instant t = Inr t"
  by (auto simp: normalize_instant_eq valid_trunc split: if_splits)

lemma normalize_option_idem:
  "transpose_map normalize_instant v = Inr w \<Longrightarrow> transpose_map normalize_instant w = Inr w"
  by (cases v) (auto simp: rbind_eq_Inr dest: normalize_instant_idem)

lemma normalize_trigger_idem: "normalize_trigger t = Inr t' \<Longrightarrow> normalize_trigger t' = Inr t'"
  by (cases t) (auto simp: rbind_eq_Inr dest: normalize_instant_idem normalize_option_idem)

lemma normalize_recurrence_idem:
  assumes "transpose_map normalize_recurrence v = Inr w"
  shows "transpose_map normalize_recurrence w = Inr w"
proof (cases v)
  case (Some spec)
  with assms obtain e where "transpose_map normalize_instant (end_at spec) = Inr e"
    and w: "w = Some (spec\<lparr>end_at := e\<rparr>)"
    by (auto simp: rbind_eq_Inr normalize_recurrence_def)
  with normalize_option_idem show ?thesis by (simp add: normalize_recurrence_def)
qed (use assms in simp)

lemma optional_text_idem: "optional_text v n = Inr w \<Longrightarrow> optional_text w n = Inr w"
  by (cases v) (auto simp: optional_text_def rbind_eq_Inr required_text_Ok)

lemma optional_context_idem: "optional_context v n = Inr w \<Longrightarrow> optional_context w n = Inr w"
  by (cases v) (auto simp: optional_context_def rbind_eq_Inr Let_def split: if_splits)

lemma optional_bounded_id: "optional_bounded v n = Inr w \<Longrightarrow> w = v"
  by (cases v) (auto simp: optional_bounded_def rbind_eq_Inr split: if_splits)

text \<open>
  Preparing an add request is idempotent: the normalised request passes validation again and
  is not changed. A client that retries with the request as the server normalised it sends a
  request of the same hash.
\<close>

theorem prepare_add_idem:
  assumes "prepare_add a req = Inr r"
  shows "prepare_add a r = Inr r"
proof -
  from assms obtain project msg task instr session lineage trig recur where
    v: "validate_actor a = Ok ()" "validate_idempotency_key (ar_idempotency_key req) = Ok ()"
    and p: "required_text (ar_project_id req) 512 = Inr project" "required_text (ar_message req) 8192 = Inr msg"
      "optional_text (ar_task_id req) 512 = Inr task" "optional_bounded (ar_instructions req) 32768 = Inr instr"
      "optional_context (ar_session_id req) 512 = Inr session"
      "optional_context (ar_task_lineage_id req) 512 = Inr lineage"
    and t: "normalize_trigger (ar_trigger req) = Inr trig"
      "transpose_map normalize_recurrence (ar_recurrence req) = Inr recur"
      "map_err map_domain (validate_trigger trig) = Ok ()"
      "(case recur of None \<Rightarrow> Ok () | Some spec \<Rightarrow> map_err map_domain (validate_for_trigger spec trig)) = Ok ()"
    and l: "\<not> ar_overdue_after_seconds req > 31536000" "validate_links (ar_links req) = Ok ()"
      "validate_goal_link trig (ar_links req) = Ok ()"
    and r: "r = req\<lparr>ar_project_id := project, ar_message := msg, ar_task_id := task,
               ar_instructions := instr, ar_session_id := session, ar_task_lineage_id := lineage,
               ar_trigger := trig, ar_recurrence := recur\<rparr>"
    unfolding prepare_add_def by (elim rbindE) (auto split: if_splits)
  have i: "instr = ar_instructions req" "optional_bounded instr 32768 = Inr instr"
    using p(4) optional_bounded_id [OF p(4)] by simp_all
  show ?thesis
    using v t(3,4) l normalize_trigger_idem [OF t(1)] normalize_recurrence_idem [OF t(2)] i
      required_text_idem [OF p(1)] required_text_idem [OF p(2)] optional_text_idem [OF p(3)]
      optional_context_idem [OF p(5)] optional_context_idem [OF p(6)]
    by (simp add: prepare_add_def r)
qed

definition sample_actor :: actor where
  "sample_actor = agent_actor (lit ''agent'') None"

definition sample_add :: add_request where
  "sample_add =
     \<lparr>ar_project_id = lit '' proj '', ar_task_id = None, ar_message = lit ''water the plants '',
      ar_instructions = None, ar_priority = High, ar_trigger = Interval (t0 + 1) 3600,
      ar_recurrence = Some every_hour, ar_overdue_after_seconds = 3600, ar_links = [],
      ar_session_id = None, ar_task_lineage_id = None, ar_idempotency_key = lit ''key-0001''\<rparr>"

lemma sample_add_prepared:
  "prepare_add sample_actor sample_add =
     Inr (sample_add\<lparr>ar_project_id := lit ''proj'', ar_message := lit ''water the plants'',
       ar_trigger := Interval t0 3600\<rparr>)"
  by (simp add: prepare_add_def sample_add_def sample_actor_def agent_actor_def validate_actor_def trim_def
      is_whitespace_def validate_idempotency_key_def utf8_len_def utf8_width_def is_ascii_alphanumeric_def
      is_ascii_alphabetic_def is_ascii_digit_def required_text_def optional_text_def optional_bounded_def
      optional_context_def normalize_instant_eq valid_instant_def min_instant_def max_instant_def t0_def
      trunc_ms_def ns_per_ms_def normalize_recurrence_def every_hour_def validate_for_trigger_def
      validate_recurrence_def validate_links_def validate_goal_link_def Let_def)

theorem prepare_add_idem_witness:
  "prepare_add sample_actor (sample_add\<lparr>ar_project_id := lit ''proj'', ar_message := lit ''water the plants'',
       ar_trigger := Interval t0 3600\<rparr>) =
   Inr (sample_add\<lparr>ar_project_id := lit ''proj'', ar_message := lit ''water the plants'',
       ar_trigger := Interval t0 3600\<rparr>)"
  by (rule prepare_add_idem [OF sample_add_prepared])

text \<open>
  Terminal items are frozen: completing, snoozing, cancelling, updating and evaluating a
  completed or cancelled item all fail, whatever the request.
\<close>

theorem terminal_frozen:
  assumes "is_terminal (state r)"
  shows "(\<exists>e. complete_operation creq ev now r = Inl e) \<and> (\<exists>e. snooze_operation sreq now r = Inl e) \<and>
    (\<exists>e. cancel_operation xreq now r = Inl e) \<and> update_operation ureq now r = Err InvalidState \<and>
    evaluate r now ctx c = Err TerminalState"
  using complete_closure.terminal_fails [OF assms] snooze_closure.terminal_fails [OF assms]
    cancel_closure.terminal_fails [OF assms] assms
  by (auto simp: update_operation_def evaluate_def)

definition sample_cancel :: cancel_request where
  "sample_cancel = \<lparr>xr_remindi_id = 7, xr_expected_version = 2, xr_reason = lit ''obsolete'',
     xr_idempotency_key = lit ''key-0002''\<rparr>"

theorem terminal_frozen_witness:
  "\<exists>e. cancel_operation sample_cancel t0 completed_item = Inl e"
  using terminal_frozen [where r = completed_item and xreq = sample_cancel and now = t0]
  by (simp add: is_terminal_def)

text \<open>
  An update that succeeds on a well-formed item keeps identity and invariant, steps the
  version exactly once however many fields change, never reaches a terminal state, and moves the
  state only back to \<open>scheduled\<close>: by an occurrence disposition on a ready item, or by a new trigger
  on a snoozed one.
\<close>

theorem update_moves:
  assumes "item_wf r" and "update_operation req now r = Inr (r', out)"
  shows "item_wf r' \<and> same_identity r r' \<and> version r' = version r + 1 \<and> updated_at r' = now \<and>
    \<not> is_terminal (state r') \<and>
    (ur_disposition req \<noteq> None \<longrightarrow> state r \<in> {Due, Overdue} \<and> state r' = Scheduled) \<and>
    (ur_disposition req = None \<longrightarrow>
       state r' = (if ur_trigger req \<noteq> None \<and> state r = Snoozed then Scheduled else state r))"
proof -
  have act: "\<not> is_terminal (state r)"
    using update_operation_active(1) [OF assms(2)] by (simp add: is_active_iff_not_terminal)
  have d: "ur_disposition req \<noteq> None \<Longrightarrow> state r \<in> {Due, Overdue}"
    using assms(2) by (rule update_operation_Ok) blast
  note s = update_operation_step [OF assms(2)]
  from s(5) act have "\<not> is_terminal (state r')" by (auto simp: is_terminal_def split: if_splits)
  with s d assms(1) show ?thesis by auto
qed

definition sample_update :: update_request where
  "sample_update = \<lparr>ur_remindi_id = 7, ur_expected_version = 2, ur_message = Some (lit ''feed the cat''),
     ur_instructions = None, ur_priority = None, ur_trigger = None, ur_recurrence = None,
     ur_overdue_after_seconds = None, ur_links = None, ur_disposition = Some Acknowledged,
     ur_reason = lit ''done today'', ur_idempotency_key = lit ''key-0003''\<rparr>"

lemma sample_update_runs: "\<exists>r' out. update_operation sample_update t0 sample_item = Inr (r', out)"
proof -
  have "advance every_hour t0 1 t0 Acknowledged =
     Inr \<lparr>adv_next_fire_at = t0 + 3600 * 1000000000, adv_occurrence_no = 2, adv_skipped_count = 0\<rparr>"
    by (simp add: advance_def every_hour_def validate_recurrence_def interval_duration_def i64_try_from_u64_def
        i64_max_def seconds_def ns_per_sec_def time_add_def valid_instant_def min_instant_def max_instant_def
        t0_def ensure_permitted_def advance_loop.simps)
  then show ?thesis
    by (simp add: update_operation_def sample_update_def sample_item_def is_terminal_def trigger_summary_def
        canonical_timestamp_def to_utc_def valid_instant_def min_instant_def max_instant_def t0_def
        update_fields_def update_trigger_def update_recurrence_def update_disposition_def validate_for_trigger_def
        every_hour_def validate_recurrence_def apply_advance_def finish_update_def ensure_bumped_def
        update_details_def Let_def)
qed

theorem update_moves_witness:
  "\<exists>r' out. update_operation sample_update t0 sample_item = Inr (r', out) \<and> state r' = Scheduled \<and> version r' = 3"
  using sample_update_runs update_moves [of sample_item sample_update t0]
  by (fastforce simp: sample_item_def sample_update_def item_wf_defs)

end
