(* ===== verification/Service.thy ===== *)
theory Service
  imports Repository Operations
begin

text \<open>
  The handlers of \<open>RemindiService\<close> (\<open>src/remindi/service.rs\<close>) on an explicit world: the database
  and the counters of the readings taken from the clock, the identifier source and the
  connection pool. A handler is a function from the world to its result and the next world; a
  transaction restores the database on every error.
\<close>

section \<open>The environment and the world\<close>

datatype hashed_request =
    HashAdd add_request
  | HashComplete complete_request
  | HashSnooze snooze_request
  | HashUpdate update_request
  | HashCancel cancel_request

text \<open>
  Code outside the sources, as functions: the \<open>n\<close>-th clock reading and identifier, SHA-256 of a
  request's JSON, the cursor MAC, and the failure, if any, of the \<open>n\<close>-th call that obtains a
  connection, begins, commits or rolls back a transaction.
\<close>

record env =
  env_owner :: ustring
  env_clock :: "nat \<Rightarrow> instant"
  env_ids :: "nat \<Rightarrow> uuid"
  env_hash :: "hashed_request \<Rightarrow> digest"
  env_mac :: "cursor_bytes \<Rightarrow> nat"
  env_gate :: "nat \<Rightarrow> database_error option"

record world =
  w_db :: db
  w_clock :: nat
  w_ids :: nat
  w_gate :: nat

type_synonym ('e, 'a) action = "world \<Rightarrow> ('e, 'a) res \<times> world"
type_synonym 'a svc = "(service_error, 'a) action"

definition sbind :: "('e, 'a) action \<Rightarrow> ('a \<Rightarrow> ('e, 'b) action) \<Rightarrow> ('e, 'b) action" where
  "sbind m f = (\<lambda>w. case m w of (Inl e, w') \<Rightarrow> (Inl e, w') | (Inr x, w') \<Rightarrow> f x w')"

definition slift :: "('e, 'a) res \<Rightarrow> ('e, 'a) action" where
  "slift r = (\<lambda>w. (r, w))"

definition clock_now :: "env \<Rightarrow> ('e, instant) action" where
  "clock_now env = (\<lambda>w. (Ok (env_clock env (w_clock w)), w\<lparr>w_clock := w_clock w + 1\<rparr>))"

definition next_id :: "env \<Rightarrow> ('e, uuid) action" where
  "next_id env = (\<lambda>w. (Ok (env_ids env (w_ids w)), w\<lparr>w_ids := w_ids w + 1\<rparr>))"

definition gate_as :: "(database_error \<Rightarrow> 'e) \<Rightarrow> env \<Rightarrow> ('e, unit) action" where
  "gate_as f env = (\<lambda>w. (case env_gate env (w_gate w) of
       None \<Rightarrow> Ok () | Some e \<Rightarrow> Err (f e), w\<lparr>w_gate := w_gate w + 1\<rparr>))"

abbreviation gate :: "env \<Rightarrow> unit svc" where "gate \<equiv> gate_as map_database"

definition db_read :: "(db \<Rightarrow> (repository_error, 'a) res) \<Rightarrow> 'a svc" where
  "db_read q = (\<lambda>w. (map_err map_repository (q (w_db w)), w))"

definition db_write :: "(db \<Rightarrow> (repository_error, db \<times> 'a) res) \<Rightarrow> 'a svc" where
  "db_write q = (\<lambda>w. case q (w_db w) of
       Inl e \<Rightarrow> (Inl (map_failure map_repository e), w)
     | Inr (d, x) \<Rightarrow> (Ok x, w\<lparr>w_db := d\<rparr>))"

definition db_exec :: "(db \<Rightarrow> (repository_error, db) res) \<Rightarrow> unit svc" where
  "db_exec q = db_write (\<lambda>d. rbind (q d) (\<lambda>d'. Ok (d', ())))"

text \<open>
  \<open>begin_immediate\<close>, a body that ends in \<open>commit\<close> (\<open>True\<close>) or \<open>rollback\<close> (\<open>False\<close>), and the
  rollback of the dropped transaction on every error.
\<close>

definition transaction_as ::
  "(database_error \<Rightarrow> 'e) \<Rightarrow> env \<Rightarrow> ('e, 'a \<times> bool) action \<Rightarrow> ('e, 'a) action" where
  "transaction_as f env body = (\<lambda>w.
     case gate_as f env w of
       (Inl e, w1) \<Rightarrow> (Inl e, w1)
     | (Inr _, w1) \<Rightarrow>
         (case body w1 of
            (Inl e, w2) \<Rightarrow> (Inl e, w2\<lparr>w_db := w_db w\<rparr>)
          | (Inr (x, commit), w2) \<Rightarrow>
              (case gate_as f env w2 of
                 (Inl e, w3) \<Rightarrow> (Inl e, w3\<lparr>w_db := w_db w\<rparr>)
               | (Inr _, w3) \<Rightarrow> (Ok x, if commit then w3 else w3\<lparr>w_db := w_db w\<rparr>))))"

abbreviation transaction :: "env \<Rightarrow> ('a \<times> bool) svc \<Rightarrow> 'a svc" where
  "transaction \<equiv> transaction_as map_database"

section \<open>Idempotency\<close>

text \<open>\<open>serde_json::to_vec\<close> fails on an instant that RFC 3339 cannot express.\<close>

fun request_serializable :: "hashed_request \<Rightarrow> bool" where
  "request_serializable (HashAdd r) \<longleftrightarrow>
     trigger_serializable (ar_trigger r) \<and> recurrence_serializable (ar_recurrence r)"
| "request_serializable (HashComplete r) \<longleftrightarrow> rfc3339_ok (observed_at (cr_evidence r))"
| "request_serializable (HashSnooze r) \<longleftrightarrow> True"
| "request_serializable (HashUpdate r) \<longleftrightarrow>
     (case ur_trigger r of None \<Rightarrow> True | Some t \<Rightarrow> trigger_serializable t) \<and>
     (case ur_recurrence r of None \<Rightarrow> True | Some v \<Rightarrow> recurrence_serializable v)"
| "request_serializable (HashCancel r) \<longleftrightarrow> True"

definition request_hash :: "env \<Rightarrow> hashed_request \<Rightarrow> (service_error, digest) res" where
  "request_hash env r = (if request_serializable r then Ok (env_hash env r) else Err Internal)"

definition replay :: "actor \<Rightarrow> string \<Rightarrow> ustring \<Rightarrow> digest \<Rightarrow> remindi option svc" where
  "replay a tool key hash = (\<lambda>w.
     (case idempotency (w_db w) (actor_id a) tool key of
        None \<Rightarrow> Ok None
      | Some (h, response) \<Rightarrow>
          if h \<noteq> hash then Err IdempotencyKeyReused else Ok (Some response), w))"

text \<open>\<open>Duration::days(30)\<close>.\<close>

definition idempotency_retention :: int where "idempotency_retention = seconds (30 * 86400)"

definition store_idempotency ::
  "actor \<Rightarrow> string \<Rightarrow> ustring \<Rightarrow> digest \<Rightarrow> remindi \<Rightarrow> instant \<Rightarrow> unit svc" where
  "store_idempotency a tool key hash response now =
     sbind (slift (if trigger_serializable (trigger response)
                      \<and> recurrence_serializable (recurrence response)
                   then Ok () else Err Internal)) (\<lambda>_.
     sbind (slift (time_add now idempotency_retention)) (\<lambda>expires.
       db_exec (\<lambda>d. insert_idempotency d (actor_id a) tool key hash response now expires)))"

section \<open>Audit events\<close>

definition append_audit ::
  "env \<Rightarrow> actor \<Rightarrow> remindi \<Rightarrow> event_type_kind \<Rightarrow> u64 option \<Rightarrow> u64 option \<Rightarrow> json \<Rightarrow> unit svc" where
  "append_audit env a item et prior new dets =
     sbind (next_id env) (\<lambda>eid.
     sbind (clock_now env) (\<lambda>now.
       db_exec (\<lambda>d. append_event d
         \<lparr>event_sequence = None, event_id = eid, event_remindi_id = remindi_id item,
          event_type = et, event_actor_type = actor_type a, event_actor_id = actor_id a,
          event_request_id = request_id a, occurred_at = now, prior_version = prior,
          new_version = new, details = dets\<rparr>)))"

section \<open>Add\<close>

definition new_item :: "env \<Rightarrow> add_request \<Rightarrow> uuid \<Rightarrow> instant \<Rightarrow> instant option \<Rightarrow> instant option \<Rightarrow> remindi" where
  "new_item env req i now next next_evaluation =
     \<lparr>remindi_id = i, owner_id = env_owner env, project_id = ar_project_id req,
      task_id = ar_task_id req, message = ar_message req, instructions = ar_instructions req,
      state = Scheduled, priority = ar_priority req, trigger = ar_trigger req,
      recurrence = ar_recurrence req, next_fire_at = next, next_evaluation_at = next_evaluation,
      original_next_fire_at = next, due_since = None, snooze_until = None,
      snoozed_from_state = None, overdue_after_seconds = ar_overdue_after_seconds req,
      occurrence_no = 1, source_session_id = ar_session_id req,
      source_task_lineage_id = ar_task_lineage_id req, last_checked_at = None,
      last_condition_status = None, last_condition_detail = None, snooze_count = 0, version = 1,
      created_at = now, updated_at = now, completed_at = None, cancelled_at = None\<rparr>"

definition add_body ::
  "env \<Rightarrow> actor \<Rightarrow> add_request \<Rightarrow> digest \<Rightarrow> instant \<Rightarrow> (remindi \<times> bool) svc" where
  "add_body env a req hash now =
     sbind (replay a ''remindi_add'' (ar_idempotency_key req) hash) (\<lambda>previous.
       case previous of
         Some response \<Rightarrow> slift (Ok (response, False))
       | None \<Rightarrow>
           sbind (slift (initial_next_fire_at (ar_trigger req) now)) (\<lambda>next.
           sbind (next_id env) (\<lambda>i.
           sbind (slift (initial_next_evaluation_at (ar_trigger req) now)) (\<lambda>next_evaluation.
           let item = new_item env req i now next next_evaluation in
           sbind (db_exec (\<lambda>d. insert_remindi d item)) (\<lambda>_.
           sbind (db_exec (\<lambda>d. replace_links d item (links_of (ar_links req) now))) (\<lambda>_.
           sbind (append_audit env a item E_Created None (Some 1)
                   (JObj [(''trigger_type'', JStr (lit (trigger_type (trigger item)))),
                          (''project_id'', JStr (project_id item)),
                          (''task_id'', json_opt JStr (task_id item))])) (\<lambda>_.
           sbind (store_idempotency a ''remindi_add'' (ar_idempotency_key req) hash item now) (\<lambda>_.
             slift (Ok (item, True))))))))))"

definition add :: "env \<Rightarrow> actor \<Rightarrow> add_request \<Rightarrow> remindi svc" where
  "add env a request =
     sbind (slift (prepare_add a request)) (\<lambda>req.
     sbind (slift (request_hash env (HashAdd req))) (\<lambda>hash.
     sbind (clock_now env) (\<lambda>now.
       transaction env (add_body env a req hash now))))"

section \<open>Mutate\<close>

record mutation_call =
  mc_actor :: actor
  mc_tool_name :: string
  mc_id :: uuid
  mc_expected_version :: u64
  mc_idempotency_key :: ustring
  mc_request_hash :: digest

fun object_insert :: "string \<Rightarrow> json \<Rightarrow> json \<Rightarrow> (service_error, json) res" where
  "object_insert k v (JObj kvs) = Ok (JObj (kvs @ [(k, v)]))"
| "object_insert k v _ = Err Internal"

text \<open>The evidence record of a completion: its id is drawn before the details are extended.\<close>

definition store_evidence ::
  "env \<Rightarrow> mutation_call \<Rightarrow> remindi \<Rightarrow> instant \<Rightarrow> json \<Rightarrow> validated_evidence option \<Rightarrow> json svc" where
  "store_evidence env call item now dets ev =
     (case ev of
        None \<Rightarrow> slift (Ok dets)
      | Some v \<Rightarrow>
          sbind (next_id env) (\<lambda>i.
          let e = evidence_of v;
              rec = \<lparr>ce_id = i, ce_remindi_id = remindi_id item,
                     ce_evidence_type = evidence_type e, ce_summary = summary e,
                     ce_reference_uri = reference_uri e, ce_content_hash = content_hash e,
                     ce_observed_at = observed_at e, ce_recorded_at = now,
                     ce_recorded_by = actor_id (mc_actor call), ce_metadata = metadata e\<rparr> in
          sbind (slift (object_insert ''evidence_id'' (JUuid i) dets)) (\<lambda>dets'.
          sbind (db_exec (\<lambda>d. insert_evidence d rec)) (\<lambda>_. slift (Ok dets')))))"

definition mutate_body ::
  "env \<Rightarrow> mutation_call \<Rightarrow> operation \<Rightarrow> instant \<Rightarrow> (remindi \<times> bool) svc" where
  "mutate_body env call op now =
     sbind (replay (mc_actor call) (mc_tool_name call) (mc_idempotency_key call) (mc_request_hash call))
       (\<lambda>previous.
       case previous of
         Some response \<Rightarrow> slift (Ok (response, False))
       | None \<Rightarrow>
           sbind (db_read (\<lambda>d. find_remindi d (env_owner env) (mc_id call))) (\<lambda>found.
           sbind (slift (ok_or NotFound found)) (\<lambda>item.
           if version item \<noteq> mc_expected_version call
           then slift (Err (VersionConflict (version item)))
           else
             sbind (slift (op item)) (\<lambda>(item', out).
             sbind (db_write (\<lambda>d. update_cas d item' (version item))) (\<lambda>won.
             if \<not> won
             then sbind (db_read (\<lambda>d. find_remindi d (env_owner env) (mc_id call))) (\<lambda>again.
                  sbind (slift (ok_or NotFound again)) (\<lambda>current.
                    slift (Err (VersionConflict (version current)))))
             else
               sbind (case op_links out of
                        None \<Rightarrow> slift (Ok ())
                      | Some ls \<Rightarrow> db_exec (\<lambda>d. replace_links d item' ls)) (\<lambda>_.
               sbind (store_evidence env call item' now (op_details out) (op_evidence out)) (\<lambda>dets.
               sbind (append_audit env (mc_actor call) item' (op_event out) (Some (version item))
                       (Some (version item')) dets) (\<lambda>_.
               sbind (store_idempotency (mc_actor call) (mc_tool_name call) (mc_idempotency_key call)
                       (mc_request_hash call) item' now) (\<lambda>_.
                 slift (Ok (item', True)))))))))))"

definition mutate :: "env \<Rightarrow> mutation_call \<Rightarrow> operation \<Rightarrow> remindi svc" where
  "mutate env call op =
     sbind (clock_now env) (\<lambda>now. transaction env (mutate_body env call op now))"

definition complete :: "env \<Rightarrow> actor \<Rightarrow> complete_request \<Rightarrow> std_duration \<Rightarrow> remindi svc" where
  "complete env a request maximum_future_skew =
     sbind (slift (prepare_complete a request)) (\<lambda>req.
     sbind (slift (request_hash env (HashComplete req))) (\<lambda>hash.
     sbind (clock_now env) (\<lambda>now.
     sbind (slift (map_err map_domain (validate_evidence (cr_evidence req) now maximum_future_skew)))
       (\<lambda>evidence.
       mutate env
         \<lparr>mc_actor = a, mc_tool_name = ''remindi_complete'', mc_id = cr_remindi_id req,
          mc_expected_version = cr_expected_version req,
          mc_idempotency_key = cr_idempotency_key req, mc_request_hash = hash\<rparr>
         (complete_operation req evidence now)))))"

definition snooze :: "env \<Rightarrow> actor \<Rightarrow> snooze_request \<Rightarrow> std_duration \<Rightarrow> remindi svc" where
  "snooze env a request maximum_horizon =
     sbind (slift (prepare_snooze a request)) (\<lambda>req.
     sbind (slift (request_hash env (HashSnooze req))) (\<lambda>hash.
     sbind (clock_now env) (\<lambda>now.
     sbind (slift (check_horizon (sr_snooze_until req) now maximum_horizon)) (\<lambda>_.
       mutate env
         \<lparr>mc_actor = a, mc_tool_name = ''remindi_snooze'', mc_id = sr_remindi_id req,
          mc_expected_version = sr_expected_version req,
          mc_idempotency_key = sr_idempotency_key req, mc_request_hash = hash\<rparr>
         (snooze_operation req now)))))"

definition cancel :: "env \<Rightarrow> actor \<Rightarrow> cancel_request \<Rightarrow> remindi svc" where
  "cancel env a request =
     sbind (slift (prepare_cancel a request)) (\<lambda>req.
     sbind (slift (request_hash env (HashCancel req))) (\<lambda>hash.
     sbind (clock_now env) (\<lambda>now.
       mutate env
         \<lparr>mc_actor = a, mc_tool_name = ''remindi_cancel'', mc_id = xr_remindi_id req,
          mc_expected_version = xr_expected_version req,
          mc_idempotency_key = xr_idempotency_key req, mc_request_hash = hash\<rparr>
         (cancel_operation req now))))"

definition update :: "env \<Rightarrow> actor \<Rightarrow> update_request \<Rightarrow> remindi svc" where
  "update env a request =
     sbind (slift (prepare_update a request)) (\<lambda>req.
     sbind (slift (request_hash env (HashUpdate req))) (\<lambda>hash.
     sbind (clock_now env) (\<lambda>now.
       mutate env
         \<lparr>mc_actor = a, mc_tool_name = ''remindi_update'', mc_id = ur_remindi_id req,
          mc_expected_version = ur_expected_version req,
          mc_idempotency_key = ur_idempotency_key req, mc_request_hash = hash\<rparr>
         (update_operation req now))))"

section \<open>Reads\<close>

record list_request =
  lr_project_id :: "ustring option"
  lr_task_id :: "ustring option"
  lr_states :: "remindi_state list"
  lr_trigger_types :: "ustring list"
  lr_linked_goal_id :: "ustring option"
  lr_linked_memory_hash :: "ustring option"
  lr_limit :: nat
  lr_cursor :: "cursor_text option"

definition list_filter_of :: "env \<Rightarrow> list_request \<Rightarrow> nat \<Rightarrow> list_cursor option \<Rightarrow> list_filter" where
  "list_filter_of env req limit cursor =
     \<lparr>lf_owner_id = env_owner env, lf_project_id = lr_project_id req, lf_task_id = lr_task_id req,
      lf_states = lr_states req, lf_trigger_types = lr_trigger_types req,
      lf_linked_goal_id = lr_linked_goal_id req,
      lf_linked_memory_hash = lr_linked_memory_hash req,
      lf_after = map_option (\<lambda>c. (lc_created_at c, lc_id c)) cursor, lf_limit = limit + 1\<rparr>"

definition list_items ::
  "env \<Rightarrow> actor \<Rightarrow> list_request \<Rightarrow> (remindi list \<times> cursor_text option) svc" where
  "list_items env a req =
     sbind (slift (validate_actor a)) (\<lambda>_.
     sbind (slift (validate_trigger_types (lr_trigger_types req))) (\<lambda>_.
     sbind (slift (page_limit (lr_limit req) 50)) (\<lambda>limit.
     sbind (slift (transpose_map (decode_list_cursor (env_mac env)) (lr_cursor req))) (\<lambda>cursor.
     sbind (gate env) (\<lambda>_.
     sbind (db_read (\<lambda>d. list_remindi d (list_filter_of env req limit cursor))) (\<lambda>fetched.
     let items = take limit fetched in
     sbind (slift (if length fetched > limit \<and> items \<noteq> []
                   then rbind (map_err map_domain (canonical_timestamp (created_at (last items)))) (\<lambda>created.
                          Ok (Some (encode_cursor (env_mac env) ''list''
                            (ListCursorValue \<lparr>lc_created_at = created, lc_id = remindi_id (last items)\<rparr>))))
                   else Ok None)) (\<lambda>next_cursor.
       slift (Ok (items, next_cursor)))))))))"

definition get_item :: "env \<Rightarrow> actor \<Rightarrow> uuid \<Rightarrow> remindi svc" where
  "get_item env a i =
     sbind (slift (validate_actor a)) (\<lambda>_.
     sbind (gate env) (\<lambda>_.
     sbind (db_read (\<lambda>d. find_remindi d (env_owner env) i)) (\<lambda>found.
       slift (ok_or NotFound found))))"

record history_request =
  hr_remindi_id :: uuid
  hr_after_sequence :: "int option"
  hr_event_types :: "event_type_kind list"
  hr_limit :: nat
  hr_cursor :: "cursor_text option"

record history_page =
  hp_items :: "remindi_event list"
  hp_evidence :: "completion_evidence option"
  hp_next_cursor :: "cursor_text option"

definition history :: "env \<Rightarrow> actor \<Rightarrow> history_request \<Rightarrow> history_page svc" where
  "history env a req =
     sbind (slift (validate_actor a)) (\<lambda>_.
     sbind (slift (page_limit (hr_limit req) 100)) (\<lambda>limit.
     sbind (slift (transpose_map (decode_history_cursor (env_mac env)) (hr_cursor req))) (\<lambda>cursor_after.
     let after = (case cursor_after of Some s \<Rightarrow> s
                  | None \<Rightarrow> (case hr_after_sequence req of Some s \<Rightarrow> s | None \<Rightarrow> 0)) in
     if after < 0 then slift (Err Validation)
     else
       sbind (gate env) (\<lambda>_.
       sbind (db_read (\<lambda>d. find_remindi d (env_owner env) (hr_remindi_id req))) (\<lambda>found.
       if found = None then slift (Err NotFound)
       else
         sbind (db_read (\<lambda>d. history_events d (env_owner env) (hr_remindi_id req) after
                  (hr_event_types req) (limit + 1))) (\<lambda>fetched.
         let items = take limit fetched;
             next_cursor = (if length fetched > limit \<and> items \<noteq> []
                            then map_option (\<lambda>s. encode_cursor (env_mac env) ''history'' (HistoryCursorValue s))
                                   (event_sequence (last items))
                            else None) in
         sbind (db_read (\<lambda>d. evidence_of_item d (env_owner env) (hr_remindi_id req))) (\<lambda>ev.
           slift (Ok \<lparr>hp_items = items, hp_evidence = ev, hp_next_cursor = next_cursor\<rparr>))))))))"

section \<open>Check\<close>

record check_request =
  kr_project_id :: ustring
  kr_task_id :: "ustring option"
  kr_session_id :: "ustring option"
  kr_task_lineage_id :: "ustring option"
  kr_lifecycle_event :: lifecycle_event_kind
  kr_active_goal_ids :: "ustring list"
  kr_include_scheduled :: bool
  kr_limit :: nat
  kr_cursor :: "cursor_text option"

record check_result =
  kt_checked_at :: instant
  kt_items :: "checked_item list"
  kt_next_cursor :: "cursor_text option"

text \<open>A candidate with its preview, readiness and events: the triples of \<open>ready\<close>.\<close>

type_synonym planned = "remindi \<times> checked_item \<times> event_type_kind list"

fun plan_candidates ::
  "instant \<Rightarrow> check_context \<Rightarrow> remindi list \<Rightarrow> (service_error, planned list) res" where
  "plan_candidates now ctx [] = Ok []"
| "plan_candidates now ctx (candidate # cs) =
     rbind (map_err map_domain (evaluate candidate now ctx CE_NotEvaluated)) (\<lambda>(preview, result).
     rbind (plan_candidates now ctx cs) (\<lambda>rest.
       Ok (case res_readiness result of
             None \<Rightarrow> rest
           | Some rd \<Rightarrow>
               (candidate, \<lparr>ci_remindi = preview, ci_readiness = rd\<rparr>, res_events result) # rest)))"

text \<open>The sorted, cursor-filtered page of the plan, and the cursor of its last item.\<close>

definition plan_page ::
  "env \<Rightarrow> nat \<Rightarrow> check_cursor option \<Rightarrow> planned list
     \<Rightarrow> (service_error, planned list \<times> cursor_text option) res" where
  "plan_page env limit cursor ready =
     (let sorted_ready = sort_by (\<lambda>l r. check_order (fst (snd l)) (fst (snd r))) ready;
          kept = (case cursor of None \<Rightarrow> sorted_ready
                  | Some c \<Rightarrow> filter (\<lambda>p. check_after_cursor (fst (snd p)) c) sorted_ready);
          page = take limit kept in
      rbind (if length kept > limit \<and> page \<noteq> []
             then rbind (check_cursor_of (fst (snd (last page)))) (\<lambda>c.
                    Ok (Some (encode_cursor (env_mac env) ''check'' (CheckCursorValue c))))
             else Ok None) (\<lambda>next_cursor.
        Ok (page, next_cursor)))"

definition event_details :: "check_context \<Rightarrow> remindi \<Rightarrow> ustring option \<Rightarrow> json" where
  "event_details ctx item detail =
     JObj [(''lifecycle_event'', JStr (lit (lifecycle_event_name (lifecycle_event ctx)))),
           (''condition'', json_opt (\<lambda>c. JStr (lit (condition_status_name c))) (last_condition_status item)),
           (''condition_detail'', json_opt JStr detail)]"

fun append_audits ::
  "env \<Rightarrow> actor \<Rightarrow> remindi \<Rightarrow> u64 option \<Rightarrow> u64 option \<Rightarrow> json \<Rightarrow> event_type_kind list \<Rightarrow> unit svc" where
  "append_audits env a item prior new dets [] = slift (Ok ())"
| "append_audits env a item prior new dets (et # ets) =
     sbind (append_audit env a item et prior new dets) (\<lambda>_.
       append_audits env a item prior new dets ets)"

definition persist_evaluated ::
  "env \<Rightarrow> actor \<Rightarrow> remindi \<Rightarrow> remindi \<Rightarrow> readiness_kind option \<Rightarrow> event_type_kind list
     \<Rightarrow> check_context \<Rightarrow> ustring option \<Rightarrow> checked_item option svc" where
  "persist_evaluated env a prior candidate rd events ctx detail =
     sbind (db_read (\<lambda>d. find_remindi d (env_owner env) (remindi_id candidate))) (\<lambda>found.
     sbind (slift (ok_or NotFound found)) (\<lambda>current.
     if version current \<noteq> version prior then slift (Ok None)
     else
       sbind (db_write (\<lambda>d. update_cas d candidate (version prior))) (\<lambda>won.
       if \<not> won then slift (Ok None)
       else
         sbind (append_audits env a candidate (Some (version prior)) (Some (version candidate))
                 (event_details ctx candidate detail) events) (\<lambda>_.
           slift (Ok (map_option (\<lambda>r. \<lparr>ci_remindi = candidate, ci_readiness = r\<rparr>) rd))))))"

fun persist_page ::
  "env \<Rightarrow> actor \<Rightarrow> check_context \<Rightarrow> planned list \<Rightarrow> checked_item list svc" where
  "persist_page env a ctx [] = slift (Ok [])"
| "persist_page env a ctx ((prior, checked, events) # ps) =
     sbind (if events = []
            then slift (Ok (Some \<lparr>ci_remindi = prior, ci_readiness = ci_readiness checked\<rparr>))
            else persist_evaluated env a prior (ci_remindi checked) (Some (ci_readiness checked))
                   events ctx None) (\<lambda>item.
     sbind (persist_page env a ctx ps) (\<lambda>items.
       slift (Ok (case item of None \<Rightarrow> items | Some i \<Rightarrow> i # items))))"

definition context_of :: "check_request \<Rightarrow> check_context" where
  "context_of req = \<lparr>session_id = kr_session_id req, task_lineage_id = kr_task_lineage_id req,
     lifecycle_event = kr_lifecycle_event req, active_goal_ids = kr_active_goal_ids req\<rparr>"

text \<open>The reading half: everything up to the transaction. Other transactions may commit before
  the writing half starts.\<close>

definition check_plan ::
  "env \<Rightarrow> actor \<Rightarrow> check_request
     \<Rightarrow> (check_context \<times> instant \<times> planned list \<times> cursor_text option) svc" where
  "check_plan env a request =
     sbind (slift (validate_actor a)) (\<lambda>_.
     sbind (slift (required_text (kr_project_id request) 512)) (\<lambda>project.
     sbind (slift (optional_text (kr_task_id request) 512)) (\<lambda>task.
     sbind (slift (optional_context (kr_session_id request) 512)) (\<lambda>session.
     sbind (slift (optional_context (kr_task_lineage_id request) 512)) (\<lambda>lineage.
     sbind (slift (page_limit (kr_limit request) 50)) (\<lambda>limit.
     sbind (slift (transpose_map (decode_check_cursor (env_mac env)) (kr_cursor request))) (\<lambda>cursor.
     sbind (clock_now env) (\<lambda>now.
     sbind (gate env) (\<lambda>_.
     sbind (db_read (\<lambda>d. check_candidates d (env_owner env) project task now
              (kr_include_scheduled request))) (\<lambda>candidates.
     let ctx = context_of (request\<lparr>kr_session_id := session, kr_task_lineage_id := lineage\<rparr>) in
     sbind (slift (plan_candidates now ctx candidates)) (\<lambda>ready.
     sbind (slift (plan_page env limit cursor ready)) (\<lambda>(page, next_cursor).
       slift (Ok (ctx, now, page, next_cursor))))))))))))))"

definition check_apply ::
  "env \<Rightarrow> actor \<Rightarrow> check_context \<times> instant \<times> planned list \<times> cursor_text option \<Rightarrow> check_result svc" where
  "check_apply env a plan =
     (case plan of (ctx, now, page, next_cursor) \<Rightarrow>
        if list_all (\<lambda>(_, _, events). events = []) page
        then slift (Ok \<lparr>kt_checked_at = now,
               kt_items = map (\<lambda>(prior, checked, _).
                 \<lparr>ci_remindi = prior, ci_readiness = ci_readiness checked\<rparr>) page,
               kt_next_cursor = next_cursor\<rparr>)
        else
          sbind (transaction env (sbind (persist_page env a ctx page) (\<lambda>items. slift (Ok (items, True)))))
            (\<lambda>items. slift (Ok \<lparr>kt_checked_at = now, kt_items = items, kt_next_cursor = next_cursor\<rparr>)))"

definition check :: "env \<Rightarrow> actor \<Rightarrow> check_request \<Rightarrow> check_result svc" where
  "check env a request = sbind (check_plan env a request) (check_apply env a)"

section \<open>Scheduler entry points\<close>

definition scheduler_candidates_of :: "env \<Rightarrow> instant \<Rightarrow> nat \<Rightarrow> remindi list svc" where
  "scheduler_candidates_of env now limit =
     sbind (gate env) (\<lambda>_. db_read (\<lambda>d. scheduler_candidates d (env_owner env) now limit))"

definition evaluate_one ::
  "env \<Rightarrow> actor \<Rightarrow> remindi \<Rightarrow> instant \<Rightarrow> check_context \<Rightarrow> condition_evaluation \<Rightarrow> ustring option
     \<Rightarrow> checked_item option svc" where
  "evaluate_one env a prior now ctx condition detail =
     sbind (slift (map_err map_domain (evaluate prior now ctx condition))) (\<lambda>(evaluated, result).
     let candidate = (if condition \<noteq> CE_NotEvaluated
                      then evaluated\<lparr>last_condition_detail := detail\<rparr> else evaluated) in
     if res_events result = []
     then slift (Ok (map_option (\<lambda>rd. \<lparr>ci_remindi = prior, ci_readiness = rd\<rparr>) (res_readiness result)))
     else
       transaction env
         (sbind (persist_evaluated env a prior (ensure_bumped now prior candidate) (res_readiness result) (res_events result) ctx detail)
           (\<lambda>item. slift (Ok (item, True)))))"

definition apply_scheduler_evaluation ::
  "env \<Rightarrow> actor \<Rightarrow> remindi \<Rightarrow> instant \<Rightarrow> condition_evaluation \<Rightarrow> ustring option \<Rightarrow> unit svc" where
  "apply_scheduler_evaluation env a candidate now condition detail =
     sbind (evaluate_one env a candidate now
              \<lparr>session_id = None, task_lineage_id = None, lifecycle_event = Checkpoint, active_goal_ids = []\<rparr>
              condition detail)
       (\<lambda>_. slift (Ok ()))"

end
