(* ===== verification/Store.thy ===== *)
theory Store
  imports Repository Samples
begin

text \<open>
  What the item table promises the service. \<open>store_view\<close> is the abstract store, a map from
  identifiers to items; under the table invariant \<open>items_wf\<close> the statements of
  \<open>src/remindi/repository.rs\<close> refine its operations: lookup, insertion of an absent key and
  compare-and-set on the version. The interface \<open>cas_store\<close> is what optimistic concurrency
  needs of such a store. The list and history queries are instances of keyset pagination.
\<close>

section \<open>The table invariant\<close>

definition row_ok :: "remindi_row \<Rightarrow> bool" where
  "row_ok row \<longleftrightarrow> check_remindi row \<and>
     (\<exists>item. row = columns item \<and> stored item = item \<and> storable item \<and> item_wf item)"

definition items_wf :: "db \<Rightarrow> bool" where
  "items_wf d \<longleftrightarrow> distinct (map c_id (remindi_table d)) \<and> (\<forall>row \<in> set (remindi_table d). row_ok row)"

definition store_view :: "db \<Rightarrow> uuid \<Rightarrow> remindi option" where
  "store_view d i =
     (case find (\<lambda>r. c_id r = i) (remindi_table d) of
        None \<Rightarrow> None
      | Some row \<Rightarrow> (case remindi_from_row row of Inr item \<Rightarrow> Some item | Inl _ \<Rightarrow> None))"

lemma stored_storable: "storable item \<Longrightarrow> storable (stored item)"
  using trunc_ms_rfc3339
  by (auto simp: storable_def times_ok_def counters_ok_def stored_def)

lemma stamp_of_trunc [simp]: "stamp_of (trunc_ms t) = stamp_of t"
  by (simp add: trunc_ms_def ns_per_ms_def)

lemma columns_stored [simp]: "columns (stored item) = columns item"
  by (simp add: columns_def stored_def option.map_comp comp_def)

lemma columns_simps [simp]:
  "c_id (columns item) = remindi_id item" "c_owner_id (columns item) = owner_id item"
  "c_version (columns item) = uint (version item)" "c_created_at (columns item) = stamp_of (created_at item)"
  "c_project_id (columns item) = project_id item" "c_task_id (columns item) = task_id item"
  "c_state (columns item) = state_name (state item)"
  by (simp_all add: columns_def)

lemma row_okE:
  assumes "row_ok row"
  obtains item where "row = columns item" "stored item = item" "storable item" "item_wf item"
    "check_remindi row" "remindi_from_row row = Ok item"
  using assms from_row_columns by (fastforce simp: row_ok_def storable_def)

lemma row_okI:
  assumes "storable item" and "item_wf item" and "check_remindi (columns item)"
  shows "row_ok (columns item)"
  unfolding row_ok_def
proof (intro conjI exI)
  show "columns item = columns (stored item)" by simp
  show "storable (stored item)" using assms(1) by (rule stored_storable)
  show "item_wf (stored item)" using assms(2) by (rule stored_wf)
qed (simp_all add: assms(3))

lemma items_wf_row: "items_wf d \<Longrightarrow> row \<in> set (remindi_table d) \<Longrightarrow> row_ok row"
  by (simp add: items_wf_def)

lemma find_distinct:
  "distinct (map f xs) \<Longrightarrow> x \<in> set xs \<Longrightarrow> find (\<lambda>y. f y = f x) xs = Some x"
  by (induction xs) (auto simp: rev_image_eqI)

lemma filter_eq_single: "distinct xs \<Longrightarrow> x \<in> set xs \<Longrightarrow> filter (\<lambda>y. y = x) xs = [x]"
  by (induction xs) (auto simp: filter_empty_conv)

lemma find_SomeD: "find P xs = Some x \<Longrightarrow> P x \<and> x \<in> set xs"
  by (induction xs) (auto split: if_splits)

lemma find_conj_distinct:
  "distinct (map f xs) \<Longrightarrow>
     find (\<lambda>x. P x \<and> f x = i) xs = (case find (\<lambda>x. f x = i) xs of None \<Rightarrow> None | Some x \<Rightarrow> if P x then Some x else None)"
  by (induction xs) (auto simp: find_None_iff rev_image_eqI dest: find_SomeD split: option.splits)

lemma store_view_iff:
  assumes "items_wf d"
  shows "store_view d i = Some item \<longleftrightarrow>
    columns item \<in> set (remindi_table d) \<and> remindi_id item = i \<and> stored item = item \<and> times_ok item"
proof
  assume "store_view d i = Some item"
  then obtain row where f: "find (\<lambda>r. c_id r = i) (remindi_table d) = Some row"
    and r: "remindi_from_row row = Inr item"
    by (auto simp: store_view_def split: option.splits sum.splits)
  from f have "row \<in> set (remindi_table d)" "c_id row = i" by (auto dest: find_SomeD)
  with items_wf_row [OF assms] r show
    "columns item \<in> set (remindi_table d) \<and> remindi_id item = i \<and> stored item = item \<and> times_ok item"
    by (fastforce elim: row_okE simp: storable_def)
next
  assume *: "columns item \<in> set (remindi_table d) \<and> remindi_id item = i \<and> stored item = item \<and> times_ok item"
  then have f: "find (\<lambda>r. c_id r = i) (remindi_table d) = Some (columns item)"
    using assms find_distinct [of c_id "remindi_table d" "columns item"] by (simp add: items_wf_def)
  moreover have "remindi_from_row (columns item) = Ok item" using * from_row_columns [of item] by simp
  ultimately show "store_view d i = Some item" by (simp add: store_view_def)
qed

lemma store_view_row:
  assumes "items_wf d" and "store_view d i = Some item"
  shows "item_wf item" and "storable item" and "remindi_id item = i" and "stored item = item"
    and "check_remindi (columns item)"
proof -
  from assms have c: "columns item \<in> set (remindi_table d)" "stored item = item" "times_ok item"
    "remindi_id item = i" by (simp_all add: store_view_iff)
  have "item_wf item \<and> storable item \<and> check_remindi (columns item)"
    using items_wf_row [OF assms(1) c(1)]
  proof (rule row_okE)
    fix it assume it: "columns item = columns it" "item_wf it" "storable it" "check_remindi (columns item)"
      "remindi_from_row (columns item) = Ok it"
    then have "it = item" using from_row_columns [OF c(3)] c(2) by simp
    with it show ?thesis by simp
  qed
  with c show "item_wf item" "storable item" "remindi_id item = i" "stored item = item"
    "check_remindi (columns item)" by simp_all
qed

section \<open>The statements refine the map\<close>

lemma find_row_view:
  assumes "items_wf d"
  shows "find_remindi d owner i =
    Ok (case store_view d i of None \<Rightarrow> None | Some item \<Rightarrow> if owner_id item = owner then Some item else None)"
proof -
  have fr: "find_row d owner i = (case find (\<lambda>r. c_id r = i) (remindi_table d) of None \<Rightarrow> None
      | Some row \<Rightarrow> if c_owner_id row = owner then Some row else None)"
    using assms by (simp add: find_row_def find_conj_distinct items_wf_def)
  show ?thesis
  proof (cases "find (\<lambda>r. c_id r = i) (remindi_table d)")
    case None
    then show ?thesis by (simp add: find_remindi_def fr store_view_def)
  next
    case (Some row)
    then have "row \<in> set (remindi_table d)" by (auto dest: find_SomeD)
    from items_wf_row [OF assms this] show ?thesis
      by (rule row_okE) (use Some fr in \<open>simp add: find_remindi_def store_view_def\<close>)
  qed
qed

lemma insert_remindi_refines:
  assumes "items_wf d" and "insert_remindi d item = Inr d'" and "item_wf item" and "storable item"
  shows "store_view d (remindi_id item) = None"
    and "store_view d' = (store_view d)(remindi_id item \<mapsto> stored item)"
    and "items_wf d'"
    and "d' = d\<lparr>remindi_table := remindi_table d @ [columns item]\<rparr>"
proof -
  from assms(2,4) have new: "\<forall>r \<in> set (remindi_table d). c_id r \<noteq> remindi_id item"
    and chk: "check_remindi (columns item)"
    and d': "d' = d\<lparr>remindi_table := remindi_table d @ [columns item]\<rparr>"
    by (auto simp: insert_remindi_def row_of_storable sql_error_def list_ex_iff split: if_splits)
  show "d' = d\<lparr>remindi_table := remindi_table d @ [columns item]\<rparr>" by (rule d')
  from new show none: "store_view d (remindi_id item) = None"
    by (auto simp: store_view_def dest!: find_SomeD split: option.splits)
  show wf': "items_wf d'"
    using assms(1) new row_okI [OF assms(4,3) chk] by (auto simp: items_wf_def d')
  show "store_view d' = (store_view d)(remindi_id item \<mapsto> stored item)"
  proof
    fix i
    have "store_view d' i = Some x \<longleftrightarrow> ((store_view d)(remindi_id item \<mapsto> stored item)) i = Some x" for x
    proof (cases "i = remindi_id item")
      case True
      have "times_ok (stored item)" using stored_storable [OF assms(4)] by (simp add: storable_def)
      then have "store_view d' i = Some (stored item)"
        unfolding store_view_iff [OF wf'] using True by (simp add: d')
      with True show ?thesis by auto
    next
      case False
      then show ?thesis
        unfolding fun_upd_other [OF False] store_view_iff [OF wf'] store_view_iff [OF assms(1)]
        by (auto simp: d' dest: arg_cong [of _ _ c_id])
    qed
    then show "store_view d' i = ((store_view d)(remindi_id item \<mapsto> stored item)) i"
      by (metis not_Some_eq)
  qed
qed

text \<open>An update of a stored item is a compare-and-set of its entry.\<close>

lemma set_columns_same:
  "same_identity r item \<Longrightarrow> set_columns (columns item) (columns r) = columns item"
  by (simp add: set_columns_def same_identity_def columns_def)

lemma update_matches_iff:
  assumes "items_wf d" and "store_view d (remindi_id item) = Some r" and "owner_id r = owner_id item"
    and "old \<in> set (remindi_table d)"
  shows "update_matches (columns item) (uint n) old \<longleftrightarrow> old = columns r \<and> version r = n"
proof -
  from assms(1,2) have r: "columns r \<in> set (remindi_table d)" "remindi_id r = remindi_id item"
    by (simp_all add: store_view_iff)
  have "old = columns r" if "c_id old = remindi_id item"
    using assms(1,4) that r by (simp add: items_wf_def distinct_map inj_on_def)
  with r assms(3) show ?thesis by (auto simp: update_matches_def word_uint_eq_iff)
qed

lemma update_cas_refines:
  assumes wf: "items_wf d" and r: "store_view d (remindi_id item) = Some r" and id: "same_identity r item"
    and good: "item_wf item" "storable item" and upd: "update_cas d item n = Inr (d', won)"
  shows "won \<longleftrightarrow> version r = n"
    and "store_view d' = (if won then (store_view d)(remindi_id item \<mapsto> stored item) else store_view d)"
    and "items_wf d'"
    and "d' = (if won then d\<lparr>remindi_table := map (\<lambda>old. if old = columns r then columns item else old) (remindi_table d)\<rparr> else d)"
proof -
  let ?t = "remindi_table d" and ?m = "update_matches (columns item) (uint n)"
  from wf r have rr: "columns r \<in> set ?t" "remindi_id r = remindi_id item" by (simp_all add: store_view_iff)
  have own: "owner_id r = owner_id item" using id by (simp add: same_identity_def)
  note m = update_matches_iff [OF wf r own]
  from wf have dist: "distinct ?t" "distinct (map c_id ?t)" by (simp_all add: items_wf_def distinct_map)
  have hits: "filter ?m ?t = (if version r = n then [columns r] else [])"
  proof -
    have "filter ?m ?t = filter (\<lambda>old. old = columns r \<and> version r = n) ?t"
      using m by (intro filter_cong) auto
    also have "\<dots> = (if version r = n then [columns r] else [])"
      using rr(1) dist(1) by (auto simp: filter_eq_single filter_empty_conv)
    finally show ?thesis .
  qed
  have n: "i64_from_u64 n = Inr (uint n)"
    using upd i64_from_u64_eq by (auto simp: update_cas_def rbind_eq_Inr)
  have tab: "map (\<lambda>old. if ?m old then set_columns (columns item) old else old) ?t
      = (if version r = n then map (\<lambda>old. if old = columns r then columns item else old) ?t else ?t)"
    using m set_columns_same [OF id] by (auto intro!: map_cong simp: map_idI)
  have chk: "version r = n \<Longrightarrow> check_remindi (columns item)"
    and res: "won \<longleftrightarrow> version r = n"
    and d': "d' = (if won then d\<lparr>remindi_table := map (\<lambda>old. if old = columns r then columns item else old) ?t\<rparr> else d)"
    using upd by (auto simp: update_cas_def row_of_storable good n hits tab Let_def sql_error_def
        set_columns_same [OF id] split: if_splits)
  show "won \<longleftrightarrow> version r = n" by (rule res)
  show "d' = (if won then d\<lparr>remindi_table := map (\<lambda>old. if old = columns r then columns item else old) ?t\<rparr> else d)"
    by (rule d')
  have ids: "map c_id (map (\<lambda>old. if old = columns r then columns item else old) ?t) = map c_id ?t"
    using rr(2) by simp
  show wf': "items_wf d'"
  proof (cases won)
    case True
    then have t': "remindi_table d' = map (\<lambda>old. if old = columns r then columns item else old) ?t"
      by (simp add: d')
    have "distinct (map c_id (remindi_table d'))" using dist(2) unfolding t' ids .
    moreover have "\<forall>row \<in> set (remindi_table d'). row_ok row"
      using wf row_okI [OF good(2,1) chk] res True by (auto simp: t' items_wf_def)
    ultimately show ?thesis by (simp add: items_wf_def)
  qed (use wf d' in simp)
  show "store_view d' = (if won then (store_view d)(remindi_id item \<mapsto> stored item) else store_view d)"
  proof (cases won)
    case True
    have st: "times_ok (stored item)" using stored_storable [OF good(2)] by (simp add: storable_def)
    have "store_view d' i = Some x \<longleftrightarrow> ((store_view d)(remindi_id item \<mapsto> stored item)) i = Some x" for i x
    proof (cases "i = remindi_id item")
      case eq: True
      have "store_view d' i = Some (stored item)"
        unfolding store_view_iff [OF wf'] using True rr st eq by (auto simp: d' image_iff)
      with eq show ?thesis by auto
    next
      case False
      then show ?thesis
        unfolding fun_upd_other [OF False] store_view_iff [OF wf'] store_view_iff [OF wf]
        using True rr by (auto simp: d' image_iff dest: arg_cong [of _ _ c_id])
    qed
    then have "store_view d' i = ((store_view d)(remindi_id item \<mapsto> stored item)) i" for i
      by (metis not_Some_eq)
    with True show ?thesis by (simp add: fun_eq_iff)
  qed (simp add: d')
qed

section \<open>Optimistic concurrency\<close>

text \<open>
  What the service needs of the store to let concurrent writers race: \<open>cas s x n\<close> replaces the
  entry of \<open>x\<close> exactly when its version is \<open>n\<close>, and changes nothing otherwise. \<open>derived y x\<close> says
  that the candidate \<open>x\<close> was computed from the entry \<open>y\<close>.
\<close>

locale cas_store =
  fixes inv :: "'s \<Rightarrow> bool"
    and view :: "'s \<Rightarrow> 'k \<Rightarrow> 'v option"
    and cas :: "'s \<Rightarrow> 'v \<Rightarrow> 'n \<Rightarrow> ('e, 's \<times> bool) res"
    and key :: "'v \<Rightarrow> 'k"
    and ver :: "'v \<Rightarrow> 'n"
    and norm :: "'v \<Rightarrow> 'v"
    and derived :: "'v \<Rightarrow> 'v \<Rightarrow> bool"
    and good :: "'v \<Rightarrow> bool"
  assumes cas_won: "inv s \<Longrightarrow> view s (key x) = Some y \<Longrightarrow> derived y x \<Longrightarrow> good x \<Longrightarrow>
      cas s x n = Inr (s', won) \<Longrightarrow> won \<longleftrightarrow> ver y = n"
    and cas_view: "inv s \<Longrightarrow> view s (key x) = Some y \<Longrightarrow> derived y x \<Longrightarrow> good x \<Longrightarrow>
      cas s x n = Inr (s', won) \<Longrightarrow> view s' = (if won then (view s)(key x \<mapsto> norm x) else view s)"
    and cas_inv: "inv s \<Longrightarrow> view s (key x) = Some y \<Longrightarrow> derived y x \<Longrightarrow> good x \<Longrightarrow>
      cas s x n = Inr (s', won) \<Longrightarrow> inv s'"
    and ver_norm: "ver (norm x) = ver x"
    and derived_norm: "derived y x \<Longrightarrow> derived y z \<Longrightarrow> derived (norm x) z"
begin

text \<open>Of two candidates computed from the same entry, the first to commit wins and the second
  changes nothing.\<close>

lemma one_winner:
  assumes "inv s" and "view s k = Some y" and "key x = k" "key z = k"
    and "derived y x" "derived y z" "good x" "good z" and "ver x \<noteq> ver y"
    and first: "cas s x (ver y) = Inr (s1, True)" and second: "cas s1 z (ver y) = Inr (s2, won)"
  shows "\<not> won" and "view s2 = view s1" and "view s1 k = Some (norm x)"
proof -
  have i1: "inv s1" using cas_inv first assms by blast
  have v1: "view s1 = (view s)(k \<mapsto> norm x)" using cas_view [OF assms(1) _ assms(5,7) first] assms by simp
  then have e1: "view s1 (key z) = Some (norm x)" using assms by simp
  have dz: "derived (norm x) z" using derived_norm assms by blast
  from cas_won [OF i1 e1 dz assms(8) second] assms(9) show "\<not> won" by (simp add: ver_norm)
  with cas_view [OF i1 e1 dz assms(8) second] show "view s2 = view s1" by simp
  from v1 show "view s1 k = Some (norm x)" by simp
qed

text \<open>Entries of other keys are never touched.\<close>

lemma others_kept:
  assumes "inv s" "view s (key x) = Some y" "derived y x" "good x" "cas s x n = Inr (s', won)" "k \<noteq> key x"
  shows "view s' k = view s k"
  using cas_view [OF assms(1-5)] assms(6) by simp

end

abbreviation writable :: "remindi \<Rightarrow> bool" where "writable item \<equiv> item_wf item \<and> storable item"

definition creation_ms :: "remindi \<Rightarrow> bool" where
  "creation_ms item \<longleftrightarrow> trunc_ms (created_at item) = created_at item"

interpretation item_store: cas_store items_wf store_view update_cas remindi_id version stored
  "\<lambda>y x. same_identity y x \<and> creation_ms y" writable
proof unfold_locales
  fix s s' x y won and n :: u64
  assume "items_wf s" "store_view s (remindi_id x) = Some y" "same_identity y x \<and> creation_ms y"
    "writable x" "update_cas s x n = Inr (s', won)"
  then show "won \<longleftrightarrow> version y = n"
    and "store_view s' = (if won then (store_view s)(remindi_id x \<mapsto> stored x) else store_view s)"
    and "items_wf s'"
    using update_cas_refines [of s x y n s' won] by auto
qed (auto simp: stored_def same_identity_def creation_ms_def)

section \<open>Properties\<close>

text \<open>
  C14: on a well-formed table the statements refine the operations of a map from identifiers to
  items: a lookup reads the entry, an owner sees only his own; a compare-and-set of a candidate
  computed from the entry replaces it exactly when the expected version is the entry's, and
  changes nothing otherwise; the table stays well formed.
\<close>

theorem update_refines_map:
  assumes "items_wf d" and "store_view d (remindi_id item) = Some r" and "same_identity r item"
    and "writable item" and "update_cas d item n = Inr (d', won)"
  shows "(won \<longleftrightarrow> version r = n) \<and> items_wf d' \<and>
    store_view d' = (if won then (store_view d)(remindi_id item \<mapsto> stored item) else store_view d) \<and>
    find_remindi d' (owner_id item) (remindi_id item) = Ok (Some (if won then stored item else r))"
proof -
  note u = update_cas_refines [OF assms(1,2,3) assms(4) [THEN conjunct1] assms(4) [THEN conjunct2] assms(5)]
  have "owner_id r = owner_id item" using assms(3) by (simp add: same_identity_def)
  with u assms(2) find_row_view [OF u(3)] show ?thesis by auto
qed

definition sample_db :: db where
  "sample_db = \<lparr>remindi_table = [columns sample_item], link_table = [], event_table = [], last_sequence = 0,
     evidence_table = [], idempotency_table = [], lease_table = [], runtime_table = []\<rparr>"

lemma sample_writable: "storable sample_item" "item_wf sample_item" "check_remindi (columns sample_item)"
  "stored sample_item = sample_item"
  by (simp_all add: storable_def times_ok_def counters_ok_def sample_item_def rfc3339_ok_def year_zero_def
      max_instant_def t0_def i64_max_def recurrence_serializable_def every_hour_def item_wf_defs
      check_remindi_def columns_def sql_length_def state_variants_def priority_variants_def stored_def
      trunc_ms_def ns_per_ms_def)

lemma sample_db_wf: "items_wf sample_db"
  using row_okI [OF sample_writable(1-3)] by (simp add: sample_db_def items_wf_def)

lemma sample_db_view: "store_view sample_db 7 = Some sample_item"
proof -
  have "remindi_id sample_item = 7" by (simp add: sample_item_def)
  moreover have "times_ok sample_item" using sample_writable(1) by (simp add: storable_def)
  ultimately show ?thesis
    using sample_writable(4) by (simp add: store_view_iff [OF sample_db_wf]) (simp add: sample_db_def)
qed

abbreviation bumped_sample :: remindi where
  "bumped_sample \<equiv> sample_item\<lparr>message := lit ''x'', version := 3\<rparr>"

lemma bumped_writable: "writable bumped_sample" "same_identity sample_item bumped_sample"
  using sample_writable by (auto simp: storable_def times_ok_def counters_ok_def item_wf_defs same_identity_def i64_max_def)

lemma update_cas_single:
  assumes "row_of item = Ok row" and "i64_from_u64 n = Ok k" and "remindi_table d = [old]"
  shows "update_matches row k old \<Longrightarrow> check_remindi (set_columns row old) \<Longrightarrow>
      update_cas d item n = Inr (d\<lparr>remindi_table := [set_columns row old]\<rparr>, True)"
    and "\<not> update_matches row k old \<Longrightarrow> update_cas d item n = Inr (d, False)"
  using assms(3) by (cases d; simp add: update_cas_def assms)+

lemma writable_message: "writable item \<Longrightarrow> writable (item\<lparr>message := m\<rparr>)"
proof -
  have "item_wf (item\<lparr>message := m\<rparr>) = item_wf item" by (simp add: item_wf_defs)
  moreover have "storable (item\<lparr>message := m\<rparr>) = storable item"
    by (simp add: storable_def times_ok_def counters_ok_def)
  ultimately show "writable item \<Longrightarrow> writable (item\<lparr>message := m\<rparr>)" by simp
qed

lemma bumped_wins:
  "update_cas sample_db bumped_sample 2 = Inr (sample_db\<lparr>remindi_table := [columns bumped_sample]\<rparr>, True)"
proof -
  have r: "row_of bumped_sample = Ok (columns bumped_sample)" using bumped_writable(1) row_of_storable by simp
  have s: "set_columns (columns bumped_sample) (columns sample_item) = columns bumped_sample"
    by (rule set_columns_same [OF bumped_writable(2)])
  have c: "check_remindi (columns bumped_sample)"
    by (simp add: check_remindi_def columns_def sql_length_def state_variants_def priority_variants_def sample_item_def)
  have m: "update_matches (columns bumped_sample) 2 (columns sample_item)"
    by (simp add: update_matches_def) (simp add: sample_item_def)
  have i: "i64_from_u64 2 = Inr 2" by (simp add: i64_from_u64_def i64_try_from_u64_def i64_max_def)
  have "remindi_table sample_db = [columns sample_item]" by (simp add: sample_db_def)
  from update_cas_single(1) [OF r i this m, unfolded s] c show ?thesis by blast
qed

lemma rival_loses:
  "update_cas (sample_db\<lparr>remindi_table := [columns bumped_sample]\<rparr>) (bumped_sample\<lparr>message := lit ''y''\<rparr>) 2 =
     Inr (sample_db\<lparr>remindi_table := [columns bumped_sample]\<rparr>, False)"
proof -
  have r: "row_of (bumped_sample\<lparr>message := lit ''y''\<rparr>) = Ok (columns (bumped_sample\<lparr>message := lit ''y''\<rparr>))"
    using bumped_writable(1) by (intro row_of_storable) (simp add: storable_def times_ok_def counters_ok_def)
  have m: "\<not> update_matches (columns (bumped_sample\<lparr>message := lit ''y''\<rparr>)) 2 (columns bumped_sample)"
    by (simp add: update_matches_def)
  have i: "i64_from_u64 2 = Inr 2" by (simp add: i64_from_u64_def i64_try_from_u64_def i64_max_def)
  have t: "remindi_table (sample_db\<lparr>remindi_table := [columns bumped_sample]\<rparr>) = [columns bumped_sample]" by simp
  from update_cas_single(2) [OF r i t m] show ?thesis .
qed

theorem update_refines_map_witness:
  "\<exists>d'. update_cas sample_db bumped_sample 2 = Inr (d', True) \<and> items_wf d' \<and>
     store_view d' = (store_view sample_db)(7 \<mapsto> stored bumped_sample)"
proof -
  note u = bumped_wins
  have id: "remindi_id bumped_sample = 7" by (simp add: sample_item_def)
  from update_refines_map [OF sample_db_wf _ bumped_writable(2,1) u] sample_db_view id u
  show ?thesis by simp
qed

text \<open>
  Optimistic concurrency: of two candidates computed from the same stored item under its
  version, the first to write wins, and the second is refused without changing anything.
\<close>

theorem one_writer_wins:
  assumes "items_wf d" and "store_view d i = Some r" and "remindi_id a = i" "remindi_id b = i"
    and "same_identity r a" "same_identity r b" "writable a" "writable b" and "version a \<noteq> version r"
    and "update_cas d a (version r) = Inr (d1, True)" and "update_cas d1 b (version r) = Inr (d2, won)"
  shows "\<not> won \<and> store_view d2 = store_view d1 \<and> store_view d1 i = Some (stored a)"
proof -
  have "creation_ms r"
    using arg_cong [OF store_view_row(4) [OF assms(1,2)], of created_at]
    by (simp add: creation_ms_def stored_def)
  then show ?thesis
    using item_store.one_winner [OF assms(1,2,3,4) _ _ assms(7,8,9,10,11)] assms(5,6) by simp
qed

theorem one_writer_wins_witness:
  "\<exists>d1 d2. update_cas sample_db bumped_sample 2 = Inr (d1, True) \<and>
     update_cas d1 (bumped_sample\<lparr>message := lit ''y''\<rparr>) 2 = Inr (d2, False) \<and> store_view d2 = store_view d1"
proof -
  have i: "remindi_id bumped_sample = 7" "remindi_id (bumped_sample\<lparr>message := lit ''y''\<rparr>) = 7"
    and v: "version sample_item = 2" "version bumped_sample \<noteq> 2"
    by (simp_all add: sample_item_def)
  have s: "same_identity sample_item (bumped_sample\<lparr>message := lit ''y''\<rparr>)"
    using bumped_writable(2) by (simp add: same_identity_def)
  have w: "writable (bumped_sample\<lparr>message := lit ''y''\<rparr>)"
    using writable_message [OF bumped_writable(1)] .
  from one_writer_wins [OF sample_db_wf sample_db_view i bumped_writable(2) s bumped_writable(1) w]
    bumped_wins rival_loses v show ?thesis by auto
qed

end
