(* ===== verification/Transactions.thy ===== *)
theory Transactions
  imports Service Store
begin

text \<open>
  Facts about the handlers as transactions: inversion of the service monad, the frame of every
  write statement, what a committed run of each transaction body did, and that a handler that
  fails leaves the database as it found it.
\<close>

section \<open>The service monad\<close>

named_theorems svc_simps \<open>inversion of the service monad\<close>

lemma sbind_eq_Inr [svc_simps]:
  "sbind m f w = (Inr y, w') \<longleftrightarrow> (\<exists>x w1. m w = (Inr x, w1) \<and> f x w1 = (Inr y, w'))"
  by (auto simp: sbind_def split: prod.splits sum.splits)

lemma slift_eq [svc_simps]: "slift r w = (v, w') \<longleftrightarrow> r = v \<and> w' = w"
  by (auto simp: slift_def)

lemma clock_now_eq [svc_simps]:
  "clock_now env w = (v, w') \<longleftrightarrow> v = Ok (env_clock env (w_clock w)) \<and> w' = w\<lparr>w_clock := w_clock w + 1\<rparr>"
  by (auto simp: clock_now_def)

lemma next_id_eq [svc_simps]:
  "next_id env w = (v, w') \<longleftrightarrow> v = Ok (env_ids env (w_ids w)) \<and> w' = w\<lparr>w_ids := w_ids w + 1\<rparr>"
  by (auto simp: next_id_def)

lemma gate_eq_Inr [svc_simps]:
  "gate_as f env w = (Inr u, w') \<longleftrightarrow> env_gate env (w_gate w) = None \<and> w' = w\<lparr>w_gate := w_gate w + 1\<rparr>"
  by (auto simp: gate_as_def split: option.splits)

lemma db_read_eq_Inr [svc_simps]: "db_read q w = (Inr x, w') \<longleftrightarrow> q (w_db w) = Inr x \<and> w' = w"
  by (auto simp: db_read_def res_simps)

lemma db_write_eq_Inr [svc_simps]:
  "db_write q w = (Inr x, w') \<longleftrightarrow> (\<exists>d. q (w_db w) = Inr (d, x) \<and> w' = w\<lparr>w_db := d\<rparr>)"
  by (auto simp: db_write_def split: sum.splits)

lemma db_exec_eq_Inr [svc_simps]:
  "db_exec q w = (Inr x, w') \<longleftrightarrow> (\<exists>d. q (w_db w) = Inr d \<and> w' = w\<lparr>w_db := d\<rparr>)"
  by (auto simp: db_exec_def svc_simps rbind_eq_Inr)

lemma replay_eq_Inr [svc_simps]:
  "replay a tool key hash w = (Inr v, w') \<longleftrightarrow> w' = w \<and>
     (v = None \<and> idempotency (w_db w) (actor_id a) tool key = None \<or>
      (\<exists>response. v = Some response \<and> idempotency (w_db w) (actor_id a) tool key = Some (hash, response)))"
  by (auto simp: replay_def split: option.splits if_splits)

lemma gate_db [simp]: "w_db (snd (gate_as f env w)) = w_db w"
  by (simp add: gate_as_def)

text \<open>A monadic value that never changes the database.\<close>

definition reads_only :: "('e, 'a) action \<Rightarrow> bool" where
  "reads_only m \<longleftrightarrow> (\<forall>w. w_db (snd (m w)) = w_db w)"

text \<open>One that leaves the database alone when it fails.\<close>

definition atomic :: "('e, 'a) action \<Rightarrow> bool" where
  "atomic m \<longleftrightarrow> (\<forall>w e w'. m w = (Inl e, w') \<longrightarrow> w_db w' = w_db w)"

named_theorems ro_intros \<open>values that change nothing\<close>

lemma reads_only_basic [ro_intros]:
  "reads_only (slift r)" "reads_only (clock_now env)" "reads_only (next_id env)" "reads_only (gate_as f env)"
  "reads_only (db_read q)" "reads_only (replay a tool key hash)"
  by (simp_all add: reads_only_def slift_def clock_now_def next_id_def gate_as_def db_read_def replay_def)

lemma reads_only_bind [ro_intros]:
  "reads_only m \<Longrightarrow> (\<And>x. reads_only (f x)) \<Longrightarrow> reads_only (sbind m f)"
  unfolding reads_only_def sbind_def by (auto split: prod.splits sum.splits) (metis snd_conv)+

lemma reads_only_if [ro_intros]: "reads_only m \<Longrightarrow> reads_only n \<Longrightarrow> reads_only (if b then m else n)"
  by simp

lemma reads_only_atomic: "reads_only m \<Longrightarrow> atomic m"
  unfolding reads_only_def atomic_def by (metis snd_conv)

lemma atomic_slift: "atomic (slift r)"
  by (intro reads_only_atomic ro_intros)

lemma atomic_bind: "reads_only m \<Longrightarrow> (\<And>x. atomic (f x)) \<Longrightarrow> atomic (sbind m f)"
  unfolding reads_only_def atomic_def sbind_def
  by (auto split: prod.splits sum.splits) (metis snd_conv)+

lemma atomic_bind_final: "atomic m \<Longrightarrow> (\<And>x. \<exists>y. f x = slift (Ok y)) \<Longrightarrow> atomic (sbind m f)"
  unfolding atomic_def sbind_def
  by (auto split: prod.splits sum.splits) (metis Inl_Inr_False slift_eq)+

lemma atomic_transaction: "atomic (transaction_as f env body)"
  unfolding atomic_def transaction_as_def
  by (auto split: prod.splits sum.splits) (metis gate_db snd_conv)+

lemma transaction_eq_Inr [svc_simps]:
  "transaction_as f env body w = (Inr x, w') \<longleftrightarrow>
     (\<exists>c w2. env_gate env (w_gate w) = None \<and> body (w\<lparr>w_gate := w_gate w + 1\<rparr>) = (Inr (x, c), w2) \<and>
        env_gate env (w_gate w2) = None \<and>
        w' = (if c then w2\<lparr>w_gate := w_gate w2 + 1\<rparr>
              else w2\<lparr>w_gate := w_gate w2 + 1, w_db := w_db w\<rparr>))"
  by (auto simp: transaction_as_def gate_as_def split: prod.splits sum.splits option.splits) 

lemma transaction_Ok:
  assumes "transaction_as f env body w = (Inr x, w')"
  obtains c w1 w2 where "w_db w1 = w_db w" "w_clock w1 = w_clock w" "w_ids w1 = w_ids w"
    "body w1 = (Inr (x, c), w2)" "w_db w' = (if c then w_db w2 else w_db w)"
proof -
  from assms obtain c w2 where "body (w\<lparr>w_gate := w_gate w + 1\<rparr>) = (Inr (x, c), w2)"
    "w_db w' = (if c then w_db w2 else w_db w)"
    by (auto simp: transaction_eq_Inr)
  then show ?thesis by (intro that [of "w\<lparr>w_gate := w_gate w + 1\<rparr>"]) simp_all
qed

section \<open>What each statement writes\<close>

lemma insert_link_frame: "insert_link i l d = Inr d' \<Longrightarrow> \<exists>ks. d' = d\<lparr>link_table := ks\<rparr>"
  by (auto simp: insert_link_def Let_def rbind_eq_Inr sql_error_def split: if_splits)

lemma insert_links_frame: "insert_links i ls d = Inr d' \<Longrightarrow> \<exists>ks. d' = d\<lparr>link_table := ks\<rparr>"
proof (induction ls arbitrary: d)
  case Nil
  then have "d' = d\<lparr>link_table := link_table d\<rparr>" by simp
  then show ?case ..
next
  case (Cons l ls)
  then obtain d1 ks where "d1 = d\<lparr>link_table := ks\<rparr>" "insert_links i ls d1 = Inr d'"
    by (auto simp: rbind_eq_Inr dest: insert_link_frame)
  with Cons.IH [of d1] show ?case by fastforce
qed

lemma replace_links_frame: "replace_links d item ls = Inr d' \<Longrightarrow> \<exists>ks. d' = d\<lparr>link_table := ks\<rparr>"
  unfolding replace_links_def by (drule insert_links_frame) auto

text \<open>The row an audit event becomes.\<close>

definition event_row_of :: "db \<Rightarrow> remindi_event \<Rightarrow> event_row" where
  "event_row_of d ev =
     \<lparr>e_sequence = last_sequence d + 1, e_event_id = event_id ev, e_remindi_id = event_remindi_id ev,
      e_event_type = event_type_name (event_type ev), e_actor_type = event_actor_type ev,
      e_actor_id = event_actor_id ev, e_request_id = event_request_id ev,
      e_occurred_at = stamp_of (occurred_at ev),
      e_prior_version = map_option uint (prior_version ev),
      e_new_version = map_option uint (new_version ev), e_details = details ev\<rparr>"

lemma optional_i64_eq: "transpose_map i64_from_u64 v = Inr w \<Longrightarrow> w = map_option uint v"
  by (cases v) (auto simp: rbind_eq_Inr dest: i64_from_u64_eq)

lemma append_event_Ok:
  assumes "append_event d ev = Inr d'"
  shows "d' = d\<lparr>event_table := event_table d @ [event_row_of d ev], last_sequence := last_sequence d + 1\<rparr>"
    and "\<exists>row \<in> set (remindi_table d). c_id row = event_remindi_id ev"
    and "\<forall>e \<in> set (event_table d). e_event_id e \<noteq> event_id ev"
  using assms
  by (auto simp: append_event_def rbind_eq_Inr sql_error_def event_row_of_def list_ex_iff
      split: if_splits dest!: timestamp_eq optional_i64_eq)

lemma insert_evidence_frame: "insert_evidence d v = Inr d' \<Longrightarrow> \<exists>vs. d' = d\<lparr>evidence_table := vs\<rparr>"
  by (auto simp: insert_evidence_def Let_def rbind_eq_Inr sql_error_def split: if_splits)

lemma insert_idempotency_Ok:
  assumes "insert_idempotency d aid tool key hash response created expires = Inr d'"
  shows "d' = d\<lparr>idempotency_table := idempotency_table d @
      [\<lparr>i_actor_id = aid, i_tool_name = tool, i_key = key, i_request_hash = hash, i_response = response,
        i_remindi_id = remindi_id response, i_created_at = stamp_of created, i_expires_at = stamp_of expires\<rparr>]\<rparr>"
    and "idempotency d aid tool key = None"
  using assms
  by (auto simp: insert_idempotency_def rbind_eq_Inr sql_error_def idempotency_def list_ex_iff find_None_iff
      split: if_splits dest!: timestamp_eq)

lemma find_append: "find P (xs @ ys) = (case find P xs of None \<Rightarrow> find P ys | Some x \<Rightarrow> Some x)"
  by (induction xs) auto

lemma idempotency_stored:
  assumes "insert_idempotency d aid tool key hash response created expires = Inr d'"
  shows "idempotency d' aid tool key = Some (hash, response)"
  using insert_idempotency_Ok [OF assms]
  by (auto simp: idempotency_def find_append split: option.splits)

lemma idempotency_frame [simp]:
  "idempotency (d\<lparr>event_table := es, last_sequence := n\<rparr>) = idempotency d"
  "idempotency (d\<lparr>link_table := ks\<rparr>) = idempotency d"
  "idempotency (d\<lparr>evidence_table := vs\<rparr>) = idempotency d"
  "idempotency (d\<lparr>remindi_table := rs\<rparr>) = idempotency d"
  by (simp_all add: idempotency_def fun_eq_iff)

lemma store_view_frame [simp]:
  "store_view (d\<lparr>event_table := es, last_sequence := n\<rparr>) = store_view d"
  "store_view (d\<lparr>link_table := ks\<rparr>) = store_view d"
  "store_view (d\<lparr>evidence_table := vs\<rparr>) = store_view d"
  "store_view (d\<lparr>idempotency_table := is\<rparr>) = store_view d"
  by (simp_all add: store_view_def fun_eq_iff)

lemma items_wf_frame [simp]:
  "items_wf (d\<lparr>event_table := es, last_sequence := n\<rparr>) = items_wf d"
  "items_wf (d\<lparr>link_table := ks\<rparr>) = items_wf d"
  "items_wf (d\<lparr>evidence_table := vs\<rparr>) = items_wf d"
  "items_wf (d\<lparr>idempotency_table := is\<rparr>) = items_wf d"
  by (simp_all add: items_wf_def)

section \<open>Committed bodies\<close>

text \<open>
  The statements of a committed body, one after the other. \<open>linked_db\<close> and \<open>evidenced_db\<close> are the
  optional link and evidence writes of \<open>mutate\<close>.
\<close>

definition audit_event ::
  "actor \<Rightarrow> remindi \<Rightarrow> event_type_kind \<Rightarrow> u64 option \<Rightarrow> u64 option \<Rightarrow> json \<Rightarrow> uuid \<Rightarrow> instant \<Rightarrow> remindi_event" where
  "audit_event a item et prior new dets eid now =
     \<lparr>event_sequence = None, event_id = eid, event_remindi_id = remindi_id item, event_type = et,
      event_actor_type = actor_type a, event_actor_id = actor_id a, event_request_id = request_id a,
      occurred_at = now, prior_version = prior, new_version = new, details = dets\<rparr>"

lemma append_audit_eq_Inr:
  "append_audit env a item et prior new dets w = (Inr u, w') \<longleftrightarrow>
     (\<exists>d. append_event (w_db w) (audit_event a item et prior new dets (env_ids env (w_ids w)) (env_clock env (w_clock w))) = Inr d
        \<and> w' = w\<lparr>w_ids := w_ids w + 1, w_clock := w_clock w + 1, w_db := d\<rparr>)"
  by (auto simp: append_audit_def svc_simps audit_event_def)

lemma store_idempotency_Ok:
  assumes "store_idempotency a tool key hash response now w = (Inr u, w')"
  shows "insert_idempotency (w_db w) (actor_id a) tool key hash response now (now + idempotency_retention) = Inr (w_db w')"
  using assms by (auto simp: store_idempotency_def svc_simps res_simps)

text \<open>A mutation either replays a stored response or runs every statement.\<close>

definition linked_db :: "db \<Rightarrow> remindi \<Rightarrow> remindi_link list option \<Rightarrow> db \<Rightarrow> bool" where
  "linked_db d item ls d' \<longleftrightarrow> (case ls of None \<Rightarrow> d' = d | Some l \<Rightarrow> replace_links d item l = Inr d')"

lemma mutate_body_cases [consumes 1, case_names replay commit]:
  assumes "mutate_body env call op now w = (Inr (item', committed), w')"
  obtains
    (replay) "\<not> committed" "w' = w"
      "idempotency (w_db w) (actor_id (mc_actor call)) (mc_tool_name call) (mc_idempotency_key call)
         = Some (mc_request_hash call, item')"
  | (commit) item out d1 d2 d3 d4 dets eid at where "committed"
      "idempotency (w_db w) (actor_id (mc_actor call)) (mc_tool_name call) (mc_idempotency_key call) = None"
      "find_remindi (w_db w) (env_owner env) (mc_id call) = Inr (Some item)"
      "version item = mc_expected_version call"
      "op item = Inr (item', out)"
      "update_cas (w_db w) item' (version item) = Inr (d1, True)"
      "linked_db d1 item' (op_links out) d2"
      "\<exists>vs. d3 = d2\<lparr>evidence_table := vs\<rparr>"
      "op_evidence out = None \<Longrightarrow> d3 = d2 \<and> dets = op_details out"
      "append_event d3 (audit_event (mc_actor call) item' (op_event out) (Some (version item))
         (Some (version item')) dets eid at) = Inr d4"
      "insert_idempotency d4 (actor_id (mc_actor call)) (mc_tool_name call) (mc_idempotency_key call)
         (mc_request_hash call) item' now (now + idempotency_retention) = Inr (w_db w')"
proof (cases "idempotency (w_db w) (actor_id (mc_actor call)) (mc_tool_name call) (mc_idempotency_key call)")
  case (Some p)
  with assms have "\<not> committed" "w' = w" "p = (mc_request_hash call, item')"
    by (auto simp: mutate_body_def svc_simps)
  with Some replay show ?thesis by simp
next
  case None
  with assms obtain item out it d1 w2 w3 dets w4 u where
    f: "find_remindi (w_db w) (env_owner env) (mc_id call) = Inr (Some item)"
    and v: "version item = mc_expected_version call"
    and o: "op item = Inr (it, out)"
    and c: "update_cas (w_db w) it (version item) = Inr (d1, True)"
    and l: "(case op_links out of None \<Rightarrow> slift (Ok ())
             | Some ls \<Rightarrow> db_exec (\<lambda>d. replace_links d it ls)) (w\<lparr>w_db := d1\<rparr>) = (Inr (), w2)"
    and e: "store_evidence env call it now (op_details out) (op_evidence out) w2 = (Inr dets, w3)"
    and a: "append_audit env (mc_actor call) it (op_event out) (Some (version item)) (Some (version it)) dets w3 = (Inr (), w4)"
    and i: "store_idempotency (mc_actor call) (mc_tool_name call) (mc_idempotency_key call)
             (mc_request_hash call) it now w4 = (Inr u, w')"
    and r: "it = item'" "committed"
    by (auto simp: mutate_body_def svc_simps ok_or_eq_Inr split: if_splits)
  have l': "linked_db d1 item' (op_links out) (w_db w2)"
    using l r by (auto simp: linked_db_def svc_simps split: option.splits)
  have e': "\<exists>vs. w_db w3 = (w_db w2)\<lparr>evidence_table := vs\<rparr>"
  proof (cases "op_evidence out")
    case None
    then have "w_db w3 = (w_db w2)\<lparr>evidence_table := evidence_table (w_db w2)\<rparr>"
      using e by (simp add: store_evidence_def svc_simps)
    then show ?thesis ..
  next
    case (Some v)
    with e show ?thesis
      by (fastforce simp: store_evidence_def svc_simps Let_def dest: insert_evidence_frame)
  qed
  have e'': "op_evidence out = None \<Longrightarrow> w_db w3 = w_db w2 \<and> dets = op_details out"
    using e by (auto simp: store_evidence_def svc_simps)
  from a i r(1) obtain d4 where
    ev: "append_event (w_db w3) (audit_event (mc_actor call) item' (op_event out) (Some (version item))
       (Some (version item')) dets (env_ids env (w_ids w3)) (env_clock env (w_clock w3))) = Inr d4"
    and ii: "insert_idempotency d4 (actor_id (mc_actor call)) (mc_tool_name call) (mc_idempotency_key call)
       (mc_request_hash call) item' now (now + idempotency_retention) = Inr (w_db w')"
    by (auto simp: append_audit_eq_Inr dest!: store_idempotency_Ok)
  show ?thesis
    by (rule commit [OF r(2) None f v o [unfolded r(1)] c [unfolded r(1)] l' e' e'' ev ii])
qed

lemma add_body_cases [consumes 1, case_names replay commit]:
  assumes "add_body env a req hash now w = (Inr (item, committed), w')"
  obtains
    (replay) "\<not> committed" "w' = w"
      "idempotency (w_db w) (actor_id a) ''remindi_add'' (ar_idempotency_key req) = Some (hash, item)"
  | (commit) nf i ne d1 d2 d3 dets eid at where "committed"
      "idempotency (w_db w) (actor_id a) ''remindi_add'' (ar_idempotency_key req) = None"
      "initial_next_fire_at (ar_trigger req) now = Inr nf"
      "initial_next_evaluation_at (ar_trigger req) now = Inr ne"
      "i = env_ids env (w_ids w)"
      "item = new_item env req i now nf ne"
      "insert_remindi (w_db w) item = Inr d1"
      "replace_links d1 item (links_of (ar_links req) now) = Inr d2"
      "append_event d2 (audit_event a item E_Created None (Some 1) dets eid at) = Inr d3"
      "insert_idempotency d3 (actor_id a) ''remindi_add'' (ar_idempotency_key req) hash item now
         (now + idempotency_retention) = Inr (w_db w')"
proof (cases "idempotency (w_db w) (actor_id a) ''remindi_add'' (ar_idempotency_key req)")
  case (Some p)
  with assms have "\<not> committed" "w' = w" "p = (hash, item)"
    by (auto simp: add_body_def svc_simps)
  with Some replay show ?thesis by simp
next
  case None
  from assms None obtain nf ne d1 d2 dets w3 w4 u where
    in1: "initial_next_fire_at (ar_trigger req) now = Inr nf"
    and in2: "initial_next_evaluation_at (ar_trigger req) now = Inr ne"
    and it: "item = new_item env req (env_ids env (w_ids w)) now nf ne" and c: committed
    and ins: "insert_remindi (w_db w) item = Inr d1"
    and l: "replace_links d1 item (links_of (ar_links req) now) = Inr d2"
    and au: "append_audit env a item E_Created None (Some 1) dets w3 = (Inr (), w4)" and w3: "w_db w3 = d2"
    and st: "store_idempotency a ''remindi_add'' (ar_idempotency_key req) hash item now w4 = (Inr u, w')"
    by (auto simp: add_body_def svc_simps Let_def)
  from au st w3 obtain d3 where
    ev: "append_event d2 (audit_event a item E_Created None (Some 1) dets (env_ids env (w_ids w3))
        (env_clock env (w_clock w3))) = Inr d3"
    and ii: "insert_idempotency d3 (actor_id a) ''remindi_add'' (ar_idempotency_key req) hash item now
         (now + idempotency_retention) = Inr (w_db w')"
    by (auto simp: append_audit_eq_Inr dest!: store_idempotency_Ok)
  show ?thesis by (rule commit [OF c None in1 in2 refl it ins l ev ii])
qed

text \<open>The events of one evaluation, appended one by one.\<close>

fun append_events :: "remindi_event list \<Rightarrow> db \<Rightarrow> (repository_error, db) res" where
  "append_events [] d = Ok d"
| "append_events (ev # evs) d = rbind (append_event d ev) (append_events evs)"

lemma append_audits_Ok:
  "append_audits env a item prior new dets ets w = (Inr u, w') \<Longrightarrow>
     \<exists>evs. append_events evs (w_db w) = Inr (w_db w') \<and> map event_type evs = ets \<and>
       (\<forall>ev \<in> set evs. event_remindi_id ev = remindi_id item \<and> prior_version ev = prior \<and>
          new_version ev = new)"
proof (induction ets arbitrary: w)
  case Nil
  then show ?case by (intro exI [of _ "[]"]) (simp add: svc_simps)
next
  case (Cons et ets)
  then obtain w1 where au: "append_audit env a item et prior new dets w = (Inr (), w1)"
    and rest: "append_audits env a item prior new dets ets w1 = (Inr u, w')"
    by (auto simp: svc_simps)
  from au obtain ev where ev: "append_event (w_db w) ev = Inr (w_db w1)"
    and evp: "event_type ev = et" "event_remindi_id ev = remindi_id item" "prior_version ev = prior"
      "new_version ev = new"
    by (auto simp: append_audit_eq_Inr audit_event_def)
  from Cons.IH [OF rest] obtain evs where "append_events evs (w_db w1) = Inr (w_db w')"
    "map event_type evs = ets"
    "\<forall>ev \<in> set evs. event_remindi_id ev = remindi_id item \<and> prior_version ev = prior \<and> new_version ev = new"
    by blast
  with ev evp show ?case by (intro exI [of _ "ev # evs"]) simp
qed

lemma append_events_Ok:
  "append_events evs d = Inr d' \<Longrightarrow>
     \<exists>rows. d' = d\<lparr>event_table := event_table d @ rows, last_sequence := last_sequence d + int (length evs)\<rparr>
       \<and> length rows = length evs"
proof (induction evs arbitrary: d)
  case Nil
  then show ?case by simp
next
  case (Cons ev evs)
  then obtain d1 where e: "append_event d ev = Inr d1" and r: "append_events evs d1 = Inr d'"
    by (auto simp: rbind_eq_Inr)
  from e have "d1 = d\<lparr>event_table := event_table d @ [event_row_of d ev], last_sequence := last_sequence d + 1\<rparr>"
    by (rule append_event_Ok(1))
  with Cons.IH [OF r] obtain rows where "length rows = length evs"
    "d' = d\<lparr>event_table := event_table d @ event_row_of d ev # rows,
             last_sequence := last_sequence d + 1 + int (length evs)\<rparr>"
    by auto
  then show ?case by (intro exI [of _ "event_row_of d ev # rows"]) (simp add: algebra_simps)
qed

text \<open>An evaluation is persisted, or the item has moved on and nothing is written.\<close>

lemma persist_evaluated_cases [consumes 1, case_names stale lost commit]:
  assumes "persist_evaluated env a prior candidate rd events ctx detail w = (Inr res, w')"
  obtains
    (stale) "res = None" "w_db w' = w_db w"
  | (lost) current d1 where "res = None"
      "find_remindi (w_db w) (env_owner env) (remindi_id candidate) = Inr (Some current)"
      "version current = version prior"
      "update_cas (w_db w) candidate (version prior) = Inr (d1, False)"
      "w_db w' = d1"
  | (commit) current d1 evs where
      "find_remindi (w_db w) (env_owner env) (remindi_id candidate) = Inr (Some current)"
      "version current = version prior"
      "update_cas (w_db w) candidate (version prior) = Inr (d1, True)"
      "append_events evs d1 = Inr (w_db w')" "map event_type evs = events"
      "\<forall>ev \<in> set evs. event_remindi_id ev = remindi_id candidate \<and>
         prior_version ev = Some (version prior) \<and> new_version ev = Some (version candidate)"
      "res = map_option (\<lambda>r. \<lparr>ci_remindi = candidate, ci_readiness = r\<rparr>) rd"
proof -
  from assms obtain current where
    f: "find_remindi (w_db w) (env_owner env) (remindi_id candidate) = Inr (Some current)"
    and r: "(if version current \<noteq> version prior then slift (Ok None)
       else sbind (db_write (\<lambda>d. update_cas d candidate (version prior))) (\<lambda>won.
         if \<not> won then slift (Ok None)
         else sbind (append_audits env a candidate (Some (version prior)) (Some (version candidate))
                 (event_details ctx candidate detail) events) (\<lambda>_.
           slift (Ok (map_option (\<lambda>r. \<lparr>ci_remindi = candidate, ci_readiness = r\<rparr>) rd))))) w = (Inr res, w')"
    by (auto simp: persist_evaluated_def svc_simps ok_or_eq_Inr)
  show ?thesis
  proof (cases "version current = version prior")
    case False
    with r stale show ?thesis by (simp add: svc_simps)
  next
    case True
    with r obtain won d1 where c: "update_cas (w_db w) candidate (version prior) = Inr (d1, won)"
      and r1: "(if \<not> won then slift (Ok None)
         else sbind (append_audits env a candidate (Some (version prior)) (Some (version candidate))
                 (event_details ctx candidate detail) events) (\<lambda>_.
           slift (Ok (map_option (\<lambda>r. \<lparr>ci_remindi = candidate, ci_readiness = r\<rparr>) rd)))) (w\<lparr>w_db := d1\<rparr>)
         = (Inr res, w')"
      by (auto simp: svc_simps)
    show ?thesis
    proof (cases won)
      case False
      with r1 c lost [OF _ f True] show ?thesis by (simp add: svc_simps)
    next
      case w: True
      with r1 have res: "res = map_option (\<lambda>r. \<lparr>ci_remindi = candidate, ci_readiness = r\<rparr>) rd"
        and au: "append_audits env a candidate (Some (version prior)) (Some (version candidate))
           (event_details ctx candidate detail) events (w\<lparr>w_db := d1\<rparr>) = (Inr (), w')"
        by (auto simp: svc_simps)
      have c': "update_cas (w_db w) candidate (version prior) = Inr (d1, True)" using c w by simp
      from append_audits_Ok [OF au] commit [OF f True c' _ _ _ res] show ?thesis by auto
    qed
  qed
qed

section \<open>Failure leaves no trace\<close>

lemma atomic_mutate: "atomic (mutate env call op)"
  unfolding mutate_def by (intro atomic_bind atomic_transaction ro_intros)

lemma atomic_add: "atomic (add env a req)"
  unfolding add_def by (intro atomic_bind atomic_transaction ro_intros)

lemma atomic_commands:
  "atomic (complete env a cr skew)" "atomic (snooze env a sr horizon)" "atomic (cancel env a xr)"
  "atomic (update env a ur)"
  unfolding complete_def snooze_def cancel_def update_def
  by (intro atomic_bind atomic_mutate ro_intros)+

lemma reads_only_queries [ro_intros]:
  "reads_only (list_items env a lr)" "reads_only (get_item env a i)"
  "reads_only (check_plan env a kr)" "reads_only (scheduler_candidates_of env now limit)"
  unfolding list_items_def get_item_def check_plan_def scheduler_candidates_of_def Let_def
  by (intro ro_intros | clarsimp split: prod.split)+

lemma reads_only_history [ro_intros]: "reads_only (history env a hr)"
  unfolding history_def Let_def by (intro ro_intros | clarsimp split: prod.split)+

lemma atomic_check_apply: "atomic (check_apply env a plan)"
  unfolding check_apply_def
  by (cases plan) (auto intro!: atomic_bind_final atomic_transaction atomic_slift ro_intros)

lemma atomic_check: "atomic (check env a kr)"
  unfolding check_def by (intro atomic_bind atomic_check_apply ro_intros)

lemma atomic_evaluate_one: "atomic (evaluate_one env a prior now ctx c detail)"
  unfolding evaluate_one_def Let_def
  by (auto intro!: atomic_bind atomic_transaction atomic_slift ro_intros split: prod.split)

lemma atomic_scheduler: "atomic (apply_scheduler_evaluation env a candidate now c detail)"
  unfolding apply_scheduler_evaluation_def by (intro atomic_bind_final atomic_evaluate_one) auto

end
