(* ===== verification/Guarantees.thy ===== *)
theory Guarantees
  imports Transactions "HOL-Library.Sublist"
begin

text \<open>
  The database invariant \<open>db_wf\<close> and the history order \<open>db_extends\<close>, and that every handler keeps
  the one and only moves up the other. \<open>db_extends\<close> is the rely and guarantee condition of
  concurrent handlers: whatever happened between a handler's reading and its transaction, an item
  of an unchanged version is an unchanged item.
\<close>

section \<open>The invariant\<close>

text \<open>Event sequence numbers grow; an event never names a version its item has not reached.\<close>

definition events_wf :: "db \<Rightarrow> bool" where
  "events_wf d \<longleftrightarrow>
     sorted_wrt (<) (map e_sequence (event_table d)) \<and>
     (\<forall>e \<in> set (event_table d). e_sequence e \<le> last_sequence d) \<and>
     distinct (map e_event_id (event_table d)) \<and>
     (\<forall>e \<in> set (event_table d). \<forall>v. e_new_version e = Some v \<longrightarrow>
        (\<exists>row \<in> set (remindi_table d). c_id row = e_remindi_id e \<and> v \<le> c_version row))"

definition has_event :: "db \<Rightarrow> uuid \<Rightarrow> int \<Rightarrow> bool" where
  "has_event d i v \<longleftrightarrow> (\<exists>e \<in> set (event_table d). e_remindi_id e = i \<and> e_new_version e = Some v)"

text \<open>Every version an item has had is the new version of an event.\<close>

definition audited :: "db \<Rightarrow> bool" where
  "audited d \<longleftrightarrow> (\<forall>row \<in> set (remindi_table d). \<forall>v. 1 \<le> v \<longrightarrow> v \<le> c_version row \<longrightarrow> has_event d (c_id row) v)"

text \<open>A stored response is of an item that exists, in a version it has reached; keys are unique.\<close>

definition responses_wf :: "db \<Rightarrow> bool" where
  "responses_wf d \<longleftrightarrow>
     distinct (map (\<lambda>r. (i_actor_id r, i_tool_name r, i_key r)) (idempotency_table d)) \<and>
     (\<forall>r \<in> set (idempotency_table d). \<exists>row \<in> set (remindi_table d).
        c_id row = i_remindi_id r \<and> uint (version (i_response r)) \<le> c_version row)"

definition db_wf :: "db \<Rightarrow> bool" where
  "db_wf d \<longleftrightarrow> items_wf d \<and> events_wf d \<and> audited d \<and> responses_wf d"

text \<open>Between the write of an item and the append of its event, one event is missing.\<close>

definition audit_pending :: "db \<Rightarrow> uuid \<Rightarrow> int \<Rightarrow> bool" where
  "audit_pending d i v \<longleftrightarrow> items_wf d \<and> events_wf d \<and> responses_wf d \<and>
     (\<exists>row \<in> set (remindi_table d). c_id row = i \<and> v \<le> c_version row) \<and>
     (\<forall>row \<in> set (remindi_table d). \<forall>v'. 1 \<le> v' \<longrightarrow> v' \<le> c_version row \<longrightarrow>
        (c_id row, v') \<noteq> (i, v) \<longrightarrow> has_event d (c_id row) v')"

section \<open>The history order\<close>

definition item_extends :: "remindi \<Rightarrow> remindi \<Rightarrow> bool" where
  "item_extends a b \<longleftrightarrow> a = b \<or>
     (same_identity a b \<and> uint (version a) < uint (version b) \<and> is_active (state a))"

definition db_extends :: "db \<Rightarrow> db \<Rightarrow> bool" where
  "db_extends d d' \<longleftrightarrow>
     (\<forall>i item. store_view d i = Some item \<longrightarrow> (\<exists>item'. store_view d' i = Some item' \<and> item_extends item item')) \<and>
     prefix (event_table d) (event_table d') \<and>
     prefix (idempotency_table d) (idempotency_table d')"

lemma item_extends_trans: "item_extends a b \<Longrightarrow> item_extends b c \<Longrightarrow> item_extends a c"
  unfolding item_extends_def using same_identity_trans by fastforce

lemma db_extends_refl [simp]: "db_extends d d"
  by (auto simp: db_extends_def item_extends_def)

lemma db_extends_trans:
  assumes "db_extends a b" and "db_extends b c"
  shows "db_extends a c"
proof -
  have "\<exists>item'. store_view c i = Some item' \<and> item_extends item item'" if "store_view a i = Some item" for i item
    using assms that unfolding db_extends_def by (meson item_extends_trans)
  with assms show ?thesis unfolding db_extends_def by (auto intro: prefix_order.trans)
qed

text \<open>An entry of an unchanged version is unchanged.\<close>

lemma extends_same_version:
  assumes "db_extends d d'" and "store_view d i = Some a" and "store_view d' i = Some b"
    and "version b = version a"
  shows "b = a"
  using assms by (fastforce simp: db_extends_def item_extends_def)

lemma extends_terminal:
  assumes "db_extends d d'" and "store_view d i = Some a" and "is_terminal (state a)"
  shows "store_view d' i = Some a"
  using assms by (fastforce simp: db_extends_def item_extends_def is_active_iff_not_terminal)

section \<open>Statements and the invariant\<close>

lemma has_event_append:
  "has_event (d\<lparr>event_table := event_table d @ [e], last_sequence := n\<rparr>) i v \<longleftrightarrow>
     has_event d i v \<or> (e_remindi_id e = i \<and> e_new_version e = Some v)"
  by (auto simp: has_event_def)

lemma append_event_pending:
  assumes p: "audit_pending d i v" and a: "append_event d ev = Inr d'"
    and e: "event_remindi_id ev = i" "new_version ev = Some w" "uint w = v"
  shows "db_wf d'"
proof -
  note d' = append_event_Ok [OF a]
  have "events_wf d'"
    using p d'(3) e
    by (force simp: d'(1) audit_pending_def events_wf_def event_row_of_def sorted_wrt_append)
  moreover have "audited d'"
    using p e unfolding audited_def d'(1) has_event_append
    by (auto simp: audit_pending_def event_row_of_def) metis
  moreover have "items_wf d'" "responses_wf d'"
    using p by (simp_all add: d'(1) audit_pending_def responses_wf_def)
  ultimately show ?thesis by (simp add: db_wf_def)
qed

lemma db_wf_pending:
  "db_wf d \<Longrightarrow> row \<in> set (remindi_table d) \<Longrightarrow> c_id row = i \<Longrightarrow> v \<le> c_version row \<Longrightarrow> audit_pending d i v"
  by (auto simp: db_wf_def audit_pending_def audited_def)

lemma append_event_tables:
  "append_event d ev = Inr d' \<Longrightarrow> remindi_table d' = remindi_table d \<and> idempotency_table d' = idempotency_table d
     \<and> prefix (event_table d) (event_table d')"
  using append_event_Ok(1) by force

lemma append_events_pending:
  assumes "audit_pending d i v" and "append_events evs d = Inr d'" and "evs \<noteq> []"
    and "\<forall>ev \<in> set evs. event_remindi_id ev = i \<and> new_version ev = Some w" and "uint w = v"
  shows "db_wf d'"
  using assms
proof (induction evs arbitrary: d)
  case (Cons ev evs)
  then obtain d1 where a: "append_event d ev = Inr d1" and r: "append_events evs d1 = Inr d'"
    by (auto simp: rbind_eq_Inr)
  have wf: "db_wf d1" using append_event_pending [OF Cons.prems(1) a] Cons.prems(4,5) by simp
  show ?case
  proof (cases "evs = []")
    case True
    with r wf show ?thesis by simp
  next
    case False
    obtain row where "row \<in> set (remindi_table d)" "c_id row = i" "v \<le> c_version row"
      using Cons.prems(1) by (auto simp: audit_pending_def)
    then have "audit_pending d1 i v"
      using db_wf_pending [OF wf] append_event_tables [OF a] by simp
    with Cons.IH [OF _ r False] Cons.prems(4,5) show ?thesis by simp
  qed
qed simp

lemma frame_pending [simp]:
  "audit_pending (d\<lparr>link_table := ks\<rparr>) i v = audit_pending d i v"
  "audit_pending (d\<lparr>evidence_table := vs\<rparr>) i v = audit_pending d i v"
  by (simp_all add: audit_pending_def events_wf_def responses_wf_def has_event_def)

lemma insert_idempotency_wf:
  assumes "db_wf d" and ins: "insert_idempotency d aid tool key hash response created expires = Inr d'"
    and "row \<in> set (remindi_table d)" "c_id row = remindi_id response" "uint (version response) \<le> c_version row"
  shows "db_wf d'"
proof -
  note d' = insert_idempotency_Ok [OF ins]
  have "items_wf d'" "events_wf d'" "audited d'"
    using assms(1) by (simp_all add: d'(1) db_wf_def events_wf_def audited_def has_event_def)
  moreover have "responses_wf d'"
    using assms(1,3-5) d'(2)
    by (auto simp: d'(1) db_wf_def responses_wf_def idempotency_def find_None_iff)
  ultimately show ?thesis by (simp add: db_wf_def)
qed

section \<open>The write of an item\<close>

lemma version_step:
  assumes "storable item'" and "version item' = version (item :: remindi) + 1" and "storable item"
  shows "uint (version item') = uint (version item) + 1"
  using assms by (simp add: storable_def counters_ok_def i64_max_def uint_add_one)

lemma update_cas_row:
  "update_cas d item n = Inr (d', won) \<Longrightarrow> \<exists>row. row_of item = Inr row"
  by (auto simp: update_cas_def rbind_eq_Inr)

text \<open>Rows that only move forward keep the events and the responses well formed.\<close>

definition rows_grow :: "db \<Rightarrow> db \<Rightarrow> bool" where
  "rows_grow d d' \<longleftrightarrow> (\<forall>row \<in> set (remindi_table d). \<exists>row' \<in> set (remindi_table d').
     c_id row' = c_id row \<and> c_version row \<le> c_version row')"

lemma rows_grow_wf:
  assumes "rows_grow d d'" and "event_table d' = event_table d" "last_sequence d' = last_sequence d"
    and "idempotency_table d' = idempotency_table d"
  shows "events_wf d \<Longrightarrow> events_wf d'" and "responses_wf d \<Longrightarrow> responses_wf d'"
proof -
  have grow: "\<exists>row' \<in> set (remindi_table d'). c_id row' = i \<and> v \<le> c_version row'"
    if "\<exists>row \<in> set (remindi_table d). c_id row = i \<and> v \<le> c_version row" for i v
    using assms(1) that unfolding rows_grow_def by fastforce
  show "events_wf d \<Longrightarrow> events_wf d'" using grow unfolding events_wf_def assms(2,3) by blast
  show "responses_wf d \<Longrightarrow> responses_wf d'" using grow unfolding responses_wf_def assms(4) by blast
qed

text \<open>A candidate computed from the stored item, one version later.\<close>

definition successor :: "remindi \<Rightarrow> remindi \<Rightarrow> bool" where
  "successor r r' \<longleftrightarrow> same_identity r r' \<and> version r' = version r + 1 \<and> item_wf r' \<and>
     (trigger_serializable (trigger r') \<longrightarrow> times_low r') \<and> is_active (state r)"

lemma update_cas_step:
  assumes wf: "db_wf d" and r: "store_view d (remindi_id r') = Some r" and s: "successor r r'"
    and upd: "update_cas d r' n = Inr (d', True)"
  shows "version r = n"
    and "audit_pending d' (remindi_id r') (uint (version r'))"
    and "store_view d' = (store_view d)(remindi_id r' \<mapsto> stored r')"
    and "item_extends r (stored r')"
    and "event_table d' = event_table d \<and> idempotency_table d' = idempotency_table d"
    and "columns r' \<in> set (remindi_table d')"
proof -
  have iwf: "items_wf d" using wf by (simp add: db_wf_def)
  note rv = store_view_row [OF iwf r]
  obtain row where row: "row_of r' = Inr row" using update_cas_row [OF upd] by blast
  then have st: "storable r'"
    using row_of_storable_iff [OF row] row_of_trigger [OF row] s by (simp add: successor_def)
  have id: "same_identity r r'" and iw: "item_wf r'" using s by (simp_all add: successor_def)
  note u = update_cas_refines [OF iwf r id iw st upd]
  show "version r = n" using u(1) by simp
  show "store_view d' = (store_view d)(remindi_id r' \<mapsto> stored r')" using u(2) by simp
  have step: "uint (version r') = uint (version r) + 1"
    using version_step [OF st _ rv(2)] s by (simp add: successor_def)
  have "created_at (stored r') = created_at r"
    using id arg_cong [OF rv(4), of created_at] by (simp add: stored_def same_identity_def)
  then show "item_extends r (stored r')"
    using s step by (simp add: item_extends_def successor_def same_identity_def stored_def)
  have d': "d' = d\<lparr>remindi_table := map (\<lambda>old. if old = columns r then columns r' else old) (remindi_table d)\<rparr>"
    using u(4) by simp
  then show "event_table d' = event_table d \<and> idempotency_table d' = idempotency_table d" by simp
  have rr: "columns r \<in> set (remindi_table d)" "remindi_id r = remindi_id r'"
    using r iwf by (simp_all add: store_view_iff)
  then show cr: "columns r' \<in> set (remindi_table d')" by (force simp: d')
  have img: "set (remindi_table d') = insert (columns r') (set (remindi_table d) - {columns r})"
    using rr by (auto simp: d')
  have "rows_grow d d'"
    unfolding rows_grow_def
  proof
    fix row assume "row \<in> set (remindi_table d)"
    then show "\<exists>row' \<in> set (remindi_table d'). c_id row' = c_id row \<and> c_version row \<le> c_version row'"
      using rr step by (cases "row = columns r") (auto simp: img)
  qed
  from rows_grow_wf [OF this] wf have "events_wf d'" "responses_wf d'"
    by (simp_all add: d' db_wf_def)
  moreover have "has_event d' (c_id row) v"
    if "row \<in> set (remindi_table d')" "1 \<le> v" "v \<le> c_version row"
      "(c_id row, v) \<noteq> (remindi_id r', uint (version r'))" for row v
  proof -
    have "\<exists>row0 \<in> set (remindi_table d). c_id row0 = c_id row \<and> v \<le> c_version row0"
    proof (cases "row = columns r'")
      case True
      then show ?thesis using that rr step by (intro bexI [of _ "columns r"]) auto
    next
      case False
      then show ?thesis using that img by auto
    qed
    with wf that(2) show ?thesis by (auto simp: db_wf_def audited_def has_event_def d')
  qed
  ultimately show "audit_pending d' (remindi_id r') (uint (version r'))"
    using u(3) cr by (force simp: audit_pending_def)
qed

lemma update_cas_wins:
  assumes wf: "db_wf d" and r: "store_view d (remindi_id r') = Some r" and s: "successor r r'"
    and upd: "update_cas d r' (version r) = Inr (d', won)"
  shows won
proof -
  have iwf: "items_wf d" using wf by (simp add: db_wf_def)
  obtain row where row: "row_of r' = Inr row" using update_cas_row [OF upd] by blast
  then have "storable r'"
    using row_of_storable_iff [OF row] row_of_trigger [OF row] s by (simp add: successor_def)
  with update_cas_refines(1) [OF iwf r _ _ _ upd] s show ?thesis by (simp add: successor_def)
qed

text \<open>The insertion of a new item in version 1.\<close>

lemma insert_step:
  assumes wf: "db_wf d" and ins: "insert_remindi d item = Inr d'" and iw: "item_wf item"
    and low: "trigger_serializable (trigger item) \<longrightarrow> times_low item" and v: "version item = 1"
  shows "audit_pending d' (remindi_id item) 1"
    and "store_view d (remindi_id item) = None"
    and "store_view d' = (store_view d)(remindi_id item \<mapsto> stored item)"
    and "event_table d' = event_table d \<and> idempotency_table d' = idempotency_table d"
    and "columns item \<in> set (remindi_table d')"
    and "storable item"
proof -
  have iwf: "items_wf d" using wf by (simp add: db_wf_def)
  obtain row where row: "row_of item = Inr row" using ins by (auto simp: insert_remindi_def rbind_eq_Inr)
  then show st: "storable item"
    using row_of_storable_iff [OF row] row_of_trigger [OF row] low by simp
  note u = insert_remindi_refines [OF iwf ins iw st]
  show "store_view d (remindi_id item) = None"
    and "store_view d' = (store_view d)(remindi_id item \<mapsto> stored item)"
    by (rule u)+
  note d' = u(4)
  show "event_table d' = event_table d \<and> idempotency_table d' = idempotency_table d"
    and "columns item \<in> set (remindi_table d')" by (simp_all add: d')
  have "rows_grow d d'" by (auto simp: rows_grow_def d')
  from rows_grow_wf [OF this] wf have "events_wf d'" "responses_wf d'"
    by (simp_all add: d' db_wf_def)
  moreover have "has_event d' (c_id row) k"
    if "row \<in> set (remindi_table d')" "1 \<le> k" "k \<le> c_version row" "(c_id row, k) \<noteq> (remindi_id item, 1)" for row k
    using that wf v by (auto simp: d' db_wf_def audited_def has_event_def)
  ultimately show "audit_pending d' (remindi_id item) 1"
    using u(3) v by (fastforce simp: audit_pending_def d')
qed

section \<open>Handlers\<close>

text \<open>What a step of the service promises: the invariant is kept and history only grows.\<close>

definition good_step :: "db \<Rightarrow> db \<Rightarrow> bool" where
  "good_step d d' \<longleftrightarrow> db_wf d' \<and> db_extends d d'"

lemma good_step_refl: "db_wf d \<Longrightarrow> good_step d d"
  by (simp add: good_step_def)

lemma good_step_trans: "good_step a b \<Longrightarrow> good_step b c \<Longrightarrow> good_step a c"
  unfolding good_step_def using db_extends_trans by blast

lemma extends_update:
  assumes "store_view d i = Some r" and "store_view d' = (store_view d)(i \<mapsto> r')" and "item_extends r r'"
    and "prefix (event_table d) (event_table d')" and "prefix (idempotency_table d) (idempotency_table d')"
  shows "db_extends d d'"
  using assms by (auto simp: db_extends_def item_extends_def)

lemma extends_insert:
  assumes "store_view d i = None" and "store_view d' = (store_view d)(i \<mapsto> r')"
    and "prefix (event_table d) (event_table d')" and "prefix (idempotency_table d) (idempotency_table d')"
  shows "db_extends d d'"
  using assms by (auto simp: db_extends_def item_extends_def)

lemma find_remindi_view:
  assumes "items_wf d" and "find_remindi d owner i = Inr (Some item)"
  shows "store_view d i = Some item" and "owner_id item = owner"
  using assms by (auto simp: find_row_view split: option.splits if_splits)

lemma linked_db_frame: "linked_db d item ls d' \<Longrightarrow> \<exists>ks. d' = d\<lparr>link_table := ks\<rparr>"
proof (cases ls)
  case None
  moreover assume "linked_db d item ls d'"
  ultimately have "d' = d\<lparr>link_table := link_table d\<rparr>" by (simp add: linked_db_def)
  then show ?thesis ..
qed (auto simp: linked_db_def dest: replace_links_frame)

text \<open>What a committed mutation did to the database, for any closure with the contract.\<close>

definition mutated :: "env \<Rightarrow> mutation_call \<Rightarrow> operation \<Rightarrow> db \<Rightarrow> remindi \<Rightarrow> db \<Rightarrow> bool" where
  "mutated env call op d item' d' \<longleftrightarrow> (\<exists>item out e.
     store_view d (mc_id call) = Some item \<and> owner_id item = env_owner env \<and>
     version item = mc_expected_version call \<and> op item = Inr (item', out) \<and>
     uint (version item') = uint (version item) + 1 \<and>
     store_view d' = (store_view d)(mc_id call \<mapsto> stored item') \<and>
     event_table d' = event_table d @ [e] \<and> e_remindi_id e = mc_id call \<and>
     e_event_type e = event_type_name (op_event out) \<and>
     e_prior_version e = Some (uint (version item)) \<and> e_new_version e = Some (uint (version item')) \<and>
     e_actor_id e = actor_id (mc_actor call) \<and>
     idempotency d' (actor_id (mc_actor call)) (mc_tool_name call) (mc_idempotency_key call)
       = Some (mc_request_hash call, item') \<and>
     prefix (idempotency_table d) (idempotency_table d'))"

context mutation_closure
begin

lemma op_successor:
  assumes "op r = Inr (r', out)" and "item_wf r" and "storable r" and "year_zero \<le> at"
  shows "successor r r'" and "remindi_id r' = remindi_id r"
proof -
  have "times_low r" using assms(3) times_ok_low by (simp add: storable_def)
  then show "successor r r'"
    using assms keeps_identity bumps_version keeps_wf keeps_times active_only
    by (simp add: successor_def)
  show "remindi_id r' = remindi_id r" using same_owner [OF assms(1)] by simp
qed

lemma mutate_body_commit:
  assumes wf: "db_wf (w_db w)" and at: "year_zero \<le> at"
    and run: "mutate_body env call op now w = (Inr (item', True), w')"
  shows "db_wf (w_db w')" and "db_extends (w_db w) (w_db w')"
    and "mutated env call op (w_db w) item' (w_db w')"
proof -
  have "db_wf (w_db w') \<and> db_extends (w_db w) (w_db w') \<and> mutated env call op (w_db w) item' (w_db w')"
  using run
  proof (cases rule: mutate_body_cases)
  case (commit item out d1 d2 d3 d4 dets eid t)
  have iwf: "items_wf (w_db w)" using wf by (simp add: db_wf_def)
  note v = find_remindi_view [OF iwf commit(3)]
  note rw = store_view_row [OF iwf v(1)]
  note suc = op_successor [OF commit(5) rw(1,2) at]
  have idm: "remindi_id item' = mc_id call" using suc(2) rw(3) by simp
  note s = update_cas_step [OF wf _ suc(1) commit(6)]
  from linked_db_frame [OF commit(7)] obtain ks where d2: "d2 = d1\<lparr>link_table := ks\<rparr>" by blast
  from commit(8) obtain vs where d3: "d3 = d2\<lparr>evidence_table := vs\<rparr>" by blast
  have st: "store_view (w_db w) (remindi_id item') = Some item" using v(1) idm by simp
  have p: "audit_pending d3 (remindi_id item') (uint (version item'))"
    using s(2) [OF st] by (simp add: d2 d3)
  have wf4: "db_wf d4" by (rule append_event_pending [OF p commit(10)]) (simp_all add: audit_event_def)
  note d4 = append_event_Ok(1) [OF commit(10)]
  have col: "columns item' \<in> set (remindi_table d4)" using s(6) [OF st] by (simp add: d4 d3 d2)
  have wf': "db_wf (w_db w')" by (rule insert_idempotency_wf [OF wf4 commit(11) col]) simp_all
  note dn = insert_idempotency_Ok(1) [OF commit(11)]
  have view: "store_view (w_db w') = (store_view (w_db w))(remindi_id item' \<mapsto> stored item')"
    using s(3) [OF st] by (simp add: dn d4 d3 d2)
  have ev: "event_table (w_db w') = event_table (w_db w) @ [event_row_of d3 (audit_event (mc_actor call)
      item' (op_event out) (Some (version item)) (Some (version item')) dets eid t)]"
    and idp: "prefix (idempotency_table (w_db w)) (idempotency_table (w_db w'))"
    using s(5) [OF st] by (simp_all add: dn d4 d3 d2)
  have ext: "db_extends (w_db w) (w_db w')"
    by (rule extends_update [OF st view s(4) [OF st] _ idp]) (simp add: ev)
  have "storable item'"
    using suc(1) update_cas_row [OF commit(6)] row_of_storable_iff row_of_trigger
    by (fastforce simp: successor_def)
  then have ver: "uint (version item') = uint (version item) + 1"
    using version_step rw(2) bumps_version [OF commit(5)] by blast
  have "mutated env call op (w_db w) item' (w_db w')"
    unfolding mutated_def
    using v commit(4,5) ver view idm ev idp idempotency_stored [OF commit(11)]
    by (auto simp: event_row_of_def audit_event_def)
  with wf' ext show ?thesis by simp
  qed simp_all
  then show "db_wf (w_db w')" and "db_extends (w_db w) (w_db w')"
    and "mutated env call op (w_db w) item' (w_db w')" by simp_all
qed

lemma mutate_good:
  assumes wf: "db_wf (w_db w)" and at: "year_zero \<le> at" and run: "mutate env call op w = (res, w')"
  shows "good_step (w_db w) (w_db w')"
proof (cases res)
  case (Inl e)
  with run have "w_db w' = w_db w" using atomic_mutate unfolding atomic_def by blast
  with wf show ?thesis by (simp add: good_step_refl)
next
  case (Inr item')
  define w0 where "w0 = w\<lparr>w_clock := w_clock w + 1\<rparr>"
  from run Inr obtain now where "transaction env (mutate_body env call op now) w0 = (Inr item', w')"
    by (auto simp: mutate_def svc_simps w0_def simp del: transaction_eq_Inr)
  then obtain c w1 w2 where "w_db w1 = w_db w"
    and b: "mutate_body env call op now w1 = (Inr (item', c), w2)"
    and w': "w_db w' = (if c then w_db w2 else w_db w)"
    by (rule transaction_Ok) (simp add: w0_def)
  with mutate_body_commit [of w1 env call now item' w2] wf at show ?thesis
    by (cases c) (simp_all add: good_step_def)
qed

end

subsection \<open>The mutation handlers\<close>

text \<open>The system clock reads a date that RFC 3339 can express.\<close>

definition clock_ok :: "env \<Rightarrow> bool" where
  "clock_ok env \<longleftrightarrow> (\<forall>n. rfc3339_ok (env_clock env n))"

lemma clock_ok_low: "clock_ok env \<Longrightarrow> year_zero \<le> env_clock env n"
  by (simp add: clock_ok_def rfc3339_ok_low)

lemma good_step_fail:
  "atomic m \<Longrightarrow> db_wf (w_db w) \<Longrightarrow> m w = (Inl e, w') \<Longrightarrow> good_step (w_db w) (w_db w')"
  unfolding atomic_def by (metis good_step_refl)

lemma handlers_good:
  assumes "db_wf (w_db w)" and "clock_ok env"
  shows "complete env a cr skew w = (res, w') \<Longrightarrow> good_step (w_db w) (w_db w')"
    and "snooze env a sr horizon w = (res, w') \<Longrightarrow> good_step (w_db w) (w_db w')"
    and "cancel env a xr w = (res, w') \<Longrightarrow> good_step (w_db w) (w_db w')"
    and "update env a ur w = (res, w') \<Longrightarrow> good_step (w_db w) (w_db w')"
proof -
  note low = clock_ok_low [OF assms(2)]
  let ?w = "w\<lparr>w_clock := w_clock w + 1\<rparr>"
  have wf: "db_wf (w_db ?w)" using assms(1) by simp
  show "complete env a cr skew w = (res, w') \<Longrightarrow> good_step (w_db w) (w_db w')"
  proof (cases res)
    case (Inr x)
    assume "complete env a cr skew w = (res, w')"
    with Inr complete_closure.mutate_good [OF wf low] show ?thesis
      by (auto simp: complete_def svc_simps)
  qed (rule good_step_fail [OF atomic_commands(1) assms(1)], simp)
  show "snooze env a sr horizon w = (res, w') \<Longrightarrow> good_step (w_db w) (w_db w')"
  proof (cases res)
    case (Inr x)
    assume "snooze env a sr horizon w = (res, w')"
    with Inr snooze_closure.mutate_good [OF wf low] show ?thesis
      by (auto simp: snooze_def svc_simps)
  qed (rule good_step_fail [OF atomic_commands(2) assms(1)], simp)
  show "cancel env a xr w = (res, w') \<Longrightarrow> good_step (w_db w) (w_db w')"
  proof (cases res)
    case (Inr x)
    assume "cancel env a xr w = (res, w')"
    with Inr cancel_closure.mutate_good [OF wf low] show ?thesis
      by (auto simp: cancel_def svc_simps)
  qed (rule good_step_fail [OF atomic_commands(3) assms(1)], simp)
  show "update env a ur w = (res, w') \<Longrightarrow> good_step (w_db w) (w_db w')"
  proof (cases res)
    case (Inr x)
    assume "update env a ur w = (res, w')"
    with Inr update_closure.mutate_good [OF wf low] show ?thesis
      by (auto simp: update_def svc_simps)
  qed (rule good_step_fail [OF atomic_commands(4) assms(1)], simp)
qed

subsection \<open>Add\<close>

lemma new_item_wf [simp]: "item_wf (new_item env req i now nf ne)"
  by (simp add: new_item_def item_wf_defs)

lemma new_item_simps [simp]:
  "remindi_id (new_item env req i now nf ne) = i" "version (new_item env req i now nf ne) = 1"
  "trigger (new_item env req i now nf ne) = ar_trigger req"
  "state (new_item env req i now nf ne) = Scheduled" "owner_id (new_item env req i now nf ne) = env_owner env"
  by (simp_all add: new_item_def)

lemma new_item_times:
  assumes "initial_next_fire_at (ar_trigger req) now = Inr nf"
    and "initial_next_evaluation_at (ar_trigger req) now = Inr ne" and "year_zero \<le> now"
    and "trigger_serializable (ar_trigger req)"
  shows "times_low (new_item env req i now nf ne)"
  using initial_fire_low [OF assms(4,1,3)] initial_evaluation_low [OF assms(4,2,3)] assms(3)
  by (simp add: new_item_def times_low_def)

definition added :: "env \<Rightarrow> actor \<Rightarrow> add_request \<Rightarrow> digest \<Rightarrow> db \<Rightarrow> remindi \<Rightarrow> db \<Rightarrow> bool" where
  "added env a req hash d item d' \<longleftrightarrow> (\<exists>e.
     store_view d (remindi_id item) = None \<and>
     store_view d' = (store_view d)(remindi_id item \<mapsto> stored item) \<and>
     owner_id item = env_owner env \<and> state item = Scheduled \<and> version item = 1 \<and>
     trigger item = ar_trigger req \<and> message item = ar_message req \<and>
     event_table d' = event_table d @ [e] \<and> e_remindi_id e = remindi_id item \<and>
     e_event_type e = ''created'' \<and> e_prior_version e = None \<and> e_new_version e = Some 1 \<and>
     idempotency d' (actor_id a) ''remindi_add'' (ar_idempotency_key req) = Some (hash, item) \<and>
     prefix (idempotency_table d) (idempotency_table d'))"

lemma add_body_commit:
  assumes wf: "db_wf (w_db w)" and now: "year_zero \<le> now"
    and run: "add_body env a req hash now w = (Inr (item, True), w')"
  shows "db_wf (w_db w')" and "db_extends (w_db w) (w_db w')"
    and "added env a req hash (w_db w) item (w_db w')"
proof -
  have "db_wf (w_db w') \<and> db_extends (w_db w) (w_db w') \<and> added env a req hash (w_db w) item (w_db w')"
  using run
  proof (cases rule: add_body_cases)
  case (commit nf i ne d1 d2 d3 dets eid t)
  note it = commit(6)
  have "item_wf item" "version item = 1" and low: "trigger_serializable (trigger item) \<longrightarrow> times_low item"
    using new_item_times [OF commit(3,4) now] by (simp_all add: it)
  note s = insert_step [OF wf commit(7) this(1) low this(2)]
  from replace_links_frame [OF commit(8)] obtain ks where d2: "d2 = d1\<lparr>link_table := ks\<rparr>" by blast
  have p: "audit_pending d2 (remindi_id item) 1" using s(1) by (simp add: d2)
  have wf3: "db_wf d3"
    by (rule append_event_pending [where w = 1, OF p commit(9)]) (simp_all add: audit_event_def)
  note d3 = append_event_Ok(1) [OF commit(9)]
  have col: "columns item \<in> set (remindi_table d3)" using s(5) by (simp add: d3 d2)
  have wf': "db_wf (w_db w')" by (rule insert_idempotency_wf [OF wf3 commit(10) col]) simp_all
  note dn = insert_idempotency_Ok(1) [OF commit(10)]
  have view: "store_view (w_db w') = (store_view (w_db w))(remindi_id item \<mapsto> stored item)"
    using s(3) by (simp add: dn d3 d2)
  have ev: "event_table (w_db w') = event_table (w_db w) @ [event_row_of d2 (audit_event a item E_Created None (Some 1) dets eid t)]"
    and idp: "prefix (idempotency_table (w_db w)) (idempotency_table (w_db w'))"
    using s(4) by (simp_all add: dn d3 d2)
  have ext: "db_extends (w_db w) (w_db w')"
    by (rule extends_insert [OF s(2) view _ idp]) (simp add: ev)
  have "added env a req hash (w_db w) item (w_db w')"
    unfolding added_def using s(2) view ev idp idempotency_stored [OF commit(10)]
    by (simp add: event_row_of_def audit_event_def) (simp add: it new_item_def)
  with wf' ext show ?thesis by simp
  qed simp_all
  then show "db_wf (w_db w')" and "db_extends (w_db w) (w_db w')"
    and "added env a req hash (w_db w) item (w_db w')" by simp_all
qed

lemma add_good:
  assumes wf: "db_wf (w_db w)" and clk: "clock_ok env" and run: "add env a request w = (res, w')"
  shows "good_step (w_db w) (w_db w')"
proof (cases res)
  case (Inl e)
  with run show ?thesis by (simp add: good_step_fail [OF atomic_add wf])
next
  case (Inr item)
  define w0 where "w0 = w\<lparr>w_clock := w_clock w + 1\<rparr>"
  from run Inr obtain req hash now where low: "year_zero \<le> now"
    and t: "transaction env (add_body env a req hash now) w0 = (Inr item, w')"
    using clock_ok_low [OF clk] by (auto simp: add_def svc_simps w0_def simp del: transaction_eq_Inr)
  from t obtain c w1 w2 where "w_db w1 = w_db w"
    and b: "add_body env a req hash now w1 = (Inr (item, c), w2)"
    and w': "w_db w' = (if c then w_db w2 else w_db w)"
    by (rule transaction_Ok) (simp add: w0_def)
  with add_body_commit [of w1 now env a req hash item w2] wf low show ?thesis
    by (cases c) (simp_all add: good_step_def)
qed

subsection \<open>Evaluations\<close>

text \<open>
  An evaluation works on an item read earlier: \<open>seen d prior\<close> says that \<open>prior\<close> was stored at some
  point of the history of \<open>d\<close>.
\<close>

definition seen :: "db \<Rightarrow> remindi \<Rightarrow> bool" where
  "seen d prior \<longleftrightarrow> (\<exists>d0. db_wf d0 \<and> db_extends d0 d \<and> store_view d0 (remindi_id prior) = Some prior)"

lemma seen_extends: "seen d prior \<Longrightarrow> db_extends d d' \<Longrightarrow> seen d' prior"
  unfolding seen_def using db_extends_trans by blast

lemma seen_now: "db_wf d \<Longrightarrow> store_view d i = Some prior \<Longrightarrow> seen d prior"
  using store_view_row(3) [of d i prior] by (auto simp: seen_def db_wf_def intro: db_extends_refl)

lemma seen_props:
  assumes "seen d prior"
  shows "item_wf prior" and "storable prior"
  using assms store_view_row by (auto simp: seen_def db_wf_def)

lemma seen_current:
  assumes "seen d prior" and "store_view d (remindi_id prior) = Some cur" and "version cur = version prior"
  shows "cur = prior"
  using assms extends_same_version unfolding seen_def by blast

lemma evaluate_successor:
  assumes ev: "evaluate prior now ctx c = Inr (cand, out)" and wf: "item_wf prior" "storable prior"
    and now: "year_zero \<le> now" and v: "version cand = version prior + 1"
  shows "successor prior cand"
proof -
  have "times_low cand"
    using evaluate_times [OF ev _ now] times_ok_low wf(2) by (simp add: storable_def)
  moreover have "same_identity prior cand" using evaluate_frame [OF ev] by (simp add: eval_frame_def)
  moreover have "is_active (state prior)"
    using ev by (auto simp: evaluate_def is_active_iff_not_terminal split: if_splits)
  ultimately show ?thesis using evaluate_wf [OF ev wf(1)] v by (simp add: successor_def)
qed

lemma evaluate_unconditional_events:
  assumes "evaluate prior now ctx CE_NotEvaluated = Inr (cand, out)" and "res_events out \<noteq> []"
  shows "version cand = version prior + 1"
  using assms(1)
proof (cases rule: evaluate_cases)
  case quiet
  then have e: "res_events out = [E_ConditionEvaluated]" using assms(2) by auto
  have False
  proof (cases "state prior")
    case Scheduled
    with assms(1) obtain r2 sat rd es where
      ts: "trigger_satisfaction (prior\<lparr>last_checked_at := Some now\<rparr>) now ctx CE_NotEvaluated = Inr (r2, sat, rd, es)"
      and o: "res_events out = (if sat then es @ [E_BecameDue] else es)"
      by (auto simp: evaluate_def is_terminal_def Let_def res_simps ready_result_def split: if_splits)
    have "es = []" using trigger_satisfaction_events [OF ts] by (auto split: trigger_spec.splits)
    with o e show False by (auto split: if_splits)
  qed (use assms(1) e in \<open>auto simp: evaluate_def is_terminal_def Let_def res_simps evaluate_due_def
      evaluate_snooze_def ready_result_def split: if_splits option.splits\<close>)
  then show ?thesis ..
qed simp_all

lemma persist_evaluated_good:
  assumes wf: "db_wf (w_db w)" and sn: "seen (w_db w) prior" and suc: "successor prior cand" and es: "events \<noteq> []"
    and run: "persist_evaluated env a prior cand rd events ctx detail w = (Inr res, w')"
  shows "good_step (w_db w) (w_db w')"
  using run
proof (cases rule: persist_evaluated_cases)
  case stale
  with wf show ?thesis by (simp add: good_step_refl)
next
  case (lost current d1)
  have iwf: "items_wf (w_db w)" using wf by (simp add: db_wf_def)
  note v = find_remindi_view [OF iwf lost(2)]
  have "remindi_id cand = remindi_id prior" using suc by (simp add: successor_def same_identity_def)
  with seen_current [OF sn] v(1) lost(3) have "current = prior" by simp
  with update_cas_wins [OF wf _ suc lost(4)] v(1) have False by simp
  then show ?thesis ..
next
  case (commit current d1 evs)
  have iwf: "items_wf (w_db w)" using wf by (simp add: db_wf_def)
  have idc: "remindi_id cand = remindi_id prior" using suc by (simp add: successor_def same_identity_def)
  note v = find_remindi_view [OF iwf commit(1)]
  have cp: "current = prior" using seen_current [OF sn] v(1) commit(2) idc by simp
  have st: "store_view (w_db w) (remindi_id cand) = Some prior" using v(1) cp by simp
  note s = update_cas_step [OF wf st suc commit(3)]
  have "evs \<noteq> []" using es commit(5) by auto
  then have wf': "db_wf (w_db w')"
    by (rule append_events_pending [OF s(2) commit(4)]) (use commit(6) in simp_all)
  from append_events_Ok [OF commit(4)] obtain rows n where
    d': "w_db w' = d1\<lparr>event_table := event_table d1 @ rows, last_sequence := n\<rparr>" by blast
  have "db_extends (w_db w) (w_db w')"
    by (rule extends_update [OF st _ s(4)]) (use s(3,5) in \<open>simp_all add: d'\<close>)
  with wf' show ?thesis by (simp add: good_step_def)
qed

lemma good_step_seen: "good_step d d' \<Longrightarrow> seen d prior \<Longrightarrow> seen d' prior"
  unfolding good_step_def using seen_extends by blast

text \<open>A planned page whose priors have been read and whose previews are evaluations of them.\<close>

definition plan_ok :: "db \<Rightarrow> check_context \<Rightarrow> instant \<Rightarrow> planned list \<Rightarrow> bool" where
  "plan_ok d ctx now page \<longleftrightarrow> (\<forall>(prior, checked, events) \<in> set page. seen d prior \<and>
     (\<exists>out. evaluate prior now ctx CE_NotEvaluated = Inr (ci_remindi checked, out) \<and>
        res_events out = events \<and> res_readiness out = Some (ci_readiness checked)))"

lemma plan_ok_extends: "good_step d d' \<Longrightarrow> plan_ok d ctx now page \<Longrightarrow> plan_ok d' ctx now page"
  unfolding plan_ok_def using good_step_seen by fastforce

lemma persist_page_good:
  assumes "db_wf (w_db w)" and "year_zero \<le> now" and "plan_ok (w_db w) ctx now page"
    and "persist_page env a ctx page w = (Inr items, w')"
  shows "good_step (w_db w) (w_db w')"
  using assms(1,3,4)
proof (induction page arbitrary: w items)
  case Nil
  then show ?case by (simp add: svc_simps good_step_refl)
next
  case (Cons p ps)
  obtain prior checked events where p: "p = (prior, checked, events)" by (cases p)
  from Cons.prems(2) p obtain out where sn: "seen (w_db w) prior"
    and ev: "evaluate prior now ctx CE_NotEvaluated = Inr (ci_remindi checked, out)" "res_events out = events"
    by (auto simp: plan_ok_def)
  have rest_ok: "plan_ok (w_db w) ctx now ps" using Cons.prems(2) by (simp add: plan_ok_def)
  from Cons.prems(3) p obtain item w1 items1 where
    first: "(if events = [] then slift (Ok (Some \<lparr>ci_remindi = prior, ci_readiness = ci_readiness checked\<rparr>))
            else persist_evaluated env a prior (ci_remindi checked) (Some (ci_readiness checked))
                   events ctx None) w = (Inr item, w1)"
    and rest: "persist_page env a ctx ps w1 = (Inr items1, w')"
    by (auto simp: svc_simps)
  have g: "good_step (w_db w) (w_db w1)"
  proof (cases "events = []")
    case True
    with first Cons.prems(1) show ?thesis by (simp add: svc_simps good_step_refl)
  next
    case False
    have "version (ci_remindi checked) = version prior + 1"
      using evaluate_unconditional_events ev False by blast
    then have "successor prior (ci_remindi checked)"
      using evaluate_successor ev(1) seen_props [OF sn] assms(2) by blast
    with persist_evaluated_good [OF Cons.prems(1) sn _ False] first False show ?thesis by simp
  qed
  then have "db_wf (w_db w1)" "plan_ok (w_db w1) ctx now ps"
    using plan_ok_extends [OF g rest_ok] by (simp_all add: good_step_def)
  from Cons.IH [OF this rest] g good_step_trans show ?case by blast
qed

text \<open>The writing half of a check, however much happened since the reading half.\<close>

lemma check_apply_good:
  assumes wf: "db_wf (w_db w)" and now: "year_zero \<le> now" and ok: "plan_ok (w_db w) ctx now page"
    and run: "check_apply env a (ctx, now, page, cursor) w = (res, w')"
  shows "good_step (w_db w) (w_db w')"
proof (cases res)
  case (Inl e)
  with run show ?thesis by (simp add: good_step_fail [OF atomic_check_apply wf])
next
  case (Inr r)
  show ?thesis
  proof (cases "list_all (\<lambda>(_, _, events). events = []) page")
    case True
    with run Inr have "w' = w" by (simp add: check_apply_def svc_simps)
    with wf show ?thesis by (simp add: good_step_refl)
  next
    case False
    with run Inr obtain items where
      "transaction env (sbind (persist_page env a ctx page) (\<lambda>items. slift (Ok (items, True)))) w = (Inr items, w')"
      by (auto simp: check_apply_def svc_simps simp del: transaction_eq_Inr)
    then obtain c w1 w2 where "w_db w1 = w_db w"
      and b: "sbind (persist_page env a ctx page) (\<lambda>items. slift (Ok (items, True))) w1 = (Inr (items, c), w2)"
      and w': "w_db w' = (if c then w_db w2 else w_db w)"
      by (rule transaction_Ok)
    then show ?thesis
      using persist_page_good [of w1 now ctx page env a items w2] wf now ok by (simp add: svc_simps)
  qed
qed

text \<open>The reading half.\<close>

lemma read_rows_seen:
  assumes "items_wf d" and "set rows \<subseteq> set (remindi_table d)" and "collect_map remindi_from_row rows = Inr items"
  shows "\<forall>item \<in> set items. store_view d (remindi_id item) = Some item"
proof
  fix item assume "item \<in> set items"
  then obtain k where "k < length items" "item = items ! k" by (auto simp: in_set_conv_nth)
  with assms(3) have "rows ! k \<in> set rows" and "remindi_from_row (rows ! k) = Inr item"
    by (auto simp: collect_map_eq_Inr list_all2_conv_all_nth)
  then obtain row where "row \<in> set rows" and i: "remindi_from_row row = Inr item" by blast
  with assms(2) have row: "row \<in> set (remindi_table d)" by blast
  have "find (\<lambda>r. c_id r = c_id row) (remindi_table d) = Some row"
    using assms(1) row find_distinct [of c_id "remindi_table d" row] by (simp add: items_wf_def)
  with i from_row_identity [OF i] show "store_view d (remindi_id item) = Some item"
    by (simp add: store_view_def)
qed

lemma check_candidate_rows_subset:
  "set (check_candidate_rows d owner project task now inc) \<subseteq> set (remindi_table d)"
  by (auto simp: check_candidate_rows_def Let_def)

lemma plan_candidates_ok:
  "plan_candidates now ctx cs = Inr ready \<Longrightarrow> (prior, checked, events) \<in> set ready \<Longrightarrow>
     prior \<in> set cs \<and> (\<exists>out. evaluate prior now ctx CE_NotEvaluated = Inr (ci_remindi checked, out) \<and>
        res_events out = events \<and> res_readiness out = Some (ci_readiness checked))"
proof (induction cs arbitrary: ready)
  case (Cons c cs)
  then obtain preview result rest where e: "evaluate c now ctx CE_NotEvaluated = Inr (preview, result)"
    and r: "plan_candidates now ctx cs = Inr rest"
    and eq: "ready = (case res_readiness result of None \<Rightarrow> rest
       | Some rd \<Rightarrow> (c, \<lparr>ci_remindi = preview, ci_readiness = rd\<rparr>, res_events result) # rest)"
    by (auto simp: rbind_eq_Inr map_err_eq_Inr)
  with Cons show ?case by (auto split: option.splits)
qed simp

lemma insert_by_set: "set (insert_by c x xs) = insert x (set xs)"
  by (induction xs) auto

lemma sort_by_set: "set (sort_by c xs) = set xs"
  by (induction xs) (auto simp: sort_by_def insert_by_set)

lemma plan_page_subset:
  "plan_page env limit cursor ready = Inr (page, next_cursor) \<Longrightarrow> set page \<subseteq> set ready"
  by (auto simp: plan_page_def Let_def rbind_eq_Inr sort_by_set dest!: in_set_takeD split: option.splits)

lemma check_plan_ok:
  assumes wf: "db_wf (w_db w)" and run: "check_plan env a request w = (Inr (ctx, now, page, cursor), w')"
  shows "plan_ok (w_db w) ctx now page" and "now \<in> range (env_clock env)" and "w_db w' = w_db w"
proof -
  have "reads_only (check_plan env a request)" by (rule ro_intros)
  with run show "w_db w' = w_db w" unfolding reads_only_def by (metis snd_conv)
  from run obtain project task limit cur ready candidates where
    n: "now \<in> range (env_clock env)"
    and c: "check_candidates (w_db w) (env_owner env) project task now (kr_include_scheduled request) = Inr candidates"
    and p: "plan_candidates now ctx candidates = Inr ready"
    and pp: "plan_page env limit cur ready = Inr (page, cursor)"
    by (auto simp: check_plan_def svc_simps Let_def)
  show "now \<in> range (env_clock env)" by (rule n)
  from c obtain t where "collect_map remindi_from_row (check_candidate_rows (w_db w) (env_owner env) project task t
      (kr_include_scheduled request)) = Inr candidates"
    by (auto simp: check_candidates_def rbind_eq_Inr)
  then have st: "\<forall>item \<in> set candidates. store_view (w_db w) (remindi_id item) = Some item"
    using read_rows_seen [OF _ check_candidate_rows_subset] wf by (simp add: db_wf_def)
  show "plan_ok (w_db w) ctx now page"
    unfolding plan_ok_def
  proof clarify
    fix prior checked events assume "(prior, checked, events) \<in> set page"
    then have "(prior, checked, events) \<in> set ready" using plan_page_subset [OF pp] by blast
    from plan_candidates_ok [OF p this] st seen_now [OF wf]
    show "seen (w_db w) prior \<and> (\<exists>out. evaluate prior now ctx CE_NotEvaluated = Inr (ci_remindi checked, out) \<and>
        res_events out = events \<and> res_readiness out = Some (ci_readiness checked))"
      by blast
  qed
qed

lemma check_good:
  assumes wf: "db_wf (w_db w)" and clk: "clock_ok env" and run: "check env a request w = (res, w')"
  shows "good_step (w_db w) (w_db w')"
proof (cases res)
  case (Inl e)
  with run show ?thesis by (simp add: good_step_fail [OF atomic_check wf])
next
  case (Inr r)
  with run obtain ctx now page cursor w1 where p: "check_plan env a request w = (Inr (ctx, now, page, cursor), w1)"
    and ap: "check_apply env a (ctx, now, page, cursor) w1 = (res, w')"
    by (auto simp: check_def svc_simps)
  note pl = check_plan_ok [OF wf p]
  then have "year_zero \<le> now" using clock_ok_low [OF clk] by auto
  with check_apply_good [of w1 now ctx page env a cursor res w'] wf pl ap show ?thesis by simp
qed

subsection \<open>The scheduler's step\<close>

lemma persist_and_commit:
  assumes t: "transaction env (sbind (persist_evaluated env a prior cand rd events ctx detail)
      (\<lambda>item. slift (Ok (item, True)))) w = (Inr item, w')"
    and wf: "db_wf (w_db w)" and sn: "seen (w_db w) prior" and suc: "successor prior cand" and es: "events \<noteq> []"
  shows "good_step (w_db w) (w_db w')"
proof -
  from t obtain c w1 w2 where "w_db w1 = w_db w"
    and b: "sbind (persist_evaluated env a prior cand rd events ctx detail)
      (\<lambda>item. slift (Ok (item, True))) w1 = (Inr (item, c), w2)"
    and w': "w_db w' = (if c then w_db w2 else w_db w)"
    by (rule transaction_Ok)
  then show ?thesis
    using persist_evaluated_good [OF _ _ suc es, of w1 env a rd ctx detail item w2] wf sn
    by (simp add: svc_simps)
qed

lemma evaluate_version:
  "evaluate r now ctx c = Inr (r', out) \<Longrightarrow> version r' = version r \<or> version r' = version r + 1"
  by (cases rule: evaluate_cases) auto

lemma item_wf_bookkeeping:
  "item_wf (r\<lparr>version := v, updated_at := t\<rparr>) = item_wf r"
  "item_wf (r\<lparr>last_condition_detail := x\<rparr>) = item_wf r"
  "item_wf (r\<lparr>last_condition_detail := x, version := v, updated_at := t\<rparr>) = item_wf r"
  by (simp_all add: item_wf_defs)

lemma bumped_successor:
  assumes ev: "evaluate prior now ctx c = Inr (ec, out)" and wf: "item_wf prior" "storable prior"
    and now: "year_zero \<le> now" and cand: "cand = ec \<or> cand = ec\<lparr>last_condition_detail := detail\<rparr>"
  shows "successor prior (ensure_bumped now prior cand)"
proof -
  have "times_low ec"
    using evaluate_times [OF ev _ now] times_ok_low wf(2) by (simp add: storable_def)
  then have t: "times_low (ensure_bumped now prior cand)"
    using cand now by (auto simp: ensure_bumped_def times_low_def)
  have "same_identity prior ec" using evaluate_frame [OF ev] by (simp add: eval_frame_def)
  then have i: "same_identity prior (ensure_bumped now prior cand)" using cand by (auto simp: ensure_bumped_def same_identity_def)
  have a: "is_active (state prior)"
    using ev by (auto simp: evaluate_def is_active_iff_not_terminal split: if_splits)
  have w: "item_wf (ensure_bumped now prior cand)"
    using evaluate_wf [OF ev wf(1)] cand by (elim disjE) (simp_all add: item_wf_bookkeeping ensure_bumped_def)
  have "version (ensure_bumped now prior cand) = version prior + 1"
    using evaluate_version [OF ev] cand by (auto simp: ensure_bumped_def)
  with t i a w show ?thesis by (simp add: successor_def)
qed

lemma evaluate_one_good:
  assumes wf: "db_wf (w_db w)" and now: "year_zero \<le> now" and sn: "seen (w_db w) prior"
    and run: "evaluate_one env a prior now ctx c detail w = (res, w')"
  shows "good_step (w_db w) (w_db w')"
proof (cases res)
  case (Inl e)
  with run show ?thesis by (simp add: good_step_fail [OF atomic_evaluate_one wf])
next
  case (Inr item)
  with run obtain ec out where ev: "evaluate prior now ctx c = Inr (ec, out)"
    and r: "(let candidate = (if c \<noteq> CE_NotEvaluated then ec\<lparr>last_condition_detail := detail\<rparr> else ec) in
       if res_events out = []
       then slift (Ok (map_option (\<lambda>rd. \<lparr>ci_remindi = prior, ci_readiness = rd\<rparr>) (res_readiness out)))
       else transaction env
         (sbind (persist_evaluated env a prior (ensure_bumped now prior candidate) (res_readiness out) (res_events out) ctx detail)
           (\<lambda>item. slift (Ok (item, True))))) w = (Inr item, w')"
    by (auto simp: evaluate_one_def svc_simps res_simps Let_def simp del: transaction_eq_Inr)
  define cand where "cand = (if c \<noteq> CE_NotEvaluated then ec\<lparr>last_condition_detail := detail\<rparr> else ec)"
  have suc: "successor prior (ensure_bumped now prior cand)"
    by (rule bumped_successor [OF ev seen_props [OF sn] now, where detail = detail]) (simp add: cand_def)
  show ?thesis
  proof (cases "res_events out = []")
    case True
    with r wf show ?thesis by (simp add: svc_simps good_step_refl)
  next
    case False
    with r have "transaction env
         (sbind (persist_evaluated env a prior (ensure_bumped now prior cand) (res_readiness out) (res_events out) ctx detail)
           (\<lambda>item. slift (Ok (item, True)))) w = (Inr item, w')"
      by (simp add: cand_def Let_def del: transaction_eq_Inr)
    from persist_and_commit [OF this wf sn suc False] show ?thesis .
  qed
qed

lemma scheduler_good:
  assumes wf: "db_wf (w_db w)" and now: "year_zero \<le> now" and sn: "seen (w_db w) prior"
    and run: "apply_scheduler_evaluation env a prior now c detail w = (res, w')"
  shows "good_step (w_db w) (w_db w')"
proof (cases res)
  case (Inl e)
  with run show ?thesis by (simp add: good_step_fail [OF atomic_scheduler wf])
next
  case (Inr u)
  with run evaluate_one_good [OF wf now sn] show ?thesis
    by (auto simp: apply_scheduler_evaluation_def svc_simps)
qed

end
