(* ===== verification/Commands.thy ===== *)
theory Commands
  imports Guarantees
begin

text \<open>
  The four commands on an existing item (\<open>complete\<close>, \<open>snooze\<close>, \<open>cancel\<close>, \<open>update\<close> of
  \<open>src/remindi/service.rs\<close>) as one: each validates its request, hashes it, and runs \<open>mutate\<close> with a
  closure. \<open>command_plan\<close> is that front half as a pure function of the clock reading; the lemmas
  say what each way through \<open>mutate\<close> returns and does to the database.
\<close>

section \<open>Commands\<close>

datatype command =
    C_Complete complete_request std_duration
  | C_Snooze snooze_request std_duration
  | C_Cancel cancel_request
  | C_Update update_request

fun run_command :: "env \<Rightarrow> actor \<Rightarrow> command \<Rightarrow> remindi svc" where
  "run_command env a (C_Complete r skew) = complete env a r skew"
| "run_command env a (C_Snooze r horizon) = snooze env a r horizon"
| "run_command env a (C_Cancel r) = cancel env a r"
| "run_command env a (C_Update r) = update env a r"

fun command_plan ::
  "env \<Rightarrow> actor \<Rightarrow> instant \<Rightarrow> command \<Rightarrow> (service_error, mutation_call \<times> operation) res" where
  "command_plan env a now (C_Complete r skew) =
     rbind (prepare_complete a r) (\<lambda>req.
     rbind (request_hash env (HashComplete req)) (\<lambda>hash.
     rbind (map_err map_domain (validate_evidence (cr_evidence req) now skew)) (\<lambda>evidence.
       Ok (\<lparr>mc_actor = a, mc_tool_name = ''remindi_complete'', mc_id = cr_remindi_id req,
            mc_expected_version = cr_expected_version req,
            mc_idempotency_key = cr_idempotency_key req, mc_request_hash = hash\<rparr>,
           complete_operation req evidence now))))"
| "command_plan env a now (C_Snooze r horizon) =
     rbind (prepare_snooze a r) (\<lambda>req.
     rbind (request_hash env (HashSnooze req)) (\<lambda>hash.
     rbind (check_horizon (sr_snooze_until req) now horizon) (\<lambda>_.
       Ok (\<lparr>mc_actor = a, mc_tool_name = ''remindi_snooze'', mc_id = sr_remindi_id req,
            mc_expected_version = sr_expected_version req,
            mc_idempotency_key = sr_idempotency_key req, mc_request_hash = hash\<rparr>,
           snooze_operation req now))))"
| "command_plan env a now (C_Cancel r) =
     rbind (prepare_cancel a r) (\<lambda>req.
     rbind (request_hash env (HashCancel req)) (\<lambda>hash.
       Ok (\<lparr>mc_actor = a, mc_tool_name = ''remindi_cancel'', mc_id = xr_remindi_id req,
            mc_expected_version = xr_expected_version req,
            mc_idempotency_key = xr_idempotency_key req, mc_request_hash = hash\<rparr>,
           cancel_operation req now)))"
| "command_plan env a now (C_Update r) =
     rbind (prepare_update a r) (\<lambda>req.
     rbind (request_hash env (HashUpdate req)) (\<lambda>hash.
       Ok (\<lparr>mc_actor = a, mc_tool_name = ''remindi_update'', mc_id = ur_remindi_id req,
            mc_expected_version = ur_expected_version req,
            mc_idempotency_key = ur_idempotency_key req, mc_request_hash = hash\<rparr>,
           update_operation req now)))"

abbreviation planned_at :: "env \<Rightarrow> actor \<Rightarrow> command \<Rightarrow> world \<Rightarrow> (service_error, mutation_call \<times> operation) res" where
  "planned_at env a cmd w \<equiv> command_plan env a (env_clock env (w_clock w)) cmd"

lemma sbind_slift: "sbind (slift r) f w = (case r of Inl e \<Rightarrow> (Inl e, w) | Inr x \<Rightarrow> f x w)"
  by (simp add: sbind_def slift_def split: sum.split)

lemma sbind_clock: "sbind (clock_now env) f w = f (env_clock env (w_clock w)) (w\<lparr>w_clock := w_clock w + 1\<rparr>)"
  by (simp add: sbind_def clock_now_def)

text \<open>The handlers are their plan and then \<open>mutate\<close>.\<close>

lemma run_planned:
  "planned_at env a cmd w = Inr (call, op) \<Longrightarrow>
     run_command env a cmd w = mutate env call op (w\<lparr>w_clock := w_clock w + 1\<rparr>)"
  by (cases cmd)
    (auto simp: complete_def snooze_def cancel_def update_def sbind_slift sbind_clock rbind_eq_Inr
      map_err_eq_Inr)

lemma run_unplanned:
  "run_command env a cmd w = (Inr item, w') \<Longrightarrow> \<exists>call op. planned_at env a cmd w = Inr (call, op)"
  by (cases cmd)
    (auto simp: complete_def snooze_def cancel_def update_def svc_simps res_simps simp del: transaction_eq_Inr)

lemma atomic_run: "atomic (run_command env a cmd)"
  by (cases cmd) (simp_all add: atomic_commands)

text \<open>Every planned operation has the closure contract.\<close>

lemma planned_closure:
  "command_plan env a now cmd = Inr (call, op) \<Longrightarrow> mutation_closure op now"
  by (cases cmd)
    (auto simp: rbind_eq_Inr complete_closure.mutation_closure_axioms snooze_closure.mutation_closure_axioms
      cancel_closure.mutation_closure_axioms update_closure.mutation_closure_axioms)

lemma planned_actor: "command_plan env a now cmd = Inr (call, op) \<Longrightarrow> mc_actor call = a"
  by (cases cmd) (auto simp: rbind_eq_Inr)

text \<open>The call, its identity and its digest do not depend on the time of the attempt.\<close>

lemma planned_call:
  "command_plan env a now cmd = Inr (call, op) \<Longrightarrow> command_plan env a now' cmd = Inr (call', op') \<Longrightarrow> call' = call"
  by (cases cmd) (auto simp: rbind_eq_Inr)

section \<open>The ways through a mutation\<close>

lemma mutate_run:
  assumes "env_gate env (w_gate w) = None"
  shows "mutate_body env call op (env_clock env (w_clock w)) (w\<lparr>w_clock := w_clock w + 1, w_gate := w_gate w + 1\<rparr>) = (Inl e, w2) \<Longrightarrow>
      mutate env call op w = (Inl e, w2\<lparr>w_db := w_db w\<rparr>)"
    and "mutate_body env call op (env_clock env (w_clock w)) (w\<lparr>w_clock := w_clock w + 1, w_gate := w_gate w + 1\<rparr>) = (Inr (x, c), w2) \<Longrightarrow>
      env_gate env (w_gate w2) = None \<Longrightarrow>
      \<exists>w'. mutate env call op w = (Inr x, w') \<and> w_db w' = (if c then w_db w2 else w_db w)"
  using assms by (auto simp: mutate_def sbind_clock transaction_as_def gate_as_def)

lemma mutate_Ok:
  assumes "mutate env call op w = (Inr x, w')"
  obtains c w1 w2 where "w_db w1 = w_db w"
    and "mutate_body env call op (env_clock env (w_clock w)) w1 = (Inr (x, c), w2)"
    and "w_db w' = (if c then w_db w2 else w_db w)"
proof -
  define w0 where "w0 = w\<lparr>w_clock := w_clock w + 1\<rparr>"
  from assms have "transaction env (mutate_body env call op (env_clock env (w_clock w))) w0 = (Inr x, w')"
    by (simp add: mutate_def sbind_clock w0_def)
  then obtain c w1 w2 where "w_db w1 = w_db w0"
    and "mutate_body env call op (env_clock env (w_clock w)) w1 = (Inr (x, c), w2)"
    and "w_db w' = (if c then w_db w2 else w_db w0)"
    by (rule transaction_Ok)
  then show ?thesis by (intro that [where c = c and ?w1.0 = w1 and ?w2.0 = w2]) (simp_all add: w0_def)
qed

lemma body_replay:
  "idempotency (w_db w) (actor_id (mc_actor call)) (mc_tool_name call) (mc_idempotency_key call) = Some (hash, response) \<Longrightarrow>
     mutate_body env call op now w = (if hash \<noteq> mc_request_hash call then (Err IdempotencyKeyReused, w) else (Inr (response, False), w))"
  by (simp add: mutate_body_def sbind_def replay_def slift_def)

lemma body_find:
  assumes "items_wf (w_db w)"
    and "idempotency (w_db w) (actor_id (mc_actor call)) (mc_tool_name call) (mc_idempotency_key call) = None"
  shows "\<nexists>item. store_view (w_db w) (mc_id call) = Some item \<and> owner_id item = env_owner env \<Longrightarrow>
      mutate_body env call op now w = (Err NotFound, w)"
    and "store_view (w_db w) (mc_id call) = Some item \<Longrightarrow> owner_id item = env_owner env \<Longrightarrow>
      version item \<noteq> mc_expected_version call \<Longrightarrow> mutate_body env call op now w = (Err (VersionConflict (version item)), w)"
  using assms
  by (auto simp: mutate_body_def sbind_def replay_def slift_def db_read_def find_row_view ok_or_def
      split: option.splits)

section \<open>Commitment\<close>

text \<open>What the rest of a mutation needs of the database and the environment.\<close>

definition room_for :: "env \<Rightarrow> mutation_call \<Rightarrow> world \<Rightarrow> bool" where
  "room_for env call w \<longleftrightarrow>
     idempotency (w_db w) (actor_id (mc_actor call)) (mc_tool_name call) (mc_idempotency_key call) = None \<and>
     (\<forall>e \<in> set (event_table (w_db w)). e_event_id e \<noteq> env_ids env (w_ids w)) \<and>
     (\<forall>n. env_gate env n = None) \<and> (\<forall>n. valid_instant (env_clock env n + idempotency_retention))"

lemma append_event_room:
  assumes "valid_instant (occurred_at ev)" and "prior_version ev = Some p" "uint p \<le> i64_max"
    and "new_version ev = Some n" "uint n \<le> i64_max"
    and "\<forall>e \<in> set (event_table d). e_event_id e \<noteq> event_id ev"
    and "row \<in> set (remindi_table d)" "c_id row = event_remindi_id ev"
  shows "\<exists>rows k. append_event d ev = Inr (d\<lparr>event_table := rows, last_sequence := k\<rparr>)"
  using assms
  by (auto simp: append_event_def timestamp_def canonical_timestamp_def to_utc_def i64_from_u64_def
      i64_try_from_u64_def ok_or_def list_ex_iff rbind_def)

lemma insert_idempotency_room:
  "valid_instant created \<Longrightarrow> valid_instant expires \<Longrightarrow> idempotency d aid tool key = None \<Longrightarrow>
     \<exists>d'. insert_idempotency d aid tool key hash response created expires = Inr d'"
  by (auto simp: insert_idempotency_def timestamp_def canonical_timestamp_def to_utc_def idempotency_def
      list_ex_iff find_None_iff)

lemma update_cas_room:
  assumes wf: "items_wf d" and r: "store_view d (remindi_id item') = Some item" and id: "same_identity item item'"
    and good: "item_wf item'" "storable item'" "check_remindi (columns item')"
  shows "\<exists>d1. update_cas d item' (version item) = Inr (d1, True)"
proof -
  have own: "owner_id item = owner_id item'" using id by (simp add: same_identity_def)
  have "uint (version item) \<le> i64_max" using store_view_row(2) [OF wf r] by (simp add: storable_def counters_ok_def)
  then have n: "i64_from_u64 (version item) = Inr (uint (version item))"
    by (simp add: i64_from_u64_def i64_try_from_u64_def ok_or_def)
  have "list_all (\<lambda>old. check_remindi (set_columns (columns item') old))
      (filter (update_matches (columns item') (uint (version item))) (remindi_table d))"
    using update_matches_iff [OF wf r own] set_columns_same [OF id] good(3) by (auto simp: list_all_iff)
  then obtain d1 won where u: "update_cas d item' (version item) = Inr (d1, won)"
    by (simp add: update_cas_def row_of_storable [OF good(2)] n Let_def)
  with update_cas_refines(1) [OF wf r id good(1,2) u] show ?thesis by simp
qed

text \<open>A mutation that finds the version it expects and a storable outcome commits.\<close>

lemma body_room:
  assumes wf: "db_wf (w_db w)" and cl: "mutation_closure op at" and room: "room_for env call w"
    and st: "store_view (w_db w) (mc_id call) = Some item" and own: "owner_id item = env_owner env"
    and ver: "version item = mc_expected_version call" and op: "op item = Inr (item', out)"
    and plain: "op_links out = None" "op_evidence out = None"
    and fits: "storable item'" "check_remindi (columns item')" and now: "valid_instant now"
    and clk: "clock_ok env" and ret: "valid_instant (now + idempotency_retention)"
  shows "\<exists>w2. mutate_body env call op now w = (Inr (item', True), w2)"
proof -
  have iwf: "items_wf (w_db w)" using wf by (simp add: db_wf_def)
  note rw = store_view_row [OF iwf st]
  have id: "same_identity item item'" and iw: "item_wf item'" and ver': "version item' = version item + 1"
    using mutation_closure.keeps_identity [OF cl op] mutation_closure.keeps_wf [OF cl op rw(1)]
      mutation_closure.bumps_version [OF cl op] by simp_all
  have idm: "remindi_id item' = mc_id call" using id rw(3) by (simp add: same_identity_def)
  have find: "find_remindi (w_db w) (env_owner env) (mc_id call) = Ok (Some item)"
    using st own by (simp add: find_row_view [OF iwf])
  have st': "store_view (w_db w) (remindi_id item') = Some item" using st idm by simp
  obtain d1 where cas: "update_cas (w_db w) item' (version item) = Inr (d1, True)"
    using update_cas_room [OF iwf st' id iw fits] by blast
  note u = update_cas_refines [OF iwf st' id iw fits(1) cas]
  have d1: "event_table d1 = event_table (w_db w)" "idempotency_table d1 = idempotency_table (w_db w)"
    and col: "columns item' \<in> set (remindi_table d1)"
    using u(4) st' iwf by (auto simp: store_view_iff image_iff)
  define ev where "ev = audit_event (mc_actor call) item' (op_event out) (Some (version item)) (Some (version item'))
    (op_details out) (env_ids env (w_ids w)) (env_clock env (w_clock w))"
  have vi: "valid_instant (env_clock env n)" for n using clk rfc3339_ok_valid by (simp add: clock_ok_def)
  have bounds: "uint (version item) \<le> i64_max" "uint (version item') \<le> i64_max"
    using rw(2) fits(1) by (simp_all add: storable_def counters_ok_def)
  obtain rows k where app: "append_event d1 ev = Inr (d1\<lparr>event_table := rows, last_sequence := k\<rparr>)"
    using append_event_room [of ev "version item" "version item'" d1 "columns item'"] vi bounds d1 col room
    by (auto simp: ev_def audit_event_def room_for_def)
  obtain d' where ins: "insert_idempotency (d1\<lparr>event_table := rows, last_sequence := k\<rparr>) (actor_id (mc_actor call)) (mc_tool_name call)
     (mc_idempotency_key call) (mc_request_hash call) item' now (now + idempotency_retention) = Inr d'"
    using insert_idempotency_room [OF now ret] room d1 by (fastforce simp: room_for_def idempotency_def)
  have ser: "trigger_serializable (trigger item')" "recurrence_serializable (recurrence item')"
    using fits(1) by (simp_all add: storable_def)
  show ?thesis
    using room find ver op cas plain app ins ser ret
    by (simp add: mutate_body_def room_for_def sbind_def replay_def slift_def db_read_def db_write_def db_exec_def
        ok_or_def store_evidence_def append_audit_def next_id_def clock_now_def store_idempotency_def ev_def
        audit_event_def time_add_def)
qed

text \<open>The effect of a successful command.\<close>

lemma run_effect:
  assumes wf: "db_wf (w_db w)" and clk: "clock_ok env" and run: "run_command env a cmd w = (Inr item, w')"
  shows "\<exists>call op. planned_at env a cmd w = Inr (call, op) \<and>
    (idempotency (w_db w) (actor_id a) (mc_tool_name call) (mc_idempotency_key call) = Some (mc_request_hash call, item)
       \<and> w_db w' = w_db w \<or>
     mutated env call op (w_db w) item (w_db w'))"
proof -
  obtain call op where p: "planned_at env a cmd w = Inr (call, op)" using run_unplanned [OF run] by blast
  note cl = planned_closure [OF p]
  define w0 where "w0 = w\<lparr>w_clock := w_clock w + 1\<rparr>"
  from run run_planned [OF p] have "mutate env call op w0 = (Inr item, w')" by (simp add: w0_def)
  then obtain now c w1 w2 where w1: "w_db w1 = w_db w"
    and b: "mutate_body env call op now w1 = (Inr (item, c), w2)"
    and w': "w_db w' = (if c then w_db w2 else w_db w)"
    by (rule mutate_Ok) (simp add: w0_def)
  show ?thesis
  proof (cases c)
    case True
    with mutation_closure.mutate_body_commit(3) [OF cl _ clock_ok_low [OF clk], of w1 env call now item w2] b w1 w' wf p
    show ?thesis by auto
  next
    case False
    with b planned_actor [OF p] w1 have "idempotency (w_db w) (actor_id a) (mc_tool_name call) (mc_idempotency_key call)
        = Some (mc_request_hash call, item)"
      by (auto elim: mutate_body_cases)
    with False w' p show ?thesis by auto
  qed
qed

lemma run_room:
  assumes "db_wf (w_db w)" and "clock_ok env" and "room_for env call w"
    and p: "planned_at env a cmd w = Inr (call, op)"
    and "store_view (w_db w) (mc_id call) = Some item" "owner_id item = env_owner env"
    and "version item = mc_expected_version call" and "op item = Inr (item', out)"
    and "op_links out = None" "op_evidence out = None" and "storable item'" "check_remindi (columns item')"
  shows "fst (run_command env a cmd w) = Inr item'"
proof -
  let ?w = "w\<lparr>w_clock := w_clock w + 1\<rparr>"
  let ?w2 = "?w\<lparr>w_clock := w_clock ?w + 1, w_gate := w_gate ?w + 1\<rparr>"
  let ?now = "env_clock env (w_clock ?w)"
  have vi: "valid_instant ?now" using assms(2) rfc3339_ok_valid by (simp add: clock_ok_def)
  have ret: "valid_instant (?now + idempotency_retention)" and g: "\<forall>n. env_gate env n = None"
    using assms(3) by (simp_all add: room_for_def)
  have "\<exists>w2. mutate_body env call op ?now ?w2 = (Inr (item', True), w2)"
    by (rule body_room [OF _ planned_closure [OF p] _ _ assms(6-12) vi assms(2) ret])
      (use assms(1,3,5) in \<open>simp_all add: room_for_def\<close>)
  with g show ?thesis
    using mutate_run(2) [of env ?w call op item' True] by (fastforce simp: run_planned [OF p])
qed

section \<open>A concrete service\<close>

text \<open>
  The properties are applied to a service of one owner whose clock stands at \<open>t0\<close>, with the due item
  of the samples in version 2, and to the command that cancels it.
\<close>

definition demo_env :: env where
  "demo_env = \<lparr>env_owner = lit ''owner'', env_clock = (\<lambda>n. t0), env_ids = (\<lambda>n. 100 + n),
     env_hash = (\<lambda>r. 5), env_mac = (\<lambda>b. 0), env_gate = (\<lambda>n. None)\<rparr>"

definition demo_event :: "int \<Rightarrow> string \<Rightarrow> int option \<Rightarrow> event_row" where
  "demo_event n et prior =
     \<lparr>e_sequence = n, e_event_id = nat n, e_remindi_id = 7, e_event_type = et, e_actor_type = A_Agent,
      e_actor_id = lit ''agent'', e_request_id = None, e_occurred_at = stamp_of t0,
      e_prior_version = prior, e_new_version = Some n, e_details = JObj []\<rparr>"

definition demo_db :: db where
  "demo_db = sample_db\<lparr>event_table := [demo_event 1 ''created'' None, demo_event 2 ''became_due'' (Some 1)],
     last_sequence := 2\<rparr>"

definition demo_world :: world where
  "demo_world = \<lparr>w_db = demo_db, w_clock = 0, w_ids = 0, w_gate = 0\<rparr>"

definition demo_call :: mutation_call where
  "demo_call = \<lparr>mc_actor = sample_actor, mc_tool_name = ''remindi_cancel'', mc_id = 7, mc_expected_version = 2,
     mc_idempotency_key = lit ''key-0002'', mc_request_hash = 5\<rparr>"

abbreviation cancelled_sample :: remindi where
  "cancelled_sample \<equiv> sample_item\<lparr>state := Cancelled, cancelled_at := Some t0, version := 3, updated_at := t0\<rparr>"

lemma demo_simps [simp]:
  "env_owner demo_env = lit ''owner''" "env_clock demo_env n = t0" "env_ids demo_env n = 100 + n"
  "env_hash demo_env r = 5" "env_gate demo_env n = None"
  "w_db demo_world = demo_db" "w_clock demo_world = 0" "w_ids demo_world = 0" "w_gate demo_world = 0"
  "mc_id demo_call = 7" "mc_expected_version demo_call = 2" "mc_request_hash demo_call = 5"
  "mc_tool_name demo_call = ''remindi_cancel''" "mc_idempotency_key demo_call = lit ''key-0002''"
  "mc_actor demo_call = sample_actor"
  by (simp_all add: demo_env_def demo_world_def demo_call_def)

lemma demo_clock: "clock_ok demo_env"
  by (simp add: clock_ok_def rfc3339_ok_def year_zero_def max_instant_def t0_def)

lemma demo_db_wf: "db_wf demo_db"
proof -
  have i: "items_wf demo_db" using sample_db_wf by (simp add: demo_db_def)
  have t: "remindi_table demo_db = [columns sample_item]" by (simp add: demo_db_def sample_db_def)
  have c: "c_id (columns sample_item) = 7" "c_version (columns sample_item) = 2" by (simp_all add: sample_item_def)
  have "events_wf demo_db"
    unfolding events_wf_def t using c by (simp add: demo_db_def demo_event_def)
  moreover have "v = 1 \<or> v = 2" if "1 \<le> v" "v \<le> 2" for v :: int using that by arith
  then have "audited demo_db"
    unfolding audited_def t using c by (auto simp: has_event_def demo_db_def demo_event_def)
  moreover have "responses_wf demo_db" by (simp add: responses_wf_def demo_db_def sample_db_def)
  ultimately show ?thesis using i by (simp add: db_wf_def)
qed

lemma demo_view: "store_view demo_db 7 = Some sample_item"
  using sample_db_view by (simp add: demo_db_def)

lemma demo_owner: "owner_id sample_item = lit ''owner''" "version sample_item = 2"
  by (simp_all add: sample_item_def)

lemma demo_plan: "command_plan demo_env sample_actor t0 (C_Cancel sample_cancel) =
    Inr (demo_call, cancel_operation sample_cancel t0)"
  by (simp add: prepare_cancel_def sample_cancel_def sample_actor_def agent_actor_def validate_actor_def trim_def
      is_whitespace_def validate_idempotency_key_def utf8_len_def utf8_width_def is_ascii_alphanumeric_def
      is_ascii_alphabetic_def is_ascii_digit_def required_text_def validate_expected_version_def request_hash_def
      demo_call_def)

lemma demo_cancel:
  "\<exists>out. cancel_operation sample_cancel t0 sample_item = Inr (cancelled_sample, out) \<and> op_links out = None \<and> op_evidence out = None"
  by (simp add: cancel_operation_def cancel_item_def clear_snooze_def sample_cancel_def sample_item_def is_active_def
      trim_def is_whitespace_def)

lemma cancelled_storable: "storable cancelled_sample" "check_remindi (columns cancelled_sample)"
proof -
  have "storable (r\<lparr>state := Cancelled, cancelled_at := Some t0, version := 3, updated_at := t0\<rparr>)" if "storable r" for r
    using that by (simp add: storable_def times_ok_def counters_ok_def i64_max_def rfc3339_ok_def year_zero_def
        max_instant_def t0_def)
  then show "storable cancelled_sample" using sample_writable(1) .
  show "check_remindi (columns cancelled_sample)"
    by (simp add: check_remindi_def columns_def sql_length_def state_variants_def priority_variants_def sample_item_def)
qed

lemma demo_room: "room_for demo_env demo_call demo_world"
  by (simp add: room_for_def idempotency_def demo_db_def sample_db_def demo_event_def idempotency_retention_def
      seconds_def ns_per_sec_def valid_instant_def min_instant_def max_instant_def t0_def)


text \<open>The demo command runs; a replay, a stale version, a foreign owner and a reused key are demo
  worlds that differ in one table.\<close>

abbreviation demo_run :: "world \<Rightarrow> (service_error, remindi) res \<times> world" where
  "demo_run w \<equiv> run_command demo_env sample_actor (C_Cancel sample_cancel) w"

lemma demo_runs: "\<exists>w'. demo_run demo_world = (Inr cancelled_sample, w')"
proof -
  obtain out where o: "cancel_operation sample_cancel t0 sample_item = Inr (cancelled_sample, out)"
    "op_links out = None" "op_evidence out = None" using demo_cancel by blast
  have "fst (demo_run demo_world) = Inr cancelled_sample"
    using run_room [where op = "cancel_operation sample_cancel t0" and item = sample_item and a = sample_actor
      and cmd = "C_Cancel sample_cancel", OF _ demo_clock demo_room _ _ _ _ o cancelled_storable]
      demo_db_wf demo_plan demo_view demo_owner by simp
  then show ?thesis by (metis fst_conv prod.collapse)
qed

section \<open>Properties\<close>

text \<open>
  C3: what a successful command did. Either it is the replay of a stored response, and the
  database is untouched; or it is one committed mutation (\<open>mutated\<close>): the item was stored, owned by
  the service and in the version the caller expected; its new state is the operation applied to it,
  one version later, and no other item changed; one event was appended, naming the command's event
  type, the actor and both versions; and the response is stored under the caller's key with the
  digest of the request.
\<close>

theorem command_commits:
  assumes wf: "db_wf (w_db w)" and clk: "clock_ok env" and run: "run_command env a cmd w = (Inr item, w')"
  shows "\<exists>call op. planned_at env a cmd w = Inr (call, op) \<and>
    (idempotency (w_db w) (actor_id a) (mc_tool_name call) (mc_idempotency_key call) = Some (mc_request_hash call, item)
       \<and> w_db w' = w_db w \<or>
     mutated env call op (w_db w) item (w_db w'))"
  using assms by (rule run_effect)

theorem command_commits_witness:
  "\<exists>w'. demo_run demo_world = (Inr cancelled_sample, w') \<and>
     mutated demo_env demo_call (cancel_operation sample_cancel t0) demo_db cancelled_sample (w_db w')"
proof -
  obtain w' where r: "demo_run demo_world = (Inr cancelled_sample, w')" using demo_runs by blast
  have "idempotency demo_db k tool key = None" for k tool key by (simp add: idempotency_def demo_db_def sample_db_def)
  with command_commits [OF _ demo_clock r] demo_db_wf demo_plan r show ?thesis by auto
qed



text \<open>
  No lost update. A command that names another version than the stored one is refused with the
  current version, and changes nothing.
\<close>

theorem stale_version_conflicts:
  assumes "items_wf (w_db w)" and p: "planned_at env a cmd w = Inr (call, op)" and g: "env_gate env (w_gate w) = None"
    and "idempotency (w_db w) (actor_id a) (mc_tool_name call) (mc_idempotency_key call) = None"
    and "store_view (w_db w) (mc_id call) = Some item" "owner_id item = env_owner env"
    and "version item \<noteq> mc_expected_version call"
  shows "fst (run_command env a cmd w) = Err (VersionConflict (version item)) \<and> w_db (snd (run_command env a cmd w)) = w_db w"
  using mutate_run(1) [where w = "w\<lparr>w_clock := w_clock w + 1\<rparr>" and env = env and call = call and op = op]
    body_find(2) [where call = call and item = item and env = env and op = op] planned_actor [OF p] assms
  by (simp add: run_planned [OF p])

theorem stale_version_conflicts_witness:
  "fst (run_command demo_env sample_actor (C_Cancel (sample_cancel\<lparr>xr_expected_version := 1\<rparr>)) demo_world) =
     Err (VersionConflict 2)"
proof -
  have p: "command_plan demo_env sample_actor t0 (C_Cancel (sample_cancel\<lparr>xr_expected_version := 1\<rparr>)) =
    Inr (demo_call\<lparr>mc_expected_version := 1\<rparr>, cancel_operation (sample_cancel\<lparr>xr_expected_version := 1\<rparr>) t0)"
    by (simp add: prepare_cancel_def sample_cancel_def sample_actor_def agent_actor_def validate_actor_def trim_def
      is_whitespace_def validate_idempotency_key_def utf8_len_def utf8_width_def is_ascii_alphanumeric_def
      is_ascii_alphabetic_def is_ascii_digit_def required_text_def validate_expected_version_def request_hash_def
      demo_call_def)
  have "idempotency demo_db k tool key = None" for k tool key by (simp add: idempotency_def demo_db_def sample_db_def)
  with stale_version_conflicts [where w = demo_world and env = demo_env and item = sample_item and a = sample_actor
      and cmd = "C_Cancel (sample_cancel\<lparr>xr_expected_version := 1\<rparr>)"] p
    demo_db_wf demo_view demo_owner show ?thesis by (simp add: db_wf_def)
qed



text \<open>
  A key names one request. A command whose key is stored with the digest of another request is
  refused with \<open>IdempotencyKeyReused\<close>, whatever the state of the item, and changes nothing.
\<close>

theorem key_reuse_rejected:
  assumes p: "planned_at env a cmd w = Inr (call, op)" and "env_gate env (w_gate w) = None"
    and "idempotency (w_db w) (actor_id a) (mc_tool_name call) (mc_idempotency_key call) = Some (hash, response)"
    and "hash \<noteq> mc_request_hash call"
  shows "fst (run_command env a cmd w) = Err IdempotencyKeyReused \<and> w_db (snd (run_command env a cmd w)) = w_db w"
  using mutate_run(1) [where w = "w\<lparr>w_clock := w_clock w + 1\<rparr>" and env = env and call = call and op = op]
    body_replay [where call = call and env = env and op = op] planned_actor [OF p] assms
  by (simp add: run_planned [OF p])

theorem key_reuse_rejected_witness:
  "\<exists>w'. w_db w' = demo_db\<lparr>idempotency_table := [\<lparr>i_actor_id = actor_id sample_actor, i_tool_name = ''remindi_cancel'',
       i_key = lit ''key-0002'', i_request_hash = 9, i_response = sample_item, i_remindi_id = 7,
       i_created_at = stamp_of t0, i_expires_at = stamp_of t0\<rparr>]\<rparr> \<and>
     fst (demo_run w') = Err IdempotencyKeyReused"
proof -
  let ?db = "demo_db\<lparr>idempotency_table := [\<lparr>i_actor_id = actor_id sample_actor, i_tool_name = ''remindi_cancel'',
       i_key = lit ''key-0002'', i_request_hash = 9, i_response = sample_item, i_remindi_id = 7,
       i_created_at = stamp_of t0, i_expires_at = stamp_of t0\<rparr>]\<rparr>"
  have "idempotency ?db (actor_id sample_actor) ''remindi_cancel'' (lit ''key-0002'') = Some (9, sample_item)"
    by (simp add: idempotency_def)
  with key_reuse_rejected [where w = "demo_world\<lparr>w_db := ?db\<rparr>" and env = demo_env and a = sample_actor
      and cmd = "C_Cancel sample_cancel" and call = demo_call and op = "cancel_operation sample_cancel t0" and hash = 9] demo_plan
  have "fst (demo_run (demo_world\<lparr>w_db := ?db\<rparr>)) = Err IdempotencyKeyReused" by simp
  then show ?thesis by (intro exI [of _ "demo_world\<lparr>w_db := ?db\<rparr>"]) simp
qed

lemma idempotency_prefix:
  assumes "prefix (idempotency_table d) (idempotency_table d')" and "idempotency d aid tool key = Some v"
  shows "idempotency d' aid tool key = Some v"
  using assms by (auto simp: prefix_def idempotency_def find_append split: option.splits)

lemma run_stored:
  assumes run: "run_command env a cmd w = (Inr item, w')" and p: "planned_at env a cmd w = Inr (call, op)"
  shows "idempotency (w_db w') (actor_id a) (mc_tool_name call) (mc_idempotency_key call) = Some (mc_request_hash call, item)"
proof -
  from run run_planned [OF p] have "mutate env call op (w\<lparr>w_clock := w_clock w + 1\<rparr>) = (Inr item, w')" by simp
  then obtain now c w1 w2 where d: "w_db w1 = w_db w"
    and b: "mutate_body env call op now w1 = (Inr (item, c), w2)"
    and w': "w_db w' = (if c then w_db w2 else w_db w)"
    by (rule mutate_Ok) simp
  from b show ?thesis
  proof (cases rule: mutate_body_cases)
    case replay
    with d w' planned_actor [OF p] show ?thesis by simp
  next
    case (commit it out d1 d2 d3 d4 dets eid at)
    from idempotency_stored [OF commit(11)] commit(1) w' planned_actor [OF p] show ?thesis by simp
  qed
qed

text \<open>
  C5: exactly once. A command that succeeded and is sent again with the same key, at any later time
  and after anything else happened, returns the same response and changes nothing, as long as the
  request still passes validation at the time of the retry.
\<close>

theorem retry_replays:
  assumes "run_command env a cmd w = (Inr item, w')" and "db_extends (w_db w') (w_db w2)"
    and "planned_at env a cmd w2 = Inr (call, op)"
    and "\<forall>n. env_gate env n = None"
  shows "fst (run_command env a cmd w2) = Inr item \<and> w_db (snd (run_command env a cmd w2)) = w_db w2"
proof -
  obtain call1 op1 where p1: "planned_at env a cmd w = Inr (call1, op1)" using run_unplanned [OF assms(1)] by blast
  have c: "call1 = call" by (rule planned_call [OF assms(3) p1])
  have "prefix (idempotency_table (w_db w')) (idempotency_table (w_db w2))" using assms(2) by (simp add: db_extends_def)
  then have "idempotency (w_db w2) (actor_id a) (mc_tool_name call) (mc_idempotency_key call) = Some (mc_request_hash call, item)"
    using run_stored [OF assms(1) p1] c idempotency_prefix by simp
  then have b: "w_db v = w_db w2 \<Longrightarrow> mutate_body env call op now v = (Inr (item, False), v)" for v now
    using body_replay [where w = v and call = call and env = env and op = op and now = now] planned_actor [OF assms(3)] by simp
  let ?w = "w2\<lparr>w_clock := w_clock w2 + 1\<rparr>"
  have "\<exists>w3. mutate env call op ?w = (Inr item, w3) \<and> w_db w3 = (if False then w_db ?w else w_db ?w)"
    using mutate_run(2) [where w = ?w and c = False, OF _ b] assms(4) by simp
  then show ?thesis by (auto simp: run_planned [OF assms(3)])
qed

theorem retry_replays_witness:
  "\<exists>w'. demo_run demo_world = (Inr cancelled_sample, w') \<and> fst (demo_run (demo_world\<lparr>w_db := w_db w'\<rparr>)) = Inr cancelled_sample"
proof -
  obtain w' where r: "demo_run demo_world = (Inr cancelled_sample, w')" using demo_runs by blast
  with retry_replays [OF r, of "demo_world\<lparr>w_db := w_db w'\<rparr>" demo_call "cancel_operation sample_cancel t0"] demo_plan
  show ?thesis by auto
qed

end
