(* ===== verification/Creation.thy ===== *)
theory Creation
  imports Commands
begin

text \<open>
  \<open>RemindiService::add\<close> of \<open>src/remindi/service.rs\<close>: what a successful creation did, and that a creation
  repeated under its key returns the item of the first one.
\<close>

section \<open>The ways through an add\<close>

definition add_plan :: "env \<Rightarrow> actor \<Rightarrow> add_request \<Rightarrow> (service_error, add_request \<times> digest) res" where
  "add_plan env a request =
     rbind (prepare_add a request) (\<lambda>req. rbind (request_hash env (HashAdd req)) (\<lambda>hash. Ok (req, hash)))"

lemma add_planned:
  "add_plan env a request = Inr (req, hash) \<Longrightarrow> add env a request w =
     transaction env (add_body env a req hash (env_clock env (w_clock w))) (w\<lparr>w_clock := w_clock w + 1\<rparr>)"
  by (auto simp: add_plan_def add_def rbind_eq_Inr sbind_slift sbind_clock)

lemma add_unplanned: "add env a request w = (Inr item, w') \<Longrightarrow> \<exists>req hash. add_plan env a request = Inr (req, hash)"
  by (auto simp: add_plan_def add_def svc_simps res_simps simp del: transaction_eq_Inr)

lemma add_Ok:
  assumes run: "add env a request w = (Inr item, w')" and p: "add_plan env a request = Inr (req, hash)"
  obtains c w1 w2 where "w_db w1 = w_db w"
    and "add_body env a req hash (env_clock env (w_clock w)) w1 = (Inr (item, c), w2)"
    and "w_db w' = (if c then w_db w2 else w_db w)"
proof -
  define w0 where "w0 = w\<lparr>w_clock := w_clock w + 1\<rparr>"
  from run have "transaction env (add_body env a req hash (env_clock env (w_clock w))) w0 = (Inr item, w')"
    by (simp add: add_planned [OF p] w0_def)
  then obtain c w1 w2 where "w_db w1 = w_db w0"
    and "add_body env a req hash (env_clock env (w_clock w)) w1 = (Inr (item, c), w2)"
    and "w_db w' = (if c then w_db w2 else w_db w0)"
    by (rule transaction_Ok)
  then show ?thesis by (intro that [where c = c and ?w1.0 = w1 and ?w2.0 = w2]) (simp_all add: w0_def)
qed

lemma add_body_replay:
  "idempotency (w_db w) (actor_id a) ''remindi_add'' (ar_idempotency_key req) = Some (hash, item) \<Longrightarrow>
     add_body env a req hash now w = (Inr (item, False), w)"
  by (simp add: add_body_def sbind_def replay_def slift_def)

lemma add_stored:
  assumes "add env a request w = (Inr item, w')" and p: "add_plan env a request = Inr (req, hash)"
  shows "idempotency (w_db w') (actor_id a) ''remindi_add'' (ar_idempotency_key req) = Some (hash, item)"
  using assms
proof (rule add_Ok)
  fix c w1 w2
  assume d: "w_db w1 = w_db w" and b: "add_body env a req hash (env_clock env (w_clock w)) w1 = (Inr (item, c), w2)"
    and w': "w_db w' = (if c then w_db w2 else w_db w)"
  from b show ?thesis
  proof (cases rule: add_body_cases)
    case replay
    with d w' show ?thesis by simp
  next
    case (commit nf i ne d1 d2 d3 dets eid at)
    from idempotency_stored [OF commit(10)] commit(1) w' show ?thesis by simp
  qed
qed

text \<open>The demo service adds the sample request to an empty database.\<close>

abbreviation demo_add_prepared :: add_request where
  "demo_add_prepared \<equiv> sample_add\<lparr>ar_project_id := lit ''proj'', ar_message := lit ''water the plants'',
     ar_trigger := Interval t0 3600\<rparr>"

definition empty_world :: world where
  "empty_world = demo_world\<lparr>w_db := sample_db\<lparr>remindi_table := []\<rparr>\<rparr>"

lemma empty_world_wf: "db_wf (w_db empty_world)"
  by (simp add: empty_world_def sample_db_def db_wf_def items_wf_def events_wf_def audited_def responses_wf_def)

lemma demo_add_plan: "add_plan demo_env sample_actor sample_add = Inr (demo_add_prepared, 5)"
  using sample_add_prepared
  by (simp add: add_plan_def request_hash_def sample_add_def recurrence_serializable_def every_hour_def
      rfc3339_ok_def year_zero_def max_instant_def t0_def)

abbreviation fresh_item :: remindi where
  "fresh_item \<equiv> new_item demo_env demo_add_prepared 100 t0 (Some t0) None"

lemma fresh_storable: "storable fresh_item" "check_remindi (columns fresh_item)"
  by (simp_all add: new_item_def sample_add_def storable_def times_ok_def counters_ok_def rfc3339_ok_def year_zero_def
      max_instant_def t0_def i64_max_def recurrence_serializable_def every_hour_def check_remindi_def columns_def
      sql_length_def state_variants_def priority_variants_def)

lemma demo_add_runs: "\<exists>w'. add demo_env sample_actor sample_add empty_world = (Inr fresh_item, w')"
proof -
  let ?d0 = "w_db empty_world"
  define d1 where "d1 = ?d0\<lparr>remindi_table := [columns fresh_item]\<rparr>"
  have ins: "insert_remindi ?d0 fresh_item = Inr d1"
    using fresh_storable by (simp add: insert_remindi_def row_of_storable d1_def empty_world_def sample_db_def)
  have ln: "replace_links d1 fresh_item [] = Inr d1"
    by (simp add: replace_links_def d1_def empty_world_def sample_db_def)
  have vi: "valid_instant t0" "valid_instant (t0 + idempotency_retention)"
    by (simp_all add: valid_instant_def min_instant_def max_instant_def t0_def idempotency_retention_def seconds_def ns_per_sec_def)
  have app: "\<exists>rows k. append_event d1 (audit_event sample_actor fresh_item E_Created None (Some 1) dets eid t0)
      = Inr (d1\<lparr>event_table := rows, last_sequence := k\<rparr>)" for dets eid
    using vi(1) by (auto simp: append_event_def audit_event_def timestamp_def canonical_timestamp_def to_utc_def i64_from_u64_def
      i64_try_from_u64_def i64_max_def ok_or_def d1_def empty_world_def sample_db_def)
  have idm: "\<exists>d'. insert_idempotency (d1\<lparr>event_table := rows, last_sequence := k\<rparr>) (actor_id sample_actor) ''remindi_add''
      (ar_idempotency_key demo_add_prepared) 5 fresh_item t0 (t0 + idempotency_retention) = Inr d'" for rows k
    by (rule insert_idempotency_room [OF vi]) (simp add: idempotency_def d1_def empty_world_def sample_db_def)
  have ser: "trigger_serializable (trigger fresh_item)" "recurrence_serializable (recurrence fresh_item)"
    using fresh_storable(1) by (simp_all add: storable_def)
  have none: "idempotency ?d0 k tool key = None" for k tool key by (simp add: idempotency_def empty_world_def sample_db_def)
  have init: "initial_next_fire_at (ar_trigger demo_add_prepared) t0 = Ok (Some t0)"
    "initial_next_evaluation_at (ar_trigger demo_add_prepared) t0 = Ok None" "ar_links demo_add_prepared = []"
    by (simp_all add: initial_next_fire_at_def initial_next_evaluation_at_def sample_add_def)
  let ?w1 = "empty_world\<lparr>w_clock := 1, w_gate := 1\<rparr>"
  have n: "env_ids demo_env (w_ids empty_world) = 100" "w_clock empty_world = 0" "w_gate empty_world = 0"
    by (simp_all add: empty_world_def)
  have body: "\<exists>w2. add_body demo_env sample_actor demo_add_prepared 5 t0 ?w1 = (Inr (fresh_item, True), w2)"
  proof -
    obtain rows k where a: "append_event d1 (audit_event sample_actor fresh_item E_Created None (Some 1)
        (JObj [(''trigger_type'', JStr (lit (trigger_type (trigger fresh_item)))),
                          (''project_id'', JStr (project_id fresh_item)),
                          (''task_id'', json_opt JStr (task_id fresh_item))]) 101 t0)
      = Inr (d1\<lparr>event_table := rows, last_sequence := k\<rparr>)" using app by blast
    obtain d' where i: "insert_idempotency (d1\<lparr>event_table := rows, last_sequence := k\<rparr>) (actor_id sample_actor) ''remindi_add''
      (ar_idempotency_key demo_add_prepared) 5 fresh_item t0 (t0 + idempotency_retention) = Inr d'" using idm by blast
    show ?thesis
      using none init ins ln a i ser vi(2) n
      by (simp add: add_body_def sbind_def replay_def slift_def next_id_def db_exec_def db_write_def append_audit_def
        clock_now_def store_idempotency_def audit_event_def time_add_def links_of_def Let_def del: new_item_simps)
  qed
  then show ?thesis
    by (auto simp: add_planned [OF demo_add_plan] transaction_as_def gate_as_def n)
qed

section \<open>Properties\<close>

text \<open>
  C4: what a successful \<open>add\<close> did: either it replays the stored response of its key, or it is one
  committed creation (\<open>added\<close>): an unused identifier now maps to a scheduled item in version 1 with
  the normalised message and trigger, every other item is unchanged, one \<open>created\<close> event was
  appended, and the response is stored under the key.
\<close>

theorem add_commits:
  assumes wf: "db_wf (w_db w)" and clk: "clock_ok env" and run: "add env a request w = (Inr item, w')"
  shows "\<exists>req hash. add_plan env a request = Inr (req, hash) \<and>
    (idempotency (w_db w) (actor_id a) ''remindi_add'' (ar_idempotency_key req) = Some (hash, item) \<and> w_db w' = w_db w \<or>
     added env a req hash (w_db w) item (w_db w'))"
proof -
  obtain req hash where p: "add_plan env a request = Inr (req, hash)" using add_unplanned [OF run] by blast
  from run p show ?thesis
  proof (rule add_Ok)
    fix c w1 w2
    assume *: "w_db w1 = w_db w" "add_body env a req hash (env_clock env (w_clock w)) w1 = (Inr (item, c), w2)"
      "w_db w' = (if c then w_db w2 else w_db w)"
    show ?thesis
    proof (cases c)
      case True
      with add_body_commit(3) [of w1 "env_clock env (w_clock w)" env a req hash item w2] * wf clock_ok_low [OF clk] p
      show ?thesis by auto
    next
      case False
      with * p show ?thesis by (auto elim: add_body_cases)
    qed
  qed
qed

theorem add_commits_witness:
  "\<exists>w'. add demo_env sample_actor sample_add empty_world = (Inr fresh_item, w') \<and>
     added demo_env sample_actor demo_add_prepared 5 (w_db empty_world) fresh_item (w_db w')"
proof -
  obtain w' where r: "add demo_env sample_actor sample_add empty_world = (Inr fresh_item, w')" using demo_add_runs by blast
  have "idempotency (w_db empty_world) k tool key = None" for k tool key
    by (simp add: idempotency_def empty_world_def sample_db_def)
  with add_commits [OF empty_world_wf demo_clock r] demo_add_plan r show ?thesis by auto
qed

text \<open>
  Creating is idempotent: the same request sent again under the same key, after any further
  history, returns the item as it was created and creates nothing.
\<close>

theorem add_retry_replays:
  assumes "add env a request w = (Inr item, w')" and "db_extends (w_db w') (w_db w2)" and "\<forall>n. env_gate env n = None"
  shows "fst (add env a request w2) = Inr item \<and> w_db (snd (add env a request w2)) = w_db w2"
proof -
  obtain req hash where p: "add_plan env a request = Inr (req, hash)" using add_unplanned [OF assms(1)] by blast
  have "prefix (idempotency_table (w_db w')) (idempotency_table (w_db w2))" using assms(2) by (simp add: db_extends_def)
  then have "idempotency (w_db w2) (actor_id a) ''remindi_add'' (ar_idempotency_key req) = Some (hash, item)"
    using add_stored [OF assms(1) p] idempotency_prefix by blast
  then have "add_body env a req hash now v = (Inr (item, False), v)" if "w_db v = w_db w2" for now v
    using add_body_replay that by simp
  with assms(3) show ?thesis by (simp add: add_planned [OF p] transaction_as_def gate_as_def)
qed

theorem add_retry_replays_witness:
  "\<exists>w'. add demo_env sample_actor sample_add empty_world = (Inr fresh_item, w') \<and>
     fst (add demo_env sample_actor sample_add (empty_world\<lparr>w_db := w_db w'\<rparr>)) = Inr fresh_item"
proof -
  obtain w' where r: "add demo_env sample_actor sample_add empty_world = (Inr fresh_item, w')" using demo_add_runs by blast
  with add_retry_replays [OF r, of "empty_world\<lparr>w_db := w_db w'\<rparr>"] show ?thesis by auto
qed

end
