(* ===== verification/History.thy ===== *)
theory History
  imports Guarantees
begin

text \<open>
  The program as a transition system. A history is the list of the databases after every
  transaction so far, newest first. Each rule is one handler of the service running its
  transaction on the newest database; the reading half of a check and of a scheduler poll may
  have read any older one. The theorems are by induction over the rules: the invariant of every
  database, the order of history, and the state diagram of an item.
\<close>

section \<open>Histories\<close>

definition empty_db :: db where
  "empty_db = \<lparr>remindi_table = [], link_table = [], event_table = [], last_sequence = 0,
     evidence_table = [], idempotency_table = [], lease_table = [], runtime_table = []\<rparr>"

inductive timeline :: "env \<Rightarrow> db list \<Rightarrow> bool" for env :: env where
  start: "timeline env [empty_db]"
| add: "timeline env (d # h) \<Longrightarrow> w_db w = d \<Longrightarrow> add env a req w = (r, w') \<Longrightarrow> timeline env (w_db w' # d # h)"
| complete: "timeline env (d # h) \<Longrightarrow> w_db w = d \<Longrightarrow> complete env a creq skew w = (r, w') \<Longrightarrow>
    timeline env (w_db w' # d # h)"
| snooze: "timeline env (d # h) \<Longrightarrow> w_db w = d \<Longrightarrow> snooze env a sreq horizon w = (r, w') \<Longrightarrow>
    timeline env (w_db w' # d # h)"
| cancel: "timeline env (d # h) \<Longrightarrow> w_db w = d \<Longrightarrow> cancel env a xreq w = (r, w') \<Longrightarrow>
    timeline env (w_db w' # d # h)"
| update: "timeline env (d # h) \<Longrightarrow> w_db w = d \<Longrightarrow> update env a ureq w = (r, w') \<Longrightarrow>
    timeline env (w_db w' # d # h)"
| check: "timeline env (d # h) \<Longrightarrow> d0 \<in> set (d # h) \<Longrightarrow> w_db w0 = d0 \<Longrightarrow>
    check_plan env a kreq w0 = (Inr plan, w1) \<Longrightarrow> w_db w = d \<Longrightarrow> check_apply env a plan w = (kr, w') \<Longrightarrow>
    timeline env (w_db w' # d # h)"
| schedule: "timeline env (d # h) \<Longrightarrow> d0 \<in> set (d # h) \<Longrightarrow> w_db w0 = d0 \<Longrightarrow> now \<in> range (env_clock env) \<Longrightarrow>
    scheduler_candidates_of env now limit w0 = (Inr items, w1) \<Longrightarrow> prior \<in> set items \<Longrightarrow> w_db w = d \<Longrightarrow>
    apply_scheduler_evaluation env a prior now c detail w = (u, w') \<Longrightarrow> timeline env (w_db w' # d # h)"

inductive_cases timeline_NilE: "timeline env []"
inductive_cases timeline_ConsE: "timeline env (d # h)"

lemma empty_db_wf: "db_wf empty_db"
  by (simp add: empty_db_def db_wf_def items_wf_def events_wf_def audited_def responses_wf_def)

lemma scheduler_rows_subset: "set (scheduler_rows d owner now limit) \<subseteq> set (remindi_table d)"
  by (auto simp: scheduler_rows_def dest!: in_set_takeD)

lemma scheduler_candidates_seen:
  assumes wf: "db_wf (w_db w)" and run: "scheduler_candidates_of env now limit w = (Inr items, w')"
    and "prior \<in> set items"
  shows "seen (w_db w) prior"
proof -
  from run obtain n where "collect_map remindi_from_row (scheduler_rows (w_db w) (env_owner env) n limit) = Inr items"
    by (auto simp: scheduler_candidates_of_def svc_simps scheduler_candidates_def rbind_eq_Inr split: if_splits)
  with read_rows_seen [OF _ scheduler_rows_subset] wf assms(3)
  have "store_view (w_db w) (remindi_id prior) = Some prior" by (simp add: db_wf_def)
  with wf show ?thesis by (rule seen_now)
qed

text \<open>Every database of a history is well formed, and later ones extend earlier ones.\<close>

definition timeline_wf :: "db list \<Rightarrow> bool" where
  "timeline_wf h \<longleftrightarrow> (\<forall>d \<in> set h. db_wf d) \<and> sorted_wrt (\<lambda>new old. db_extends old new) h"

lemma timeline_wf_Cons:
  assumes "timeline_wf (d # h)" and "good_step d d'"
  shows "timeline_wf (d' # d # h)"
  using assms db_extends_trans by (auto simp: timeline_wf_def good_step_def)

lemma timeline_wf_hd: "timeline_wf (d # h) \<Longrightarrow> db_wf d"
  by (simp add: timeline_wf_def)

lemma timeline_wf_extends: "timeline_wf (d # h) \<Longrightarrow> d0 \<in> set (d # h) \<Longrightarrow> db_wf d0 \<and> db_extends d0 d"
  by (auto simp: timeline_wf_def)

lemma plan_ok_older: "db_extends d0 d \<Longrightarrow> plan_ok d0 ctx now page \<Longrightarrow> plan_ok d ctx now page"
  unfolding plan_ok_def using seen_extends by fastforce

lemma timeline_inv: "timeline env h \<Longrightarrow> clock_ok env \<Longrightarrow> timeline_wf h"
proof (induction rule: timeline.induct)
  case start
  then show ?case by (simp add: timeline_wf_def empty_db_wf)
next
  case (add d h w a req r w')
  with add_good [of w env a req r w'] show ?case
    by (intro timeline_wf_Cons) (auto dest: timeline_wf_hd)
next
  case (complete d h w a creq skew r w')
  with handlers_good(1) [of w env a creq skew r w'] show ?case
    by (intro timeline_wf_Cons) (auto dest: timeline_wf_hd)
next
  case (snooze d h w a sreq horizon r w')
  with handlers_good(2) [of w env a sreq horizon r w'] show ?case
    by (intro timeline_wf_Cons) (auto dest: timeline_wf_hd)
next
  case (cancel d h w a xreq r w')
  with handlers_good(3) [of w env a xreq r w'] show ?case
    by (intro timeline_wf_Cons) (auto dest: timeline_wf_hd)
next
  case (update d h w a ureq r w')
  with handlers_good(4) [of w env a ureq r w'] show ?case
    by (intro timeline_wf_Cons) (auto dest: timeline_wf_hd)
next
  case (check d h d0 w0 a kreq plan w1 w kr w')
  then have hw: "timeline_wf (d # h)" by simp
  note old = timeline_wf_extends [OF hw check.hyps(2)]
  obtain ctx now page cursor where p: "plan = (ctx, now, page, cursor)" by (cases plan)
  note pl = check_plan_ok [OF _ check.hyps(4) [unfolded p]]
  have "plan_ok d0 ctx now page" and "year_zero \<le> now"
    using pl old check.hyps(3) clock_ok_low [OF check.prems] by auto
  then have "plan_ok d ctx now page" using plan_ok_older old by blast
  with \<open>year_zero \<le> now\<close> have "good_step d (w_db w')"
    using check_apply_good [of w now ctx page env a cursor kr w'] check.hyps timeline_wf_hd [OF hw]
    by (simp add: p)
  with hw show ?case by (rule timeline_wf_Cons)
next
  case (schedule d h d0 w0 now limit items w1 prior w a c detail u w')
  then have hw: "timeline_wf (d # h)" by simp
  note old = timeline_wf_extends [OF hw schedule.hyps(2)]
  have "seen d0 prior"
    using scheduler_candidates_seen [of w0 env now limit items w1 prior] schedule.hyps old by simp
  then have "seen d prior" using old seen_extends by blast
  moreover have "year_zero \<le> now" using schedule.hyps(4) clock_ok_low [OF schedule.prems] by auto
  ultimately have "good_step d (w_db w')"
    using scheduler_good [of w now prior env a c detail u w'] schedule.hyps timeline_wf_hd [OF hw] by simp
  with hw show ?case by (rule timeline_wf_Cons)
qed

section \<open>The state diagram\<close>

text \<open>
  The transitions of section 10 of \<open>docs/SPEC.md\<close>, and the one the code has beyond them: a snoozed
  item whose grace period has elapsed wakes directly as overdue.
\<close>

inductive documented :: "remindi_state \<Rightarrow> remindi_state \<Rightarrow> bool" where
  trigger_satisfied: "documented Scheduled Due"
| snooze_reached: "documented Snoozed Due"
| grace_elapsed: "documented Due Overdue"
| snoozed: "s \<in> {Due, Overdue} \<Longrightarrow> documented s Snoozed"
| acknowledged: "s \<in> {Due, Overdue} \<Longrightarrow> documented s Scheduled"
| evidence_supplied: "is_active s \<Longrightarrow> documented s Completed"
| cancelled: "is_active s \<Longrightarrow> documented s Cancelled"
| trigger_replaced: "documented Snoozed Scheduled"
| unchanged: "is_active s \<Longrightarrow> documented s s"

inductive_simps documented_simps: "documented s t"

definition transition :: "remindi_state \<Rightarrow> remindi_state \<Rightarrow> bool" where
  "transition s t \<longleftrightarrow> documented s t \<or> (s = Snoozed \<and> t = Overdue)"

text \<open>Every operation of an item is a transition of the diagram.\<close>

lemma command_states:
  "snooze_item r until reason now = Inr (r', e) \<Longrightarrow> state r \<in> {Due, Overdue} \<and> state r' = Snoozed"
  "complete_item r txt now = Inr (r', e) \<Longrightarrow> is_active (state r) \<and> state r' = Completed"
  "cancel_item r reason now = Inr (r', e) \<Longrightarrow> is_active (state r) \<and> state r' = Cancelled"
  by (auto simp: snooze_item_Ok complete_item_Ok cancel_item_Ok)

lemma snooze_transition: "snooze_operation req now r = Inr (r', out) \<Longrightarrow> transition (state r) (state r')"
  unfolding transition_def documented_simps
  by (drule snooze_operation_Ok, elim conjE, drule command_states(1)) auto

lemma complete_transition: "complete_operation req ev now r = Inr (r', out) \<Longrightarrow> transition (state r) (state r')"
  unfolding transition_def documented_simps
  by (drule complete_operation_Ok, elim conjE, drule command_states(2)) auto

lemma cancel_transition: "cancel_operation req now r = Inr (r', out) \<Longrightarrow> transition (state r) (state r')"
  unfolding transition_def documented_simps
  by (drule cancel_operation_Ok, elim conjE, drule command_states(3)) auto

lemma update_transition:
  assumes "update_operation req now r = Inr (r', out)"
  shows "transition (state r) (state r')"
proof -
  have "is_active (state r)" using update_operation_active(1) [OF assms] .
  moreover have "ur_disposition req \<noteq> None \<Longrightarrow> state r \<in> {Due, Overdue}"
    using assms by (rule update_operation_Ok) blast
  ultimately show ?thesis
    using update_operation_step(5) [OF assms] unfolding transition_def documented_simps by auto
qed

lemma evaluate_transition:
  assumes "evaluate r now ctx c = Inr (r', out)"
  shows "transition (state r) (state r')"
proof -
  have "is_active (state r)"
    using assms by (auto simp: evaluate_def is_active_iff_not_terminal split: if_splits)
  with assms show ?thesis
    by (cases rule: evaluate_cases) (auto simp: transition_def documented_simps)
qed

end
