(* ===== verification/Listing.thy ===== *)
theory Listing
  imports Commands "HOL-Library.Multiset"
begin

text \<open>
  The paginated reads of \<open>src/remindi/service.rs\<close> as instances of keyset pagination: the cursor texts
  of the item list and of the check plan. A client that follows \<open>next_cursor\<close> on an unchanged
  database receives every matching item exactly once, in the documented order.
\<close>

section \<open>The item list\<close>

definition list_text :: "(cursor_bytes \<Rightarrow> nat) \<Rightarrow> remindi \<Rightarrow> cursor_text" where
  "list_text mac item = encode_cursor mac ''list''
     (ListCursorValue \<lparr>lc_created_at = stamp_of (created_at item), lc_id = remindi_id item\<rparr>)"

definition list_text_after :: "(cursor_bytes \<Rightarrow> nat) \<Rightarrow> remindi \<Rightarrow> cursor_text \<Rightarrow> bool" where
  "list_text_after mac item t =
     (case decode_list_cursor mac t of
        Inl _ \<Rightarrow> False | Inr c \<Rightarrow> list_after (columns item) (lc_created_at c, lc_id c))"

interpretation list_keyset: keyset "\<lambda>i. list_key (columns i)" "list_text_after mac" "list_text mac" "\<lambda>_. True" for mac
  by unfold_locales
    (auto simp: list_text_after_def list_text_def list_after_def list_key_def)

text \<open>All items a list request matches, newest first.\<close>

definition listed :: "db \<Rightarrow> list_filter \<Rightarrow> remindi list" where
  "listed d f = map (\<lambda>row. projr (remindi_from_row row)) (sort_key list_key (filter (list_where d f) (remindi_table d)))"

definition list_fetch ::
  "env \<Rightarrow> actor \<Rightarrow> list_request \<Rightarrow> world \<Rightarrow> cursor_text option \<Rightarrow> remindi list \<times> cursor_text option" where
  "list_fetch env a req w c =
     (case fst (list_items env a (req\<lparr>lr_cursor := c\<rparr>) w) of Inr page \<Rightarrow> page | Inl _ \<Rightarrow> ([], None))"

lemma filter_sort_key: "filter P (sort_key f xs) = sort_key f (filter P xs)"
  by (simp add: filter_sort)

lemma listed_rows:
  assumes "items_wf d"
  shows "sort_key list_key (filter (list_where d f) (remindi_table d)) = map columns (listed d f)"
    and "\<forall>item \<in> set (listed d f). storable item \<and> stored item = item"
proof -
  let ?rows = "sort_key list_key (filter (list_where d f) (remindi_table d))"
  have row: "columns (projr (remindi_from_row row)) = row \<and> storable (projr (remindi_from_row row)) \<and>
      stored (projr (remindi_from_row row)) = projr (remindi_from_row row)" if "row \<in> set ?rows" for row
    using items_wf_row [OF assms, of row] that by (auto elim!: row_okE)
  have "map columns (listed d f) = map (\<lambda>row. columns (projr (remindi_from_row row))) ?rows"
    by (simp add: listed_def comp_def)
  also have "\<dots> = ?rows" by (rule map_idI) (use row in blast)
  finally show "?rows = map columns (listed d f)" ..
  from row show "\<forall>item \<in> set (listed d f). storable item \<and> stored item = item" by (auto simp: listed_def)
qed

lemma collect_columns:
  "\<forall>item \<in> set items. storable item \<and> stored item = item \<Longrightarrow> collect_map remindi_from_row (map columns items) = Ok items"
  by (induction items) (auto simp: from_row_columns storable_def)

text \<open>One request is one page of the keyset pagination of the matching items.\<close>

definition matching :: "env \<Rightarrow> list_request \<Rightarrow> db \<Rightarrow> remindi list" where
  "matching env req d = listed d (list_filter_of env req 0 None)"

lemma list_where_of: "list_where d (list_filter_of env (req\<lparr>lr_cursor := c\<rparr>) limit k) = list_where d (list_filter_of env req 0 None)"
  by (simp add: list_where_def list_filter_of_def fun_eq_iff)

lemma list_rows_of:
  assumes "items_wf d"
  shows "list_rows d (list_filter_of env (req\<lparr>lr_cursor := c\<rparr>) limit k) =
    map columns (take (limit + 1) (case k of None \<Rightarrow> matching env req d
      | Some v \<Rightarrow> filter (\<lambda>i. list_after (columns i) (lc_created_at v, lc_id v)) (matching env req d)))"
proof -
  let ?f = "list_filter_of env req 0 None"
  note rows = listed_rows(1) [OF assms, of ?f]
  show ?thesis
  proof (cases k)
    case None
    then show ?thesis
      using rows by (simp add: list_rows_def list_where_of matching_def take_map [symmetric])
        (simp add: list_filter_of_def take_map)
  next
    case (Some v)
    have "filter (\<lambda>r. list_after r (lc_created_at v, lc_id v)) (sort_key list_key (filter (list_where d ?f) (remindi_table d)))
       = sort_key list_key (filter (\<lambda>r. list_where d ?f r \<and> list_after r (lc_created_at v, lc_id v)) (remindi_table d))"
      by (simp add: filter_sort_key)
    then have "sort_key list_key (filter (\<lambda>r. list_where d ?f r \<and> list_after r (lc_created_at v, lc_id v)) (remindi_table d))
       = map columns (filter (\<lambda>i. list_after (columns i) (lc_created_at v, lc_id v)) (matching env req d))"
      unfolding rows by (simp add: matching_def filter_map comp_def)
    with Some show ?thesis
      by (simp add: list_rows_def list_where_of) (simp add: list_filter_of_def take_map)
  qed
qed

lemma matching_good: "items_wf d \<Longrightarrow> \<forall>item \<in> set (matching env req d). storable item \<and> stored item = item"
  unfolding matching_def by (rule listed_rows(2))

lemma canonical_created:
  "storable item \<Longrightarrow> canonical_timestamp (created_at item) = Ok (stamp_of (created_at item))"
  using rfc3339_ok_valid by (simp add: storable_def times_ok_def canonical_timestamp_def to_utc_def)

text \<open>A request that passes the checks that do not read the cursor.\<close>

definition list_admitted :: "env \<Rightarrow> actor \<Rightarrow> list_request \<Rightarrow> world \<Rightarrow> nat \<Rightarrow> bool" where
  "list_admitted env a req w limit \<longleftrightarrow>
     validate_actor a = Ok () \<and> validate_trigger_types (lr_trigger_types req) = Ok () \<and>
     page_limit (lr_limit req) 50 = Ok limit \<and> env_gate env (w_gate w) = None"

lemma list_fetch_page:
  assumes wf: "items_wf (w_db w)" and ok: "list_admitted env a req w limit"
  shows "list_fetch env a req w = keyset_page (list_text_after (env_mac env)) (list_text (env_mac env)) limit
           (matching env req (w_db w))"
proof
  fix c
  let ?xs = "matching env req (w_db w)"
  let ?run = "list_items env a (req\<lparr>lr_cursor := c\<rparr>)"
  have lim: "limit \<le> max_page" "0 < limit" using ok by (auto simp: list_admitted_def page_limit_Ok)
  then have n: "int (Suc limit) \<le> i64_max" by (simp add: max_page_def i64_max_def)
  have page: "fst (?run w) = Inr (take limit ys, if length ys > limit then Some (list_text (env_mac env) (last (take limit ys))) else None)"
    if k: "transpose_map (decode_list_cursor (env_mac env)) c = Inr k"
      and ys: "ys = (case k of None \<Rightarrow> ?xs | Some v \<Rightarrow> filter (\<lambda>i. list_after (columns i) (lc_created_at v, lc_id v)) ?xs)"
    for k ys
  proof -
    have good: "\<forall>item \<in> set (take (Suc limit) ys). storable item \<and> stored item = item"
      using matching_good [OF wf, of env req] by (auto simp: ys dest!: in_set_takeD split: option.splits)
    have "collect_map remindi_from_row (list_rows (w_db w) (list_filter_of env (req\<lparr>lr_cursor := c\<rparr>) limit k)) = Ok (take (Suc limit) ys)"
      unfolding list_rows_of [OF wf] ys [symmetric] using collect_columns [OF good] by simp
    then have read: "list_remindi (w_db w) (list_filter_of env (req\<lparr>lr_cursor := c\<rparr>) limit k) = Ok (take (Suc limit) ys)"
      using n by (simp add: list_remindi_def) (simp add: list_filter_of_def)
    show ?thesis
    proof (cases "length ys > limit")
      case True
      have ne: "take limit ys \<noteq> []" using True lim by auto
      then have "last (take limit ys) \<in> set (take (Suc limit) ys)"
        using last_in_set [OF ne] set_take_subset_set_take [of limit "Suc limit" ys] by auto
      with good have "canonical_timestamp (created_at (last (take limit ys))) = Ok (stamp_of (created_at (last (take limit ys))))"
        using canonical_created by blast
      with True ne read ok k show ?thesis
        by (simp add: list_items_def list_admitted_def sbind_def slift_def gate_as_def db_read_def Let_def list_text_def
            min_def)
    next
      case False
      with read ok k show ?thesis
        by (simp add: list_items_def list_admitted_def sbind_def slift_def gate_as_def db_read_def Let_def min_def)
    qed
  qed
  show "list_fetch env a req w c = keyset_page (list_text_after (env_mac env)) (list_text (env_mac env)) limit ?xs c"
  proof (cases c)
    case None
    then show ?thesis using page [of None ?xs] by (simp add: list_fetch_def keyset_page_def Let_def)
  next
    case (Some t)
    show ?thesis
    proof (cases "decode_list_cursor (env_mac env) t")
      case (Inl e)
      with Some ok show ?thesis
        by (simp add: list_fetch_def keyset_page_def list_text_after_def list_items_def list_admitted_def
            sbind_def slift_def)
    next
      case (Inr v)
      with Some show ?thesis
        using page [of "Some v"] by (simp add: list_fetch_def keyset_page_def list_text_after_def Let_def)
    qed
  qed
qed

lemma matching_ordered:
  assumes wf: "items_wf d"
  shows "list_keyset.ordered (matching env req d)"
proof -
  let ?f = "list_filter_of env req 0 None"
  let ?rows = "filter (list_where d ?f) (remindi_table d)"
  have "distinct (map list_key (sort_key list_key ?rows))"
  proof -
    have "distinct (map c_id ?rows)" using wf by (simp add: items_wf_def distinct_map_filter)
    then have "distinct (map list_key ?rows)" by (auto simp: distinct_map inj_on_def list_key_def)
    then show ?thesis by (simp add: distinct_map)
  qed
  then have "sorted_wrt (<) (map list_key (sort_key list_key ?rows))" by (simp add: strict_sorted_iff)
  then have "sorted_wrt (\<lambda>x y. list_key (columns x) < list_key (columns y)) (matching env req d)"
    unfolding listed_rows(1) [OF wf] by (simp add: matching_def sorted_wrt_map)
  then show ?thesis by (simp add: list_keyset.ordered_def)
qed

lemma list_walk:
  assumes "items_wf (w_db w)" and "list_admitted env a req w limit"
    and "length (matching env req (w_db w)) < fuel"
  shows "\<exists>pages. walk_pages fuel (list_fetch env a req w) None = Some pages \<and> concat pages = matching env req (w_db w)"
proof -
  have "0 < limit" using assms(2) by (auto simp: list_admitted_def page_limit_Ok)
  from list_keyset.walk_all [OF matching_ordered [OF assms(1)] this assms(3)]
  show ?thesis unfolding list_fetch_page [OF assms(1,2)] .
qed

lemma matching_set:
  assumes "items_wf d"
  shows "item \<in> set (matching env req d) \<longleftrightarrow>
    store_view d (remindi_id item) = Some item \<and> list_where d (list_filter_of env req 0 None) (columns item)"
proof
  assume "item \<in> set (matching env req d)"
  then obtain row where row: "row \<in> set (remindi_table d)" "list_where d (list_filter_of env req 0 None) row"
    and item: "item = projr (remindi_from_row row)"
    by (auto simp: matching_def listed_def)
  from items_wf_row [OF assms row(1)] row item
  show "store_view d (remindi_id item) = Some item \<and> list_where d (list_filter_of env req 0 None) (columns item)"
    by (auto elim!: row_okE simp: store_view_iff [OF assms] storable_def)
next
  assume *: "store_view d (remindi_id item) = Some item \<and> list_where d (list_filter_of env req 0 None) (columns item)"
  then have "columns item \<in> set (remindi_table d)" "stored item = item" "times_ok item"
    by (simp_all add: store_view_iff [OF assms])
  with * show "item \<in> set (matching env req d)"
    by (force simp: matching_def listed_def from_row_columns intro!: image_eqI [of _ _ "columns item"])
qed

section \<open>The check plan\<close>

definition plan_key :: "planned \<Rightarrow> nat \<times> int \<times> bool \<times> int \<times> nat" where
  "plan_key p = check_key (fst (snd p))"

definition plan_text :: "(cursor_bytes \<Rightarrow> nat) \<Rightarrow> planned \<Rightarrow> cursor_text" where
  "plan_text mac p = encode_cursor mac ''check'' (CheckCursorValue (check_cursor_value (fst (snd p))))"

definition plan_text_after :: "(cursor_bytes \<Rightarrow> nat) \<Rightarrow> planned \<Rightarrow> cursor_text \<Rightarrow> bool" where
  "plan_text_after mac p t =
     (case decode_check_cursor mac t of Inl _ \<Rightarrow> False | Inr c \<Rightarrow> check_after_cursor (fst (snd p)) c)"

definition plan_stored :: "planned \<Rightarrow> bool" where
  "plan_stored p \<longleftrightarrow> stored_schedule (fst (snd p))"

interpretation plan_keyset: keyset plan_key "plan_text_after mac" "plan_text mac" plan_stored for mac
  by unfold_locales
    (simp add: plan_text_after_def plan_text_def plan_key_def plan_stored_def check_after_cursor_key)

text \<open>One page of a plan for a cursor text, as \<open>check\<close> computes it.\<close>

definition plan_fetch ::
  "env \<Rightarrow> nat \<Rightarrow> planned list \<Rightarrow> cursor_text option \<Rightarrow> planned list \<times> cursor_text option" where
  "plan_fetch env limit ready c =
     (case rbind (transpose_map (decode_check_cursor (env_mac env)) c) (\<lambda>k. plan_page env limit k ready) of
        Inr page \<Rightarrow> page | Inl _ \<Rightarrow> ([], None))"

lemma plan_sorted: "sort_by (\<lambda>l r. check_order (fst (snd l)) (fst (snd r))) ready = sort_key plan_key ready"
  by (rule sort_by_key) (simp add: check_order_key plan_key_def)

lemma plan_fetch_page:
  assumes good: "\<forall>p \<in> set ready. plan_stored p" and lim: "0 < limit"
  shows "plan_fetch env limit ready = keyset_page (plan_text_after (env_mac env)) (plan_text (env_mac env)) limit
           (sort_key plan_key ready)"
proof
  fix c
  let ?xs = "sort_key plan_key ready"
  have page: "plan_page env limit k ready = Inr (take limit ys, if length ys > limit then Some (plan_text (env_mac env) (last (take limit ys))) else None)"
    if ys: "ys = (case k of None \<Rightarrow> ?xs | Some v \<Rightarrow> filter (\<lambda>p. check_after_cursor (fst (snd p)) v) ?xs)" for k ys
  proof (cases "length ys > limit")
    case True
    have ne: "take limit ys \<noteq> []" using True lim by auto
    then have "last (take limit ys) \<in> set ready"
      using in_set_takeD [OF last_in_set [OF ne]] by (auto simp: ys split: option.splits)
    with good have "check_cursor_of (fst (snd (last (take limit ys)))) = Ok (check_cursor_value (fst (snd (last (take limit ys)))))"
      using check_cursor_of_stored by (simp add: plan_stored_def)
    with True ne show ?thesis
      by (simp add: plan_page_def plan_sorted Let_def ys [symmetric] plan_text_def)
  next
    case False
    then show ?thesis by (simp add: plan_page_def plan_sorted Let_def ys [symmetric])
  qed
  show "plan_fetch env limit ready c = keyset_page (plan_text_after (env_mac env)) (plan_text (env_mac env)) limit ?xs c"
  proof (cases c)
    case None
    then show ?thesis using page [of ?xs None] by (simp add: plan_fetch_def keyset_page_def Let_def)
  next
    case (Some t)
    then show ?thesis
      using page [of _ "Some v" for v]
      by (cases "decode_check_cursor (env_mac env) t")
        (simp_all add: plan_fetch_def keyset_page_def plan_text_after_def Let_def)
  qed
qed

lemma plan_walk:
  assumes good: "\<forall>p \<in> set ready. plan_stored p" and lim: "0 < limit"
    and dist: "distinct (map (\<lambda>p. remindi_id (ci_remindi (fst (snd p)))) ready)" and fuel: "length ready < fuel"
  shows "\<exists>pages. walk_pages fuel (plan_fetch env limit ready) None = Some pages \<and> concat pages = sort_key plan_key ready"
proof -
  have "distinct (map plan_key ready)"
    using dist by (auto simp: distinct_map inj_on_def plan_key_def check_key_def)
  then have "plan_keyset.ordered (sort_key plan_key ready)"
    using good by (rule plan_keyset.ordered_sort_key)
  from plan_keyset.walk_all [OF this lim, of fuel "env_mac env"] fuel
  show ?thesis unfolding plan_fetch_page [OF good lim] by simp
qed

section \<open>Properties\<close>

text \<open>
  C17: listing is complete and duplicate-free. On an unchanged database, a client that follows
  \<open>next_cursor\<close> receives exactly the stored items that match its filter, each once, newest first with
  ties broken by identifier, whatever the page size.
\<close>

theorem list_walk_complete:
  assumes "items_wf (w_db w)" and "list_admitted env a req w limit"
    and "length (remindi_table (w_db w)) < fuel"
  shows "\<exists>pages. walk_pages fuel (list_fetch env a req w) None = Some pages \<and>
    (\<forall>item. item \<in> set (concat pages) \<longleftrightarrow> store_view (w_db w) (remindi_id item) = Some item \<and>
       list_where (w_db w) (list_filter_of env req 0 None) (columns item)) \<and>
    sorted_wrt (\<lambda>x y. list_key (columns x) < list_key (columns y)) (concat pages)"
proof -
  have "length (matching env req (w_db w)) \<le> length (remindi_table (w_db w))"
    by (simp add: matching_def listed_def)
  then have "length (matching env req (w_db w)) < fuel" using assms(3) by simp
  from list_walk [OF assms(1,2) this] obtain pages where
    p: "walk_pages fuel (list_fetch env a req w) None = Some pages" and c: "concat pages = matching env req (w_db w)"
    by blast
  show ?thesis
    by (rule exI [of _ pages], unfold c)
      (use p matching_set [OF assms(1)] matching_ordered [OF assms(1)] in \<open>simp add: list_keyset.ordered_def\<close>)
qed

definition sample_list :: list_request where
  "sample_list = \<lparr>lr_project_id = None, lr_task_id = None, lr_states = [Due], lr_trigger_types = [],
     lr_linked_goal_id = None, lr_linked_memory_hash = None, lr_limit = 1, lr_cursor = None\<rparr>"

theorem list_walk_complete_witness:
  "\<exists>pages. walk_pages 5 (list_fetch demo_env sample_actor sample_list demo_world) None = Some pages \<and>
     sample_item \<in> set (concat pages)"
proof -
  have "list_admitted demo_env sample_actor sample_list demo_world 1"
    by (simp add: list_admitted_def sample_list_def sample_actor_def agent_actor_def validate_actor_def trim_def
        is_whitespace_def validate_trigger_types_def page_limit_def max_page_def)
  moreover have "length (remindi_table demo_db) < 5" by (simp add: demo_db_def sample_db_def)
  ultimately obtain pages where p: "walk_pages 5 (list_fetch demo_env sample_actor sample_list demo_world) None = Some pages"
    and m: "\<forall>item. item \<in> set (concat pages) \<longleftrightarrow> store_view demo_db (remindi_id item) = Some item \<and>
       list_where demo_db (list_filter_of demo_env sample_list 0 None) (columns item)"
    using list_walk_complete [of demo_world demo_env sample_actor sample_list 1 5] demo_db_wf by (auto simp: db_wf_def)
  have "remindi_id sample_item = 7" by (simp add: sample_item_def)
  moreover have "list_where demo_db (list_filter_of demo_env sample_list 0 None) (columns sample_item)"
    by (simp add: list_where_def list_filter_of_def sample_list_def in_filter_def) (simp add: sample_item_def)
  ultimately have "sample_item \<in> set (concat pages)" using m demo_view by simp
  with p show ?thesis by blast
qed

text \<open>
  The pages of a check partition the plan. Following the check cursor over one plan returns every
  ready item exactly once, in the order of the check: overdue before due before manual verification,
  then by descending priority, then by the earlier schedule, then by identifier.
\<close>

theorem check_walk_complete:
  assumes "\<forall>p \<in> set ready. plan_stored p" and "0 < limit"
    and "distinct (map (\<lambda>p. remindi_id (ci_remindi (fst (snd p)))) ready)" and "length ready < fuel"
  shows "\<exists>pages. walk_pages fuel (plan_fetch env limit ready) None = Some pages \<and>
    mset (concat pages) = mset ready \<and>
    sorted_wrt (\<lambda>p q. check_order (fst (snd p)) (fst (snd q)) = Less) (concat pages)"
proof -
  obtain pages where p: "walk_pages fuel (plan_fetch env limit ready) None = Some pages"
    and c: "concat pages = sort_key plan_key ready"
    using plan_walk [OF assms] by blast
  have "distinct (map plan_key ready)"
    using assms(3) by (auto simp: distinct_map inj_on_def plan_key_def check_key_def)
  then have "sorted_wrt (\<lambda>p q. plan_key p < plan_key q) (sort_key plan_key ready)"
    using plan_keyset.ordered_sort_key [OF _ assms(1)] by (simp add: plan_keyset.ordered_def)
  then have "sorted_wrt (\<lambda>p q. check_order (fst (snd p)) (fst (snd q)) = Less) (concat pages)"
    by (simp add: c check_order_key plan_key_def)
  with p c show ?thesis by simp
qed

abbreviation sample_plan :: "planned list" where
  "sample_plan \<equiv> [(sample_item, \<lparr>ci_remindi = sample_item, ci_readiness = R_Due\<rparr>, []),
     (sample_item, \<lparr>ci_remindi = sample_item\<lparr>remindi_id := 8, priority := Critical\<rparr>, ci_readiness = R_Due\<rparr>, [])]"

theorem check_walk_complete_witness:
  "\<exists>pages. walk_pages 3 (plan_fetch demo_env 1 sample_plan) None = Some pages \<and> mset (concat pages) = mset sample_plan"
proof -
  have "\<forall>p \<in> set sample_plan. plan_stored p"
    by (simp add: plan_stored_def stored_schedule_def sample_item_def valid_instant_def min_instant_def max_instant_def
        t0_def trunc_ms_def ns_per_ms_def)
  moreover have "distinct (map (\<lambda>p. remindi_id (ci_remindi (fst (snd p)))) sample_plan)" by (simp add: sample_item_def)
  ultimately show ?thesis using check_walk_complete [of sample_plan 1 3 demo_env] by auto
qed

end
