(* ===== verification/Text.thy ===== *)
theory Text
  imports Prelude
begin

text \<open>
  Operations of the standard library on text that the outer components use: splitting at a
  character, joining, case-insensitive comparison, parsing an unsigned integer.
\<close>

section \<open>Splitting and joining\<close>

text \<open>\<open>str::split(char)\<close> collected: there is always at least one piece.\<close>

fun split_char :: "nat \<Rightarrow> ustring \<Rightarrow> ustring list" where
  "split_char c [] = [[]]"
| "split_char c (x # xs) =
     (if x = c then [] # split_char c xs
      else (case split_char c xs of [] \<Rightarrow> [[x]] | y # ys \<Rightarrow> (x # y) # ys))"

fun join_char :: "nat \<Rightarrow> ustring list \<Rightarrow> ustring" where
  "join_char c [] = []"
| "join_char c [x] = x"
| "join_char c (x # y # ys) = x @ c # join_char c (y # ys)"

lemma split_char_not_Nil [simp]: "split_char c s \<noteq> []"
  by (cases s) (auto split: list.split)

lemma join_split_char [simp]: "join_char c (split_char c s) = s"
proof (induction s)
  case (Cons x xs)
  obtain y ys where sp: "split_char c xs = y # ys"
    by (cases "split_char c xs") auto
  with Cons show ?case by (cases ys) auto
qed simp

lemma split_char_pieces: "p \<in> set (split_char c s) \<Longrightarrow> c \<notin> set p"
  by (induction s arbitrary: p) (auto split: if_splits list.splits)

lemma split_char_set: "p \<in> set (split_char c s) \<Longrightarrow> set p \<subseteq> set s"
proof (induction s arbitrary: p)
  case (Cons x xs)
  obtain y ys where sp: "split_char c xs = y # ys"
    by (cases "split_char c xs") auto
  from Cons.IH [of p] Cons.IH [of y] Cons.prems show ?case
    by (auto simp: sp split: if_splits)
qed simp

lemma length_join_append:
  assumes "ys \<noteq> []"
  shows "xs \<noteq> [] \<Longrightarrow> length (join_char c (xs @ ys)) = length (join_char c xs) + 1 + length (join_char c ys)"
proof (induction xs)
  case (Cons x xs)
  with assms show ?case by (cases xs; cases ys) auto
qed simp

lemma length_join_take: "length (join_char c (take n xs)) \<le> length (join_char c xs)"
proof (cases "take n xs = [] \<or> drop n xs = []")
  case False
  then have "length (join_char c (take n xs @ drop n xs))
               = length (join_char c (take n xs)) + 1 + length (join_char c (drop n xs))"
    by (intro length_join_append) auto
  then show ?thesis by simp
qed auto

section \<open>Comparison and numbers\<close>

definition eq_ignore_ascii_case :: "ustring \<Rightarrow> ustring \<Rightarrow> bool" where
  "eq_ignore_ascii_case a b \<longleftrightarrow> to_ascii_lowercase a = to_ascii_lowercase b"

text \<open>\<open>char::is_control\<close>: the Unicode category Cc.\<close>

definition is_control :: "nat \<Rightarrow> bool" where
  "is_control c \<longleftrightarrow> c < 32 \<or> (127 \<le> c \<and> c < 160)"

definition decimal_value :: "ustring \<Rightarrow> nat" where
  "decimal_value s = foldl (\<lambda>n c. 10 * n + (c - 48)) 0 s"

text \<open>
  \<open>str::parse\<close> for an unsigned type of \<open>w\<close> bits: an optional plus sign, at least one digit and
  nothing else, and no overflow.
\<close>

definition parse_unsigned :: "nat \<Rightarrow> ustring \<Rightarrow> nat option" where
  "parse_unsigned w s =
     (let digits = (case s of [] \<Rightarrow> [] | c # cs \<Rightarrow> if c = 43 then cs else s)
      in if digits = [] \<or> \<not> list_all is_ascii_digit digits then None
         else if decimal_value digits < 2 ^ w then Some (decimal_value digits) else None)"

lemma parse_unsigned_bound: "parse_unsigned w s = Some n \<Longrightarrow> n < 2 ^ w"
  by (auto simp: parse_unsigned_def Let_def split: if_splits)

section \<open>Checked addition on machine words\<close>

lemma unat_lt_bound: "unat (w :: 'a::len word) < 2 ^ LENGTH('a)"
  by (rule unsigned_less)

definition checked_add :: "u64 \<Rightarrow> u64 \<Rightarrow> u64 option" where
  "checked_add a b = (if unat a + unat b < 2 ^ 64 then Some (a + b) else None)"

lemma checked_add_unat: "checked_add a b = Some c \<Longrightarrow> unat c = unat a + unat b"
  by (auto simp: checked_add_def unat_word_ariths split: if_splits)

section \<open>Looking up by a key\<close>

lemma find_key:
  "distinct (map f xs) \<Longrightarrow> find (\<lambda>x. f x = k) xs = Some x \<longleftrightarrow> x \<in> set xs \<and> f x = k"
  by (induction xs) (auto simp: image_iff)

lemma find_key_SomeD: "find (\<lambda>x. f x = k) xs = Some x \<Longrightarrow> f x = k \<and> x \<in> set xs"
  by (auto simp: find_Some_iff)

lemma find_key_None: "find (\<lambda>x. f x = k) xs = None \<longleftrightarrow> k \<notin> f ` set xs"
  by (induction xs) auto

lemma find_key_update:
  assumes "\<And>x. f (g x) = f x"
  shows "find (\<lambda>x. f x = k) (map g xs) = map_option g (find (\<lambda>x. f x = k) xs)"
  using assms by (induction xs) auto

lemma collect_map_map: "collect_map f (map g xs) = collect_map (f \<circ> g) xs"
  by (induction xs) auto

end
