(* ===== verification/Adapters.thy ===== *)
theory Adapters
  imports Text Model
begin

text \<open>
  \<open>src/triggers/adapters\<close>: the result of an observation, the network policy that denies
  destinations, the four condition adapters and their registry. What the adapters ask of the
  outside is a parameter (name resolution, TCP connections, the HTTP client, the URL parser, the
  file system), indexed by the number of the question where the answer may change between two
  questions. An adapter answers with the observation and with the trace of what it touched, so
  that the containment rules are statements about the trace.
\<close>

section \<open>Results\<close>

datatype adapter_status = AdapterSatisfied | AdapterUnsatisfied | AdapterUnknown | AdapterError

record adapter_metadata =
  am_adapter_version :: ustring
  am_latency_ms :: nat

record adapter_result =
  rs_status :: adapter_status
  rs_observed_at :: instant
  rs_summary :: ustring
  rs_metadata :: adapter_metadata

text \<open>\<open>elapsed\<close> is the run time in milliseconds, a \<open>u128\<close> cut to \<open>u64\<close>.\<close>

definition adapter_result_new :: "adapter_status \<Rightarrow> instant \<Rightarrow> string \<Rightarrow> nat \<Rightarrow> adapter_result" where
  "adapter_result_new status observed text elapsed =
     \<lparr>rs_status = status, rs_observed_at = observed, rs_summary = lit text,
      rs_metadata = \<lparr>am_adapter_version = lit ''1.0.0'',
                     am_latency_ms = (if elapsed < 2 ^ 64 then elapsed else 2 ^ 64 - 1)\<rparr>\<rparr>"

datatype adapter_config_error = AdapterInvalid | OutsideBoundary | DestinationDenied

section \<open>Network policy\<close>

text \<open>The four octets and the eight segments of \<open>std::net\<close>.\<close>

datatype ipv4 = Ipv4 "8 word" "8 word" "8 word" "8 word"

datatype ipv6 = Ipv6 "16 word" "16 word" "16 word" "16 word" "16 word" "16 word" "16 word" "16 word"

datatype ip_addr = V4 ipv4 | V6 ipv6

record socket_addr =
  sa_ip :: ip_addr
  sa_port :: "16 word"

record network_policy =
  allow_private :: bool

definition public_only :: network_policy where
  "public_only = \<lparr>allow_private = False\<rparr>"

definition allow_private_for_admin :: network_policy where
  "allow_private_for_admin = \<lparr>allow_private = True\<rparr>"

text \<open>The predicates of \<open>Ipv4Addr\<close> and \<open>Ipv6Addr\<close>.\<close>

fun v4_is_loopback :: "ipv4 \<Rightarrow> bool" where
  "v4_is_loopback (Ipv4 a b c d) \<longleftrightarrow> a = 127"

fun v4_is_private :: "ipv4 \<Rightarrow> bool" where
  "v4_is_private (Ipv4 a b c d) \<longleftrightarrow>
     a = 10 \<or> (a = 172 \<and> 16 \<le> b \<and> b \<le> 31) \<or> (a = 192 \<and> b = 168)"

fun v4_is_link_local :: "ipv4 \<Rightarrow> bool" where
  "v4_is_link_local (Ipv4 a b c d) \<longleftrightarrow> a = 169 \<and> b = 254"

fun v4_is_multicast :: "ipv4 \<Rightarrow> bool" where
  "v4_is_multicast (Ipv4 a b c d) \<longleftrightarrow> 224 \<le> a \<and> a \<le> 239"

definition denied_v4 :: "ipv4 \<Rightarrow> bool" where
  "denied_v4 address \<longleftrightarrow>
     v4_is_loopback address \<or> v4_is_private address \<or> v4_is_link_local address
     \<or> v4_is_multicast address \<or> address = Ipv4 0 0 0 0 \<or> address = Ipv4 255 255 255 255
     \<or> address = Ipv4 100 100 100 200"

text \<open>\<open>to_ipv4_mapped\<close>: the addresses \<open>::ffff:a.b.c.d\<close>.\<close>

fun to_ipv4_mapped :: "ipv6 \<Rightarrow> ipv4 option" where
  "to_ipv4_mapped (Ipv6 s0 s1 s2 s3 s4 s5 s6 s7) =
     (if s0 = 0 \<and> s1 = 0 \<and> s2 = 0 \<and> s3 = 0 \<and> s4 = 0 \<and> s5 = 0xFFFF
      then Some (Ipv4 (ucast (drop_bit 8 s6)) (ucast s6) (ucast (drop_bit 8 s7)) (ucast s7))
      else None)"

unbundle bit_operations_syntax

fun is_ipv6_unique_local :: "ipv6 \<Rightarrow> bool" where
  "is_ipv6_unique_local (Ipv6 s0 s1 s2 s3 s4 s5 s6 s7) \<longleftrightarrow> s0 AND 0xFE00 = 0xFC00"

fun is_ipv6_link_local :: "ipv6 \<Rightarrow> bool" where
  "is_ipv6_link_local (Ipv6 s0 s1 s2 s3 s4 s5 s6 s7) \<longleftrightarrow> s0 AND 0xFFC0 = 0xFE80"

fun v6_is_multicast :: "ipv6 \<Rightarrow> bool" where
  "v6_is_multicast (Ipv6 s0 s1 s2 s3 s4 s5 s6 s7) \<longleftrightarrow> s0 AND 0xFF00 = 0xFF00"

definition validate_destination ::
  "ip_addr \<Rightarrow> network_policy \<Rightarrow> (adapter_config_error, unit) res" where
  "validate_destination address policy =
     (if allow_private policy then Ok ()
      else
        let denied =
          (case address of
             V4 a \<Rightarrow> denied_v4 a
           | V6 a \<Rightarrow>
               (case to_ipv4_mapped a of
                  Some mapped \<Rightarrow> denied_v4 mapped
                | None \<Rightarrow> a = Ipv6 0 0 0 0 0 0 0 1 \<or> a = Ipv6 0 0 0 0 0 0 0 0 \<or> v6_is_multicast a
                    \<or> is_ipv6_unique_local a \<or> is_ipv6_link_local a))
        in if denied then Err DestinationDenied else Ok ())"

text \<open>The loop of \<open>resolve_target\<close> over the resolved addresses.\<close>

fun validate_addresses ::
  "socket_addr list \<Rightarrow> network_policy \<Rightarrow> (adapter_config_error, unit) res" where
  "validate_addresses [] policy = Ok ()"
| "validate_addresses (address # rest) policy =
     rbind (validate_destination (sa_ip address) policy) (\<lambda>_. validate_addresses rest policy)"

definition resolve_target ::
  "socket_addr list option \<Rightarrow> network_policy \<Rightarrow> (adapter_config_error, socket_addr list) res" where
  "resolve_target found policy =
     rbind (ok_or AdapterInvalid found) (\<lambda>addresses.
       if addresses = [] then Err AdapterInvalid
       else rbind (validate_addresses addresses policy) (\<lambda>_. Ok addresses))"

definition valid_alias :: "ustring \<Rightarrow> bool" where
  "valid_alias name \<longleftrightarrow> name \<noteq> [] \<and> utf8_len name \<le> 128
     \<and> list_all (\<lambda>b. is_ascii_alphanumeric b \<or> b \<in> {45, 95, 46}) (utf8_bytes name)"

text \<open>What the policy promises of an address.\<close>

definition permitted :: "network_policy \<Rightarrow> socket_addr \<Rightarrow> bool" where
  "permitted policy address \<longleftrightarrow> validate_destination (sa_ip address) policy = Ok ()"

lemma validate_addresses_eq_Inr [res_simps]:
  "validate_addresses xs policy = Inr u \<longleftrightarrow> (\<forall>x \<in> set xs. permitted policy x)"
  by (induction xs) (auto simp: permitted_def res_simps)

lemma resolve_target_eq_Inr [res_simps]:
  "resolve_target found policy = Inr xs \<longleftrightarrow>
     found = Some xs \<and> xs \<noteq> [] \<and> (\<forall>x \<in> set xs. permitted policy x)"
  by (cases found) (auto simp: resolve_target_def res_simps)

section \<open>The outside and the trace\<close>

text \<open>The accessors of a parsed \<open>Url\<close>; \<open>u_rest\<close> stands for its path and query.\<close>

record url =
  u_scheme :: ustring
  u_username :: ustring
  u_password :: "ustring option"
  u_host_str :: "ustring option"
  u_port_or_known_default :: "16 word option"
  u_fragment :: "ustring option"
  u_rest :: ustring

text \<open>
  A response: the headers that are present and printable, and the chunks of the body with
  their lengths, \<open>None\<close> for a chunk that failed to arrive.
\<close>

record http_response =
  hr_status :: "16 word"
  hr_location :: "ustring option"
  hr_content_length :: "ustring option"
  hr_content_type :: "ustring option"
  hr_chunks :: "u64 option list"

datatype canonical = Resolved ustring | MissingPath | CanonicalizeError

record outside =
  out_lookup :: "nat \<Rightarrow> ustring \<Rightarrow> 16 word \<Rightarrow> socket_addr list option"
  out_connect :: "socket_addr \<Rightarrow> bool"
  out_client :: "ustring \<Rightarrow> socket_addr list \<Rightarrow> bool"
  out_get :: "nat \<Rightarrow> socket_addr list \<Rightarrow> url \<Rightarrow> http_response option"
  out_join :: "url \<Rightarrow> ustring \<Rightarrow> url option"
  out_canonicalize :: "nat \<Rightarrow> ustring \<Rightarrow> canonical"
  out_metadata :: "ustring \<Rightarrow> bool"

datatype probe_event =
    Connected socket_addr
  | Requested "socket_addr list" url
  | ReadMetadata ustring

type_synonym 'a traced = "probe_event list \<times> (adapter_config_error, 'a) res"

definition tbind :: "'a traced \<Rightarrow> ('a \<Rightarrow> 'b traced) \<Rightarrow> 'b traced" where
  "tbind m f =
     (case snd m of
        Inl e \<Rightarrow> (fst m, Inl e)
      | Inr x \<Rightarrow> (fst m @ fst (f x), snd (f x)))"

definition tlift :: "(adapter_config_error, 'a) res \<Rightarrow> 'a traced" where
  "tlift r = ([], r)"

definition temit :: "probe_event \<Rightarrow> unit traced" where
  "temit e = ([e], Ok ())"

text \<open>A property of every event of a trace, through the combinators.\<close>

definition traced_all :: "(probe_event \<Rightarrow> bool) \<Rightarrow> 'a traced \<Rightarrow> bool" where
  "traced_all P m \<longleftrightarrow> (\<forall>e \<in> set (fst m). P e)"

named_theorems traced_intros \<open>introduction rules for properties of a trace\<close>

lemma traced_all_tlift [traced_intros]: "traced_all P (tlift r)"
  by (simp add: traced_all_def tlift_def)

lemma traced_all_temit [traced_intros]: "P e \<Longrightarrow> traced_all P (temit e)"
  by (simp add: traced_all_def temit_def)

lemma traced_all_tbind [traced_intros]:
  "traced_all P m \<Longrightarrow> (\<And>x. snd m = Inr x \<Longrightarrow> traced_all P (f x)) \<Longrightarrow> traced_all P (tbind m f)"
  by (auto simp: traced_all_def tbind_def split: sum.splits)

lemma snd_tlift [simp]: "snd (tlift r) = r"
  by (simp add: tlift_def)

lemma snd_temit [simp]: "snd (temit e) = Ok ()"
  by (simp add: temit_def)

section \<open>Parameters\<close>

text \<open>
  The derived \<open>Deserialize\<close> of the parameter structs with \<open>deny_unknown_fields\<close>: an object
  with the named fields only, or the array of the fields in order. The members of a parsed
  object have distinct names.
\<close>

definition alias_parameter :: "string \<Rightarrow> json \<Rightarrow> ustring option" where
  "alias_parameter name params =
     (case params of
        JObj members \<Rightarrow>
          (if list_all (\<lambda>(k, _). k = name) members
           then (case map_of members name of Some (JStr s) \<Rightarrow> Some s | _ \<Rightarrow> None)
           else None)
      | JArr [JStr s] \<Rightarrow> Some s
      | _ \<Rightarrow> None)"

fun optional_u16 :: "json \<Rightarrow> 16 word option option" where
  "optional_u16 JNull = Some None"
| "optional_u16 (JNum n) = (if 0 \<le> n \<and> n < 65536 then Some (Some (word_of_int n)) else None)"
| "optional_u16 _ = None"

definition http_parameters :: "json \<Rightarrow> (ustring \<times> 16 word option) option" where
  "http_parameters params =
     (case params of
        JObj members \<Rightarrow>
          (if list_all (\<lambda>(k, _). k = ''target'' \<or> k = ''expected_status'') members
           then (case map_of members ''target'' of
                   Some (JStr s) \<Rightarrow>
                     (case map_of members ''expected_status'' of
                        None \<Rightarrow> Some (s, None)
                      | Some v \<Rightarrow> map_option (Pair s) (optional_u16 v))
                 | _ \<Rightarrow> None)
           else None)
      | JArr [JStr s, v] \<Rightarrow> map_option (Pair s) (optional_u16 v)
      | _ \<Rightarrow> None)"

section \<open>Evaluation under a deadline\<close>

text \<open>
  \<open>guarded\<close> races the operation against cancellation and the deadline. When one of them wins,
  the operation has been dropped after some prefix of its events. \<open>now\<close> is the reading of the
  clock for the result and \<open>elapsed\<close> the run time.
\<close>

datatype race = CancelWins nat | DeadlineWins nat | OperationWins

record evaluation_run =
  er_now :: instant
  er_elapsed :: nat
  er_race :: race

definition answer ::
  "evaluation_run \<Rightarrow> adapter_status \<Rightarrow> string \<Rightarrow> probe_event list \<times> adapter_result" where
  "answer run status text = ([], adapter_result_new status (er_now run) text (er_elapsed run))"

definition guarded ::
  "evaluation_run \<Rightarrow> probe_event list \<times> adapter_status \<times> string \<Rightarrow> probe_event list \<times> adapter_result" where
  "guarded run operation =
     (case er_race run of
        CancelWins n \<Rightarrow>
          (take n (fst operation),
           adapter_result_new AdapterUnknown (er_now run) ''Adapter evaluation was cancelled.'' (er_elapsed run))
      | DeadlineWins n \<Rightarrow>
          (take n (fst operation),
           adapter_result_new AdapterUnknown (er_now run) ''Adapter evaluation timed out.'' (er_elapsed run))
      | OperationWins \<Rightarrow>
          (case operation of (events, status, text) \<Rightarrow>
             (events, adapter_result_new status (er_now run) text (er_elapsed run))))"

definition invalid_parameters :: "evaluation_run \<Rightarrow> probe_event list \<times> adapter_result" where
  "invalid_parameters run = answer run AdapterError ''Adapter parameters are invalid.''"

section \<open>TCP reachability\<close>

record tcp_target =
  tt_host :: ustring
  tt_port :: "16 word"
  tt_policy :: network_policy

definition tcp_target_new ::
  "ustring \<Rightarrow> 16 word \<Rightarrow> network_policy \<Rightarrow> (adapter_config_error, tcp_target) res" where
  "tcp_target_new host port policy =
     (if trim host = [] \<or> utf8_len host > 253 \<or> port = 0 \<or> list_ex is_control host
      then Err AdapterInvalid
      else Ok \<lparr>tt_host = host, tt_port = port, tt_policy = policy\<rparr>)"

text \<open>An adapter: whether it is enabled, and its aliases in the iteration order of the map.\<close>

record tcp_adapter =
  tcp_enabled :: bool
  tcp_aliases :: "(ustring \<times> tcp_target) list"

definition tcp_adapter_new ::
  "bool \<Rightarrow> (ustring \<times> tcp_target) list \<Rightarrow> (adapter_config_error, tcp_adapter) res" where
  "tcp_adapter_new enabled names =
     (if list_ex (\<lambda>(name, _). \<not> valid_alias name) names then Err AdapterInvalid
      else Ok \<lparr>tcp_enabled = enabled, tcp_aliases = names\<rparr>)"

fun connect_first ::
  "outside \<Rightarrow> socket_addr list \<Rightarrow> probe_event list \<times> adapter_status \<times> string" where
  "connect_first out [] =
     ([], AdapterUnsatisfied, ''Configured target did not accept a TCP connection.'')"
| "connect_first out (address # rest) =
     (if out_connect out address
      then ([Connected address], AdapterSatisfied, ''Configured target accepted a TCP connection.'')
      else (case connect_first out rest of (events, r) \<Rightarrow> (Connected address # events, r)))"

definition tcp_operation :: "outside \<Rightarrow> tcp_target \<Rightarrow> probe_event list \<times> adapter_status \<times> string" where
  "tcp_operation out target =
     (case resolve_target (out_lookup out 0 (tt_host target) (tt_port target)) (tt_policy target) of
        Inr addresses \<Rightarrow> connect_first out addresses
      | Inl _ \<Rightarrow> ([], AdapterError, ''Configured target could not be safely resolved.''))"

definition tcp_evaluate ::
  "outside \<Rightarrow> tcp_adapter \<Rightarrow> evaluation_run \<Rightarrow> json \<Rightarrow> probe_event list \<times> adapter_result" where
  "tcp_evaluate out a run params =
     (if \<not> tcp_enabled a then answer run AdapterUnknown ''Adapter is disabled.''
      else case alias_parameter ''target'' params of
             None \<Rightarrow> invalid_parameters run
           | Some name \<Rightarrow>
               if \<not> valid_alias name then invalid_parameters run
               else (case map_of (tcp_aliases a) name of
                       None \<Rightarrow> answer run AdapterUnknown ''Configured target alias was not found.''
                     | Some target \<Rightarrow> guarded run (tcp_operation out target)))"

section \<open>HTTP health\<close>

record http_target =
  ht_url :: url
  ht_expected_statuses :: "16 word list"
  ht_max_response_bytes :: u64
  ht_expected_content_type :: "ustring option"
  ht_allow_redirects :: bool
  ht_policy :: network_policy

definition content_type_valid :: "ustring option \<Rightarrow> bool" where
  "content_type_valid expected =
     (case expected of
        None \<Rightarrow> True
      | Some c \<Rightarrow> c \<noteq> [] \<and> utf8_len c \<le> 128 \<and> \<not> list_ex is_control c)"

text \<open>\<open>parsed\<close> is the result of \<open>Url::parse\<close>.\<close>

definition http_target_new ::
  "url option \<Rightarrow> 16 word list \<Rightarrow> u64 \<Rightarrow> ustring option \<Rightarrow> bool \<Rightarrow> network_policy
     \<Rightarrow> (adapter_config_error, http_target) res" where
  "http_target_new parsed expected_statuses max_response_bytes expected_content_type allow_redirects policy =
     rbind (ok_or AdapterInvalid parsed) (\<lambda>u.
       if u_scheme u \<noteq> lit ''https'' \<or> u_username u \<noteq> [] \<or> u_password u \<noteq> None
          \<or> u_host_str u = None \<or> u_fragment u \<noteq> None \<or> expected_statuses = []
          \<or> list_ex (\<lambda>status. \<not> (100 \<le> status \<and> status \<le> 599)) expected_statuses
          \<or> max_response_bytes = 0 \<or> max_response_bytes > 1048576
          \<or> \<not> content_type_valid expected_content_type
       then Err AdapterInvalid
       else Ok \<lparr>ht_url = u, ht_expected_statuses = expected_statuses,
                ht_max_response_bytes = max_response_bytes,
                ht_expected_content_type = expected_content_type,
                ht_allow_redirects = allow_redirects, ht_policy = policy\<rparr>)"

record http_adapter =
  http_enabled :: bool
  http_aliases :: "(ustring \<times> http_target) list"

definition http_adapter_new ::
  "bool \<Rightarrow> (ustring \<times> http_target) list \<Rightarrow> (adapter_config_error, http_adapter) res" where
  "http_adapter_new enabled names =
     (if list_ex (\<lambda>(name, _). \<not> valid_alias name) names then Err AdapterInvalid
      else Ok \<lparr>http_enabled = enabled, http_aliases = names\<rparr>)"

definition origin :: "url \<Rightarrow> (adapter_config_error, ustring \<times> 16 word) res" where
  "origin u =
     rbind (ok_or AdapterInvalid (u_host_str u)) (\<lambda>host.
     rbind (ok_or AdapterInvalid (u_port_or_known_default u)) (\<lambda>port. Ok (host, port)))"

definition bounded_total :: "u64 \<Rightarrow> u64 \<Rightarrow> u64 \<Rightarrow> (adapter_config_error, u64) res" where
  "bounded_total current additional maximum =
     rbind (ok_or AdapterInvalid (checked_add current additional)) (\<lambda>n.
       if n > maximum then Err AdapterInvalid else Ok n)"

text \<open>The loop of \<open>consume_bounded\<close> with its running total.\<close>

fun consume_bounded :: "u64 \<Rightarrow> u64 \<Rightarrow> u64 option list \<Rightarrow> (adapter_config_error, unit) res" where
  "consume_bounded sofar maximum [] = Ok ()"
| "consume_bounded sofar maximum (chunk # chunks) =
     rbind (ok_or AdapterInvalid chunk) (\<lambda>n.
     rbind (bounded_total sofar n maximum) (\<lambda>sum'. consume_bounded sum' maximum chunks))"

definition next_redirect ::
  "outside \<Rightarrow> url \<Rightarrow> ustring \<Rightarrow> (adapter_config_error, url) res" where
  "next_redirect out current location =
     rbind (ok_or AdapterInvalid (out_join out current location)) (\<lambda>destination.
       if u_scheme destination \<noteq> lit ''https'' \<or> u_username destination \<noteq> []
          \<or> u_password destination \<noteq> None
       then Err DestinationDenied
       else rbind (origin destination) (\<lambda>there.
            rbind (origin current) (\<lambda>here.
              if there \<noteq> here then Err DestinationDenied else Ok destination)))"

text \<open>What \<open>probe\<close> does with a response that is not a redirection.\<close>

definition status_from_u16 :: "16 word \<Rightarrow> (adapter_config_error, 16 word) res" where
  "status_from_u16 n = (if 100 \<le> n \<and> n < 1000 then Ok n else Err AdapterInvalid)"

definition content_type_differs :: "ustring option \<Rightarrow> ustring option \<Rightarrow> bool" where
  "content_type_differs expected actual =
     (case expected of
        None \<Rightarrow> False
      | Some e \<Rightarrow>
          (case actual of
             None \<Rightarrow> True
           | Some a \<Rightarrow> \<not> eq_ignore_ascii_case (hd (split_char 59 a)) e))"

definition judge_response ::
  "http_target \<Rightarrow> 16 word option \<Rightarrow> http_response \<Rightarrow> (adapter_config_error, bool) res" where
  "judge_response target expected_status response =
     (if (case hr_content_length response of
            None \<Rightarrow> False
          | Some v \<Rightarrow> (case parse_unsigned 64 v of
                         None \<Rightarrow> False
                       | Some n \<Rightarrow> n > unat (ht_max_response_bytes target)))
      then Err AdapterInvalid
      else if content_type_differs (ht_expected_content_type target) (hr_content_type response)
      then Ok False
      else rbind (consume_bounded 0 (ht_max_response_bytes target) (hr_chunks response)) (\<lambda>_.
           rbind (transpose_map status_from_u16 expected_status) (\<lambda>expected.
             Ok (case expected of
                   None \<Rightarrow> hr_status response \<in> set (ht_expected_statuses target)
                 | Some e \<Rightarrow> hr_status response = e))))"

definition is_redirection :: "16 word \<Rightarrow> bool" where
  "is_redirection status \<longleftrightarrow> 300 \<le> status \<and> status < 400"

text \<open>The loop \<open>for redirect_count in 0..=MAX_REDIRECTS\<close>, over the counters that remain.\<close>

fun probe_loop ::
  "outside \<Rightarrow> http_target \<Rightarrow> 16 word option \<Rightarrow> ustring \<times> 16 word \<Rightarrow> nat list \<Rightarrow> url \<Rightarrow> bool traced" where
  "probe_loop out target expected_status original [] current = tlift (Err AdapterInvalid)"
| "probe_loop out target expected_status original (redirect_count # counts) current =
     tbind (tlift (origin current)) (\<lambda>here.
       if here \<noteq> original then tlift (Err DestinationDenied)
       else
         tbind (tlift (ok_or AdapterInvalid (u_host_str current))) (\<lambda>host.
         tbind (tlift (ok_or AdapterInvalid (u_port_or_known_default current))) (\<lambda>port.
         tbind (tlift (resolve_target (out_lookup out redirect_count host port) (ht_policy target)))
           (\<lambda>addresses.
         tbind (tlift (if out_client out host addresses then Ok () else Err AdapterInvalid)) (\<lambda>_.
         tbind (temit (Requested addresses current)) (\<lambda>_.
         tbind (tlift (ok_or AdapterInvalid (out_get out redirect_count addresses current)))
           (\<lambda>response.
           if is_redirection (hr_status response)
           then if \<not> ht_allow_redirects target \<or> redirect_count = 3
                then tlift (Err DestinationDenied)
                else tbind (tlift (ok_or AdapterInvalid (hr_location response))) (\<lambda>location.
                     tbind (tlift (next_redirect out current location)) (\<lambda>following.
                       probe_loop out target expected_status original counts following))
           else tlift (judge_response target expected_status response))))))))"

definition probe :: "outside \<Rightarrow> http_target \<Rightarrow> 16 word option \<Rightarrow> bool traced" where
  "probe out target expected_status =
     tbind (tlift (origin (ht_url target))) (\<lambda>original_origin.
       probe_loop out target expected_status original_origin [0, 1, 2, 3] (ht_url target))"

definition http_operation ::
  "outside \<Rightarrow> http_target \<Rightarrow> 16 word option \<Rightarrow> probe_event list \<times> adapter_status \<times> string" where
  "http_operation out target expected_status =
     (case probe out target expected_status of
        (events, Inr True) \<Rightarrow> (events, AdapterSatisfied, ''Configured target reported healthy.'')
      | (events, Inr False) \<Rightarrow> (events, AdapterUnsatisfied, ''Configured target did not report healthy.'')
      | (events, Inl _) \<Rightarrow> (events, AdapterError, ''Configured target health check failed safely.''))"

definition http_evaluate ::
  "outside \<Rightarrow> http_adapter \<Rightarrow> evaluation_run \<Rightarrow> json \<Rightarrow> probe_event list \<times> adapter_result" where
  "http_evaluate out a run params =
     (if \<not> http_enabled a then answer run AdapterUnknown ''Adapter is disabled.''
      else case http_parameters params of
             None \<Rightarrow> invalid_parameters run
           | Some (name, expected_status) \<Rightarrow>
               if \<not> valid_alias name then invalid_parameters run
               else (case map_of (http_aliases a) name of
                       None \<Rightarrow> answer run AdapterUnknown ''Configured target alias was not found.''
                     | Some target \<Rightarrow>
                         if (case expected_status of
                               None \<Rightarrow> False
                             | Some status \<Rightarrow> status \<notin> set (ht_expected_statuses target))
                         then invalid_parameters run
                         else guarded run (http_operation out target expected_status)))"

section \<open>Files\<close>

text \<open>
  The path operations of the standard library on Unix: the components of a path (empty pieces
  and single dots are not components, except a leading dot), the prefix relation on components,
  and the parent of an absolute path, which is the text without its last component.
\<close>

datatype path_component = RootDir | CurDir | ParentDir | Normal ustring

definition path_is_absolute :: "ustring \<Rightarrow> bool" where
  "path_is_absolute p \<longleftrightarrow> p \<noteq> [] \<and> hd p = 47"

definition trivial_piece :: "ustring \<Rightarrow> bool" where
  "trivial_piece s \<longleftrightarrow> s = [] \<or> s = [46]"

definition path_components :: "ustring \<Rightarrow> path_component list" where
  "path_components p =
     (let pieces = split_char 47 p in
      (if path_is_absolute p then [RootDir] else if hd pieces = [46] then [CurDir] else [])
      @ map (\<lambda>s. if s = [46, 46] then ParentDir else Normal s)
          (filter (\<lambda>s. \<not> trivial_piece s) pieces))"

definition path_starts_with :: "ustring \<Rightarrow> ustring \<Rightarrow> bool" where
  "path_starts_with p base \<longleftrightarrow>
     take (length (path_components base)) (path_components p) = path_components base"

definition path_parent :: "ustring \<Rightarrow> ustring option" where
  "path_parent p =
     (if \<not> path_is_absolute p then None
      else case dropWhile trivial_piece (rev (tl (split_char 47 p))) of
             [] \<Rightarrow> None
           | piece # before \<Rightarrow> Some (47 # join_char 47 (rev (dropWhile trivial_piece before))))"

text \<open>The parent is shorter, so that climbing to the root terminates.\<close>

lemma path_parent_shorter:
  assumes "path_parent p = Some q"
  shows "length q < length p"
proof -
  from assms have absolute: "path_is_absolute p"
    by (simp add: path_parent_def split: if_splits)
  then obtain r where p: "p = 47 # r"
    by (cases p) (auto simp: path_is_absolute_def)
  define segs where "segs = split_char 47 r"
  from assms absolute obtain last_piece before
    where dw: "dropWhile trivial_piece (rev segs) = last_piece # before"
      and q: "q = 47 # join_char 47 (rev (dropWhile trivial_piece before))"
    by (auto simp: path_parent_def p segs_def split: list.splits)
  have nontrivial: "last_piece \<noteq> []"
    using hd_dropWhile [of trivial_piece "rev segs"] dw by (auto simp: trivial_piece_def)
  have "rev segs = takeWhile trivial_piece (rev segs) @ last_piece # before"
    by (metis dw takeWhile_dropWhile_id)
  then have "segs = rev (takeWhile trivial_piece (rev segs) @ last_piece # before)"
    by (metis rev_rev_ident)
  then obtain junk where segs: "segs = rev before @ [last_piece] @ junk"
    by simp
  define kept where "kept = rev (dropWhile trivial_piece before)"
  have "before = takeWhile trivial_piece before @ dropWhile trivial_piece before"
    by simp
  then have "rev before = rev (dropWhile trivial_piece before) @ rev (takeWhile trivial_piece before)"
    by (metis rev_append)
  then obtain gap where kept: "rev before = kept @ gap"
    by (auto simp: kept_def)
  have last_len: "0 < length (join_char 47 ([last_piece] @ junk))"
    using nontrivial by (cases junk) auto
  have "length (join_char 47 kept) < length (join_char 47 segs)"
  proof (cases "kept = []")
    case True
    have "length (join_char 47 ([last_piece] @ junk)) \<le> length (join_char 47 segs)"
      using length_join_append [of "[last_piece] @ junk" "rev before" 47]
      by (cases "rev before = []") (simp_all add: segs)
    with last_len have "0 < length (join_char 47 segs)" by (rule less_le_trans)
    with True show ?thesis by simp
  next
    case False
    then show ?thesis
      using length_join_append [of "gap @ [last_piece] @ junk" kept 47]
      by (simp add: segs kept)
  qed
  moreover have "length p = Suc (length (join_char 47 segs))"
    by (simp add: p segs_def)
  ultimately show ?thesis by (simp add: q kept_def)
qed

text \<open>An alias names an absolute path without \<open>..\<close>.\<close>

definition file_target_new :: "ustring \<Rightarrow> (adapter_config_error, ustring) res" where
  "file_target_new path =
     (if \<not> path_is_absolute path \<or> ParentDir \<in> set (path_components path) then Err AdapterInvalid
      else Ok path)"

text \<open>\<open>k\<close> counts the questions to the file system, which may change between them.\<close>

function closest_existing ::
  "outside \<Rightarrow> nat \<Rightarrow> ustring \<Rightarrow> (adapter_config_error, ustring) res" where
  "closest_existing out k candidate =
     (case out_canonicalize out k candidate of
        Resolved p \<Rightarrow> Ok p
      | MissingPath \<Rightarrow>
          (case path_parent candidate of
             None \<Rightarrow> Err AdapterInvalid
           | Some parent \<Rightarrow> closest_existing out (k + 1) parent)
      | CanonicalizeError \<Rightarrow> Err AdapterInvalid)"
  by auto
termination
  by (relation "measure (\<lambda>(out, k, candidate). length candidate)") (auto simp: path_parent_shorter)

declare closest_existing.simps [simp del]

definition validate_containment ::
  "outside \<Rightarrow> nat \<Rightarrow> ustring \<Rightarrow> ustring list \<Rightarrow> (adapter_config_error, unit) res" where
  "validate_containment out k path roots =
     rbind (closest_existing out k path) (\<lambda>resolved.
       if list_ex (path_starts_with resolved) roots then Ok () else Err OutsideBoundary)"

definition contained_metadata :: "outside \<Rightarrow> ustring \<Rightarrow> ustring list \<Rightarrow> bool traced" where
  "contained_metadata out path roots =
     (case out_canonicalize out 0 path of
        Resolved resolved \<Rightarrow>
          if \<not> list_ex (path_starts_with resolved) roots then tlift (Err OutsideBoundary)
          else tbind (temit (ReadMetadata resolved)) (\<lambda>_.
                 tlift (if out_metadata out resolved then Ok True else Err AdapterInvalid))
      | MissingPath \<Rightarrow>
          tbind (tlift (validate_containment out 1 path roots)) (\<lambda>_. tlift (Ok False))
      | CanonicalizeError \<Rightarrow> tlift (Err AdapterInvalid))"

record file_adapter =
  file_enabled :: bool
  file_roots :: "ustring list"
  file_aliases :: "(ustring \<times> ustring) list"

text \<open>\<open>root_at\<close> and \<open>path_at\<close> number the questions about each root and each alias.\<close>

definition canonical_root :: "outside \<Rightarrow> nat \<times> ustring \<Rightarrow> (adapter_config_error, ustring) res" where
  "canonical_root out root =
     (case out_canonicalize out (fst root) (snd root) of Resolved p \<Rightarrow> Ok p | _ \<Rightarrow> Err AdapterInvalid)"

definition file_adapter_new ::
  "outside \<Rightarrow> bool \<Rightarrow> ustring list \<Rightarrow> (ustring \<times> ustring) list \<Rightarrow> (adapter_config_error, file_adapter) res" where
  "file_adapter_new out enabled roots names =
     rbind (collect_map (canonical_root out) (List.enumerate 0 roots)) (\<lambda>canonical_roots.
       if list_ex (\<lambda>(name, _). \<not> valid_alias name) names then Err AdapterInvalid
       else rbind (collect_map (\<lambda>(i, _, path). validate_containment out (length roots + i) path canonical_roots)
                     (List.enumerate 0 names)) (\<lambda>_.
              Ok \<lparr>file_enabled = enabled, file_roots = canonical_roots, file_aliases = names\<rparr>))"

definition file_operation ::
  "outside \<Rightarrow> ustring \<Rightarrow> ustring list \<Rightarrow> probe_event list \<times> adapter_status \<times> string" where
  "file_operation out path roots =
     (case contained_metadata out path roots of
        (events, Inr True) \<Rightarrow> (events, AdapterSatisfied, ''Configured path exists.'')
      | (events, Inr False) \<Rightarrow> (events, AdapterUnsatisfied, ''Configured path does not exist.'')
      | (events, Inl _) \<Rightarrow> (events, AdapterError, ''Configured path failed containment validation.''))"

definition file_evaluate ::
  "outside \<Rightarrow> file_adapter \<Rightarrow> evaluation_run \<Rightarrow> json \<Rightarrow> probe_event list \<times> adapter_result" where
  "file_evaluate out a run params =
     (if \<not> file_enabled a then answer run AdapterUnknown ''Adapter is disabled.''
      else case alias_parameter ''path_alias'' params of
             None \<Rightarrow> invalid_parameters run
           | Some name \<Rightarrow>
               if \<not> valid_alias name then invalid_parameters run
               else (case map_of (file_aliases a) name of
                       None \<Rightarrow> answer run AdapterUnknown ''Configured path alias was not found.''
                     | Some path \<Rightarrow> guarded run (file_operation out path (file_roots a))))"

section \<open>Observation windows\<close>

text \<open>\<open>rfc3339\<close> is the parser of \<open>parse_timestamp\<close>, \<open>now\<close> the reading inside the operation.\<close>

definition window_evaluate ::
  "(ustring \<Rightarrow> instant option) \<Rightarrow> bool \<Rightarrow> instant \<Rightarrow> evaluation_run \<Rightarrow> json
     \<Rightarrow> (domain_error, probe_event list \<times> adapter_result) res" where
  "window_evaluate rfc3339 enabled now run params =
     (if \<not> enabled then Ok (answer run AdapterUnknown ''Adapter is disabled.'')
      else case alias_parameter ''window_end'' params of
             None \<Rightarrow> Ok (invalid_parameters run)
           | Some s \<Rightarrow>
               (case parse_timestamp rfc3339 s of
                  Inl (Fail _) \<Rightarrow> Ok (invalid_parameters run)
                | Inl Panic \<Rightarrow> Inl Panic
                | Inl Diverge \<Rightarrow> Inl Diverge
                | Inr window_end \<Rightarrow>
                    Ok (guarded run
                      (if now \<ge> window_end then ([], AdapterSatisfied, ''Observation window ended.'')
                       else ([], AdapterUnsatisfied, ''Observation window has not ended.'')))))"

section \<open>The registry\<close>

datatype adapter =
    FileExists file_adapter
  | HttpHealth http_adapter
  | ObservationWindow bool
  | TcpReachable tcp_adapter

text \<open>A \<open>BTreeMap\<close> as the list of its entries in the order of the names.\<close>

type_synonym adapter_registry = "(ustring \<times> adapter) list"

definition registry_disabled :: adapter_registry where
  "registry_disabled =
     [(lit ''file_exists'', FileExists \<lparr>file_enabled = False, file_roots = [], file_aliases = []\<rparr>),
      (lit ''http_health'', HttpHealth \<lparr>http_enabled = False, http_aliases = []\<rparr>),
      (lit ''observation_window_ended'', ObservationWindow False),
      (lit ''tcp_reachable'', TcpReachable \<lparr>tcp_enabled = False, tcp_aliases = []\<rparr>)]"

definition registry_names :: "adapter_registry \<Rightarrow> ustring list" where
  "registry_names registry = map fst registry"

definition registry_get :: "adapter_registry \<Rightarrow> ustring \<Rightarrow> adapter option" where
  "registry_get registry name = map_of registry name"

text \<open>The trait object: the evaluation of whichever adapter it is.\<close>

definition adapter_evaluate ::
  "outside \<Rightarrow> (ustring \<Rightarrow> instant option) \<Rightarrow> instant \<Rightarrow> adapter \<Rightarrow> evaluation_run \<Rightarrow> json
     \<Rightarrow> (domain_error, probe_event list \<times> adapter_result) res" where
  "adapter_evaluate out rfc3339 now a run params =
     (case a of
        FileExists f \<Rightarrow> Ok (file_evaluate out f run params)
      | HttpHealth h \<Rightarrow> Ok (http_evaluate out h run params)
      | ObservationWindow enabled \<Rightarrow> window_evaluate rfc3339 enabled now run params
      | TcpReachable t \<Rightarrow> Ok (tcp_evaluate out t run params))"

fun adapter_enabled :: "adapter \<Rightarrow> bool" where
  "adapter_enabled (FileExists f) = file_enabled f"
| "adapter_enabled (HttpHealth h) = http_enabled h"
| "adapter_enabled (ObservationWindow enabled) = enabled"
| "adapter_enabled (TcpReachable t) = tcp_enabled t"

section \<open>Containment\<close>

text \<open>What an adapter is allowed to touch.\<close>

definition tcp_allows :: "outside \<Rightarrow> tcp_target \<Rightarrow> probe_event \<Rightarrow> bool" where
  "tcp_allows out target e =
     (case e of
        Connected address \<Rightarrow> permitted (tt_policy target) address
          \<and> (\<exists>found. out_lookup out 0 (tt_host target) (tt_port target) = Some found \<and> address \<in> set found)
      | _ \<Rightarrow> False)"

definition http_allows :: "http_target \<Rightarrow> probe_event \<Rightarrow> bool" where
  "http_allows target e =
     (case e of
        Requested addresses u \<Rightarrow> (\<forall>a \<in> set addresses. permitted (ht_policy target) a)
          \<and> origin u = origin (ht_url target) \<and> u_scheme u = lit ''https''
      | _ \<Rightarrow> False)"

definition file_allows :: "ustring list \<Rightarrow> probe_event \<Rightarrow> bool" where
  "file_allows roots e =
     (case e of ReadMetadata p \<Rightarrow> (\<exists>root \<in> set roots. path_starts_with p root) | _ \<Rightarrow> False)"

fun adapter_allows :: "outside \<Rightarrow> adapter \<Rightarrow> probe_event \<Rightarrow> bool" where
  "adapter_allows out (FileExists f) e \<longleftrightarrow> file_allows (file_roots f) e"
| "adapter_allows out (HttpHealth h) e \<longleftrightarrow> (\<exists>target \<in> snd ` set (http_aliases h). http_allows target e)"
| "adapter_allows out (ObservationWindow _) e \<longleftrightarrow> False"
| "adapter_allows out (TcpReachable t) e \<longleftrightarrow> (\<exists>target \<in> snd ` set (tcp_aliases t). tcp_allows out target e)"

text \<open>The constructors establish what the evaluations rely on.\<close>

fun adapter_ok :: "adapter \<Rightarrow> bool" where
  "adapter_ok (FileExists f) \<longleftrightarrow>
     (\<forall>(name, path) \<in> set (file_aliases f). valid_alias name)"
| "adapter_ok (HttpHealth h) \<longleftrightarrow>
     (\<forall>(name, target) \<in> set (http_aliases h). valid_alias name
        \<and> u_scheme (ht_url target) = lit ''https'' \<and> u_host_str (ht_url target) \<noteq> None
        \<and> 0 < ht_max_response_bytes target \<and> ht_max_response_bytes target \<le> 1048576)"
| "adapter_ok (ObservationWindow _) \<longleftrightarrow> True"
| "adapter_ok (TcpReachable t) \<longleftrightarrow>
     (\<forall>(name, target) \<in> set (tcp_aliases t). valid_alias name \<and> tt_port target \<noteq> 0)"

lemma guarded_events: "set (fst (guarded run operation)) \<subseteq> set (fst operation)"
  by (cases operation) (auto simp: guarded_def split: race.splits dest: in_set_takeD)

lemma answer_events [simp]: "fst (answer run status text) = []"
  by (simp add: answer_def)

lemma invalid_parameters_events [simp]: "fst (invalid_parameters run) = []"
  by (simp add: invalid_parameters_def)

lemma connect_first_events:
  "e \<in> set (fst (connect_first out addresses)) \<Longrightarrow> \<exists>a \<in> set addresses. e = Connected a"
  by (induction addresses) (auto split: if_splits prod.splits)

lemma tcp_operation_allows: "e \<in> set (fst (tcp_operation out target)) \<Longrightarrow> tcp_allows out target e"
  by (auto simp: tcp_operation_def tcp_allows_def res_simps split: sum.splits dest!: connect_first_events)

lemma next_redirect_Ok:
  "next_redirect out current location = Inr u \<Longrightarrow> u_scheme u = lit ''https'' \<and> origin u = origin current"
  by (auto simp: next_redirect_def res_simps split: if_splits)

lemma probe_loop_allows:
  "origin (ht_url target) = Inr original \<Longrightarrow> u_scheme current = lit ''https'' \<Longrightarrow>
     traced_all (http_allows target) (probe_loop out target expected original counts current)"
proof (induction counts arbitrary: current)
  case Nil
  show ?case by (simp add: traced_intros)
next
  case (Cons k ks)
  show ?case
    unfolding probe_loop.simps
    apply (intro traced_intros)
    using Cons
    apply (auto intro!: traced_intros simp: res_simps http_allows_def dest!: next_redirect_Ok)
    done
qed

lemma probe_allows:
  "u_scheme (ht_url target) = lit ''https'' \<Longrightarrow> traced_all (http_allows target) (probe out target expected)"
  unfolding probe_def by (intro traced_intros probe_loop_allows) simp_all

lemma http_operation_events: "fst (http_operation out target expected) = fst (probe out target expected)"
  by (auto simp: http_operation_def split: prod.splits sum.splits bool.splits)

lemma contained_metadata_allows: "traced_all (file_allows roots) (contained_metadata out path roots)"
  by (auto simp: contained_metadata_def list_ex_iff file_allows_def intro!: traced_intros
      split: canonical.splits)

lemma file_operation_events: "fst (file_operation out path roots) = fst (contained_metadata out path roots)"
  by (auto simp: file_operation_def split: prod.splits sum.splits bool.splits)

lemma file_evaluate_allows:
  "e \<in> set (fst (file_evaluate out f run params)) \<Longrightarrow> file_enabled f \<and> file_allows (file_roots f) e"
  using contained_metadata_allows [of "file_roots f" out]
  by (auto simp: file_evaluate_def traced_all_def file_operation_events split: if_splits option.splits
      dest!: subsetD [OF guarded_events])

lemma http_evaluate_allows:
  assumes "e \<in> set (fst (http_evaluate out h run params))" and "adapter_ok (HttpHealth h)"
  shows "http_enabled h \<and> adapter_allows out (HttpHealth h) e"
proof -
  from assms(1) obtain name expected target
    where "http_enabled h" and target: "map_of (http_aliases h) name = Some target"
      and e: "e \<in> set (fst (guarded run (http_operation out target expected)))"
    by (auto simp: http_evaluate_def split: if_splits option.splits)
  moreover from target have "(name, target) \<in> set (http_aliases h)"
    by (rule map_of_SomeD)
  moreover from this assms(2) have "http_allows target e"
    using subsetD [OF guarded_events e] probe_allows [of target out expected]
    by (auto simp: http_operation_events traced_all_def)
  ultimately show ?thesis by force
qed

lemma tcp_evaluate_allows:
  assumes "e \<in> set (fst (tcp_evaluate out t run params))"
  shows "tcp_enabled t \<and> adapter_allows out (TcpReachable t) e"
proof -
  from assms obtain name target
    where "tcp_enabled t" and target: "map_of (tcp_aliases t) name = Some target"
      and e: "e \<in> set (fst (guarded run (tcp_operation out target)))"
    by (auto simp: tcp_evaluate_def split: if_splits option.splits)
  moreover from target have "(name, target) \<in> set (tcp_aliases t)"
    by (rule map_of_SomeD)
  ultimately show ?thesis
    using tcp_operation_allows [OF subsetD [OF guarded_events e]] by force
qed

lemma window_evaluate_events:
  "window_evaluate rfc3339 enabled now run params = Inr (events, r) \<Longrightarrow> events = []"
  by (auto simp: window_evaluate_def guarded_def answer_def invalid_parameters_def
      split: if_splits option.splits sum.splits failure.splits race.splits)

section \<open>Bounds\<close>

lemma consume_bounded_Ok:
  "unat sofar \<le> unat maximum \<Longrightarrow>
     consume_bounded sofar maximum chunks = Ok () \<longleftrightarrow>
       None \<notin> set chunks \<and> unat sofar + sum_list (map (unat \<circ> the) chunks) \<le> unat maximum"
proof (induction chunks arbitrary: sofar)
  case Nil
  then show ?case by simp
next
  case (Cons chunk chunks)
  show ?case
  proof (cases chunk)
    case (Some n)
    show ?thesis
    proof (cases "unat sofar + unat n \<le> unat maximum")
      case True
      then have fits: "unat sofar + unat n < 2 ^ 64"
        using unat_lt_bound [of maximum] by simp
      then have add: "checked_add sofar n = Some (sofar + n)"
        by (simp only: checked_add_def if_True)
      then have "unat (sofar + n) = unat sofar + unat n"
        by (rule checked_add_unat)
      note add = add this
      from True have "\<not> sofar + n > maximum"
        by (simp only: word_less_nat_alt add not_less)
      with add have "bounded_total sofar n maximum = Ok (sofar + n)"
        by (simp add: bounded_total_def)
      with Some True Cons.IH [of "sofar + n"] add show ?thesis by (simp add: add.assoc)
    next
      case False
      then have "\<exists>e. bounded_total sofar n maximum = Inl e"
        by (auto simp: bounded_total_def checked_add_def word_less_nat_alt unat_word_ariths)
      with Some False show ?thesis by auto
    qed
  qed simp
qed

lemma probe_loop_requests:
  "length (fst (probe_loop out target expected original counts current))
     \<le> (if ht_allow_redirects target then length counts else 1)"
proof (induction counts arbitrary: current)
  case (Cons k ks)
  then show ?case
    by (auto simp: tbind_def tlift_def temit_def split: sum.splits)
qed (simp add: tlift_def)

section \<open>The denied ranges\<close>

text \<open>An address as a number, and the CIDR blocks it lies in.\<close>

fun v4_number :: "ipv4 \<Rightarrow> nat" where
  "v4_number (Ipv4 a b c d) = unat a * 2 ^ 24 + unat b * 2 ^ 16 + unat c * 2 ^ 8 + unat d"

fun v6_number :: "ipv6 \<Rightarrow> nat" where
  "v6_number (Ipv6 s0 s1 s2 s3 s4 s5 s6 s7) =
     unat s0 * 2 ^ 112 + unat s1 * 2 ^ 96 + unat s2 * 2 ^ 80 + unat s3 * 2 ^ 64
     + unat s4 * 2 ^ 48 + unat s5 * 2 ^ 32 + unat s6 * 2 ^ 16 + unat s7"

definition in_block :: "nat \<Rightarrow> nat \<Rightarrow> nat \<times> nat \<Rightarrow> bool" where
  "in_block width n block \<longleftrightarrow>
     n div 2 ^ (width - snd block) = fst block div 2 ^ (width - snd block)"

definition denied_v4_blocks :: "(nat \<times> nat) list" where
  "denied_v4_blocks =
     [(v4_number (Ipv4 127 0 0 0), 8), (v4_number (Ipv4 10 0 0 0), 8),
      (v4_number (Ipv4 172 16 0 0), 12), (v4_number (Ipv4 192 168 0 0), 16),
      (v4_number (Ipv4 169 254 0 0), 16), (v4_number (Ipv4 224 0 0 0), 4),
      (v4_number (Ipv4 0 0 0 0), 32), (v4_number (Ipv4 255 255 255 255), 32),
      (v4_number (Ipv4 100 100 100 200), 32)]"

definition denied_v6_blocks :: "(nat \<times> nat) list" where
  "denied_v6_blocks =
     [(v6_number (Ipv6 0 0 0 0 0 0 0 1), 128), (v6_number (Ipv6 0 0 0 0 0 0 0 0), 128),
      (v6_number (Ipv6 0xFF00 0 0 0 0 0 0 0), 8), (v6_number (Ipv6 0xFC00 0 0 0 0 0 0 0), 7),
      (v6_number (Ipv6 0xFE80 0 0 0 0 0 0 0), 10)]"

definition mapped_block :: "nat \<times> nat" where
  "mapped_block = (v6_number (Ipv6 0 0 0 0 0 0xFFFF 0 0), 96)"

lemma octet_lt: "unat (a :: 8 word) < 256"
  using unat_lt_bound [of a] by simp

lemma segment_lt: "unat (a :: 16 word) < 65536"
  using unat_lt_bound [of a] by simp

lemma split_div:
  assumes "r < (2::nat) ^ m"
  shows "(q * 2 ^ m + r) div 2 ^ m = q"
  using assms by simp

lemma v4_block_8: "v4_number (Ipv4 a b c d) div 2 ^ 24 = unat a"
  using octet_lt [of b] octet_lt [of c] octet_lt [of d] by simp

lemma v4_block_16: "v4_number (Ipv4 a b c d) div 2 ^ 16 = unat a * 256 + unat b"
  using octet_lt [of c] octet_lt [of d] by simp

lemma v4_block_12: "v4_number (Ipv4 a b c d) div 2 ^ 20 = unat a * 16 + unat b div 16"
proof -
  have "v4_number (Ipv4 a b c d) div 2 ^ 20 = v4_number (Ipv4 a b c d) div 2 ^ 16 div 16"
    by (simp add: div_mult2_eq [symmetric])
  also have "\<dots> = (unat a * 256 + unat b) div 16"
    by (simp only: v4_block_16)
  also have "\<dots> = unat a * 16 + unat b div 16"
    by simp
  finally show ?thesis .
qed

lemma v4_block_4: "v4_number (Ipv4 a b c d) div 2 ^ 28 = unat a div 16"
proof -
  have "v4_number (Ipv4 a b c d) div 2 ^ 28 = v4_number (Ipv4 a b c d) div 2 ^ 24 div 16"
    by (simp add: div_mult2_eq [symmetric])
  then show ?thesis by (simp only: v4_block_8)
qed

lemma digit_unique:
  "r < (b::nat) \<Longrightarrow> r' < b \<Longrightarrow> q * b + r = q' * b + r' \<longleftrightarrow> q = q' \<and> r = r'"
proof (rule iffI)
  assume less: "r < b" "r' < b" and eq: "q * b + r = q' * b + r'"
  from less have "(q * b + r) div b = q" "(q' * b + r') div b = q'" by simp_all
  with eq have "q = q'" by simp
  with eq show "q = q' \<and> r = r'" by simp
qed simp

lemma octets_unique:
  "v4_number (Ipv4 a b c d) = v4_number (Ipv4 a' b' c' d') \<longleftrightarrow> Ipv4 a b c d = Ipv4 a' b' c' d'"
proof -
  have horner: "v4_number (Ipv4 w x y z) = ((unat w * 256 + unat x) * 256 + unat y) * 256 + unat z" for w x y z
    by simp
  show ?thesis
    by (simp only: horner digit_unique octet_lt ipv4.inject word_unat_eq_iff conj_assoc)
qed

lemma in_block_4:
  "in_block 32 (v4_number (Ipv4 a b c d)) (v4_number (Ipv4 w x y z), 4) \<longleftrightarrow> unat a div 16 = unat w div 16"
  using v4_block_4 [of a b c d] v4_block_4 [of w x y z] by (simp add: in_block_def del: v4_number.simps)

lemma in_block_8:
  "in_block 32 (v4_number (Ipv4 a b c d)) (v4_number (Ipv4 w x y z), 8) \<longleftrightarrow> a = w"
  using v4_block_8 [of a b c d] v4_block_8 [of w x y z]
  by (simp add: in_block_def word_unat_eq_iff del: v4_number.simps)

lemma in_block_12:
  "in_block 32 (v4_number (Ipv4 a b c d)) (v4_number (Ipv4 w x y z), 12)
     \<longleftrightarrow> a = w \<and> unat b div 16 = unat x div 16"
proof -
  have "unat b div 16 < 16" "unat x div 16 < 16"
    using octet_lt [of b] octet_lt [of x] by simp_all
  then show ?thesis
    using v4_block_12 [of a b c d] v4_block_12 [of w x y z]
    by (simp add: in_block_def word_unat_eq_iff digit_unique del: v4_number.simps)
qed

lemma in_block_16:
  "in_block 32 (v4_number (Ipv4 a b c d)) (v4_number (Ipv4 w x y z), 16) \<longleftrightarrow> a = w \<and> b = x"
  using v4_block_16 [of a b c d] v4_block_16 [of w x y z] octet_lt [of b] octet_lt [of x]
  by (simp add: in_block_def word_unat_eq_iff digit_unique del: v4_number.simps)

lemma in_block_32:
  "in_block 32 (v4_number (Ipv4 a b c d)) (v4_number (Ipv4 w x y z), 32)
     \<longleftrightarrow> Ipv4 a b c d = Ipv4 w x y z"
  using octets_unique [of a b c d w x y z] by (simp add: in_block_def del: v4_number.simps)

lemma denied_v4_blocks:
  "denied_v4 a \<longleftrightarrow> list_ex (in_block 32 (v4_number a)) denied_v4_blocks"
proof (cases a)
  case (Ipv4 a0 a1 a2 a3)
  have range: "unat a1 div 16 = unat (16 :: 8 word) div 16 \<longleftrightarrow> 16 \<le> a1 \<and> a1 \<le> 31"
    by (auto simp: word_le_nat_alt)
  have multicast: "unat a0 div 16 = unat (224 :: 8 word) div 16 \<longleftrightarrow> 224 \<le> a0 \<and> a0 \<le> 239"
    by (auto simp: word_le_nat_alt)
  show ?thesis
    by (simp only: Ipv4 denied_v4_def denied_v4_blocks_def list_ex_Nil_iff list_ex_Cons_iff in_block_4 in_block_8 in_block_12
        in_block_16 in_block_32 v4_is_loopback.simps v4_is_private.simps v4_is_link_local.simps
        v4_is_multicast.simps range multicast) blast
qed

lemma and_high_mask:
  fixes s :: "16 word"
  assumes "m = push_bit k (mask (16 - k))"
  shows "s AND m = push_bit k (drop_bit k s)"
  using assms by (auto simp: bit_eq_iff bit_simps)

lemma unat_high: "unat (push_bit k (drop_bit k (s::16 word))) = unat s div 2 ^ k * 2 ^ k"
proof -
  have "unat s div 2 ^ k * 2 ^ k \<le> unat s" by simp
  also have "\<dots> < 2 ^ 16" using unsigned_less[of s] by simp
  finally have small: "unat s div 2 ^ k * 2 ^ k < 2 ^ 16" .
  have "unat (drop_bit k s) = unat s div 2 ^ k"
    unfolding unat_drop_bit_eq by (rule drop_bit_eq_div)
  with small show ?thesis
    unfolding unsigned_push_bit_eq by (simp add: push_bit_eq_mult take_bit_eq_mod)
qed
lemma segment_masks:
  fixes s :: "16 word"
  shows "s AND 0xFE00 = 0xFC00 \<longleftrightarrow> unat s div 2 ^ 9 = 126"
    and "s AND 0xFFC0 = 0xFE80 \<longleftrightarrow> unat s div 2 ^ 6 = 1018"
    and "s AND 0xFF00 = 0xFF00 \<longleftrightarrow> unat s div 2 ^ 8 = 255"
  using and_high_mask [of "0xFE00" 9 s] unat_high [of 9 s] and_high_mask [of "0xFFC0" 6 s] unat_high [of 6 s]
    and_high_mask [of "0xFF00" 8 s] unat_high [of 8 s]
  by (simp_all add: word_unat_eq_iff mask_eq_exp_minus_1)

lemma v6_horner:
  "v6_number (Ipv6 s0 s1 s2 s3 s4 s5 s6 s7) =
     ((((((unat s0 * 65536 + unat s1) * 65536 + unat s2) * 65536 + unat s3) * 65536 + unat s4) * 65536
        + unat s5) * 65536 + unat s6) * 65536 + unat s7"
  by simp

lemma segments_unique:
  "v6_number (Ipv6 s0 s1 s2 s3 s4 s5 s6 s7) = v6_number (Ipv6 t0 t1 t2 t3 t4 t5 t6 t7)
     \<longleftrightarrow> Ipv6 s0 s1 s2 s3 s4 s5 s6 s7 = Ipv6 t0 t1 t2 t3 t4 t5 t6 t7"
  by (simp only: v6_horner digit_unique segment_lt ipv6.inject word_unat_eq_iff conj_assoc)

lemma digit_div: "r < (b::nat) \<Longrightarrow> (q * b + r) div b = q"
  by simp

lemma v6_div_32:
  "v6_number (Ipv6 s0 s1 s2 s3 s4 s5 s6 s7) div 2 ^ 32 =
     ((((unat s0 * 65536 + unat s1) * 65536 + unat s2) * 65536 + unat s3) * 65536 + unat s4) * 65536 + unat s5"
proof -
  have "v6_number (Ipv6 s0 s1 s2 s3 s4 s5 s6 s7) div 2 ^ 32
      = v6_number (Ipv6 s0 s1 s2 s3 s4 s5 s6 s7) div 65536 div 65536"
    by (simp add: div_mult2_eq [symmetric] del: v6_number.simps)
  then show ?thesis by (simp only: v6_horner digit_div segment_lt)
qed

lemma v6_div_112:
  "v6_number (Ipv6 s0 s1 s2 s3 s4 s5 s6 s7) div 2 ^ 112 = unat s0"
proof -
  have "v6_number (Ipv6 s0 s1 s2 s3 s4 s5 s6 s7) div 2 ^ 112
      = v6_number (Ipv6 s0 s1 s2 s3 s4 s5 s6 s7) div 2 ^ 32
          div 65536 div 65536 div 65536 div 65536 div 65536"
    by (simp add: div_mult2_eq [symmetric] del: v6_number.simps)
  then show ?thesis by (simp only: v6_div_32 digit_div segment_lt)
qed

lemma v6_div_high:
  "v6_number (Ipv6 s0 s1 s2 s3 s4 s5 s6 s7) div 2 ^ (112 + k) = unat s0 div 2 ^ k"
proof -
  have "v6_number (Ipv6 s0 s1 s2 s3 s4 s5 s6 s7) div 2 ^ (112 + k)
      = v6_number (Ipv6 s0 s1 s2 s3 s4 s5 s6 s7) div 2 ^ 112 div 2 ^ k"
    by (simp only: power_add div_mult2_eq)
  then show ?thesis by (simp only: v6_div_112)
qed

lemma in_block_v6_high:
  assumes "len \<le> 16"
  shows "in_block 128 (v6_number (Ipv6 s0 s1 s2 s3 s4 s5 s6 s7)) (v6_number (Ipv6 t0 t1 t2 t3 t4 t5 t6 t7), len)
     \<longleftrightarrow> unat s0 div 2 ^ (16 - len) = unat t0 div 2 ^ (16 - len)"
proof -
  from assms have "128 - len = 112 + (16 - len)" by simp
  then show ?thesis by (simp only: in_block_def snd_conv fst_conv v6_div_high)
qed

lemma in_block_v6_128:
  "in_block 128 (v6_number (Ipv6 s0 s1 s2 s3 s4 s5 s6 s7)) (v6_number (Ipv6 t0 t1 t2 t3 t4 t5 t6 t7), 128)
     \<longleftrightarrow> Ipv6 s0 s1 s2 s3 s4 s5 s6 s7 = Ipv6 t0 t1 t2 t3 t4 t5 t6 t7"
  using segments_unique [of s0 s1 s2 s3 s4 s5 s6 s7 t0 t1 t2 t3 t4 t5 t6 t7]
  by (simp add: in_block_def del: v6_number.simps)

lemma mapped_block:
  "in_block 128 (v6_number a) mapped_block \<longleftrightarrow> to_ipv4_mapped a \<noteq> None"
proof (cases a)
  case (Ipv6 s0 s1 s2 s3 s4 s5 s6 s7)
  have zero: "unat s = unat (0 :: 16 word) \<longleftrightarrow> s = 0" for s :: "16 word"
    by (simp only: word_unat_eq_iff)
  have ones: "unat s5 = unat (0xFFFF :: 16 word) \<longleftrightarrow> s5 = 0xFFFF"
    by (simp only: word_unat_eq_iff)
  have width: "(128::nat) - 96 = 32" by simp
  show ?thesis
    by (simp only: Ipv6 in_block_def mapped_block_def snd_conv fst_conv width v6_div_32 digit_unique segment_lt
        zero ones to_ipv4_mapped.simps) auto
qed

text \<open>The last 32 bits of a mapped address are the address it stands for.\<close>

lemma mapped_number:
  assumes "to_ipv4_mapped a = Some b"
  shows "v4_number b = v6_number a mod 2 ^ 32"
proof (cases a)
  case (Ipv6 s0 s1 s2 s3 s4 s5 s6 s7)
  have high: "unat (ucast (drop_bit 8 s) :: 8 word) = unat s div 256" for s :: "16 word"
  proof -
    have "unat (drop_bit 8 s) = unat s div 2 ^ 8"
      unfolding unat_drop_bit_eq by (rule drop_bit_eq_div)
    moreover have "unat (ucast w :: 8 word) = unat w mod 256" for w :: "16 word"
      by (simp add: unsigned_ucast_eq take_bit_eq_mod)
    ultimately show ?thesis using segment_lt [of s] by simp
  qed
  have low: "unat (ucast s :: 8 word) = unat s mod 256" for s :: "16 word"
    by (simp add: unsigned_ucast_eq take_bit_eq_mod)
  have pair: "unat s div 256 * 256 + unat s mod 256 = unat s" for s :: "16 word"
    by simp
  have "v4_number b = unat s6 * 65536 + unat s7"
  proof -
    from assms have b: "b = Ipv4 (ucast (drop_bit 8 s6)) (ucast s6) (ucast (drop_bit 8 s7)) (ucast s7)"
      by (simp add: Ipv6 split: if_splits)
    have group: "v4_number (Ipv4 w x y z) = (unat w * 256 + unat x) * 65536 + (unat y * 256 + unat z)"
      for w x y z by simp
    have "v4_number b = (unat s6 div 256 * 256 + unat s6 mod 256) * 65536
                      + (unat s7 div 256 * 256 + unat s7 mod 256)"
      unfolding b group high by (simp only: low)
    then show ?thesis by (simp only: pair)
  qed
  moreover have "v6_number a mod 2 ^ 32 = unat s6 * 65536 + unat s7"
  proof -
    have "v6_number a = v6_number a div 2 ^ 32 * 2 ^ 32 + (unat s6 * 65536 + unat s7)"
      unfolding Ipv6 v6_div_32 by simp
    moreover have "unat s6 * 65536 + unat s7 < 2 ^ 32"
      using segment_lt [of s6] segment_lt [of s7] by simp
    ultimately show ?thesis by (metis mod_less mod_mult_self3)
  qed
  ultimately show ?thesis by simp
qed

section \<open>Properties\<close>

text \<open>
  C28: Without the administrator's override, an IPv4 destination is denied exactly when it lies in
  one of the loopback, private, link-local, multicast, unspecified, broadcast and metadata blocks,
  and an IPv6 destination exactly when it lies in the corresponding IPv6 blocks or its last 32
  bits, when it is a mapped address, lie in one of the IPv4 blocks.
\<close>

theorem destinations_denied_by_blocks:
  "(validate_destination (V4 a) public_only = Err DestinationDenied
     \<longleftrightarrow> list_ex (in_block 32 (v4_number a)) denied_v4_blocks)
   \<and> (validate_destination (V6 b) public_only = Err DestinationDenied
     \<longleftrightarrow> list_ex (in_block 128 (v6_number b)) denied_v6_blocks
        \<or> (in_block 128 (v6_number b) mapped_block
           \<and> list_ex (in_block 32 (v6_number b mod 2 ^ 32)) denied_v4_blocks))"
proof (rule conjI)
  show "validate_destination (V4 a) public_only = Err DestinationDenied
     \<longleftrightarrow> list_ex (in_block 32 (v4_number a)) denied_v4_blocks"
    by (simp add: validate_destination_def public_only_def denied_v4_blocks)
  show "validate_destination (V6 b) public_only = Err DestinationDenied
     \<longleftrightarrow> list_ex (in_block 128 (v6_number b)) denied_v6_blocks
        \<or> (in_block 128 (v6_number b) mapped_block
           \<and> list_ex (in_block 32 (v6_number b mod 2 ^ 32)) denied_v4_blocks)"
  proof (cases b)
    case (Ipv6 s0 s1 s2 s3 s4 s5 s6 s7)
    have segs: "unat (0xFF00 :: 16 word) div 2 ^ 8 = 255"
      "unat (0xFC00 :: 16 word) div 2 ^ 9 = 126" "unat (0xFE80 :: 16 word) div 2 ^ 6 = 1018"
      "16 - 8 = (8::nat)" "16 - 7 = (9::nat)" "16 - 10 = (6::nat)"
      "(8::nat) \<le> 16" "(7::nat) \<le> 16" "(10::nat) \<le> 16"
      by simp_all
    have blocks: "list_ex (in_block 128 (v6_number b)) denied_v6_blocks \<longleftrightarrow>
        b = Ipv6 0 0 0 0 0 0 0 1 \<or> b = Ipv6 0 0 0 0 0 0 0 0 \<or> v6_is_multicast b
        \<or> is_ipv6_unique_local b \<or> is_ipv6_link_local b"
      by (simp only: denied_v6_blocks_def list_ex_Nil_iff list_ex_Cons_iff Ipv6 in_block_v6_128 in_block_v6_high
          segs v6_is_multicast.simps is_ipv6_unique_local.simps is_ipv6_link_local.simps segment_masks) blast
    show ?thesis
    proof (cases "to_ipv4_mapped b")
      case None
      with mapped_block [of b] blocks show ?thesis
        by (simp add: validate_destination_def public_only_def)
    next
      case (Some c)
      then have "s0 = 0" "s5 = 0xFFFF"
        by (simp_all add: Ipv6 split: if_splits)
      then have "\<not> list_ex (in_block 128 (v6_number b)) denied_v6_blocks"
        unfolding blocks by (simp add: Ipv6)
      with Some mapped_block [of b] mapped_number [OF Some] show ?thesis
        by (simp add: validate_destination_def public_only_def denied_v4_blocks)
    qed
  qed
qed

text \<open>
  Whatever the parameters of an item and whatever the outside answers, an evaluation touches
  only what the configuration of the adapter allows: TCP connections go to the resolved and
  permitted addresses of a configured target, HTTPS requests to the origin of a configured target
  through permitted addresses, also after redirects, and the metadata read are those of canonical
  paths below a configured root. A disabled adapter touches nothing.
\<close>

lemma observations_stay_contained:
  assumes "adapter_ok a"
    and "adapter_evaluate out rfc3339 now a run params = Ok (events, r)"
  shows "\<forall>e \<in> set events. adapter_enabled a \<and> adapter_allows out a e"
proof (cases a)
  case (FileExists f)
  with assms(2) show ?thesis
    by (auto simp: adapter_evaluate_def dest!: arg_cong [where f = fst] dest: file_evaluate_allows)
next
  case (HttpHealth h)
  with assms show ?thesis
    using http_evaluate_allows [of _ out h run params] by (auto simp: adapter_evaluate_def)
next
  case (ObservationWindow enabled)
  with assms(2) show ?thesis
    by (auto simp: adapter_evaluate_def dest: window_evaluate_events)
next
  case (TcpReachable t)
  with assms(2) show ?thesis
    using tcp_evaluate_allows [of _ out t run params] by (auto simp: adapter_evaluate_def)
qed

text \<open>A configured alias whose name resolves to a public address that accepts the connection.\<close>

definition demo_address :: socket_addr where
  "demo_address = \<lparr>sa_ip = V4 (Ipv4 93 184 216 34), sa_port = 443\<rparr>"

definition demo_tcp :: tcp_adapter where
  "demo_tcp = \<lparr>tcp_enabled = True,
     tcp_aliases = [(lit ''db'', \<lparr>tt_host = lit ''db.example'', tt_port = 443, tt_policy = public_only\<rparr>)]\<rparr>"

definition demo_outside :: outside where
  "demo_outside = \<lparr>out_lookup = (\<lambda>_ _ _. Some [demo_address]), out_connect = (\<lambda>_. True),
     out_client = (\<lambda>_ _. True), out_get = (\<lambda>_ _ _. None), out_join = (\<lambda>_ _. None),
     out_canonicalize = (\<lambda>_ _. MissingPath), out_metadata = (\<lambda>_. False)\<rparr>"

definition demo_evaluation :: evaluation_run where
  "demo_evaluation = \<lparr>er_now = 0, er_elapsed = 5, er_race = OperationWins\<rparr>"

lemma demo_tcp_evaluation:
  "adapter_ok (TcpReachable demo_tcp)"
  "adapter_evaluate demo_outside rfc3339 0 (TcpReachable demo_tcp) demo_evaluation (JObj [(''target'', JStr (lit ''db''))])
     = Ok ([Connected demo_address],
           adapter_result_new AdapterSatisfied 0 ''Configured target accepted a TCP connection.'' 5)"
  by (simp_all add: demo_tcp_def demo_outside_def demo_evaluation_def demo_address_def adapter_evaluate_def
      tcp_evaluate_def alias_parameter_def valid_alias_def utf8_len_def utf8_width_def utf8_bytes_def
      utf8_char_def is_ascii_alphanumeric_def is_ascii_alphabetic_def guarded_def tcp_operation_def
      resolve_target_def validate_destination_def public_only_def denied_v4_def)

text \<open>
  An HTTP evaluation is bounded: at most four requests are sent, one when redirects are not
  allowed, and the body of a response is accepted exactly when every chunk arrives and the sizes
  add up to at most the configured maximum, which no sum can exceed by wrapping around.
\<close>

theorem http_evaluation_bounded:
  "length (fst (probe out target expected)) \<le> (if ht_allow_redirects target then 4 else 1)
   \<and> (consume_bounded 0 maximum chunks = Ok ()
     \<longleftrightarrow> None \<notin> set chunks \<and> sum_list (map (unat \<circ> the) chunks) \<le> unat maximum)"
proof (rule conjI)
  show "length (fst (probe out target expected)) \<le> (if ht_allow_redirects target then 4 else 1)"
  proof (cases "origin (ht_url target)")
    case (Inr b)
    then show ?thesis
      using probe_loop_requests [of out target expected b "[0, 1, 2, 3]" "ht_url target"]
      by (simp add: probe_def tbind_def tlift_def del: probe_loop.simps split: if_splits)
  qed (simp add: probe_def tbind_def tlift_def)
  show "consume_bounded 0 maximum chunks = Ok ()
     \<longleftrightarrow> None \<notin> set chunks \<and> sum_list (map (unat \<circ> the) chunks) \<le> unat maximum"
    using consume_bounded_Ok [of 0 maximum chunks] by simp
qed

end
