(* ===== verification/AdminStore.thy ===== *)
theory AdminStore
  imports Adapters "HOL-Library.List_Lexorder"
begin

text \<open>
  The administrative tables (\<open>src/migrations/0002_admin_webui.sql\<close>) and the audit log of
  \<open>src/admin/audit.rs\<close> on an explicit world. Every call to the database may fail; the failures
  are a parameter indexed by the number of the call. A transaction restores the tables when
  it is not committed. Columns that hold JSON are represented by the value they denote.
\<close>

section \<open>Adapter configurations\<close>

record http_alias_configuration =
  hc_url :: ustring
  hc_expected_statuses :: "16 word list"
  hc_max_response_bytes :: u64
  hc_expected_content_type :: "ustring option"
  hc_allow_redirects :: bool
  hc_allow_private :: bool

record tcp_alias_configuration =
  tc_host :: ustring
  tc_port :: "16 word"
  tc_allow_private :: bool

text \<open>The alias maps are \<open>BTreeMap\<close>s: their entries in the order of the aliases.\<close>

datatype adapter_configuration =
    ObservationWindowEnded
  | HttpHealthAliases "(ustring \<times> http_alias_configuration) list"
  | TcpReachableAliases "(ustring \<times> tcp_alias_configuration) list"
  | FileExistsAliases "ustring list" "(ustring \<times> ustring) list"

text \<open>The column \<open>config_json\<close>: the text \<open>{}\<close>, a text that parses as a configuration, or another.\<close>

datatype config_text = EmptyObject | Encoded adapter_configuration | OtherText

section \<open>Tables\<close>

record setting_row =
  st_key :: ustring
  st_value :: json
  st_version :: int
  st_updated_at :: stamp
  st_updated_by :: ustring

record adapter_row =
  ar_name :: ustring
  ar_enabled :: int
  ar_config :: config_text
  ar_version :: int
  ar_updated_at :: stamp
  ar_updated_by :: ustring

record admin_event =
  adm_sequence :: int
  adm_event_id :: uuid
  adm_event_type :: string
  adm_actor_id :: ustring
  adm_request_id :: "ustring option"
  adm_occurred_at :: stamp
  adm_outcome :: string
  adm_details :: json

record admin_db =
  setting_table :: "setting_row list"
  adapter_table :: "adapter_row list"
  admin_event_table :: "admin_event list"
  admin_last_sequence :: int

section \<open>The world\<close>

record admin_env =
  ae_clock :: "nat \<Rightarrow> instant"
  ae_ids :: "nat \<Rightarrow> uuid"
  ae_fails :: "nat \<Rightarrow> bool"
  ae_outside :: "nat \<Rightarrow> outside"
  ae_parse_url :: "ustring \<Rightarrow> url option"

record admin_world =
  aw_db :: admin_db
  aw_published :: adapter_registry
  aw_clock :: nat
  aw_ids :: nat
  aw_calls :: nat

datatype admin_error = AdminValidation | AdminVersionConflict | AdminDatabase

type_synonym 'a admin = "admin_world \<Rightarrow> (admin_error, 'a) res \<times> admin_world"

definition abind :: "'a admin \<Rightarrow> ('a \<Rightarrow> 'b admin) \<Rightarrow> 'b admin" where
  "abind m f = (\<lambda>w. case m w of (Inl e, w') \<Rightarrow> (Inl e, w') | (Inr x, w') \<Rightarrow> f x w')"

definition alift :: "(admin_error, 'a) res \<Rightarrow> 'a admin" where
  "alift r = (\<lambda>w. (r, w))"

definition admin_now :: "admin_env \<Rightarrow> instant admin" where
  "admin_now env = (\<lambda>w. (Ok (ae_clock env (aw_clock w)), w\<lparr>aw_clock := aw_clock w + 1\<rparr>))"

definition admin_id :: "admin_env \<Rightarrow> uuid admin" where
  "admin_id env = (\<lambda>w. (Ok (ae_ids env (aw_ids w)), w\<lparr>aw_ids := aw_ids w + 1\<rparr>))"

text \<open>A call to the database, which fails or not.\<close>

definition admin_call :: "admin_env \<Rightarrow> unit admin" where
  "admin_call env = (\<lambda>w.
     (if ae_fails env (aw_calls w) then Err AdminDatabase else Ok (), w\<lparr>aw_calls := aw_calls w + 1\<rparr>))"

definition admin_stamp :: "instant \<Rightarrow> (admin_error, stamp) res" where
  "admin_stamp t = map_err (\<lambda>_. AdminDatabase) (canonical_timestamp t)"

text \<open>
  A transaction: the body says whether it commits (\<open>True\<close>) or rolls back; when it fails, or the
  commit fails, the tables are as before.
\<close>

definition admin_transaction :: "admin_env \<Rightarrow> ('a \<times> bool) admin \<Rightarrow> 'a admin" where
  "admin_transaction env body = (\<lambda>w.
     case admin_call env w of
       (Inl e, w1) \<Rightarrow> (Inl e, w1)
     | (Inr _, w1) \<Rightarrow>
         (case body w1 of
            (Inl e, w2) \<Rightarrow> (Inl e, w2\<lparr>aw_db := aw_db w\<rparr>)
          | (Inr (x, commit), w2) \<Rightarrow>
              (case admin_call env w2 of
                 (Inl e, w3) \<Rightarrow> (Inl e, w3\<lparr>aw_db := aw_db w\<rparr>)
               | (Inr _, w3) \<Rightarrow> (Ok x, if commit then w3 else w3\<lparr>aw_db := aw_db w\<rparr>))))"

section \<open>Actors and events\<close>

record admin_actor =
  aa_actor_id :: ustring
  aa_request_id :: "ustring option"

definition admin_actor_new :: "ustring \<Rightarrow> ustring option \<Rightarrow> (admin_error, admin_actor) res" where
  "admin_actor_new who request =
     (if trim who = [] \<or> utf8_len who > 256 \<or> list_ex is_control who
         \<or> (case request of
              None \<Rightarrow> False
            | Some r \<Rightarrow> r = [] \<or> utf8_len r > 128 \<or> list_ex is_control r)
      then Err AdminValidation
      else Ok \<lparr>aa_actor_id = who, aa_request_id = request\<rparr>)"

text \<open>\<open>audit::insert\<close>, inside a transaction.\<close>

definition admin_event_of ::
  "admin_db \<Rightarrow> string \<Rightarrow> admin_actor \<Rightarrow> string \<Rightarrow> json \<Rightarrow> uuid \<Rightarrow> stamp \<Rightarrow> admin_event" where
  "admin_event_of d kind who outcome dets i at =
     \<lparr>adm_sequence = admin_last_sequence d + 1, adm_event_id = i, adm_event_type = kind,
      adm_actor_id = aa_actor_id who, adm_request_id = aa_request_id who, adm_occurred_at = at,
      adm_outcome = outcome, adm_details = dets\<rparr>"

definition insert_event :: "admin_event \<Rightarrow> admin_db \<Rightarrow> admin_db" where
  "insert_event e d = d\<lparr>admin_event_table := admin_event_table d @ [e],
                        admin_last_sequence := adm_sequence e\<rparr>"

definition audit_insert ::
  "admin_env \<Rightarrow> string \<Rightarrow> admin_actor \<Rightarrow> string \<Rightarrow> json \<Rightarrow> unit admin" where
  "audit_insert env kind who outcome dets =
     abind (admin_now env) (\<lambda>now.
     abind (alift (admin_stamp now)) (\<lambda>at.
     abind (admin_id env) (\<lambda>i.
     abind (admin_call env) (\<lambda>_. \<lambda>w.
       (Ok (), w\<lparr>aw_db := insert_event (admin_event_of (aw_db w) kind who outcome dets i at) (aw_db w)\<rparr>)))))"

text \<open>\<open>audit::append\<close>: a transaction of its own.\<close>

definition audit_append ::
  "admin_env \<Rightarrow> string \<Rightarrow> admin_actor \<Rightarrow> string \<Rightarrow> json \<Rightarrow> unit admin" where
  "audit_append env kind who outcome dets =
     admin_transaction env (abind (audit_insert env kind who outcome dets) (\<lambda>_. alift (Ok ((), True))))"

text \<open>\<open>audit::list\<close>.\<close>

definition audit_list :: "admin_env \<Rightarrow> int option \<Rightarrow> nat \<Rightarrow> admin_event list admin" where
  "audit_list env after_sequence limit =
     (if limit = 0 \<or> limit > 200 \<or> (case after_sequence of None \<Rightarrow> False | Some s \<Rightarrow> s < 0)
      then alift (Err AdminValidation)
      else
        abind (admin_call env) (\<lambda>_.
        abind (admin_call env) (\<lambda>_. \<lambda>w.
          (Ok (take limit (sort_key adm_sequence
                (filter (\<lambda>e. adm_sequence e > (case after_sequence of None \<Rightarrow> 0 | Some s \<Rightarrow> s))
                   (admin_event_table (aw_db w))))), w))))"

section \<open>Inversion\<close>

named_theorems admin_simps \<open>inversion of administrative actions\<close>

lemma abind_eq_Inr [admin_simps]:
  "abind m f w = (Inr y, w') \<longleftrightarrow> (\<exists>x w1. m w = (Inr x, w1) \<and> f x w1 = (Inr y, w'))"
  by (auto simp: abind_def split: prod.splits sum.splits)

lemma abind_eq_Inl [admin_simps]:
  "abind m f w = (Inl e, w') \<longleftrightarrow>
     m w = (Inl e, w') \<or> (\<exists>x w1. m w = (Inr x, w1) \<and> f x w1 = (Inl e, w'))"
  by (auto simp: abind_def split: prod.splits sum.splits)

lemma alift_eq [admin_simps]: "alift r w = (r', w') \<longleftrightarrow> r' = r \<and> w' = w"
  by (auto simp: alift_def)

text \<open>The parts of the world an action leaves alone, whatever its result.\<close>

definition keeps_db :: "'a admin \<Rightarrow> bool" where
  "keeps_db m \<longleftrightarrow> (\<forall>w. aw_db (snd (m w)) = aw_db w \<and> aw_published (snd (m w)) = aw_published w)"

named_theorems keeps_intros \<open>actions that keep the tables\<close>

lemma keeps_dbD: "keeps_db m \<Longrightarrow> m w = (r, w') \<Longrightarrow> aw_db w' = aw_db w \<and> aw_published w' = aw_published w"
  by (metis keeps_db_def snd_conv)

lemma keeps_abind [keeps_intros]: "keeps_db m \<Longrightarrow> (\<And>x. keeps_db (f x)) \<Longrightarrow> keeps_db (abind m f)"
  by (auto simp: keeps_db_def abind_def split: prod.splits sum.splits) (metis snd_conv)+

lemma keeps_basic [keeps_intros]:
  "keeps_db (alift r)" "keeps_db (admin_now env)" "keeps_db (admin_id env)" "keeps_db (admin_call env)"
  by (auto simp: keeps_db_def alift_def admin_now_def admin_id_def admin_call_def)

lemma keeps_audit_list [keeps_intros]: "keeps_db (audit_list env s l)"
  unfolding audit_list_def
  by (auto intro!: keeps_intros) (simp add: keeps_db_def)

text \<open>A transaction either leaves the tables alone or commits what its body did.\<close>

lemma admin_transaction_Inr:
  assumes "admin_transaction env body w = (Inr x, w')"
  shows "\<exists>w1 w2 commit. aw_db w1 = aw_db w \<and> aw_published w1 = aw_published w
     \<and> body w1 = (Inr (x, commit), w2) \<and> aw_db w' = (if commit then aw_db w2 else aw_db w)
     \<and> aw_published w' = aw_published w2"
proof -
  let ?w1 = "w\<lparr>aw_calls := aw_calls w + 1\<rparr>"
  from assms obtain commit w2 where "body ?w1 = (Inr (x, commit), w2)"
    and "aw_db w' = (if commit then aw_db w2 else aw_db w)" and "aw_published w' = aw_published w2"
    by (auto simp: admin_transaction_def admin_call_def split: prod.splits sum.splits if_splits)
  then show ?thesis
    by (intro exI [of _ ?w1] exI [of _ w2] exI [of _ commit]) simp
qed

lemma admin_transaction_Inl: "admin_transaction env body w = (Inl e, w') \<Longrightarrow> aw_db w' = aw_db w"
  by (auto simp: admin_transaction_def admin_call_def split: prod.splits sum.splits if_splits)

text \<open>What an appended event looks like.\<close>

definition logged ::
  "string \<Rightarrow> admin_actor \<Rightarrow> string \<Rightarrow> json \<Rightarrow> admin_db \<Rightarrow> admin_db \<Rightarrow> bool" where
  "logged kind who outcome dets d d' \<longleftrightarrow>
     (\<exists>i at. d' = insert_event (admin_event_of d kind who outcome dets i at) d)"

lemma loggedI [simp]: "logged kind who outcome dets d (insert_event (admin_event_of d kind who outcome dets i at) d)"
  unfolding logged_def by (intro exI) (rule refl)

lemma audit_insert_Inr:
  assumes "audit_insert env kind who outcome dets w = (Inr u, w')"
  shows "logged kind who outcome dets (aw_db w) (aw_db w') \<and> aw_published w' = aw_published w"
  using assms
  by (auto simp: audit_insert_def admin_simps admin_now_def admin_id_def admin_call_def split: if_splits)

lemma audit_insert_Inl:
  "audit_insert env kind who outcome dets w = (Inl e, w') \<Longrightarrow> aw_published w' = aw_published w"
  by (auto simp: audit_insert_def admin_simps admin_now_def admin_id_def admin_call_def split: if_splits)

lemma audit_append_Inr:
  assumes "audit_append env kind who outcome dets w = (Inr u, w')"
  shows "logged kind who outcome dets (aw_db w) (aw_db w') \<and> aw_published w' = aw_published w"
proof -
  from admin_transaction_Inr [OF assms [unfolded audit_append_def]] obtain w1 w2 commit
    where w1: "aw_db w1 = aw_db w" "aw_published w1 = aw_published w"
      and body: "abind (audit_insert env kind who outcome dets) (\<lambda>_. alift (Ok ((), True))) w1 = (Inr (u, commit), w2)"
      and w': "aw_db w' = (if commit then aw_db w2 else aw_db w)" "aw_published w' = aw_published w2"
    by blast
  from body have "audit_insert env kind who outcome dets w1 = (Inr (), w2)" "commit"
    by (auto simp: admin_simps)
  with audit_insert_Inr [OF this(1)] w1 w' show ?thesis by simp
qed

lemma audit_append_Inl:
  "audit_append env kind who outcome dets w = (Inl e, w') \<Longrightarrow>
     aw_db w' = aw_db w \<and> aw_published w' = aw_published w"
  by (auto simp: audit_append_def admin_transaction_def admin_call_def admin_simps
      split: prod.splits sum.splits if_splits dest!: audit_insert_Inr audit_insert_Inl)

end
