(* ===== verification/Settings.thy ===== *)
theory Settings
  imports AdminStore Requests
begin

text \<open>
  \<open>src/admin/settings.rs\<close>: the runtime settings, their validation as a set, and the part of
  \<open>src/db/migrations.rs\<close> that seeds and validates the administrative tables at start-up.
\<close>

section \<open>Definitions of the settings\<close>

record setting_definition =
  sd_key :: ustring
  sd_minimum :: int

definition poll_key :: ustring where "poll_key = lit ''scheduler.poll_interval_seconds''"
definition lease_key :: ustring where "lease_key = lit ''scheduler.lease_seconds''"
definition concurrency_key :: ustring where "concurrency_key = lit ''adapters.max_concurrency''"
definition timeout_key :: ustring where "timeout_key = lit ''adapters.timeout_seconds''"

definition overdue_key :: ustring where "overdue_key = lit ''remindi.default_overdue_seconds''"

definition setting_definitions :: "setting_definition list" where
  "setting_definitions =
     [\<lparr>sd_key = concurrency_key, sd_minimum = 1\<rparr>,
      \<lparr>sd_key = timeout_key, sd_minimum = 1\<rparr>,
      \<lparr>sd_key = lit ''backups.interval_seconds'', sd_minimum = 1\<rparr>,
      \<lparr>sd_key = lit ''backups.retention_count'', sd_minimum = 1\<rparr>,
      \<lparr>sd_key = lit ''backups.upload_max_bytes'', sd_minimum = 1\<rparr>,
      \<lparr>sd_key = lit ''idempotency.retention_days'', sd_minimum = 1\<rparr>,
      \<lparr>sd_key = lit ''recurrence.max_catch_up_occurrences'', sd_minimum = 1\<rparr>,
      \<lparr>sd_key = overdue_key, sd_minimum = 0\<rparr>,
      \<lparr>sd_key = lit ''remindi.max_snooze_seconds'', sd_minimum = 1\<rparr>,
      \<lparr>sd_key = lease_key, sd_minimum = 1\<rparr>,
      \<lparr>sd_key = poll_key, sd_minimum = 1\<rparr>]"

definition setting_definition_of :: "ustring \<Rightarrow> setting_definition option" where
  "setting_definition_of key = find (\<lambda>d. sd_key d = key) setting_definitions"

definition setting_is_known :: "ustring \<Rightarrow> bool" where
  "setting_is_known key \<longleftrightarrow> setting_definition_of key \<noteq> None"

section \<open>Listing\<close>

record runtime_setting =
  rt_key :: ustring
  rt_value :: int
  rt_minimum :: int
  rt_maximum :: "int option"
  rt_version :: int
  rt_restart_required :: bool
  rt_updated_at :: stamp
  rt_updated_by :: ustring

text \<open>\<open>Value::as_i64\<close>.\<close>

fun json_as_i64 :: "json \<Rightarrow> int option" where
  "json_as_i64 (JNum n) = (if - i64_max - 1 \<le> n \<and> n \<le> i64_max then Some n else None)"
| "json_as_i64 _ = None"

definition runtime_setting_of :: "setting_row \<Rightarrow> (admin_error, runtime_setting) res" where
  "runtime_setting_of row =
     rbind (ok_or AdminValidation (setting_definition_of (st_key row))) (\<lambda>definition.
     rbind (ok_or AdminValidation (json_as_i64 (st_value row))) (\<lambda>v.
       Ok \<lparr>rt_key = st_key row, rt_value = v, rt_minimum = sd_minimum definition, rt_maximum = None,
           rt_version = st_version row, rt_restart_required = False,
           rt_updated_at = st_updated_at row, rt_updated_by = st_updated_by row\<rparr>))"

definition settings_list :: "admin_env \<Rightarrow> runtime_setting list admin" where
  "settings_list env =
     abind (admin_call env) (\<lambda>_.
     abind (admin_call env) (\<lambda>_. \<lambda>w.
       (collect_map runtime_setting_of (sort_key st_key (setting_table (aw_db w))), w)))"

section \<open>Validation of a candidate\<close>

text \<open>\<open>i64::saturating_mul\<close> with a positive factor.\<close>

definition i64_saturating_mul :: "int \<Rightarrow> int \<Rightarrow> int" where
  "i64_saturating_mul a b = max (- i64_max - 1) (min i64_max (a * b))"

text \<open>The \<open>BTreeMap\<close> of all values, the last binding of a key winning, with the candidate inserted.\<close>

definition setting_values :: "runtime_setting list \<Rightarrow> ustring \<Rightarrow> int option" where
  "setting_values settings = map_of (rev (map (\<lambda>s. (rt_key s, rt_value s)) settings))"

definition validate_candidate ::
  "runtime_setting list \<Rightarrow> ustring \<Rightarrow> int \<Rightarrow> (admin_error, unit) res" where
  "validate_candidate settings key v =
     rbind (ok_or AdminValidation (setting_definition_of key)) (\<lambda>selected.
       if v < sd_minimum selected then Err AdminValidation
       else
         let all = (setting_values settings)(key \<mapsto> v) in
         rbind (ok_or AdminValidation (all poll_key)) (\<lambda>poll.
         rbind (ok_or AdminValidation (all lease_key)) (\<lambda>lease.
           if lease \<le> i64_saturating_mul poll 2 then Err AdminValidation
           else case all concurrency_key of
                  None \<Rightarrow> Inl Panic
                | Some n \<Rightarrow> if 0 \<le> n then Ok () else Err AdminValidation)))"

definition setting_updated ::
  "runtime_setting list \<Rightarrow> ustring \<Rightarrow> int \<Rightarrow> ustring \<Rightarrow> stamp \<Rightarrow> (admin_error, runtime_setting) res" where
  "setting_updated settings key v who at =
     rbind (ok_or AdminValidation (find (\<lambda>s. rt_key s = key) settings)) (\<lambda>s.
       Ok (s\<lparr>rt_value := v, rt_version := rt_version s + 1, rt_updated_at := at, rt_updated_by := who\<rparr>))"

section \<open>The set of settings is valid\<close>

definition setting_value :: "setting_row list \<Rightarrow> ustring \<Rightarrow> int option" where
  "setting_value rows key =
     (case find (\<lambda>r. st_key r = key) rows of None \<Rightarrow> None | Some r \<Rightarrow> json_as_i64 (st_value r))"

definition settings_ok :: "setting_row list \<Rightarrow> bool" where
  "settings_ok rows \<longleftrightarrow>
     distinct (map st_key rows) \<and> set (map st_key rows) = set (map sd_key setting_definitions) \<and>
     list_all (\<lambda>d. case setting_value rows (sd_key d) of
                     None \<Rightarrow> False | Some v \<Rightarrow> sd_minimum d \<le> v) setting_definitions \<and>
     the (setting_value rows lease_key) > i64_saturating_mul (the (setting_value rows poll_key)) 2"

text \<open>Distinct keys, so that a definition is the one of its key.\<close>

lemma setting_keys_distinct: "distinct (map sd_key setting_definitions)"
  by (simp add: setting_definitions_def poll_key_def lease_key_def concurrency_key_def timeout_key_def overdue_key_def)

lemma key_definitions:
  "setting_definition_of poll_key = Some \<lparr>sd_key = poll_key, sd_minimum = 1\<rparr>"
  "setting_definition_of lease_key = Some \<lparr>sd_key = lease_key, sd_minimum = 1\<rparr>"
  "setting_definition_of concurrency_key = Some \<lparr>sd_key = concurrency_key, sd_minimum = 1\<rparr>"
  "setting_definition_of timeout_key = Some \<lparr>sd_key = timeout_key, sd_minimum = 1\<rparr>"
  by (simp_all add: setting_definition_of_def setting_definitions_def poll_key_def lease_key_def
      concurrency_key_def timeout_key_def overdue_key_def)

lemma distinct_keys: "poll_key \<noteq> lease_key" "concurrency_key \<noteq> poll_key" "concurrency_key \<noteq> lease_key"
  by (simp_all add: poll_key_def lease_key_def concurrency_key_def)

lemma setting_definition_of_Some:
  "setting_definition_of key = Some d \<longleftrightarrow> d \<in> set setting_definitions \<and> sd_key d = key"
  unfolding setting_definition_of_def using setting_keys_distinct by (rule find_key)

lemma setting_definition_of_None:
  "setting_definition_of key = None \<longleftrightarrow> key \<notin> sd_key ` set setting_definitions"
  unfolding setting_definition_of_def by (rule find_key_None)

text \<open>What a valid set of rows gives for each key.\<close>

lemma settings_ok_value:
  assumes "settings_ok rows" and "setting_definition_of key = Some d"
  obtains r v where "r \<in> set rows" "st_key r = key" "json_as_i64 (st_value r) = Some v"
    "setting_value rows key = Some v" "sd_minimum d \<le> v"
proof -
  from assms(2) have d: "d \<in> set setting_definitions" "sd_key d = key"
    by (simp_all add: setting_definition_of_Some)
  with assms(1) obtain v where v: "setting_value rows key = Some v" "sd_minimum d \<le> v"
    by (auto simp: settings_ok_def list_all_iff split: option.splits)
  then obtain r where r: "find (\<lambda>r. st_key r = key) rows = Some r" "json_as_i64 (st_value r) = Some v"
    by (auto simp: setting_value_def split: option.splits)
  moreover from assms(1) have "distinct (map st_key rows)"
    by (simp add: settings_ok_def)
  ultimately have "r \<in> set rows" "st_key r = key"
    by (simp_all add: find_key)
  with r v show thesis by (intro that)
qed

lemma settings_ok_row:
  assumes "settings_ok rows" and "r \<in> set rows"
  shows "\<exists>s. runtime_setting_of r = Inr s \<and> rt_key s = st_key r \<and> rt_version s = st_version r
     \<and> setting_value rows (st_key r) = Some (rt_value s)"
proof -
  from assms have "st_key r \<in> sd_key ` set setting_definitions"
    by (auto simp: settings_ok_def)
  then obtain d where d: "setting_definition_of (st_key r) = Some d"
    by (metis not_None_eq setting_definition_of_None)
  with assms(1) obtain q v where q: "q \<in> set rows" "st_key q = st_key r" "json_as_i64 (st_value q) = Some v"
    "setting_value rows (st_key r) = Some v"
    by (rule settings_ok_value)
  moreover from assms q have "q = r"
    by (auto simp: settings_ok_def distinct_map inj_on_def)
  ultimately show ?thesis
    using d by (simp add: runtime_setting_of_def)
qed

text \<open>Listing a valid set of rows gives their values.\<close>

lemma settings_list_ok:
  assumes "settings_ok rows"
    and "collect_map runtime_setting_of (sort_key st_key rows) = Inr settings"
  shows "setting_values settings key = setting_value rows key"
    and "length settings = length rows"
    and "\<And>s. find (\<lambda>s. rt_key s = key) settings = Some s \<Longrightarrow>
           \<exists>r \<in> set rows. st_key r = key \<and> runtime_setting_of r = Inr s"
proof -
  have all2: "list_all2 (\<lambda>r s. runtime_setting_of r = Inr s) (sort_key st_key rows) settings"
    using assms(2) by (simp add: collect_map_eq_Inr)
  have keys: "map rt_key settings = map st_key (sort_key st_key rows)"
    using all2 by (induction rule: list_all2_induct) (auto simp: runtime_setting_of_def res_simps)
  have distinct: "distinct (map rt_key settings)"
    using assms(1) by (simp add: keys settings_ok_def distinct_map)
  have member: "\<exists>r \<in> set rows. runtime_setting_of r = Inr s \<and> st_key r = rt_key s
      \<and> setting_value rows (rt_key s) = Some (rt_value s)" if "s \<in> set settings" for s
  proof -
    from that obtain i where i: "i < length settings" "settings ! i = s"
      by (auto simp: in_set_conv_nth)
    with all2 have "runtime_setting_of (sort_key st_key rows ! i) = Inr s"
      using list_all2_nthD2 by fastforce
    moreover have "sort_key st_key rows ! i \<in> set (sort_key st_key rows)"
      using list_all2_lengthD [OF all2] i by (intro nth_mem) simp
    ultimately obtain r where "r \<in> set (sort_key st_key rows)" "runtime_setting_of r = Inr s"
      by blast
    with settings_ok_row [OF assms(1), of r] show ?thesis by auto
  qed
  show "length settings = length rows"
    using arg_cong [OF keys, where f = length] by simp
  let ?pairs = "map (\<lambda>s. (rt_key s, rt_value s)) settings"
  have by_key: "setting_values settings = map_of ?pairs"
    unfolding setting_values_def using distinct by (subst map_of_inject_set) (simp_all add: comp_def rev_map [symmetric])
  show "setting_values settings key = setting_value rows key"
  proof (cases "key \<in> set (map rt_key settings)")
    case True
    then obtain s where s: "s \<in> set settings" "rt_key s = key" by auto
    with distinct have "map_of ?pairs key = Some (rt_value s)"
      by (intro map_of_is_SomeI) (auto simp: comp_def)
    with member [OF s(1)] s(2) by_key show ?thesis by auto
  next
    case False
    then have "map_of ?pairs key = None" by (force simp: map_of_eq_None_iff)
    moreover from False have "key \<notin> st_key ` set rows" unfolding keys by simp
    then have "setting_value rows key = None"
      by (simp add: setting_value_def find_key_None [THEN iffD2])
    ultimately show ?thesis by (simp add: by_key)
  qed
  show "\<exists>r \<in> set rows. st_key r = key \<and> runtime_setting_of r = Inr s"
    if "find (\<lambda>s. rt_key s = key) settings = Some s" for s
    using that member [of s] distinct by (auto simp: find_key)
qed

section \<open>Writing a setting\<close>

text \<open>
  The UPDATE of one setting. It fails when the incremented version leaves the range of \<open>i64\<close>:
  SQLite then computes a REAL, which a STRICT table refuses.
\<close>

definition write_setting ::
  "ustring \<Rightarrow> int \<Rightarrow> int \<Rightarrow> stamp \<Rightarrow> ustring \<Rightarrow> setting_row list \<Rightarrow> (setting_row list \<times> nat) option" where
  "write_setting key v expected at who rows =
     (let hit = (\<lambda>r. st_key r = key \<and> st_version r = expected) in
      if list_ex (\<lambda>r. hit r \<and> st_version r = i64_max) rows then None
      else Some (map (\<lambda>r. if hit r
                          then r\<lparr>st_value := JNum v, st_version := st_version r + 1,
                                 st_updated_at := at, st_updated_by := who\<rparr>
                          else r) rows,
                 length (filter hit rows)))"

definition is_i64 :: "int \<Rightarrow> bool" where
  "is_i64 v \<longleftrightarrow> - i64_max - 1 \<le> v \<and> v \<le> i64_max"

lemma json_as_i64_JNum: "is_i64 v \<Longrightarrow> json_as_i64 (JNum v) = Some v"
  by (simp add: is_i64_def)

text \<open>The heart of the invariant: a candidate that was validated keeps the set valid.\<close>

lemma write_setting_ok:
  assumes ok: "settings_ok rows"
    and listed: "collect_map runtime_setting_of (sort_key st_key rows) = Inr settings"
    and candidate: "validate_candidate settings key v = Inr u"
    and i64: "is_i64 v"
    and written: "write_setting key v expected at who rows = Some (rows', n)"
  shows "settings_ok rows'"
proof -
  define change where "change r = (if st_key r = key \<and> st_version r = expected
      then r\<lparr>st_value := JNum v, st_version := st_version r + 1, st_updated_at := at, st_updated_by := who\<rparr>
      else r)" for r :: setting_row
  have rows': "rows' = map change rows"
    using written by (auto simp: write_setting_def Let_def change_def [abs_def] split: if_splits)
  have same_key: "st_key (change r) = st_key r" for r
    by (simp add: change_def)
  then have keys: "map st_key rows' = map st_key rows"
    by (simp add: rows')
  obtain selected where selected: "setting_definition_of key = Some selected" "sd_minimum selected \<le> v"
    and lease: "the (((setting_values settings)(key \<mapsto> v)) lease_key)
                  > i64_saturating_mul (the (((setting_values settings)(key \<mapsto> v)) poll_key)) 2"
    using candidate by (auto simp: validate_candidate_def Let_def res_simps split: if_splits)
  have other: "setting_value rows' k = setting_value rows k" if "k \<noteq> key" for k
    using that by (auto simp: setting_value_def rows' find_key_update [where f = st_key and g = change, OF same_key] change_def
        split: option.splits dest: find_key_SomeD)
  have own: "setting_value rows' key = setting_value rows key \<or> setting_value rows' key = Some v"
    using i64 by (auto simp: setting_value_def rows' find_key_update [where f = st_key and g = change, OF same_key] change_def
        is_i64_def split: option.splits)
  from own consider (old) "setting_value rows' = setting_value rows"
    | (new) "setting_value rows' = (setting_value rows)(key \<mapsto> v)"
  proof (elim disjE)
    assume "setting_value rows' key = setting_value rows key"
    with other have "setting_value rows' k = setting_value rows k" for k by (cases "k = key") auto
    then show thesis by (intro old) (simp add: fun_eq_iff)
  next
    assume "setting_value rows' key = Some v"
    with other show thesis by (intro new) (simp add: fun_eq_iff)
  qed
  then show ?thesis
  proof cases
    case old
    with ok keys show ?thesis by (simp add: settings_ok_def)
  next
    case new
    then have all: "setting_value rows' = (setting_values settings)(key \<mapsto> v)"
      using settings_list_ok(1) [OF ok listed] by (simp add: fun_eq_iff)
    have minima: "case setting_value rows' (sd_key d) of None \<Rightarrow> False | Some w \<Rightarrow> sd_minimum d \<le> w"
      if d: "d \<in> set setting_definitions" for d
    proof (cases "sd_key d = key")
      case True
      with d selected(1) have "d = selected"
        by (auto simp: setting_definition_of_Some dest: inj_onD [OF setting_keys_distinct [unfolded distinct_map, THEN conjunct2]])
      with True selected(2) new show ?thesis by simp
    next
      case False
      with ok d other show ?thesis by (auto simp: settings_ok_def list_all_iff)
    qed
    with ok keys lease show ?thesis
      unfolding settings_ok_def all [symmetric] by (auto simp: list_all_iff)
  qed
qed

lemma write_setting_value:
  assumes distinct: "distinct (map st_key rows)"
    and row: "row \<in> set rows" "st_key row = key" "st_version row = expected"
    and i64: "is_i64 v"
    and written: "write_setting key v expected at who rows = Some (rows', n)"
  shows "setting_value rows' = (setting_value rows)(key \<mapsto> v)"
proof
  fix k
  define change where "change r = (if st_key r = key \<and> st_version r = expected
      then r\<lparr>st_value := JNum v, st_version := st_version r + 1, st_updated_at := at, st_updated_by := who\<rparr>
      else r)" for r :: setting_row
  have rows': "rows' = map change rows"
    using written by (auto simp: write_setting_def Let_def change_def [abs_def] split: if_splits)
  have same_key: "st_key (change r) = st_key r" for r
    by (simp add: change_def)
  note look = find_key_update [where f = st_key and g = change, OF same_key]
  show "setting_value rows' k = ((setting_value rows)(key \<mapsto> v)) k"
  proof (cases "k = key")
    case True
    have "find (\<lambda>r. st_key r = key) rows = Some row"
      using row distinct by (simp add: find_key)
    with True row i64 show ?thesis
      by (simp add: setting_value_def rows' look change_def is_i64_def)
  next
    case False
    then show ?thesis
      by (auto simp: setting_value_def rows' look change_def split: option.splits dest: find_key_SomeD)
  qed
qed

section \<open>Start-up\<close>

text \<open>
  \<open>seed_and_validate\<close> of \<open>src/db/migrations.rs\<close>, the part on the settings: the defaults are inserted
  where no row has the key (\<open>ON CONFLICT DO NOTHING\<close>), then the rows are validated as a set. The
  key is the primary key of the table.
\<close>

definition runtime_defaults :: "(ustring \<times> int) list" where
  "runtime_defaults =
     [(poll_key, 30), (lease_key, 90), (timeout_key, 5), (concurrency_key, 8),
      (lit ''recurrence.max_catch_up_occurrences'', 10), (overdue_key, 0),
      (lit ''remindi.max_snooze_seconds'', 31536000), (lit ''idempotency.retention_days'', 30),
      (lit ''backups.interval_seconds'', 86400), (lit ''backups.retention_count'', 14),
      (lit ''backups.upload_max_bytes'', 1073741824)]"

definition seed_setting :: "stamp \<Rightarrow> ustring \<times> int \<Rightarrow> setting_row list \<Rightarrow> setting_row list" where
  "seed_setting at entry rows =
     (if fst entry \<in> st_key ` set rows then rows
      else rows @ [\<lparr>st_key = fst entry, st_value = JNum (snd entry), st_version = 1, st_updated_at = at,
                    st_updated_by = lit ''system''\<rparr>])"

definition seed_settings :: "stamp \<Rightarrow> setting_row list \<Rightarrow> setting_row list" where
  "seed_settings at rows = fold (seed_setting at) runtime_defaults rows"

definition valid_bootstrap_value :: "setting_row \<Rightarrow> bool" where
  "valid_bootstrap_value row =
     (case json_as_i64 (st_value row) of
        None \<Rightarrow> False
      | Some v \<Rightarrow> if st_key row = overdue_key then 0 \<le> v else 0 < v)"

definition validate_runtime_settings :: "setting_row list \<Rightarrow> (database_error, unit) res" where
  "validate_runtime_settings rows =
     (if length rows \<noteq> length (remdups (map fst runtime_defaults))
         \<or> list_ex (\<lambda>r. st_key r \<notin> set (map fst runtime_defaults)) rows
         \<or> list_ex (\<lambda>r. \<not> valid_bootstrap_value r) rows
      then Err InvalidBootstrapRows
      else case (setting_value rows poll_key, setting_value rows lease_key) of
             (Some poll, Some lease) \<Rightarrow>
               if lease \<le> i64_saturating_mul poll 2 then Err InvalidBootstrapRows else Ok ()
           | _ \<Rightarrow> Inl Panic)"

lemma default_keys:
  "set (map fst runtime_defaults) = set (map sd_key setting_definitions)"
  "distinct (map fst runtime_defaults)" "length runtime_defaults = 11"
  by (auto simp: runtime_defaults_def setting_definitions_def)
    (simp_all add: poll_key_def lease_key_def concurrency_key_def timeout_key_def overdue_key_def)

lemma default_count: "length (remdups (map fst runtime_defaults)) = 11"
  by (simp only: distinct_remdups_id [OF default_keys(2)] length_map default_keys(3))

lemma bootstrap_minimum:
  "d \<in> set setting_definitions \<Longrightarrow>
     (if sd_key d = overdue_key then 0 \<le> v else 0 < v) \<longleftrightarrow> sd_minimum d \<le> v"
  by (auto simp: setting_definitions_def poll_key_def lease_key_def concurrency_key_def timeout_key_def overdue_key_def)

text \<open>The check at start-up accepts exactly the valid sets of rows.\<close>

lemma validate_runtime_settings_iff:
  assumes "distinct (map st_key rows)"
  shows "validate_runtime_settings rows = Ok () \<longleftrightarrow> settings_ok rows"
proof -
  have keys: "set (map st_key rows) = set (map sd_key setting_definitions)
      \<longleftrightarrow> length rows = 11 \<and> list_all (\<lambda>r. st_key r \<in> set (map fst runtime_defaults)) rows"
  proof
    assume eq: "set (map st_key rows) = set (map sd_key setting_definitions)"
    then have "card (set (map st_key rows)) = card (set (map fst runtime_defaults))"
      by (simp only: default_keys(1))
    then have "length rows = 11"
      using distinct_card [OF assms] distinct_card [OF default_keys(2)] default_keys(3) by simp
    with eq show "length rows = 11 \<and> list_all (\<lambda>r. st_key r \<in> set (map fst runtime_defaults)) rows"
      using default_keys(1) by (auto simp: list_all_iff)
  next
    assume r: "length rows = 11 \<and> list_all (\<lambda>r. st_key r \<in> set (map fst runtime_defaults)) rows"
    then have "set (map st_key rows) \<subseteq> set (map fst runtime_defaults)"
      by (auto simp: list_all_iff)
    moreover have "card (set (map st_key rows)) = card (set (map fst runtime_defaults))"
      using r distinct_card [OF assms] distinct_card [OF default_keys(2)] default_keys(3) by simp
    ultimately have "set (map st_key rows) = set (map fst runtime_defaults)"
      by (intro card_subset_eq) auto
    then show "set (map st_key rows) = set (map sd_key setting_definitions)"
      by (simp only: default_keys(1))
  qed
  have found: "find (\<lambda>q. st_key q = st_key r) rows = Some r" if "r \<in> set rows" for r
    using find_key [OF assms, of "st_key r" r] that by simp
  have vals: "list_all valid_bootstrap_value rows \<longleftrightarrow>
      list_all (\<lambda>d. case setting_value rows (sd_key d) of None \<Rightarrow> False | Some v \<Rightarrow> sd_minimum d \<le> v) setting_definitions"
    if eq: "set (map st_key rows) = set (map sd_key setting_definitions)"
  proof -
    have pair: "valid_bootstrap_value r \<longleftrightarrow>
        (case setting_value rows (sd_key d) of None \<Rightarrow> False | Some v \<Rightarrow> sd_minimum d \<le> v)"
      if "r \<in> set rows" "d \<in> set setting_definitions" "sd_key d = st_key r" for r d
    proof -
      have "setting_value rows (sd_key d) = json_as_i64 (st_value r)"
        by (simp add: setting_value_def that(3) found [OF that(1)])
      then show ?thesis
        using bootstrap_minimum [OF that(2)] that(3)
        by (cases "json_as_i64 (st_value r)") (simp_all add: valid_bootstrap_value_def)
    qed
    show ?thesis
    proof
      assume a: "list_all valid_bootstrap_value rows"
      show "list_all (\<lambda>d. case setting_value rows (sd_key d) of None \<Rightarrow> False | Some v \<Rightarrow> sd_minimum d \<le> v) setting_definitions"
        unfolding list_all_iff
      proof
        fix d assume d: "d \<in> set setting_definitions"
        then have "sd_key d \<in> set (map st_key rows)" unfolding eq by simp
        then obtain r where "r \<in> set rows" "sd_key d = st_key r" by auto
        with a d pair [of r d] show "case setting_value rows (sd_key d) of None \<Rightarrow> False | Some v \<Rightarrow> sd_minimum d \<le> v"
          by (auto simp: list_all_iff)
      qed
    next
      assume a: "list_all (\<lambda>d. case setting_value rows (sd_key d) of None \<Rightarrow> False | Some v \<Rightarrow> sd_minimum d \<le> v) setting_definitions"
      show "list_all valid_bootstrap_value rows"
        unfolding list_all_iff
      proof
        fix r assume r: "r \<in> set rows"
        then have "st_key r \<in> set (map sd_key setting_definitions)" unfolding eq [symmetric] by simp
        then obtain d where "d \<in> set setting_definitions" "sd_key d = st_key r" by auto
        with a r pair [of r d] show "valid_bootstrap_value r"
          by (auto simp: list_all_iff)
      qed
    qed
  qed
  show ?thesis
  proof (cases "set (map st_key rows) = set (map sd_key setting_definitions) \<and> list_all valid_bootstrap_value rows")
    case True
    then have ok: "set (map st_key rows) = set (map sd_key setting_definitions)" by simp
    with True vals have minima: "list_all (\<lambda>d. case setting_value rows (sd_key d) of None \<Rightarrow> False | Some v \<Rightarrow> sd_minimum d \<le> v) setting_definitions"
      by blast
    then obtain poll lease where "setting_value rows poll_key = Some poll" "setting_value rows lease_key = Some lease"
      by (auto simp: list_all_iff setting_definitions_def split: option.splits)
    with True ok minima keys assms show ?thesis
      by (auto simp: default_count validate_runtime_settings_def settings_ok_def list_all_iff list_ex_iff)
  next
    case False
    then have "\<not> settings_ok rows"
      using vals by (auto simp: settings_ok_def)
    moreover have "validate_runtime_settings rows = Err InvalidBootstrapRows"
      using False keys
      by (auto simp: default_count validate_runtime_settings_def list_all_iff list_ex_iff)
    ultimately show ?thesis by simp
  qed
qed

text \<open>Seeding an empty table gives a valid set.\<close>

lemma seed_setting_keys:
  "distinct (map st_key rows) \<Longrightarrow> distinct (map st_key (seed_setting at entry rows))"
  by (auto simp: seed_setting_def)

lemma seed_settings_distinct:
  assumes "distinct (map st_key rows)"
  shows "distinct (map st_key (seed_settings at rows))"
proof -
  have "distinct (map st_key rows) \<Longrightarrow> distinct (map st_key (fold (seed_setting at) entries rows))"
    for entries and rows :: "setting_row list"
    by (induction entries arbitrary: rows) (simp_all add: seed_setting_keys)
  with assms show ?thesis by (simp add: seed_settings_def)
qed

definition default_row :: "stamp \<Rightarrow> ustring \<times> int \<Rightarrow> setting_row" where
  "default_row at entry = \<lparr>st_key = fst entry, st_value = JNum (snd entry), st_version = 1, st_updated_at = at,
                           st_updated_by = lit ''system''\<rparr>"

lemma seed_empty: "seed_settings at [] = map (default_row at) runtime_defaults"
proof -
  have "fold (seed_setting at) entries rows = rows @ map (default_row at) entries"
    if "distinct (map fst entries)" "set (map fst entries) \<inter> st_key ` set rows = {}" for entries rows
    using that
    by (induction entries arbitrary: rows) (auto simp: seed_setting_def default_row_def)
  from this [OF default_keys(2), of "[]"] show ?thesis by (simp add: seed_settings_def)
qed

lemma default_value:
  assumes "(key, v) \<in> set runtime_defaults"
  shows "setting_value (map (default_row at) runtime_defaults) key = json_as_i64 (JNum v)"
proof -
  have "find (\<lambda>r. st_key r = key) (map (default_row at) runtime_defaults) = Some (default_row at (key, v))"
    using assms default_keys(2)
    by (intro find_key [THEN iffD2]) (auto simp: comp_def, simp_all add: default_row_def)
  then show ?thesis by (simp add: setting_value_def default_row_def)
qed

lemma default_members:
  "(poll_key, 30) \<in> set runtime_defaults" "(lease_key, 90) \<in> set runtime_defaults"
  by (simp_all add: runtime_defaults_def)

lemma seed_empty_ok: "settings_ok (seed_settings at [])"
proof -
  have "distinct (map st_key (map (default_row at) runtime_defaults))"
    using default_keys(2) by (simp add: default_row_def comp_def)
  moreover have "validate_runtime_settings (map (default_row at) runtime_defaults) = Ok ()"
  proof -
    have "\<not> list_ex (\<lambda>r. st_key r \<notin> set (map fst runtime_defaults)) (map (default_row at) runtime_defaults)"
      by (auto simp: list_ex_iff default_row_def)
    moreover have "\<not> list_ex (\<lambda>r. \<not> valid_bootstrap_value r) (map (default_row at) runtime_defaults)"
      by (auto simp: list_ex_iff default_row_def valid_bootstrap_value_def runtime_defaults_def i64_max_def
          poll_key_def lease_key_def concurrency_key_def timeout_key_def overdue_key_def)
    ultimately show ?thesis
      using default_value [OF default_members(1), of at] default_value [OF default_members(2), of at]
      by (simp add: validate_runtime_settings_def default_count default_keys(3) i64_max_def i64_saturating_mul_def)
  qed
  ultimately show ?thesis
    unfolding seed_empty by (simp only: validate_runtime_settings_iff)
qed

end
