(* ===== verification/AdapterConfig.thy ===== *)
theory AdapterConfig
  imports AdminStore
begin

text \<open>
  \<open>src/admin/adapters.rs\<close>: decoding of the stored adapter configurations, the candidate of an
  update, and the snapshot of all four adapters that is built from the configurations and
  published to the scheduler.
\<close>

section \<open>Stored configurations\<close>

definition adapter_names :: "ustring list" where
  "adapter_names = [lit ''file_exists'', lit ''http_health'', lit ''observation_window_ended'', lit ''tcp_reachable'']"

definition adapter_is_known :: "ustring \<Rightarrow> bool" where
  "adapter_is_known name \<longleftrightarrow> name \<in> set adapter_names"

record adapter_config_view =
  cv_name :: ustring
  cv_enabled :: bool
  cv_configuration :: adapter_configuration
  cv_version :: int
  cv_updated_at :: stamp
  cv_updated_by :: ustring

fun configuration_name :: "adapter_configuration \<Rightarrow> ustring" where
  "configuration_name ObservationWindowEnded = lit ''observation_window_ended''"
| "configuration_name (HttpHealthAliases _) = lit ''http_health''"
| "configuration_name (TcpReachableAliases _) = lit ''tcp_reachable''"
| "configuration_name (FileExistsAliases _ _) = lit ''file_exists''"

definition validate_name_matches :: "ustring \<Rightarrow> adapter_configuration \<Rightarrow> (admin_error, unit) res" where
  "validate_name_matches name configuration =
     (if name = configuration_name configuration then Ok () else Err AdminValidation)"

definition decode_config :: "ustring \<Rightarrow> config_text \<Rightarrow> (admin_error, adapter_configuration) res" where
  "decode_config name encoded =
     (case encoded of
        EmptyObject \<Rightarrow>
          if name = lit ''observation_window_ended'' then Ok ObservationWindowEnded
          else if name = lit ''http_health'' then Ok (HttpHealthAliases [])
          else if name = lit ''tcp_reachable'' then Ok (TcpReachableAliases [])
          else if name = lit ''file_exists'' then Ok (FileExistsAliases [] [])
          else Err AdminValidation
      | Encoded configuration \<Rightarrow>
          rbind (validate_name_matches name configuration) (\<lambda>_. Ok configuration)
      | OtherText \<Rightarrow> Err AdminValidation)"

definition config_view_of :: "adapter_row \<Rightarrow> (admin_error, adapter_config_view) res" where
  "config_view_of row =
     rbind (decode_config (ar_name row) (ar_config row)) (\<lambda>configuration.
       Ok \<lparr>cv_name = ar_name row, cv_enabled = (ar_enabled row = 1), cv_configuration = configuration,
           cv_version = ar_version row, cv_updated_at = ar_updated_at row,
           cv_updated_by = ar_updated_by row\<rparr>)"

definition configs_of :: "adapter_row list \<Rightarrow> (admin_error, adapter_config_view list) res" where
  "configs_of rows =
     rbind (collect_map config_view_of (sort_key ar_name rows)) (\<lambda>configs.
       if map cv_name configs = adapter_names then Ok configs else Err AdminValidation)"

definition adapters_list :: "admin_env \<Rightarrow> adapter_config_view list admin" where
  "adapters_list env =
     abind (admin_call env) (\<lambda>_.
     abind (admin_call env) (\<lambda>_. \<lambda>w. (configs_of (adapter_table (aw_db w)), w)))"

section \<open>Building the adapters\<close>

text \<open>\<open>out\<close> is the file system that answers while the roots are resolved.\<close>

definition policy_of :: "bool \<Rightarrow> network_policy" where
  "policy_of private = (if private then allow_private_for_admin else public_only)"

abbreviation as_validation :: "(adapter_config_error, 'a) res \<Rightarrow> (admin_error, 'a) res" where
  "as_validation \<equiv> map_err (\<lambda>_. AdminValidation)"

definition http_target_of ::
  "(ustring \<Rightarrow> url option) \<Rightarrow> ustring \<times> http_alias_configuration
     \<Rightarrow> (admin_error, ustring \<times> http_target) res" where
  "http_target_of parse_url entry =
     (case entry of (name, c) \<Rightarrow>
        as_validation (rbind (http_target_new (parse_url (hc_url c)) (hc_expected_statuses c)
                         (hc_max_response_bytes c) (hc_expected_content_type c) (hc_allow_redirects c)
                         (policy_of (hc_allow_private c))) (\<lambda>target. Ok (name, target))))"

definition tcp_target_of ::
  "ustring \<times> tcp_alias_configuration \<Rightarrow> (admin_error, ustring \<times> tcp_target) res" where
  "tcp_target_of entry =
     (case entry of (name, c) \<Rightarrow>
        as_validation (rbind (tcp_target_new (tc_host c) (tc_port c) (policy_of (tc_allow_private c)))
                         (\<lambda>target. Ok (name, target))))"

definition file_target_of :: "ustring \<times> ustring \<Rightarrow> (admin_error, ustring \<times> ustring) res" where
  "file_target_of entry =
     (case entry of (name, path) \<Rightarrow>
        as_validation (rbind (file_target_new path) (\<lambda>target. Ok (name, target))))"

definition build_adapter ::
  "outside \<Rightarrow> (ustring \<Rightarrow> url option) \<Rightarrow> adapter_config_view \<Rightarrow> (admin_error, ustring \<times> adapter) res" where
  "build_adapter out parse_url config =
     rbind (validate_name_matches (cv_name config) (cv_configuration config)) (\<lambda>_.
       case cv_configuration config of
         ObservationWindowEnded \<Rightarrow>
           Ok (lit ''observation_window_ended'', ObservationWindow (cv_enabled config))
       | HttpHealthAliases names \<Rightarrow>
           rbind (collect_map (http_target_of parse_url) names) (\<lambda>targets.
           rbind (as_validation (http_adapter_new (cv_enabled config) targets)) (\<lambda>h.
             Ok (lit ''http_health'', HttpHealth h)))
       | TcpReachableAliases names \<Rightarrow>
           rbind (collect_map tcp_target_of names) (\<lambda>targets.
           rbind (as_validation (tcp_adapter_new (cv_enabled config) targets)) (\<lambda>t.
             Ok (lit ''tcp_reachable'', TcpReachable t)))
       | FileExistsAliases roots names \<Rightarrow>
           rbind (collect_map file_target_of names) (\<lambda>targets.
           rbind (as_validation (file_adapter_new out (cv_enabled config) roots targets)) (\<lambda>f.
             Ok (lit ''file_exists'', FileExists f))))"

text \<open>The loop of \<open>build_snapshot\<close>: \<open>BTreeMap::insert\<close> must not replace an entry.\<close>

fun build_all ::
  "outside \<Rightarrow> (ustring \<Rightarrow> url option) \<Rightarrow> adapter_config_view list \<Rightarrow> adapter_registry
     \<Rightarrow> (admin_error, adapter_registry) res" where
  "build_all out parse_url [] adapters = Ok adapters"
| "build_all out parse_url (config # configs) adapters =
     rbind (build_adapter out parse_url config) (\<lambda>(name, a).
       if map_of adapters name \<noteq> None then Err AdminValidation
       else build_all out parse_url configs (insort_key fst (name, a) adapters))"

definition build_snapshot ::
  "outside \<Rightarrow> (ustring \<Rightarrow> url option) \<Rightarrow> adapter_config_view list \<Rightarrow> (admin_error, adapter_registry) res" where
  "build_snapshot out parse_url configs =
     rbind (build_all out parse_url configs []) (\<lambda>adapters.
       if length adapters \<noteq> length adapter_names then Err AdminValidation else Ok adapters)"

section \<open>Candidates\<close>

text \<open>Updating the first configuration with the name.\<close>

fun update_first :: "('a \<Rightarrow> bool) \<Rightarrow> ('a \<Rightarrow> 'a) \<Rightarrow> 'a list \<Rightarrow> ('a \<times> 'a list) option" where
  "update_first P f [] = None"
| "update_first P f (x # xs) =
     (if P x then Some (f x, f x # xs)
      else map_option (\<lambda>(y, ys). (y, x # ys)) (update_first P f xs))"

definition adapter_candidate ::
  "outside \<Rightarrow> (ustring \<Rightarrow> url option) \<Rightarrow> adapter_config_view list \<Rightarrow> ustring \<Rightarrow> bool
     \<Rightarrow> adapter_configuration \<Rightarrow> ustring \<Rightarrow> stamp
     \<Rightarrow> (admin_error, adapter_config_view \<times> adapter_registry) res" where
  "adapter_candidate out parse_url current name enabled configuration who at =
     rbind (validate_name_matches name configuration) (\<lambda>_.
     rbind (ok_or AdminValidation (update_first (\<lambda>c. cv_name c = name)
              (\<lambda>c. c\<lparr>cv_enabled := enabled, cv_configuration := configuration,
                     cv_version := cv_version c + 1, cv_updated_at := at, cv_updated_by := who\<rparr>) current))
       (\<lambda>(updated, configs).
     rbind (build_snapshot out parse_url configs) (\<lambda>snapshot. Ok (updated, snapshot))))"

text \<open>The UPDATE of one configuration.\<close>

definition write_adapter ::
  "ustring \<Rightarrow> bool \<Rightarrow> adapter_configuration \<Rightarrow> int \<Rightarrow> stamp \<Rightarrow> ustring
     \<Rightarrow> adapter_row list \<Rightarrow> (adapter_row list \<times> nat) option" where
  "write_adapter name enabled configuration expected at who rows =
     (let hit = (\<lambda>r. ar_name r = name \<and> ar_version r = expected) in
      if list_ex (\<lambda>r. hit r \<and> ar_version r = i64_max) rows then None
      else Some (map (\<lambda>r. if hit r
                          then r\<lparr>ar_enabled := (if enabled then 1 else 0), ar_config := Encoded configuration,
                                 ar_version := ar_version r + 1, ar_updated_at := at, ar_updated_by := who\<rparr>
                          else r) rows,
                 length (filter hit rows)))"

section \<open>The snapshot is complete and every adapter is well formed\<close>

definition registry_ok :: "adapter_registry \<Rightarrow> bool" where
  "registry_ok registry \<longleftrightarrow>
     registry_names registry = adapter_names \<and> list_all (\<lambda>(name, a). adapter_ok a) registry"

lemma http_target_new_ok:
  "http_target_new parsed statuses maximum expected redirects policy = Inr target \<Longrightarrow>
     u_scheme (ht_url target) = lit ''https'' \<and> u_host_str (ht_url target) \<noteq> None
     \<and> 0 < ht_max_response_bytes target \<and> ht_max_response_bytes target \<le> 1048576"
  by (auto simp: http_target_new_def res_simps word_neq_0_conv not_less split: if_splits)

lemma tcp_target_new_ok: "tcp_target_new host port policy = Inr target \<Longrightarrow> tt_port target \<noteq> 0"
  by (auto simp: tcp_target_new_def split: if_splits)

lemma collect_map_set:
  "collect_map f xs = Inr ys \<Longrightarrow> y \<in> set ys \<Longrightarrow> \<exists>x \<in> set xs. f x = Inr y"
  by (induction xs arbitrary: ys) (auto simp: res_simps)

lemma list_ex_valid_alias:
  "\<not> list_ex (\<lambda>(name, _). \<not> valid_alias name) names \<Longrightarrow> (n, v) \<in> set names \<Longrightarrow> valid_alias n"
  by (auto simp: list_ex_iff)

lemma build_adapter_ok:
  assumes "build_adapter out parse_url config = Inr (name, a)"
  shows "name = cv_name config" and "adapter_ok a" and "adapter_enabled a = cv_enabled config"
proof -
  have "name = cv_name config \<and> adapter_ok a \<and> adapter_enabled a = cv_enabled config"
  proof (cases "cv_configuration config")
    case ObservationWindowEnded
    with assms show ?thesis
      by (auto simp: build_adapter_def validate_name_matches_def split: if_splits)
  next
    case (HttpHealthAliases names)
    with assms obtain targets h where t: "collect_map (http_target_of parse_url) names = Inr targets"
      and h: "http_adapter_new (cv_enabled config) targets = Inr h" "a = HttpHealth h"
      and n: "name = cv_name config"
      by (auto simp: build_adapter_def validate_name_matches_def res_simps split: if_splits)
    have "valid_alias n \<and> u_scheme (ht_url target) = lit ''https'' \<and> u_host_str (ht_url target) \<noteq> None
        \<and> 0 < ht_max_response_bytes target \<and> ht_max_response_bytes target \<le> 1048576"
      if "(n, target) \<in> set targets" for n target
    proof -
      from collect_map_set [OF t that] obtain x where "http_target_of parse_url x = Inr (n, target)" by blast
      then have "u_scheme (ht_url target) = lit ''https'' \<and> u_host_str (ht_url target) \<noteq> None
          \<and> 0 < ht_max_response_bytes target \<and> ht_max_response_bytes target \<le> 1048576"
        by (auto simp: http_target_of_def res_simps split: prod.splits dest: http_target_new_ok)
      moreover have "valid_alias n"
        using h that by (auto simp: http_adapter_new_def list_ex_valid_alias split: if_splits)
      ultimately show ?thesis by simp
    qed
    with h n show ?thesis by (auto simp: http_adapter_new_def split: if_splits)
  next
    case (TcpReachableAliases names)
    with assms obtain targets t where ts: "collect_map tcp_target_of names = Inr targets"
      and t: "tcp_adapter_new (cv_enabled config) targets = Inr t" "a = TcpReachable t"
      and n: "name = cv_name config"
      by (auto simp: build_adapter_def validate_name_matches_def res_simps split: if_splits)
    have "valid_alias n \<and> tt_port target \<noteq> 0" if "(n, target) \<in> set targets" for n target
    proof -
      from collect_map_set [OF ts that] obtain x where "tcp_target_of x = Inr (n, target)" by blast
      then have "tt_port target \<noteq> 0"
        by (auto simp: tcp_target_of_def res_simps split: prod.splits dest: tcp_target_new_ok)
      moreover have "valid_alias n"
        using t that by (auto simp: tcp_adapter_new_def list_ex_valid_alias split: if_splits)
      ultimately show ?thesis by simp
    qed
    with t n show ?thesis by (auto simp: tcp_adapter_new_def split: if_splits)
  next
    case (FileExistsAliases roots names)
    with assms obtain targets f where f: "file_adapter_new out (cv_enabled config) roots targets = Inr f"
      "a = FileExists f" and n: "name = cv_name config"
      by (auto simp: build_adapter_def validate_name_matches_def res_simps split: if_splits)
    then show ?thesis
      by (auto simp: file_adapter_new_def res_simps list_ex_valid_alias split: if_splits)
  qed
  then show "name = cv_name config" "adapter_ok a" "adapter_enabled a = cv_enabled config" by simp_all
qed

lemma build_all_ok:
  assumes "build_all out parse_url configs adapters = Inr registry"
    and "sorted (map fst adapters)" and "distinct (map fst adapters)"
    and "list_all (\<lambda>(name, a). adapter_ok a) adapters"
  shows "sorted (map fst registry) \<and> distinct (map fst registry)
     \<and> set (map fst registry) = set (map fst adapters) \<union> set (map cv_name configs)
     \<and> list_all (\<lambda>(name, a). adapter_ok a) registry"
  using assms
proof (induction configs arbitrary: adapters)
  case Nil
  then show ?case by simp
next
  case (Cons config configs)
  from Cons.prems(1) obtain name a where built: "build_adapter out parse_url config = Inr (name, a)"
    and fresh: "map_of adapters name = None"
    and rest: "build_all out parse_url configs (insort_key fst (name, a) adapters) = Inr registry"
    by (auto simp: res_simps split: if_splits)
  have keys: "set (map fst (insort_key fst (name, a) adapters)) = insert name (set (map fst adapters))"
    by (auto simp: set_insort_key)
  have "name \<notin> set (map fst adapters)"
    using fresh by (auto simp: map_of_eq_None_iff)
  then have "distinct (map fst (insort_key fst (name, a) adapters))"
    using Cons.prems(3) by (induction adapters) (auto simp: set_insort_key)
  moreover have "sorted (map fst (insort_key fst (name, a) adapters))"
    using Cons.prems(2) by (simp add: sorted_insort_key)
  moreover have "list_all (\<lambda>(name, a). adapter_ok a) (insort_key fst (name, a) adapters)"
    using Cons.prems(4) build_adapter_ok(2) [OF built] by (auto simp: list_all_iff set_insort_key)
  ultimately show ?case
    using Cons.IH [OF rest] keys build_adapter_ok(1) [OF built] by auto
qed

lemma adapter_names_sorted: "sorted adapter_names" "distinct adapter_names"
  by (simp_all add: adapter_names_def)

lemma build_snapshot_ok:
  assumes "build_snapshot out parse_url configs = Inr registry" and "map cv_name configs = adapter_names"
  shows "registry_ok registry"
proof -
  from assms(1) have all: "build_all out parse_url configs [] = Inr registry"
    by (auto simp: build_snapshot_def res_simps split: if_splits)
  from build_all_ok [OF this] assms(2) have "sorted (map fst registry)" "distinct (map fst registry)"
    "set (map fst registry) = set adapter_names" and ok: "list_all (\<lambda>(name, a). adapter_ok a) registry"
    by auto
  then have "map fst registry = adapter_names"
    using adapter_names_sorted by (intro sorted_distinct_set_unique) auto
  with ok show ?thesis by (simp add: registry_ok_def registry_names_def)
qed

lemma update_first_map:
  "update_first P f xs = Some (y, ys) \<Longrightarrow> (\<And>x. g (f x) = g x) \<Longrightarrow> map g ys = map g xs"
  by (induction xs arbitrary: y ys) (auto split: if_splits)

lemma update_first_Some:
  "update_first P f xs = Some (y, ys) \<Longrightarrow> \<exists>x. find P xs = Some x \<and> y = f x"
  by (induction xs arbitrary: y ys) (auto split: if_splits)

lemma adapter_candidate_ok:
  assumes "adapter_candidate out parse_url current name enabled configuration who at = Inr (updated, snapshot)"
    and "map cv_name current = adapter_names"
  shows "registry_ok snapshot"
    and "\<exists>c. find (\<lambda>c. cv_name c = name) current = Some c
          \<and> updated = c\<lparr>cv_enabled := enabled, cv_configuration := configuration,
                        cv_version := cv_version c + 1, cv_updated_at := at, cv_updated_by := who\<rparr>"
    and "name = configuration_name configuration"
proof -
  from assms(1) obtain configs where
    u: "update_first (\<lambda>c. cv_name c = name)
          (\<lambda>c. c\<lparr>cv_enabled := enabled, cv_configuration := configuration,
                 cv_version := cv_version c + 1, cv_updated_at := at, cv_updated_by := who\<rparr>) current
        = Some (updated, configs)"
    and b: "build_snapshot out parse_url configs = Inr snapshot"
    and n: "name = configuration_name configuration"
    by (auto simp: adapter_candidate_def validate_name_matches_def res_simps split: if_splits prod.splits)
  from update_first_map [OF u, where g = cv_name] assms(2) have "map cv_name configs = adapter_names"
    by simp
  with b show "registry_ok snapshot" by (rule build_snapshot_ok)
  from update_first_Some [OF u]
  show "\<exists>c. find (\<lambda>c. cv_name c = name) current = Some c
      \<and> updated = c\<lparr>cv_enabled := enabled, cv_configuration := configuration,
                    cv_version := cv_version c + 1, cv_updated_at := at, cv_updated_by := who\<rparr>" .
  show "name = configuration_name configuration" by (rule n)
qed

end
