(* ===== verification/Lease.thy ===== *)
theory Lease
  imports Transactions
begin

text \<open>
  \<open>src/scheduler/lease.rs\<close>: the scheduler lease, one row of \<open>scheduler_leases\<close> under a fixed name.
  The interface \<open>fencing_lease\<close> is what the run loop relies on: holding is exclusive, a grant or
  a renewal establishes it, and a guard that does not hold the row cannot write it.
\<close>

section \<open>The operations\<close>

record lease_guard =
  lg_holder_id :: ustring
  lg_version :: u64
  lg_expires_at :: instant
  lg_duration :: int

datatype lease_error =
    AlreadyHeld
  | Lost
  | InvalidConfiguration
  | LeaseDatabase database_error
  | LeaseInvalidData

record scheduler_lease =
  sl_holder_id :: ustring
  sl_duration :: int

abbreviation lease_name :: string where "lease_name \<equiv> ''trigger-evaluator''"

definition lease_new :: "ustring \<Rightarrow> int \<Rightarrow> (lease_error, scheduler_lease) res" where
  "lease_new holder duration =
     (if trim holder = [] \<or> duration \<le> 0 then Err InvalidConfiguration
      else Ok \<lparr>sl_holder_id = holder, sl_duration = duration\<rparr>)"

text \<open>\<open>now + duration / 2 >= expires_at\<close>.\<close>

definition renewal_due :: "lease_guard \<Rightarrow> instant \<Rightarrow> ('e, bool) res" where
  "renewal_due g now = rbind (time_add now (lg_duration g div 2)) (\<lambda>t. Ok (t \<ge> lg_expires_at g))"

definition lease_row_of :: "db \<Rightarrow> lease_row option" where
  "lease_row_of d = find (\<lambda>r. s_lease_name r = lease_name) (lease_table d)"

definition checked_add_one :: "u64 \<Rightarrow> u64 option" where
  "checked_add_one v = (if v = - 1 then None else Some (v + 1))"

definition lease_stamp :: "instant \<Rightarrow> (lease_error, stamp) res" where
  "lease_stamp t = map_err (\<lambda>_. LeaseInvalidData) (canonical_timestamp t)"

definition lease_i64 :: "u64 \<Rightarrow> (lease_error, int) res" where
  "lease_i64 v = ok_or LeaseInvalidData (i64_try_from_u64 v)"

text \<open>An \<open>UPDATE\<close> of the lease rows that satisfy a condition, with the number of rows changed.\<close>

definition lease_update :: "(lease_row \<Rightarrow> bool) \<Rightarrow> (lease_row \<Rightarrow> lease_row) \<Rightarrow> ('e, nat) action" where
  "lease_update hit f = (\<lambda>w.
     (Ok (length (filter hit (lease_table (w_db w)))),
      w\<lparr>w_db := (w_db w)\<lparr>lease_table := map (\<lambda>r. if hit r then f r else r) (lease_table (w_db w))\<rparr>\<rparr>))"

definition lease_insert :: "lease_row \<Rightarrow> ('e, unit) action" where
  "lease_insert row = (\<lambda>w. (Ok (), w\<lparr>w_db := (w_db w)\<lparr>lease_table := lease_table (w_db w) @ [row]\<rparr>\<rparr>))"

definition lease_delete :: "(lease_row \<Rightarrow> bool) \<Rightarrow> ('e, nat) action" where
  "lease_delete hit = (\<lambda>w.
     (Ok (length (filter hit (lease_table (w_db w)))),
      w\<lparr>w_db := (w_db w)\<lparr>lease_table := filter (\<lambda>r. \<not> hit r) (lease_table (w_db w))\<rparr>\<rparr>))"

definition acquire_body ::
  "env \<Rightarrow> scheduler_lease \<Rightarrow> instant \<Rightarrow> (lease_error, lease_guard \<times> bool) action" where
  "acquire_body env l now =
     sbind (\<lambda>w. (Ok (lease_row_of (w_db w)), w)) (\<lambda>row.
     sbind (slift (time_add now (sl_duration l))) (\<lambda>expires_at.
     sbind (slift (lease_stamp expires_at)) (\<lambda>expires.
     sbind (slift (lease_stamp now)) (\<lambda>acquired.
     sbind (case row of
              Some r \<Rightarrow>
                sbind (slift (map_err (\<lambda>_. LeaseInvalidData) (parse_canonical (s_expires_at r)))) (\<lambda>current_expiry.
                sbind (slift (ok_or LeaseInvalidData (u64_try_from_i64 (s_version r)))) (\<lambda>current_version.
                if current_expiry > now
                then sbind (gate_as LeaseDatabase env) (\<lambda>_. slift (Err AlreadyHeld))
                else
                  sbind (slift (ok_or LeaseInvalidData (checked_add_one current_version))) (\<lambda>next_version.
                  sbind (slift (lease_i64 next_version)) (\<lambda>next.
                  sbind (slift (lease_i64 current_version)) (\<lambda>current.
                  sbind (lease_update (\<lambda>s. s_lease_name s = lease_name \<and> s_version s = current)
                           (\<lambda>s. s\<lparr>s_holder_id := sl_holder_id l, s_acquired_at := acquired,
                                  s_expires_at := expires, s_version := next\<rparr>)) (\<lambda>n.
                  if n \<noteq> 1
                  then sbind (gate_as LeaseDatabase env) (\<lambda>_. slift (Err Lost))
                  else slift (Ok next_version)))))))
            | None \<Rightarrow>
                sbind (lease_insert \<lparr>s_lease_name = lease_name, s_holder_id = sl_holder_id l,
                         s_acquired_at = acquired, s_expires_at = expires, s_version = 1\<rparr>)
                  (\<lambda>_. slift (Ok 1))) (\<lambda>version.
       slift (Ok (\<lparr>lg_holder_id = sl_holder_id l, lg_version = version, lg_expires_at = expires_at,
                   lg_duration = sl_duration l\<rparr>, True)))))))"

definition acquire :: "env \<Rightarrow> scheduler_lease \<Rightarrow> instant \<Rightarrow> (lease_error, lease_guard) action" where
  "acquire env l now = transaction_as LeaseDatabase env (acquire_body env l now)"

text \<open>\<open>renew\<close> updates the guard in place on success only: the model returns the new guard.\<close>

definition renew ::
  "env \<Rightarrow> scheduler_lease \<Rightarrow> lease_guard \<Rightarrow> instant \<Rightarrow> (lease_error, lease_guard) action" where
  "renew env l g now =
     (if lg_holder_id g \<noteq> sl_holder_id l \<or> lg_expires_at g \<le> now then slift (Err Lost)
      else
        sbind (slift (ok_or LeaseInvalidData (checked_add_one (lg_version g)))) (\<lambda>next_version.
        sbind (slift (time_add now (sl_duration l))) (\<lambda>expires_at.
        sbind (slift (lease_stamp expires_at)) (\<lambda>expires.
        sbind (slift (lease_i64 next_version)) (\<lambda>next.
        sbind (slift (lease_i64 (lg_version g))) (\<lambda>current.
        sbind (slift (lease_stamp now)) (\<lambda>now_text.
        sbind (gate_as LeaseDatabase env) (\<lambda>_.
        sbind (lease_update (\<lambda>s. s_lease_name s = lease_name \<and> s_holder_id s = sl_holder_id l
                                 \<and> s_version s = current \<and> s_expires_at s > now_text)
                 (\<lambda>s. s\<lparr>s_expires_at := expires, s_version := next\<rparr>)) (\<lambda>n.
        if n \<noteq> 1 then slift (Err Lost)
        else slift (Ok (g\<lparr>lg_version := next_version, lg_expires_at := expires_at\<rparr>)))))))))))"

definition release :: "env \<Rightarrow> scheduler_lease \<Rightarrow> lease_guard \<Rightarrow> (lease_error, unit) action" where
  "release env l g =
     sbind (slift (lease_i64 (lg_version g))) (\<lambda>current.
     sbind (gate_as LeaseDatabase env) (\<lambda>_.
     sbind (lease_delete (\<lambda>s. s_lease_name s = lease_name \<and> s_holder_id s = sl_holder_id l
                              \<and> s_version s = current)) (\<lambda>n.
       slift (if n = 1 then Ok () else Err Lost))))"

section \<open>Holding the row\<close>

text \<open>At most one row has the lease name, and its version is a positive \<open>i64\<close>.\<close>

definition lease_wf :: "db \<Rightarrow> bool" where
  "lease_wf d \<longleftrightarrow> distinct (map s_lease_name (lease_table d)) \<and>
     (\<forall>r \<in> set (lease_table d). 1 \<le> s_version r \<and> s_version r \<le> i64_max)"

definition holds :: "db \<Rightarrow> lease_guard \<Rightarrow> bool" where
  "holds d g \<longleftrightarrow> (case lease_row_of d of None \<Rightarrow> False
     | Some r \<Rightarrow> s_holder_id r = lg_holder_id g \<and> s_version r = uint (lg_version g)
                 \<and> s_expires_at r = stamp_of (lg_expires_at g))"

lemma holds_exclusive:
  "holds d g \<Longrightarrow> holds d g' \<Longrightarrow> lg_holder_id g' = lg_holder_id g \<and> lg_version g' = lg_version g"
  by (auto simp: holds_def word_uint_eq_iff split: option.splits)

lemma lease_row_member: "lease_row_of d = Some r \<Longrightarrow> r \<in> set (lease_table d) \<and> s_lease_name r = lease_name"
  by (auto simp: lease_row_of_def dest: find_SomeD)

lemma lease_row_unique:
  assumes "lease_wf d" and "lease_row_of d = Some r"
  shows "filter (\<lambda>s. s_lease_name s = lease_name \<and> P s) (lease_table d) = (if P r then [r] else [])"
proof -
  note m = lease_row_member [OF assms(2)]
  have eq: "s = r" if "s \<in> set (lease_table d)" "s_lease_name s = lease_name" for s
    using assms(1) that m by (auto simp: lease_wf_def distinct_map inj_on_def)
  have "filter (\<lambda>s. s_lease_name s = lease_name \<and> P s) (lease_table d) = filter (\<lambda>s. s = r \<and> P r) (lease_table d)"
    using eq m by (intro filter_cong) auto
  also have "\<dots> = (if P r then [r] else [])"
    using assms(1) m by (auto simp: lease_wf_def distinct_map filter_eq_single filter_empty_conv)
  finally show ?thesis .
qed

lemma lease_row_absent:
  "lease_row_of d = None \<Longrightarrow> filter (\<lambda>s. s_lease_name s = lease_name \<and> P s) (lease_table d) = []"
  by (auto simp: lease_row_of_def find_None_iff filter_empty_conv)

text \<open>Updating the one row.\<close>

lemma find_map_name:
  assumes "\<And>r. g (f r) = g r"
  shows "find (\<lambda>r. g r = n) (map f xs) = map_option f (find (\<lambda>r. g r = n) xs)"
  by (induction xs) (auto simp: assms)

lemma lease_row_update:
  assumes "\<And>s. s_lease_name (f s) = s_lease_name s"
  shows "lease_row_of (d\<lparr>lease_table := map (\<lambda>s. if hit s then f s else s) (lease_table d)\<rparr>)
     = map_option (\<lambda>s. if hit s then f s else s) (lease_row_of d)"
  by (simp add: lease_row_of_def assms find_map_name [where f = "\<lambda>s. if hit s then f s else s"])

section \<open>The three operations on the row\<close>

text \<open>What a guard needs to write the row: its holder and its version.\<close>

definition owns :: "db \<Rightarrow> lease_guard \<Rightarrow> bool" where
  "owns d g \<longleftrightarrow> (case lease_row_of d of None \<Rightarrow> False
     | Some r \<Rightarrow> s_holder_id r = lg_holder_id g \<and> s_version r = uint (lg_version g))"

lemma holds_owns: "holds d g \<Longrightarrow> owns d g"
  by (auto simp: holds_def owns_def split: option.splits)

lemma owns_exclusive: "owns d g \<Longrightarrow> owns d g' \<Longrightarrow> lg_holder_id g = lg_holder_id g'"
  by (auto simp: owns_def split: option.splits)

lemma lease_i64_Ok: "lease_i64 v = Inr i \<longleftrightarrow> i = uint v \<and> uint v \<le> i64_max"
  by (auto simp: lease_i64_def i64_try_from_u64_def res_simps split: if_splits)

lemma lease_stamp_Ok: "lease_stamp t = Inr s \<longleftrightarrow> valid_instant t \<and> s = stamp_of t"
  by (auto simp: lease_stamp_def res_simps)

lemma checked_add_one_Ok: "checked_add_one v = Some v' \<Longrightarrow> uint v' = uint v + 1"
proof -
  assume a: "checked_add_one v = Some v'"
  then have "v \<noteq> - 1" "v' = v + 1" by (auto simp: checked_add_one_def split: if_splits)
  moreover have "uint v < 2 ^ 64 - 1"
  proof (rule ccontr)
    assume "\<not> ?thesis"
    with uint_lt2p [of v] have "uint v = 2 ^ 64 - 1" by simp
    then have "v = word_of_int (2 ^ 64 - 1)" by (metis word_of_int_uint)
    with \<open>v \<noteq> - 1\<close> show False by simp
  qed
  ultimately show ?thesis by (simp add: uint_add_one)
qed

lemma lease_action_eq [svc_simps]:
  "lease_update hit f w = (v, w') \<longleftrightarrow> v = Ok (length (filter hit (lease_table (w_db w)))) \<and>
     w' = w\<lparr>w_db := (w_db w)\<lparr>lease_table := map (\<lambda>r. if hit r then f r else r) (lease_table (w_db w))\<rparr>\<rparr>"
  "lease_insert row w = (v', w') \<longleftrightarrow> v' = Ok () \<and>
     w' = w\<lparr>w_db := (w_db w)\<lparr>lease_table := lease_table (w_db w) @ [row]\<rparr>\<rparr>"
  "lease_delete hit w = (v, w') \<longleftrightarrow> v = Ok (length (filter hit (lease_table (w_db w)))) \<and>
     w' = w\<lparr>w_db := (w_db w)\<lparr>lease_table := filter (\<lambda>r. \<not> hit r) (lease_table (w_db w))\<rparr>\<rparr>"
  by (auto simp: lease_update_def lease_insert_def lease_delete_def)

text \<open>Rewriting the one row keeps the table well formed.\<close>

lemma lease_wf_update:
  assumes "lease_wf d" and "\<And>s. s_lease_name (f s) = s_lease_name s" and "\<And>s. 1 \<le> s_version (f s) \<and> s_version (f s) \<le> i64_max"
  shows "lease_wf (d\<lparr>lease_table := map (\<lambda>s. if hit s then f s else s) (lease_table d)\<rparr>)"
proof -
  have "map s_lease_name (map (\<lambda>s. if hit s then f s else s) (lease_table d)) = map s_lease_name (lease_table d)"
    using assms(2) by simp
  then have "distinct (map s_lease_name (map (\<lambda>s. if hit s then f s else s) (lease_table d)))"
    using assms(1) by (simp only: lease_wf_def)
  with assms(1,3) show ?thesis by (auto simp: lease_wf_def)
qed

definition lease_only :: "db \<Rightarrow> db \<Rightarrow> bool" where
  "lease_only d d' \<longleftrightarrow> d' = d\<lparr>lease_table := lease_table d'\<rparr>"

definition expired :: "db \<Rightarrow> instant \<Rightarrow> bool" where
  "expired d now \<longleftrightarrow> (case lease_row_of d of None \<Rightarrow> True | Some r \<Rightarrow> s_expires_at r * ns_per_ms \<le> now)"

lemma acquire_Ok:
  assumes wf: "lease_wf (w_db w)" and run: "acquire env l now w = (Inr g, w')"
  shows "expired (w_db w) now" and "holds (w_db w') g" and "lease_wf (w_db w')"
    and "lease_only (w_db w) (w_db w')"
    and "lg_holder_id g = sl_holder_id l \<and> lg_expires_at g = now + sl_duration l"
proof -
  from run obtain c w1 w2 where w1: "w_db w1 = w_db w" and b: "acquire_body env l now w1 = (Inr (g, c), w2)"
    and w': "w_db w' = (if c then w_db w2 else w_db w)"
    unfolding acquire_def by (rule transaction_Ok)
  have c: c using b by (auto simp: acquire_body_def svc_simps)
  have "expired (w_db w) now \<and> holds (w_db w2) g \<and> lease_wf (w_db w2) \<and> lease_only (w_db w) (w_db w2) \<and>
    lg_holder_id g = sl_holder_id l \<and> lg_expires_at g = now + sl_duration l"
  proof (cases "lease_row_of (w_db w)")
    case None
    with b w1 have g: "g = \<lparr>lg_holder_id = sl_holder_id l, lg_version = 1, lg_expires_at = now + sl_duration l,
        lg_duration = sl_duration l\<rparr>"
      and d: "w_db w2 = (w_db w)\<lparr>lease_table := lease_table (w_db w) @
          [\<lparr>s_lease_name = lease_name, s_holder_id = sl_holder_id l, s_acquired_at = stamp_of now,
            s_expires_at = stamp_of (now + sl_duration l), s_version = 1\<rparr>]\<rparr>"
      by (auto simp: acquire_body_def svc_simps res_simps lease_stamp_Ok)
    from None have absent: "\<forall>s \<in> set (lease_table (w_db w)). s_lease_name s \<noteq> lease_name"
      by (auto simp: lease_row_of_def find_None_iff)
    have "find (\<lambda>r. s_lease_name r = lease_name) (lease_table (w_db w)) = None"
      using None by (simp add: lease_row_of_def)
    with absent wf None show ?thesis
      by (auto simp: g d expired_def holds_def lease_row_of_def find_append lease_wf_def lease_only_def i64_max_def)
  next
    case (Some r)
    with b w1 obtain cur nxt where
      fresh: "s_expires_at r * ns_per_ms \<le> now" and cur: "u64_try_from_i64 (s_version r) = Some cur"
      and nx: "checked_add_one cur = Some nxt" "uint nxt \<le> i64_max" 
      and g: "g = \<lparr>lg_holder_id = sl_holder_id l, lg_version = nxt, lg_expires_at = now + sl_duration l,
        lg_duration = sl_duration l\<rparr>"
      and d: "w_db w2 = (w_db w)\<lparr>lease_table := map (\<lambda>s. if s_lease_name s = lease_name \<and> s_version s = uint cur
          then s\<lparr>s_holder_id := sl_holder_id l, s_acquired_at := stamp_of now,
                 s_expires_at := stamp_of (now + sl_duration l), s_version := uint nxt\<rparr> else s) (lease_table (w_db w))\<rparr>"
      by (auto simp: acquire_body_def svc_simps res_simps lease_stamp_Ok lease_i64_Ok split: if_splits)
    have ver: "s_version r = uint cur"
      using cur wf lease_row_member [OF Some]
      by (auto simp: u64_try_from_i64_def lease_wf_def i64_max_def uint_word_of_int split: if_splits)
    have row: "lease_row_of (w_db w2) = Some (r\<lparr>s_holder_id := sl_holder_id l, s_acquired_at := stamp_of now,
                 s_expires_at := stamp_of (now + sl_duration l), s_version := uint nxt\<rparr>)"
      using lease_row_member [OF Some] ver Some by (simp add: d lease_row_update)
    have "lease_wf (w_db w2)"
      unfolding d using wf nx checked_add_one_Ok [OF nx(1)] uint_ge_0 [of cur] by (intro lease_wf_update) auto
    with fresh Some row show ?thesis
      by (simp add: g expired_def holds_def lease_only_def d)
  qed
  with w' c show "expired (w_db w) now" and "holds (w_db w') g" and "lease_wf (w_db w')"
    and "lease_only (w_db w) (w_db w')"
    and "lg_holder_id g = sl_holder_id l \<and> lg_expires_at g = now + sl_duration l" by simp_all
qed

lemma renew_Ok:
  assumes wf: "lease_wf (w_db w)" and run: "renew env l g now w = (Inr g', w')"
  shows "owns (w_db w) g" and "lg_holder_id g = sl_holder_id l" and "now < lg_expires_at g"
    and "holds (w_db w') g'" and "lease_wf (w_db w')" and "lease_only (w_db w) (w_db w')"
    and "lg_holder_id g' = lg_holder_id g \<and> lg_expires_at g' = now + sl_duration l \<and>
         uint (lg_version g') = uint (lg_version g) + 1"
proof -
  let ?hit = "\<lambda>s. s_lease_name s = lease_name \<and> s_holder_id s = sl_holder_id l
     \<and> s_version s = uint (lg_version g) \<and> s_expires_at s > stamp_of now"
  from run obtain nxt where h: "lg_holder_id g = sl_holder_id l" "now < lg_expires_at g"
    and nx: "checked_add_one (lg_version g) = Some nxt" "uint nxt \<le> i64_max"
    and n: "length (filter ?hit (lease_table (w_db w))) = 1"
    and g': "g' = g\<lparr>lg_version := nxt, lg_expires_at := now + sl_duration l\<rparr>"
    and d: "w_db w' = (w_db w)\<lparr>lease_table := map (\<lambda>s. if ?hit s
        then s\<lparr>s_expires_at := stamp_of (now + sl_duration l), s_version := uint nxt\<rparr> else s) (lease_table (w_db w))\<rparr>"
    by (auto simp: renew_def svc_simps res_simps lease_stamp_Ok lease_i64_Ok not_le split: if_splits)
  have ne: "lease_row_of (w_db w) \<noteq> None"
    using n lease_row_absent [of "w_db w" "\<lambda>s. s_holder_id s = sl_holder_id l
       \<and> s_version s = uint (lg_version g) \<and> s_expires_at s > stamp_of now"] by (intro notI) simp
  then obtain r where r: "lease_row_of (w_db w) = Some r" by blast
  with n lease_row_unique [OF wf r, of "\<lambda>s. s_holder_id s = sl_holder_id l
     \<and> s_version s = uint (lg_version g) \<and> s_expires_at s > stamp_of now"]
  have hit: "s_holder_id r = sl_holder_id l" "s_version r = uint (lg_version g)" "s_expires_at r > stamp_of now"
    by (auto split: if_splits)
  show "owns (w_db w) g" using r hit h by (simp add: owns_def)
  show "lg_holder_id g = sl_holder_id l" "now < lg_expires_at g" by (rule h)+
  have "lease_row_of (w_db w') = Some (r\<lparr>s_expires_at := stamp_of (now + sl_duration l), s_version := uint nxt\<rparr>)"
    using r hit lease_row_member [OF r] by (simp add: d lease_row_update)
  then show "holds (w_db w') g'" using hit h by (simp add: holds_def g')
  show "lease_wf (w_db w')"
    unfolding d using wf nx checked_add_one_Ok [OF nx(1)] by (intro lease_wf_update) auto
  show "lease_only (w_db w) (w_db w')" by (simp add: lease_only_def d)
  show "lg_holder_id g' = lg_holder_id g \<and> lg_expires_at g' = now + sl_duration l \<and>
         uint (lg_version g') = uint (lg_version g) + 1"
    using checked_add_one_Ok [OF nx(1)] by (simp add: g')
qed

lemma release_Ok:
  assumes wf: "lease_wf (w_db w)" and run: "release env l g w = (Inr u, w')" and h: "lg_holder_id g = sl_holder_id l"
  shows "owns (w_db w) g" and "lease_row_of (w_db w') = None" and "lease_wf (w_db w')"
    and "lease_only (w_db w) (w_db w')"
proof -
  let ?hit = "\<lambda>s. s_lease_name s = lease_name \<and> s_holder_id s = sl_holder_id l \<and> s_version s = uint (lg_version g)"
  from run have n: "length (filter ?hit (lease_table (w_db w))) = 1"
    and d: "w_db w' = (w_db w)\<lparr>lease_table := filter (\<lambda>s. \<not> ?hit s) (lease_table (w_db w))\<rparr>"
    by (auto simp: release_def svc_simps lease_i64_Ok split: if_splits)
  have "lease_row_of (w_db w) \<noteq> None"
    using n lease_row_absent [of "w_db w" "\<lambda>s. s_holder_id s = sl_holder_id l
       \<and> s_version s = uint (lg_version g)"] by (intro notI) simp
  then obtain r where r: "lease_row_of (w_db w) = Some r" by blast
  with n lease_row_unique [OF wf r, of "\<lambda>s. s_holder_id s = sl_holder_id l \<and> s_version s = uint (lg_version g)"]
  have hit: "s_holder_id r = sl_holder_id l" "s_version r = uint (lg_version g)" by (auto split: if_splits)
  show "owns (w_db w) g" using r hit h by (simp add: owns_def)
  have "s = r" if "s \<in> set (lease_table (w_db w))" "s_lease_name s = lease_name" for s
    using wf that lease_row_member [OF r] by (auto simp: lease_wf_def distinct_map inj_on_def)
  then show "lease_row_of (w_db w') = None"
    using hit lease_row_member [OF r] by (auto simp: d lease_row_of_def find_None_iff)
  show "lease_wf (w_db w')" using wf by (auto simp: d lease_wf_def distinct_map intro: inj_on_subset)
  show "lease_only (w_db w) (w_db w')" by (simp add: lease_only_def d)
qed

text \<open>A failing operation leaves the row alone.\<close>

lemma atomic_acquire: "atomic (acquire env l now)"
  unfolding acquire_def by (rule atomic_transaction)

lemma lease_table_keep:
  assumes "\<forall>r \<in> set (lease_table d). \<not> hit r"
  shows "d\<lparr>lease_table := map (\<lambda>r. if hit r then f r else r) (lease_table d)\<rparr> = d"
proof -
  have "map (\<lambda>r. if hit r then f r else r) (lease_table d) = lease_table d"
    using assms by (intro map_idI) simp
  then show ?thesis by simp
qed

lemma renew_stale:
  assumes "lease_wf (w_db w)" and "\<not> owns (w_db w) g"
  shows "\<exists>e w'. renew env l g now w = (Inl e, w') \<and> w_db w' = w_db w"
proof -
  let ?hit = "\<lambda>s. s_lease_name s = lease_name \<and> s_holder_id s = sl_holder_id l
     \<and> s_version s = uint (lg_version g) \<and> s_expires_at s > stamp_of now"
  obtain v w' where run: "renew env l g now w = (v, w')" by (cases "renew env l g now w")
  with renew_Ok(1) [OF assms(1)] assms(2) obtain e where v: "v = Inl e" by (cases v) auto
  have none: "filter ?hit (lease_table (w_db w)) = []" if "lg_holder_id g = sl_holder_id l"
  proof (cases "lease_row_of (w_db w)")
    case None
    then show ?thesis by (rule lease_row_absent)
  next
    case (Some r)
    with lease_row_unique [OF assms(1) Some, of "\<lambda>s. s_holder_id s = sl_holder_id l
        \<and> s_version s = uint (lg_version g) \<and> s_expires_at s > stamp_of now"] assms(2) that
    show ?thesis by (auto simp: owns_def)
  qed
  have "w_db w' = w_db w"
    using run none
    by (auto simp: renew_def sbind_def slift_def gate_as_def lease_update_def filter_empty_conv
        intro!: lease_table_keep dest!: lease_stamp_Ok [THEN iffD1] lease_i64_Ok [THEN iffD1]
        split: if_splits sum.splits option.splits prod.splits)
  with run v show ?thesis by auto
qed

section \<open>The interface of the run loop\<close>

text \<open>
  \<open>granted s h t g s'\<close>: \<open>h\<close> obtained the guard \<open>g\<close> at time \<open>t\<close>; \<open>renewed s g t g' s'\<close> likewise;
  \<open>vacant s t\<close>: nobody holds the lease at \<open>t\<close>. The laws are those a fenced writer needs.
\<close>

locale fencing_lease =
  fixes wf :: "'s \<Rightarrow> bool"
    and owner :: "'s \<Rightarrow> 'g \<Rightarrow> bool"
    and holder :: "'g \<Rightarrow> 'h"
    and vacant :: "'s \<Rightarrow> int \<Rightarrow> bool"
    and granted :: "'s \<Rightarrow> 'h \<Rightarrow> int \<Rightarrow> 'g \<Rightarrow> 's \<Rightarrow> bool"
    and renewed :: "'s \<Rightarrow> 'g \<Rightarrow> int \<Rightarrow> 'g \<Rightarrow> 's \<Rightarrow> bool"
  assumes exclusive: "owner s g \<Longrightarrow> owner s g' \<Longrightarrow> holder g = holder g'"
    and granted_vacant: "wf s \<Longrightarrow> granted s h t g s' \<Longrightarrow> vacant s t"
    and granted_owner: "wf s \<Longrightarrow> granted s h t g s' \<Longrightarrow> owner s' g \<and> holder g = h \<and> wf s'"
    and renewed_owner: "wf s \<Longrightarrow> renewed s g t g' s' \<Longrightarrow>
      owner s g \<and> owner s' g' \<and> holder g' = holder g \<and> wf s'"
begin

text \<open>Once another holder has been granted the lease, an old guard cannot be renewed.\<close>

lemma fenced:
  assumes "wf s" and "granted s h t g s1" and "holder old \<noteq> h"
  shows "\<not> owner s1 old" and "\<not> renewed s1 old t' g' s2"
proof -
  note o = granted_owner [OF assms(1,2)]
  with exclusive assms(3) show "\<not> owner s1 old" by blast
  with renewed_owner o show "\<not> renewed s1 old t' g' s2" by blast
qed

text \<open>And while a guard is renewed, a rival holder's guard is not an owner.\<close>

lemma renewal_excludes:
  assumes "wf s" and "renewed s g t g' s'" and "holder rival \<noteq> holder g"
  shows "\<not> owner s rival" and "\<not> owner s' rival"
proof -
  note o = renewed_owner [OF assms(1,2)]
  with exclusive [of s g rival] exclusive [of s' g' rival] assms(3)
  show "\<not> owner s rival" and "\<not> owner s' rival" by auto
qed

end

definition lease_granted :: "db \<Rightarrow> ustring \<Rightarrow> instant \<Rightarrow> lease_guard \<Rightarrow> db \<Rightarrow> bool" where
  "lease_granted d h t g d' \<longleftrightarrow>
     (\<exists>env l w w'. w_db w = d \<and> sl_holder_id l = h \<and> acquire env l t w = (Inr g, w') \<and> w_db w' = d')"

definition lease_renewed :: "db \<Rightarrow> lease_guard \<Rightarrow> instant \<Rightarrow> lease_guard \<Rightarrow> db \<Rightarrow> bool" where
  "lease_renewed d g t g' d' \<longleftrightarrow>
     (\<exists>env l w w'. w_db w = d \<and> renew env l g t w = (Inr g', w') \<and> w_db w' = d')"

interpretation scheduler_lease: fencing_lease lease_wf owns lg_holder_id expired lease_granted lease_renewed
proof unfold_locales
  show "owns s g \<Longrightarrow> owns s g' \<Longrightarrow> lg_holder_id g = lg_holder_id g'" for s g g'
    by (rule owns_exclusive)
  show "lease_wf s \<Longrightarrow> lease_granted s h t g s' \<Longrightarrow> expired s t" for s h t g s'
    using acquire_Ok(1) by (fastforce simp: lease_granted_def)
  show "lease_wf s \<Longrightarrow> lease_granted s h t g s' \<Longrightarrow> owns s' g \<and> lg_holder_id g = h \<and> lease_wf s'" for s h t g s'
    unfolding lease_granted_def using acquire_Ok(2,3,5) holds_owns by metis
  show "lease_wf s \<Longrightarrow> lease_renewed s g t g' s' \<Longrightarrow>
      owns s g \<and> owns s' g' \<and> lg_holder_id g' = lg_holder_id g \<and> lease_wf s'" for s g t g' s'
    unfolding lease_renewed_def using renew_Ok(1,4,5,7) holds_owns by metis
qed

end
