(* ===== verification/Runner.thy ===== *)
theory Runner
  imports Lease History Commands Adapters "HOL-Library.Multiset"
begin

text \<open>
  \<open>src/scheduler/runner.rs\<close>: the configuration check, one poll, the run loop under a lease and the
  workload that owns the task. Condition adapters are a parameter (what the configured adapter
  observes at the time of the poll), and so is the order in which their concurrent evaluations
  arrive and the state of the cancellation token at each of its queries.
\<close>

section \<open>Configuration\<close>

text \<open>The greatest \<open>std::time::Duration\<close>, in nanoseconds, and \<open>saturating_mul\<close>.\<close>

definition std_duration_max :: std_duration where
  "std_duration_max = (2 ^ 64 - 1) * 1000000000 + 999999999"

definition std_saturating_mul :: "std_duration \<Rightarrow> nat \<Rightarrow> std_duration" where
  "std_saturating_mul d k = min (d * k) std_duration_max"

record scheduler_config =
  sf_poll_interval :: std_duration
  sf_lease_duration :: std_duration
  sf_adapter_timeout :: std_duration
  sf_adapter_concurrency :: nat
  sf_candidate_batch_size :: nat

datatype scheduler_error =
    SchedInvalidConfiguration
  | SchedLease lease_error
  | SchedDatabase database_error
  | SchedService service_error
  | InvalidDesiredState
  | TaskJoin

definition validate_config :: "scheduler_config \<Rightarrow> (scheduler_error, unit) res" where
  "validate_config c =
     (if sf_poll_interval c = 0
         \<or> sf_lease_duration c \<le> std_saturating_mul (sf_poll_interval c) 2
         \<or> sf_adapter_timeout c = 0
         \<or> sf_adapter_concurrency c = 0
         \<or> sf_candidate_batch_size c = 0
      then Err SchedInvalidConfiguration else Ok ())"

section \<open>Adapters\<close>

fun map_status :: "adapter_status \<Rightarrow> condition_evaluation" where
  "map_status AdapterSatisfied = CE_Satisfied"
| "map_status AdapterUnsatisfied = CE_Unsatisfied"
| "map_status AdapterUnknown = CE_Unknown"
| "map_status AdapterError = CE_Error"

type_synonym adapter_provider = "ustring \<Rightarrow> (json \<Rightarrow> adapter_result) option"

definition evaluate_condition :: "adapter_provider \<Rightarrow> remindi \<Rightarrow> adapter_result option" where
  "evaluate_condition adapters candidate =
     (case trigger candidate of
        Condition adapter params _ _ \<Rightarrow>
          (case adapters adapter of
             None \<Rightarrow> Some \<lparr>rs_status = AdapterUnknown, rs_observed_at = updated_at candidate,
               rs_summary = lit ''Configured condition adapter is unavailable.'',
               rs_metadata = \<lparr>am_adapter_version = lit ''unavailable'', am_latency_ms = 0\<rparr>\<rparr>
           | Some observe \<Rightarrow> Some (observe params))
      | _ \<Rightarrow> None)"

section \<open>The scheduler\<close>

type_synonym evaluation = "nat \<times> remindi \<times> adapter_result option"

record scheduler =
  sc_adapters :: "nat \<Rightarrow> adapter_provider"
  sc_arrive :: "evaluation list \<Rightarrow> evaluation list"
  sc_config :: scheduler_config
  sc_lease :: scheduler_lease
  sc_actor :: actor

definition scheduler_new ::
  "(nat \<Rightarrow> adapter_provider) \<Rightarrow> (evaluation list \<Rightarrow> evaluation list) \<Rightarrow> ustring \<Rightarrow> scheduler_config
     \<Rightarrow> (scheduler_error, scheduler) res" where
  "scheduler_new adapters arrive holder config =
     rbind (validate_config config) (\<lambda>_.
     rbind (ok_or SchedInvalidConfiguration (duration_try_from (sf_lease_duration config))) (\<lambda>duration.
     rbind (map_err SchedLease (lease_new holder duration)) (\<lambda>lease.
       Ok \<lparr>sc_adapters = adapters, sc_arrive = arrive, sc_config = config, sc_lease = lease,
           sc_actor = \<lparr>actor_type = A_Scheduler, actor_id = lit ''scheduler:'' @ holder,
                       request_id = None\<rparr>\<rparr>)))"

definition desired_running :: "env \<Rightarrow> (scheduler_error, bool) action" where
  "desired_running env =
     sbind (gate_as SchedDatabase env) (\<lambda>_. \<lambda>w.
       (case map_option t_desired_state (find (\<lambda>r. t_component r = ''scheduler'') (runtime_table (w_db w))) of
          Some v \<Rightarrow>
            if v = ''running'' then Ok True
            else if v = ''stopped'' then Ok False else Err InvalidDesiredState
        | None \<Rightarrow> Err InvalidDesiredState, w))"

record poll_report =
  pr_selected :: nat
  pr_applied :: nat
  pr_conflicts :: nat
  pr_failures :: nat

datatype run_exit = ExitCancelled | ExitDesiredStopped | ExitLeaseLost

text \<open>The apply loop of a poll: every evaluation is counted exactly once.\<close>

definition condition_of :: "adapter_result option \<Rightarrow> condition_evaluation \<times> ustring option" where
  "condition_of v =
     (case v of None \<Rightarrow> (CE_NotEvaluated, None)
      | Some result \<Rightarrow> (map_status (rs_status result), Some (rs_summary result)))"

fun is_conflict :: "service_error \<Rightarrow> bool" where
  "is_conflict (VersionConflict _) = True"
| "is_conflict NotFound = True"
| "is_conflict _ = False"

fun count_result ::
  "(service_error, unit) res \<Rightarrow> poll_report \<Rightarrow> (scheduler_error, poll_report) res" where
  "count_result (Inr _) report = Ok (report\<lparr>pr_applied := pr_applied report + 1\<rparr>)"
| "count_result (Inl (Fail e)) report =
     (if is_conflict e then Ok (report\<lparr>pr_conflicts := pr_conflicts report + 1\<rparr>)
      else Ok (report\<lparr>pr_failures := pr_failures report + 1\<rparr>))"
| "count_result (Inl Panic) report = Inl Panic"
| "count_result (Inl Diverge) report = Inl Diverge"

fun apply_evaluations ::
  "env \<Rightarrow> actor \<Rightarrow> instant \<Rightarrow> evaluation list \<Rightarrow> poll_report \<Rightarrow> (scheduler_error, poll_report) action" where
  "apply_evaluations env a now [] report w = (Ok report, w)"
| "apply_evaluations env a now ((_, candidate, evaluation) # rest) report w =
     (case apply_scheduler_evaluation env a candidate now (fst (condition_of evaluation))
             (snd (condition_of evaluation)) w of
        (r, w') \<Rightarrow>
          (case count_result r report of
             Inl e \<Rightarrow> (Inl e, w')
           | Inr report' \<Rightarrow> apply_evaluations env a now rest report' w'))"

text \<open>The evaluations in the order of their candidates, however they arrived.\<close>

definition ordered_evaluations :: "scheduler \<Rightarrow> nat \<Rightarrow> remindi list \<Rightarrow> evaluation list" where
  "ordered_evaluations s at candidates =
     sort_key fst (sc_arrive s (map (\<lambda>(i, c). (i, c, evaluate_condition (sc_adapters s at) c))
                                   (List.enumerate 0 candidates)))"

text \<open>
  \<open>poll_once\<close> takes \<open>&mut LeaseGuard\<close>: the model returns the guard after the call, on errors too.
  \<open>cancelled\<close> is the state of the token after the adapters have answered.
\<close>

definition renew_step ::
  "env \<Rightarrow> scheduler \<Rightarrow> lease_guard \<Rightarrow> instant \<Rightarrow> (scheduler_error, lease_guard) action" where
  "renew_step env s g now = (\<lambda>w. case renew env (sc_lease s) g now w of (r, w') \<Rightarrow> (map_err SchedLease r, w'))"

definition poll_read ::
  "env \<Rightarrow> scheduler \<Rightarrow> lease_guard \<Rightarrow> world
     \<Rightarrow> (scheduler_error, instant \<times> remindi list) res \<times> lease_guard \<times> world" where
  "poll_read env s g w =
     (let now = env_clock env (w_clock w); w1 = w\<lparr>w_clock := w_clock w + 1\<rparr> in
      case sbind (slift (renewal_due g now)) (\<lambda>due.
             if due then renew_step env s g now else slift (Ok g)) w1 of
        (Inl e, w2) \<Rightarrow> (Inl e, g, w2)
      | (Inr g2, w2) \<Rightarrow>
          (case scheduler_candidates_of env now (sf_candidate_batch_size (sc_config s)) w2 of
             (Inl e, w3) \<Rightarrow> (Inl (map_failure SchedService e), g2, w3)
           | (Inr candidates, w3) \<Rightarrow> (Ok (now, candidates), g2, w3)))"

text \<open>The writing half, after the adapters have answered: other processes may have run since.\<close>

definition poll_apply ::
  "env \<Rightarrow> scheduler \<Rightarrow> bool \<Rightarrow> instant \<Rightarrow> remindi list \<Rightarrow> lease_guard \<Rightarrow> world
     \<Rightarrow> (scheduler_error, poll_report) res \<times> lease_guard \<times> world" where
  "poll_apply env s cancelled now candidates g w =
     (let selected = length candidates;
          ordered = ordered_evaluations s (w_clock w) candidates in
      if cancelled
      then (Ok \<lparr>pr_selected = selected, pr_applied = 0, pr_conflicts = 0, pr_failures = selected\<rparr>, g, w)
      else
        (case renew_step env s g (env_clock env (w_clock w)) (w\<lparr>w_clock := w_clock w + 1\<rparr>) of
           (Inl e, w1) \<Rightarrow> (Inl e, g, w1)
         | (Inr g2, w1) \<Rightarrow>
             (case apply_evaluations env (sc_actor s) now ordered
                     \<lparr>pr_selected = selected, pr_applied = 0, pr_conflicts = 0, pr_failures = 0\<rparr> w1 of
                (r, w2) \<Rightarrow> (r, g2, w2))))"

definition poll_once ::
  "env \<Rightarrow> scheduler \<Rightarrow> bool \<Rightarrow> lease_guard \<Rightarrow> world
     \<Rightarrow> (scheduler_error, poll_report) res \<times> lease_guard \<times> world" where
  "poll_once env s cancelled g w =
     (case poll_read env s g w of
        (Inl e, g2, w2) \<Rightarrow> (Inl e, g2, w2)
      | (Inr (now, candidates), g2, w2) \<Rightarrow> poll_apply env s cancelled now candidates g2 w2)"

section \<open>The run loop\<close>

text \<open>
  The token is asked three times in iteration \<open>k\<close>: at the head, after the adapters, and while
  sleeping. An error of \<open>desired_running\<close> leaves the function at once; any other poll error is
  logged and the loop goes on.
\<close>

partial_function (option) run_loop ::
  "env \<Rightarrow> scheduler \<Rightarrow> (nat \<Rightarrow> bool) \<Rightarrow> nat \<Rightarrow> lease_guard \<Rightarrow> world
     \<Rightarrow> ((scheduler_error, run_exit) res \<times> lease_guard \<times> world) option" where
  "run_loop env s token k g w =
     (if token (3 * k) then Some (Ok ExitCancelled, g, w)
      else case desired_running env w of
             (Inl e, w1) \<Rightarrow> Some (Inl e, g, w1)
           | (Inr desired, w1) \<Rightarrow>
               if \<not> desired then Some (Ok ExitDesiredStopped, g, w1)
               else case poll_once env s (token (3 * k + 1)) g w1 of
                      (r, g2, w2) \<Rightarrow>
                        if r = Err (SchedLease Lost) then Some (Ok ExitLeaseLost, g2, w2)
                        else if r = Inl Panic then Some (Inl Panic, g2, w2)
                        else if r = Inl Diverge then Some (Inl Diverge, g2, w2)
                        else if token (3 * k + 2) then Some (Ok ExitCancelled, g2, w2)
                        else run_loop env s token (k + 1) g2 w2)"

definition run_acquired ::
  "env \<Rightarrow> scheduler \<Rightarrow> (nat \<Rightarrow> bool) \<Rightarrow> lease_guard \<Rightarrow> world
     \<Rightarrow> ((scheduler_error, run_exit) res \<times> world) option" where
  "run_acquired env s token g w =
     (case run_loop env s token 0 g w of
        None \<Rightarrow> None
      | Some (Inl e, g', w') \<Rightarrow> Some (Inl e, w')
      | Some (Inr exit, g', w') \<Rightarrow>
          (case release env (sc_lease s) g' w' of
             (Inr _, w2) \<Rightarrow> Some (Ok exit, w2)
           | (Inl e, w2) \<Rightarrow>
               if e = Fail Lost then Some (Ok exit, w2)
               else Some (Inl (map_failure SchedLease e), w2)))"

definition run ::
  "env \<Rightarrow> scheduler \<Rightarrow> (nat \<Rightarrow> bool) \<Rightarrow> world \<Rightarrow> ((scheduler_error, run_exit) res \<times> world) option" where
  "run env s token w =
     (case desired_running env w of
        (Inl e, w1) \<Rightarrow> Some (Inl e, w1)
      | (Inr desired, w1) \<Rightarrow>
          if \<not> desired then Some (Ok ExitDesiredStopped, w1)
          else
            (case acquire env (sc_lease s) (env_clock env (w_clock w1)) (w1\<lparr>w_clock := w_clock w1 + 1\<rparr>) of
               (Inl e, w2) \<Rightarrow> Some (Inl (map_failure SchedLease e), w2)
             | (Inr g, w2) \<Rightarrow> run_acquired env s token g w2))"

section \<open>Facts\<close>

lemma renew_step_eq_Inr [svc_simps]:
  "renew_step env s g now w = (Inr g', w') \<longleftrightarrow> renew env (sc_lease s) g now w = (Inr g', w')"
  by (cases "renew env (sc_lease s) g now w") (auto simp: renew_step_def res_simps)

text \<open>Sorting by index restores the order of the candidates.\<close>

lemma ordered_evaluations_eq:
  assumes "\<And>xs. mset (sc_arrive s xs) = mset xs"
  shows "ordered_evaluations s at candidates =
    map (\<lambda>(i, c). (i, c, evaluate_condition (sc_adapters s at) c)) (List.enumerate 0 candidates)"
proof -
  let ?xs = "map (\<lambda>(i, c). (i, c, evaluate_condition (sc_adapters s at) c)) (List.enumerate 0 candidates)"
  have fst: "map fst ?xs = [0..<length candidates]"
    by (simp add: comp_def case_prod_beta enumerate_eq_zip map_fst_zip)
  have "distinct (map fst ?xs)" unfolding fst by simp
  then have "inj_on fst (set ?xs)" unfolding distinct_map by blast
  moreover have "set (sc_arrive s ?xs) = set ?xs" using assms mset_eq_setD by blast
  ultimately show ?thesis
    unfolding ordered_evaluations_def
    by (intro sort_key_inj_key_eq assms) (simp_all only: fst sorted_upt)
qed

lemma ordered_priors:
  assumes "\<And>xs. mset (sc_arrive s xs) = mset xs" and "(i, prior, ev) \<in> set (ordered_evaluations s at candidates)"
  shows "prior \<in> set candidates"
  using assms(2) unfolding ordered_evaluations_eq [OF assms(1)] by (auto simp: in_set_enumerate_eq)

text \<open>Every evaluation of a finished poll is counted once.\<close>

lemma count_result_Ok:
  "count_result r rep = Inr rep' \<Longrightarrow> pr_selected rep' = pr_selected rep \<and>
     pr_applied rep' + pr_conflicts rep' + pr_failures rep' =
       Suc (pr_applied rep + pr_conflicts rep + pr_failures rep)"
  by (cases "(r, rep)" rule: count_result.cases) (auto split: if_splits)

lemma apply_evaluations_counts:
  "apply_evaluations env a now evs rep w = (Inr rep', w') \<Longrightarrow>
     pr_selected rep' = pr_selected rep \<and>
     pr_applied rep' + pr_conflicts rep' + pr_failures rep' =
       pr_applied rep + pr_conflicts rep + pr_failures rep + length evs"
proof (induction evs arbitrary: rep w)
  case (Cons ev evs)
  obtain i candidate evaluation where ev: "ev = (i, candidate, evaluation)" by (cases ev)
  from Cons.prems ev obtain r rep1 w1 where "count_result r rep = Inr rep1"
    and rest: "apply_evaluations env a now evs rep1 w1 = (Inr rep', w')"
    by (auto split: prod.splits sum.splits)
  with count_result_Ok [OF this(1)] Cons.IH [OF rest] show ?case by simp
qed simp

text \<open>Applying evaluations of items read earlier keeps the promise of the service.\<close>

lemma apply_evaluations_good:
  assumes "db_wf (w_db w)" and "year_zero \<le> now" and "\<forall>(i, prior, ev) \<in> set evs. seen (w_db w) prior"
    and "apply_evaluations env a now evs rep w = (res, w')"
  shows "good_step (w_db w) (w_db w')"
  using assms(1,3,4)
proof (induction evs arbitrary: rep w)
  case Nil
  then show ?case by (simp add: good_step_refl)
next
  case (Cons ev evs)
  obtain i candidate evaluation where ev: "ev = (i, candidate, evaluation)" by (cases ev)
  obtain r w1 where ap: "apply_scheduler_evaluation env a candidate now (fst (condition_of evaluation))
      (snd (condition_of evaluation)) w = (r, w1)" by fastforce
  have g: "good_step (w_db w) (w_db w1)"
    using scheduler_good [OF Cons.prems(1) assms(2) _ ap] Cons.prems(2) by (simp add: ev)
  show ?case
  proof (cases "count_result r rep")
    case (Inl e)
    with Cons.prems(3) ev ap g show ?thesis by simp
  next
    case (Inr rep1)
    with Cons.prems(3) ev ap have rest: "apply_evaluations env a now evs rep1 w1 = (res, w')" by simp
    have "\<forall>(i, prior, ev) \<in> set evs. seen (w_db w1) prior"
      using Cons.prems(2) good_step_seen [OF g] by auto
    with Cons.IH [OF _ _ rest] g good_step_trans show ?thesis by (auto simp: good_step_def)
  qed
qed

text \<open>The lease table is separate from what the service promises about.\<close>

lemma lease_only_good: "lease_only d d' \<Longrightarrow> db_wf d \<Longrightarrow> good_step d d'"
proof -
  assume "lease_only d d'" "db_wf d"
  moreover obtain ls where "ls = lease_table d'" by blast
  ultimately have d': "d' = d\<lparr>lease_table := ls\<rparr>" by (simp add: lease_only_def)
  have "store_view d' = store_view d" by (simp add: d' store_view_def fun_eq_iff)
  with \<open>db_wf d\<close> show ?thesis
    by (auto simp: good_step_def db_extends_def item_extends_def db_wf_def items_wf_def events_wf_def
        audited_def has_event_def responses_wf_def d')
qed

lemma renew_lease_only:
  assumes "renew env l g now w = (r, w')"
  shows "lease_only (w_db w) (w_db w')"
  using assms
  by (auto simp: renew_def sbind_def slift_def gate_as_def lease_update_def lease_only_def
      split: if_splits sum.splits option.splits prod.splits)

text \<open>A guard whose row belongs to somebody else writes nothing.\<close>

lemma poll_apply_fenced:
  assumes "lease_wf (w_db w)" and "\<not> owns (w_db w) g"
    and "poll_apply env s cancelled now candidates g w = (r, g', w')"
  shows "w_db w' = w_db w" and "g' = g" and "\<not> cancelled \<Longrightarrow> \<exists>e. r = Inl e"
proof -
  let ?w = "w\<lparr>w_clock := w_clock w + 1\<rparr>"
  obtain e w1 where rn: "renew env (sc_lease s) g (env_clock env (w_clock w)) ?w = (Inl e, w1)"
    and "w_db w1 = w_db w"
    using renew_stale [where w = ?w and g = g and env = env and l = "sc_lease s" and now = "env_clock env (w_clock w)"]
      assms(1,2) by auto
  with assms(3) show "w_db w' = w_db w" and "g' = g" and "\<not> cancelled \<Longrightarrow> \<exists>e. r = Inl e"
    by (auto simp: poll_apply_def renew_step_def Let_def map_err_def split: if_splits)
qed

text \<open>A poll, from the reading half to the writing half.\<close>

lemma poll_read_Ok:
  assumes wf: "db_wf (w_db w)" and run: "poll_read env s g w = (r, g', w')"
  shows "good_step (w_db w) (w_db w')"
    and "r = Inr (now, candidates) \<Longrightarrow> now \<in> range (env_clock env) \<and> (\<forall>prior \<in> set candidates. seen (w_db w') prior)"
proof -
  let ?w = "w\<lparr>w_clock := w_clock w + 1\<rparr>" and ?now = "env_clock env (w_clock w)"
  obtain r1 w1 where st: "sbind (slift (renewal_due g ?now)) (\<lambda>due.
             if due then renew_step env s g ?now else slift (Ok g)) ?w = (r1, w1)" by fastforce
  have lo: "lease_only (w_db w) (w_db w1)"
    using st renew_lease_only [of env "sc_lease s" g ?now ?w]
    by (auto simp: sbind_def slift_def renew_step_def lease_only_def split: sum.splits if_splits prod.splits)
  then have g1: "good_step (w_db w) (w_db w1)" using wf by (rule lease_only_good)
  have ro: "w_db (snd (scheduler_candidates_of env ?now n w1)) = w_db w1" for n
    using reads_only_queries(4) by (simp add: reads_only_def)
  from run st have dw: "w_db w' = w_db w1"
    by (auto simp: poll_read_def Let_def split: sum.splits prod.splits) (metis ro snd_conv)+
  with g1 show "good_step (w_db w) (w_db w')" by simp
  assume "r = Inr (now, candidates)"
  with run st obtain w2 where n: "now = ?now"
    and c: "scheduler_candidates_of env ?now (sf_candidate_batch_size (sc_config s)) w1 = (Inr candidates, w2)"
    by (auto simp: poll_read_def Let_def split: sum.splits prod.splits)
  have "db_wf (w_db w1)" using g1 by (simp add: good_step_def)
  with scheduler_candidates_seen [OF _ c] n dw
  show "now \<in> range (env_clock env) \<and> (\<forall>prior \<in> set candidates. seen (w_db w') prior)" by auto
qed

lemma poll_apply_good:
  assumes wf: "db_wf (w_db w)" and now: "year_zero \<le> now" and sn: "\<forall>prior \<in> set candidates. seen (w_db w) prior"
    and arr: "\<And>xs. mset (sc_arrive s xs) = mset xs"
    and run: "poll_apply env s cancelled now candidates g w = (r, g', w')"
  shows "good_step (w_db w) (w_db w')"
proof (cases cancelled)
  case True
  with run wf show ?thesis by (simp add: poll_apply_def Let_def good_step_refl)
next
  case False
  let ?w = "w\<lparr>w_clock := w_clock w + 1\<rparr>"
  obtain r1 w1 where rn: "renew env (sc_lease s) g (env_clock env (w_clock w)) ?w = (r1, w1)" by fastforce
  have g1: "good_step (w_db w) (w_db w1)"
    using renew_lease_only [OF rn] wf by (simp add: lease_only_good)
  show ?thesis
  proof (cases r1)
    case (Inl e)
    with run False rn g1 show ?thesis by (simp add: poll_apply_def Let_def renew_step_def map_err_def)
  next
    case (Inr g2)
    have "\<forall>(i, prior, ev) \<in> set (ordered_evaluations s (w_clock w) candidates). seen (w_db w1) prior"
      using sn good_step_seen [OF g1] ordered_priors [OF arr] by blast
    moreover obtain r2 w2 where "apply_evaluations env (sc_actor s) now (ordered_evaluations s (w_clock w) candidates)
        \<lparr>pr_selected = length candidates, pr_applied = 0, pr_conflicts = 0, pr_failures = 0\<rparr> w1 = (r2, w2)" by fastforce
    moreover note apply_evaluations_good [OF _ now]
    ultimately have "good_step (w_db w1) (w_db w2)" and "w' = w2"
      using g1 run False rn Inr by (auto simp: good_step_def poll_apply_def Let_def renew_step_def)
    with g1 good_step_trans show ?thesis by blast
  qed
qed

text \<open>The loop returns once the token is cancelled.\<close>

lemma run_loop_returns:
  "token (3 * n) \<Longrightarrow> k \<le> n \<Longrightarrow> run_loop env s token k g w \<noteq> None"
proof (induction "n - k" arbitrary: k g w)
  case 0
  then have "k = n" by simp
  with 0 show ?case by (simp add: run_loop.simps)
next
  case (Suc m)
  then have IH: "run_loop env s token (Suc k) g w \<noteq> None" for g w by auto
  show ?case
    by (subst run_loop.simps) (use IH in \<open>auto split: sum.split prod.split\<close>)
qed

section \<open>Properties\<close>

text \<open>The guard of a demo scheduler and the database row it names: a minute from \<open>t0\<close>.\<close>

definition demo_guard :: lease_guard where
  "demo_guard = \<lparr>lg_holder_id = lit ''one'', lg_version = 1, lg_expires_at = t0 + seconds 60, lg_duration = seconds 60\<rparr>"

definition demo_lease :: "ustring \<Rightarrow> scheduler_lease" where
  "demo_lease holder = \<lparr>sl_holder_id = holder, sl_duration = seconds 60\<rparr>"

definition leased_world :: "instant \<Rightarrow> world" where
  "leased_world until = demo_world\<lparr>w_db := demo_db\<lparr>lease_table := [\<lparr>s_lease_name = lease_name, s_holder_id = lit ''one'',
     s_acquired_at = stamp_of t0, s_expires_at = stamp_of until, s_version = 1\<rparr>]\<rparr>\<rparr>"

definition demo_scheduler :: scheduler where
  "demo_scheduler = \<lparr>sc_adapters = (\<lambda>n name. None), sc_arrive = rev,
     sc_config = \<lparr>sf_poll_interval = 10, sf_lease_duration = 60, sf_adapter_timeout = 1, sf_adapter_concurrency = 1,
       sf_candidate_batch_size = 10\<rparr>, sc_lease = demo_lease (lit ''one''), sc_actor = sample_actor\<rparr>"

lemmas demo_lease_defs = demo_guard_def demo_lease_def leased_world_def demo_scheduler_def seconds_def ns_per_sec_def
  ns_per_ms_def t0_def

lemma leased_wf: "lease_wf (w_db (leased_world until))" "db_wf (w_db (leased_world until))"
proof -
  show "lease_wf (w_db (leased_world until))" by (simp add: lease_wf_def leased_world_def i64_max_def)
  have "lease_only demo_db (w_db (leased_world until))" by (simp add: lease_only_def leased_world_def)
  from lease_only_good [OF this demo_db_wf] show "db_wf (w_db (leased_world until))" by (simp add: good_step_def)
qed

text \<open>
  The scheduler lease is granted only when it is free. A granted \<open>acquire\<close> means that the row was
  absent or expired at the caller's clock; afterwards the row is the one the guard describes, for the
  duration the lease was configured with, and nothing but the lease table changed.
\<close>

theorem lease_grant:
  assumes "lease_wf (w_db w)" and "acquire env l now w = (Inr g, w')"
  shows "expired (w_db w) now \<and> holds (w_db w') g \<and> lg_holder_id g = sl_holder_id l \<and>
    lg_expires_at g = now + sl_duration l \<and> lease_wf (w_db w') \<and> lease_only (w_db w) (w_db w')"
  using acquire_Ok [OF assms] by blast

lemma demo_takeover: "\<exists>g w'. acquire demo_env (demo_lease (lit ''two'')) t0 (leased_world t0) = (Inr g, w')"
  by (simp add: acquire_def transaction_as_def gate_as_def acquire_body_def sbind_def slift_def lease_row_of_def
      demo_lease_defs time_add_def valid_instant_def min_instant_def max_instant_def lease_stamp_def canonical_timestamp_def
      to_utc_def parse_canonical_def rfc3339_ok_def year_zero_def u64_try_from_i64_def i64_max_def checked_add_one_def
      lease_i64_def i64_try_from_u64_def lease_update_def map_err_def)

theorem lease_grant_witness:
  "\<exists>g w'. acquire demo_env (demo_lease (lit ''two'')) t0 (leased_world t0) = (Inr g, w') \<and> holds (w_db w') g"
  using demo_takeover lease_grant [OF leased_wf(1)] by blast

text \<open>
  C15: fencing. Once another holder has been granted the lease, the writing half of a poll under the
  old guard fails at its renewal and changes nothing: no evaluation of the deposed scheduler is
  written, however long its adapters took.
\<close>

theorem deposed_scheduler_writes_nothing:
  assumes "lease_wf (w_db w)" and "acquire env l now w = (Inr g', w')"
    and "sl_holder_id l \<noteq> lg_holder_id g" and "w_db w2 = w_db w'"
    and "poll_apply env' s False now' candidates g w2 = (r, g2, w3)"
  shows "(\<exists>e. r = Inl e) \<and> w_db w3 = w_db w2"
proof -
  have "lease_granted (w_db w) (sl_holder_id l) now g' (w_db w')"
    using assms(2) by (auto simp: lease_granted_def)
  then have "\<not> owns (w_db w') g" "lease_wf (w_db w')"
    using scheduler_lease.fenced [OF assms(1)] acquire_Ok(3) [OF assms(1,2)] assms(3) by auto
  with poll_apply_fenced [OF _ _ assms(5)] assms(4) show ?thesis by simp
qed

theorem deposed_scheduler_writes_nothing_witness:
  "\<exists>g' w' r g2 w3. acquire demo_env (demo_lease (lit ''two'')) t0 (leased_world t0) = (Inr g', w') \<and>
     poll_apply demo_env demo_scheduler False t0 [sample_item] demo_guard w' = (r, g2, w3) \<and> w_db w3 = w_db w'"
proof -
  obtain g' w' where a: "acquire demo_env (demo_lease (lit ''two'')) t0 (leased_world t0) = (Inr g', w')"
    using demo_takeover by blast
  obtain r g2 w3 where p: "poll_apply demo_env demo_scheduler False t0 [sample_item] demo_guard w' = (r, g2, w3)"
    by (metis prod_cases3)
  have "sl_holder_id (demo_lease (lit ''two'')) \<noteq> lg_holder_id demo_guard"
    by (simp add: demo_guard_def demo_lease_def)
  from deposed_scheduler_writes_nothing [OF leased_wf(1) a this refl p] a p show ?thesis by blast
qed

text \<open>
  A poll keeps the promise of the service. Its reading half may be followed by any steps of other
  processes before its writing half runs: the database stays well formed and history only grows.
\<close>

theorem poll_keeps_history:
  assumes "db_wf (w_db w)" and "clock_ok env" and "\<And>xs. mset (sc_arrive s xs) = mset xs"
    and "poll_read env s g w = (Inr (now, candidates), g1, w1)" and "good_step (w_db w1) (w_db w2)"
    and "poll_apply env s cancelled now candidates g1 w2 = (r, g2, w3)"
  shows "good_step (w_db w) (w_db w3)"
proof -
  note rd = poll_read_Ok [OF assms(1,4)]
  then have now: "year_zero \<le> now" using clock_ok_low [OF assms(2)] by auto
  have "\<forall>prior \<in> set candidates. seen (w_db w2) prior" using rd(2) good_step_seen [OF assms(5)] by blast
  from poll_apply_good [OF _ now this assms(3,6)] assms(5) have "good_step (w_db w2) (w_db w3)"
    by (simp add: good_step_def)
  with rd(1) assms(5) good_step_trans show ?thesis by blast
qed

lemma empty_leased: "db_wf (w_db (leased_world until\<lparr>w_db := (w_db (leased_world until))\<lparr>remindi_table := [], event_table := []\<rparr>\<rparr>))"
  by (simp add: leased_world_def demo_db_def sample_db_def db_wf_def items_wf_def events_wf_def audited_def responses_wf_def)

theorem poll_keeps_history_witness:
  "\<exists>w w1 r g2 w3. poll_read demo_env demo_scheduler demo_guard w = (Inr (t0, []), demo_guard, w1) \<and>
     poll_apply demo_env demo_scheduler False t0 [] demo_guard w1 = (r, g2, w3) \<and> good_step (w_db w) (w_db w3)"
proof -
  let ?w = "leased_world (t0 + seconds 60)\<lparr>w_db := (w_db (leased_world (t0 + seconds 60)))\<lparr>remindi_table := [], event_table := []\<rparr>\<rparr>"
  obtain w1 where rd: "poll_read demo_env demo_scheduler demo_guard ?w = (Inr (t0, []), demo_guard, w1)" and d: "w_db w1 = w_db ?w"
    by (simp add: poll_read_def Let_def sbind_def slift_def renewal_due_def scheduler_candidates_of_def gate_as_def db_read_def
        scheduler_candidates_def scheduler_rows_def i64_max_def demo_lease_defs time_add_def valid_instant_def min_instant_def
        max_instant_def timestamp_def canonical_timestamp_def to_utc_def map_err_def)
  obtain r g2 w3 where ap: "poll_apply demo_env demo_scheduler False t0 [] demo_guard w1 = (r, g2, w3)" by (metis prod_cases3)
  have "good_step (w_db w1) (w_db w1)" using empty_leased d by (simp add: good_step_refl)
  moreover have "mset (sc_arrive demo_scheduler xs) = mset xs" for xs by (simp add: demo_scheduler_def)
  ultimately show ?thesis using poll_keeps_history [OF empty_leased demo_clock _ rd _ ap] rd ap by blast
qed

text \<open>
  Every candidate of a finished poll is accounted for: the applied, the conflicting and the failed
  evaluations of the report add up to the selected ones.
\<close>

theorem poll_report_adds_up:
  assumes "\<And>xs. mset (sc_arrive s xs) = mset xs"
    and "poll_apply env s cancelled now candidates g w = (Inr report, g', w')"
  shows "pr_selected report = length candidates \<and>
    pr_applied report + pr_conflicts report + pr_failures report = length candidates"
proof (cases cancelled)
  case True
  with assms(2) show ?thesis by (auto simp: poll_apply_def Let_def)
next
  case False
  from assms(2) False obtain w1 w2 where
    "apply_evaluations env (sc_actor s) now (ordered_evaluations s (w_clock w) candidates)
       \<lparr>pr_selected = length candidates, pr_applied = 0, pr_conflicts = 0, pr_failures = 0\<rparr> w1 = (Inr report, w2)"
    by (auto simp: poll_apply_def Let_def split: sum.splits prod.splits)
  from apply_evaluations_counts [OF this] show ?thesis
    by (simp add: ordered_evaluations_eq [OF assms(1)])
qed

theorem poll_report_adds_up_witness:
  "\<exists>report g' w'. poll_apply demo_env demo_scheduler False t0 [sample_item] demo_guard (leased_world (t0 + seconds 60))
       = (Inr report, g', w') \<and>
     pr_applied report + pr_conflicts report + pr_failures report = 1"
proof -
  have a: "mset (sc_arrive demo_scheduler xs) = mset xs" for xs by (simp add: demo_scheduler_def)
  have o: "ordered_evaluations demo_scheduler at [sample_item] = [(0, sample_item, None)]" for at
    by (simp add: ordered_evaluations_eq [OF a] evaluate_condition_def) (simp add: sample_item_def)
  have e: "evaluate sample_item t0 plain_context CE_NotEvaluated = Inr (sample_item\<lparr>last_checked_at := Some t0\<rparr>,
      \<lparr>res_readiness = Some R_Due, res_events = []\<rparr>)"
    by (simp add: evaluate_def is_terminal_def Let_def evaluate_due_def ready_result_def sample_item_def grace_seconds_def
        i64_try_from_u64_def i64_max_def seconds_def ns_per_sec_def time_add_def valid_instant_def min_instant_def
        max_instant_def t0_def)
  have "apply_scheduler_evaluation demo_env b sample_item t0 CE_NotEvaluated None w = (Inr (), w)" for b w
    using e by (simp add: apply_scheduler_evaluation_def evaluate_one_def sbind_def slift_def plain_context_def Let_def)
  then obtain report g' w' where p: "poll_apply demo_env demo_scheduler False t0 [sample_item] demo_guard (leased_world (t0 + seconds 60))
       = (Inr report, g', w')"
    using o by (simp add: poll_apply_def Let_def renew_step_def renew_def sbind_def slift_def condition_of_def gate_as_def
      demo_lease_defs time_add_def valid_instant_def min_instant_def max_instant_def lease_stamp_def canonical_timestamp_def
      to_utc_def checked_add_one_def lease_i64_def i64_try_from_u64_def i64_max_def lease_update_def map_err_def)
  from poll_report_adds_up [OF a p] p show ?thesis by simp
qed

text \<open>
  The result of a poll does not depend on the order in which the concurrent adapters answer.
\<close>

theorem arrival_order_irrelevant:
  assumes "\<And>xs. mset (f xs) = mset xs" and "\<And>xs. mset (h xs) = mset xs"
  shows "poll_apply env (s\<lparr>sc_arrive := f\<rparr>) cancelled now candidates g w =
    poll_apply env (s\<lparr>sc_arrive := h\<rparr>) cancelled now candidates g w"
proof -
  have "ordered_evaluations (s\<lparr>sc_arrive := f\<rparr>) at candidates = ordered_evaluations (s\<lparr>sc_arrive := h\<rparr>) at candidates" for at
    by (simp add: ordered_evaluations_eq assms)
  moreover have "sc_lease (s\<lparr>sc_arrive := k\<rparr>) = sc_lease s" "sc_actor (s\<lparr>sc_arrive := k\<rparr>) = sc_actor s" for k
    by simp_all
  ultimately show ?thesis unfolding poll_apply_def renew_step_def by (simp only:)
qed

theorem arrival_order_irrelevant_witness:
  "poll_apply demo_env (demo_scheduler\<lparr>sc_arrive := rev\<rparr>) False t0 [sample_item, scheduled_item] demo_guard (leased_world t0) =
   poll_apply demo_env (demo_scheduler\<lparr>sc_arrive := id\<rparr>) False t0 [sample_item, scheduled_item] demo_guard (leased_world t0)"
  by (rule arrival_order_irrelevant) simp_all

text \<open>
  C16: cancellation stops the scheduler. Whatever polls and lease operations return, the run ends once
  the token is set at the head of some iteration.
\<close>

theorem cancellation_stops_run:
  assumes "token (3 * n)"
  shows "run env s token w \<noteq> None"
proof -
  have "run_acquired env s token g w \<noteq> None" for g w
    using run_loop_returns [where token = token and n = n and k = 0 and env = env and s = s and g = g and w = w, OF assms]
    by (auto simp: run_acquired_def split: sum.split prod.split)
  then show ?thesis by (simp add: run_def split: prod.split sum.split)
qed

theorem cancellation_stops_run_witness: "run demo_env demo_scheduler (\<lambda>n. n \<ge> 30) demo_world \<noteq> None"
  by (rule cancellation_stops_run [of _ 10]) simp

end
