(* ===== verification/Administration.thy ===== *)
theory Administration
  imports Settings AdapterConfig Runner
begin

text \<open>
  \<open>AdminService\<close> (\<open>src/admin/mod.rs\<close>): loading, the versioned updates of settings and adapter
  configurations with their audit events, and the publication of the adapters. The two
  mutexes of the service make each update of a table one step with respect to the other
  updates of that table.
\<close>

section \<open>Details of events\<close>

definition with_code :: "string option \<Rightarrow> (string \<times> json) list" where
  "with_code code = (case code of None \<Rightarrow> [] | Some c \<Rightarrow> [(''failure_code'', JStr (lit c))])"

definition setting_details :: "ustring \<Rightarrow> bool \<Rightarrow> string option \<Rightarrow> json" where
  "setting_details key known code =
     JObj ((''setting_name'', JStr (if known then key else lit ''[unknown]'')) # with_code code)"

definition adapter_details :: "ustring \<Rightarrow> bool \<Rightarrow> string option \<Rightarrow> json" where
  "adapter_details name known code =
     JObj ((''adapter_name'', JStr (if known then name else lit ''[unknown]'')) # with_code code)"

datatype workload_component = Mcp | SchedulerComponent | AllComponents

datatype workload_action = StartWorkload | StopWorkload | RestartWorkload

definition workload_details :: "workload_component \<Rightarrow> string option \<Rightarrow> json" where
  "workload_details component code =
     JObj ((''component'', JStr (case component of
              Mcp \<Rightarrow> lit ''mcp'' | SchedulerComponent \<Rightarrow> lit ''scheduler'' | AllComponents \<Rightarrow> lit ''all''))
           # with_code code)"

section \<open>Loading\<close>

definition admin_load :: "admin_env \<Rightarrow> unit admin" where
  "admin_load env =
     abind (settings_list env) (\<lambda>settings.
     if length settings \<noteq> 11 then alift (Err AdminValidation)
     else
       abind (alift (collect_map (\<lambda>s. validate_candidate settings (rt_key s) (rt_value s)) settings)) (\<lambda>_.
       abind (adapters_list env) (\<lambda>configs. \<lambda>w.
         (case build_snapshot (ae_outside env (aw_clock w)) (ae_parse_url env) configs of
            Inl e \<Rightarrow> (Inl e, w)
          | Inr snapshot \<Rightarrow> (Ok (), w\<lparr>aw_published := snapshot\<rparr>)))))"

section \<open>Audited, versioned writes\<close>

definition admin_rejected :: "admin_env \<Rightarrow> string \<Rightarrow> admin_actor \<Rightarrow> json \<Rightarrow> admin_error \<Rightarrow> 'a admin" where
  "admin_rejected env kind who dets e =
     abind (audit_append env kind who ''rejected'' dets) (\<lambda>_. alift (Err e))"

definition admin_failed :: "admin_env \<Rightarrow> string \<Rightarrow> admin_actor \<Rightarrow> json \<Rightarrow> 'a admin" where
  "admin_failed env kind who dets =
     abind (audit_append env kind who ''failed'' dets) (\<lambda>_. alift (Err AdminDatabase))"

datatype write_outcome = WriteFailed | WriteMissed | Written

text \<open>Executing the UPDATE: a failing call, a refused row, no row with the version, or one.\<close>

definition execute_write :: "admin_env \<Rightarrow> (admin_db \<Rightarrow> (admin_db \<times> nat) option) \<Rightarrow> write_outcome admin" where
  "execute_write env statement = (\<lambda>w.
     let w' = w\<lparr>aw_calls := aw_calls w + 1\<rparr> in
     if ae_fails env (aw_calls w) then (Ok WriteFailed, w')
     else case statement (aw_db w) of
            None \<Rightarrow> (Ok WriteFailed, w')
          | Some (d, n) \<Rightarrow> (Ok (if n = 1 then Written else WriteMissed), w'\<lparr>aw_db := d\<rparr>))"

definition versioned_write ::
  "admin_env \<Rightarrow> string \<Rightarrow> admin_actor \<Rightarrow> (string option \<Rightarrow> json)
     \<Rightarrow> (admin_db \<Rightarrow> (admin_db \<times> nat) option) \<Rightarrow> unit admin" where
  "versioned_write env kind who dets statement =
     abind (admin_transaction env
              (abind (execute_write env statement) (\<lambda>outcome.
                 if outcome = Written
                 then abind (audit_insert env kind who ''succeeded'' (dets None)) (\<lambda>_. alift (Ok (Written, True)))
                 else alift (Ok (outcome, False)))))
       (\<lambda>outcome.
          case outcome of
            Written \<Rightarrow> alift (Ok ())
          | WriteFailed \<Rightarrow> admin_failed env kind who (dets (Some ''INTERNAL_ERROR''))
          | WriteMissed \<Rightarrow> admin_rejected env kind who (dets (Some ''VERSION_CONFLICT'')) AdminVersionConflict)"

section \<open>Updates\<close>

definition setting_statement ::
  "ustring \<Rightarrow> int \<Rightarrow> int \<Rightarrow> stamp \<Rightarrow> ustring \<Rightarrow> admin_db \<Rightarrow> (admin_db \<times> nat) option" where
  "setting_statement key v expected at who d =
     map_option (\<lambda>(rows, n). (d\<lparr>setting_table := rows\<rparr>, n)) (write_setting key v expected at who (setting_table d))"

definition commit_setting ::
  "admin_env \<Rightarrow> ustring \<Rightarrow> int \<Rightarrow> int \<Rightarrow> admin_actor \<Rightarrow> runtime_setting list \<Rightarrow> runtime_setting admin" where
  "commit_setting env key v expected_version who current =
     abind (admin_now env) (\<lambda>now.
     abind (alift (admin_stamp now)) (\<lambda>at.
     abind (alift (setting_updated current key v (aa_actor_id who) at)) (\<lambda>updated.
     abind (versioned_write env ''runtime_setting_updated'' who (setting_details key True)
              (setting_statement key v expected_version at (aa_actor_id who))) (\<lambda>_.
       alift (Ok updated)))))"

definition apply_setting ::
  "admin_env \<Rightarrow> ustring \<Rightarrow> int \<Rightarrow> int \<Rightarrow> admin_actor \<Rightarrow> runtime_setting list \<Rightarrow> runtime_setting admin" where
  "apply_setting env key v expected_version who current =
     (case validate_candidate current key v of
        Inl Panic \<Rightarrow> alift (Inl Panic)
      | Inl Diverge \<Rightarrow> alift (Inl Diverge)
      | Inl (Fail e) \<Rightarrow>
          admin_rejected env ''runtime_setting_updated'' who (setting_details key True (Some ''VALIDATION_ERROR'')) e
      | Inr _ \<Rightarrow>
          abind (alift (ok_or AdminValidation (find (\<lambda>s. rt_key s = key) current))) (\<lambda>selected.
          if rt_version selected \<noteq> expected_version
          then admin_rejected env ''runtime_setting_updated'' who
                 (setting_details key True (Some ''VERSION_CONFLICT'')) AdminVersionConflict
          else commit_setting env key v expected_version who current))"

definition update_runtime_setting ::
  "admin_env \<Rightarrow> ustring \<Rightarrow> int \<Rightarrow> int \<Rightarrow> admin_actor \<Rightarrow> runtime_setting admin" where
  "update_runtime_setting env key v expected_version who =
     (let known = setting_is_known key in
      if \<not> known \<or> expected_version < 1
      then admin_rejected env ''runtime_setting_updated'' who
             (setting_details key known (Some ''VALIDATION_ERROR'')) AdminValidation
      else abind (settings_list env) (apply_setting env key v expected_version who))"

definition adapter_statement ::
  "ustring \<Rightarrow> bool \<Rightarrow> adapter_configuration \<Rightarrow> int \<Rightarrow> stamp \<Rightarrow> ustring \<Rightarrow> admin_db \<Rightarrow> (admin_db \<times> nat) option" where
  "adapter_statement name enabled configuration expected at who d =
     map_option (\<lambda>(rows, n). (d\<lparr>adapter_table := rows\<rparr>, n))
       (write_adapter name enabled configuration expected at who (adapter_table d))"

definition publish :: "adapter_registry \<Rightarrow> unit admin" where
  "publish snapshot = (\<lambda>w. (Ok (), w\<lparr>aw_published := snapshot\<rparr>))"

text \<open>The candidate is built on the outside as it is at the time of the update.\<close>

definition candidate_now ::
  "admin_env \<Rightarrow> adapter_config_view list \<Rightarrow> ustring \<Rightarrow> bool \<Rightarrow> adapter_configuration \<Rightarrow> ustring \<Rightarrow> stamp
     \<Rightarrow> (admin_error, adapter_config_view \<times> adapter_registry) res admin" where
  "candidate_now env current name enabled configuration who at = (\<lambda>w.
     (Ok (adapter_candidate (ae_outside env (aw_clock w)) (ae_parse_url env) current name enabled configuration who at), w))"

definition apply_adapter ::
  "admin_env \<Rightarrow> ustring \<Rightarrow> bool \<Rightarrow> int \<Rightarrow> admin_actor \<Rightarrow> stamp \<Rightarrow> adapter_config_view list
     \<Rightarrow> (admin_error, adapter_config_view \<times> adapter_registry) res \<Rightarrow> adapter_config_view admin" where
  "apply_adapter env name enabled expected_version who at current candidate =
     (case candidate of
        Inl Panic \<Rightarrow> alift (Inl Panic)
      | Inl Diverge \<Rightarrow> alift (Inl Diverge)
      | Inl (Fail e) \<Rightarrow>
          admin_rejected env ''adapter_config_updated'' who (adapter_details name True (Some ''VALIDATION_ERROR'')) e
      | Inr (updated, snapshot) \<Rightarrow>
          abind (alift (ok_or AdminValidation (find (\<lambda>c. cv_name c = name) current))) (\<lambda>selected.
          if cv_version selected \<noteq> expected_version
          then admin_rejected env ''adapter_config_updated'' who
                 (adapter_details name True (Some ''VERSION_CONFLICT'')) AdminVersionConflict
          else
            abind (versioned_write env ''adapter_config_updated'' who (adapter_details name True)
                     (adapter_statement name enabled (cv_configuration updated) expected_version at (aa_actor_id who)))
              (\<lambda>_. abind (publish snapshot) (\<lambda>_. alift (Ok updated)))))"

definition update_adapter ::
  "admin_env \<Rightarrow> ustring \<Rightarrow> bool \<Rightarrow> adapter_configuration \<Rightarrow> int \<Rightarrow> admin_actor \<Rightarrow> adapter_config_view admin" where
  "update_adapter env name enabled configuration expected_version who =
     (let known = adapter_is_known name in
      if \<not> known \<or> expected_version < 1
      then admin_rejected env ''adapter_config_updated'' who
             (adapter_details name known (Some ''VALIDATION_ERROR'')) AdminValidation
      else
        abind (adapters_list env) (\<lambda>current.
        abind (admin_now env) (\<lambda>now.
        abind (alift (admin_stamp now)) (\<lambda>at.
        abind (candidate_now env current name enabled configuration (aa_actor_id who) at) (\<lambda>candidate.
          apply_adapter env name enabled expected_version who at current candidate)))))"

definition audit_workload_action ::
  "admin_env \<Rightarrow> workload_component \<Rightarrow> workload_action \<Rightarrow> admin_actor \<Rightarrow> string option \<Rightarrow> unit admin" where
  "audit_workload_action env component action who code =
     audit_append env
       (case action of StartWorkload \<Rightarrow> ''workload_started'' | StopWorkload \<Rightarrow> ''workload_stopped''
                     | RestartWorkload \<Rightarrow> ''workload_restarted'')
       who
       (case code of None \<Rightarrow> ''succeeded''
                   | Some c \<Rightarrow> if c = ''WORKLOAD_CONFLICT'' then ''rejected'' else ''failed'')
       (workload_details component code)"

section \<open>Requests\<close>

datatype admin_request =
    UpdateSetting ustring int int admin_actor
  | UpdateAdapter ustring bool adapter_configuration int admin_actor
  | AuditWorkload workload_component workload_action admin_actor "string option"

text \<open>The world after a request, whatever its result; values and versions are \<open>i64\<close>.\<close>

fun admin_step :: "admin_env \<Rightarrow> admin_request \<Rightarrow> admin_world \<Rightarrow> admin_world" where
  "admin_step env (UpdateSetting key v expected who) w =
     (if is_i64 v then snd (update_runtime_setting env key v expected who w) else w)"
| "admin_step env (UpdateAdapter name enabled configuration expected who) w =
     snd (update_adapter env name enabled configuration expected who w)"
| "admin_step env (AuditWorkload component action who code) w =
     snd (audit_workload_action env component action who code w)"

definition run_admin :: "admin_env \<Rightarrow> admin_request list \<Rightarrow> admin_world \<Rightarrow> admin_world" where
  "run_admin env requests w = fold (admin_step env) requests w"

section \<open>The effect of each action\<close>

text \<open>Actions that publish nothing.\<close>

definition keeps_published :: "'a admin \<Rightarrow> bool" where
  "keeps_published m \<longleftrightarrow> (\<forall>w. aw_published (snd (m w)) = aw_published w)"

named_theorems published_intros \<open>actions that publish nothing\<close>

lemma keeps_publishedD: "keeps_published m \<Longrightarrow> m w = (r, w') \<Longrightarrow> aw_published w' = aw_published w"
  by (metis keeps_published_def snd_conv)

lemma keeps_published_abind [published_intros]:
  "keeps_published m \<Longrightarrow> (\<And>x. keeps_published (f x)) \<Longrightarrow> keeps_published (abind m f)"
  by (auto simp: keeps_published_def abind_def split: prod.splits sum.splits) (metis snd_conv)+

lemma keeps_published_basic [published_intros]:
  "keeps_published (alift r)" "keeps_published (admin_now env)" "keeps_published (admin_id env)"
  "keeps_published (admin_call env)" "keeps_published (execute_write env statement)"
  by (auto simp: keeps_published_def alift_def admin_now_def admin_id_def admin_call_def execute_write_def Let_def
      split: option.splits)

lemma keeps_published_insert [published_intros]: "keeps_published (audit_insert env kind who outcome dets)"
  unfolding audit_insert_def by (intro published_intros) (simp add: keeps_published_def)

lemma keeps_published_transaction [published_intros]:
  "keeps_published body \<Longrightarrow> keeps_published (admin_transaction env body)"
  by (auto simp: keeps_published_def admin_transaction_def admin_call_def split: prod.splits sum.splits if_splits)
    (metis admin_world.select_convs(2) admin_world.surjective admin_world.update_convs(5) snd_conv)+

lemma keeps_published_append [published_intros]: "keeps_published (audit_append env kind who outcome dets)"
  unfolding audit_append_def by (intro published_intros)

lemma keeps_published_refusals [published_intros]:
  "keeps_published (admin_rejected env kind who dets e)" "keeps_published (admin_failed env kind who dets)"
  unfolding admin_rejected_def admin_failed_def by (intro published_intros)+

lemma keeps_published_write [published_intros]:
  "keeps_published (versioned_write env kind who dets statement)"
  unfolding versioned_write_def
  by (intro published_intros) (auto split: write_outcome.splits intro: published_intros)

text \<open>A refusal logs one event and fails, or fails without a trace.\<close>

lemma admin_rejected_effect:
  assumes "admin_rejected env kind who dets e w = (r, w')"
  shows "(r = Err e \<and> logged kind who ''rejected'' dets (aw_db w) (aw_db w'))
     \<or> ((\<exists>f. r = Inl f) \<and> aw_db w' = aw_db w)"
  using assms
  by (cases "audit_append env kind who ''rejected'' dets w")
    (auto simp: admin_rejected_def abind_def alift_def split: sum.splits dest: audit_append_Inr audit_append_Inl)

lemma admin_failed_effect:
  assumes "admin_failed env kind who dets w = (r, w')"
  shows "(r = Err AdminDatabase \<and> logged kind who ''failed'' dets (aw_db w) (aw_db w'))
     \<or> ((\<exists>f. r = Inl f) \<and> aw_db w' = aw_db w)"
  using assms
  by (cases "audit_append env kind who ''failed'' dets w")
    (auto simp: admin_failed_def abind_def alift_def split: sum.splits dest: audit_append_Inr audit_append_Inl)

lemma execute_write_Written:
  "execute_write env statement w = (Inr Written, w') \<Longrightarrow>
     statement (aw_db w) = Some (aw_db w', 1)"
  by (auto simp: execute_write_def Let_def split: if_splits option.splits)

lemma versioned_write_effect:
  assumes "versioned_write env kind who dets statement w = (r, w')"
  shows "(\<exists>d. r = Ok () \<and> statement (aw_db w) = Some (d, 1)
            \<and> logged kind who ''succeeded'' (dets None) d (aw_db w'))
     \<or> (r = Err AdminDatabase \<and> logged kind who ''failed'' (dets (Some ''INTERNAL_ERROR'')) (aw_db w) (aw_db w'))
     \<or> (r = Err AdminVersionConflict
          \<and> logged kind who ''rejected'' (dets (Some ''VERSION_CONFLICT'')) (aw_db w) (aw_db w'))
     \<or> ((\<exists>f. r = Inl f) \<and> aw_db w' = aw_db w)"
proof -
  let ?body = "abind (execute_write env statement) (\<lambda>outcome.
     if outcome = Written
     then abind (audit_insert env kind who ''succeeded'' (dets None)) (\<lambda>_. alift (Ok (Written, True)))
     else alift (Ok (outcome, False)))"
  obtain t v where t: "admin_transaction env ?body w = (t, v)" by fastforce
  show ?thesis
  proof (cases t)
    case (Inl f)
    with t assms have "r = Inl f" "w' = v"
      by (auto simp: versioned_write_def abind_def)
    with admin_transaction_Inl [of env ?body w f v] t Inl show ?thesis by simp
  next
    case (Inr outcome)
    with t admin_transaction_Inr [of env ?body w outcome v] obtain w1 w2 commit
      where w1: "aw_db w1 = aw_db w" and body: "?body w1 = (Inr (outcome, commit), w2)"
        and v: "aw_db v = (if commit then aw_db w2 else aw_db w)"
      by auto
    from t Inr assms have rest: "(case outcome of
            Written \<Rightarrow> alift (Ok ())
          | WriteFailed \<Rightarrow> admin_failed env kind who (dets (Some ''INTERNAL_ERROR''))
          | WriteMissed \<Rightarrow> admin_rejected env kind who (dets (Some ''VERSION_CONFLICT'')) AdminVersionConflict) v = (r, w')"
      by (simp add: versioned_write_def abind_def)
    show ?thesis
    proof (cases outcome)
      case Written
      with body obtain x where "execute_write env statement w1 = (Inr Written, x)" "commit"
        and ins: "audit_insert env kind who ''succeeded'' (dets None) x = (Inr (), w2)"
        by (auto simp: admin_simps split: if_splits)
      with execute_write_Written [OF this(1)] audit_insert_Inr [OF ins] w1 v rest Written
      show ?thesis by (auto simp: alift_def)
    next
      case WriteFailed
      with body have "\<not> commit" by (auto simp: admin_simps split: if_splits)
      with v rest WriteFailed admin_failed_effect [of env kind who _ v r w'] show ?thesis by auto
    next
      case WriteMissed
      with body have "\<not> commit" by (auto simp: admin_simps split: if_splits)
      with v rest WriteMissed admin_rejected_effect [of env kind who _ _ v r w'] show ?thesis by auto
    qed
  qed
qed

section \<open>The invariant\<close>

definition events_ok :: "admin_db \<Rightarrow> bool" where
  "events_ok d \<longleftrightarrow> sorted_wrt (<) (map adm_sequence (admin_event_table d))
     \<and> list_all (\<lambda>e. adm_sequence e \<le> admin_last_sequence d) (admin_event_table d)"

text \<open>The published adapters are those built from the stored configurations.\<close>

definition published_ok :: "(ustring \<Rightarrow> url option) \<Rightarrow> admin_db \<Rightarrow> adapter_registry \<Rightarrow> bool" where
  "published_ok parse_url d registry \<longleftrightarrow>
     (\<exists>out configs. configs_of (adapter_table d) = Inr configs
        \<and> build_snapshot out parse_url configs = Inr registry)"

definition admin_ok :: "admin_env \<Rightarrow> admin_world \<Rightarrow> bool" where
  "admin_ok env w \<longleftrightarrow> settings_ok (setting_table (aw_db w)) \<and> events_ok (aw_db w)
     \<and> published_ok (ae_parse_url env) (aw_db w) (aw_published w)"

definition admin_extends :: "admin_db \<Rightarrow> admin_db \<Rightarrow> bool" where
  "admin_extends d d' \<longleftrightarrow> prefix (admin_event_table d) (admin_event_table d')"

lemma published_registry_ok:
  "published_ok parse_url d registry \<Longrightarrow> registry_ok registry"
  by (auto simp: published_ok_def configs_of_def res_simps split: if_splits intro: build_snapshot_ok)

text \<open>Logging keeps every table but the events.\<close>

lemma logged_tables:
  assumes "logged kind who outcome dets d d'"
  shows "setting_table d' = setting_table d" "adapter_table d' = adapter_table d" "admin_extends d d'"
    "events_ok d \<Longrightarrow> events_ok d'"
    "\<exists>e. admin_event_table d' = admin_event_table d @ [e] \<and> adm_event_type e = kind \<and> adm_outcome e = outcome
       \<and> adm_actor_id e = aa_actor_id who \<and> adm_details e = dets"
  using assms
  by (auto simp: logged_def insert_event_def admin_event_of_def admin_extends_def events_ok_def sorted_wrt_append
      list_all_iff) (drule bspec, assumption, simp)+

lemma admin_extends_refl [simp]: "admin_extends d d"
  by (simp add: admin_extends_def)

lemma admin_extends_trans: "admin_extends d1 d2 \<Longrightarrow> admin_extends d2 d3 \<Longrightarrow> admin_extends d1 d3"
  by (auto simp: admin_extends_def)

lemma setting_statement_tables:
  "setting_statement key v expected at who d = Some (d', n) \<Longrightarrow>
     adapter_table d' = adapter_table d \<and> admin_event_table d' = admin_event_table d
     \<and> admin_last_sequence d' = admin_last_sequence d
     \<and> write_setting key v expected at who (setting_table d) = Some (setting_table d', n)"
  by (auto simp: setting_statement_def)

lemma adapter_statement_tables:
  "adapter_statement name enabled configuration expected at who d = Some (d', n) \<Longrightarrow>
     setting_table d' = setting_table d \<and> admin_event_table d' = admin_event_table d
     \<and> admin_last_sequence d' = admin_last_sequence d
     \<and> write_adapter name enabled configuration expected at who (adapter_table d) = Some (adapter_table d', n)"
  by (auto simp: adapter_statement_def)

lemma settings_list_Inr:
  "settings_list env w = (Inr settings, w') \<Longrightarrow>
     aw_db w' = aw_db w \<and> aw_published w' = aw_published w
     \<and> collect_map runtime_setting_of (sort_key st_key (setting_table (aw_db w))) = Inr settings"
  by (auto simp: settings_list_def admin_simps admin_call_def split: if_splits)

lemma settings_list_Inl: "settings_list env w = (Inl e, w') \<Longrightarrow> aw_db w' = aw_db w \<and> aw_published w' = aw_published w"
  by (auto simp: settings_list_def admin_simps admin_call_def split: if_splits)

lemma adapters_list_Inr:
  "adapters_list env w = (Inr configs, w') \<Longrightarrow>
     aw_db w' = aw_db w \<and> aw_published w' = aw_published w \<and> configs_of (adapter_table (aw_db w)) = Inr configs"
  by (auto simp: adapters_list_def admin_simps admin_call_def split: if_splits)

lemma adapters_list_Inl: "adapters_list env w = (Inl e, w') \<Longrightarrow> aw_db w' = aw_db w \<and> aw_published w' = aw_published w"
  by (auto simp: adapters_list_def admin_simps admin_call_def split: if_splits)

section \<open>Updating a setting\<close>

text \<open>A refusal or a failure logs at most one event and changes nothing else.\<close>

definition refused :: "string \<Rightarrow> admin_actor \<Rightarrow> admin_db \<Rightarrow> admin_db \<Rightarrow> bool" where
  "refused kind who d d' \<longleftrightarrow>
     (\<exists>outcome dets. outcome \<in> {''rejected'', ''failed''} \<and> logged kind who outcome dets d d') \<or> d' = d"

lemma refusedI [intro]:
  "logged kind who ''rejected'' dets d d' \<Longrightarrow> refused kind who d d'"
  "logged kind who ''failed'' dets d d' \<Longrightarrow> refused kind who d d'"
  "refused kind who d d"
  by (auto simp: refused_def)

lemma refused_tables:
  assumes "refused kind who d d'"
  shows "setting_table d' = setting_table d" "adapter_table d' = adapter_table d" "admin_extends d d'"
    "events_ok d \<Longrightarrow> events_ok d'"
  using assms by (auto simp: refused_def dest: logged_tables)

lemma abindE:
  assumes "abind m f w = (r, w')"
  obtains e where "m w = (Inl e, w')" "r = Inl e"
  | x w1 where "m w = (Inr x, w1)" "f x w1 = (r, w')"
  using assms by (auto simp: abind_def split: prod.splits sum.splits)

lemma admin_now_eq: "admin_now env w = (r, w') \<Longrightarrow> aw_db w' = aw_db w \<and> aw_published w' = aw_published w"
  by (auto simp: admin_now_def)

lemma rejected_refused:
  "admin_rejected env kind who dets e w = (r, w') \<Longrightarrow> (\<exists>f. r = Inl f) \<and> refused kind who (aw_db w) (aw_db w')"
  by (drule admin_rejected_effect) auto

lemma abind_alift_Ok [simp]: "abind (alift (Ok x)) F = F x"
  by (simp add: abind_def alift_def)

lemma abind_alift_cases:
  assumes "abind (alift x) F w = (r, w')"
  obtains f where "r = Inl f" "w' = w"
  | y where "x = Inr y" "F y w = (r, w')"
  using assms by (auto simp: alift_def elim!: abindE)

lemma now_stamp_cases:
  assumes "abind (admin_now env) (\<lambda>now. abind (alift (admin_stamp now)) F) w = (r, w')"
  obtains f where "r = Inl f" "aw_db w' = aw_db w" "aw_published w' = aw_published w"
  | at w1 where "aw_db w1 = aw_db w" "aw_published w1 = aw_published w" "F at w1 = (r, w')"
  using assms by (auto elim!: abindE simp: alift_def dest!: admin_now_eq)

text \<open>What a committed update of a setting did.\<close>

definition setting_committed ::
  "ustring \<Rightarrow> int \<Rightarrow> int \<Rightarrow> admin_actor \<Rightarrow> runtime_setting \<Rightarrow> runtime_setting list \<Rightarrow> admin_db \<Rightarrow> admin_db \<Rightarrow> bool" where
  "setting_committed key v expected who updated settings d d' \<longleftrightarrow>
     (\<exists>at d1. setting_updated settings key v (aa_actor_id who) at = Inr updated
        \<and> setting_statement key v expected at (aa_actor_id who) d = Some (d1, 1)
        \<and> logged ''runtime_setting_updated'' who ''succeeded'' (setting_details key True None) d1 d')"

lemma commit_setting_effect:
  assumes "commit_setting env key v expected who settings w = (r, w')"
  shows "(\<exists>updated. r = Ok updated \<and> setting_committed key v expected who updated settings (aw_db w) (aw_db w'))
     \<or> ((\<exists>f. r = Inl f) \<and> refused ''runtime_setting_updated'' who (aw_db w) (aw_db w'))"
proof -
  let ?kind = "''runtime_setting_updated''"
  let ?stmt = "\<lambda>at. versioned_write env ?kind who (setting_details key True)
      (setting_statement key v expected at (aa_actor_id who))"
  show ?thesis
    using assms unfolding commit_setting_def
  proof (rule now_stamp_cases)
    fix at w1
    assume w1: "aw_db w1 = aw_db w" and "abind (alift (setting_updated settings key v (aa_actor_id who) at))
        (\<lambda>updated. abind (?stmt at) (\<lambda>_. alift (Ok updated))) w1 = (r, w')"
    from this(2) show ?thesis
    proof (rule abind_alift_cases)
      fix updated
      assume u: "setting_updated settings key v (aa_actor_id who) at = Inr updated"
        and "abind (?stmt at) (\<lambda>_. alift (Ok updated)) w1 = (r, w')"
      from this(2) show ?thesis
      proof (rule abindE)
        fix x w2
        assume wr: "?stmt at w1 = (Inr x, w2)" and "alift (Ok updated) w2 = (r, w')"
        then have fin: "r = Ok updated" "w' = w2" by (simp_all add: alift_def)
        from versioned_write_effect [OF wr] w1 obtain d
          where "setting_statement key v expected at (aa_actor_id who) (aw_db w) = Some (d, 1)"
            and "logged ?kind who ''succeeded'' (setting_details key True None) d (aw_db w2)"
          by auto
        with u have "setting_committed key v expected who updated settings (aw_db w) (aw_db w2)"
          unfolding setting_committed_def by blast
        with fin show ?thesis by blast
      next
        fix f
        assume "?stmt at w1 = (Inl f, w')" and "r = Inl f"
        with versioned_write_effect [OF this(1)] w1 show ?thesis by auto
      qed
    qed (auto simp: w1)
  qed auto
qed

lemma apply_setting_effect:
  assumes "apply_setting env key v expected who settings w = (r, w')"
  shows "(\<exists>updated s. r = Ok updated \<and> validate_candidate settings key v = Inr ()
            \<and> find (\<lambda>s. rt_key s = key) settings = Some s \<and> rt_version s = expected
            \<and> setting_committed key v expected who updated settings (aw_db w) (aw_db w'))
     \<or> ((\<exists>f. r = Inl f) \<and> refused ''runtime_setting_updated'' who (aw_db w) (aw_db w'))"
proof (cases "validate_candidate settings key v")
  case (Inl f)
  then show ?thesis
    using assms by (cases f) (auto simp: apply_setting_def alift_def dest: rejected_refused)
next
  case (Inr u)
  with assms show ?thesis
    by (cases "find (\<lambda>s. rt_key s = key) settings")
      (auto simp: apply_setting_def abind_def alift_def split: if_splits
        dest: rejected_refused commit_setting_effect)
qed

lemma update_runtime_setting_effect:
  assumes "update_runtime_setting env key v expected who w = (r, w')"
  shows "(\<exists>updated settings s. r = Ok updated
            \<and> collect_map runtime_setting_of (sort_key st_key (setting_table (aw_db w))) = Inr settings
            \<and> validate_candidate settings key v = Inr ()
            \<and> find (\<lambda>s. rt_key s = key) settings = Some s \<and> rt_version s = expected
            \<and> setting_committed key v expected who updated settings (aw_db w) (aw_db w'))
     \<or> ((\<exists>f. r = Inl f) \<and> refused ''runtime_setting_updated'' who (aw_db w) (aw_db w'))"
proof (cases "\<not> setting_is_known key \<or> expected < 1")
  case True
  with assms show ?thesis
    by (auto simp: update_runtime_setting_def Let_def dest: rejected_refused)
next
  case False
  with assms have "abind (settings_list env) (apply_setting env key v expected who) w = (r, w')"
    by (auto simp: update_runtime_setting_def Let_def)
  then show ?thesis
  proof (rule abindE)
    fix e assume "settings_list env w = (Inl e, w')" "r = Inl e"
    then show ?thesis by (auto dest!: settings_list_Inl)
  next
    fix settings w1 assume l: "settings_list env w = (Inr settings, w1)"
      and a: "apply_setting env key v expected who settings w1 = (r, w')"
    from settings_list_Inr [OF l] apply_setting_effect [OF a] show ?thesis by auto
  qed
qed

section \<open>Updating an adapter\<close>

definition adapter_committed ::
  "ustring \<Rightarrow> bool \<Rightarrow> int \<Rightarrow> admin_actor \<Rightarrow> stamp \<Rightarrow> adapter_config_view \<Rightarrow> admin_db \<Rightarrow> admin_db \<Rightarrow> bool" where
  "adapter_committed name enabled expected who at updated d d' \<longleftrightarrow>
     (\<exists>d1. adapter_statement name enabled (cv_configuration updated) expected at (aa_actor_id who) d = Some (d1, 1)
        \<and> logged ''adapter_config_updated'' who ''succeeded'' (adapter_details name True None) d1 d')"

lemma rejected_published:
  "admin_rejected env kind who dets e w = (r, w') \<Longrightarrow> aw_published w' = aw_published w"
  by (rule keeps_publishedD [OF keeps_published_refusals(1)])

lemma apply_adapter_effect:
  assumes "apply_adapter env name enabled expected who at current candidate w = (r, w')"
  shows "(\<exists>updated snapshot c. r = Ok updated \<and> candidate = Inr (updated, snapshot)
            \<and> find (\<lambda>c. cv_name c = name) current = Some c \<and> cv_version c = expected
            \<and> adapter_committed name enabled expected who at updated (aw_db w) (aw_db w')
            \<and> aw_published w' = snapshot)
     \<or> ((\<exists>f. r = Inl f) \<and> refused ''adapter_config_updated'' who (aw_db w) (aw_db w')
          \<and> aw_published w' = aw_published w)"
proof (cases candidate)
  case (Inl f)
  then show ?thesis
    using assms by (cases f) (auto simp: apply_adapter_def alift_def dest: rejected_refused rejected_published)
next
  case (Inr p)
  obtain updated snapshot where p: "p = (updated, snapshot)" by fastforce
  let ?stmt = "versioned_write env ''adapter_config_updated'' who (adapter_details name True)
      (adapter_statement name enabled (cv_configuration updated) expected at (aa_actor_id who))"
  show ?thesis
  proof (cases "find (\<lambda>c. cv_name c = name) current")
    case None
    with Inr p assms show ?thesis by (auto simp: apply_adapter_def abind_def alift_def)
  next
    case (Some c)
    show ?thesis
    proof (cases "cv_version c = expected")
      case False
      with Inr p Some assms show ?thesis
        by (auto simp: apply_adapter_def dest: rejected_refused rejected_published)
    next
      case True
      with Inr p Some assms have "abind ?stmt (\<lambda>_. abind (publish snapshot) (\<lambda>_. alift (Ok updated))) w = (r, w')"
        by (simp add: apply_adapter_def)
      then show ?thesis
      proof (rule abindE)
        fix x w2
        assume wr: "?stmt w = (Inr x, w2)"
          and "abind (publish snapshot) (\<lambda>_. alift (Ok updated)) w2 = (r, w')"
        then have fin: "r = Ok updated" "aw_db w' = aw_db w2" "aw_published w' = snapshot"
          by (auto simp: publish_def abind_def alift_def)
        from versioned_write_effect [OF wr] have "adapter_committed name enabled expected who at updated (aw_db w) (aw_db w2)"
          by (auto simp: adapter_committed_def)
        with fin Inr p Some True show ?thesis by auto
      next
        fix f
        assume wr: "?stmt w = (Inl f, w')" and "r = Inl f"
        with versioned_write_effect [OF wr] keeps_publishedD [OF keeps_published_write wr] show ?thesis by auto
      qed
    qed
  qed
qed

lemma update_adapter_effect:
  assumes "update_adapter env name enabled configuration expected who w = (r, w')"
  shows "(\<exists>updated snapshot current out at c. r = Ok updated
            \<and> configs_of (adapter_table (aw_db w)) = Inr current
            \<and> adapter_candidate out (ae_parse_url env) current name enabled configuration (aa_actor_id who) at
                = Inr (updated, snapshot)
            \<and> find (\<lambda>c. cv_name c = name) current = Some c \<and> cv_version c = expected
            \<and> adapter_committed name enabled expected who at updated (aw_db w) (aw_db w')
            \<and> aw_published w' = snapshot)
     \<or> ((\<exists>f. r = Inl f) \<and> refused ''adapter_config_updated'' who (aw_db w) (aw_db w')
          \<and> aw_published w' = aw_published w)"
proof (cases "\<not> adapter_is_known name \<or> expected < 1")
  case True
  with assms show ?thesis
    by (auto simp: update_adapter_def Let_def dest: rejected_refused rejected_published)
next
  case False
  let ?apply = "\<lambda>current at. abind (candidate_now env current name enabled configuration (aa_actor_id who) at)
      (\<lambda>candidate. apply_adapter env name enabled expected who at current candidate)"
  from False assms have "abind (adapters_list env) (\<lambda>current. abind (admin_now env) (\<lambda>now.
      abind (alift (admin_stamp now)) (?apply current))) w = (r, w')"
    by (auto simp: update_adapter_def Let_def)
  then show ?thesis
  proof (rule abindE)
    fix e assume "adapters_list env w = (Inl e, w')" "r = Inl e"
    then show ?thesis by (auto dest!: adapters_list_Inl)
  next
    fix current w1
    assume l: "adapters_list env w = (Inr current, w1)"
      and "abind (admin_now env) (\<lambda>now. abind (alift (admin_stamp now)) (?apply current)) w1 = (r, w')"
    note w1 = adapters_list_Inr [OF l]
    from \<open>abind (admin_now env) _ w1 = (r, w')\<close> show ?thesis
    proof (rule now_stamp_cases)
      fix f assume "r = Inl f" "aw_db w' = aw_db w1" "aw_published w' = aw_published w1"
      with w1 show ?thesis by auto
    next
      fix at w2
      assume w2: "aw_db w2 = aw_db w1" "aw_published w2 = aw_published w1" and "?apply current at w2 = (r, w')"
      then have "apply_adapter env name enabled expected who at current
          (adapter_candidate (ae_outside env (aw_clock w2)) (ae_parse_url env) current name enabled configuration
             (aa_actor_id who) at) w2 = (r, w')"
        by (simp add: candidate_now_def abind_def)
      from apply_adapter_effect [OF this] w1 w2 show ?thesis by auto
    qed
  qed
qed

section \<open>The snapshot follows the stored configurations\<close>

lemma sort_key_map_same:
  assumes "\<And>x. f (g x) = f x"
  shows "sort_key f (map g xs) = map g (sort_key f xs)"
proof (induction xs)
  case (Cons x xs)
  have "insort_key f (g x) (map g ys) = map g (insort_key f x ys)" for ys
    using assms by (induction ys) auto
  with Cons show ?case by simp
qed simp

lemma update_first_distinct:
  "distinct (map k xs) \<Longrightarrow> update_first (\<lambda>x. k x = key) f xs = Some (y, ys) \<Longrightarrow>
     ys = map (\<lambda>x. if k x = key then f x else x) xs"
proof (induction xs arbitrary: ys)
  case (Cons x xs)
  show ?case
  proof (cases "k x = key")
    case True
    with Cons.prems have "key \<notin> k ` set xs" by auto
    then have "map (\<lambda>x. if k x = key then f x else x) xs = xs"
      by (intro map_idI) auto
    with True Cons.prems show ?thesis by auto
  next
    case False
    with Cons show ?thesis by auto
  qed
qed simp

lemma config_view_fields:
  "config_view_of row = Inr c \<Longrightarrow> cv_name c = ar_name row \<and> cv_version c = ar_version row"
  by (auto simp: config_view_of_def res_simps)

text \<open>Reading the rows after the write gives the configurations of the candidate.\<close>

lemma adapter_write_configs:
  assumes current: "configs_of rows = Inr current"
    and updated: "update_first (\<lambda>c. cv_name c = name)
          (\<lambda>c. c\<lparr>cv_enabled := enabled, cv_configuration := configuration,
                 cv_version := cv_version c + 1, cv_updated_at := at, cv_updated_by := who\<rparr>) current
        = Some (new, configs)"
    and selected: "find (\<lambda>c. cv_name c = name) current = Some c" "cv_version c = expected"
    and matches: "name = configuration_name configuration"
    and written: "write_adapter name enabled configuration expected at who rows = Some (rows', n)"
  shows "configs_of rows' = Inr configs"
proof -
  define change where "change r = (if ar_name r = name \<and> ar_version r = expected
      then r\<lparr>ar_enabled := (if enabled then 1 else 0), ar_config := Encoded configuration,
             ar_version := ar_version r + 1, ar_updated_at := at, ar_updated_by := who\<rparr>
      else r)" for r :: adapter_row
  define view where "view c = (if cv_name c = name
      then c\<lparr>cv_enabled := enabled, cv_configuration := configuration, cv_version := cv_version c + 1,
             cv_updated_at := at, cv_updated_by := who\<rparr> else c)" for c :: adapter_config_view
  have rows': "rows' = map change rows"
    using written by (auto simp: write_adapter_def Let_def change_def [abs_def] split: if_splits)
  have names: "map cv_name current = adapter_names"
    and views: "list_all2 (\<lambda>r c. config_view_of r = Inr c) (sort_key ar_name rows) current"
    using current by (auto simp: configs_of_def res_simps collect_map_eq_Inr split: if_splits)
  have distinct: "distinct (map cv_name current)"
    using names adapter_names_sorted by simp
  have configs: "configs = map view current"
    using update_first_distinct [OF distinct updated] by (simp add: view_def [abs_def])
  have each: "config_view_of (change r) = Inr (view q)"
    if "config_view_of r = Inr q" "q \<in> set current" for r q
  proof (cases "cv_name q = name")
    case True
    with selected(1) distinct that(2) have "q = c"
      by (auto dest!: find_key_SomeD simp: distinct_map inj_on_def)
    with True selected(2) config_view_fields [OF that(1)] have "ar_name r = name" "ar_version r = expected"
      by auto
    with that(1) True matches show ?thesis
      by (auto simp: change_def view_def config_view_of_def decode_config_def validate_name_matches_def res_simps)
  next
    case False
    with config_view_fields [OF that(1)] that(1) show ?thesis by (simp add: change_def view_def)
  qed
  have "list_all2 (\<lambda>r c. config_view_of r = Inr c) (map change (sort_key ar_name rows)) (map view current)"
    using views each by (auto simp: list_all2_conv_all_nth)
  moreover have "sort_key ar_name rows' = map change (sort_key ar_name rows)"
    unfolding rows' by (rule sort_key_map_same) (simp add: change_def)
  moreover have "map cv_name configs = adapter_names"
  proof -
    have "cv_name (view q) = cv_name q" for q by (simp add: view_def)
    then show ?thesis by (simp add: configs comp_def names)
  qed
  ultimately show ?thesis
    by (simp add: configs_of_def collect_map_eq_Inr [THEN iffD2] configs)
qed

section \<open>Preservation\<close>

lemma refused_keeps:
  assumes "admin_ok env w" and "refused kind who (aw_db w) (aw_db w')" and "aw_published w' = aw_published w"
  shows "admin_ok env w' \<and> admin_extends (aw_db w) (aw_db w')"
  using assms refused_tables [OF assms(2)] by (auto simp: admin_ok_def published_ok_def)

lemma setting_step_keeps:
  assumes ok: "admin_ok env w" and "is_i64 v"
    and step: "update_runtime_setting env key v expected who w = (r, w')"
    and pub: "aw_published w' = aw_published w"
  shows "admin_ok env w' \<and> admin_extends (aw_db w) (aw_db w')"
  using update_runtime_setting_effect [OF step]
proof (elim disjE exE conjE)
  fix updated settings s
  assume listed: "collect_map runtime_setting_of (sort_key st_key (setting_table (aw_db w))) = Inr settings"
    and valid: "validate_candidate settings key v = Inr ()"
    and "setting_committed key v expected who updated settings (aw_db w) (aw_db w')"
  then obtain at d where st: "setting_statement key v expected at (aa_actor_id who) (aw_db w) = Some (d, 1)"
    and lg: "logged ''runtime_setting_updated'' who ''succeeded'' (setting_details key True None) d (aw_db w')"
    by (auto simp: setting_committed_def)
  note tables = setting_statement_tables [OF st]
  from ok have "settings_ok (setting_table (aw_db w))" by (simp add: admin_ok_def)
  from write_setting_ok [OF this listed valid \<open>is_i64 v\<close>, of expected at "aa_actor_id who" "setting_table d" 1] tables
  have "settings_ok (setting_table d)" by simp
  with ok tables logged_tables [OF lg] pub show ?thesis
    by (auto simp: admin_ok_def events_ok_def published_ok_def admin_extends_def)
qed (use refused_keeps [OF ok] pub in blast)

lemma update_runtime_setting_published:
  assumes "update_runtime_setting env key v expected who w = (r, w')"
  shows "aw_published w' = aw_published w"
proof -
  have "keeps_published (apply_setting env key v expected who settings)" for settings
    unfolding apply_setting_def commit_setting_def
    by (auto split: sum.splits failure.splits intro!: published_intros)
  moreover have "keeps_published (settings_list env)"
    unfolding settings_list_def by (intro published_intros) (simp add: keeps_published_def)
  ultimately have "keeps_published (update_runtime_setting env key v expected who)"
    unfolding update_runtime_setting_def Let_def by (auto intro!: published_intros)
  from keeps_publishedD [OF this assms] show ?thesis .
qed

lemma adapter_step_keeps:
  assumes ok: "admin_ok env w"
    and step: "update_adapter env name enabled configuration expected who w = (r, w')"
  shows "admin_ok env w' \<and> admin_extends (aw_db w) (aw_db w')"
  using update_adapter_effect [OF step]
proof (elim disjE exE conjE)
  fix updated snapshot current out at c
  assume current: "configs_of (adapter_table (aw_db w)) = Inr current"
    and candidate: "adapter_candidate out (ae_parse_url env) current name enabled configuration (aa_actor_id who) at
                = Inr (updated, snapshot)"
    and selected: "find (\<lambda>c. cv_name c = name) current = Some c" "cv_version c = expected"
    and committed: "adapter_committed name enabled expected who at updated (aw_db w) (aw_db w')"
    and pub: "aw_published w' = snapshot"
  from candidate obtain configs where
    u: "update_first (\<lambda>c. cv_name c = name)
          (\<lambda>c. c\<lparr>cv_enabled := enabled, cv_configuration := configuration,
                 cv_version := cv_version c + 1, cv_updated_at := at, cv_updated_by := aa_actor_id who\<rparr>) current
        = Some (updated, configs)"
    and b: "build_snapshot out (ae_parse_url env) configs = Inr snapshot"
    and matches: "name = configuration_name configuration"
    by (auto simp: adapter_candidate_def validate_name_matches_def res_simps split: if_splits prod.splits)
  have new: "cv_configuration updated = configuration"
    using update_first_Some [OF u] by auto
  from committed obtain d where
    st: "adapter_statement name enabled configuration expected at (aa_actor_id who) (aw_db w) = Some (d, 1)"
    and lg: "logged ''adapter_config_updated'' who ''succeeded'' (adapter_details name True None) d (aw_db w')"
    by (auto simp: adapter_committed_def new)
  note tables = adapter_statement_tables [OF st]
  have "configs_of (adapter_table d) = Inr configs"
    using adapter_write_configs [OF current u selected matches] tables by blast
  with b have "published_ok (ae_parse_url env) (aw_db w') (aw_published w')"
    using logged_tables(2) [OF lg] pub by (auto simp: published_ok_def)
  with ok tables logged_tables [OF lg] show ?thesis
    by (auto simp: admin_ok_def events_ok_def admin_extends_def)
qed (use refused_keeps [OF ok] in blast)

lemma audit_step_keeps:
  assumes ok: "admin_ok env w" and step: "audit_workload_action env component action who code w = (r, w')"
  shows "admin_ok env w' \<and> admin_extends (aw_db w) (aw_db w')"
proof (cases r)
  case (Inl f)
  with audit_append_Inl step ok show ?thesis
    by (auto simp: audit_workload_action_def admin_ok_def admin_extends_def)
next
  case (Inr u)
  note appended = audit_append_Inr [OF step [unfolded audit_workload_action_def Inr]]
  from logged_tables [OF conjunct1 [OF appended]] appended ok show ?thesis
    by (simp add: admin_ok_def published_ok_def)
qed

lemma admin_step_keeps:
  assumes "admin_ok env w"
  shows "admin_ok env (admin_step env q w) \<and> admin_extends (aw_db w) (aw_db (admin_step env q w))"
proof (cases q)
  case (UpdateSetting key v expected who)
  with assms setting_step_keeps [OF assms, of v key expected who] show ?thesis
    by (cases "update_runtime_setting env key v expected who w")
      (auto dest: update_runtime_setting_published)
next
  case (UpdateAdapter name enabled configuration expected who)
  with adapter_step_keeps [OF assms] show ?thesis
    by (cases "update_adapter env name enabled configuration expected who w") auto
next
  case (AuditWorkload component action who code)
  with audit_step_keeps [OF assms] show ?thesis
    by (cases "audit_workload_action env component action who code w") auto
qed

lemma run_admin_keeps:
  "admin_ok env w \<Longrightarrow> admin_ok env (run_admin env requests w)
     \<and> admin_extends (aw_db w) (aw_db (run_admin env requests w))"
proof (induction requests arbitrary: w)
  case (Cons q requests)
  from admin_step_keeps [OF Cons.prems] Cons.IH [of "admin_step env q w"] show ?case
    by (auto simp: run_admin_def intro: admin_extends_trans)
qed (simp add: run_admin_def)

section \<open>The scheduler's configuration\<close>

text \<open>\<open>runtime_setting\<close> and the configuration built from it in \<open>src/main.rs\<close>; an error stops the process.\<close>

definition startup_setting :: "runtime_setting list \<Rightarrow> ustring \<Rightarrow> nat option" where
  "startup_setting settings key =
     (case find (\<lambda>s. rt_key s = key) settings of
        None \<Rightarrow> None
      | Some s \<Rightarrow> if 0 \<le> rt_value s then Some (nat (rt_value s)) else None)"

definition startup_config :: "runtime_setting list \<Rightarrow> scheduler_config option" where
  "startup_config settings =
     (case (startup_setting settings poll_key, startup_setting settings lease_key,
            startup_setting settings timeout_key, startup_setting settings concurrency_key) of
        (Some poll, Some lease, Some timeout, Some concurrency) \<Rightarrow>
          Some \<lparr>sf_poll_interval = from_secs poll, sf_lease_duration = from_secs lease,
                sf_adapter_timeout = from_secs timeout, sf_adapter_concurrency = concurrency,
                sf_candidate_batch_size = 200\<rparr>
      | _ \<Rightarrow> None)"

lemma listed_setting:
  assumes ok: "settings_ok rows"
    and listed: "collect_map runtime_setting_of (sort_key st_key rows) = Inr settings"
    and d: "setting_definition_of key = Some d" and minimum: "0 \<le> sd_minimum d"
  obtains v where "startup_setting settings key = Some (nat v)" "setting_value rows key = Some v"
    "sd_minimum d \<le> v" "v \<le> i64_max"
proof -
  from settings_ok_value [OF ok d] obtain r v where r: "r \<in> set rows" "st_key r = key"
      "json_as_i64 (st_value r) = Some v" "setting_value rows key = Some v" "sd_minimum d \<le> v"
    by metis
  have "\<exists>s. find (\<lambda>s. rt_key s = key) settings = Some s"
  proof (rule ccontr)
    assume "\<not> ?thesis"
    then have "key \<notin> rt_key ` set settings" by (simp add: find_key_None)
    then have "setting_values settings key = None"
      by (force simp: setting_values_def map_of_eq_None_iff)
    with settings_list_ok(1) [OF ok listed, of key] r(4) show False by simp
  qed
  then obtain s where s: "find (\<lambda>s. rt_key s = key) settings = Some s" by blast
  from settings_list_ok(3) [OF ok listed this] obtain q where "q \<in> set rows" "st_key q = key"
    "runtime_setting_of q = Inr s" by blast
  with settings_ok_row [OF ok, of q] r(4) have "rt_value s = v" by auto
  with s r(5) minimum have "startup_setting settings key = Some (nat v)"
    by (simp add: startup_setting_def)
  moreover have "v \<le> i64_max" using r(3) by (cases "st_value r") (auto split: if_splits)
  ultimately show thesis using r(4,5) by (intro that)
qed

lemma startup_config_ok:
  assumes ok: "settings_ok rows"
    and listed: "collect_map runtime_setting_of (sort_key st_key rows) = Inr settings"
  obtains c where "startup_config settings = Some c" "validate_config c = Ok ()"
    "sf_lease_duration c \<le> from_secs (nat i64_max)"
proof -
  from listed_setting [OF ok listed key_definitions(1)] obtain poll where
    poll: "startup_setting settings poll_key = Some (nat poll)" "setting_value rows poll_key = Some poll" "1 \<le> poll"
    by auto
  from listed_setting [OF ok listed key_definitions(2)] obtain lease where
    lease: "startup_setting settings lease_key = Some (nat lease)" "setting_value rows lease_key = Some lease"
      "lease \<le> i64_max"
    by auto
  from listed_setting [OF ok listed key_definitions(3)] obtain concurrency where
    concurrency: "startup_setting settings concurrency_key = Some (nat concurrency)" "1 \<le> concurrency"
    by auto
  from listed_setting [OF ok listed key_definitions(4)] obtain timeout where
    timeout: "startup_setting settings timeout_key = Some (nat timeout)" "1 \<le> timeout"
    by auto
  have "lease > i64_saturating_mul poll 2"
    using ok poll lease by (simp add: settings_ok_def)
  with lease(3) poll(3) have more: "lease > poll * 2"
    by (auto simp: i64_saturating_mul_def i64_max_def)
  then have "nat poll * 2 < nat lease" using poll(3) by simp
  then have "from_secs (nat poll) * 2 < from_secs (nat lease)" by (simp add: from_secs_def)
  then have "std_saturating_mul (from_secs (nat poll)) 2 < from_secs (nat lease)"
    by (simp add: std_saturating_mul_def min_def)
  moreover have "from_secs (nat poll) \<noteq> 0" "from_secs (nat timeout) \<noteq> 0" "nat concurrency \<noteq> 0"
    using poll(3) timeout(2) concurrency(2) by (simp_all add: from_secs_def)
  moreover have "from_secs (nat lease) \<le> from_secs (nat i64_max)"
    using lease(3) by (simp add: from_secs_def nat_mono)
  ultimately show thesis
    by (intro that [of "\<lparr>sf_poll_interval = from_secs (nat poll), sf_lease_duration = from_secs (nat lease),
                sf_adapter_timeout = from_secs (nat timeout), sf_adapter_concurrency = nat concurrency,
                sf_candidate_batch_size = 200\<rparr>"])
      (auto simp: startup_config_def poll(1) lease(1) concurrency(1) timeout(1) validate_config_def)
qed

section \<open>Loading succeeds\<close>

lemma settings_listed:
  assumes "settings_ok rows"
  obtains settings where "collect_map runtime_setting_of (sort_key st_key rows) = Inr settings"
proof -
  define read where "read r = projr (runtime_setting_of r)" for r
  have "runtime_setting_of r = Inr (read r)" if "r \<in> set (sort_key st_key rows)" for r
    using settings_ok_row [OF assms, of r] that by (auto simp: read_def)
  from collect_map_Ok [OF this] show thesis by (rule that)
qed

lemma own_values_valid:
  assumes ok: "settings_ok rows"
    and listed: "collect_map runtime_setting_of (sort_key st_key rows) = Inr settings"
    and s: "s \<in> set settings"
  shows "validate_candidate settings (rt_key s) (rt_value s) = Ok ()"
proof -
  from collect_map_set [OF listed s] obtain r where r: "r \<in> set rows" "runtime_setting_of r = Inr s" by auto
  with settings_ok_row [OF ok r(1)] have key: "st_key r = rt_key s"
    and v: "setting_value rows (rt_key s) = Some (rt_value s)" by auto
  from r(2) key obtain d where d: "setting_definition_of (rt_key s) = Some d"
    by (auto simp: runtime_setting_of_def res_simps)
  from settings_ok_value [OF ok d] v have minimum: "sd_minimum d \<le> rt_value s" by auto
  have same: "(setting_values settings)(rt_key s \<mapsto> rt_value s) = setting_value rows"
    using settings_list_ok(1) [OF ok listed] v by (auto simp: fun_eq_iff)
  from listed_setting [OF ok listed key_definitions(1)] listed_setting [OF ok listed key_definitions(2)]
    listed_setting [OF ok listed key_definitions(3)] obtain poll lease concurrency
    where "setting_value rows poll_key = Some poll" "setting_value rows lease_key = Some lease"
      "setting_value rows concurrency_key = Some concurrency" "1 \<le> concurrency"
    by (metis setting_definition.select_convs(2) zero_le_one)
  with ok d minimum same show ?thesis
    by (auto simp: validate_candidate_def Let_def settings_ok_def)
qed

lemma admin_load_succeeds:
  assumes ok: "settings_ok (setting_table (aw_db w))"
    and configs: "configs_of (adapter_table (aw_db w)) = Inr configs"
    and built: "build_snapshot (ae_outside env (aw_clock w)) (ae_parse_url env) configs = Inr registry"
    and calls: "\<And>n. \<not> ae_fails env n"
  shows "admin_load env w = (Ok (), w\<lparr>aw_published := registry, aw_calls := aw_calls w + 4\<rparr>)"
proof -
  let ?rows = "setting_table (aw_db w)"
  from settings_listed [OF ok] obtain settings where
    listed: "collect_map runtime_setting_of (sort_key st_key ?rows) = Inr settings" .
  have "length ?rows = 11"
  proof -
    have "distinct (map st_key ?rows)" using ok by (simp add: settings_ok_def)
    from distinct_card [OF this] distinct_card [OF setting_keys_distinct] ok
    have "length ?rows = length setting_definitions" by (simp add: settings_ok_def)
    then show ?thesis by (simp add: setting_definitions_def)
  qed
  with settings_list_ok(2) [OF ok listed] have count: "length settings = 11" by simp
  obtain us where "collect_map (\<lambda>s. validate_candidate settings (rt_key s) (rt_value s)) settings = Inr us"
    using collect_map_Ok [of settings "\<lambda>s. validate_candidate settings (rt_key s) (rt_value s)" "\<lambda>_. ()"]
      own_values_valid [OF ok listed] by auto
  with listed count configs built calls show ?thesis
    by (simp add: admin_load_def settings_list_def adapters_list_def abind_def alift_def admin_call_def
        numeral_eq_Suc)
qed

section \<open>A world to start from\<close>

text \<open>A freshly migrated database: the default settings and four adapters without aliases.\<close>

definition fresh_adapter_row :: "ustring \<Rightarrow> adapter_row" where
  "fresh_adapter_row name = \<lparr>ar_name = name, ar_enabled = 0, ar_config = EmptyObject, ar_version = 1,
     ar_updated_at = 0, ar_updated_by = lit ''system''\<rparr>"

definition fresh_admin_db :: admin_db where
  "fresh_admin_db = \<lparr>setting_table = seed_settings 0 [], adapter_table = map fresh_adapter_row adapter_names,
     admin_event_table = [], admin_last_sequence = 0\<rparr>"

definition demo_admin_env :: admin_env where
  "demo_admin_env = \<lparr>ae_clock = (\<lambda>n. int n), ae_ids = id, ae_fails = (\<lambda>_. False),
     ae_outside = (\<lambda>_. demo_outside), ae_parse_url = (\<lambda>_. None)\<rparr>"

definition fresh_admin_world :: admin_world where
  "fresh_admin_world = \<lparr>aw_db = fresh_admin_db, aw_published = [], aw_clock = 0, aw_ids = 0, aw_calls = 0\<rparr>"

definition fresh_configs :: "adapter_config_view list" where
  "fresh_configs = map (\<lambda>(name, configuration). \<lparr>cv_name = name, cv_enabled = False,
      cv_configuration = configuration, cv_version = 1, cv_updated_at = 0, cv_updated_by = lit ''system''\<rparr>)
     [(lit ''file_exists'', FileExistsAliases [] []), (lit ''http_health'', HttpHealthAliases []),
      (lit ''observation_window_ended'', ObservationWindowEnded), (lit ''tcp_reachable'', TcpReachableAliases [])]"

lemma fresh_configs: "configs_of (adapter_table fresh_admin_db) = Inr fresh_configs"
  by (simp add: configs_of_def fresh_admin_db_def adapter_names_def fresh_adapter_row_def config_view_of_def
      decode_config_def fresh_configs_def)

lemma fresh_snapshot: "build_snapshot out parse_url fresh_configs = Inr registry_disabled"
  by (simp add: build_snapshot_def fresh_configs_def adapter_names_def build_adapter_def validate_name_matches_def
      file_adapter_new_def http_adapter_new_def tcp_adapter_new_def registry_disabled_def)

lemma fresh_admin_ok:
  "settings_ok (setting_table fresh_admin_db)" "events_ok fresh_admin_db"
  "admin_ok demo_admin_env (fresh_admin_world\<lparr>aw_published := registry_disabled\<rparr>)"
  using seed_empty_ok fresh_configs fresh_snapshot
  by (auto simp: admin_ok_def published_ok_def fresh_admin_world_def fresh_admin_db_def events_ok_def)

section \<open>Properties\<close>

text \<open>
  When the rows pass the check of the migrations, the stored adapter configurations can be
  built and no database call fails, loading the administration succeeds and establishes its
  invariant: valid settings, ordered events, and published adapters that are those of the stored
  configurations.
\<close>

theorem administration_loads:
  assumes "distinct (map st_key (setting_table (aw_db w)))"
    and "validate_runtime_settings (setting_table (aw_db w)) = Ok ()"
    and "events_ok (aw_db w)"
    and "configs_of (adapter_table (aw_db w)) = Inr configs"
    and "build_snapshot (ae_outside env (aw_clock w)) (ae_parse_url env) configs = Inr registry"
    and "\<And>n. \<not> ae_fails env n"
  shows "\<exists>w'. admin_load env w = (Ok (), w') \<and> admin_ok env w' \<and> aw_published w' = registry \<and> aw_db w' = aw_db w"
proof -
  have ok: "settings_ok (setting_table (aw_db w))"
    using assms(1,2) by (simp only: validate_runtime_settings_iff)
  note load = admin_load_succeeds [OF ok assms(4,5,6)]
  have "admin_ok env (w\<lparr>aw_published := registry, aw_calls := aw_calls w + 4\<rparr>)"
    using ok assms(3,4,5) by (auto simp: admin_ok_def published_ok_def)
  with load show ?thesis by auto
qed

theorem administration_loads_witness:
  "\<exists>w'. admin_load demo_admin_env fresh_admin_world = (Ok (), w') \<and> admin_ok demo_admin_env w'
     \<and> aw_published w' = registry_disabled \<and> aw_db w' = fresh_admin_db"
proof -
  have db: "aw_db fresh_admin_world = fresh_admin_db" by (simp add: fresh_admin_world_def)
  have "distinct (map st_key (setting_table fresh_admin_db))"
    using fresh_admin_ok(1) by (simp add: settings_ok_def)
  from administration_loads [where w = fresh_admin_world and env = demo_admin_env, unfolded db,
      OF this _ fresh_admin_ok(2) fresh_configs fresh_snapshot]
    validate_runtime_settings_iff [OF this] fresh_admin_ok(1)
  show ?thesis by (simp add: demo_admin_env_def)
qed

text \<open>
  C24: Any sequence of administrative requests, accepted or refused, with any failures of the
  database in between, keeps the settings valid as a set, the published adapters those of the
  stored configurations, and the audit log append-only with increasing sequence numbers.
\<close>

theorem administration_invariant:
  assumes "admin_ok env w"
  shows "admin_ok env (run_admin env requests w)
    \<and> prefix (admin_event_table (aw_db w)) (admin_event_table (aw_db (run_admin env requests w)))"
  using run_admin_keeps [OF assms, of requests] by (simp add: admin_extends_def)

theorem administration_invariant_witness:
  "admin_ok demo_admin_env (run_admin demo_admin_env
     [UpdateSetting poll_key 60 1 \<lparr>aa_actor_id = lit ''owner'', aa_request_id = None\<rparr>,
      AuditWorkload Mcp StopWorkload \<lparr>aa_actor_id = lit ''owner'', aa_request_id = None\<rparr> None]
     (fresh_admin_world\<lparr>aw_published := registry_disabled\<rparr>))"
  using administration_invariant [OF fresh_admin_ok(3)] by (rule conjunct1)


lemma fresh_update:
  "\<exists>r w'. update_runtime_setting demo_admin_env poll_key 40 1 \<lparr>aa_actor_id = lit ''owner'', aa_request_id = None\<rparr>
     (fresh_admin_world\<lparr>aw_published := registry_disabled\<rparr>) = (r, w')"
  by (meson surj_pair)


text \<open>
  C26: Whatever was administered since, an adapter that the scheduler gets from the published
  snapshot is well formed, so that its evaluations touch only what its configuration allows, and
  it is enabled exactly when its stored configuration is.
\<close>

theorem published_adapters_contained:
  assumes "admin_ok env w"
    and "registry_get (aw_published (run_admin env requests w)) name = Some a"
    and "adapter_evaluate out rfc3339 now a er params = Ok (events, res)"
  shows "\<forall>e \<in> set events. adapter_enabled a \<and> adapter_allows out a e"
proof -
  have "registry_ok (aw_published (run_admin env requests w))"
    using run_admin_keeps [OF assms(1), of requests] published_registry_ok by (auto simp: admin_ok_def)
  moreover from assms(2) have "(name, a) \<in> set (aw_published (run_admin env requests w))"
    by (simp add: registry_get_def map_of_SomeD)
  ultimately have "adapter_ok a" by (auto simp: registry_ok_def list_all_iff)
  from this assms(3) show ?thesis by (rule observations_stay_contained)
qed

text \<open>The TCP adapter of the fresh database, configured with one alias and enabled.\<close>

definition tcp_admin_db :: admin_db where
  "tcp_admin_db = fresh_admin_db\<lparr>adapter_table :=
     [fresh_adapter_row (lit ''file_exists''), fresh_adapter_row (lit ''http_health''),
      fresh_adapter_row (lit ''observation_window_ended''),
      (fresh_adapter_row (lit ''tcp_reachable''))\<lparr>ar_enabled := 1,
        ar_config := Encoded (TcpReachableAliases
          [(lit ''db'', \<lparr>tc_host = lit ''db.example'', tc_port = 443, tc_allow_private = False\<rparr>)])\<rparr>]\<rparr>"

definition tcp_registry :: adapter_registry where
  "tcp_registry = take 3 registry_disabled @ [(lit ''tcp_reachable'', TcpReachable demo_tcp)]"

lemma tcp_alias: "valid_alias (lit ''db'')"
  by (simp add: valid_alias_def utf8_len_def utf8_width_def utf8_bytes_def
      utf8_char_def is_ascii_alphanumeric_def is_ascii_alphabetic_def)

lemma tcp_host:
  "tcp_target_new (lit ''db.example'') 443 public_only
     = Ok \<lparr>tt_host = lit ''db.example'', tt_port = 443, tt_policy = public_only\<rparr>"
  by (simp add: tcp_target_new_def trim_eq_Nil is_whitespace_def utf8_len_def utf8_width_def is_control_def)

lemma tcp_admin_ok: "admin_ok demo_admin_env \<lparr>aw_db = tcp_admin_db, aw_published = tcp_registry,
    aw_clock = 0, aw_ids = 0, aw_calls = 0\<rparr>"
proof -
  let ?configs = "take 3 fresh_configs @ [\<lparr>cv_name = lit ''tcp_reachable'', cv_enabled = True,
      cv_configuration = TcpReachableAliases
          [(lit ''db'', \<lparr>tc_host = lit ''db.example'', tc_port = 443, tc_allow_private = False\<rparr>)],
      cv_version = 1, cv_updated_at = 0, cv_updated_by = lit ''system''\<rparr>]"
  have "configs_of (adapter_table tcp_admin_db) = Inr ?configs"
    by (simp add: configs_of_def tcp_admin_db_def adapter_names_def fresh_adapter_row_def config_view_of_def
        decode_config_def validate_name_matches_def fresh_configs_def)
  moreover have "build_snapshot demo_outside (\<lambda>_. None) ?configs = Inr tcp_registry"
    using tcp_alias tcp_host
    by (simp add: build_snapshot_def fresh_configs_def adapter_names_def build_adapter_def validate_name_matches_def
        file_adapter_new_def http_adapter_new_def tcp_adapter_new_def tcp_target_of_def policy_of_def
        tcp_registry_def registry_disabled_def demo_tcp_def)
  ultimately have "published_ok (\<lambda>_. None) tcp_admin_db tcp_registry"
    unfolding published_ok_def by blast
  with fresh_admin_ok show ?thesis
    by (simp add: admin_ok_def demo_admin_env_def tcp_admin_db_def events_ok_def)
qed

lemma tcp_published: "registry_get tcp_registry (lit ''tcp_reachable'') = Some (TcpReachable demo_tcp)"
  by (simp add: registry_get_def tcp_registry_def registry_disabled_def)

theorem published_adapters_contained_witness:
  "\<exists>events res. adapter_evaluate demo_outside (\<lambda>_. None) 0 (TcpReachable demo_tcp) demo_evaluation
       (JObj [(''target'', JStr (lit ''db''))]) = Ok (events, res) \<and> events = [Connected demo_address]
     \<and> adapter_allows demo_outside (TcpReachable demo_tcp) (Connected demo_address)"
  using published_adapters_contained [OF tcp_admin_ok, of "[]" "lit ''tcp_reachable''", OF _ demo_tcp_evaluation(2) [of "\<lambda>_. None"]]
    tcp_published demo_tcp_evaluation(2) [of "\<lambda>_. None"]
  by (simp add: run_admin_def)

text \<open>
  Valid settings always give the scheduler a configuration that it accepts: the process
  started after any history of administration does not fail on its settings.
\<close>

theorem administered_scheduler_starts:
  assumes "admin_ok env w"
    and "runtime = run_admin env requests w"
    and "collect_map runtime_setting_of (sort_key st_key (setting_table (aw_db runtime))) = Ok settings"
    and "trim holder \<noteq> []"
  shows "\<exists>config s. startup_config settings = Some config
     \<and> scheduler_new adapters arrive holder config = Ok s"
proof -
  have ok: "settings_ok (setting_table (aw_db runtime))"
    using run_admin_keeps [OF assms(1), of requests] assms(2) by (simp add: admin_ok_def)
  from startup_config_ok [OF ok assms(3)] obtain c where c: "startup_config settings = Some c"
    "validate_config c = Ok ()" "sf_lease_duration c \<le> from_secs (nat i64_max)" by blast
  then have "duration_try_from (sf_lease_duration c) = Some (int (sf_lease_duration c))"
    by (auto simp: duration_try_from_def from_secs_def ns_per_sec_def i64_max_def)
  moreover have "0 < sf_lease_duration c"
    using c(2) by (auto simp: validate_config_def split: if_splits)
  ultimately show ?thesis
    using c assms(4) by (auto simp: scheduler_new_def lease_new_def)
qed

theorem administered_scheduler_starts_witness:
  "\<exists>settings config s. startup_config settings = Some config
     \<and> scheduler_new (\<lambda>_ _. None) id (lit ''process-1'') config = Ok s"
proof -
  let ?w = "fresh_admin_world\<lparr>aw_published := registry_disabled\<rparr>"
  have "settings_ok (setting_table (aw_db ?w))"
    using fresh_admin_ok by (simp add: admin_ok_def)
  then obtain settings where
    listed: "collect_map runtime_setting_of (sort_key st_key (setting_table (aw_db ?w))) = Inr settings"
    by (rule settings_listed)
  have "trim (lit ''process-1'') \<noteq> []"
    by (simp add: trim_eq_Nil is_whitespace_def)
  from administered_scheduler_starts [OF fresh_admin_ok(3), of ?w "[]", OF _ listed this,
      of "\<lambda>_ _. None" id]
  show ?thesis
    by (auto simp: run_admin_def)
qed

text \<open>
  The settings have no upper bound: a lease of 10^12 seconds is accepted whenever the polling
  interval allows it, and a scheduler configured with it panics when it acquires its lease, because
  no representable instant is that far away.
\<close>

theorem accepted_lease_panics:
  assumes "settings_ok rows"
    and "collect_map runtime_setting_of (sort_key st_key rows) = Ok settings"
    and "setting_value rows poll_key = Some poll" and "poll \<le> 400000000000"
    and "sl_duration l = int (from_secs 1000000000000)"
    and "rfc3339_ok now" and "env_gate env (w_gate w) = None"
  shows "validate_candidate settings lease_key 1000000000000 = Ok () \<and> fst (acquire env l now w) = Inl Panic"
proof (rule conjI)
  have same: "setting_values settings = setting_value rows"
    using settings_list_ok(1) [OF assms(1,2)] by (simp add: fun_eq_iff)
  from listed_setting [OF assms(1,2) key_definitions(3)] obtain concurrency
    where "setting_value rows concurrency_key = Some concurrency" "1 \<le> concurrency" by auto
  with same assms(3,4) show "validate_candidate settings lease_key 1000000000000 = Ok ()"
    using distinct_keys by (auto simp: validate_candidate_def key_definitions Let_def i64_saturating_mul_def i64_max_def)
  have "year_zero + 1000000000000 * 1000000000 > max_instant"
    by (simp add: year_zero_def max_instant_def)
  moreover have "year_zero \<le> now" using assms(6) by (simp add: rfc3339_ok_def)
  ultimately have "\<not> valid_instant (now + sl_duration l)"
    using assms(5) by (simp add: valid_instant_def from_secs_def)
  with assms(7) show "fst (acquire env l now w) = Inl Panic"
    by (simp add: acquire_def transaction_as_def gate_as_def acquire_body_def sbind_def slift_def time_add_def)
qed

theorem accepted_lease_panics_witness:
  "\<exists>settings. validate_candidate settings lease_key 1000000000000 = Ok ()
     \<and> fst (acquire demo_env \<lparr>sl_holder_id = lit ''a'', sl_duration = int (from_secs 1000000000000)\<rparr> 0 demo_world)
         = Inl Panic"
proof -
  let ?rows = "seed_settings 0 []"
  obtain settings where listed: "collect_map runtime_setting_of (sort_key st_key ?rows) = Inr settings"
    using seed_empty_ok by (rule settings_listed)
  have poll: "setting_value ?rows poll_key = Some 30"
    using default_value [OF default_members(1), of 0] by (simp add: seed_empty i64_max_def)
  have now: "rfc3339_ok 0" by (simp add: rfc3339_ok_def year_zero_def max_instant_def)
  have gate: "env_gate demo_env (w_gate demo_world) = None" by (simp add: demo_env_def)
  from accepted_lease_panics [where l = "\<lparr>sl_holder_id = lit ''a'', sl_duration = int (from_secs 1000000000000)\<rparr>",
      OF seed_empty_ok listed poll _ _ now gate] show ?thesis
    by auto
qed

end
