(* ===== verification/Effects.thy ===== *)
theory Effects
  imports Text
begin

text \<open>
  Operations with a result and a state, for the components that keep a state of their own (the
  workload controller, the web sessions, the backups). The state after an error is the state
  the operation had reached: what is undone is undone by the operation.
\<close>

type_synonym ('s, 'e, 'a) effect = "'s \<Rightarrow> ('e, 'a) res \<times> 's"

definition mbind :: "('s, 'e, 'a) effect \<Rightarrow> ('a \<Rightarrow> ('s, 'e, 'b) effect) \<Rightarrow> ('s, 'e, 'b) effect" where
  "mbind m f = (\<lambda>s. case m s of (Inl e, s') \<Rightarrow> (Inl e, s') | (Inr x, s') \<Rightarrow> f x s')"

definition mlift :: "('e, 'a) res \<Rightarrow> ('s, 'e, 'a) effect" where
  "mlift r = (\<lambda>s. (r, s))"

text \<open>\<open>for x in xs { f(x)? }\<close>.\<close>

fun each :: "('a \<Rightarrow> ('s, 'e, unit) effect) \<Rightarrow> 'a list \<Rightarrow> ('s, 'e, unit) effect" where
  "each f [] = mlift (Ok ())"
| "each f (x # xs) = mbind (f x) (\<lambda>_. each f xs)"

section \<open>Inversion\<close>

named_theorems effect_simps \<open>inversion of operations with a state\<close>

lemma mbind_eq_Inr [effect_simps]:
  "mbind m f s = (Inr y, s') \<longleftrightarrow> (\<exists>x s1. m s = (Inr x, s1) \<and> f x s1 = (Inr y, s'))"
  by (auto simp: mbind_def split: prod.splits sum.splits)

lemma mbind_eq_Inl [effect_simps]:
  "mbind m f s = (Inl e, s') \<longleftrightarrow> m s = (Inl e, s') \<or> (\<exists>x s1. m s = (Inr x, s1) \<and> f x s1 = (Inl e, s'))"
  by (auto simp: mbind_def split: prod.splits sum.splits)

lemma mlift_eq [effect_simps]: "mlift r s = (r', s') \<longleftrightarrow> r' = r \<and> s' = s"
  by (auto simp: mlift_def)

lemma mlift_Inr: "mlift r s = (Inr x, s') \<longleftrightarrow> r = Inr x \<and> s' = s"
  by (auto simp: mlift_def)

lemma mbind_Ok [simp]: "mbind (mlift (Ok x)) f = f x"
  by (simp add: mbind_def mlift_def)

section \<open>What an operation keeps\<close>

text \<open>
  \<open>ensures R m\<close>: whatever its result, the operation relates the states before and after by \<open>R\<close>.
  For \<open>R\<close> the preservation of an invariant it says that the invariant is kept.
\<close>

definition ensures :: "('s \<Rightarrow> 's \<Rightarrow> bool) \<Rightarrow> ('s, 'e, 'a) effect \<Rightarrow> bool" where
  "ensures R m \<longleftrightarrow> (\<forall>s. R s (snd (m s)))"

definition keeping :: "('s \<Rightarrow> bool) \<Rightarrow> 's \<Rightarrow> 's \<Rightarrow> bool" where
  "keeping P s s' \<longleftrightarrow> (P s \<longrightarrow> P s')"

definition same :: "('s \<Rightarrow> 'b) \<Rightarrow> 's \<Rightarrow> 's \<Rightarrow> bool" where
  "same f s s' \<longleftrightarrow> f s' = f s"

lemma keeping_order [simp]: "reflp (keeping P)" "transp (keeping P)"
  by (auto simp: keeping_def reflp_def transp_def)

lemma same_order [simp]: "reflp (same f)" "transp (same f)"
  by (auto simp: same_def reflp_def transp_def)

lemma ensuresI: "(\<And>s r s'. m s = (r, s') \<Longrightarrow> R s s') \<Longrightarrow> ensures R m"
  by (metis ensures_def prod.collapse)

lemma ensuresD: "ensures R m \<Longrightarrow> m s = (r, s') \<Longrightarrow> R s s'"
  by (metis ensures_def snd_conv)

lemma ensures_mlift: "reflp R \<Longrightarrow> ensures R (mlift r)"
  by (auto simp: ensures_def mlift_def reflp_def)

text \<open>What follows may rely on the value it gets.\<close>

lemma ensures_mbind_value:
  assumes "transp R" and "ensures R m" and "\<And>x s s'. m s = (Inr x, s') \<Longrightarrow> ensures R (f x)"
  shows "ensures R (mbind m f)"
proof (rule ensuresI)
  fix s r s' assume e: "mbind m f s = (r, s')"
  show "R s s'"
  proof (cases "m s")
    case (Pair a s1)
    with assms(2) have R: "R s s1" by (rule ensuresD)
    show ?thesis
    proof (cases a)
      case (Inl x)
      with e Pair R show ?thesis by (simp add: mbind_def)
    next
      case (Inr x)
      with e Pair have run: "f x s1 = (r, s')" by (simp add: mbind_def)
      from Inr Pair have "m s = (Inr x, s1)" by simp
      from ensuresD [OF assms(3) [OF this] run] have "R s1 s'" .
      with assms(1) R show ?thesis by (rule transpD)
    qed
  qed
qed

lemma ensures_mbind:
  assumes "transp R" and "ensures R m" and "\<And>x. ensures R (f x)"
  shows "ensures R (mbind m f)"
  by (rule ensures_mbind_value [OF assms(1,2)]) (rule assms(3))

lemma ensures_each:
  assumes "reflp R" and "transp R" and "\<And>x. x \<in> set xs \<Longrightarrow> ensures R (f x)"
  shows "ensures R (each f xs)"
  using assms(3)
  by (induction xs) (simp_all add: ensures_mlift ensures_mbind assms(1,2))

text \<open>The failure of an operation as a value, and with another error.\<close>

definition attempt :: "('s, 'e, 'a) effect \<Rightarrow> ('s, 'f, 'e + 'a) effect" where
  "attempt m = (\<lambda>s. case m s of
       (Inr x, s') \<Rightarrow> (Ok (Inr x), s')
     | (Inl (Fail e), s') \<Rightarrow> (Ok (Inl e), s')
     | (Inl Panic, s') \<Rightarrow> (Inl Panic, s')
     | (Inl Diverge, s') \<Rightarrow> (Inl Diverge, s'))"

definition or_else :: "('s, 'e, 'a) effect \<Rightarrow> ('e \<Rightarrow> 'f) \<Rightarrow> ('s, 'f, 'a) effect" where
  "or_else m f = (\<lambda>s. let (r, s') = m s in (map_err f r, s'))"

lemma mbind_assoc: "mbind (mbind m g) f = mbind m (\<lambda>x. mbind (g x) f)"
  by (auto simp: mbind_def fun_eq_iff split: prod.splits sum.splits)

end
