(* ===== verification/Workloads.thy ===== *)
theory Workloads
  imports Administration Effects
begin

text \<open>
  Lifecycle of the two workloads: \<open>SchedulerWorkload\<close> (\<open>src/scheduler/runner.rs\<close>) and the lifecycle
  part of \<open>McpWorkload\<close> (\<open>src/mcp/server.rs\<close>). The trait \<open>WorkloadRuntime\<close> of
  \<open>src/admin/workloads.rs\<close> is a record of functions on the state of a workload; the locale below
  states what the controller relies on, and both workloads are instances of it.
\<close>

section \<open>The runtime interface\<close>

text \<open>Starting may look at the persisted rows of \<open>service_runtime\<close>; errors are their texts.\<close>

record 's runtime =
  rn_is_running :: "'s \<Rightarrow> bool"
  rn_start :: "runtime_row list \<Rightarrow> ('s, ustring, unit) effect"
  rn_stop :: "('s, ustring, unit) effect"

locale workload_runtime =
  fixes rt :: "'s runtime" and inv :: "'s \<Rightarrow> bool" and exits :: "'s \<Rightarrow> 's \<Rightarrow> bool"
  assumes start_keeps: "inv s \<Longrightarrow> rn_start rt rows s = (r, s') \<Longrightarrow> inv s'"
    and stop_keeps: "inv s \<Longrightarrow> rn_stop rt s = (r, s') \<Longrightarrow> inv s'"
    and start_runs: "inv s \<Longrightarrow> rn_start rt rows s = (Inr u, s') \<Longrightarrow> rn_is_running rt s'"
    and stop_stops: "inv s \<Longrightarrow> rn_stop rt s = (Inr u, s') \<Longrightarrow> \<not> rn_is_running rt s'"
    and exit_keeps: "inv s \<Longrightarrow> exits s s' \<Longrightarrow> inv s'"
    and exit_stops: "exits s s' \<Longrightarrow> rn_is_running rt s' \<Longrightarrow> rn_is_running rt s"

section \<open>The scheduler workload\<close>

text \<open>The result of the spawned task: it panicked, or \<open>run_acquired\<close> returned.\<close>

datatype task_outcome = TaskPanicked | TaskReturned "(scheduler_error, run_exit) res"

text \<open>A task in its place has not been cancelled: \<open>stop\<close> takes it out first.\<close>

record running_scheduler =
  rs_finished :: "task_outcome option"

text \<open>
  \<open>sw_turn\<close> counts the questions to the outside: whether a database call of \<open>desired_running\<close>
  fails, what \<open>acquire\<close> answers, and what a task returns once it is cancelled.
\<close>

record scheduler_workload =
  sw_task :: "running_scheduler option"
  sw_running :: bool
  sw_turn :: nat

record scheduler_outside =
  so_call :: "nat \<Rightarrow> database_error option"
  so_acquire :: "nat \<Rightarrow> (scheduler_error, unit) res"
  so_outcome :: "nat \<Rightarrow> task_outcome"

definition scheduler_workload_new :: scheduler_workload where
  "scheduler_workload_new = \<lparr>sw_task = None, sw_running = False, sw_turn = 0\<rparr>"

definition desired_of_rows :: "runtime_row list \<Rightarrow> (scheduler_error, bool) res" where
  "desired_of_rows rows =
     (case map_option t_desired_state (find (\<lambda>r. t_component r = ''scheduler'') rows) of
        Some v \<Rightarrow>
          if v = ''running'' then Ok True
          else if v = ''stopped'' then Ok False else Err InvalidDesiredState
      | None \<Rightarrow> Err InvalidDesiredState)"

text \<open>It is what \<open>desired_running\<close> reads.\<close>

lemma desired_running_rows:
  "env_gate env (w_gate w) = None \<Longrightarrow>
     fst (desired_running env w) = desired_of_rows (runtime_table (w_db w))"
  by (simp add: desired_running_def desired_of_rows_def sbind_def gate_as_def)

definition desired_now ::
  "scheduler_outside \<Rightarrow> nat \<Rightarrow> runtime_row list \<Rightarrow> (scheduler_error, bool) res" where
  "desired_now out turn rows =
     (case so_call out turn of Some e \<Rightarrow> Err (SchedDatabase e) | None \<Rightarrow> desired_of_rows rows)"

text \<open>The result of a finished task that \<open>start\<close> finds in its place.\<close>

fun finished_result :: "task_outcome \<Rightarrow> (scheduler_error, unit) res" where
  "finished_result TaskPanicked = Err TaskJoin"
| "finished_result (TaskReturned (Inl e)) = Inl e"
| "finished_result (TaskReturned (Inr _)) = Ok ()"

definition scheduler_launch ::
  "scheduler_outside \<Rightarrow> runtime_row list \<Rightarrow> (scheduler_workload, scheduler_error, unit) effect" where
  "scheduler_launch out rows s =
     (let s1 = s\<lparr>sw_turn := sw_turn s + 1\<rparr> in
      case desired_now out (sw_turn s) rows of
        Inl e \<Rightarrow> (Inl e, s1)
      | Inr desired \<Rightarrow>
          if \<not> desired then (Err InvalidDesiredState, s1)
          else case so_acquire out (sw_turn s) of
                 Inl e \<Rightarrow> (Inl e, s1)
               | Inr _ \<Rightarrow> (Ok (), s1\<lparr>sw_running := True,
                              sw_task := Some \<lparr>rs_finished = None\<rparr>\<rparr>))"

definition scheduler_start ::
  "scheduler_outside \<Rightarrow> runtime_row list \<Rightarrow> (scheduler_workload, scheduler_error, unit) effect" where
  "scheduler_start out rows s =
     (case sw_task s of
        None \<Rightarrow> scheduler_launch out rows s
      | Some task \<Rightarrow>
          (case rs_finished task of
             None \<Rightarrow> (Ok (), s)
           | Some outcome \<Rightarrow>
               (case finished_result outcome of
                  Inl e \<Rightarrow> (Inl e, s\<lparr>sw_task := None\<rparr>)
                | Inr _ \<Rightarrow> scheduler_launch out rows (s\<lparr>sw_task := None\<rparr>))))"

text \<open>A task that has not finished is cancelled and awaited; it clears the flag unless it panics.\<close>

definition scheduler_stop ::
  "scheduler_outside \<Rightarrow> (scheduler_workload, scheduler_error, unit) effect" where
  "scheduler_stop out s =
     (case sw_task s of
        None \<Rightarrow> (Ok (), s\<lparr>sw_running := False\<rparr>)
      | Some task \<Rightarrow>
          let outcome = (case rs_finished task of Some o' \<Rightarrow> o' | None \<Rightarrow> so_outcome out (sw_turn s));
              s1 = s\<lparr>sw_task := None, sw_turn := sw_turn s + 1\<rparr>
          in case outcome of
               TaskPanicked \<Rightarrow> (Err TaskJoin, s1)
             | TaskReturned r \<Rightarrow> (map_sum id (\<lambda>_. ()) r, s1\<lparr>sw_running := False\<rparr>))"

definition scheduler_restart ::
  "scheduler_outside \<Rightarrow> runtime_row list \<Rightarrow> (scheduler_workload, scheduler_error, unit) effect" where
  "scheduler_restart out rows = mbind (scheduler_stop out) (\<lambda>_. scheduler_start out rows)"

text \<open>The task ends by itself: clearing the flag, its last action, and ending are one step.\<close>

inductive scheduler_exits :: "scheduler_workload \<Rightarrow> scheduler_workload \<Rightarrow> bool" where
  returned: "sw_task s = Some task \<Longrightarrow> rs_finished task = None \<Longrightarrow>
     scheduler_exits s (s\<lparr>sw_task := Some (task\<lparr>rs_finished := Some (TaskReturned r)\<rparr>), sw_running := False\<rparr>)"
| panicked: "sw_task s = Some task \<Longrightarrow> rs_finished task = None \<Longrightarrow>
     scheduler_exits s (s\<lparr>sw_task := Some (task\<lparr>rs_finished := Some TaskPanicked\<rparr>)\<rparr>)"

text \<open>A task that has not finished has its flag set.\<close>

definition scheduler_inv :: "scheduler_workload \<Rightarrow> bool" where
  "scheduler_inv s \<longleftrightarrow>
     (case sw_task s of None \<Rightarrow> True | Some task \<Rightarrow> rs_finished task = None \<longrightarrow> sw_running s)"

text \<open>\<open>text\<close> is the \<open>Display\<close> of the error.\<close>

definition scheduler_runtime ::
  "(scheduler_error \<Rightarrow> ustring) \<Rightarrow> scheduler_outside \<Rightarrow> scheduler_workload runtime" where
  "scheduler_runtime text out =
     \<lparr>rn_is_running = sw_running,
      rn_start = (\<lambda>rows s. map_prod (map_err text) id (scheduler_start out rows s)),
      rn_stop = (\<lambda>s. map_prod (map_err text) id (scheduler_stop out s))\<rparr>"

lemma scheduler_launch_cases:
  assumes "scheduler_launch out rows s = (r, s')"
  obtains e where "r = Inl e" "s' = s\<lparr>sw_turn := sw_turn s + 1\<rparr>"
  | "r = Ok ()" "sw_running s'" "sw_task s' = Some \<lparr>rs_finished = None\<rparr>"
proof (cases "desired_now out (sw_turn s) rows")
  case (Inl e)
  with assms show thesis by (auto simp: scheduler_launch_def intro: that(1))
next
  case (Inr desired)
  show thesis
  proof (cases "so_acquire out (sw_turn s)")
    case (Inl e)
    with \<open>desired_now out (sw_turn s) rows = Inr desired\<close> assms
    have "\<exists>e'. (Inl e', s\<lparr>sw_turn := sw_turn s + 1\<rparr>) = (r, s')"
      by (cases desired) (auto simp: scheduler_launch_def)
    with that(1) show thesis by auto
  next
    case (Inr u)
    with \<open>desired_now out (sw_turn s) rows = Inr desired\<close> assms that show thesis
      by (auto simp: scheduler_launch_def Let_def split: if_splits)
  qed
qed

lemma scheduler_start_cases:
  assumes "scheduler_start out rows s = (r, s')"
  obtains (running) task where "sw_task s = Some task" "rs_finished task = None" "r = Ok ()" "s' = s"
  | (failed) e where "r = Inl e" "sw_task s' = None"
  | (launch) "scheduler_launch out rows (s\<lparr>sw_task := None\<rparr>) = (r, s')"
proof (cases "sw_task s")
  case None
  then have "s\<lparr>sw_task := None\<rparr> = s" by simp
  with None assms launch show thesis by (simp add: scheduler_start_def)
next
  case (Some task)
  show thesis
  proof (cases "rs_finished task")
    case None
    with Some assms show thesis by (auto simp: scheduler_start_def intro: running)
  next
    case finished: (Some outcome)
    show thesis
    proof (cases "finished_result outcome")
      case (Inl e)
      with Some finished assms have "(r, s') = (Inl e, s\<lparr>sw_task := None\<rparr>)" by (simp add: scheduler_start_def)
      then show thesis by (intro failed [of e]) simp_all
    next
      case (Inr u)
      with Some finished assms launch show thesis by (simp add: scheduler_start_def)
    qed
  qed
qed

lemma scheduler_start_inv:
  assumes "scheduler_inv s" and "scheduler_start out rows s = (r, s')"
  shows "scheduler_inv s'" and "r = Ok () \<Longrightarrow> sw_running s'"
proof -
  from assms(2) have "scheduler_inv s' \<and> (r = Ok () \<longrightarrow> sw_running s')"
  proof (cases rule: scheduler_start_cases)
    case running
    with assms(1) show ?thesis by (simp add: scheduler_inv_def)
  next
    case failed
    then show ?thesis by (simp add: scheduler_inv_def)
  next
    case launch
    then show ?thesis
      by (rule scheduler_launch_cases) (auto simp: scheduler_inv_def)
  qed
  then show "scheduler_inv s'" and "r = Ok () \<Longrightarrow> sw_running s'" by blast+
qed

lemma scheduler_stop_inv:
  assumes "scheduler_stop out s = (r, s')"
  shows "scheduler_inv s'" and "r = Ok () \<Longrightarrow> \<not> sw_running s'"
  using assms
  by (auto simp: scheduler_stop_def scheduler_inv_def Let_def split: option.splits task_outcome.splits)

interpretation scheduler: workload_runtime "scheduler_runtime text out" scheduler_inv scheduler_exits
proof
  fix s rows r s' assume "scheduler_inv s" "rn_start (scheduler_runtime text out) rows s = (r, s')"
  then show "scheduler_inv s'"
    by (cases "scheduler_start out rows s") (auto simp: scheduler_runtime_def dest: scheduler_start_inv(1))
next
  fix s r s' assume "scheduler_inv s" "rn_stop (scheduler_runtime text out) s = (r, s')"
  then show "scheduler_inv s'"
    by (cases "scheduler_stop out s") (auto simp: scheduler_runtime_def dest: scheduler_stop_inv(1))
next
  fix s rows u s' assume "scheduler_inv s" "rn_start (scheduler_runtime text out) rows s = (Inr u, s')"
  then show "rn_is_running (scheduler_runtime text out) s'"
    by (cases "scheduler_start out rows s")
      (auto simp: scheduler_runtime_def map_err_eq_Inr dest: scheduler_start_inv(2))
next
  fix s u s' assume "rn_stop (scheduler_runtime text out) s = (Inr u, s')"
  then show "\<not> rn_is_running (scheduler_runtime text out) s'"
    by (cases "scheduler_stop out s")
      (auto simp: scheduler_runtime_def map_err_eq_Inr dest: scheduler_stop_inv(2))
qed (auto simp: scheduler_inv_def scheduler_runtime_def elim!: scheduler_exits.cases)

section \<open>The MCP workload\<close>

text \<open>Its lifecycle is whether there is a running service; the locks are never poisoned.\<close>

definition mcp_start :: "bool \<Rightarrow> bool" where
  "mcp_start running = True"

definition mcp_stop :: "bool \<Rightarrow> bool" where
  "mcp_stop running = False"

definition mcp_restart :: "bool \<Rightarrow> bool" where
  "mcp_restart running = mcp_start (mcp_stop running)"

definition mcp_runtime :: "bool runtime" where
  "mcp_runtime = \<lparr>rn_is_running = (\<lambda>running. running), rn_start = (\<lambda>rows running. (Ok (), mcp_start running)),
                  rn_stop = (\<lambda>running. (Ok (), mcp_stop running))\<rparr>"

interpretation mcp: workload_runtime mcp_runtime "\<lambda>_. True" "\<lambda>_ _. False"
  by unfold_locales (auto simp: mcp_runtime_def mcp_start_def mcp_stop_def)

end
