(* ===== verification/Controller.thy ===== *)
theory Controller
  imports Workloads
begin

text \<open>
  \<open>WorkloadController\<close> (\<open>src/admin/workloads.rs\<close>): the persisted intent of the administrator for
  the two workloads, their in-memory status, and the operations that bring the workloads in line
  with the intent. The lock \<open>transition\<close> serialises the operations, so each is one step; it is
  held between steps only by a \<open>WorkloadMaintenance\<close>. The locks are never poisoned.
\<close>

section \<open>Status and errors\<close>

datatype desired_state = DesiredRunning | DesiredStopped

definition desired_name :: "desired_state \<Rightarrow> string" where
  "desired_name d = (case d of DesiredRunning \<Rightarrow> ''running'' | DesiredStopped \<Rightarrow> ''stopped'')"

datatype actual_state = ActStarting | ActRunning | ActStopping | ActStopped | ActFailed

record mutable_status =
  ms_desired :: desired_state
  ms_actual :: actual_state
  ms_last_error :: "ustring option"

record workload_status =
  ws_component :: workload_component
  ws_desired :: desired_state
  ws_actual :: actual_state
  ws_last_error :: "ustring option"

datatype workload_error =
    TransitionConflict
  | WorkloadDatabase
  | InvalidPersistedState
  | StateUnavailable
  | TransitionFailed workload_component ustring

definition selected_components :: "workload_component \<Rightarrow> workload_component list" where
  "selected_components c =
     (case c of Mcp \<Rightarrow> [Mcp] | SchedulerComponent \<Rightarrow> [SchedulerComponent] | AllComponents \<Rightarrow> [Mcp, SchedulerComponent])"

text \<open>The name is only asked for components that \<open>selected_components\<close> lists.\<close>

definition persisted_name :: "workload_component \<Rightarrow> string option" where
  "persisted_name c =
     (case c of Mcp \<Rightarrow> Some ''mcp'' | SchedulerComponent \<Rightarrow> Some ''scheduler'' | AllComponents \<Rightarrow> None)"

section \<open>Bounded error texts\<close>

definition max_last_error_bytes :: nat where "max_last_error_bytes = 512"

text \<open>
  \<open>str::is_char_boundary\<close>, and the loop that walks back from byte \<open>n\<close> to a boundary; byte 0 always
  is one, so the walk ends.
\<close>

definition is_char_boundary :: "ustring \<Rightarrow> nat \<Rightarrow> bool" where
  "is_char_boundary s n \<longleftrightarrow> get_from (utf8_bytes s) n \<noteq> None"

fun floor_boundary :: "ustring \<Rightarrow> nat \<Rightarrow> nat" where
  "floor_boundary s 0 = 0"
| "floor_boundary s (Suc n) = (if is_char_boundary s (Suc n) then Suc n else floor_boundary s n)"

text \<open>The longest prefix of at most \<open>n\<close> bytes: \<open>&s[..n]\<close> for a boundary \<open>n\<close>.\<close>

fun take_bytes :: "nat \<Rightarrow> ustring \<Rightarrow> ustring" where
  "take_bytes n [] = []"
| "take_bytes n (c # cs) = (if utf8_width c \<le> n then c # take_bytes (n - utf8_width c) cs else [])"

definition bound_error :: "ustring \<Rightarrow> ustring" where
  "bound_error e =
     (if utf8_len e \<le> max_last_error_bytes then e else take_bytes (floor_boundary e max_last_error_bytes) e)"

section \<open>The controller\<close>

record ('m, 's) control =
  ct_rows :: "runtime_row list"
  ct_mcp :: 'm
  ct_scheduler :: 's
  ct_mcp_status :: mutable_status
  ct_scheduler_status :: mutable_status
  ct_locked :: bool
  ct_clock :: nat
  ct_calls :: nat

record ('m, 's) control_env =
  ce_mcp :: "'m runtime"
  ce_scheduler :: "'s runtime"
  ce_clock :: "nat \<Rightarrow> instant"
  ce_fails :: "nat \<Rightarrow> bool"

type_synonym ('m, 's, 'a) controlled = "(('m, 's) control, workload_error, 'a) effect"

definition initial_status :: "desired_state \<Rightarrow> bool \<Rightarrow> mutable_status" where
  "initial_status d running =
     \<lparr>ms_desired = d, ms_actual = (if running then ActRunning else ActStopped), ms_last_error = None\<rparr>"

definition status_of :: "workload_component \<Rightarrow> ('m, 's) control \<Rightarrow> mutable_status" where
  "status_of c s = (case c of Mcp \<Rightarrow> ct_mcp_status s | _ \<Rightarrow> ct_scheduler_status s)"

text \<open>\<open>status_mut\<close> and \<open>runtime\<close> panic on the virtual component.\<close>

definition modify_status ::
  "workload_component \<Rightarrow> (mutable_status \<Rightarrow> mutable_status) \<Rightarrow> ('m, 's, unit) controlled" where
  "modify_status c f = (\<lambda>s.
     case c of
       Mcp \<Rightarrow> (Ok (), s\<lparr>ct_mcp_status := f (ct_mcp_status s)\<rparr>)
     | SchedulerComponent \<Rightarrow> (Ok (), s\<lparr>ct_scheduler_status := f (ct_scheduler_status s)\<rparr>)
     | AllComponents \<Rightarrow> (Inl Panic, s))"

definition set_actual ::
  "workload_component \<Rightarrow> actual_state \<Rightarrow> ustring option \<Rightarrow> ('m, 's, unit) controlled" where
  "set_actual c a e = modify_status c (\<lambda>m. m\<lparr>ms_actual := a, ms_last_error := e\<rparr>)"

definition set_desired :: "workload_component \<Rightarrow> desired_state \<Rightarrow> ('m, 's, unit) controlled" where
  "set_desired c d = each (\<lambda>selected. modify_status selected (\<lambda>m. m\<lparr>ms_desired := d\<rparr>)) (selected_components c)"

definition is_running ::
  "('m, 's) control_env \<Rightarrow> workload_component \<Rightarrow> ('m, 's) control \<Rightarrow> bool" where
  "is_running env c s =
     (case c of
        Mcp \<Rightarrow> rn_is_running (ce_mcp env) (ct_mcp s)
      | SchedulerComponent \<Rightarrow> rn_is_running (ce_scheduler env) (ct_scheduler s)
      | AllComponents \<Rightarrow> False)"

text \<open>Calling a runtime; an error of it is a value here.\<close>

fun caught :: "(ustring, unit) res \<Rightarrow> (workload_error, ustring + unit) res" where
  "caught (Inr u) = Ok (Inr u)"
| "caught (Inl (Fail e)) = Ok (Inl e)"
| "caught (Inl Panic) = Inl Panic"
| "caught (Inl Diverge) = Inl Diverge"

definition start_runtime ::
  "('m, 's) control_env \<Rightarrow> workload_component \<Rightarrow> ('m, 's, ustring + unit) controlled" where
  "start_runtime env c = (\<lambda>s.
     case c of
       Mcp \<Rightarrow> (case rn_start (ce_mcp env) (ct_rows s) (ct_mcp s) of (r, m) \<Rightarrow> (caught r, s\<lparr>ct_mcp := m\<rparr>))
     | SchedulerComponent \<Rightarrow>
         (case rn_start (ce_scheduler env) (ct_rows s) (ct_scheduler s) of (r, m) \<Rightarrow> (caught r, s\<lparr>ct_scheduler := m\<rparr>))
     | AllComponents \<Rightarrow> (Inl Panic, s))"

definition stop_runtime ::
  "('m, 's) control_env \<Rightarrow> workload_component \<Rightarrow> ('m, 's, ustring + unit) controlled" where
  "stop_runtime env c = (\<lambda>s.
     case c of
       Mcp \<Rightarrow> (case rn_stop (ce_mcp env) (ct_mcp s) of (r, m) \<Rightarrow> (caught r, s\<lparr>ct_mcp := m\<rparr>))
     | SchedulerComponent \<Rightarrow>
         (case rn_stop (ce_scheduler env) (ct_scheduler s) of (r, m) \<Rightarrow> (caught r, s\<lparr>ct_scheduler := m\<rparr>))
     | AllComponents \<Rightarrow> (Inl Panic, s))"

definition fail_transition :: "workload_component \<Rightarrow> ustring \<Rightarrow> ('m, 's, unit) controlled" where
  "fail_transition c e =
     mbind (set_actual c ActFailed (Some (bound_error e))) (\<lambda>_. mlift (Err (TransitionFailed c (bound_error e))))"

definition run_action ::
  "('m, 's) control_env \<Rightarrow> workload_component \<Rightarrow> workload_action \<Rightarrow> ('m, 's, ustring + unit) controlled" where
  "run_action env c action =
     (case action of
        StartWorkload \<Rightarrow> mbind (set_actual c ActStarting None) (\<lambda>_. start_runtime env c)
      | StopWorkload \<Rightarrow> mbind (set_actual c ActStopping None) (\<lambda>_. stop_runtime env c)
      | RestartWorkload \<Rightarrow>
          mbind (set_actual c ActStopping None) (\<lambda>_.
          mbind (stop_runtime env c) (\<lambda>r.
            case r of
              Inl e \<Rightarrow> mlift (Ok (Inl e))
            | Inr _ \<Rightarrow> mbind (set_actual c ActStarting None) (\<lambda>_. start_runtime env c))))"

definition apply_action ::
  "('m, 's) control_env \<Rightarrow> workload_component \<Rightarrow> workload_action \<Rightarrow> ('m, 's, unit) controlled" where
  "apply_action env c action =
     mbind (run_action env c action) (\<lambda>r.
       case r of
         Inl e \<Rightarrow> fail_transition c e
       | Inr _ \<Rightarrow> set_actual c (if action = StopWorkload then ActStopped else ActRunning) None)"

section \<open>Persisted intent\<close>

definition control_call :: "('m, 's) control_env \<Rightarrow> ('m, 's, unit) controlled" where
  "control_call env = (\<lambda>s.
     (if ce_fails env (ct_calls s) then Err WorkloadDatabase else Ok (), s\<lparr>ct_calls := ct_calls s + 1\<rparr>))"

text \<open>The UPDATE of one component; the STRICT table refuses a version that leaves the integers.\<close>

definition update_desired ::
  "('m, 's) control_env \<Rightarrow> desired_state \<Rightarrow> stamp \<Rightarrow> ustring \<Rightarrow> workload_component \<Rightarrow> ('m, 's, unit) controlled" where
  "update_desired env d at who c =
     (case persisted_name c of
        None \<Rightarrow> mlift (Inl Panic)
      | Some name \<Rightarrow>
          mbind (control_call env) (\<lambda>_. \<lambda>s.
            if list_ex (\<lambda>r. t_component r = name \<and> t_version r = i64_max) (ct_rows s) then (Err WorkloadDatabase, s)
            else (Ok (), s\<lparr>ct_rows := map (\<lambda>r. if t_component r = name
                    then r\<lparr>t_desired_state := desired_name d, t_version := t_version r + 1,
                           t_updated_at := at, t_updated_by := who\<rparr> else r) (ct_rows s)\<rparr>)))"

text \<open>A transaction that fails leaves the rows as they were.\<close>

definition rows_transaction :: "('m, 's) control_env \<Rightarrow> ('m, 's, unit) controlled \<Rightarrow> ('m, 's, unit) controlled" where
  "rows_transaction env body = (\<lambda>s.
     case mbind (control_call env) (\<lambda>_. mbind body (\<lambda>_. control_call env)) s of
       (Inl e, s') \<Rightarrow> (Inl e, s'\<lparr>ct_rows := ct_rows s\<rparr>)
     | (Inr u, s') \<Rightarrow> (Inr u, s'))"

definition control_now :: "('m, 's) control_env \<Rightarrow> ('m, 's, instant) controlled" where
  "control_now env = (\<lambda>s. (Ok (ce_clock env (ct_clock s)), s\<lparr>ct_clock := ct_clock s + 1\<rparr>))"

definition persist_desired ::
  "('m, 's) control_env \<Rightarrow> workload_component \<Rightarrow> desired_state \<Rightarrow> ustring \<Rightarrow> ('m, 's, unit) controlled" where
  "persist_desired env c d who =
     mbind (control_now env) (\<lambda>now.
     mbind (mlift (map_err (\<lambda>_. InvalidPersistedState) (canonical_timestamp now))) (\<lambda>at.
       rows_transaction env (each (update_desired env d at who) (selected_components c))))"

definition parse_desired :: "string \<Rightarrow> (workload_error, desired_state) res" where
  "parse_desired v =
     (if v = ''running'' then Ok DesiredRunning
      else if v = ''stopped'' then Ok DesiredStopped else Err InvalidPersistedState)"

fun desired_rows ::
  "runtime_row list \<Rightarrow> desired_state option \<times> desired_state option
     \<Rightarrow> (workload_error, desired_state option \<times> desired_state option) res" where
  "desired_rows [] acc = Ok acc"
| "desired_rows (r # rs) (m, s) =
     rbind (parse_desired (t_desired_state r)) (\<lambda>d.
       if t_component r = ''mcp'' then desired_rows rs (Some d, s)
       else if t_component r = ''scheduler'' then desired_rows rs (m, Some d)
       else Err InvalidPersistedState)"

definition desired_pair :: "runtime_row list \<Rightarrow> (workload_error, desired_state \<times> desired_state) res" where
  "desired_pair rows =
     rbind (desired_rows (sort_key (\<lambda>r. lit (t_component r)) rows) (None, None)) (\<lambda>(m, s).
       case (m, s) of (Some a, Some b) \<Rightarrow> Ok (a, b) | _ \<Rightarrow> Err InvalidPersistedState)"

definition load_desired :: "('m, 's) control_env \<Rightarrow> ('m, 's, desired_state \<times> desired_state) controlled" where
  "load_desired env =
     mbind (control_call env) (\<lambda>_. mbind (control_call env) (\<lambda>_. \<lambda>s. (desired_pair (ct_rows s), s)))"

section \<open>Operations\<close>

definition reconcile_component ::
  "('m, 's) control_env \<Rightarrow> workload_component \<Rightarrow> desired_state \<Rightarrow> ('m, 's, unit) controlled" where
  "reconcile_component env c d = (\<lambda>s.
     (case (d, is_running env c s) of
        (DesiredRunning, False) \<Rightarrow> apply_action env c StartWorkload
      | (DesiredStopped, True) \<Rightarrow> apply_action env c StopWorkload
      | (DesiredRunning, True) \<Rightarrow> set_actual c ActRunning None
      | (DesiredStopped, False) \<Rightarrow> set_actual c ActStopped None) s)"

definition from_runtimes :: "('m, 's) control_env \<Rightarrow> ('m, 's, unit) controlled" where
  "from_runtimes env =
     mbind (load_desired env) (\<lambda>(m, d).
     mbind (\<lambda>s. (Ok (), s\<lparr>ct_mcp_status := initial_status m (is_running env Mcp s),
                       ct_scheduler_status := initial_status d (is_running env SchedulerComponent s),
                       ct_locked := False\<rparr>)) (\<lambda>_.
     mbind (reconcile_component env Mcp m) (\<lambda>_. reconcile_component env SchedulerComponent d)))"

definition refresh_runtime_state :: "bool \<Rightarrow> mutable_status \<Rightarrow> mutable_status" where
  "refresh_runtime_state running m =
     (if ms_actual m = ActRunning \<and> \<not> running
      then m\<lparr>ms_actual := ActFailed, ms_last_error := Some (lit ''workload exited unexpectedly'')\<rparr> else m)"

definition status_snapshot :: "workload_component \<Rightarrow> mutable_status \<Rightarrow> workload_status" where
  "status_snapshot c m =
     \<lparr>ws_component = c, ws_desired = ms_desired m, ws_actual = ms_actual m, ws_last_error = ms_last_error m\<rparr>"

definition control_status :: "('m, 's) control_env \<Rightarrow> ('m, 's, workload_status list) controlled" where
  "control_status env = (\<lambda>s.
     let m = refresh_runtime_state (is_running env Mcp s) (ct_mcp_status s);
         d = refresh_runtime_state (is_running env SchedulerComponent s) (ct_scheduler_status s)
     in (Ok [status_snapshot Mcp m, status_snapshot SchedulerComponent d],
         s\<lparr>ct_mcp_status := m, ct_scheduler_status := d\<rparr>))"

definition action_desired :: "workload_action \<Rightarrow> desired_state" where
  "action_desired action = (if action = StopWorkload then DesiredStopped else DesiredRunning)"

definition control_transition ::
  "('m, 's) control_env \<Rightarrow> workload_component \<Rightarrow> workload_action \<Rightarrow> ustring
     \<Rightarrow> ('m, 's, workload_status list) controlled" where
  "control_transition env c action who = (\<lambda>s.
     if ct_locked s then (Err TransitionConflict, s)
     else
       mbind (persist_desired env c (action_desired action) who) (\<lambda>_.
       mbind (set_desired c (action_desired action)) (\<lambda>_.
       mbind (each (\<lambda>selected. apply_action env selected action) (selected_components c)) (\<lambda>_.
         control_status env))) s)"

text \<open>Stopping what runs; \<open>shutdown\<close> first waits for the lock.\<close>

definition stop_if_running :: "('m, 's) control_env \<Rightarrow> workload_component \<Rightarrow> ('m, 's, unit) controlled" where
  "stop_if_running env c = (\<lambda>s.
     if is_running env c s then apply_action env c StopWorkload s else (Ok (), s))"

definition control_shutdown :: "('m, 's) control_env \<Rightarrow> ('m, 's, unit) controlled" where
  "control_shutdown env = each (stop_if_running env) (selected_components AllComponents)"

text \<open>Starting again, in reverse order, what was stopped; errors are ignored, panics are not.\<close>

fun restart_stopped :: "('m, 's) control_env \<Rightarrow> workload_component list \<Rightarrow> ('m, 's, unit) controlled" where
  "restart_stopped env [] = mlift (Ok ())"
| "restart_stopped env (c # cs) = (\<lambda>s.
     case apply_action env c StartWorkload s of
       (Inl Panic, s') \<Rightarrow> (Inl Panic, s')
     | (Inl Diverge, s') \<Rightarrow> (Inl Diverge, s')
     | (_, s') \<Rightarrow> restart_stopped env cs s')"

fun quiesce_loop ::
  "('m, 's) control_env \<Rightarrow> workload_component list \<Rightarrow> workload_component list \<Rightarrow> ('m, 's, unit) controlled" where
  "quiesce_loop env stopped [] = mlift (Ok ())"
| "quiesce_loop env stopped (c # cs) = (\<lambda>s.
     if is_running env c s then
       (case apply_action env c StopWorkload s of
          (Inl (Fail e), s') \<Rightarrow> mbind (restart_stopped env (rev stopped)) (\<lambda>_. mlift (Err e)) s'
        | (Inl f, s') \<Rightarrow> (Inl f, s')
        | (Inr _, s') \<Rightarrow> quiesce_loop env (stopped @ [c]) cs s')
     else quiesce_loop env stopped cs s)"

text \<open>On success the lock is held by the maintenance that is returned.\<close>

definition quiesce_for_maintenance :: "('m, 's) control_env \<Rightarrow> ('m, 's, unit) controlled" where
  "quiesce_for_maintenance env =
     mbind (quiesce_loop env [] (selected_components AllComponents)) (\<lambda>_. \<lambda>s. (Ok (), s\<lparr>ct_locked := True\<rparr>))"

definition restart_from_persisted :: "('m, 's) control_env \<Rightarrow> ('m, 's, workload_status list) controlled" where
  "restart_from_persisted env =
     mbind (load_desired env) (\<lambda>(m, d).
     mbind (set_desired Mcp m) (\<lambda>_.
     mbind (set_desired SchedulerComponent d) (\<lambda>_.
     mbind (reconcile_component env Mcp m) (\<lambda>_.
     mbind (reconcile_component env SchedulerComponent d) (\<lambda>_.
       control_status env)))))"

definition quiesce_again :: "('m, 's) control_env \<Rightarrow> ('m, 's, unit) controlled" where
  "quiesce_again env = each (stop_if_running env) (selected_components AllComponents)"

text \<open>Dropping the maintenance.\<close>

definition release_maintenance :: "('m, 's) control \<Rightarrow> ('m, 's) control" where
  "release_maintenance s = s\<lparr>ct_locked := False\<rparr>"

section \<open>Bounded texts\<close>

lemma utf8_char_shape: "\<exists>b bs. utf8_char c = b # bs \<and> \<not> (128 \<le> b \<and> b < 192) \<and> (\<forall>x \<in> set bs. 128 \<le> x \<and> x < 192)"
  by (auto simp: utf8_char_def)

lemma length_utf8_char: "length (utf8_char c) = utf8_width c"
  by (auto simp: utf8_char_def utf8_width_def)

lemma take_bytes_len: "utf8_len (take_bytes n s) \<le> n"
  by (induction n s rule: take_bytes.induct) (auto simp: utf8_len_def)

lemma take_bytes_prefix: "\<exists>rest. s = take_bytes n s @ rest"
  by (induction n s rule: take_bytes.induct) auto

lemma take_bytes_next:
  "s = take_bytes n s @ c # rest \<Longrightarrow> n < utf8_len (take_bytes n s) + utf8_width c"
  by (induction n s rule: take_bytes.induct) (auto simp: utf8_len_def split: if_splits)

lemma floor_boundary_le: "floor_boundary s n \<le> n"
  by (induction n) auto

lemma boundary_0 [simp]: "is_char_boundary s 0"
proof (cases s)
  case (Cons c cs)
  with utf8_char_shape [of c] show ?thesis
    by (auto simp: is_char_boundary_def get_from_def utf8_bytes_def)
qed (simp add: is_char_boundary_def get_from_def utf8_bytes_def)

lemma boundary_Cons:
  "is_char_boundary (c # cs) n \<longleftrightarrow> n = 0 \<or> (utf8_width c \<le> n \<and> is_char_boundary cs (n - utf8_width c))"
proof -
  obtain b bs where c: "utf8_char c = b # bs" and b: "\<not> (128 \<le> b \<and> b < 192)"
    and bs: "\<forall>x \<in> set bs. 128 \<le> x \<and> x < 192"
    using utf8_char_shape [of c] by blast
  have w: "utf8_width c = Suc (length bs)" using length_utf8_char [of c] c by simp
  have bytes: "utf8_bytes (c # cs) = (b # bs) @ utf8_bytes cs" by (simp add: utf8_bytes_def c)
  show ?thesis
  proof (cases "n < utf8_width c")
    case True
    then have "n \<noteq> 0 \<Longrightarrow> (b # bs) ! n \<in> set bs" using w by (cases n) auto
    moreover have "n \<noteq> 0 \<Longrightarrow> utf8_bytes (c # cs) ! n = (b # bs) ! n"
      using True w by (simp only: bytes nth_append) simp
    ultimately show ?thesis
      using True bs b w by (cases "n = 0") (auto simp: is_char_boundary_def get_from_def bytes)
  next
    case False
    then have "utf8_bytes (c # cs) ! n = utf8_bytes cs ! (n - utf8_width c)"
      using w by (simp only: bytes nth_append) simp
    then show ?thesis
      using False w by (auto simp: is_char_boundary_def get_from_def bytes)
  qed
qed

lemma floor_boundary_is: "is_char_boundary s (floor_boundary s n)"
  by (induction n) auto

text \<open>The slice ends at the boundary.\<close>

lemma take_bytes_boundary: "is_char_boundary s n \<Longrightarrow> n \<le> utf8_len s \<Longrightarrow> utf8_len (take_bytes n s) = n"
proof (induction n s rule: take_bytes.induct)
  case (2 n c cs)
  then show ?case by (auto simp: boundary_Cons utf8_len_def)
qed (simp add: utf8_len_def)

lemma floor_boundary_greatest: "is_char_boundary s k \<Longrightarrow> k \<le> n \<Longrightarrow> k \<le> floor_boundary s n"
  by (induction n) (auto simp: le_Suc_eq)

lemma boundary_prefix: "is_char_boundary (p @ rest) (utf8_len p)"
  by (induction p) (auto simp: boundary_Cons utf8_len_def)

text \<open>
  The error text that a status shows is a prefix of the runtime's, cut at a character
  boundary, of at most 512 bytes, and the next character would not fit.
\<close>

theorem bound_error_longest:
  "utf8_len (bound_error e) \<le> 512 \<and> is_char_boundary e (utf8_len (bound_error e)) \<and>
     (\<exists>rest. e = bound_error e @ rest \<and> (rest = [] \<or> utf8_len (bound_error e) + utf8_width (hd rest) > 512))"
proof (cases "utf8_len e \<le> max_last_error_bytes")
  case True
  then show ?thesis using boundary_prefix [of e "[]"] by (simp add: bound_error_def max_last_error_bytes_def)
next
  case False
  let ?n = "floor_boundary e 512"
  have b: "bound_error e = take_bytes ?n e" using False by (simp add: bound_error_def max_last_error_bytes_def)
  have n: "?n \<le> 512" by (rule floor_boundary_le)
  have len: "utf8_len (bound_error e) = ?n"
    unfolding b using False n by (intro take_bytes_boundary floor_boundary_is) (simp add: max_last_error_bytes_def)
  obtain rest where rest: "e = bound_error e @ rest" unfolding b using take_bytes_prefix by blast
  have "512 < ?n + utf8_width (hd rest)" if "rest \<noteq> []"
  proof (rule ccontr)
    assume "\<not> 512 < ?n + utf8_width (hd rest)"
    moreover have "is_char_boundary e (?n + utf8_width (hd rest))"
      using boundary_prefix [of "bound_error e @ [hd rest]" "tl rest"] rest that len by (simp add: utf8_len_def)
    ultimately have "?n + utf8_width (hd rest) \<le> ?n" by (intro floor_boundary_greatest) auto
    moreover have "0 < utf8_width (hd rest)" by (simp add: utf8_width_def)
    ultimately show False by simp
  qed
  with rest len n floor_boundary_is [of e 512] show ?thesis by auto
qed

section \<open>The invariant\<close>

definition status_ok :: "bool \<Rightarrow> mutable_status \<Rightarrow> bool" where
  "status_ok running m \<longleftrightarrow> (ms_actual m = ActStopped \<longrightarrow> \<not> running)
     \<and> (ms_last_error m \<noteq> None \<longleftrightarrow> ms_actual m = ActFailed)
     \<and> (\<forall>e. ms_last_error m = Some e \<longrightarrow> utf8_len e \<le> 512)"

text \<open>What no lifecycle action changes: the rows, the lock and the desired states.\<close>

definition intent :: "('m, 's) control \<Rightarrow> runtime_row list \<times> bool \<times> desired_state \<times> desired_state" where
  "intent s = (ct_rows s, ct_locked s, ms_desired (ct_mcp_status s), ms_desired (ct_scheduler_status s))"

definition other :: "workload_component \<Rightarrow> workload_component" where
  "other c = (if c = Mcp then SchedulerComponent else Mcp)"

text \<open>
  The outcome of an action on one component. \<open>Starting\<close> and \<open>Stopping\<close> outlast it only if the
  runtime panics or never returns.
\<close>

definition action_outcome ::
  "('m, 's) control_env \<Rightarrow> workload_component \<Rightarrow> workload_action \<Rightarrow> ('m, 's) control
     \<Rightarrow> (workload_error, unit) res \<Rightarrow> ('m, 's) control \<Rightarrow> bool" where
  "action_outcome env c action s r s' \<longleftrightarrow>
     (case r of
        Inr _ \<Rightarrow> ms_last_error (status_of c s') = None
          \<and> (if action = StopWorkload then ms_actual (status_of c s') = ActStopped \<and> \<not> is_running env c s'
             else ms_actual (status_of c s') = ActRunning \<and> is_running env c s')
      | Inl (Fail e) \<Rightarrow> (\<exists>text. e = TransitionFailed c (bound_error text)
          \<and> ms_actual (status_of c s') = ActFailed \<and> ms_last_error (status_of c s') = Some (bound_error text))
      | Inl _ \<Rightarrow> ms_actual (status_of c s') \<in> {ActStarting, ActStopping} \<and> ms_last_error (status_of c s') = None)
     \<and> intent s' = intent s
     \<and> status_of (other c) s' = status_of (other c) s
     \<and> is_running env (other c) s' = is_running env (other c) s"

text \<open>The parts that persisting the intent leaves alone.\<close>

definition machinery :: "('m, 's) control \<Rightarrow> 'm \<times> 's \<times> mutable_status \<times> mutable_status \<times> bool" where
  "machinery s = (ct_mcp s, ct_scheduler s, ct_mcp_status s, ct_scheduler_status s, ct_locked s)"

definition with_desired ::
  "workload_component \<Rightarrow> desired_state \<Rightarrow> stamp \<Rightarrow> ustring \<Rightarrow> runtime_row list \<Rightarrow> runtime_row list" where
  "with_desired c d at who rows =
     map (\<lambda>r. if t_component r \<in> set (map (the \<circ> persisted_name) (selected_components c))
              then r\<lparr>t_desired_state := desired_name d, t_version := t_version r + 1,
                     t_updated_at := at, t_updated_by := who\<rparr> else r) rows"

lemma ensures_calls:
  "ensures (same machinery) (control_call env)" "ensures (same machinery) (control_now env)"
  "ensures (same ct_rows) (control_call env)" "ensures (same ct_rows) (control_now env)"
  by (auto simp: ensures_def same_def machinery_def control_call_def control_now_def)

lemma ensures_update_desired: "ensures (same machinery) (update_desired env d at who c)"
  unfolding update_desired_def
  by (auto split: option.split intro!: ensures_mbind ensures_mlift ensures_calls)
    (simp add: ensures_def same_def machinery_def)

lemma ensures_rows_transaction:
  assumes "ensures (same machinery) body"
  shows "ensures (same machinery) (rows_transaction env body)"
proof (rule ensuresI)
  fix s r s' assume e: "rows_transaction env body s = (r, s')"
  have "ensures (same machinery) (mbind (control_call env) (\<lambda>_. mbind body (\<lambda>_. control_call env)))"
    using assms by (intro ensures_mbind) (simp_all add: ensures_calls)
  from ensuresD [OF this] e show "same machinery s s'"
    by (auto simp: rows_transaction_def same_def machinery_def split: prod.splits sum.splits)
qed

lemma persist_desired_machinery: "ensures (same machinery) (persist_desired env c d who)"
  unfolding persist_desired_def
  by (intro ensures_mbind ensures_rows_transaction ensures_each ensures_update_desired)
    (simp_all add: ensures_calls ensures_mlift)

lemma update_desired_rows:
  "update_desired env d at who c s = (Inr u, s') \<Longrightarrow> c \<noteq> AllComponents \<Longrightarrow> ct_rows s' = with_desired c d at who (ct_rows s)"
  by (cases c)
    (auto simp: update_desired_def persisted_name_def with_desired_def selected_components_def effect_simps
      control_call_def split: if_splits)

lemma update_each_rows:
  "each (update_desired env d at who) (selected_components c) s = (Inr u, s') \<Longrightarrow>
     ct_rows s' = with_desired c d at who (ct_rows s)"
proof (cases c)
  case AllComponents
  assume "each (update_desired env d at who) (selected_components c) s = (Inr u, s')"
  with AllComponents obtain s1 where "update_desired env d at who Mcp s = (Inr (), s1)"
    "update_desired env d at who SchedulerComponent s1 = (Inr (), s')"
    by (auto simp: selected_components_def effect_simps)
  with update_desired_rows [of env d at who Mcp s _ s1] update_desired_rows [of env d at who SchedulerComponent s1 _ s']
  have "ct_rows s' = with_desired SchedulerComponent d at who (with_desired Mcp d at who (ct_rows s))" by simp
  also have "\<dots> = with_desired c d at who (ct_rows s)"
    using AllComponents by (auto simp: with_desired_def selected_components_def persisted_name_def)
  finally show ?thesis .
qed (auto simp: selected_components_def effect_simps update_desired_rows)

lemma persist_desired_rows:
  assumes "persist_desired env c d who s = (r, s')"
  shows "(\<exists>e. r = Inl e) \<and> ct_rows s' = ct_rows s \<or> (\<exists>at. r = Ok () \<and> ct_rows s' = with_desired c d at who (ct_rows s))"
proof -
  obtain a s1 where n: "control_now env s = (Inr a, s1)" "ct_rows s1 = ct_rows s"
    by (simp add: control_now_def)
  show ?thesis
  proof (cases "map_err (\<lambda>_. InvalidPersistedState) (canonical_timestamp a)")
    case (Inl f)
    with assms n show ?thesis by (auto simp: persist_desired_def mbind_def mlift_def)
  next
    case (Inr at)
    let ?body = "each (update_desired env d at who) (selected_components c)"
    from Inr assms n have t: "rows_transaction env ?body s1 = (r, s')"
      by (simp add: persist_desired_def mbind_def mlift_def)
    show ?thesis
    proof (cases r)
      case (Inl e)
      with t n show ?thesis by (auto simp: rows_transaction_def split: prod.splits sum.splits)
    next
      case (Inr u)
      with t obtain s2 s3 where c1: "control_call env s1 = (Inr (), s2)" and b: "?body s2 = (Inr (), s3)"
        and c2: "control_call env s3 = (Inr (), s')"
        by (auto simp: rows_transaction_def effect_simps split: prod.splits sum.splits)
      from update_each_rows [OF b] ensuresD [OF ensures_calls(3) c1] ensuresD [OF ensures_calls(3) c2] n Inr
      show ?thesis by (auto simp: same_def)
    qed
  qed
qed

lemma load_desired_machinery: "ensures (same machinery) (load_desired env)" "ensures (same ct_rows) (load_desired env)"
  unfolding load_desired_def
  by (auto intro!: ensures_mbind ensures_calls) (simp_all add: ensures_def same_def)

lemma load_desired_pair: "load_desired env s = (Inr p, s') \<Longrightarrow> desired_pair (ct_rows s') = Inr p"
  by (auto simp: load_desired_def effect_simps)

text \<open>
  The steps of a controller and its workloads, one rule per operation: any caller may ask for a
  transition or for the status; \<open>shutdown\<close> and the begin of a maintenance wait for the lock; a
  maintenance may replace the database, restart and quiesce again until it is dropped; and a
  workload may end by itself.
\<close>

inductive control_step ::
  "('m, 's) control_env \<Rightarrow> ('m \<Rightarrow> 'm \<Rightarrow> bool) \<Rightarrow> ('s \<Rightarrow> 's \<Rightarrow> bool) \<Rightarrow> ('m, 's) control \<Rightarrow> ('m, 's) control \<Rightarrow> bool"
  for env mcp_ends scheduler_ends where
  act: "control_transition env c action who s = (r, s') \<Longrightarrow> control_step env mcp_ends scheduler_ends s s'"
| look: "control_status env s = (r, s') \<Longrightarrow> control_step env mcp_ends scheduler_ends s s'"
| shut: "\<not> ct_locked s \<Longrightarrow> control_shutdown env s = (q, s') \<Longrightarrow> control_step env mcp_ends scheduler_ends s s'"
| quiesce: "\<not> ct_locked s \<Longrightarrow> quiesce_for_maintenance env s = (q, s') \<Longrightarrow> control_step env mcp_ends scheduler_ends s s'"
| restart: "ct_locked s \<Longrightarrow> restart_from_persisted env s = (r, s') \<Longrightarrow> control_step env mcp_ends scheduler_ends s s'"
| again: "ct_locked s \<Longrightarrow> quiesce_again env s = (q, s') \<Longrightarrow> control_step env mcp_ends scheduler_ends s s'"
| restore: "ct_locked s \<Longrightarrow> control_step env mcp_ends scheduler_ends s (s\<lparr>ct_rows := rows\<rparr>)"
| release: "ct_locked s \<Longrightarrow> control_step env mcp_ends scheduler_ends s (release_maintenance s)"
| mcp_exit: "mcp_ends (ct_mcp s) m \<Longrightarrow> control_step env mcp_ends scheduler_ends s (s\<lparr>ct_mcp := m\<rparr>)"
| scheduler_exit: "scheduler_ends (ct_scheduler s) d \<Longrightarrow> control_step env mcp_ends scheduler_ends s (s\<lparr>ct_scheduler := d\<rparr>)"

text \<open>The steps of a maintenance before it restarts the workloads or is dropped.\<close>

inductive quiet_step ::
  "('m, 's) control_env \<Rightarrow> ('m \<Rightarrow> 'm \<Rightarrow> bool) \<Rightarrow> ('s \<Rightarrow> 's \<Rightarrow> bool) \<Rightarrow> ('m, 's) control \<Rightarrow> ('m, 's) control \<Rightarrow> bool"
  for env mcp_ends scheduler_ends where
  act: "control_transition env c action who s = (r, s') \<Longrightarrow> quiet_step env mcp_ends scheduler_ends s s'"
| look: "control_status env s = (r, s') \<Longrightarrow> quiet_step env mcp_ends scheduler_ends s s'"
| again: "quiesce_again env s = (q, s') \<Longrightarrow> quiet_step env mcp_ends scheduler_ends s s'"
| restore: "quiet_step env mcp_ends scheduler_ends s (s\<lparr>ct_rows := rows\<rparr>)"
| mcp_exit: "mcp_ends (ct_mcp s) m \<Longrightarrow> quiet_step env mcp_ends scheduler_ends s (s\<lparr>ct_mcp := m\<rparr>)"
| scheduler_exit: "scheduler_ends (ct_scheduler s) d \<Longrightarrow> quiet_step env mcp_ends scheduler_ends s (s\<lparr>ct_scheduler := d\<rparr>)"

locale workload_controller =
  m: workload_runtime "ce_mcp env" mcp_inv mcp_ends + s: workload_runtime "ce_scheduler env" scheduler_ok scheduler_ends
  for env :: "('m, 's) control_env" and mcp_inv mcp_ends scheduler_ok scheduler_ends
begin

definition runtimes_ok :: "('m, 's) control \<Rightarrow> bool" where
  "runtimes_ok s \<longleftrightarrow> mcp_inv (ct_mcp s) \<and> scheduler_ok (ct_scheduler s)"

lemma start_runtime_effect:
  assumes "start_runtime env c s = (r, s')" and "runtimes_ok s" and "c \<noteq> AllComponents"
  shows "runtimes_ok s' \<and> (r = Ok (Inr ()) \<longrightarrow> is_running env c s')
     \<and> ct_mcp_status s' = ct_mcp_status s \<and> ct_scheduler_status s' = ct_scheduler_status s \<and> intent s' = intent s
     \<and> is_running env (other c) s' = is_running env (other c) s \<and> (\<forall>e. r \<noteq> Err e)"
proof (cases c)
  case Mcp
  obtain a m where e: "rn_start (ce_mcp env) (ct_rows s) (ct_mcp s) = (a, m)" by fastforce
  with assms Mcp have "r = caught a" "s' = s\<lparr>ct_mcp := m\<rparr>" by (simp_all add: start_runtime_def)
  with Mcp m.start_keeps [OF _ e] m.start_runs [where rows = "ct_rows s" and s = "ct_mcp s" and s' = m] e assms(2)
  show ?thesis
    by (cases a rule: caught.cases) (auto simp: runtimes_ok_def intent_def is_running_def other_def)
next
  case SchedulerComponent
  obtain a m where e: "rn_start (ce_scheduler env) (ct_rows s) (ct_scheduler s) = (a, m)" by fastforce
  with assms SchedulerComponent have "r = caught a" "s' = s\<lparr>ct_scheduler := m\<rparr>" by (simp_all add: start_runtime_def)
  with SchedulerComponent s.start_keeps [OF _ e] s.start_runs [where rows = "ct_rows s" and s = "ct_scheduler s" and s' = m] e assms(2)
  show ?thesis
    by (cases a rule: caught.cases) (auto simp: runtimes_ok_def intent_def is_running_def other_def)
qed (use assms in simp)

lemma stop_runtime_effect:
  assumes "stop_runtime env c s = (r, s')" and "runtimes_ok s" and "c \<noteq> AllComponents"
  shows "runtimes_ok s' \<and> (r = Ok (Inr ()) \<longrightarrow> \<not> is_running env c s')
     \<and> ct_mcp_status s' = ct_mcp_status s \<and> ct_scheduler_status s' = ct_scheduler_status s \<and> intent s' = intent s
     \<and> is_running env (other c) s' = is_running env (other c) s \<and> (\<forall>e. r \<noteq> Err e)"
proof (cases c)
  case Mcp
  obtain a m where e: "rn_stop (ce_mcp env) (ct_mcp s) = (a, m)" by fastforce
  with assms Mcp have "r = caught a" "s' = s\<lparr>ct_mcp := m\<rparr>" by (simp_all add: stop_runtime_def)
  with Mcp m.stop_keeps [OF _ e] m.stop_stops [where s = "ct_mcp s" and s' = m] e assms(2)
  show ?thesis
    by (cases a rule: caught.cases) (auto simp: runtimes_ok_def intent_def is_running_def other_def)
next
  case SchedulerComponent
  obtain a m where e: "rn_stop (ce_scheduler env) (ct_scheduler s) = (a, m)" by fastforce
  with assms SchedulerComponent have "r = caught a" "s' = s\<lparr>ct_scheduler := m\<rparr>" by (simp_all add: stop_runtime_def)
  with SchedulerComponent s.stop_keeps [OF _ e] s.stop_stops [where s = "ct_scheduler s" and s' = m] e assms(2)
  show ?thesis
    by (cases a rule: caught.cases) (auto simp: runtimes_ok_def intent_def is_running_def other_def)
qed (use assms in simp)

text \<open>What an action on \<open>c\<close> leaves alone.\<close>

definition confined :: "workload_component \<Rightarrow> ('m, 's) control \<Rightarrow> ('m, 's) control \<Rightarrow> bool" where
  "confined c s s' \<longleftrightarrow> (runtimes_ok s \<longrightarrow> runtimes_ok s') \<and> intent s' = intent s
     \<and> status_of (other c) s' = status_of (other c) s \<and> is_running env (other c) s' = is_running env (other c) s"

lemma confined_trans: "confined c s s1 \<Longrightarrow> confined c s1 s2 \<Longrightarrow> confined c s s2"
  by (simp add: confined_def)

lemma set_actual_effect:
  assumes "c \<noteq> AllComponents"
  obtains s' where "set_actual c a e s = (Ok (), s')" "confined c s s'"
    "ms_actual (status_of c s') = a" "ms_last_error (status_of c s') = e"
    "\<And>c'. is_running env c' s' = is_running env c' s"
  using assms
  by (cases c) (auto simp: set_actual_def modify_status_def confined_def runtimes_ok_def intent_def status_of_def other_def
      is_running_def split: workload_component.split)

lemma runtime_call_effect:
  assumes "start_runtime env c s = (r, s') \<or> stop_runtime env c s = (r, s')" and "runtimes_ok s" and "c \<noteq> AllComponents"
  shows "confined c s s'" and "status_of c s' = status_of c s" and "\<And>e. r \<noteq> Err e"
proof -
  from assms(1) have "confined c s s' \<and> status_of c s' = status_of c s \<and> (\<forall>e. r \<noteq> Err e)"
    using start_runtime_effect [of c s r s'] stop_runtime_effect [of c s r s'] assms(2,3)
    by (auto simp: confined_def status_of_def split: workload_component.split)
  then show "confined c s s'" and "status_of c s' = status_of c s" and "\<And>e. r \<noteq> Err e" by auto
qed

lemma set_then_call:
  assumes "mbind (set_actual c a None) (\<lambda>_. call c) s = (r, s')"
    and "call = start_runtime env \<or> call = stop_runtime env" and "runtimes_ok s" and "c \<noteq> AllComponents"
  shows "confined c s s'" and "ms_actual (status_of c s') = a" and "ms_last_error (status_of c s') = None"
    and "\<And>e. r \<noteq> Err e"
    and "r = Ok (Inr ()) \<Longrightarrow> call = start_runtime env \<Longrightarrow> is_running env c s'"
    and "r = Ok (Inr ()) \<Longrightarrow> call = stop_runtime env \<Longrightarrow> \<not> is_running env c s'"
proof -
  obtain s1 where s1: "set_actual c a None s = (Ok (), s1)" "confined c s s1"
    "ms_actual (status_of c s1) = a" "ms_last_error (status_of c s1) = None"
    using set_actual_effect [OF assms(4)] by metis
  then have ok: "runtimes_ok s1" using assms(3) by (simp add: confined_def)
  from s1(1) assms(1) have call: "call c s1 = (r, s')" by (simp add: mbind_def)
  with assms(2) have "start_runtime env c s1 = (r, s') \<or> stop_runtime env c s1 = (r, s')" by auto
  note e = runtime_call_effect [OF this ok assms(4)]
  from confined_trans [OF s1(2) e(1)] show "confined c s s'" .
  from e(2) s1(3,4) show "ms_actual (status_of c s') = a" "ms_last_error (status_of c s') = None" by simp_all
  show "\<And>e. r \<noteq> Err e" by (rule e(3))
  show "r = Ok (Inr ()) \<Longrightarrow> call = start_runtime env \<Longrightarrow> is_running env c s'"
    using call start_runtime_effect [OF _ ok assms(4)] by blast
  show "r = Ok (Inr ()) \<Longrightarrow> call = stop_runtime env \<Longrightarrow> \<not> is_running env c s'"
    using call stop_runtime_effect [OF _ ok assms(4)] by blast
qed

lemma run_action_effect:
  assumes "run_action env c action s = (r, s')" and ok: "runtimes_ok s" and c: "c \<noteq> AllComponents"
  shows "confined c s s' \<and> ms_actual (status_of c s') \<in> {ActStarting, ActStopping}
     \<and> ms_last_error (status_of c s') = None \<and> (\<forall>e. r \<noteq> Err e)
     \<and> (r = Ok (Inr ()) \<longrightarrow> is_running env c s' = (action \<noteq> StopWorkload))"
proof (cases action)
  case StartWorkload
  with assms(1) set_then_call [where call = "start_runtime env" and a = ActStarting, OF _ _ ok c] show ?thesis
    by (simp add: run_action_def)
next
  case StopWorkload
  with assms(1) set_then_call [where call = "stop_runtime env" and a = ActStopping, OF _ _ ok c] show ?thesis
    by (simp add: run_action_def)
next
  case RestartWorkload
  obtain a s1 where stop: "mbind (set_actual c ActStopping None) (\<lambda>_. stop_runtime env c) s = (a, s1)" by fastforce
  note e = set_then_call [where call = "stop_runtime env", OF stop _ ok c, simplified]
  from e(1) ok have ok1: "runtimes_ok s1" by (simp add: confined_def)
  have run: "run_action env c action s =
     (case a of Inl f \<Rightarrow> (Inl f, s1) | Inr (Inl t) \<Rightarrow> (Ok (Inl t), s1)
      | Inr (Inr _) \<Rightarrow> mbind (set_actual c ActStarting None) (\<lambda>_. start_runtime env c) s1)"
    using stop RestartWorkload
    by (auto simp: run_action_def mbind_def mlift_def split: prod.splits sum.splits)
  show ?thesis
  proof (cases "\<exists>u. a = Inr (Inr u)")
    case True
    with run assms(1) have "mbind (set_actual c ActStarting None) (\<lambda>_. start_runtime env c) s1 = (r, s')" by auto
    note st = set_then_call [where call = "start_runtime env", OF this _ ok1 c, simplified]
    from confined_trans [OF e(1) st(1)] st RestartWorkload show ?thesis by simp
  next
    case False
    with run assms(1) have "s' = s1 \<and> (r = a \<or> (\<exists>t. r = Ok (Inl t)))"
      by (auto split: sum.splits)
    with e RestartWorkload False show ?thesis by auto
  qed
qed

lemma apply_action_effect:
  assumes "apply_action env c action s = (r, s')" and ok: "runtimes_ok s" and c: "c \<noteq> AllComponents"
  shows "runtimes_ok s' \<and> action_outcome env c action s r s'"
proof -
  obtain a s1 where run: "run_action env c action s = (a, s1)" by fastforce
  note e = run_action_effect [OF run ok c]
  then have conf: "confined c s s1" by blast
  have outcome: "confined c s s' \<Longrightarrow> action_outcome env c action s r s' \<longleftrightarrow>
     (case r of
        Inr _ \<Rightarrow> ms_last_error (status_of c s') = None
          \<and> (if action = StopWorkload then ms_actual (status_of c s') = ActStopped \<and> \<not> is_running env c s'
             else ms_actual (status_of c s') = ActRunning \<and> is_running env c s')
      | Inl (Fail e) \<Rightarrow> (\<exists>text. e = TransitionFailed c (bound_error text)
          \<and> ms_actual (status_of c s') = ActFailed \<and> ms_last_error (status_of c s') = Some (bound_error text))
      | Inl _ \<Rightarrow> ms_actual (status_of c s') \<in> {ActStarting, ActStopping} \<and> ms_last_error (status_of c s') = None)"
    by (auto simp: action_outcome_def confined_def split: sum.splits failure.splits)
  have conf_ok: "confined c s s' \<Longrightarrow> runtimes_ok s'" using ok by (simp add: confined_def)
  consider f where "a = Inl f" | t where "a = Inr (Inl t)" | "a = Inr (Inr ())" by (metis old.unit.exhaust sum.exhaust)
  then show ?thesis
  proof cases
    case (1 f)
    with run assms(1) have "r = Inl f" "s' = s1" by (simp_all add: apply_action_def mbind_def)
    with 1 e conf outcome conf_ok show ?thesis by (cases f) auto
  next
    case (2 t)
    obtain s2 where s2: "set_actual c ActFailed (Some (bound_error t)) s1 = (Ok (), s2)" "confined c s1 s2"
      "ms_actual (status_of c s2) = ActFailed" "ms_last_error (status_of c s2) = Some (bound_error t)"
      using set_actual_effect [OF c] by metis
    with 2 run assms(1) have "r = Err (TransitionFailed c (bound_error t))" "s' = s2"
      by (simp_all add: apply_action_def mbind_def mlift_def fail_transition_def)
    with s2 confined_trans [OF conf s2(2)] outcome conf_ok show ?thesis by auto
  next
    case 3
    let ?a = "if action = StopWorkload then ActStopped else ActRunning"
    obtain s2 where s2: "set_actual c ?a None s1 = (Ok (), s2)" "confined c s1 s2"
      "ms_actual (status_of c s2) = ?a" "ms_last_error (status_of c s2) = None" "is_running env c s2 = is_running env c s1"
      using set_actual_effect [where a = ?a and e = None and s = s1, OF c] by blast
    with 3 run assms(1) have "r = Ok ()" "s' = s2"
      by (simp_all add: apply_action_def mbind_def)
    with s2 3 e confined_trans [OF conf s2(2)] outcome conf_ok show ?thesis by (auto split: if_splits)
  qed
qed

definition control_ok :: "('m, 's) control \<Rightarrow> bool" where
  "control_ok s \<longleftrightarrow> runtimes_ok s \<and> status_ok (is_running env Mcp s) (status_of Mcp s)
     \<and> status_ok (is_running env SchedulerComponent s) (status_of SchedulerComponent s)"

lemma control_ok_runtimes: "control_ok s \<Longrightarrow> runtimes_ok s"
  by (simp add: control_ok_def)

lemma machinery_same:
  assumes "same machinery s s'"
  shows "control_ok s' = control_ok s" and "is_running env c s' = is_running env c s"
    and "status_of c s' = status_of c s" and "ct_locked s' = ct_locked s"
  using assms
  by (auto simp: same_def machinery_def control_ok_def runtimes_ok_def status_of_def is_running_def
      split: workload_component.split)

lemma outcome_status_ok:
  "action_outcome env c action s r s' \<Longrightarrow> status_ok (is_running env c s') (status_of c s')"
proof (cases r)
  case (Inl f)
  assume "action_outcome env c action s r s'"
  with Inl bound_error_longest show ?thesis
    by (cases f) (auto simp: action_outcome_def status_ok_def)
next
  case (Inr u)
  assume "action_outcome env c action s r s'"
  with Inr show ?thesis by (auto simp: action_outcome_def status_ok_def split: if_splits)
qed

lemma apply_action_ok:
  assumes "apply_action env c action s = (r, s')" and "control_ok s" and "c \<noteq> AllComponents"
  shows "control_ok s'" and "action_outcome env c action s r s'"
proof -
  from apply_action_effect [OF assms(1) control_ok_runtimes [OF assms(2)] assms(3)]
  have o: "runtimes_ok s'" "action_outcome env c action s r s'" by simp_all
  then have "status_ok (is_running env (other c) s') (status_of (other c) s')"
    using assms(2) by (auto simp: action_outcome_def control_ok_def other_def split: if_splits)
  with o outcome_status_ok [OF o(2)] assms(3) show "control_ok s'"
    by (cases c) (auto simp: control_ok_def other_def)
  show "action_outcome env c action s r s'" by (rule o(2))
qed

lemma keeps_apply: "c \<noteq> AllComponents \<Longrightarrow> ensures (keeping control_ok) (apply_action env c action)"
  by (rule ensuresI) (auto simp: keeping_def dest: apply_action_ok(1))

lemma intent_apply:
  assumes "c \<noteq> AllComponents" and "control_ok s" and "apply_action env c action s = (r, s')"
  shows "intent s' = intent s"
  using apply_action_ok(2) [OF assms(3,2,1)] by (simp add: action_outcome_def)

lemma set_actual_ok:
  assumes "set_actual c a None s = (r, s')" and "control_ok s" and "c \<noteq> AllComponents"
    and "a = (if is_running env c s then ActRunning else ActStopped)"
  shows "control_ok s'" and "r = Ok ()" and "intent s' = intent s"
    and "is_running env c' s' = is_running env c' s" and "status_of (other c) s' = status_of (other c) s"
    and "ms_actual (status_of c s') = a" and "ms_last_error (status_of c s') = None"
proof -
  obtain t where t: "set_actual c a None s = (Ok (), t)" "confined c s t" "ms_actual (status_of c t) = a"
    "ms_last_error (status_of c t) = None" "\<And>c'. is_running env c' t = is_running env c' s"
    by (rule set_actual_effect [where a = a and e = None and s = s, OF assms(3)]) blast
  with assms(1) have e: "t = s'" "r = Ok ()" by simp_all
  with t assms(2,3,4) show "control_ok s'"
    by (cases c) (auto simp: control_ok_def confined_def status_ok_def other_def split: if_splits)
  from t e show "r = Ok ()" "intent s' = intent s" "is_running env c' s' = is_running env c' s"
    "status_of (other c) s' = status_of (other c) s" "ms_actual (status_of c s') = a" "ms_last_error (status_of c s') = None"
    by (simp_all add: confined_def)
qed

text \<open>The desired state of a component, and what the operations on both do to it.\<close>

lemma reconcile_effect:
  assumes "reconcile_component env c d s = (r, s')" and "control_ok s" and "c \<noteq> AllComponents"
  shows "control_ok s' \<and> intent s' = intent s \<and> is_running env (other c) s' = is_running env (other c) s
     \<and> status_of (other c) s' = status_of (other c) s
     \<and> (r = Ok () \<longrightarrow> is_running env c s' = (d = DesiredRunning) \<and> ms_last_error (status_of c s') = None
           \<and> ms_actual (status_of c s') = (if d = DesiredRunning then ActRunning else ActStopped))"
proof (cases "is_running env c s = (d = DesiredRunning)")
  case True
  with assms(1) have "set_actual c (if d = DesiredRunning then ActRunning else ActStopped) None s = (r, s')"
    by (cases d) (simp_all add: reconcile_component_def)
  from set_actual_ok [OF this assms(2,3)] True show ?thesis by simp
next
  case False
  with assms(1) have "apply_action env c (if d = DesiredRunning then StartWorkload else StopWorkload) s = (r, s')"
    by (cases d) (auto simp: reconcile_component_def)
  from apply_action_ok [OF this assms(2,3)] False show ?thesis
    by (auto simp: action_outcome_def split: if_splits)
qed

lemma set_desired_eq:
  "set_desired c d s = (Ok (), s\<lparr>
     ct_mcp_status := (if c = SchedulerComponent then ct_mcp_status s else (ct_mcp_status s)\<lparr>ms_desired := d\<rparr>),
     ct_scheduler_status := (if c = Mcp then ct_scheduler_status s else (ct_scheduler_status s)\<lparr>ms_desired := d\<rparr>)\<rparr>)"
  by (cases c) (simp_all add: set_desired_def selected_components_def modify_status_def mbind_def mlift_def)

lemma set_desired_keeps:
  assumes "set_desired c d s = (r, s')"
  shows "control_ok s' = control_ok s" and "is_running env c' s' = is_running env c' s"
    and "ct_rows s' = ct_rows s" and "ct_locked s' = ct_locked s" and "r = Ok ()"
    and "c' \<noteq> AllComponents \<Longrightarrow>
      status_of c' s' = (if c' \<in> set (selected_components c) then (status_of c' s)\<lparr>ms_desired := d\<rparr> else status_of c' s)"
proof -
  let ?m = "if c = SchedulerComponent then ct_mcp_status s else (ct_mcp_status s)\<lparr>ms_desired := d\<rparr>"
  let ?d = "if c = Mcp then ct_scheduler_status s else (ct_scheduler_status s)\<lparr>ms_desired := d\<rparr>"
  from assms have e: "r = Ok ()" "s' = s\<lparr>ct_mcp_status := ?m, ct_scheduler_status := ?d\<rparr>"
    by (simp_all add: set_desired_eq)
  have ok: "status_ok running ?m = status_ok running (ct_mcp_status s)"
      "status_ok running ?d = status_ok running (ct_scheduler_status s)" for running
    by (simp_all add: status_ok_def)
  show run: "is_running env c' s' = is_running env c' s" for c'
    unfolding e(2) by (cases c') (simp_all add: is_running_def)
  have "runtimes_ok s' = runtimes_ok s" unfolding e(2) by (simp add: runtimes_ok_def)
  moreover have "status_of Mcp s' = ?m" "status_of SchedulerComponent s' = ?d"
    unfolding e(2) by (simp_all add: status_of_def)
  ultimately show "control_ok s' = control_ok s"
    unfolding control_ok_def run by (simp only: ok) (simp add: status_of_def)
  show "ct_rows s' = ct_rows s" "ct_locked s' = ct_locked s" "r = Ok ()" using e by simp_all
  show "c' \<noteq> AllComponents \<Longrightarrow>
      status_of c' s' = (if c' \<in> set (selected_components c) then (status_of c' s)\<lparr>ms_desired := d\<rparr> else status_of c' s)"
    using assms unfolding set_desired_eq
    by (cases c; cases c') (auto simp: status_of_def selected_components_def)
qed

lemma control_status_effect:
  assumes "control_status env s = (r, s')"
  shows "r = Ok [status_snapshot Mcp (status_of Mcp s'), status_snapshot SchedulerComponent (status_of SchedulerComponent s')]"
    and "intent s' = intent s" and "is_running env c s' = is_running env c s" and "control_ok s \<Longrightarrow> control_ok s'"
    and "c \<noteq> AllComponents \<Longrightarrow> ms_actual (status_of c s') = ActRunning \<Longrightarrow> is_running env c s'"
    and "c \<noteq> AllComponents \<Longrightarrow> status_of c s' = refresh_runtime_state (is_running env c s) (status_of c s)"
proof -
  let ?m = "refresh_runtime_state (is_running env Mcp s) (ct_mcp_status s)"
  let ?d = "refresh_runtime_state (is_running env SchedulerComponent s) (ct_scheduler_status s)"
  from assms have e: "r = Ok [status_snapshot Mcp ?m, status_snapshot SchedulerComponent ?d]"
    "s' = s\<lparr>ct_mcp_status := ?m, ct_scheduler_status := ?d\<rparr>"
    by (simp_all add: control_status_def Let_def)
  have ok: "status_ok running m \<Longrightarrow> status_ok running (refresh_runtime_state running m)" for running m
    by (auto simp: status_ok_def refresh_runtime_state_def utf8_len_def utf8_width_def)
  show "r = Ok [status_snapshot Mcp (status_of Mcp s'), status_snapshot SchedulerComponent (status_of SchedulerComponent s')]"
    using e by (simp add: status_of_def)
  show "intent s' = intent s" using e by (simp add: intent_def refresh_runtime_state_def)
  show run: "is_running env c s' = is_running env c s" for c
    using e by (simp add: is_running_def split: workload_component.split)
  show st: "c \<noteq> AllComponents \<Longrightarrow> status_of c s' = refresh_runtime_state (is_running env c s) (status_of c s)" for c
    using e by (cases c) (simp_all add: status_of_def)
  have "runtimes_ok s' = runtimes_ok s" using e(2) by (simp add: runtimes_ok_def)
  with ok show "control_ok s \<Longrightarrow> control_ok s'" by (simp add: control_ok_def st run)
  show "c \<noteq> AllComponents \<Longrightarrow> ms_actual (status_of c s') = ActRunning \<Longrightarrow> is_running env c s'"
    by (auto simp: st run refresh_runtime_state_def split: if_splits)
qed

text \<open>Actions on each selected component.\<close>

definition settled :: "workload_action \<Rightarrow> workload_component \<Rightarrow> ('m, 's) control \<Rightarrow> bool" where
  "settled action c s \<longleftrightarrow> is_running env c s = (action \<noteq> StopWorkload) \<and> ms_last_error (status_of c s) = None
     \<and> ms_actual (status_of c s) = (if action = StopWorkload then ActStopped else ActRunning)"

definition failed_on :: "workload_component \<Rightarrow> workload_error \<Rightarrow> ('m, 's) control \<Rightarrow> bool" where
  "failed_on c e s \<longleftrightarrow> (\<exists>text. e = TransitionFailed c text \<and> ms_actual (status_of c s) = ActFailed
     \<and> ms_last_error (status_of c s) = Some text)"

lemma outcome_cases:
  assumes "action_outcome env c action s r s'"
  shows "r = Ok () \<Longrightarrow> settled action c s'" and "r = Err e \<Longrightarrow> failed_on c e s'"
  using assms by (auto simp: action_outcome_def settled_def failed_on_def split: if_splits)

lemma each_actions_effect:
  assumes "each (\<lambda>c'. apply_action env c' action) (selected_components c) s = (r, s')" and "control_ok s"
  shows "control_ok s' \<and> intent s' = intent s
     \<and> (\<forall>c'. c' \<noteq> AllComponents \<longrightarrow> c' \<notin> set (selected_components c) \<longrightarrow>
          status_of c' s' = status_of c' s \<and> is_running env c' s' = is_running env c' s)
     \<and> (r = Ok () \<longrightarrow> (\<forall>c' \<in> set (selected_components c). settled action c' s'))
     \<and> (\<forall>e. r = Err e \<longrightarrow> (\<exists>c' \<in> set (selected_components c). failed_on c' e s'))"
proof (cases "c = AllComponents")
  case False
  then have sel: "selected_components c = [c]" by (cases c) (simp_all add: selected_components_def)
  with assms(1) have "apply_action env c action s = (r, s')"
    by (cases "apply_action env c action s") (auto simp: mbind_def mlift_def split: sum.splits)
  note o = apply_action_ok [OF this assms(2) False]
  then have i: "intent s' = intent s" "status_of (other c) s' = status_of (other c) s"
      "is_running env (other c) s' = is_running env (other c) s"
    by (simp_all add: action_outcome_def)
  have "c' = other c" if "c' \<noteq> AllComponents" "c' \<notin> set (selected_components c)" for c'
    using that False unfolding sel by (cases c; cases c') (simp_all add: other_def)
  with o i outcome_cases [OF o(2)] show ?thesis by (auto simp: sel)
next
  case True
  then have sel: "selected_components c = [Mcp, SchedulerComponent]" by (simp add: selected_components_def)
  have every: "c' \<in> set (selected_components c)" if "c' \<noteq> AllComponents" for c'
    using that by (cases c') (simp_all add: sel)
  obtain a s1 where a: "apply_action env Mcp action s = (a, s1)" by fastforce
  note o1 = apply_action_ok [OF a assms(2), simplified]
  then have i1: "intent s1 = intent s" by (simp add: action_outcome_def)
  show ?thesis
  proof (cases a)
    case (Inl f)
    with assms(1) a have "r = Inl f" "s' = s1" by (simp_all add: sel mbind_def)
    with Inl o1 i1 outcome_cases [OF o1(2)] every show ?thesis by (auto simp: sel)
  next
    case (Inr u)
    obtain b s2 where b: "apply_action env SchedulerComponent action s1 = (b, s2)" by fastforce
    note o2 = apply_action_ok [OF b o1(1), simplified]
    have "settled action Mcp s1" using outcome_cases(1) [OF o1(2)] Inr by simp
    moreover from o2 have "status_of Mcp s2 = status_of Mcp s1" "is_running env Mcp s2 = is_running env Mcp s1"
        "intent s2 = intent s1"
      by (simp_all add: action_outcome_def other_def)
    ultimately have m: "settled action Mcp s2" "intent s2 = intent s" using i1 by (simp_all add: settled_def)
    from assms(1) a b Inr have "r = b" "s' = s2"
      by (auto simp: sel mbind_def mlift_def split: sum.splits)
    with m o2 outcome_cases [OF o2(2)] every show ?thesis by (auto simp: sel)
  qed
qed

lemma stop_if_running_effect:
  assumes "stop_if_running env c s = (r, s')" and "control_ok s" and "c \<noteq> AllComponents"
  shows "control_ok s' \<and> intent s' = intent s \<and> is_running env (other c) s' = is_running env (other c) s
     \<and> (r = Ok () \<longrightarrow> \<not> is_running env c s')"
  using assms apply_action_ok [of c StopWorkload s r s']
  by (auto simp: stop_if_running_def action_outcome_def split: if_splits)

lemma stop_all_effect:
  assumes "each (stop_if_running env) (selected_components AllComponents) s = (r, s')" and "control_ok s"
  shows "control_ok s' \<and> intent s' = intent s
     \<and> (r = Ok () \<longrightarrow> \<not> is_running env Mcp s' \<and> \<not> is_running env SchedulerComponent s')"
proof -
  obtain a s1 where a: "stop_if_running env Mcp s = (a, s1)" by fastforce
  note e1 = stop_if_running_effect [OF a assms(2), simplified]
  obtain b s2 where b: "stop_if_running env SchedulerComponent s1 = (b, s2)" by fastforce
  have e2: "control_ok s1 \<Longrightarrow> control_ok s2 \<and> intent s2 = intent s1 \<and> is_running env Mcp s2 = is_running env Mcp s1
     \<and> (b = Ok () \<longrightarrow> \<not> is_running env SchedulerComponent s2)"
    using stop_if_running_effect [OF b] by (simp add: other_def)
  from assms(1) a b have "(r, s') = (case a of Inl f \<Rightarrow> (Inl f, s1) | Inr _ \<Rightarrow> (b, s2))"
    by (auto simp: selected_components_def mbind_def mlift_def split: sum.splits)
  with e1 e2 show ?thesis by (cases a) auto
qed

lemma restart_stopped_keeps:
  "restart_stopped env cs s = (r, s') \<Longrightarrow> control_ok s \<Longrightarrow> AllComponents \<notin> set cs \<Longrightarrow> control_ok s' \<and> intent s' = intent s"
proof (induction cs arbitrary: s)
  case (Cons c cs)
  obtain a s1 where a: "apply_action env c StartWorkload s = (a, s1)" by fastforce
  from Cons.prems have c: "c \<noteq> AllComponents" by auto
  have e: "control_ok s1" "intent s1 = intent s"
    using apply_action_ok(1) [OF a Cons.prems(2) c] intent_apply [OF c Cons.prems(2) a] by auto
  from Cons.prems(1) a have "s' = s1 \<or> restart_stopped env cs s1 = (r, s')"
    by (auto split: sum.splits failure.splits)
  with e Cons.IH [of s1] Cons.prems(3) show ?case by auto
qed (simp add: mlift_def)

lemma quiesce_loop_effect:
  "quiesce_loop env stopped cs s = (r, s') \<Longrightarrow> control_ok s \<Longrightarrow> AllComponents \<notin> set cs \<union> set stopped \<Longrightarrow> distinct cs \<Longrightarrow>
     control_ok s' \<and> intent s' = intent s
     \<and> (r = Ok () \<longrightarrow> (\<forall>c \<in> set cs. \<not> is_running env c s')
          \<and> (\<forall>c. c \<notin> set cs \<longrightarrow> is_running env c s' = is_running env c s))"
proof (induction cs arbitrary: s stopped)
  case (Cons c cs)
  from Cons.prems have c: "c \<noteq> AllComponents" and cs: "AllComponents \<notin> set cs" "c \<notin> set cs" "distinct cs" by auto
  have other: "c' \<noteq> c \<Longrightarrow> c' \<noteq> AllComponents \<Longrightarrow> c' = other c" for c'
    using c by (cases c; cases c') (simp_all add: other_def)
  have all: "is_running env AllComponents t = False" for t by (simp add: is_running_def)
  show ?case
  proof (cases "is_running env c s")
    case False
    with Cons.prems(1) have "quiesce_loop env stopped cs s = (r, s')" by simp
    from Cons.IH [OF this Cons.prems(2)] Cons.prems(3) cs False show ?thesis by auto
  next
    case True
    obtain a s1 where a: "apply_action env c StopWorkload s = (a, s1)" by fastforce
    note o = apply_action_ok [OF a Cons.prems(2) c]
    from o(2) have i: "intent s1 = intent s" "is_running env (other c) s1 = is_running env (other c) s"
      by (simp_all add: action_outcome_def)
    consider (failed) e where "a = Err e" | (lost) f where "a = Inl f" "\<forall>e. f \<noteq> Fail e" | (stopped) "a = Ok ()"
      by (metis old.unit.exhaust sum.exhaust)
    then show ?thesis
    proof cases
      case failed
      obtain b s2 where b: "restart_stopped env (rev stopped) s1 = (b, s2)" by fastforce
      with failed Cons.prems(1) True a have "s' = s2 \<and> r \<noteq> Ok ()"
        by (auto simp: mbind_def mlift_def split: sum.splits)
      with restart_stopped_keeps [OF b o(1)] Cons.prems(3) i show ?thesis by auto
    next
      case lost
      with Cons.prems(1) True a have "s' = s1 \<and> r = Inl f" by (cases f) simp_all
      with o i lost show ?thesis by auto
    next
      case stopped
      with Cons.prems(1) True a have "quiesce_loop env (stopped @ [c]) cs s1 = (r, s')" by simp
      from Cons.IH [OF this o(1)] Cons.prems(3) cs
      have ih: "control_ok s' \<and> intent s' = intent s1 \<and> (r = Ok () \<longrightarrow> (\<forall>c \<in> set cs. \<not> is_running env c s')
          \<and> (\<forall>c. c \<notin> set cs \<longrightarrow> is_running env c s' = is_running env c s1))" by auto
      have "\<not> is_running env c s1" using outcome_cases(1) [OF o(2)] stopped by (simp add: settled_def)
      moreover have "is_running env c' s1 = is_running env c' s" if "c' \<noteq> c" for c'
        using other [OF that] i(2) all by (cases "c' = AllComponents") auto
      ultimately show ?thesis using ih i cs by auto
    qed
  qed
qed (simp add: mlift_def)

lemma quiesce_effect:
  assumes "quiesce_for_maintenance env s = (r, s')" and "control_ok s"
  shows "control_ok s' \<and> ct_rows s' = ct_rows s \<and> ms_desired (status_of c s') = ms_desired (status_of c s)
     \<and> (if r = Ok () then ct_locked s' \<and> \<not> is_running env c s' else ct_locked s' = ct_locked s)"
proof -
  obtain a s1 where a: "quiesce_loop env [] (selected_components AllComponents) s = (a, s1)" by fastforce
  have "selected_components AllComponents = [Mcp, SchedulerComponent]" by (simp add: selected_components_def)
  with quiesce_loop_effect [OF a assms(2)] have e: "control_ok s1" "intent s1 = intent s"
    "a = Ok () \<Longrightarrow> \<not> is_running env Mcp s1" "a = Ok () \<Longrightarrow> \<not> is_running env SchedulerComponent s1"
    by simp_all
  from assms(1) a have s': "(r, s') = (case a of Inl f \<Rightarrow> (Inl f, s1) | Inr _ \<Rightarrow> (Ok (), s1\<lparr>ct_locked := True\<rparr>))"
    by (auto simp: quiesce_for_maintenance_def mbind_def split: sum.splits)
  have lock: "control_ok (t\<lparr>ct_locked := b\<rparr>) = control_ok t" "is_running env c (t\<lparr>ct_locked := b\<rparr>) = is_running env c t"
      "status_of c (t\<lparr>ct_locked := b\<rparr>) = status_of c t" for t b c
    by (auto simp: control_ok_def runtimes_ok_def is_running_def status_of_def split: workload_component.split)
  show ?thesis
  proof (cases a)
    case (Inl f)
    with s' e show ?thesis by (cases c) (auto simp: intent_def status_of_def)
  next
    case (Inr u)
    with s' e have "r = Ok ()" "s' = s1\<lparr>ct_locked := True\<rparr>" by simp_all
    with e Inr show ?thesis
      by (cases c) (simp_all add: lock, auto simp: intent_def status_of_def is_running_def)
  qed
qed

lemma reconcile_both:
  assumes "mbind (reconcile_component env Mcp m) (\<lambda>_. reconcile_component env SchedulerComponent d) s = (r, s')"
    and "control_ok s"
  shows "control_ok s' \<and> intent s' = intent s
     \<and> (r = Ok () \<longrightarrow> is_running env Mcp s' = (m = DesiredRunning) \<and> is_running env SchedulerComponent s' = (d = DesiredRunning))"
proof -
  obtain a s1 where a: "reconcile_component env Mcp m s = (a, s1)" by fastforce
  note e1 = reconcile_effect [OF a assms(2), simplified]
  obtain b s2 where b: "reconcile_component env SchedulerComponent d s1 = (b, s2)" by fastforce
  have e2: "control_ok s2 \<and> intent s2 = intent s1 \<and> is_running env Mcp s2 = is_running env Mcp s1
     \<and> (b = Ok () \<longrightarrow> is_running env SchedulerComponent s2 = (d = DesiredRunning))"
    using reconcile_effect [OF b, simplified] e1 by (simp add: other_def)
  from assms(1) a b have "(r, s') = (case a of Inl f \<Rightarrow> (Inl f, s1) | Inr _ \<Rightarrow> (b, s2))"
    by (auto simp: mbind_def split: sum.splits)
  with e1 e2 show ?thesis by (cases a) auto
qed

lemma from_runtimes_effect:
  assumes "from_runtimes env s = (r, s')" and "runtimes_ok s" and "r = Ok ()"
  shows "control_ok s' \<and> \<not> ct_locked s' \<and> ct_rows s' = ct_rows s
     \<and> (\<exists>m d. desired_pair (ct_rows s) = Inr (m, d)
          \<and> ms_desired (ct_mcp_status s') = m \<and> ms_desired (ct_scheduler_status s') = d
          \<and> is_running env Mcp s' = (m = DesiredRunning) \<and> is_running env SchedulerComponent s' = (d = DesiredRunning))"
proof -
  let ?init = "\<lambda>m d s. s\<lparr>ct_mcp_status := initial_status m (is_running env Mcp s),
      ct_scheduler_status := initial_status d (is_running env SchedulerComponent s), ct_locked := False\<rparr>"
  from assms(1,3) obtain m d s1 where l: "load_desired env s = (Inr (m, d), s1)"
    and rec: "mbind (reconcile_component env Mcp m) (\<lambda>_. reconcile_component env SchedulerComponent d) (?init m d s1) = (r, s')"
    by (auto simp: from_runtimes_def effect_simps split: prod.splits)
  from ensuresD [OF load_desired_machinery(1) l] ensuresD [OF load_desired_machinery(2) l] load_desired_pair [OF l]
  have s1: "ct_mcp s1 = ct_mcp s" "ct_scheduler s1 = ct_scheduler s" "ct_rows s1 = ct_rows s" "desired_pair (ct_rows s) = Inr (m, d)"
    by (simp_all add: same_def machinery_def)
  have "control_ok (?init m d s1)"
    using assms(2) s1 by (simp add: control_ok_def runtimes_ok_def status_ok_def initial_status_def status_of_def is_running_def)
  from reconcile_both [OF rec this] assms(3) s1 show ?thesis
    by (simp add: intent_def initial_status_def)
qed

lemma restart_effect:
  assumes "restart_from_persisted env s = (r, s')" and "control_ok s"
  shows "control_ok s' \<and> ct_rows s' = ct_rows s \<and> ct_locked s' = ct_locked s
     \<and> ((\<exists>l. r = Ok l) \<longrightarrow> (\<exists>m d. desired_pair (ct_rows s) = Inr (m, d)
          \<and> is_running env Mcp s' = (m = DesiredRunning) \<and> is_running env SchedulerComponent s' = (d = DesiredRunning)))"
proof -
  obtain a s1 where l: "load_desired env s = (a, s1)" by fastforce
  from ensuresD [OF load_desired_machinery(1) l] ensuresD [OF load_desired_machinery(2) l]
  have s1: "same machinery s s1" "ct_rows s1 = ct_rows s" by (simp_all add: same_def)
  note s1 = s1 machinery_same [OF s1(1)]
  show ?thesis
  proof (cases a)
    case (Inl f)
    with assms(1) l have "r = Inl f" "s' = s1" by (simp_all add: restart_from_persisted_def mbind_def)
    with s1 assms(2) show ?thesis by simp
  next
    case (Inr p)
    obtain m d where p: "p = (m, d)" by fastforce
    obtain b s2 where b: "set_desired Mcp m s1 = (b, s2)" by fastforce
    obtain c s3 where c: "set_desired SchedulerComponent d s2 = (c, s3)" by fastforce
    note k2 = set_desired_keeps [OF b] and k3 = set_desired_keeps [OF c]
    obtain e s4 where rec: "mbind (reconcile_component env Mcp m) (\<lambda>_. reconcile_component env SchedulerComponent d) s3 = (e, s4)"
      by fastforce
    have ok: "control_ok s3" using assms(2) s1 k2 k3 by simp
    note both = reconcile_both [OF rec ok]
    from assms(1) l Inr p b c k2(5) k3(5) rec
    have "(r, s') = (case e of Inl f \<Rightarrow> (Inl f, s4) | Inr _ \<Rightarrow> control_status env s4)"
      by (auto simp: restart_from_persisted_def mbind_def split: sum.splits prod.splits)
    moreover from both have "ct_rows s4 = ct_rows s3" "ct_locked s4 = ct_locked s3" by (simp_all add: intent_def)
    moreover have "desired_pair (ct_rows s) = Inr (m, d)" using load_desired_pair [OF l [unfolded Inr p]] s1 by simp
    ultimately show ?thesis
    proof (cases e)
      case (Inr u)
      with \<open>(r, s') = _\<close> have st: "control_status env s4 = (r, s')" by simp
      from control_status_effect(2,4) [OF st] control_status_effect(3) [OF st] both Inr k2 k3 s1
        \<open>desired_pair _ = _\<close> show ?thesis by (auto simp: intent_def)
    qed (use both k2 k3 s1 in auto)
  qed
qed

lemma transition_effect:
  assumes "control_transition env c action who s = (r, s')" and "control_ok s"
  shows "control_ok s'"
    and "ct_locked s \<Longrightarrow> r = Err TransitionConflict \<and> s' = s"
    and "\<not> ct_locked s \<Longrightarrow> ct_locked s' = ct_locked s \<and>
      ((\<exists>f. r = Inl f) \<and> ct_rows s' = ct_rows s \<and> same machinery s s'
       \<or> ((\<exists>at. ct_rows s' = with_desired c (action_desired action) at who (ct_rows s))
          \<and> (\<forall>c' \<in> set (selected_components c). ms_desired (status_of c' s') = action_desired action)
          \<and> (\<forall>l. r = Ok l \<longrightarrow> l = [status_snapshot Mcp (status_of Mcp s'), status_snapshot SchedulerComponent (status_of SchedulerComponent s')]
                \<and> (\<forall>c' \<in> set (selected_components c). settled action c' s'))
          \<and> (\<forall>e. r = Err e \<longrightarrow> (\<exists>c' \<in> set (selected_components c). failed_on c' e s'))))"
proof -
  have "control_ok s' \<and> (ct_locked s \<longrightarrow> r = Err TransitionConflict \<and> s' = s) \<and> (\<not> ct_locked s \<longrightarrow> ct_locked s' = ct_locked s \<and>
      ((\<exists>f. r = Inl f) \<and> ct_rows s' = ct_rows s \<and> same machinery s s'
       \<or> ((\<exists>at. ct_rows s' = with_desired c (action_desired action) at who (ct_rows s))
          \<and> (\<forall>c' \<in> set (selected_components c). ms_desired (status_of c' s') = action_desired action)
          \<and> (\<forall>l. r = Ok l \<longrightarrow> l = [status_snapshot Mcp (status_of Mcp s'), status_snapshot SchedulerComponent (status_of SchedulerComponent s')]
                \<and> (\<forall>c' \<in> set (selected_components c). settled action c' s'))
          \<and> (\<forall>e. r = Err e \<longrightarrow> (\<exists>c' \<in> set (selected_components c). failed_on c' e s')))))"
    (is "?goal")
  proof (cases "ct_locked s")
    case True
    with assms show ?goal by (simp add: control_transition_def)
  next
    case unlocked: False
    obtain a s1 where p: "persist_desired env c (action_desired action) who s = (a, s1)" by fastforce
    have m1: "same machinery s s1" by (rule ensuresD [OF persist_desired_machinery p])
    note k1 = machinery_same [OF m1]
    show ?goal
    proof (cases a)
      case (Inl f)
      with p assms(1) unlocked have "r = Inl f" "s' = s1" by (simp_all add: control_transition_def mbind_def)
      with Inl k1 m1 assms(2) persist_desired_rows [OF p] unlocked show ?goal by auto
    next
      case (Inr u)
      obtain b s2 where b: "set_desired c (action_desired action) s1 = (b, s2)" by fastforce
      note k2 = set_desired_keeps [OF b]
      obtain e s3 where e: "each (\<lambda>c'. apply_action env c' action) (selected_components c) s2 = (e, s3)" by fastforce
      have ok2: "control_ok s2" using k1 k2 assms(2) by simp
      note acts = each_actions_effect [OF e ok2]
      from p Inr b k2(5) e assms(1) unlocked
      have r: "(r, s') = (case e of Inl f \<Rightarrow> (Inl f, s3) | Inr _ \<Rightarrow> control_status env s3)"
        by (auto simp: control_transition_def mbind_def split: sum.splits)
      have rows: "\<exists>at. ct_rows s2 = with_desired c (action_desired action) at who (ct_rows s)"
        using persist_desired_rows [OF p] Inr k2 by auto
      have sel: "AllComponents \<notin> set (selected_components c)" by (simp add: selected_components_def split: workload_component.split)
      have "intent s3 = intent s2" using acts by blast
      then have i: "ct_rows s3 = ct_rows s2" "ct_locked s3 = ct_locked s2"
        "ms_desired (status_of c' s3) = ms_desired (status_of c' s2)" for c'
        by (cases c'; simp add: intent_def status_of_def)+
      have des: "ms_desired (status_of c' s3) = action_desired action" if "c' \<in> set (selected_components c)" for c'
      proof -
        from that sel have "c' \<noteq> AllComponents" by auto
        from k2(6) [OF this] that i(3) [of c'] show ?thesis by simp
      qed
      show ?goal
      proof (cases e)
        case (Inl f)
        with r acts i des rows k1 k2 unlocked show ?goal by auto
      next
        case (Inr v)
        with r have st: "control_status env s3 = (r, s')" by simp
        note q = control_status_effect [OF st]
        have i': "ct_rows s' = ct_rows s3" "ct_locked s' = ct_locked s3" "ms_desired (status_of c' s') = ms_desired (status_of c' s3)" for c'
          using q(2) by (cases c'; simp add: intent_def status_of_def)+
        have set: "settled action c' s'" if "c' \<in> set (selected_components c)" for c'
        proof -
          from that sel have "c' \<noteq> AllComponents" by auto
          moreover from that acts Inr have "settled action c' s3" by simp
          ultimately show ?thesis using q(3) q(6) [of c'] by (auto simp: settled_def refresh_runtime_state_def)
        qed
        from q(1,4) acts i i' des rows k1 k2 unlocked set show ?goal by auto
      qed
    qed
  qed
  then show "control_ok s'"
    and "ct_locked s \<Longrightarrow> r = Err TransitionConflict \<and> s' = s"
    and "\<not> ct_locked s \<Longrightarrow> ct_locked s' = ct_locked s \<and>
      ((\<exists>f. r = Inl f) \<and> ct_rows s' = ct_rows s \<and> same machinery s s'
       \<or> ((\<exists>at. ct_rows s' = with_desired c (action_desired action) at who (ct_rows s))
          \<and> (\<forall>c' \<in> set (selected_components c). ms_desired (status_of c' s') = action_desired action)
          \<and> (\<forall>l. r = Ok l \<longrightarrow> l = [status_snapshot Mcp (status_of Mcp s'), status_snapshot SchedulerComponent (status_of SchedulerComponent s')]
                \<and> (\<forall>c' \<in> set (selected_components c). settled action c' s'))
          \<and> (\<forall>e. r = Err e \<longrightarrow> (\<exists>c' \<in> set (selected_components c). failed_on c' e s'))))"
    by blast+
qed

lemma replaced_rows:
  "control_ok (s\<lparr>ct_rows := rows\<rparr>) = control_ok s" "is_running env c (s\<lparr>ct_rows := rows\<rparr>) = is_running env c s"
  "control_ok (s\<lparr>ct_locked := b\<rparr>) = control_ok s"
  by (auto simp: control_ok_def runtimes_ok_def is_running_def status_of_def split: workload_component.split)

lemma exit_effect:
  "mcp_ends (ct_mcp s) m \<Longrightarrow> control_ok s \<Longrightarrow> control_ok (s\<lparr>ct_mcp := m\<rparr>) \<and> (is_running env c (s\<lparr>ct_mcp := m\<rparr>) \<longrightarrow> is_running env c s)"
  "scheduler_ends (ct_scheduler s) d \<Longrightarrow> control_ok s \<Longrightarrow>
     control_ok (s\<lparr>ct_scheduler := d\<rparr>) \<and> (is_running env c (s\<lparr>ct_scheduler := d\<rparr>) \<longrightarrow> is_running env c s)"
  using m.exit_keeps m.exit_stops s.exit_keeps s.exit_stops
  by (cases c; auto simp: control_ok_def runtimes_ok_def is_running_def status_of_def status_ok_def)+

lemma step_ok: "control_step env mcp_ends scheduler_ends s s' \<Longrightarrow> control_ok s \<Longrightarrow> control_ok s'"
proof (induction rule: control_step.induct)
  case (act c action who s r s')
  then show ?case by (rule transition_effect(1))
next
  case (look s r s')
  then show ?case by (rule control_status_effect(4))
next
  case (shut s q s')
  then show ?case using stop_all_effect by (auto simp: control_shutdown_def)
next
  case (again s q s')
  then show ?case using stop_all_effect by (auto simp: quiesce_again_def)
qed (auto simp: release_maintenance_def replaced_rows exit_effect dest: quiesce_effect restart_effect)

lemma steps_ok: "(control_step env mcp_ends scheduler_ends)\<^sup>*\<^sup>* s s' \<Longrightarrow> control_ok s \<Longrightarrow> control_ok s'"
  by (induction rule: rtranclp_induct) (auto dest: step_ok)

definition quiet :: "('m, 's) control \<Rightarrow> bool" where
  "quiet s \<longleftrightarrow> control_ok s \<and> ct_locked s \<and> \<not> is_running env Mcp s \<and> \<not> is_running env SchedulerComponent s"

lemma quiet_step_quiet: "quiet_step env mcp_ends scheduler_ends s s' \<Longrightarrow> quiet s \<Longrightarrow> quiet s'"
proof (induction rule: quiet_step.induct)
  case (act c action who s r s')
  then show ?case using transition_effect(2) [OF act(1)] by (simp add: quiet_def)
next
  case (look s r s')
  then show ?case
    using control_status_effect(2,4) [OF look(1)] control_status_effect(3) [OF look(1)] by (simp add: quiet_def intent_def)
next
  case (again s q s')
  have "stop_if_running env c s = (Ok (), s)" if "c \<noteq> AllComponents" for c
    using again(2) that by (cases c) (simp_all add: stop_if_running_def quiet_def)
  then have "quiesce_again env s = (Ok (), s)"
    by (simp add: quiesce_again_def selected_components_def mbind_def mlift_def)
  with again show ?case by simp
next
  case (mcp_exit s m)
  then show ?case using exit_effect(1) [OF mcp_exit(1)] by (auto simp: quiet_def)
next
  case (scheduler_exit s d)
  then show ?case using exit_effect(2) [OF scheduler_exit(1)] by (auto simp: quiet_def)
qed (simp add: quiet_def replaced_rows)

lemma quiet_steps_quiet: "(quiet_step env mcp_ends scheduler_ends)\<^sup>*\<^sup>* s s' \<Longrightarrow> quiet s \<Longrightarrow> quiet s'"
  by (induction rule: rtranclp_induct) (auto dest: quiet_step_quiet)

end

section \<open>The controller of the program\<close>

text \<open>\<open>WorkloadController::new\<close>: the runtimes are the MCP and the scheduler workload.\<close>

definition service_env ::
  "(scheduler_error \<Rightarrow> ustring) \<Rightarrow> scheduler_outside \<Rightarrow> (nat \<Rightarrow> bool) \<Rightarrow> (nat \<Rightarrow> instant) \<Rightarrow> (bool, scheduler_workload) control_env" where
  "service_env text out fails clock =
     \<lparr>ce_mcp = mcp_runtime, ce_scheduler = scheduler_runtime text out, ce_clock = clock, ce_fails = fails\<rparr>"

interpretation service: workload_controller "service_env text out fails clock" "\<lambda>_. True" "\<lambda>_ _. False" scheduler_inv scheduler_exits
  unfolding workload_controller_def service_env_def
  by (simp add: mcp.workload_runtime_axioms scheduler.workload_runtime_axioms)

end
