(* ===== verification/Lifecycle.thy ===== *)
theory Lifecycle
  imports Controller
begin

text \<open>
  What the administrator of the workloads can rely on: truthful status, the outcome of a
  transition, quiet maintenance, and the intent that restarts and shutdowns follow.
\<close>

text \<open>
  The states that a controller reaches after its construction, with its workloads ending by
  themselves at any time.
\<close>

definition reachable_control ::
  "(bool, scheduler_workload) control_env \<Rightarrow> (bool, scheduler_workload) control \<Rightarrow> bool" where
  "reachable_control env s \<longleftrightarrow> (\<exists>s0 s1. scheduler_inv (ct_scheduler s0) \<and> from_runtimes env s0 = (Ok (), s1)
     \<and> (control_step env (\<lambda>_ _. False) scheduler_exits)\<^sup>*\<^sup>* s1 s)"

lemma reachable_ok:
  assumes "reachable_control (service_env text out fails clock) s"
  shows "service.control_ok text out fails clock s"
proof -
  from assms obtain s0 s1 where s0: "scheduler_inv (ct_scheduler s0)"
    and start: "from_runtimes (service_env text out fails clock) s0 = (Ok (), s1)"
    and steps: "(control_step (service_env text out fails clock) (\<lambda>_ _. False) scheduler_exits)\<^sup>*\<^sup>* s1 s"
    by (auto simp: reachable_control_def)
  have "service.runtimes_ok s0" using s0 by (simp add: service.runtimes_ok_def)
  from service.from_runtimes_effect [OF start this] have "service.control_ok text out fails clock s1" by simp
  with steps show ?thesis by (rule service.steps_ok)
qed

definition truthful ::
  "(bool, scheduler_workload) control_env \<Rightarrow> (bool, scheduler_workload) control \<Rightarrow> workload_status \<Rightarrow> bool" where
  "truthful env s w \<longleftrightarrow> (ws_actual w = ActRunning \<longrightarrow> is_running env (ws_component w) s)
     \<and> (ws_actual w = ActStopped \<longrightarrow> \<not> is_running env (ws_component w) s)
     \<and> (ws_last_error w \<noteq> None \<longleftrightarrow> ws_actual w = ActFailed)
     \<and> (\<forall>e. ws_last_error w = Some e \<longrightarrow> utf8_len e \<le> 512)"


text \<open>A controller over both workloads, with the rows that the migration seeds.\<close>

definition demo_outside_runs :: scheduler_outside where
  "demo_outside_runs = \<lparr>so_call = (\<lambda>_. None), so_acquire = (\<lambda>_. Ok ()), so_outcome = (\<lambda>_. TaskReturned (Ok ExitCancelled))\<rparr>"

definition demo_runtime_row :: "string \<Rightarrow> runtime_row" where
  "demo_runtime_row c =
     \<lparr>t_component = c, t_desired_state = ''running'', t_version = 1, t_updated_at = 0, t_updated_by = lit ''system''\<rparr>"

abbreviation demo_service :: "(bool, scheduler_workload) control_env" where
  "demo_service \<equiv> service_env (\<lambda>_. []) demo_outside_runs (\<lambda>_. False) (\<lambda>_. 0)"

definition demo_status :: mutable_status where
  "demo_status = \<lparr>ms_desired = DesiredRunning, ms_actual = ActRunning, ms_last_error = None\<rparr>"

definition demo_boot :: "(bool, scheduler_workload) control" where
  "demo_boot = \<lparr>ct_rows = [demo_runtime_row ''mcp'', demo_runtime_row ''scheduler''], ct_mcp = True,
     ct_scheduler = scheduler_workload_new, ct_mcp_status = demo_status, ct_scheduler_status = demo_status,
     ct_locked = False, ct_clock = 0, ct_calls = 0\<rparr>"

definition demo_control :: "(bool, scheduler_workload) control" where
  "demo_control = demo_boot\<lparr>ct_scheduler := \<lparr>sw_task = Some \<lparr>rs_finished = None\<rparr>, sw_running = True, sw_turn = 1\<rparr>,
     ct_calls := 2\<rparr>"

lemma demo_boots: "from_runtimes demo_service demo_boot = (Ok (), demo_control)"
  by code_simp

lemma demo_reachable: "reachable_control demo_service demo_control"
  unfolding reachable_control_def using demo_boots
  by (intro exI [of _ demo_boot] exI [of _ demo_control]) (simp add: demo_boot_def scheduler_workload_new_def scheduler_inv_def)

text \<open>The task of the scheduler ends with an error, and the status says so.\<close>

definition demo_ended :: "(bool, scheduler_workload) control" where
  "demo_ended = demo_control\<lparr>ct_scheduler := \<lparr>sw_task = Some \<lparr>rs_finished = Some (TaskReturned (Err TaskJoin))\<rparr>,
     sw_running = False, sw_turn = 1\<rparr>\<rparr>"

lemma demo_ended_reachable: "reachable_control demo_service demo_ended"
proof -
  have "scheduler_exits (ct_scheduler demo_control) (ct_scheduler demo_ended)"
    using scheduler_exits.returned [of "ct_scheduler demo_control" "\<lparr>rs_finished = None\<rparr>" "Err TaskJoin"]
    by (simp add: demo_control_def demo_ended_def)
  then have "control_step demo_service (\<lambda>_ _. False) scheduler_exits demo_control demo_ended"
    using control_step.scheduler_exit [of scheduler_exits demo_control "ct_scheduler demo_ended"] by (simp add: demo_ended_def)
  with demo_reachable show ?thesis
    unfolding reachable_control_def by (meson rtranclp.rtrancl_into_rtrancl)
qed

lemma demo_ended_status:
  "map_sum id (map (\<lambda>w. (ws_component w, ws_actual w))) (fst (control_status demo_service demo_ended)) =
     Inr [(Mcp, ActRunning), (SchedulerComponent, ActFailed)]"
  by code_simp


text \<open>
  C22: A transition on a reachable controller. While a maintenance holds the lock it is refused and
  nothing changes. Otherwise either it fails before it commits, and neither the rows nor the workloads nor
  their status change, or the intent is persisted and shown, and: on success the selected
  components run, or do not, as asked, and the status of both is returned; on failure a selected component is
  shown as failed with the text that the error carries.
\<close>

theorem transition_outcome:
  assumes "reachable_control (service_env text out fails clock) s"
    and "control_transition (service_env text out fails clock) c action who s = (r, s')"
  shows "(ct_locked s \<longrightarrow> r = Err TransitionConflict \<and> s' = s)
     \<and> (\<not> ct_locked s \<longrightarrow> \<not> ct_locked s' \<and>
          ((\<exists>f. r = Inl f) \<and> ct_rows s' = ct_rows s \<and> machinery s' = machinery s
           \<or> ((\<exists>at. ct_rows s' = with_desired c (action_desired action) at who (ct_rows s))
              \<and> (\<forall>c' \<in> set (selected_components c). ms_desired (status_of c' s') = action_desired action)
              \<and> (\<forall>l. r = Ok l \<longrightarrow> l = [status_snapshot Mcp (status_of Mcp s'), status_snapshot SchedulerComponent (status_of SchedulerComponent s')]
                    \<and> (\<forall>c' \<in> set (selected_components c).
                         is_running (service_env text out fails clock) c' s' = (action \<noteq> StopWorkload)
                         \<and> ms_actual (status_of c' s') = (if action = StopWorkload then ActStopped else ActRunning)))
              \<and> (\<forall>e. r = Err e \<longrightarrow> (\<exists>c' \<in> set (selected_components c). \<exists>m. e = TransitionFailed c' m
                    \<and> ms_actual (status_of c' s') = ActFailed \<and> ms_last_error (status_of c' s') = Some m)))))"
proof (cases "ct_locked s")
  case True
  with service.transition_effect(2) [OF assms(2) reachable_ok [OF assms(1)]] show ?thesis by simp
next
  case False
  from service.transition_effect(3) [OF assms(2) reachable_ok [OF assms(1)] this] False show ?thesis
    unfolding service.settled_def service.failed_on_def same_def by blast
qed

abbreviation demo_stop :: "(workload_error, workload_status list) res \<times> (bool, scheduler_workload) control" where
  "demo_stop \<equiv> control_transition demo_service SchedulerComponent StopWorkload (lit ''admin'') demo_control"

lemma demo_stop_result: "map_sum id length (fst demo_stop) = Inr 2" "ct_rows (snd demo_stop) \<noteq> ct_rows demo_control"
  by code_simp+

theorem transition_outcome_witness:
  "\<not> is_running demo_service SchedulerComponent (snd demo_stop) \<and>
     ms_desired (status_of SchedulerComponent (snd demo_stop)) = DesiredStopped"
proof -
  obtain r s' where e: "demo_stop = (r, s')" by fastforce
  with demo_stop_result obtain l where l: "r = Ok l" "ct_rows s' \<noteq> ct_rows demo_control"
    by (cases r) auto
  have "\<not> ct_locked demo_control" by (simp add: demo_control_def demo_boot_def)
  with transition_outcome [OF demo_reachable e] l e show ?thesis
    by (simp add: selected_components_def action_desired_def)
qed

text \<open>
  C23: Maintenance is quiet. When \<open>quiesce_for_maintenance\<close> succeeds on a reachable controller, the persisted rows and the shown intent
  are as before and no workload runs; and until the maintenance restarts them or is dropped none
  will, whatever status reads, replaced databases, ending tasks and requests come: every
  requested transition is refused and changes nothing.
\<close>

theorem maintenance_is_quiet:
  assumes "reachable_control (service_env text out fails clock) s"
    and "quiesce_for_maintenance (service_env text out fails clock) s = (Ok (), s1)"
    and "(quiet_step (service_env text out fails clock) (\<lambda>_ _. False) scheduler_exits)\<^sup>*\<^sup>* s1 s2"
  shows "ct_rows s1 = ct_rows s \<and> ms_desired (status_of c s1) = ms_desired (status_of c s)
     \<and> \<not> is_running (service_env text out fails clock) c s2
     \<and> control_transition (service_env text out fails clock) c action who s2 = (Err TransitionConflict, s2)"
proof -
  let ?env = "service_env text out fails clock"
  note q = service.quiesce_effect [OF assms(2) reachable_ok [OF assms(1)]]
  then have "service.quiet text out fails clock s1" by (simp add: service.quiet_def)
  with assms(3) have quiet: "service.quiet text out fails clock s2" by (rule service.quiet_steps_quiet)
  then have "\<not> is_running ?env c s2" by (cases c) (simp_all add: service.quiet_def is_running_def)
  with q quiet show ?thesis by (simp add: service.quiet_def control_transition_def)
qed

definition demo_quiet :: "(bool, scheduler_workload) control" where
  "demo_quiet = snd (quiesce_for_maintenance demo_service demo_control)"

lemma demo_quiesces: "quiesce_for_maintenance demo_service demo_control = (Ok (), demo_quiet)"
  by code_simp

theorem maintenance_is_quiet_witness:
  "control_transition demo_service Mcp StartWorkload [] (demo_quiet\<lparr>ct_rows := []\<rparr>) =
     (Err TransitionConflict, demo_quiet\<lparr>ct_rows := []\<rparr>)"
  by (rule maintenance_is_quiet [OF demo_reachable demo_quiesces, THEN conjunct2, THEN conjunct2, THEN conjunct2])
    (rule r_into_rtranclp, rule quiet_step.restore)

text \<open>
  The workloads follow the persisted intent: after the construction of the controller, and after
  a maintenance has restarted them from the rows of the database that is active then, a component
  runs exactly if its row says \<open>running\<close>; neither writes the rows.
\<close>

theorem intent_followed:
  assumes "from_runtimes (service_env text out fails clock) s = (Ok (), s') \<and> scheduler_inv (ct_scheduler s) \<or>
     restart_from_persisted (service_env text out fails clock) s = (Ok l, s') \<and> reachable_control (service_env text out fails clock) s"
  shows "\<exists>m d. desired_pair (ct_rows s) = Ok (m, d) \<and> ct_rows s' = ct_rows s
     \<and> is_running (service_env text out fails clock) Mcp s' = (m = DesiredRunning)
     \<and> is_running (service_env text out fails clock) SchedulerComponent s' = (d = DesiredRunning)"
  using assms
proof
  assume a: "from_runtimes (service_env text out fails clock) s = (Ok (), s') \<and> scheduler_inv (ct_scheduler s)"
  then have "service.runtimes_ok s" by (simp add: service.runtimes_ok_def)
  with service.from_runtimes_effect [OF conjunct1 [OF a]] show ?thesis by auto
next
  assume a: "restart_from_persisted (service_env text out fails clock) s = (Ok l, s') \<and> reachable_control (service_env text out fails clock) s"
  with service.restart_effect [OF conjunct1 [OF a]] reachable_ok show ?thesis by auto
qed

theorem intent_followed_witness:
  "is_running demo_service SchedulerComponent demo_control \<and> ct_rows demo_control = ct_rows demo_boot"
proof -
  have "desired_pair (ct_rows demo_boot) = Ok (DesiredRunning, DesiredRunning)" by code_simp
  moreover have "scheduler_inv (ct_scheduler demo_boot)"
    by (simp add: demo_boot_def scheduler_workload_new_def scheduler_inv_def)
  ultimately show ?thesis using intent_followed [OF disjI1 [OF conjI [OF demo_boots]]] by auto
qed

text \<open>
  A shutdown keeps the intent: it writes no row and no desired state, and when it succeeds
  nothing runs.
\<close>

theorem shutdown_keeps_intent:
  assumes "reachable_control (service_env text out fails clock) s"
    and "control_shutdown (service_env text out fails clock) s = (r, s')"
  shows "intent s' = intent s \<and> (r = Ok () \<longrightarrow> \<not> is_running (service_env text out fails clock) c s')"
proof -
  have "service.control_ok text out fails clock s" by (rule reachable_ok [OF assms(1)])
  from service.stop_all_effect [OF assms(2) [unfolded control_shutdown_def] this]
  show ?thesis by (cases c) (simp_all add: is_running_def)
qed

lemma demo_shuts: "fst (control_shutdown demo_service demo_control) = Ok ()"
  by code_simp

theorem shutdown_keeps_intent_witness:
  "\<not> is_running demo_service SchedulerComponent (snd (control_shutdown demo_service demo_control))"
  using shutdown_keeps_intent [OF demo_reachable prod.collapse [symmetric], of SchedulerComponent] demo_shuts
  by simp

text \<open>
  After a run that ended with an error, the first start (and the first stop) of the scheduler
  reports the error of that old run and starts nothing: only the next start launches a task. After
  a task that panicked, the first stop fails and leaves the workload marked as running.
\<close>

theorem old_failure_blocks_start:
  assumes "sw_task s = Some \<lparr>rs_finished = Some outcome\<rparr>"
  shows "(outcome = TaskReturned (Err e) \<longrightarrow>
       scheduler_start out rows s = (Err e, s\<lparr>sw_task := None\<rparr>) \<and>
       scheduler_start out rows (s\<lparr>sw_task := None\<rparr>) = scheduler_launch out rows (s\<lparr>sw_task := None\<rparr>) \<and>
       fst (scheduler_stop out s) = Err e)
     \<and> (outcome = TaskPanicked \<longrightarrow>
       fst (scheduler_stop out s) = Err TaskJoin \<and> sw_running (snd (scheduler_stop out s)) = sw_running s)"
  using assms by (simp add: scheduler_start_def scheduler_stop_def)

theorem old_failure_blocks_start_witness:
  "fst (scheduler_start demo_outside_runs (ct_rows demo_ended) (ct_scheduler demo_ended)) = Err TaskJoin \<and>
     fst (scheduler_start demo_outside_runs (ct_rows demo_ended) (ct_scheduler demo_ended\<lparr>sw_task := None\<rparr>)) = Ok ()"
proof -
  have t: "sw_task (ct_scheduler demo_ended) = Some \<lparr>rs_finished = Some (TaskReturned (Err TaskJoin))\<rparr>"
    by (simp add: demo_ended_def)
  have "fst (scheduler_launch demo_outside_runs (ct_rows demo_ended) (ct_scheduler demo_ended\<lparr>sw_task := None\<rparr>)) = Ok ()"
    by code_simp
  with old_failure_blocks_start [OF t, of TaskJoin demo_outside_runs "ct_rows demo_ended"] show ?thesis by simp
qed

end
