(* ===== verification/Headers.thy ===== *)
theory Headers
  imports Effects
begin

text \<open>
  HTTP headers as the code sees them: an \<open>http::HeaderMap\<close> is the list of its entries in order,
  with lower-case names and the bytes of the values. Also the prefix of ASCII text that a value
  is read as, and the decimal form of integers.
\<close>

type_synonym header_map = "(string \<times> nat list) list"

text \<open>\<open>HeaderMap::get_all(name).iter()\<close> and \<open>HeaderMap::get(name)\<close>.\<close>

definition get_all :: "header_map \<Rightarrow> string \<Rightarrow> nat list list" where
  "get_all headers name = map snd (filter (\<lambda>(n, _). n = name) headers)"

definition get_header :: "header_map \<Rightarrow> string \<Rightarrow> nat list option" where
  "get_header headers name = (case get_all headers name of [] \<Rightarrow> None | v # _ \<Rightarrow> Some v)"

text \<open>\<open>HeaderValue::to_str\<close>: only visible ASCII, the space and the tab.\<close>

definition visible_ascii :: "nat \<Rightarrow> bool" where
  "visible_ascii b \<longleftrightarrow> 32 \<le> b \<and> b < 127 \<or> b = 9"

definition to_str :: "nat list \<Rightarrow> ustring option" where
  "to_str bytes = (if list_all visible_ascii bytes then Some bytes else None)"

text \<open>\<open>HeaderValue::from_str\<close>: no control character but the tab.\<close>

definition header_value_from_str :: "ustring \<Rightarrow> nat list option" where
  "header_value_from_str s =
     (if list_all (\<lambda>b. 32 \<le> b \<and> b \<noteq> 127 \<or> b = 9) (utf8_bytes s) then Some (utf8_bytes s) else None)"

lemma to_str_Some: "to_str v = Some s \<longleftrightarrow> s = v \<and> list_all visible_ascii v"
  by (auto simp: to_str_def)

lemma visible_ascii_ascii: "list_all visible_ascii s \<Longrightarrow> c \<in> set s \<Longrightarrow> c < 128"
  by (auto simp: list_all_iff visible_ascii_def)

lemma utf8_bytes_ascii: "(\<And>c. c \<in> set s \<Longrightarrow> c < 128) \<Longrightarrow> utf8_bytes s = s"
  by (induction s) (auto simp: utf8_bytes_def utf8_char_def)

lemma get_all_single: "get_all headers name = [v] \<Longrightarrow> get_header headers name = Some v"
  by (simp add: get_header_def)

section \<open>The decimal form of an integer\<close>

fun nat_text :: "nat \<Rightarrow> ustring" where
  "nat_text n = (if n < 10 then [48 + n] else nat_text (n div 10) @ [48 + n mod 10])"

declare nat_text.simps [simp del]

definition int_text :: "int \<Rightarrow> ustring" where
  "int_text i = (if i < 0 then 45 # nat_text (nat (- i)) else nat_text (nat i))"

lemma decimal_value_append: "decimal_value (xs @ [d]) = 10 * decimal_value xs + (d - 48)"
  by (simp add: decimal_value_def)

lemma decimal_nat_text: "decimal_value (nat_text n) = n"
proof (induction n rule: nat_text.induct)
  case (1 n)
  then show ?case by (subst nat_text.simps) (auto simp: decimal_value_append, simp add: decimal_value_def)
qed

lemma nat_text_digits: "list_all is_ascii_digit (nat_text n) \<and> nat_text n \<noteq> []"
proof (induction n rule: nat_text.induct)
  case (1 n)
  have "is_ascii_digit (48 + n mod 10)" by (simp add: is_ascii_digit_def)
  with 1 show ?case
    by (subst (1 2) nat_text.simps) (cases "n < 10"; simp)
qed

end
