(* ===== verification/RequestAuth.thy ===== *)
theory RequestAuth
  imports Headers
begin

text \<open>
  Who may talk to the process: the bearer, Host and Origin policy of \<open>/mcp\<close>
  (\<open>src/auth/mcp.rs\<close>) and the same-origin and token checks of the browser API
  (\<open>src/auth/csrf.rs\<close>). The URI types of the \<open>http\<close> crate, SHA-256 and base64 are parameters; the
  comparison in constant time is equality.
\<close>

text \<open>
  \<open>au_authority\<close>: \<open>Authority::from_str\<close> with its host and port; \<open>au_uri\<close>: \<open>Uri::from_str\<close> with its scheme
  and authority texts.
\<close>

record auth_outside =
  au_authority :: "ustring \<Rightarrow> (ustring \<times> 16 word option) option"
  au_uri :: "ustring \<Rightarrow> (ustring option \<times> ustring option) option"
  au_sha256 :: "nat list \<Rightarrow> nat list"
  au_base64 :: "nat list \<Rightarrow> ustring"

section \<open>Normal forms\<close>

definition normalize_authority :: "auth_outside \<Rightarrow> ustring \<Rightarrow> ustring option" where
  "normalize_authority out v =
     (if v = [] \<or> trim v \<noteq> v \<or> 64 \<in> set v then None
      else case au_authority out v of
             None \<Rightarrow> None
           | Some (h, port) \<Rightarrow>
               let host = to_ascii_lowercase h;
                   host' = (if 58 \<in> set host \<and> take 1 host \<noteq> [91] then 91 # host @ [93] else host)
               in Some (case port of None \<Rightarrow> host' | Some p \<Rightarrow> host' @ 58 # nat_text (unat p)))"

definition normalize_header_authority :: "auth_outside \<Rightarrow> nat list \<Rightarrow> ustring option" where
  "normalize_header_authority out header = Option.bind (to_str header) (normalize_authority out)"

definition normalize_origin :: "auth_outside \<Rightarrow> ustring \<Rightarrow> ustring option" where
  "normalize_origin out v =
     (if v = [] \<or> trim v \<noteq> v then None
      else Option.bind (split_once (lit ''://'') v) (\<lambda>(_, authority_text).
        if authority_text = [] \<or> list_ex (\<lambda>c. c \<in> {47, 63, 35}) authority_text then None
        else Option.bind (au_uri out v) (\<lambda>(scheme, authority).
          Option.bind scheme (\<lambda>s.
          let scheme' = to_ascii_lowercase s in
          if scheme' \<notin> {lit ''http'', lit ''https''} then None
          else Option.bind authority (\<lambda>a.
            Option.bind (normalize_authority out a) (\<lambda>a'. Some (scheme' @ lit ''://'' @ a')))))))"

definition normalize_header_origin :: "auth_outside \<Rightarrow> nat list \<Rightarrow> ustring option" where
  "normalize_header_origin out header = Option.bind (to_str header) (normalize_origin out)"

definition origin_authority :: "ustring \<Rightarrow> ustring" where
  "origin_authority v = (case split_once (lit ''://'') v of None \<Rightarrow> [] | Some (_, a) \<Rightarrow> a)"

section \<open>Digests\<close>

definition token_check_domain :: "nat list" where
  "token_check_domain = lit ''remindi:mcp-bearer-check:v1'' @ [0]"

definition actor_domain :: "nat list" where
  "actor_domain = lit ''remindi:mcp-actor:v1'' @ [0]"

text \<open>\<open>u64::to_be_bytes\<close>.\<close>

definition be_bytes :: "nat \<Rightarrow> nat list" where
  "be_bytes n = map (\<lambda>k. n div 2 ^ (8 * k) mod 256) [7, 6, 5, 4, 3, 2, 1, 0]"

definition token_digest :: "auth_outside \<Rightarrow> nat list \<Rightarrow> nat list" where
  "token_digest out token = au_sha256 out (token_check_domain @ token)"

definition fingerprint_bytes :: "nat list \<Rightarrow> nat list \<Rightarrow> nat list" where
  "fingerprint_bytes owner token =
     actor_domain @ be_bytes (length owner) @ owner @ be_bytes (length token) @ token"

definition actor_fingerprint :: "auth_outside \<Rightarrow> nat list \<Rightarrow> nat list \<Rightarrow> ustring" where
  "actor_fingerprint out owner token =
     lit ''mcp:'' @ au_base64 out (au_sha256 out (fingerprint_bytes owner token))"

section \<open>The policy of the MCP route\<close>

record mcp_identity =
  mi_owner_id :: ustring
  mi_actor_id :: ustring

datatype mcp_auth_error =
    InvalidHostPolicy
  | InvalidOriginPolicy
  | McpUnauthenticated
  | CredentialLocation
  | HostRejected
  | OriginRejected

record mcp_auth_policy =
  mp_owner_id :: ustring
  mp_expected_token_digest :: "nat list"
  mp_actor_id :: ustring
  mp_allowed_hosts :: "ustring list"
  mp_allowed_origins :: "ustring list"

definition mcp_policy_new ::
  "auth_outside \<Rightarrow> ustring \<Rightarrow> ustring \<Rightarrow> ustring list \<Rightarrow> ustring list \<Rightarrow> (mcp_auth_error, mcp_auth_policy) res" where
  "mcp_policy_new out owner secret hosts origins =
     rbind (collect_map (\<lambda>h. ok_or InvalidHostPolicy (normalize_authority out h)) hosts) (\<lambda>allowed_hosts.
     rbind (collect_map (\<lambda>v. ok_or InvalidOriginPolicy (normalize_origin out v)) origins) (\<lambda>allowed_origins.
       Ok \<lparr>mp_owner_id = owner,
           mp_expected_token_digest = token_digest out (utf8_bytes secret),
           mp_actor_id = actor_fingerprint out (utf8_bytes owner) (utf8_bytes secret),
           mp_allowed_hosts = allowed_hosts,
           mp_allowed_origins = allowed_origins\<rparr>))"

definition exact_header :: "header_map \<Rightarrow> string \<Rightarrow> nat list option" where
  "exact_header headers name = (case get_all headers name of [v] \<Rightarrow> Some v | _ \<Rightarrow> None)"

definition optional_exact_header :: "header_map \<Rightarrow> string \<Rightarrow> (unit, nat list option) res" where
  "optional_exact_header headers name =
     (case get_all headers name of [] \<Rightarrow> Ok None | [v] \<Rightarrow> Ok (Some v) | _ \<Rightarrow> Err ())"

text \<open>\<open>u8::is_ascii_whitespace\<close>.\<close>

definition is_ascii_whitespace :: "nat \<Rightarrow> bool" where
  "is_ascii_whitespace b \<longleftrightarrow> b \<in> {9, 10, 12, 13, 32}"

definition parse_bearer :: "nat list \<Rightarrow> nat list option" where
  "parse_bearer header =
     Option.bind (to_str header) (\<lambda>v.
     Option.bind (strip_prefix (lit ''Bearer '') v) (\<lambda>candidate.
       if candidate \<noteq> [] \<and> \<not> list_ex is_ascii_whitespace candidate then Some candidate else None))"

definition check_host :: "auth_outside \<Rightarrow> mcp_auth_policy \<Rightarrow> header_map \<Rightarrow> (mcp_auth_error, ustring) res" where
  "check_host out policy headers =
     rbind (ok_or HostRejected (Option.bind (exact_header headers ''host'') (normalize_header_authority out))) (\<lambda>host.
       if mp_allowed_hosts policy \<noteq> [] \<and> host \<notin> set (mp_allowed_hosts policy) then Err HostRejected else Ok host)"

definition check_origin ::
  "auth_outside \<Rightarrow> mcp_auth_policy \<Rightarrow> header_map \<Rightarrow> ustring \<Rightarrow> (mcp_auth_error, unit) res" where
  "check_origin out policy headers host =
     rbind (map_err (\<lambda>_. OriginRejected) (optional_exact_header headers ''origin'')) (\<lambda>origin_header.
       case origin_header of
         None \<Rightarrow> Ok ()
       | Some value_bytes \<Rightarrow>
           rbind (ok_or OriginRejected (normalize_header_origin out value_bytes)) (\<lambda>origin.
             guard (if mp_allowed_origins policy = [] then origin_authority origin = host
                    else origin \<in> set (mp_allowed_origins policy)) OriginRejected))"

text \<open>Of the URI, only whether it has a query matters.\<close>

definition mcp_authenticate ::
  "auth_outside \<Rightarrow> mcp_auth_policy \<Rightarrow> header_map \<Rightarrow> ustring option \<Rightarrow> (mcp_auth_error, mcp_identity) res" where
  "mcp_authenticate out policy headers query =
     (if get_all headers ''cookie'' \<noteq> [] \<or> query \<noteq> None then Err CredentialLocation
      else
        rbind (check_host out policy headers) (\<lambda>host.
        rbind (check_origin out policy headers host) (\<lambda>_.
        rbind (ok_or McpUnauthenticated (exact_header headers ''authorization'')) (\<lambda>authorization.
        rbind (ok_or McpUnauthenticated (parse_bearer authorization)) (\<lambda>candidate.
        rbind (guard (token_digest out candidate = mp_expected_token_digest policy) McpUnauthenticated) (\<lambda>_.
          Ok \<lparr>mi_owner_id = mp_owner_id policy, mi_actor_id = mp_actor_id policy\<rparr>))))))"

section \<open>Browser requests\<close>

datatype csrf_failure = MissingOrigin | CrossOrigin | MissingToken | InvalidToken

datatype http_method = GET | HEAD | OPTIONS | OtherMethod string

definition https_scheme :: ustring where "https_scheme = lit ''https://''"
definition http_scheme :: ustring where "http_scheme = lit ''http://''"

definition validate_same_origin :: "header_map \<Rightarrow> (csrf_failure, unit) res" where
  "validate_same_origin headers =
     (if length (get_all headers ''host'') \<noteq> 1 \<or> length (get_all headers ''origin'') \<noteq> 1 then Err MissingOrigin
      else
        rbind (ok_or MissingOrigin (Option.bind (get_header headers ''host'') to_str)) (\<lambda>host.
        rbind (ok_or MissingOrigin (Option.bind (get_header headers ''origin'') to_str)) (\<lambda>origin.
        rbind (ok_or CrossOrigin
                (case (case strip_prefix https_scheme origin of
                         Some a \<Rightarrow> Some a | None \<Rightarrow> strip_prefix http_scheme origin) of
                   None \<Rightarrow> None
                 | Some a \<Rightarrow> if 47 \<notin> set a \<and> 64 \<notin> set a then Some a else None)) (\<lambda>authority.
          guard (eq_ignore_ascii_case authority host) CrossOrigin))))"

definition csrf_header :: string where "csrf_header = ''x-csrf-token''"

definition validate_mutation :: "http_method \<Rightarrow> header_map \<Rightarrow> ustring \<Rightarrow> (csrf_failure, unit) res" where
  "validate_mutation method headers expected_token =
     (if method \<in> {GET, HEAD, OPTIONS} then Ok ()
      else
        rbind (validate_same_origin headers) (\<lambda>_.
        if length (get_all headers csrf_header) \<noteq> 1 then Err MissingToken
        else
          rbind (ok_or MissingToken (Option.bind (get_header headers csrf_header) to_str)) (\<lambda>supplied.
            guard (utf8_bytes supplied = utf8_bytes expected_token) InvalidToken)))"

section \<open>Admission\<close>

lemma strip_prefix_Some: "strip_prefix p s = Some t \<longleftrightarrow> s = p @ t"
  by (auto simp: strip_prefix_def) (metis append_take_drop_id)

lemma exact_header_Some: "exact_header headers name = Some v \<longleftrightarrow> get_all headers name = [v]"
  by (auto simp: exact_header_def split: list.splits)

text \<open>A byte of a usable bearer token: visible ASCII other than the space.\<close>

definition token_byte :: "nat \<Rightarrow> bool" where
  "token_byte b \<longleftrightarrow> 33 \<le> b \<and> b < 127"

lemma token_byte_iff: "token_byte b \<longleftrightarrow> visible_ascii b \<and> \<not> is_ascii_whitespace b"
  by (auto simp: token_byte_def visible_ascii_def is_ascii_whitespace_def)

lemma parse_bearer_Some:
  "parse_bearer v = Some t \<longleftrightarrow> v = lit ''Bearer '' @ t \<and> t \<noteq> [] \<and> list_all token_byte t"
proof -
  have p: "list_all visible_ascii (lit ''Bearer '')" by (simp add: visible_ascii_def)
  have t: "list_all visible_ascii t \<and> \<not> list_ex is_ascii_whitespace t \<longleftrightarrow> list_all token_byte t"
    by (auto simp: token_byte_iff list_all_iff list_ex_iff)
  have "parse_bearer v = Some t \<longleftrightarrow>
      list_all visible_ascii v \<and> v = lit ''Bearer '' @ t \<and> t \<noteq> [] \<and> \<not> list_ex is_ascii_whitespace t"
    unfolding parse_bearer_def bind_eq_Some_conv to_str_Some strip_prefix_Some by (auto split: if_splits)
  with p t show ?thesis by (auto simp del: list_all_append simp: list_all_append [of _ "lit ''Bearer ''"])
qed

lemma check_host_Ok:
  "check_host out policy headers = Ok host \<longleftrightarrow>
     (\<exists>h. get_all headers ''host'' = [h] \<and> normalize_header_authority out h = Some host)
     \<and> (mp_allowed_hosts policy = [] \<or> host \<in> set (mp_allowed_hosts policy))"
  by (auto simp: check_host_def res_simps bind_eq_Some_conv exact_header_Some split: if_splits)

lemma check_origin_Ok:
  "check_origin out policy headers host = Inr u \<longleftrightarrow>
     get_all headers ''origin'' = [] \<or>
     (\<exists>v origin. get_all headers ''origin'' = [v] \<and> normalize_header_origin out v = Some origin
        \<and> (if mp_allowed_origins policy = [] then origin_authority origin = host
            else origin \<in> set (mp_allowed_origins policy)))"
  by (cases "get_all headers ''origin''" rule: remdups_adj.cases)
    (auto simp: check_origin_def optional_exact_header_def res_simps)

text \<open>
  A request to \<open>/mcp\<close> is admitted exactly when it carries no cookie and no query, one Host
  header that is well-formed and allowed, at most one Origin header, which is well-formed and
  allowed (or names the Host when none is configured), and one Authorization header: the word Bearer, one space and a
  token of visible ASCII without spaces whose digest is the expected one. The identity is the
  configured one.
\<close>

theorem mcp_admission:
  "mcp_authenticate out policy headers query = Ok ident \<longleftrightarrow>
     get_all headers ''cookie'' = [] \<and> query = None
     \<and> (\<exists>h host. get_all headers ''host'' = [h] \<and> normalize_header_authority out h = Some host
          \<and> (mp_allowed_hosts policy = [] \<or> host \<in> set (mp_allowed_hosts policy))
          \<and> (get_all headers ''origin'' = [] \<or>
              (\<exists>v origin. get_all headers ''origin'' = [v] \<and> normalize_header_origin out v = Some origin
                 \<and> (if mp_allowed_origins policy = [] then origin_authority origin = host
                     else origin \<in> set (mp_allowed_origins policy)))))
     \<and> (\<exists>t. get_all headers ''authorization'' = [lit ''Bearer '' @ t] \<and> t \<noteq> [] \<and> list_all token_byte t
          \<and> token_digest out t = mp_expected_token_digest policy)
     \<and> ident = \<lparr>mi_owner_id = mp_owner_id policy, mi_actor_id = mp_actor_id policy\<rparr>"
proof -
  have auth: "rbind (ok_or McpUnauthenticated (exact_header headers ''authorization'')) (\<lambda>authorization.
        rbind (ok_or McpUnauthenticated (parse_bearer authorization)) (\<lambda>candidate.
        rbind (guard (token_digest out candidate = mp_expected_token_digest policy) McpUnauthenticated) (\<lambda>_.
          Ok \<lparr>mi_owner_id = mp_owner_id policy, mi_actor_id = mp_actor_id policy\<rparr>))) = Ok ident \<longleftrightarrow>
     (\<exists>t. get_all headers ''authorization'' = [lit ''Bearer '' @ t] \<and> t \<noteq> [] \<and> list_all token_byte t
          \<and> token_digest out t = mp_expected_token_digest policy)
     \<and> ident = \<lparr>mi_owner_id = mp_owner_id policy, mi_actor_id = mp_actor_id policy\<rparr>"
    by (auto simp: res_simps exact_header_Some parse_bearer_Some)
  show ?thesis
    unfolding mcp_authenticate_def
    by (simp only: rbind_eq_Inr [of "check_host _ _ _"] rbind_eq_Inr [of "check_origin _ _ _ _"] check_host_Ok
        check_origin_Ok auth split: if_split) auto
qed

lemma mcp_policy_new_Ok:
  assumes "mcp_policy_new out owner secret hosts origins = Ok policy"
  shows "mp_owner_id policy = owner" "mp_expected_token_digest policy = token_digest out (utf8_bytes secret)"
    "mp_actor_id policy = actor_fingerprint out (utf8_bytes owner) (utf8_bytes secret)"
    "hosts = [] \<Longrightarrow> mp_allowed_hosts policy = []" "origins = [] \<Longrightarrow> mp_allowed_origins policy = []"
  using assms by (auto simp: mcp_policy_new_def res_simps)


definition demo_auth :: auth_outside where
  "demo_auth = \<lparr>au_authority = (\<lambda>v. Some (v, None)), au_uri = (\<lambda>_. None), au_sha256 = (\<lambda>b. b), au_base64 = (\<lambda>b. b)\<rparr>"

definition demo_headers :: header_map where
  "demo_headers = [(''host'', lit ''remindi.local''), (''authorization'', lit ''Bearer secret'')]"

lemma demo_admitted:
  assumes "mcp_policy_new demo_auth (lit ''owner'') (lit ''secret'') [] [] = Ok policy"
  shows "mcp_authenticate demo_auth policy demo_headers None =
     Ok \<lparr>mi_owner_id = lit ''owner'', mi_actor_id = mp_actor_id policy\<rparr>"
proof -
  note p = mcp_policy_new_Ok [OF assms]
  have "normalize_header_authority demo_auth (lit ''remindi.local'') = Some (lit ''remindi.local'')"
    by (simp add: normalize_header_authority_def to_str_def visible_ascii_def normalize_authority_def trim_def
        is_whitespace_def demo_auth_def to_ascii_lowercase_def Let_def)
  moreover have "utf8_bytes (lit ''secret'') = lit ''secret''" by (rule utf8_bytes_ascii) auto
  ultimately show ?thesis
    unfolding mcp_admission p(1,2) p(4) [OF refl] p(5) [OF refl]
    by (simp add: demo_headers_def get_all_def token_byte_def)
qed


lemma strip_either:
  assumes "\<And>a. strip_prefix p (q @ a) = None"
  shows "(case strip_prefix p v of Some a \<Rightarrow> Some a | None \<Rightarrow> strip_prefix q v) = Some a \<longleftrightarrow> v = p @ a \<or> v = q @ a"
proof (cases "strip_prefix p v")
  case None
  then have "v \<noteq> p @ a" using strip_prefix_Some [of p v a] by auto
  with None show ?thesis by (simp add: strip_prefix_Some)
next
  case (Some b)
  with assms have "v \<noteq> q @ a" by auto
  moreover have "v = p @ b" using Some by (simp add: strip_prefix_Some)
  ultimately show ?thesis using Some by auto
qed

lemma filter_Some: "(case x of None \<Rightarrow> None | Some a \<Rightarrow> if P a then Some a else None) = Some a \<longleftrightarrow> x = Some a \<and> P a"
  by (auto split: option.splits)

text \<open>What the same-origin check accepts of a Host and an Origin value.\<close>

definition same_origin :: "nat list \<Rightarrow> nat list \<Rightarrow> bool" where
  "same_origin host v \<longleftrightarrow> list_all visible_ascii host \<and> list_all visible_ascii v
     \<and> (\<exists>a. (v = https_scheme @ a \<or> v = http_scheme @ a) \<and> 47 \<notin> set a \<and> 64 \<notin> set a \<and> eq_ignore_ascii_case a host)"

lemma length_one: "length l = Suc 0 \<longleftrightarrow> (\<exists>v. l = [v])"
  by (auto simp: length_Suc_conv)

lemma validate_same_origin_Ok:
  "validate_same_origin headers = Inr u \<longleftrightarrow>
     (\<exists>host v. get_all headers ''host'' = [host] \<and> get_all headers ''origin'' = [v] \<and> same_origin host v)"
proof (cases "(\<exists>h. get_all headers ''host'' = [h]) \<and> (\<exists>v. get_all headers ''origin'' = [v])")
  case True
  then obtain h v where hv: "get_all headers ''host'' = [h]" "get_all headers ''origin'' = [v]" by blast
  have apart: "strip_prefix https_scheme (http_scheme @ a) = None" for a :: ustring
    by (simp add: strip_prefix_def https_scheme_def http_scheme_def)
  note strip = filter_Some [where P = "\<lambda>a. 47 \<notin> set a \<and> 64 \<notin> set a"] strip_either [OF apart]
  have "validate_same_origin headers = Inr u \<longleftrightarrow> same_origin h v"
    unfolding validate_same_origin_def hv get_all_single [OF hv(1)] get_all_single [OF hv(2)] same_origin_def
    by (simp add: rbind_eq_Inr ok_or_eq_Inr guard_eq_Inr strip to_str_Some)
  with hv show ?thesis by simp
next
  case False
  then show ?thesis unfolding validate_same_origin_def by (auto simp: length_one)
qed

lemma validate_token_Ok:
  "(if length (get_all headers csrf_header) \<noteq> 1 then Err MissingToken
    else rbind (ok_or MissingToken (Option.bind (get_header headers csrf_header) to_str)) (\<lambda>supplied.
           guard (utf8_bytes supplied = utf8_bytes token) InvalidToken)) = Inr u \<longleftrightarrow>
     get_all headers csrf_header = [utf8_bytes token] \<and> list_all visible_ascii (utf8_bytes token)"
proof (cases "\<exists>t. get_all headers csrf_header = [t]")
  case True
  then obtain t where t: "get_all headers csrf_header = [t]" by blast
  have "list_all visible_ascii t \<Longrightarrow> utf8_bytes t = t" by (intro utf8_bytes_ascii) (rule visible_ascii_ascii)
  then show ?thesis by (auto simp: t get_all_single [OF t] res_simps to_str_Some)
next
  case False
  then show ?thesis by (auto simp: length_one)
qed

text \<open>
  A browser request that may change state passes exactly when it has one Host and one Origin
  header of visible ASCII, the Origin is \<open>https://\<close> or \<open>http://\<close> followed by the Host, up to the
  case of ASCII letters and without a path or credentials, and there is one token header: the
  expected token.
\<close>

theorem mutation_admission:
  assumes "method \<notin> {GET, HEAD, OPTIONS}"
  shows "validate_mutation method headers token = Ok () \<longleftrightarrow>
     (\<exists>host v. get_all headers ''host'' = [host] \<and> get_all headers ''origin'' = [v] \<and> same_origin host v)
     \<and> get_all headers csrf_header = [utf8_bytes token] \<and> list_all visible_ascii (utf8_bytes token)"
  using assms unfolding validate_mutation_def rbind_eq_Inr validate_same_origin_Ok
  by (simp only: if_False validate_token_Ok rbind_eq_Inr validate_same_origin_Ok) blast

definition demo_browser :: header_map where
  "demo_browser = [(''host'', lit ''Remindi.local:8000''), (''origin'', lit ''http://remindi.LOCAL:8000''),
     (csrf_header, lit ''token'')]"

theorem mutation_admission_witness: "validate_mutation (OtherMethod ''POST'') demo_browser (lit ''token'') = Ok ()"
proof -
  have "get_all demo_browser ''host'' = [lit ''Remindi.local:8000'']"
    "get_all demo_browser ''origin'' = [http_scheme @ lit ''remindi.LOCAL:8000'']"
    "get_all demo_browser csrf_header = [utf8_bytes (lit ''token'')]"
    by (simp_all add: demo_browser_def get_all_def csrf_header_def http_scheme_def utf8_bytes_def utf8_char_def)
  moreover have "same_origin (lit ''Remindi.local:8000'') (http_scheme @ lit ''remindi.LOCAL:8000'')"
    unfolding same_origin_def
    by (intro conjI exI [of _ "lit ''remindi.LOCAL:8000''"])
      (simp_all add: http_scheme_def visible_ascii_def eq_ignore_ascii_case_def to_ascii_lowercase_def)
  ultimately show ?thesis
    using mutation_admission [of "OtherMethod ''POST''" demo_browser "lit ''token''"]
    by (simp add: visible_ascii_def utf8_bytes_def utf8_char_def)
qed

end
