(* ===== verification/Bootstrap.thy ===== *)
theory Bootstrap
  imports RequestAuth
begin

text \<open>
  The configuration of the process, \<open>src/config.rs\<close>: the \<open>REMINDI_*\<close> variables of the environment
  are read once, and either rejected with the first error or turned into a \<open>BootstrapConfig\<close>.
  The \<open>HashMap\<close> of the pairs keeps the last value of each key. Secrets are their texts.
\<close>

datatype config_error =
    Required string string
  | InvalidBoolean string
  | InvalidPositiveInteger string
  | PathNotAbsolute string
  | NonUnicode ustring

record bootstrap_config =
  bc_database_path :: ustring
  bc_owner_id :: ustring
  bc_mcp_token :: ustring
  bc_backup_directory :: ustring
  bc_allowed_hosts :: "ustring list"
  bc_allowed_origins :: "ustring list"
  bc_log_level :: ustring
  bc_log_content :: bool
  bc_webui_enabled :: bool
  bc_webui_auth_enabled :: bool
  bc_webui_username :: "ustring option"
  bc_webui_password :: "ustring option"
  bc_webui_session_ttl_seconds :: u64
  bc_webui_cookie_secure :: bool
  bc_webui_title :: ustring
  bc_webui_custom_css_file :: "ustring option"
  bc_webui_logo_file :: "ustring option"
  bc_webui_favicon_file :: "ustring option"

type_synonym pairs = "(ustring \<times> ustring) list"

definition env_value :: "pairs \<Rightarrow> string \<Rightarrow> ustring option" where
  "env_value pairs var = map_of (rev pairs) (lit var)"

definition value_or_default :: "pairs \<Rightarrow> string \<Rightarrow> string \<Rightarrow> ustring" where
  "value_or_default pairs var dflt = (case env_value pairs var of None \<Rightarrow> lit dflt | Some v \<Rightarrow> v)"

text \<open>A value that is not blank.\<close>

definition nonblank :: "ustring option \<Rightarrow> ustring option" where
  "nonblank v = (case v of None \<Rightarrow> None | Some s \<Rightarrow> if trim s = [] then None else Some s)"

definition required_value :: "pairs \<Rightarrow> string \<Rightarrow> string \<Rightarrow> (config_error, ustring) res" where
  "required_value pairs var condition = ok_or (Required var condition) (nonblank (env_value pairs var))"

definition optional_secret :: "pairs \<Rightarrow> string \<Rightarrow> bool \<Rightarrow> string \<Rightarrow> (config_error, ustring option) res" where
  "optional_secret pairs var is_required condition =
     (let v = nonblank (env_value pairs var) in
      if is_required \<and> v = None then Err (Required var condition) else Ok v)"

definition boolean_value :: "pairs \<Rightarrow> string \<Rightarrow> bool \<Rightarrow> (config_error, bool) res" where
  "boolean_value pairs var dflt =
     (case env_value pairs var of
        None \<Rightarrow> Ok dflt
      | Some v \<Rightarrow> if v = lit ''true'' then Ok True else if v = lit ''false'' then Ok False else Err (InvalidBoolean var))"

definition positive_integer :: "pairs \<Rightarrow> string \<Rightarrow> u64 \<Rightarrow> (config_error, u64) res" where
  "positive_integer pairs var dflt =
     (case env_value pairs var of
        None \<Rightarrow> Ok dflt
      | Some v \<Rightarrow>
          (case parse_unsigned 64 v of
             None \<Rightarrow> Err (InvalidPositiveInteger var)
           | Some n \<Rightarrow> if 0 < n then Ok (word_of_nat n) else Err (InvalidPositiveInteger var)))"

definition comma_separated :: "pairs \<Rightarrow> string \<Rightarrow> ustring list" where
  "comma_separated pairs var =
     (case env_value pairs var of
        None \<Rightarrow> []
      | Some v \<Rightarrow> filter (\<lambda>s. s \<noteq> []) (map trim (split_char 44 v)))"

text \<open>\<open>Path::is_absolute\<close> on Unix.\<close>

definition absolute_path :: "string \<Rightarrow> ustring \<Rightarrow> (config_error, ustring) res" where
  "absolute_path var v = (if take 1 v = [47] then Ok v else Err (PathNotAbsolute var))"

definition optional_absolute_path :: "pairs \<Rightarrow> string \<Rightarrow> (config_error, ustring option) res" where
  "optional_absolute_path pairs var = transpose_map (absolute_path var) (nonblank (env_value pairs var))"

definition credential_condition :: string where
  "credential_condition = '' when WebUI authentication is enabled''"

definition from_pairs :: "pairs \<Rightarrow> (config_error, bootstrap_config) res" where
  "from_pairs pairs =
     rbind (absolute_path ''REMINDI_DB_PATH'' (value_or_default pairs ''REMINDI_DB_PATH'' ''/data/remindi.db'')) (\<lambda>database_path.
     rbind (required_value pairs ''REMINDI_OWNER_ID'' '''') (\<lambda>owner_id.
     rbind (required_value pairs ''REMINDI_MCP_TOKEN'' '''') (\<lambda>mcp_token.
     rbind (absolute_path ''REMINDI_BACKUP_DIR'' (value_or_default pairs ''REMINDI_BACKUP_DIR'' ''/data/backups'')) (\<lambda>backup_directory.
     rbind (boolean_value pairs ''REMINDI_LOG_CONTENT'' False) (\<lambda>log_content.
     rbind (boolean_value pairs ''REMINDI_WEBUI_ENABLE'' True) (\<lambda>webui_enabled.
     rbind (boolean_value pairs ''REMINDI_WEBUI_AUTH'' True) (\<lambda>webui_auth_enabled.
     rbind (optional_secret pairs ''REMINDI_WEBUI_USERNAME'' (webui_enabled \<and> webui_auth_enabled) credential_condition) (\<lambda>webui_username.
     rbind (optional_secret pairs ''REMINDI_WEBUI_PASSWORD'' (webui_enabled \<and> webui_auth_enabled) credential_condition) (\<lambda>webui_password.
     rbind (positive_integer pairs ''REMINDI_WEBUI_SESSION_TTL_SECONDS'' 43200) (\<lambda>webui_session_ttl_seconds.
     rbind (boolean_value pairs ''REMINDI_WEBUI_COOKIE_SECURE'' False) (\<lambda>webui_cookie_secure.
     rbind (optional_absolute_path pairs ''REMINDI_WEBUI_CUSTOM_CSS_FILE'') (\<lambda>webui_custom_css_file.
     rbind (optional_absolute_path pairs ''REMINDI_WEBUI_LOGO_FILE'') (\<lambda>webui_logo_file.
     rbind (optional_absolute_path pairs ''REMINDI_WEBUI_FAVICON_FILE'') (\<lambda>webui_favicon_file.
       Ok \<lparr>bc_database_path = database_path, bc_owner_id = owner_id, bc_mcp_token = mcp_token,
           bc_backup_directory = backup_directory,
           bc_allowed_hosts = comma_separated pairs ''REMINDI_HTTP_ALLOWED_HOSTS'',
           bc_allowed_origins = comma_separated pairs ''REMINDI_HTTP_ALLOWED_ORIGINS'',
           bc_log_level = value_or_default pairs ''REMINDI_LOG_LEVEL'' ''info'',
           bc_log_content = log_content, bc_webui_enabled = webui_enabled,
           bc_webui_auth_enabled = webui_auth_enabled, bc_webui_username = webui_username,
           bc_webui_password = webui_password, bc_webui_session_ttl_seconds = webui_session_ttl_seconds,
           bc_webui_cookie_secure = webui_cookie_secure,
           bc_webui_title = value_or_default pairs ''REMINDI_WEBUI_TITLE'' ''Remindi'',
           bc_webui_custom_css_file = webui_custom_css_file, bc_webui_logo_file = webui_logo_file,
           bc_webui_favicon_file = webui_favicon_file\<rparr>))))))))))))))"

section \<open>The environment\<close>

text \<open>An \<open>OsString\<close>: text, or bytes that are not Unicode.\<close>

datatype os_string = Unicode ustring | NotUnicode "nat list"

definition relevant_environment_pair ::
  "os_string \<times> os_string \<Rightarrow> (config_error, ustring \<times> ustring) res option" where
  "relevant_environment_pair p =
     (case fst p of
        NotUnicode _ \<Rightarrow> None
      | Unicode key \<Rightarrow>
          if take 8 key \<noteq> lit ''REMINDI_'' then None
          else Some (case snd p of Unicode v \<Rightarrow> Ok (key, v) | NotUnicode _ \<Rightarrow> Err (NonUnicode key)))"

definition from_env :: "(os_string \<times> os_string) list \<Rightarrow> (config_error, bootstrap_config) res" where
  "from_env vars =
     rbind (collect_map (\<lambda>r. r) (List.map_filter relevant_environment_pair vars)) from_pairs"

section \<open>What an accepted configuration satisfies\<close>

definition blank :: "ustring \<Rightarrow> bool" where "blank s \<longleftrightarrow> trim s = []"

definition absolute :: "ustring \<Rightarrow> bool" where "absolute p \<longleftrightarrow> take 1 p = [47]"

definition config_ok :: "bootstrap_config \<Rightarrow> bool" where
  "config_ok c \<longleftrightarrow> absolute (bc_database_path c) \<and> absolute (bc_backup_directory c)
     \<and> \<not> blank (bc_owner_id c) \<and> \<not> blank (bc_mcp_token c)
     \<and> (\<forall>h \<in> set (bc_allowed_hosts c) \<union> set (bc_allowed_origins c). h \<noteq> [] \<and> trim h = h \<and> 44 \<notin> set h)
     \<and> (bc_webui_enabled c \<and> bc_webui_auth_enabled c \<longrightarrow> bc_webui_username c \<noteq> None \<and> bc_webui_password c \<noteq> None)
     \<and> pred_option (\<lambda>s. \<not> blank s) (bc_webui_username c) \<and> pred_option (\<lambda>s. \<not> blank s) (bc_webui_password c)
     \<and> 0 < unat (bc_webui_session_ttl_seconds c)
     \<and> pred_option absolute (bc_webui_custom_css_file c) \<and> pred_option absolute (bc_webui_logo_file c)
     \<and> pred_option absolute (bc_webui_favicon_file c)"

named_theorems config_simps \<open>inversion of the readers of one variable\<close>

lemma nonblank_Some: "nonblank v = Some s \<longleftrightarrow> v = Some s \<and> \<not> blank s"
  by (auto simp: nonblank_def blank_def split: option.splits if_splits)

lemma absolute_path_Ok [config_simps]: "absolute_path var v = Inr p \<longleftrightarrow> p = v \<and> absolute v"
  by (auto simp: absolute_path_def absolute_def)

lemma required_value_Ok [config_simps]:
  "required_value pairs var condition = Inr s \<longleftrightarrow> env_value pairs var = Some s \<and> \<not> blank s"
  by (simp add: required_value_def res_simps nonblank_Some)

lemma optional_secret_Ok [config_simps]:
  "optional_secret pairs var r condition = Inr v \<longleftrightarrow> v = nonblank (env_value pairs var) \<and> (r \<longrightarrow> v \<noteq> None)"
  by (auto simp: optional_secret_def Let_def)

lemma positive_integer_Ok: "positive_integer pairs var dflt = Inr n \<Longrightarrow> 0 < unat dflt \<Longrightarrow> 0 < unat n"
  by (auto simp: positive_integer_def unat_of_nat split: option.splits if_splits dest!: parse_unsigned_bound)

lemma optional_absolute_path_Ok: "optional_absolute_path pairs var = Inr v \<Longrightarrow> pred_option absolute v"
  by (auto simp: optional_absolute_path_def res_simps config_simps)

lemma nonblank_pred: "pred_option (\<lambda>s. \<not> blank s) (nonblank v)"
  by (auto simp: nonblank_def blank_def split: option.splits)

lemma trim_set: "set (trim s) \<subseteq> set s"
proof -
  have "set (dropWhile P xs) \<subseteq> set xs" for P and xs :: ustring using set_dropWhileD by fastforce
  then show ?thesis unfolding trim_def by (metis set_rev subset_trans)
qed

lemma comma_separated_entry:
  "h \<in> set (comma_separated pairs var) \<Longrightarrow> h \<noteq> [] \<and> trim h = h \<and> 44 \<notin> set h"
  using trim_set split_char_pieces by (fastforce simp: comma_separated_def split: option.splits)

text \<open>
  C33: Every configuration that is accepted is well-formed: absolute paths, an owner and a token
  that are not blank, trimmed list entries, a positive session lifetime, and credentials
  that are present and not blank whenever the browser interface asks for them.
\<close>

theorem accepted_config_ok:
  assumes "from_env vars = Ok c"
  shows "config_ok c"
proof -
  obtain pairs where p: "from_pairs pairs = Ok c" using assms by (auto simp: from_env_def res_simps)
  from p [unfolded from_pairs_def] show ?thesis
  proof (elim rbindE, goal_cases)
    case (1 db who secret backups log ui ui_auth user password ttl cookie css logo favicon)
    from 1(15) have c: "bc_database_path c = db" "bc_owner_id c = who" "bc_mcp_token c = secret"
      "bc_backup_directory c = backups" "bc_webui_enabled c = ui" "bc_webui_auth_enabled c = ui_auth"
      "bc_webui_username c = user" "bc_webui_password c = password" "bc_webui_session_ttl_seconds c = ttl"
      "bc_webui_custom_css_file c = css" "bc_webui_logo_file c = logo" "bc_webui_favicon_file c = favicon"
      "bc_allowed_hosts c = comma_separated pairs ''REMINDI_HTTP_ALLOWED_HOSTS''"
      "bc_allowed_origins c = comma_separated pairs ''REMINDI_HTTP_ALLOWED_ORIGINS''"
      by auto
    note paths = 1(1,4) [unfolded config_simps] and names = 1(2,3) [unfolded config_simps]
      and secrets = 1(8,9) [unfolded config_simps] and files = 1(12-14) [THEN optional_absolute_path_Ok]
    have ttl: "0 < unat ttl" using positive_integer_Ok [OF 1(10)] by simp
    have "pred_option (\<lambda>s. \<not> blank s) user" "pred_option (\<lambda>s. \<not> blank s) password"
      using secrets nonblank_pred by auto
    with paths names secrets files ttl show ?case
      unfolding config_ok_def c by (simp only: conj_ac Un_iff) (auto dest: comma_separated_entry)
  qed
qed

definition demo_variables :: "(os_string \<times> os_string) list" where
  "demo_variables = [(Unicode (lit ''REMINDI_OWNER_ID''), Unicode (lit ''owner'')),
     (Unicode (lit ''REMINDI_MCP_TOKEN''), Unicode (lit ''two words'')),
     (Unicode (lit ''REMINDI_WEBUI_ENABLE''), Unicode (lit ''false'')),
     (Unicode (lit ''HOME''), NotUnicode [255])]"

definition demo_pairs :: pairs where
  "demo_pairs = [(lit ''REMINDI_OWNER_ID'', lit ''owner''), (lit ''REMINDI_MCP_TOKEN'', lit ''two words''),
     (lit ''REMINDI_WEBUI_ENABLE'', lit ''false'')]"

definition demo_config :: bootstrap_config where
  "demo_config =
     \<lparr>bc_database_path = lit ''/data/remindi.db'', bc_owner_id = lit ''owner'', bc_mcp_token = lit ''two words'',
      bc_backup_directory = lit ''/data/backups'', bc_allowed_hosts = [], bc_allowed_origins = [],
      bc_log_level = lit ''info'', bc_log_content = False, bc_webui_enabled = False, bc_webui_auth_enabled = True,
      bc_webui_username = None, bc_webui_password = None, bc_webui_session_ttl_seconds = 43200,
      bc_webui_cookie_secure = False, bc_webui_title = lit ''Remindi'', bc_webui_custom_css_file = None,
      bc_webui_logo_file = None, bc_webui_favicon_file = None\<rparr>"

lemma demo_from_pairs: "from_pairs demo_pairs = Ok demo_config"
  by (simp add: from_pairs_def demo_pairs_def demo_config_def absolute_path_def value_or_default_def env_value_def
      required_value_def nonblank_def trim_def is_whitespace_def boolean_value_def optional_secret_def
      positive_integer_def comma_separated_def optional_absolute_path_def)

lemma demo_from_env: "from_env demo_variables = Ok demo_config"
  using demo_from_pairs
  by (simp add: from_env_def demo_variables_def demo_pairs_def List.map_filter_def relevant_environment_pair_def)

theorem accepted_config_ok_witness: "config_ok demo_config"
  by (rule accepted_config_ok [OF demo_from_env])

text \<open>
  A configured token can be unusable: with a character outside visible ASCII or with white space in it the
  configuration is accepted, and then no request to \<open>/mcp\<close> is ever admitted, if no other token has
  its digest.
\<close>

theorem accepted_secret_locks_out:
  assumes "from_env vars = Ok c"
    and "mcp_policy_new out (bc_owner_id c) (bc_mcp_token c) (bc_allowed_hosts c) (bc_allowed_origins c) = Ok policy"
    and "\<forall>t. token_digest out t = token_digest out (utf8_bytes (bc_mcp_token c)) \<longrightarrow> t = utf8_bytes (bc_mcp_token c)"
    and "b \<in> set (utf8_bytes (bc_mcp_token c))" and "\<not> token_byte b"
  shows "mcp_authenticate out policy headers query \<noteq> Ok ident"
proof
  assume a: "mcp_authenticate out policy headers query = Ok ident"
  then obtain t where t: "t \<noteq> []" "list_all token_byte t"
      "token_digest out t = mp_expected_token_digest policy"
    unfolding mcp_admission by blast
  with mcp_policy_new_Ok(2) [OF assms(2)] assms(3) have "t = utf8_bytes (bc_mcp_token c)" by simp
  with t(2) assms(4,5) show False by (auto simp: list_all_iff)
qed

theorem accepted_secret_locks_out_witness:
  "\<exists>policy. mcp_policy_new demo_auth (bc_owner_id demo_config) (bc_mcp_token demo_config) [] [] = Ok policy
     \<and> mcp_authenticate demo_auth policy headers None \<noteq> Ok ident"
proof -
  obtain policy where p: "mcp_policy_new demo_auth (bc_owner_id demo_config) (bc_mcp_token demo_config)
      (bc_allowed_hosts demo_config) (bc_allowed_origins demo_config) = Ok policy"
    by (simp add: mcp_policy_new_def demo_config_def)
  have "utf8_bytes (bc_mcp_token demo_config) = bc_mcp_token demo_config"
    by (rule utf8_bytes_ascii) (auto simp: demo_config_def)
  then have "32 \<in> set (utf8_bytes (bc_mcp_token demo_config))" by (simp add: demo_config_def)
  from accepted_secret_locks_out [OF demo_from_env p _ this] p show ?thesis
    by (auto simp: token_digest_def demo_auth_def token_byte_def demo_config_def)
qed

end
