(* ===== verification/Sessions.thy ===== *)
theory Sessions
  imports Bootstrap
begin

text \<open>
  The sessions of the browser interface, \<open>src/auth/web_session.rs\<close>: one-time tokens for the sign-in
  form, the limit on password attempts, the sessions and their cookies. A \<open>HashMap\<close> is its list
  of entries with distinct keys; which entry its iterator yields first, when one has to be
  evicted, is a parameter, and so are the random bytes. The mutexes make each access of a map
  a step of its own; an operation here is one step, as the accesses of one operation to the
  same map are not interleaved with those of another.
\<close>

section \<open>Hash maps\<close>

definition hm_insert :: "'k \<Rightarrow> 'v \<Rightarrow> ('k \<times> 'v) list \<Rightarrow> ('k \<times> 'v) list" where
  "hm_insert k v m = (k, v) # filter (\<lambda>(k', _). k' \<noteq> k) m"

definition hm_remove :: "'k \<Rightarrow> ('k \<times> 'v) list \<Rightarrow> ('k \<times> 'v) list" where
  "hm_remove k m = filter (\<lambda>(k', _). k' \<noteq> k) m"

text \<open>\<open>evict_one_at_capacity\<close>: \<open>pick\<close> chooses the entry that the iterator yields first.\<close>

definition evict_one_at_capacity :: "nat \<Rightarrow> nat \<Rightarrow> ('k \<times> 'v) list \<Rightarrow> ('k \<times> 'v) list" where
  "evict_one_at_capacity pick capacity m =
     (if length m \<ge> capacity \<and> m \<noteq> [] then hm_remove (fst (m ! (pick mod length m))) m else m)"

section \<open>State\<close>

datatype web_mode = WebDisabled | WebAuthenticated | WebUnauthenticated

datatype login_error = LoginDisabled | CsrfRejected | RateLimited | InvalidCredentials | Randomness

datatype session_error = SessionDisabled | SessionUnauthenticated | SessionExpired

record session_view =
  sv_actor_id :: ustring
  sv_csrf_token :: ustring
  sv_expires_at :: instant
  sv_reauthenticated_at :: "instant option"

record stored_session =
  ss_actor_id :: ustring
  ss_csrf_token :: ustring
  ss_expires_at :: instant
  ss_reauthenticated_at :: instant

record web_policy =
  wp_mode :: web_mode
  wp_username_digest :: "nat list option"
  wp_password_digest :: "nat list option"
  wp_ttl :: int
  wp_cookie_secure :: bool
  wp_unauthenticated_csrf :: ustring

record web_state =
  wt_sessions :: "(ustring \<times> stored_session) list"
  wt_pre_session :: "(ustring \<times> instant) list"
  wt_attempts :: "instant list"
  wt_random :: nat
  wt_evict :: nat

record web_outside =
  wo_auth :: auth_outside
  wo_random :: "nat \<Rightarrow> nat list option"
  wo_evict :: "nat \<Rightarrow> nat"

type_synonym ('e, 'a) web = "(web_state, 'e, 'a) effect"

definition max_login_attempts :: nat where "max_login_attempts = 5"
definition login_window :: int where "login_window = 60 * ns_per_sec"
definition max_tracked_attempts :: nat where "max_tracked_attempts = 1024"
definition max_sessions :: nat where "max_sessions = 1024"
definition max_pre_session_tokens :: nat where "max_pre_session_tokens = 1024"
definition pre_session_ttl :: int where "pre_session_ttl = 5 * 60 * ns_per_sec"
definition session_cookie_name :: ustring where "session_cookie_name = lit ''remindi_session''"

definition empty_web :: web_state where
  "empty_web = \<lparr>wt_sessions = [], wt_pre_session = [], wt_attempts = [], wt_random = 0, wt_evict = 0\<rparr>"

section \<open>Helpers\<close>

definition web_digest :: "web_outside \<Rightarrow> ustring \<Rightarrow> nat list" where
  "web_digest out v = au_sha256 (wo_auth out) (utf8_bytes v)"

definition web_actor_id :: "web_outside \<Rightarrow> ustring \<Rightarrow> ustring" where
  "web_actor_id out username = lit ''webui:'' @ au_base64 (wo_auth out) (web_digest out username)"

definition random_token :: "web_outside \<Rightarrow> (login_error, ustring) web" where
  "random_token out = (\<lambda>s.
     (ok_or Randomness (map_option (au_base64 (wo_auth out)) (wo_random out (wt_random s))),
      s\<lparr>wt_random := wt_random s + 1\<rparr>))"

definition cookie_value :: "header_map \<Rightarrow> ustring \<Rightarrow> ustring option" where
  "cookie_value headers name =
     (if length (get_all headers ''cookie'') \<noteq> 1 then None
      else Option.bind (Option.bind (get_header headers ''cookie'') to_str) (\<lambda>v.
        case map snd (filter (\<lambda>(k, _). k = name)
               (List.map_filter (\<lambda>part. split_once [61] (trim part)) (split_char 59 v))) of
          [x] \<Rightarrow> Some x
        | _ \<Rightarrow> None))"

definition view_of :: "stored_session \<Rightarrow> session_view" where
  "view_of s = \<lparr>sv_actor_id = ss_actor_id s, sv_csrf_token = ss_csrf_token s,
                sv_expires_at = ss_expires_at s, sv_reauthenticated_at = Some (ss_reauthenticated_at s)\<rparr>"

definition cookie_attributes :: "int \<Rightarrow> bool \<Rightarrow> ustring" where
  "cookie_attributes ttl secure =
     lit ''; Path=/; HttpOnly; SameSite=Strict; Max-Age='' @ int_text (ttl div ns_per_sec)
       @ (if secure then lit ''; Secure'' else [])"

definition session_cookie :: "ustring \<Rightarrow> int \<Rightarrow> bool \<Rightarrow> (login_error, nat list) res" where
  "session_cookie i ttl secure =
     ok_or Randomness (header_value_from_str (session_cookie_name @ 61 # i @ cookie_attributes ttl secure))"

text \<open>The lifetime of a session, \<open>Duration::seconds\<close> of the configured number, at most \<open>i64::MAX\<close>.\<close>

definition web_ttl :: "u64 \<Rightarrow> int" where
  "web_ttl n = seconds (case i64_try_from_u64 n of None \<Rightarrow> i64_max | Some i \<Rightarrow> i)"

definition web_from_config :: "web_outside \<Rightarrow> bootstrap_config \<Rightarrow> (login_error, web_policy) web" where
  "web_from_config out c =
     mbind (random_token out) (\<lambda>csrf. mlift (Ok
       \<lparr>wp_mode = (if \<not> bc_webui_enabled c then WebDisabled
                   else if bc_webui_auth_enabled c then WebAuthenticated else WebUnauthenticated),
        wp_username_digest = map_option (web_digest out) (bc_webui_username c),
        wp_password_digest = map_option (web_digest out) (bc_webui_password c),
        wp_ttl = web_ttl (bc_webui_session_ttl_seconds c),
        wp_cookie_secure = bc_webui_cookie_secure c,
        wp_unauthenticated_csrf = csrf\<rparr>))"

section \<open>Operations\<close>

text \<open>Dropping what has expired, making room, and inserting.\<close>

definition insert_session :: "web_outside \<Rightarrow> instant \<Rightarrow> ustring \<Rightarrow> stored_session \<Rightarrow> ('e, unit) web" where
  "insert_session out now i stored = (\<lambda>s.
     (Ok (), s\<lparr>wt_sessions := hm_insert i stored
                 (evict_one_at_capacity (wo_evict out (wt_evict s)) max_sessions
                    (filter (\<lambda>(_, x). ss_expires_at x > now) (wt_sessions s))),
               wt_evict := wt_evict s + 1\<rparr>))"

definition insert_pre_session :: "web_outside \<Rightarrow> instant \<Rightarrow> ustring \<Rightarrow> (login_error, unit) web" where
  "insert_pre_session out now token = (\<lambda>s.
     let kept = evict_one_at_capacity (wo_evict out (wt_evict s)) max_pre_session_tokens
                  (filter (\<lambda>(_, expires). expires > now) (wt_pre_session s));
         s' = s\<lparr>wt_pre_session := kept, wt_evict := wt_evict s + 1\<rparr>
     in case time_add now pre_session_ttl of
          Inl e \<Rightarrow> (Inl e, s')
        | Inr expires \<Rightarrow> (Ok (), s'\<lparr>wt_pre_session := hm_insert token expires kept\<rparr>))"

definition issue_pre_session_token :: "web_outside \<Rightarrow> web_policy \<Rightarrow> instant \<Rightarrow> (login_error, ustring) web" where
  "issue_pre_session_token out p now =
     (if wp_mode p = WebDisabled then mlift (Err LoginDisabled)
      else mbind (random_token out) (\<lambda>token.
           mbind (insert_pre_session out now token) (\<lambda>_. mlift (Ok token))))"

definition consume_pre_session :: "ustring \<Rightarrow> instant \<Rightarrow> (login_error, unit) web" where
  "consume_pre_session token now = (\<lambda>s.
     case map_of (wt_pre_session s) token of
       None \<Rightarrow> (Err CsrfRejected, s)
     | Some expires \<Rightarrow>
         (guard (expires > now) CsrfRejected, s\<lparr>wt_pre_session := hm_remove token (wt_pre_session s)\<rparr>))"

text \<open>The front of the queue is compared with \<open>now - LOGIN_WINDOW\<close>, which may leave the range of time.\<close>

definition recent_attempts :: "instant \<Rightarrow> instant list \<Rightarrow> (login_error, instant list) res" where
  "recent_attempts now attempts =
     (if attempts = [] then Ok []
      else rbind (time_add now (- login_window)) (\<lambda>since. Ok (dropWhile (\<lambda>at. at \<le> since) attempts)))"

definition check_rate_limit :: "instant \<Rightarrow> (login_error, unit) web" where
  "check_rate_limit now = (\<lambda>s.
     case recent_attempts now (wt_attempts s) of
       Inl e \<Rightarrow> (Inl e, s)
     | Inr recent \<Rightarrow>
         if length recent \<ge> max_login_attempts then (Err RateLimited, s\<lparr>wt_attempts := recent\<rparr>)
         else let pushed = recent @ [now]
              in (Ok (), s\<lparr>wt_attempts := drop (length pushed - max_tracked_attempts) pushed\<rparr>))"

definition password_valid :: "web_outside \<Rightarrow> web_policy \<Rightarrow> ustring \<Rightarrow> bool" where
  "password_valid out p password \<longleftrightarrow> wp_password_digest p = Some (web_digest out password)"

definition web_login ::
  "web_outside \<Rightarrow> web_policy \<Rightarrow> ustring \<Rightarrow> ustring \<Rightarrow> ustring \<Rightarrow> instant \<Rightarrow> (login_error, session_view \<times> nat list) web" where
  "web_login out p username password pre_session_token now =
     (if wp_mode p \<noteq> WebAuthenticated then mlift (Err LoginDisabled)
      else
        mbind (consume_pre_session pre_session_token now) (\<lambda>_.
        mbind (check_rate_limit now) (\<lambda>_.
        if \<not> (wp_username_digest p = Some (web_digest out username) \<and> password_valid out p password)
        then mlift (Err InvalidCredentials)
        else
          mbind (random_token out) (\<lambda>i.
          mbind (random_token out) (\<lambda>csrf.
          mbind (mlift (time_add now (wp_ttl p))) (\<lambda>expires.
          let stored = \<lparr>ss_actor_id = web_actor_id out username, ss_csrf_token = csrf,
                        ss_expires_at = expires, ss_reauthenticated_at = now\<rparr>
          in mbind (insert_session out now i stored) (\<lambda>_.
             mbind (mlift (session_cookie i (wp_ttl p) (wp_cookie_secure p))) (\<lambda>cookie.
               mlift (Ok (view_of stored, cookie))))))))))"

definition unauthenticated_actor :: ustring where "unauthenticated_actor = lit ''webui:unauthenticated''"

definition unauthenticated_view :: "web_policy \<Rightarrow> session_view" where
  "unauthenticated_view p =
     \<lparr>sv_actor_id = unauthenticated_actor, sv_csrf_token = wp_unauthenticated_csrf p,
      sv_expires_at = 365000 * 86400 * ns_per_sec, sv_reauthenticated_at = None\<rparr>"

definition forget_session :: "ustring \<Rightarrow> web_state \<Rightarrow> web_state" where
  "forget_session i s = s\<lparr>wt_sessions := hm_remove i (wt_sessions s)\<rparr>"

definition web_authenticate :: "web_policy \<Rightarrow> header_map \<Rightarrow> instant \<Rightarrow> (session_error, session_view) web" where
  "web_authenticate p headers now = (\<lambda>s.
     case wp_mode p of
       WebDisabled \<Rightarrow> (Err SessionDisabled, s)
     | WebUnauthenticated \<Rightarrow>
         (case cookie_value headers session_cookie_name of
            None \<Rightarrow> (Ok (unauthenticated_view p), s)
          | Some i \<Rightarrow>
              (case map_of (wt_sessions s) i of
                 None \<Rightarrow> (Ok (unauthenticated_view p), s)
               | Some session \<Rightarrow>
                   if ss_expires_at session > now then (Ok (view_of session), s)
                   else (Ok (unauthenticated_view p), forget_session i s)))
     | WebAuthenticated \<Rightarrow>
         (case cookie_value headers session_cookie_name of
            None \<Rightarrow> (Err SessionUnauthenticated, s)
          | Some i \<Rightarrow>
              (case map_of (wt_sessions s) i of
                 None \<Rightarrow> (Err SessionUnauthenticated, s)
               | Some session \<Rightarrow>
                   if ss_expires_at session \<le> now then (Err SessionExpired, forget_session i s)
                   else (Ok (view_of session), s))))"

definition set_session :: "ustring \<Rightarrow> stored_session \<Rightarrow> ('e, unit) web" where
  "set_session i session = (\<lambda>s.
     (Ok (), s\<lparr>wt_sessions := map (\<lambda>(k, x). (k, if k = i then session else x)) (wt_sessions s)\<rparr>))"

definition reauthenticate_existing ::
  "web_outside \<Rightarrow> web_policy \<Rightarrow> header_map \<Rightarrow> ustring \<Rightarrow> instant \<Rightarrow> (login_error, session_view \<times> nat list option) web" where
  "reauthenticate_existing out p headers password now =
     mbind (mlift (ok_or InvalidCredentials (cookie_value headers session_cookie_name))) (\<lambda>i.
     mbind (\<lambda>s. (ok_or InvalidCredentials (map_of (wt_sessions s) i), s)) (\<lambda>session.
     if \<not> ss_expires_at session > now \<or> \<not> password_valid out p password then mlift (Err InvalidCredentials)
     else
       let refreshed = session\<lparr>ss_reauthenticated_at := now\<rparr>
       in mbind (set_session i refreshed) (\<lambda>_. mlift (Ok (view_of refreshed, None)))))"

definition reauthenticate ::
  "web_outside \<Rightarrow> web_policy \<Rightarrow> header_map \<Rightarrow> ustring \<Rightarrow> instant \<Rightarrow> (login_error, session_view \<times> nat list option) web" where
  "reauthenticate out p headers password now =
     (if wp_mode p = WebDisabled then mlift (Err LoginDisabled)
      else
        mbind (check_rate_limit now) (\<lambda>_.
        if wp_mode p = WebUnauthenticated then
          if wp_username_digest p = None \<or> \<not> password_valid out p password then mlift (Err InvalidCredentials)
          else
            mbind (random_token out) (\<lambda>i.
            mbind (mlift (time_add now (wp_ttl p))) (\<lambda>expires.
            let stored = \<lparr>ss_actor_id = unauthenticated_actor, ss_csrf_token = wp_unauthenticated_csrf p,
                          ss_expires_at = expires, ss_reauthenticated_at = now\<rparr>
            in mbind (insert_session out now i stored) (\<lambda>_.
               mbind (mlift (session_cookie i (wp_ttl p) (wp_cookie_secure p))) (\<lambda>cookie.
                 mlift (Ok (view_of stored, Some cookie))))))
        else reauthenticate_existing out p headers password now))"

definition web_logout :: "web_policy \<Rightarrow> header_map \<Rightarrow> ('e, nat list) web" where
  "web_logout p headers = (\<lambda>s.
     (Ok (lit ''remindi_session=; Path=/; HttpOnly; SameSite=Strict; Max-Age=0''
            @ (if wp_cookie_secure p then lit ''; Secure'' else [])),
      case cookie_value headers session_cookie_name of None \<Rightarrow> s | Some i \<Rightarrow> forget_session i s))"

end
