(* ===== verification/SessionGuarantees.thy ===== *)
theory SessionGuarantees
  imports Sessions
begin

text \<open>
  What the browser sessions guarantee over every sequence of operations: bounded tables, at
  most five password comparisons per minute, one-time tokens, and sessions that only a sign-in
  with the configured credentials creates.
\<close>

section \<open>Histories of operations\<close>

datatype web_op =
    IssueToken
  | SignIn ustring ustring ustring
  | LookAt header_map
  | Confirm header_map ustring
  | SignOut header_map

fun web_step :: "web_outside \<Rightarrow> web_policy \<Rightarrow> instant \<times> web_op \<Rightarrow> web_state \<Rightarrow> web_state" where
  "web_step out p (now, IssueToken) s = snd (issue_pre_session_token out p now s)"
| "web_step out p (now, SignIn username password token) s = snd (web_login out p username password token now s)"
| "web_step out p (now, LookAt headers) s = snd (web_authenticate p headers now s)"
| "web_step out p (now, Confirm headers password) s = snd (reauthenticate out p headers password now s)"
| "web_step out p (now, SignOut headers) s = snd (web_logout p headers s :: (unit, nat list) res \<times> web_state)"

definition web_run :: "web_outside \<Rightarrow> web_policy \<Rightarrow> (instant \<times> web_op) list \<Rightarrow> web_state \<Rightarrow> web_state" where
  "web_run out p ops s = fold (web_step out p) ops s"

lemma web_run_snoc: "web_run out p (ops @ [x]) s = web_step out p x (web_run out p ops s)"
  by (simp add: web_run_def)

section \<open>Bounded tables\<close>

definition table_ok :: "nat \<Rightarrow> ('k \<times> 'v) list \<Rightarrow> bool" where
  "table_ok n m \<longleftrightarrow> distinct (map fst m) \<and> length m \<le> n"

definition web_ok :: "web_state \<Rightarrow> bool" where
  "web_ok s \<longleftrightarrow> table_ok max_sessions (wt_sessions s) \<and> table_ok max_pre_session_tokens (wt_pre_session s)
     \<and> length (wt_attempts s) \<le> max_login_attempts"

lemma table_ok_filter: "table_ok n m \<Longrightarrow> table_ok n (filter P m)"
  using le_trans [OF length_filter_le] by (auto simp: table_ok_def distinct_map_filter)

lemma table_ok_remove: "table_ok n m \<Longrightarrow> table_ok n (hm_remove k m)"
  unfolding hm_remove_def by (rule table_ok_filter)

lemma length_remove: "k \<in> fst ` set m \<Longrightarrow> length (hm_remove k m) < length m"
proof -
  assume "k \<in> fst ` set m"
  then obtain v where "(k, v) \<in> set m" by auto
  then show ?thesis unfolding hm_remove_def by (rule length_filter_less) simp
qed

lemma evict_makes_room:
  assumes "table_ok n m" and "0 < n"
  shows "table_ok n (evict_one_at_capacity pick n m)" and "length (evict_one_at_capacity pick n m) < n"
proof -
  show "table_ok n (evict_one_at_capacity pick n m)"
    using assms(1) by (simp add: evict_one_at_capacity_def table_ok_remove)
  show "length (evict_one_at_capacity pick n m) < n"
  proof (cases "length m \<ge> n \<and> m \<noteq> []")
    case True
    then have "fst (m ! (pick mod length m)) \<in> fst ` set m" by (intro imageI nth_mem) simp
    from length_remove [OF this] True assms(1) show ?thesis by (simp add: evict_one_at_capacity_def table_ok_def)
  qed (use assms in \<open>auto simp: evict_one_at_capacity_def\<close>)
qed

lemma table_ok_insert:
  assumes "table_ok n m" and "length m < n"
  shows "table_ok n (hm_insert k v m)"
proof -
  have "length (filter (\<lambda>(k', _). k' \<noteq> k) m) < n" by (rule le_less_trans [OF length_filter_le assms(2)])
  then show ?thesis
    using table_ok_filter [OF assms(1), of "\<lambda>(k', _). k' \<noteq> k"] by (auto simp: table_ok_def hm_insert_def)
qed

lemma inserted_ok: "table_ok n m \<Longrightarrow> 0 < n \<Longrightarrow> table_ok n (hm_insert k v (evict_one_at_capacity pick n (filter P m)))"
  by (intro table_ok_insert evict_makes_room table_ok_filter)

lemma fst_update: "fst \<circ> (\<lambda>(k, x). (k, if k = i then y else x)) = fst"
  by auto

named_theorems web_keeps \<open>operations that keep the tables bounded\<close>

lemma keeps_web_bind [web_keeps]:
  "ensures (keeping web_ok) m \<Longrightarrow> (\<And>x. ensures (keeping web_ok) (f x)) \<Longrightarrow> ensures (keeping web_ok) (mbind m f)"
  by (rule ensures_mbind) simp_all

lemma keeps_web_lift [web_keeps]: "ensures (keeping web_ok) (mlift r)"
  by (rule ensures_mlift) simp

lemma keeps_random [web_keeps]: "ensures (keeping web_ok) (random_token out)"
  by (simp add: ensures_def keeping_def random_token_def web_ok_def)

lemma keeps_insert_session [web_keeps]: "ensures (keeping web_ok) (insert_session out now i stored)"
  by (simp add: ensures_def keeping_def insert_session_def web_ok_def inserted_ok max_sessions_def)

lemma keeps_insert_pre [web_keeps]: "ensures (keeping web_ok) (insert_pre_session out now token)"
proof (rule ensuresI)
  fix s r s' assume e: "insert_pre_session out now token s = (r, s')"
  have room: "table_ok max_pre_session_tokens (wt_pre_session s) \<Longrightarrow>
      table_ok max_pre_session_tokens (evict_one_at_capacity (wo_evict out (wt_evict s)) max_pre_session_tokens
        (filter (\<lambda>(_, expires). expires > now) (wt_pre_session s)))"
    by (intro evict_makes_room(1) table_ok_filter) (simp_all add: max_pre_session_tokens_def)
  show "keeping web_ok s s'"
  proof (cases "time_add now pre_session_ttl :: (login_error, instant) res")
    case (Inl f)
    with e room show ?thesis by (auto simp: insert_pre_session_def Let_def keeping_def web_ok_def)
  next
    case (Inr expires)
    with e show ?thesis
      by (auto simp: insert_pre_session_def Let_def keeping_def web_ok_def intro!: inserted_ok) (simp add: max_pre_session_tokens_def)
  qed
qed

lemma keeps_consume [web_keeps]: "ensures (keeping web_ok) (consume_pre_session token now)"
  by (auto simp: ensures_def keeping_def consume_pre_session_def web_ok_def table_ok_remove split: option.split)

lemma recent_attempts_suffix: "recent_attempts now attempts = Inr recent \<Longrightarrow> length recent \<le> length attempts"
  by (auto simp: recent_attempts_def res_simps length_dropWhile_le split: if_splits)

lemma keeps_limit [web_keeps]: "ensures (keeping web_ok) (check_rate_limit now)"
proof (rule ensuresI)
  fix s r s' assume e: "check_rate_limit now s = (r, s')"
  show "keeping web_ok s s'"
  proof (cases "recent_attempts now (wt_attempts s)")
    case (Inl f)
    with e show ?thesis by (simp add: check_rate_limit_def keeping_def)
  next
    case (Inr recent)
    with e recent_attempts_suffix [OF Inr] show ?thesis
      by (auto simp: check_rate_limit_def keeping_def web_ok_def Let_def max_login_attempts_def max_tracked_attempts_def
          split: if_splits)
  qed
qed

lemma keeps_forget: "web_ok s \<Longrightarrow> web_ok (forget_session i s)"
  by (simp add: web_ok_def forget_session_def table_ok_remove)

lemma keeps_set_session [web_keeps]: "ensures (keeping web_ok) (set_session i session)"
proof (rule ensuresI)
  fix s r s' assume "set_session i session s = (r, s')"
  then have "s' = s\<lparr>wt_sessions := map (\<lambda>(k, x). (k, if k = i then session else x)) (wt_sessions s)\<rparr>"
    by (simp add: set_session_def)
  then show "keeping web_ok s s'"
    by (simp add: keeping_def web_ok_def table_ok_def fst_update)
qed

lemma keeps_read [web_keeps]: "ensures (keeping web_ok) (\<lambda>s. (f s, s))"
  by (simp add: ensures_def keeping_def)

lemma keeps_authenticate [web_keeps]: "ensures (keeping web_ok) (web_authenticate p headers now)"
  by (auto simp: ensures_def keeping_def web_authenticate_def keeps_forget split: web_mode.split option.split)

lemma keeps_login [web_keeps]: "ensures (keeping web_ok) (web_login out p username password token now)"
  unfolding web_login_def Let_def by (auto intro!: web_keeps)

lemma keeps_reauthenticate [web_keeps]: "ensures (keeping web_ok) (reauthenticate out p headers password now)"
  unfolding reauthenticate_def reauthenticate_existing_def Let_def by (auto intro!: web_keeps)

lemma keeps_issue [web_keeps]: "ensures (keeping web_ok) (issue_pre_session_token out p now)"
  unfolding issue_pre_session_token_def by (auto intro!: web_keeps)

lemma keeps_logout [web_keeps]: "ensures (keeping web_ok) (web_logout p headers)"
  by (auto simp: ensures_def keeping_def web_logout_def keeps_forget split: option.split)

lemma keeping_snd: "ensures (keeping P) m \<Longrightarrow> P s \<Longrightarrow> P (snd (m s))"
  by (simp add: ensures_def keeping_def)

lemma web_step_ok: "web_ok s \<Longrightarrow> web_ok (web_step out p x s)"
  by (cases "(out, p, x, s)" rule: web_step.cases) (auto intro!: keeping_snd web_keeps)

text \<open>
  The tables stay bounded: after any operations there are at most 1024 sessions and 1024
  one-time tokens, each under one key, and at most five recorded attempts.
\<close>

theorem web_tables_bounded: "web_ok (web_run out p ops empty_web)"
proof (induction ops rule: rev_induct)
  case (snoc x ops)
  then show ?case by (simp add: web_run_snoc web_step_ok)
qed (simp add: web_run_def empty_web_def web_ok_def table_ok_def)

section \<open>Where sessions come from\<close>

text \<open>
  Every session after an operation was there before, with the same actor and expiry, or its
  actor and expiry satisfy \<open>G\<close>.
\<close>

definition grants :: "(ustring \<Rightarrow> instant \<Rightarrow> bool) \<Rightarrow> web_state \<Rightarrow> web_state \<Rightarrow> bool" where
  "grants G s s' \<longleftrightarrow> (\<forall>(k, x) \<in> set (wt_sessions s').
     (\<exists>y. (k, y) \<in> set (wt_sessions s) \<and> ss_actor_id y = ss_actor_id x \<and> ss_expires_at y = ss_expires_at x)
     \<or> G (ss_actor_id x) (ss_expires_at x))"

lemma grants_order [simp]: "reflp (grants G)" "transp (grants G)"
  by (fastforce simp: grants_def reflp_def transp_def)+

lemma grants_snd: "ensures (grants G) m \<Longrightarrow> grants G s (snd (m s))"
  by (simp add: ensures_def)

lemma grants_fewer: "set (wt_sessions s') \<subseteq> set (wt_sessions s) \<Longrightarrow> grants G s s'"
  by (auto simp: grants_def)

named_theorems web_grants \<open>operations that create only granted sessions\<close>

lemma grants_bind: "ensures (grants G) m \<Longrightarrow> (\<And>x s s'. m s = (Inr x, s') \<Longrightarrow> ensures (grants G) (f x)) \<Longrightarrow> ensures (grants G) (mbind m f)"
  by (rule ensures_mbind_value) simp_all

lemma grants_basic [web_grants]:
  "ensures (grants G) (mlift r)" "ensures (grants G) (random_token out)" "ensures (grants G) (\<lambda>s. (f s, s))"
  "ensures (grants G) (consume_pre_session token now)"
  by (simp_all add: ensures_def mlift_def random_token_def consume_pre_session_def grants_fewer split: option.split)

lemma grants_limit [web_grants]: "ensures (grants G) (check_rate_limit now)"
  unfolding ensures_def check_rate_limit_def
  by (auto intro!: grants_fewer simp: Let_def split: sum.split)

lemma grants_pre [web_grants]: "ensures (grants G) (insert_pre_session out now token)"
  unfolding ensures_def insert_pre_session_def
  by (auto intro!: grants_fewer simp: Let_def split: sum.split)

lemma grants_forget: "grants G s (forget_session i s)"
  by (rule grants_fewer) (auto simp: forget_session_def hm_remove_def)

lemma grants_authenticate [web_grants]: "ensures (grants G) (web_authenticate p headers now)"
  by (auto simp: ensures_def web_authenticate_def grants_forget grants_fewer split: web_mode.split option.split)

lemma grants_logout [web_grants]: "ensures (grants G) (web_logout p headers)"
  by (auto simp: ensures_def web_logout_def grants_forget grants_fewer split: option.split)

lemma set_evict: "set (evict_one_at_capacity pick n m) \<subseteq> set m"
  by (auto simp: evict_one_at_capacity_def hm_remove_def)

lemma grants_insert: "G (ss_actor_id stored) (ss_expires_at stored) \<Longrightarrow> ensures (grants G) (insert_session out now i stored)"
  using set_evict by (fastforce simp: ensures_def insert_session_def grants_def hm_insert_def)

lemma grants_issue [web_grants]: "ensures (grants G) (issue_pre_session_token out p now)"
  unfolding issue_pre_session_token_def by (auto intro!: grants_bind web_grants)

lemma grants_login:
  assumes "\<And>expires. wp_mode p = WebAuthenticated \<Longrightarrow> wp_username_digest p = Some (web_digest out username) \<Longrightarrow>
      password_valid out p password \<Longrightarrow> expires = now + wp_ttl p \<Longrightarrow> G (web_actor_id out username) expires"
  shows "ensures (grants G) (web_login out p username password token now)"
  unfolding web_login_def Let_def
  by (auto intro!: grants_bind web_grants grants_insert assms simp: mlift_Inr res_simps)

lemma grants_existing [web_grants]: "ensures (grants G) (reauthenticate_existing out p headers password now)"
proof (rule ensuresI)
  fix s r s' assume e: "reauthenticate_existing out p headers password now s = (r, s')"
  show "grants G s s'"
  proof (cases "s' = s")
    case False
    with e obtain i session where i: "map_of (wt_sessions s) i = Some session"
      and s': "s' = s\<lparr>wt_sessions := map (\<lambda>(k, x). (k, if k = i then session\<lparr>ss_reauthenticated_at := now\<rparr> else x)) (wt_sessions s)\<rparr>"
      by (auto simp: reauthenticate_existing_def mbind_def mlift_def ok_or_def set_session_def Let_def
          split: option.splits sum.splits if_splits)
    from map_of_SomeD [OF i] show ?thesis by (fastforce simp: grants_def s' split: if_splits)
  qed (simp add: grants_fewer)
qed

lemma grants_reauthenticate:
  assumes "\<And>expires. wp_mode p = WebUnauthenticated \<Longrightarrow> password_valid out p password \<Longrightarrow> expires = now + wp_ttl p \<Longrightarrow>
      G unauthenticated_actor expires"
  shows "ensures (grants G) (reauthenticate out p headers password now)"
  unfolding reauthenticate_def Let_def
  by (auto intro!: grants_bind web_grants grants_insert assms simp: mlift_Inr res_simps)

text \<open>A sign-in that the policy accepts, with the session it may create.\<close>

definition credentials :: "web_outside \<Rightarrow> web_policy \<Rightarrow> ustring \<Rightarrow> ustring \<Rightarrow> bool" where
  "credentials out p username password \<longleftrightarrow>
     wp_username_digest p = Some (web_digest out username) \<and> password_valid out p password"

lemma sessions_granted:
  assumes "wp_mode p = WebAuthenticated" and "(k, x) \<in> set (wt_sessions (web_run out p ops empty_web))"
  shows "\<exists>t username password token. (t, SignIn username password token) \<in> set ops \<and> credentials out p username password
     \<and> ss_actor_id x = web_actor_id out username \<and> ss_expires_at x = t + wp_ttl p"
  using assms(2)
proof (induction ops arbitrary: k x rule: rev_induct)
  case (snoc op ops)
  let ?G = "\<lambda>actor expires. \<exists>t username password token. op = (t, SignIn username password token)
     \<and> credentials out p username password \<and> actor = web_actor_id out username \<and> expires = t + wp_ttl p"
  let ?s = "web_run out p ops empty_web"
  have g: "grants ?G ?s (web_step out p op ?s)"
  proof (cases "(out, p, op, ?s)" rule: web_step.cases)
    case (2 o' p' now username password token s)
    have "ensures (grants ?G) (web_login out p username password token now)"
      using 2 by (intro grants_login) (auto simp: credentials_def)
    with 2 show ?thesis by (auto simp: ensures_def)
  next
    case (4 o' p' now headers password s)
    have "ensures (grants ?G) (reauthenticate out p headers password now)"
      using assms(1) by (intro grants_reauthenticate) simp
    with 4 show ?thesis by (auto simp: ensures_def)
  qed (auto intro!: grants_snd web_grants)
  with snoc.prems have "(\<exists>y. (k, y) \<in> set (wt_sessions ?s) \<and> ss_actor_id y = ss_actor_id x \<and> ss_expires_at y = ss_expires_at x)
      \<or> ?G (ss_actor_id x) (ss_expires_at x)"
    by (auto simp: grants_def web_run_snoc)
  then show ?case
  proof
    assume "\<exists>y. (k, y) \<in> set (wt_sessions ?s) \<and> ss_actor_id y = ss_actor_id x \<and> ss_expires_at y = ss_expires_at x"
    then obtain y where y: "(k, y) \<in> set (wt_sessions ?s)" "ss_actor_id y = ss_actor_id x" "ss_expires_at y = ss_expires_at x" by blast
    from snoc.IH [OF y(1)] y(2,3) show ?thesis by (metis Un_iff set_append)
  next
    assume "?G (ss_actor_id x) (ss_expires_at x)"
    then show ?thesis by auto
  qed
qed (simp add: web_run_def empty_web_def)

lemma accepted_session:
  assumes "wp_mode p = WebAuthenticated"
    and "web_authenticate p headers now (web_run out p ops empty_web) = (Ok v, s')"
  shows "\<exists>t username password token. (t, SignIn username password token) \<in> set ops \<and> credentials out p username password
     \<and> sv_actor_id v = web_actor_id out username \<and> now < t + wp_ttl p"
proof -
  obtain i x where x: "map_of (wt_sessions (web_run out p ops empty_web)) i = Some x" "ss_expires_at x > now" "v = view_of x"
    using assms by (auto simp: web_authenticate_def split: option.splits if_splits)
  from sessions_granted [OF assms(1) map_of_SomeD [OF x(1)]] obtain t username password token
    where "(t, SignIn username password token) \<in> set ops" "credentials out p username password"
      "ss_actor_id x = web_actor_id out username" "ss_expires_at x = t + wp_ttl p" by blast
  with x(2,3) show ?thesis by (intro exI [of _ t] exI [of _ username] exI [of _ password] exI [of _ token]) (auto simp: view_of_def)
qed

text \<open>
  C29: Where authentication is required, a request is accepted only on behalf of somebody who
  signed in with the configured username and password, less than the session lifetime ago.
\<close>

theorem accepted_requests_signed_in:
  assumes "wp_mode p = WebAuthenticated"
    and "web_authenticate p headers now (web_run out p ops empty_web) = (Ok v, s')"
  shows "\<exists>t username password token. (t, SignIn username password token) \<in> set ops \<and> credentials out p username password
     \<and> sv_actor_id v = web_actor_id out username \<and> now < t + wp_ttl p"
  using assms by (rule accepted_session)

definition demo_web :: web_outside where
  "demo_web = \<lparr>wo_auth = \<lparr>au_authority = (\<lambda>_. None), au_uri = (\<lambda>_. None), au_sha256 = (\<lambda>b. b), au_base64 = (\<lambda>b. b)\<rparr>,
     wo_random = (\<lambda>n. Some [65 + n]), wo_evict = (\<lambda>_. 0)\<rparr>"

definition demo_web_policy :: web_policy where
  "demo_web_policy = \<lparr>wp_mode = WebAuthenticated, wp_username_digest = Some [117], wp_password_digest = Some [112],
     wp_ttl = 60 * ns_per_sec, wp_cookie_secure = False, wp_unauthenticated_csrf = [90]\<rparr>"

definition demo_sign_in :: "(instant \<times> web_op) list" where
  "demo_sign_in = [(0, IssueToken), (1, SignIn [117] [112] [65])]"

definition demo_signed_in :: web_state where
  "demo_signed_in = \<lparr>wt_sessions = [([66], \<lparr>ss_actor_id = lit ''webui:'' @ [117], ss_csrf_token = [67],
       ss_expires_at = 1 + 60 * ns_per_sec, ss_reauthenticated_at = 1\<rparr>)],
     wt_pre_session = [], wt_attempts = [1], wt_random = 3, wt_evict = 2\<rparr>"

definition demo_cookie :: header_map where
  "demo_cookie = [(''cookie'', session_cookie_name @ [61, 66])]"

lemmas demo_web_defs = demo_web_def demo_web_policy_def demo_sign_in_def demo_cookie_def empty_web_def

lemma demo_run: "web_run demo_web demo_web_policy demo_sign_in empty_web = demo_signed_in"
  by code_simp

lemma demo_accepted:
  "web_authenticate demo_web_policy demo_cookie 2 demo_signed_in =
     (Ok (view_of (snd (hd (wt_sessions demo_signed_in)))), demo_signed_in)"
  by code_simp

theorem accepted_requests_signed_in_witness:
  "\<exists>t username password token. (t, SignIn username password token) \<in> set demo_sign_in
     \<and> credentials demo_web demo_web_policy username password"
  using accepted_requests_signed_in [of demo_web_policy demo_cookie 2 demo_web demo_sign_in] demo_accepted
  unfolding demo_run by (auto simp: demo_web_policy_def)

section \<open>The limit on password attempts\<close>

text \<open>Whether an operation compares a password: it passed the limiter.\<close>

fun compares_password :: "web_policy \<Rightarrow> instant \<times> web_op \<Rightarrow> web_state \<Rightarrow> bool" where
  "compares_password p (now, SignIn _ _ token) s \<longleftrightarrow>
     wp_mode p = WebAuthenticated
     \<and> (case consume_pre_session token now s of
          (Inl _, _) \<Rightarrow> False
        | (Inr _, s1) \<Rightarrow> fst (check_rate_limit now s1) = Ok ())"
| "compares_password p (now, Confirm _ _) s \<longleftrightarrow>
     wp_mode p \<noteq> WebDisabled \<and> fst (check_rate_limit now s) = Ok ()"
| "compares_password p _ s \<longleftrightarrow> False"

text \<open>The times of the comparisons of a history.\<close>

fun comparisons :: "web_outside \<Rightarrow> web_policy \<Rightarrow> (instant \<times> web_op) list \<Rightarrow> web_state \<Rightarrow> instant list" where
  "comparisons out p [] s = []"
| "comparisons out p (x # ops) s =
     (if compares_password p x s then [fst x] else []) @ comparisons out p ops (web_step out p x s)"

lemma comparisons_snoc:
  "comparisons out p (ops @ [x]) s =
     comparisons out p ops s @ (if compares_password p x (web_run out p ops s) then [fst x] else [])"
  by (induction ops arbitrary: s) (simp_all add: web_run_def)

text \<open>What the limiter does to the recorded attempts.\<close>

lemma limiter_effect:
  assumes "check_rate_limit now s = (r, s')" and "sorted (wt_attempts s)" and "length (wt_attempts s) \<le> max_login_attempts"
  shows "(r = Ok () \<and> wt_attempts s' = filter (\<lambda>at. now - login_window < at) (wt_attempts s) @ [now]
            \<and> length (wt_attempts s') \<le> max_login_attempts)
     \<or> (r \<noteq> Ok () \<and> (wt_attempts s' = wt_attempts s \<or> wt_attempts s' = filter (\<lambda>at. now - login_window < at) (wt_attempts s)))"
proof (cases "recent_attempts now (wt_attempts s)")
  case (Inl e)
  with assms(1) show ?thesis by (auto simp: check_rate_limit_def)
next
  case (Inr recent)
  have "dropWhile (\<lambda>at. at \<le> now - login_window) xs = filter (\<lambda>at. now - login_window < at) xs" if "sorted xs" for xs
    using that by (induction xs) (auto simp: filter_empty_conv intro!: filter_True [symmetric])
  with Inr assms(2) have recent: "recent = filter (\<lambda>at. now - login_window < at) (wt_attempts s)"
    by (auto simp: recent_attempts_def res_simps split: if_splits)
  with Inr assms(1,3) show ?thesis
    by (auto simp: check_rate_limit_def Let_def max_login_attempts_def max_tracked_attempts_def split: if_splits)
qed

named_theorems attempts_kept \<open>operations that do not touch the recorded attempts\<close>

lemma attempts_bind [attempts_kept]:
  "ensures (same wt_attempts) m \<Longrightarrow> (\<And>x. ensures (same wt_attempts) (f x)) \<Longrightarrow> ensures (same wt_attempts) (mbind m f)"
  by (rule ensures_mbind) simp_all

lemma attempts_basic [attempts_kept]:
  "ensures (same wt_attempts) (mlift r)" "ensures (same wt_attempts) (random_token out)"
  "ensures (same wt_attempts) (\<lambda>s. (f s, s))" "ensures (same wt_attempts) (consume_pre_session token now)"
  "ensures (same wt_attempts) (insert_session out now i stored)" "ensures (same wt_attempts) (set_session i x)"
  "ensures (same wt_attempts) (insert_pre_session out now token)"
  by (simp_all add: ensures_def same_def mlift_def random_token_def consume_pre_session_def insert_session_def set_session_def
      insert_pre_session_def Let_def split: option.split sum.split)

lemma attempts_authenticate [attempts_kept]: "ensures (same wt_attempts) (web_authenticate p headers now)"
  by (auto simp: ensures_def same_def web_authenticate_def forget_session_def split: web_mode.split option.split)

lemma attempts_logout [attempts_kept]: "ensures (same wt_attempts) (web_logout p headers)"
  by (auto simp: ensures_def same_def web_logout_def forget_session_def split: option.split)

lemma attempts_issue [attempts_kept]: "ensures (same wt_attempts) (issue_pre_session_token out p now)"
  unfolding issue_pre_session_token_def by (auto intro!: attempts_kept)

lemma attempts_snd: "ensures (same wt_attempts) m \<Longrightarrow> wt_attempts (snd (m s)) = wt_attempts s"
  by (simp add: ensures_def same_def)

definition limited :: "instant \<Rightarrow> bool \<Rightarrow> web_state \<Rightarrow> web_state \<Rightarrow> bool" where
  "limited now b s s' \<longleftrightarrow>
     (if b then wt_attempts s' = filter (\<lambda>at. now - login_window < at) (wt_attempts s) @ [now]
             \<and> Suc (length (filter (\<lambda>at. now - login_window < at) (wt_attempts s))) \<le> max_login_attempts
      else wt_attempts s' = wt_attempts s \<or> wt_attempts s' = filter (\<lambda>at. now - login_window < at) (wt_attempts s))"

lemma limited_unchanged: "wt_attempts s' = wt_attempts s \<Longrightarrow> limited now False s s'"
  by (simp add: limited_def)

text \<open>An operation that asks the limiter and goes on only if it passes.\<close>

lemma limited_then:
  assumes "sorted (wt_attempts s)" and "length (wt_attempts s) \<le> max_login_attempts"
    and "\<And>x. ensures (same wt_attempts) (f x)"
  shows "limited now (fst (check_rate_limit now s) = Ok ()) s (snd (mbind (check_rate_limit now) f s))"
proof -
  obtain r s1 where c: "check_rate_limit now s = (r, s1)" by fastforce
  note e = limiter_effect [OF c assms(1,2)]
  have "wt_attempts (snd (mbind (check_rate_limit now) f s)) = wt_attempts s1"
  proof (cases r)
    case (Inr x)
    with c assms(3) [of x] show ?thesis by (simp add: mbind_def ensures_def same_def)
  qed (use c in \<open>simp add: mbind_def\<close>)
  with e c show ?thesis by (auto simp: limited_def)
qed

lemma step_limited:
  assumes "sorted (wt_attempts s)" and "length (wt_attempts s) \<le> max_login_attempts"
  shows "limited now (compares_password p (now, op) s) s (web_step out p (now, op) s)"
proof (cases op)
  case (SignIn username password token)
  show ?thesis
  proof (cases "wp_mode p = WebAuthenticated")
    case True
    obtain r s1 where c: "consume_pre_session token now s = (r, s1)" by fastforce
    have s1: "wt_attempts s1 = wt_attempts s"
      using ensuresD [OF attempts_basic(4) c] by (simp add: same_def)
    show ?thesis
    proof (cases r)
      case (Inl e)
      with c s1 True SignIn show ?thesis by (simp add: web_login_def mbind_def limited_unchanged)
    next
      case (Inr u)
      have "web_step out p (now, op) s = snd (mbind (check_rate_limit now) (\<lambda>_.
        if \<not> (wp_username_digest p = Some (web_digest out username) \<and> password_valid out p password)
        then mlift (Err InvalidCredentials)
        else
          mbind (random_token out) (\<lambda>i.
          mbind (random_token out) (\<lambda>csrf.
          mbind (mlift (time_add now (wp_ttl p))) (\<lambda>expires.
          let stored = \<lparr>ss_actor_id = web_actor_id out username, ss_csrf_token = csrf,
                        ss_expires_at = expires, ss_reauthenticated_at = now\<rparr>
          in mbind (insert_session out now i stored) (\<lambda>_.
             mbind (mlift (session_cookie i (wp_ttl p) (wp_cookie_secure p))) (\<lambda>cookie.
               mlift (Ok (view_of stored, cookie)))))))) s1)"
        using SignIn True c Inr by (simp add: web_login_def mbind_def [of "consume_pre_session token now"])
      also have "limited now (fst (check_rate_limit now s1) = Ok ()) s1 \<dots>"
        using assms s1 by (intro limited_then) (auto simp: Let_def intro!: attempts_kept)
      finally show ?thesis using SignIn True c Inr s1 by (auto simp: limited_def)
    qed
  qed (simp add: SignIn web_login_def mlift_def limited_unchanged)
next
  case (Confirm headers password)
  show ?thesis
  proof (cases "wp_mode p = WebDisabled")
    case False
    have "limited now (fst (check_rate_limit now s) = Ok ()) s (snd (reauthenticate out p headers password now s))"
      unfolding reauthenticate_def if_not_P [OF False]
      using assms by (intro limited_then) (auto simp: Let_def reauthenticate_existing_def intro!: attempts_kept)
    with Confirm False show ?thesis by simp
  qed (simp add: Confirm reauthenticate_def mlift_def limited_unchanged)
qed (auto intro!: limited_unchanged attempts_snd attempts_kept)

text \<open>The recorded attempts are the comparisons of the last minute.\<close>

definition in_window :: "instant \<Rightarrow> instant \<Rightarrow> bool" where
  "in_window t x \<longleftrightarrow> t - login_window < x \<and> x \<le> t"

lemma filter_split_sorted: "sorted xs \<Longrightarrow> filter (\<lambda>x. x \<le> b) xs @ filter (\<lambda>x. b < x) (xs :: int list) = xs"
proof (induction xs)
  case (Cons x xs)
  show ?case
  proof (cases "x \<le> b")
    case False
    with Cons.prems have "filter (\<lambda>x. x \<le> b) xs = []" by (auto simp: filter_empty_conv)
    with False Cons show ?thesis by simp
  qed (use Cons in simp)
qed simp

lemma comparisons_limited:
  assumes "sorted (map fst ops)" and "\<forall>x \<in> set ops. fst x \<le> now"
  shows "sorted (comparisons out p ops empty_web) \<and> (\<forall>x \<in> set (comparisons out p ops empty_web). x \<le> now)
     \<and> length (wt_attempts (web_run out p ops empty_web)) \<le> max_login_attempts
     \<and> (\<exists>older. comparisons out p ops empty_web = older @ wt_attempts (web_run out p ops empty_web)
          \<and> (\<forall>x \<in> set older. x \<le> now - login_window))
     \<and> (\<forall>t. length (filter (in_window t) (comparisons out p ops empty_web)) \<le> max_login_attempts)"
  using assms
proof (induction ops arbitrary: now rule: rev_induct)
  case (snoc x ops)
  obtain t op where x: "x = (t, op)" by fastforce
  let ?s = "web_run out p ops empty_web" and ?c = "comparisons out p ops empty_web"
  let ?a = "wt_attempts ?s" and ?new = "filter (\<lambda>at. t - login_window < at) (wt_attempts ?s)"
  from snoc.prems have "sorted (map fst ops)" "\<forall>y \<in> set ops. fst y \<le> t" and t: "t \<le> now"
    by (auto simp: sorted_append x)
  from snoc.IH [OF this(1,2)] obtain older where c: "sorted ?c" "\<forall>y \<in> set ?c. y \<le> t" "length ?a \<le> max_login_attempts"
      "?c = older @ ?a" "\<forall>y \<in> set older. y \<le> t - login_window" "\<And>u. length (filter (in_window u) ?c) \<le> max_login_attempts"
    by blast
  then have a: "sorted ?a" by (metis sorted_append)
  have older': "older @ ?a = (older @ filter (\<lambda>y. y \<le> t - login_window) ?a) @ ?new"
    using filter_split_sorted [OF a] by simp
  have lim: "limited t (compares_password p x ?s) ?s (web_step out p x ?s)"
    unfolding x by (rule step_limited [OF a c(3)])
  show ?case
  proof (cases "compares_password p x ?s")
    case True
    let ?a' = "?new @ [t]"
    from lim True have a': "wt_attempts (web_step out p x ?s) = ?a'" "length ?a' \<le> max_login_attempts"
      by (simp_all add: limited_def)
    have c': "comparisons out p (ops @ [x]) empty_web = ?c @ [t]" using True by (simp add: comparisons_snoc x)
    have "length (filter (in_window u) (?c @ [t])) \<le> max_login_attempts" for u
    proof (cases "u < t")
      case True
      with c(6) [of u] show ?thesis by (simp add: in_window_def)
    next
      case False
      have "filter (in_window u) (?c @ [t]) = filter (in_window u) (filter (\<lambda>y. t - login_window < y) (?c @ [t]))"
        using False by (simp only: filter_filter) (rule filter_cong, auto simp: in_window_def)
      also have "filter (\<lambda>y. t - login_window < y) (?c @ [t]) = ?a'"
        using c(5) by (simp add: c(4) login_window_def ns_per_sec_def filter_empty_conv not_less)
      finally show ?thesis using a'(2) le_trans [OF length_filter_le] by metis
    qed
    moreover have "?c @ [t] = (older @ filter (\<lambda>y. y \<le> t - login_window) ?a) @ ?a'" using c(4) older' by simp
    moreover have "\<forall>y \<in> set (older @ filter (\<lambda>y. y \<le> t - login_window) ?a). y \<le> now - login_window" using c(5) t by fastforce
    moreover have "sorted (?c @ [t])" "\<forall>y \<in> set (?c @ [t]). y \<le> now" using c(1,2) t by (auto simp: sorted_append)
    ultimately show ?thesis unfolding c' web_run_snoc a'(1) using a'(2) by blast
  next
    case False
    have c': "comparisons out p (ops @ [x]) empty_web = ?c" using False by (simp add: comparisons_snoc)
    have "\<exists>older'. ?c = older' @ wt_attempts (web_step out p x ?s) \<and> (\<forall>y \<in> set older'. y \<le> now - login_window)"
    proof (cases "wt_attempts (web_step out p x ?s) = ?a")
      case True
      with c(4,5) t show ?thesis by (intro exI [of _ older]) auto
    next
      case same: False
      with lim False have "wt_attempts (web_step out p x ?s) = ?new" by (simp add: limited_def)
      with c(4,5) t older' show ?thesis
        by (intro exI [of _ "older @ filter (\<lambda>y. y \<le> t - login_window) ?a"]) fastforce
    qed
    moreover have "length (wt_attempts (web_step out p x ?s)) \<le> max_login_attempts"
      using lim False c(3) le_trans [OF length_filter_le c(3)] by (auto simp: limited_def)
    moreover have "\<forall>y \<in> set ?c. y \<le> now" using c(2) t by auto
    ultimately show ?thesis unfolding c' web_run_snoc using c(1,6) by blast
  qed
qed (simp add: web_run_def empty_web_def)

text \<open>
  C30: Passwords are guarded: as long as the clock does not run backwards, no interval of one minute
  contains more than five comparisons of a password, over all browsers together.
\<close>

theorem password_attempts_limited:
  assumes "sorted (map fst ops)"
  shows "length (filter (\<lambda>x. t - 60 * ns_per_sec < x \<and> x \<le> t) (comparisons out p ops empty_web)) \<le> 5"
proof -
  have "\<forall>x \<in> set ops. fst x \<le> Max (insert 0 (set (map fst ops)))" by simp
  from comparisons_limited [OF assms this, of out p]
  have "length (filter (in_window t) (comparisons out p ops empty_web)) \<le> max_login_attempts" by blast
  then show ?thesis by (simp add: in_window_def [abs_def] login_window_def max_login_attempts_def)
qed

text \<open>Six sign-ins in a second: the sixth is refused before its password is compared.\<close>

definition demo_guesses :: "(instant \<times> web_op) list" where
  "demo_guesses = map (\<lambda>n. (0, IssueToken)) [0..<6] @ map (\<lambda>n. (1, SignIn [117] [0] [65 + n])) [0..<6]"

lemma demo_guesses: "comparisons demo_web demo_web_policy demo_guesses empty_web = [1, 1, 1, 1, 1]"
  by code_simp

theorem password_attempts_limited_witness:
  "length (filter (\<lambda>x. 2 - 60 * ns_per_sec < x \<and> x \<le> 2) (comparisons demo_web demo_web_policy demo_guesses empty_web)) \<le> 5 \<and>
     comparisons demo_web demo_web_policy demo_guesses empty_web = [1, 1, 1, 1, 1]"
proof -
  have "sorted (map fst demo_guesses)" by (simp add: demo_guesses_def upt_rec)
  from password_attempts_limited [OF this] demo_guesses show ?thesis by simp
qed

end
