(* ===== verification/Cookies.thy ===== *)
theory Cookies
  imports SessionGuarantees
begin

text \<open>
  The sign-in protocol from the side of the browser: the cookie that a sign-in sets is accepted
  when it comes back, the token of the form works once, and a session lifetime that the
  configuration accepts can be beyond what time can represent.
\<close>

text \<open>The alphabet of base64 for URLs, without padding.\<close>

definition url_safe :: "nat \<Rightarrow> bool" where
  "url_safe c \<longleftrightarrow> is_ascii_alphanumeric c \<or> c = 45 \<or> c = 95"

lemma url_safe_plain: "url_safe c \<Longrightarrow> visible_ascii c \<and> c < 128 \<and> c \<noteq> 59 \<and> \<not> is_whitespace c"
  by (auto simp: url_safe_def is_ascii_alphanumeric_def is_ascii_alphabetic_def is_ascii_digit_def visible_ascii_def
      is_whitespace_def)

lemma split_char_none: "c \<notin> set s \<Longrightarrow> split_char c s = [s]"
  by (induction s) auto

lemma split_once_at: "c \<notin> set a \<Longrightarrow> split_once [c] (a @ c # b) = Some (a, b)"
  by (induction a) auto

lemma trim_solid: "s \<noteq> [] \<Longrightarrow> \<not> is_whitespace (hd s) \<Longrightarrow> \<not> is_whitespace (last s) \<Longrightarrow> trim s = s"
proof -
  assume s: "s \<noteq> []" "\<not> is_whitespace (hd s)" "\<not> is_whitespace (last s)"
  then have "dropWhile is_whitespace s = s" by (cases s) simp_all
  moreover have "dropWhile is_whitespace (rev s) = rev s"
    using s by (simp add: dropWhile_eq_self_iff hd_rev)
  ultimately show ?thesis by (simp add: trim_def)
qed

definition name_eq :: ustring where "name_eq = session_cookie_name @ [61]"

lemma name_eq_plain: "c \<in> set name_eq \<Longrightarrow> visible_ascii c \<and> c < 128 \<and> c \<noteq> 59 \<and> \<not> is_whitespace c"
  by (auto simp: name_eq_def session_cookie_name_def visible_ascii_def is_whitespace_def)

lemma cookie_value_back:
  assumes "list_all url_safe i"
  shows "cookie_value [(''cookie'', session_cookie_name @ 61 # i)] session_cookie_name = Some i"
proof -
  let ?v = "session_cookie_name @ 61 # i"
  have v: "?v = name_eq @ i" by (simp add: name_eq_def)
  have plain: "c \<in> set ?v \<Longrightarrow> visible_ascii c \<and> c < 128 \<and> c \<noteq> 59 \<and> \<not> is_whitespace c" for c
    using assms name_eq_plain url_safe_plain unfolding v by (auto simp: list_all_iff)
  have "?v \<noteq> []" by simp
  then have "\<not> is_whitespace (hd ?v)" "\<not> is_whitespace (last ?v)"
    using plain hd_in_set last_in_set by metis+
  then have "trim ?v = ?v" by (intro trim_solid) simp_all
  moreover have "split_char 59 ?v = [?v]" using plain by (intro split_char_none) blast
  moreover have "to_str ?v = Some ?v" using plain by (simp only: to_str_Some list_all_iff) blast
  moreover have "61 \<notin> set session_cookie_name" by (simp add: session_cookie_name_def)
  then have "split_once [61] ?v = Some (session_cookie_name, i)" by (rule split_once_at)
  ultimately show ?thesis
    by (simp add: cookie_value_def get_all_def get_header_def List.map_filter_def)
qed

text \<open>What the browser sends back of a cookie: the part before the attributes.\<close>

definition cookie_pair :: "nat list \<Rightarrow> nat list" where
  "cookie_pair cookie = takeWhile (\<lambda>b. b \<noteq> 59) cookie"

lemma session_cookie_pair:
  assumes "session_cookie i ttl secure = Ok cookie" and "list_all url_safe i"
  shows "cookie_pair cookie = session_cookie_name @ 61 # i"
proof -
  let ?text = "session_cookie_name @ 61 # i @ cookie_attributes ttl secure"
  have plain: "\<forall>c \<in> set (name_eq @ i). c < 128 \<and> c \<noteq> 59"
    using assms(2) name_eq_plain url_safe_plain by (auto simp: list_all_iff)
  obtain rest where rest: "cookie_attributes ttl secure = 59 # rest" by (simp add: cookie_attributes_def)
  have "cookie = utf8_bytes ((name_eq @ i) @ 59 # rest)"
    using assms(1) by (auto simp: session_cookie_def res_simps header_value_from_str_def rest name_eq_def split: if_splits)
  also have "\<dots> = utf8_bytes (name_eq @ i) @ 59 # utf8_bytes rest"
    by (simp add: utf8_bytes_def utf8_char_def)
  also have "utf8_bytes (name_eq @ i) = name_eq @ i" using plain by (intro utf8_bytes_ascii) blast
  finally have "cookie = (name_eq @ i) @ 59 # utf8_bytes rest" .
  then have "takeWhile (\<lambda>b. b \<noteq> 59) cookie = name_eq @ i"
    using plain by (simp add: takeWhile_append2)
  then show ?thesis by (simp add: cookie_pair_def name_eq_def)
qed

lemma web_login_Ok:
  assumes "web_login out p username password token now s = (Ok (v, cookie), s')"
  obtains i stored where "v = view_of stored" "ss_actor_id stored = web_actor_id out username"
    "ss_expires_at stored = now + wp_ttl p" "session_cookie i (wp_ttl p) (wp_cookie_secure p) = Ok cookie"
    "map_of (wt_sessions s') i = Some stored" "\<exists>b. i = au_base64 (wo_auth out) b"
    "wp_mode p = WebAuthenticated" "credentials out p username password"
proof -
  from assms obtain csrf b stored s1 where
    "stored = \<lparr>ss_actor_id = web_actor_id out username, ss_csrf_token = csrf,
                ss_expires_at = now + wp_ttl p, ss_reauthenticated_at = now\<rparr>"
    "v = view_of stored" "session_cookie (au_base64 (wo_auth out) b) (wp_ttl p) (wp_cookie_secure p) = Ok cookie"
    "insert_session out now (au_base64 (wo_auth out) b) stored s1 = ((Ok ()) :: (login_error, unit) res, s')"
    "wp_mode p = WebAuthenticated" "credentials out p username password"
    by (auto simp: web_login_def Let_def mbind_eq_Inr mlift_Inr res_simps random_token_def credentials_def
        simp del: One_nat_def split: if_splits)
  then show thesis
    by (intro that [of stored "au_base64 (wo_auth out) b"]) (auto simp: insert_session_def hm_insert_def)
qed

text \<open>
  C31: A sign-in round trip: the cookie that a successful sign-in sets, sent back by the browser, is
  accepted until the lifetime has passed, as the session of the user who signed in.
\<close>

theorem sign_in_round_trip:
  assumes "web_login out p username password token now s = (Ok (v, cookie), s')"
    and "\<forall>b. list_all url_safe (au_base64 (wo_auth out) b)"
    and "later < now + wp_ttl p"
  shows "web_authenticate p [(''cookie'', cookie_pair cookie)] later s' = (Ok v, s')
     \<and> sv_actor_id v = web_actor_id out username \<and> sv_expires_at v = now + wp_ttl p"
  using assms(1)
proof (rule web_login_Ok)
  fix i stored
  assume v: "v = view_of stored" "ss_actor_id stored = web_actor_id out username" "ss_expires_at stored = now + wp_ttl p"
    and c: "session_cookie i (wp_ttl p) (wp_cookie_secure p) = Ok cookie"
    and m: "map_of (wt_sessions s') i = Some stored" "\<exists>b. i = au_base64 (wo_auth out) b" "wp_mode p = WebAuthenticated"
  have i: "list_all url_safe i" using m(2) assms(2) by auto
  show ?thesis
    unfolding session_cookie_pair [OF c i]
    using v m assms(3) cookie_value_back [OF i] by (simp add: web_authenticate_def view_of_def)
qed

definition demo_safe_web :: web_outside where
  "demo_safe_web = demo_web\<lparr>wo_auth := \<lparr>au_authority = (\<lambda>_. None), au_uri = (\<lambda>_. None), au_sha256 = (\<lambda>b. b),
     au_base64 = map (\<lambda>b. 65 + b mod 26)\<rparr>\<rparr>"

definition demo_form :: web_state where
  "demo_form = empty_web\<lparr>wt_pre_session := [([65], 100)], wt_random := 1\<rparr>"

abbreviation demo_login :: "(login_error, session_view \<times> nat list) res \<times> web_state" where
  "demo_login \<equiv> web_login demo_safe_web demo_web_policy [117] [112] [65] 1 demo_form"

lemma demo_login_Ok: "map_sum id (\<lambda>_. ()) (fst demo_login) = Inr ()"
  by code_simp

theorem sign_in_round_trip_witness:
  "\<exists>v cookie s'. demo_login = (Ok (v, cookie), s')
     \<and> web_authenticate demo_web_policy [(''cookie'', cookie_pair cookie)] (50 * ns_per_sec) s' = (Ok v, s')"
proof -
  obtain r s' where l: "demo_login = (r, s')" by fastforce
  with demo_login_Ok obtain v cookie where "r = Ok (v, cookie)" by (cases r) auto
  moreover have "\<forall>b. list_all url_safe (au_base64 (wo_auth demo_safe_web) b)"
  proof
    fix b
    have "url_safe (65 + n mod 26)" for n :: nat
    proof -
      have "n mod 26 \<le> 25" using mod_less_divisor [of 26 n] by simp
      then show ?thesis by (simp add: url_safe_def is_ascii_alphanumeric_def is_ascii_alphabetic_def)
    qed
    then show "list_all url_safe (au_base64 (wo_auth demo_safe_web) b)"
      by (simp add: demo_safe_web_def demo_web_def list_all_iff)
  qed
  ultimately show ?thesis
    using sign_in_round_trip [of demo_safe_web demo_web_policy "[117]" "[112]" "[65]" 1 demo_form v cookie s' "50 * ns_per_sec"] l
    by (auto simp: demo_web_policy_def ns_per_sec_def)
qed

lemma remove_gone: "map_of (hm_remove k m) k = None"
  by (auto simp: hm_remove_def map_of_eq_None_iff)

lemma pre_session_kept:
  "ensures (same wt_pre_session) (mlift r)" "ensures (same wt_pre_session) (random_token out)"
  "ensures (same wt_pre_session) (check_rate_limit now)" "ensures (same wt_pre_session) (insert_session out now i stored)"
  by (auto simp: ensures_def same_def mlift_def random_token_def check_rate_limit_def insert_session_def Let_def split: sum.split)

lemma kept_if: "ensures R a \<Longrightarrow> ensures R b \<Longrightarrow> ensures R (if c then a else b)"
  by simp

lemma login_consumes_first:
  assumes "wp_mode p = WebAuthenticated"
  obtains f where "web_login out p username password token now = mbind (consume_pre_session token now) f"
    and "\<And>x. ensures (same wt_pre_session) (f x)"
proof (rule that)
  show "web_login out p username password token now = mbind (consume_pre_session token now) (\<lambda>_.
        mbind (check_rate_limit now) (\<lambda>_.
        if \<not> (wp_username_digest p = Some (web_digest out username) \<and> password_valid out p password)
        then mlift (Err InvalidCredentials)
        else
          mbind (random_token out) (\<lambda>i.
          mbind (random_token out) (\<lambda>csrf.
          mbind (mlift (time_add now (wp_ttl p))) (\<lambda>expires.
          mbind (insert_session out now i \<lparr>ss_actor_id = web_actor_id out username, ss_csrf_token = csrf,
                        ss_expires_at = expires, ss_reauthenticated_at = now\<rparr>) (\<lambda>_.
             mbind (mlift (session_cookie i (wp_ttl p) (wp_cookie_secure p))) (\<lambda>cookie.
               mlift (Ok (view_of \<lparr>ss_actor_id = web_actor_id out username, ss_csrf_token = csrf,
                        ss_expires_at = expires, ss_reauthenticated_at = now\<rparr>, cookie)))))))))"
    using assms by (simp add: web_login_def Let_def)
qed (intro ensures_mbind kept_if pre_session_kept same_order)

text \<open>
  The token of the sign-in form works once: whatever came of the sign-in that used it, the token
  is gone, and a second sign-in with it is refused without any effect.
\<close>

theorem sign_in_token_single_use:
  assumes "wp_mode p = WebAuthenticated" and "web_login out p username password token now s = (r, s')"
  shows "web_login out p username' password' token later s' = (Err CsrfRejected, s')"
proof -
  obtain f where f: "web_login out p username password token now = mbind (consume_pre_session token now) f"
    "\<And>x. ensures (same wt_pre_session) (f x)" using login_consumes_first [OF assms(1), of out username password token now] by blast
  obtain a s1 where c: "consume_pre_session token now s = (a, s1)" by fastforce
  then have gone: "map_of (wt_pre_session s1) token = None"
    by (auto simp: consume_pre_session_def remove_gone split: option.splits)
  have "wt_pre_session s' = wt_pre_session s1"
  proof (cases a)
    case (Inr u)
    with assms(2) c f(1) have "f u s1 = (r, s')" by (simp add: mbind_def)
    from ensuresD [OF f(2) this] show ?thesis by (simp add: same_def)
  qed (use assms(2) c f(1) in \<open>simp add: mbind_def\<close>)
  with gone assms(1) show ?thesis by (simp add: web_login_def mbind_def consume_pre_session_def)
qed

theorem sign_in_token_single_use_witness:
  "web_login demo_safe_web demo_web_policy [117] [112] [65] 2 (snd demo_login) = (Err CsrfRejected, snd demo_login)"
proof -
  have "wp_mode demo_web_policy = WebAuthenticated" by (simp add: demo_web_policy_def)
  from sign_in_token_single_use [OF this prod.collapse [symmetric]] show ?thesis .
qed

text \<open>
  The configuration accepts any positive lifetime of sessions. One of 400 billion seconds or more makes
  every sign-in with the right credentials panic, because no instant is that far away.
\<close>

theorem accepted_lifetime_panics:
  assumes "from_env vars = Ok c" and "400000000000 \<le> uint (bc_webui_session_ttl_seconds c)"
    and "web_from_config out c s0 = (Ok p, s1)" and "wp_mode p = WebAuthenticated"
    and "credentials out p username password" and "rfc3339_ok now"
    and "map_of (wt_pre_session s) token = Some expires" and "now < expires" and "wt_attempts s = []"
    and "wo_random out (wt_random s) \<noteq> None" and "wo_random out (wt_random s + 1) \<noteq> None"
  shows "fst (web_login out p username password token now s) = Inl Panic"
proof -
  have ttl: "wp_ttl p = web_ttl (bc_webui_session_ttl_seconds c)"
    using assms(3) by (auto simp: web_from_config_def effect_simps)
  have "400000000000 * ns_per_sec \<le> web_ttl (bc_webui_session_ttl_seconds c)"
    using assms(2) by (auto simp: web_ttl_def seconds_def i64_try_from_u64_def i64_max_def ns_per_sec_def)
  moreover have "year_zero \<le> now" using assms(6) by (simp add: rfc3339_ok_def)
  ultimately have "\<not> valid_instant (now + wp_ttl p)"
    by (simp add: ttl valid_instant_def year_zero_def max_instant_def ns_per_sec_def)
  with assms(4-) show ?thesis
    by (auto simp: web_login_def mbind_def mlift_def consume_pre_session_def check_rate_limit_def recent_attempts_def
        random_token_def time_add_def credentials_def max_login_attempts_def Let_def)
qed

definition long_variables :: "(os_string \<times> os_string) list" where
  "long_variables = map (\<lambda>(k, v). (Unicode (lit k), Unicode (lit v)))
     [(''REMINDI_OWNER_ID'', ''owner''), (''REMINDI_MCP_TOKEN'', ''token''), (''REMINDI_WEBUI_USERNAME'', ''u''),
      (''REMINDI_WEBUI_PASSWORD'', ''p''), (''REMINDI_WEBUI_SESSION_TTL_SECONDS'', ''400000000000'')]"

definition long_config :: bootstrap_config where
  "long_config = demo_config\<lparr>bc_mcp_token := lit ''token'', bc_webui_enabled := True,
     bc_webui_username := Some [117], bc_webui_password := Some [112], bc_webui_session_ttl_seconds := 400000000000\<rparr>"

lemma long_from_env: "from_env long_variables = Ok long_config"
  by (simp add: from_env_def long_variables_def List.map_filter_def relevant_environment_pair_def from_pairs_def
      long_config_def demo_config_def absolute_path_def value_or_default_def env_value_def required_value_def nonblank_def
      trim_def is_whitespace_def boolean_value_def optional_secret_def positive_integer_def parse_unsigned_def
      is_ascii_digit_def decimal_value_def comma_separated_def optional_absolute_path_def)

theorem accepted_lifetime_panics_witness:
  "\<exists>p s1. web_from_config demo_web long_config empty_web = (Ok p, s1)
     \<and> fst (web_login demo_web p [117] [112] [65] 1 demo_form) = Inl Panic"
proof -
  obtain p s1 where p: "web_from_config demo_web long_config empty_web = (Ok p, s1)" "wp_mode p = WebAuthenticated"
      "credentials demo_web p [117] [112]"
    by (simp add: web_from_config_def random_token_def mbind_def mlift_def long_config_def demo_config_def credentials_def
        password_valid_def demo_web_def)
  have "fst (web_login demo_web p [117] [112] [65] 1 demo_form) = Inl Panic"
    by (rule accepted_lifetime_panics [OF long_from_env _ p, where expires = 100])
      (simp_all add: long_config_def demo_form_def empty_web_def demo_web_def rfc3339_ok_def year_zero_def max_instant_def)
  with p(1) show ?thesis by blast
qed

end
