(* ===== verification/Schemas.thy ===== *)
theory Schemas
  imports Service
begin

text \<open>
  The inputs of the eight MCP tools, \<open>src/mcp/schemas.rs\<close>: what \<open>serde\<close> makes of the arguments of a
  call, the checks that the types cannot express, and the clean-up of the published JSON schemas.
  Dates are still texts here. A cursor text is its decoded form, as in the service.
\<close>

section \<open>Enums\<close>

datatype in_priority = InLow | InNormal | InHigh | InCritical

datatype in_missed_policy = InCoalesce | InCatchUp | InSkip

datatype in_link_type = InGoal | InMemory | InIssue | InUrl | InArtifact

datatype in_evidence_type =
    InObservation | InTestResult | InEvidenceArtifact | InLogReference | InChangeReference
  | InUserConfirmation | InExternalReference

datatype in_lifecycle_event = InTaskStart | InCheckpoint | InContinuation | InFinalReview

datatype in_disposition = InAcknowledged | InSkipped

datatype in_state = InScheduled | InDue | InOverdue | InSnoozed | InCompleted | InCancelled

datatype in_trigger_type =
    InAtTimeType | InAfterElapsedType | InIntervalType | InNextSessionType | InNextContinuationType
  | InGoalActiveType | InConditionType

datatype in_event_type =
    InCreated | InChecked | InBecameDue | InBecameOverdue | InConditionEvaluated | InOccurrenceAdvanced
  | InEventSnoozed | InUpdated | InEventCompleted | InEventCancelled | InDeliveryAttempted
  | InDeliverySucceeded | InDeliveryFailed

text \<open>A field that may be absent, null, or a replacement value; absence is \<open>serde\<close>'s default.\<close>

datatype 'a patch = Unset | PatchNull | PatchValue 'a

definition patch_is_set :: "'a patch \<Rightarrow> bool" where
  "patch_is_set p \<longleftrightarrow> p \<noteq> Unset"

definition patch_of_option :: "'a option \<Rightarrow> 'a patch" where
  "patch_of_option v = (case v of Some x \<Rightarrow> PatchValue x | None \<Rightarrow> PatchNull)"

section \<open>Inputs\<close>

record link_in =
  ki_type :: in_link_type
  ki_value :: ustring

record recurrence_in =
  ri_every_seconds :: u64
  ri_missed_policy :: in_missed_policy
  ri_max_occurrences :: "u64 option"
  ri_end_at :: "ustring option"

datatype trigger_in =
    InAtTime ustring
  | InAfterElapsed u64
  | InInterval ustring u64
  | InNextSession
  | InNextContinuation
  | InGoalActive ustring
  | InCondition ustring json "u64 option" "ustring option"

record evidence_in =
  vi_type :: in_evidence_type
  vi_summary :: ustring
  vi_reference_uri :: "ustring option"
  vi_content_hash :: "ustring option"
  vi_observed_at :: ustring
  vi_metadata :: "json option"

record add_in =
  ai_project_id :: ustring
  ai_task_id :: "ustring option"
  ai_message :: ustring
  ai_instructions :: "ustring option"
  ai_priority :: in_priority
  ai_trigger :: trigger_in
  ai_recurrence :: "recurrence_in option"
  ai_overdue_after_seconds :: u64
  ai_links :: "link_in list"
  ai_session_id :: "ustring option"
  ai_task_lineage_id :: "ustring option"
  ai_idempotency_key :: ustring

record check_in =
  ci_project_id :: ustring
  ci_task_id :: "ustring option"
  ci_session_id :: "ustring option"
  ci_task_lineage_id :: "ustring option"
  ci_lifecycle_event :: in_lifecycle_event
  ci_active_goal_ids :: "ustring list"
  ci_include_scheduled :: bool
  ci_evaluate_conditions :: bool
  ci_limit :: "16 word"
  ci_cursor :: "cursor_text option"

record complete_in =
  mi_remindi_id :: uuid
  mi_expected_version :: u64
  mi_evidence :: evidence_in
  mi_completion_note :: "ustring option"
  mi_idempotency_key :: ustring

record snooze_in =
  si_remindi_id :: uuid
  si_expected_version :: u64
  si_snooze_until :: ustring
  si_reason :: ustring
  si_idempotency_key :: ustring

record update_in =
  ui_remindi_id :: uuid
  ui_expected_version :: u64
  ui_message :: "ustring option"
  ui_instructions :: "ustring patch"
  ui_priority :: "in_priority option"
  ui_trigger :: "trigger_in option"
  ui_recurrence :: "recurrence_in patch"
  ui_overdue_after_seconds :: "u64 option"
  ui_links :: "link_in list option"
  ui_occurrence_disposition :: "in_disposition option"
  ui_reason :: ustring
  ui_idempotency_key :: ustring

record list_in =
  ti_project_id :: "ustring option"
  ti_task_id :: "ustring option"
  ti_states :: "in_state list"
  ti_trigger_types :: "in_trigger_type list"
  ti_linked_goal_id :: "ustring option"
  ti_linked_memory_hash :: "ustring option"
  ti_limit :: "16 word"
  ti_cursor :: "cursor_text option"

record cancel_in =
  xi_remindi_id :: uuid
  xi_expected_version :: u64
  xi_reason :: ustring
  xi_idempotency_key :: ustring

record history_in =
  hi_remindi_id :: uuid
  hi_after_sequence :: "u64 option"
  hi_event_types :: "in_event_type list"
  hi_limit :: "16 word"
  hi_cursor :: "cursor_text option"

section \<open>Checks beyond the types\<close>

datatype semantic_error = RecurrenceRequiresInterval | RecurrenceIntervalMismatches | UpdateRequiresMutableField

definition validate_add_semantics :: "add_in \<Rightarrow> (semantic_error, unit) res" where
  "validate_add_semantics input =
     (case (ai_trigger input, ai_recurrence input) of
        (InInterval _ every, Some r) \<Rightarrow>
          if every = ri_every_seconds r then Ok () else Err RecurrenceIntervalMismatches
      | (_, None) \<Rightarrow> Ok ()
      | (_, Some _) \<Rightarrow> Err RecurrenceRequiresInterval)"

definition validate_update_semantics :: "update_in \<Rightarrow> (semantic_error, unit) res" where
  "validate_update_semantics input =
     (let changed = ui_message input \<noteq> None \<or> patch_is_set (ui_instructions input) \<or> ui_priority input \<noteq> None
                  \<or> ui_trigger input \<noteq> None \<or> patch_is_set (ui_recurrence input)
                  \<or> ui_overdue_after_seconds input \<noteq> None \<or> ui_links input \<noteq> None
                  \<or> ui_occurrence_disposition input \<noteq> None
      in guard changed UpdateRequiresMutableField)"

section \<open>Published schemas\<close>

text \<open>
  \<open>strip_rust_unsigned_integer_formats\<close>: the generated schemas carry the format names of Rust's
  unsigned integers, which JSON Schema does not have. A \<open>serde_json\<close> object has distinct keys.
\<close>

definition is_rust_unsigned_format :: "(string \<times> json) list \<Rightarrow> bool" where
  "is_rust_unsigned_format kvs \<longleftrightarrow>
     (case map_of kvs ''format'' of
        Some (JStr format) \<Rightarrow>
          (case strip_prefix (lit ''uint'') format of None \<Rightarrow> False | Some width \<Rightarrow> list_all is_ascii_digit (utf8_bytes width))
      | _ \<Rightarrow> False)"

definition without_format :: "(string \<times> json) list \<Rightarrow> (string \<times> json) list" where
  "without_format kvs = (if is_rust_unsigned_format kvs then filter (\<lambda>(k, _). k \<noteq> ''format'') kvs else kvs)"

lemma without_format_subset: "set (without_format kvs) \<subseteq> set kvs"
  by (simp add: without_format_def)

lemma json_member_smaller: "(k, v) \<in> set kvs \<Longrightarrow> size v < size (JObj kvs)"
  by (induction kvs) auto

lemma json_element_smaller: "x \<in> set xs \<Longrightarrow> size x < size (JArr xs)"
  by (induction xs) auto

function strip_formats :: "json \<Rightarrow> json" where
  "strip_formats (JObj kvs) = JObj (map (\<lambda>(k, v). (k, strip_formats v)) (without_format kvs))"
| "strip_formats (JArr xs) = JArr (map strip_formats xs)"
| "strip_formats JNull = JNull"
| "strip_formats (JBool b) = JBool b"
| "strip_formats (JNum n) = JNum n"
| "strip_formats (JStr s) = JStr s"
| "strip_formats (JTime t) = JTime t"
| "strip_formats (JUuid i) = JUuid i"
  by pat_completeness auto
termination
  by (relation "measure size")
    (use json_member_smaller json_element_smaller in \<open>auto dest!: subsetD [OF without_format_subset] simp del: json.size\<close>)

text \<open>Whether an unsigned format is left anywhere.\<close>

fun unsigned_free :: "json \<Rightarrow> bool" where
  "unsigned_free (JObj kvs) \<longleftrightarrow> \<not> is_rust_unsigned_format kvs \<and> (\<forall>(k, v) \<in> set kvs. unsigned_free v)"
| "unsigned_free (JArr xs) \<longleftrightarrow> (\<forall>x \<in> set xs. unsigned_free x)"
| "unsigned_free v \<longleftrightarrow> True"

lemma strip_formats_str: "strip_formats v = JStr s \<longleftrightarrow> v = JStr s"
  by (cases v) auto

lemma unsigned_format_stripped:
  "is_rust_unsigned_format (map (\<lambda>(k, v). (k, strip_formats v)) kvs) = is_rust_unsigned_format kvs"
proof -
  have "map_of (map (\<lambda>(k, v). (k, strip_formats v)) kvs) ''format'' = map_option strip_formats (map_of kvs ''format'')"
    by (simp add: map_of_map)
  moreover have "(case strip_formats v of JStr f \<Rightarrow> P f | _ \<Rightarrow> False) = (case v of JStr f \<Rightarrow> P f | _ \<Rightarrow> False)" for v P
    by (cases v) auto
  ultimately show ?thesis
    by (cases "map_of kvs ''format''") (simp_all add: is_rust_unsigned_format_def)
qed

lemma without_format_free: "\<not> is_rust_unsigned_format (without_format kvs)"
proof -
  have "map_of (filter (\<lambda>(k, _). k \<noteq> ''format'') kvs) ''format'' = None"
    by (auto simp: map_of_eq_None_iff)
  then show ?thesis by (auto simp: without_format_def is_rust_unsigned_format_def)
qed

text \<open>
  The published schemas have no unsigned formats, at any depth, and a schema without them is
  published as it is.
\<close>

theorem published_schema_clean: "unsigned_free (strip_formats v)"
proof (induction v rule: strip_formats.induct)
  case (1 kvs)
  then show ?case by (auto simp: unsigned_format_stripped without_format_free)
qed auto

lemma clean_schema_kept: "unsigned_free v \<Longrightarrow> strip_formats v = v"
proof (induction v rule: strip_formats.induct)
  case (1 kvs)
  then have same: "without_format kvs = kvs" by (simp add: without_format_def)
  have "map (\<lambda>(k, v). (k, strip_formats v)) kvs = map (\<lambda>p. p) kvs"
    using 1 by (intro map_cong) (auto simp: same)
  then show ?case by (simp add: same)
qed (auto intro: map_idI)

end
