(* ===== verification/Views.thy ===== *)
theory Views
  imports Schemas
begin

text \<open>
  What the tools show of items, events and evidence, \<open>src/mcp/views.rs\<close>: the domain values with every
  instant as its canonical text, and the dates inside the details of events normalised to it.
\<close>

section \<open>Items\<close>

datatype trigger_view =
    ViewAtTime stamp
  | ViewAfterElapsed u64
  | ViewInterval stamp u64
  | ViewNextSession
  | ViewNextContinuation
  | ViewGoalActive ustring
  | ViewCondition ustring json "u64 option" "stamp option"

definition optional_view_time :: "instant option \<Rightarrow> (domain_error, stamp option) res" where
  "optional_view_time = transpose_map canonical_timestamp"

fun trigger_view_of :: "trigger_spec \<Rightarrow> (domain_error, trigger_view) res" where
  "trigger_view_of (AtTime at) = rbind (canonical_timestamp at) (\<lambda>s. Ok (ViewAtTime s))"
| "trigger_view_of (AfterElapsed n) = Ok (ViewAfterElapsed n)"
| "trigger_view_of (Interval first every) = rbind (canonical_timestamp first) (\<lambda>s. Ok (ViewInterval s every))"
| "trigger_view_of NextSession = Ok ViewNextSession"
| "trigger_view_of NextContinuation = Ok ViewNextContinuation"
| "trigger_view_of (GoalActive g) = Ok (ViewGoalActive g)"
| "trigger_view_of (Condition adapter params poll manual) =
     rbind (optional_view_time manual) (\<lambda>m. Ok (ViewCondition adapter params poll m))"

record recurrence_view =
  uv_every_seconds :: u64
  uv_missed_policy :: string
  uv_max_occurrences :: "u64 option"
  uv_end_at :: "stamp option"

primrec missed_policy_name :: "missed_policy_kind \<Rightarrow> string" where
  "missed_policy_name Coalesce = ''coalesce''"
| "missed_policy_name CatchUp = ''catch_up''"
| "missed_policy_name Skip = ''skip''"

definition recurrence_view_of :: "recurrence_spec \<Rightarrow> (domain_error, recurrence_view) res" where
  "recurrence_view_of r =
     rbind (optional_view_time (end_at r)) (\<lambda>until.
       Ok \<lparr>uv_every_seconds = every_seconds r, uv_missed_policy = missed_policy_name (missed_policy r),
           uv_max_occurrences = max_occurrences r, uv_end_at = until\<rparr>)"

record remindi_view =
  rv_id :: uuid
  rv_project_id :: ustring
  rv_task_id :: "ustring option"
  rv_message :: ustring
  rv_instructions :: "ustring option"
  rv_state :: string
  rv_priority :: string
  rv_trigger :: trigger_view
  rv_recurrence :: "recurrence_view option"
  rv_next_fire_at :: "stamp option"
  rv_next_evaluation_at :: "stamp option"
  rv_original_next_fire_at :: "stamp option"
  rv_due_since :: "stamp option"
  rv_snooze_until :: "stamp option"
  rv_snoozed_from_state :: "string option"
  rv_overdue_after_seconds :: u64
  rv_occurrence_no :: u64
  rv_source_session_id :: "ustring option"
  rv_source_task_lineage_id :: "ustring option"
  rv_last_checked_at :: "stamp option"
  rv_last_condition_status :: "string option"
  rv_last_condition_detail :: "ustring option"
  rv_snooze_count :: u64
  rv_version :: u64
  rv_created_at :: stamp
  rv_updated_at :: stamp
  rv_completed_at :: "stamp option"
  rv_cancelled_at :: "stamp option"

definition remindi_view_of :: "remindi \<Rightarrow> (domain_error, remindi_view) res" where
  "remindi_view_of r =
     rbind (trigger_view_of (trigger r)) (\<lambda>trig.
     rbind (transpose_map recurrence_view_of (recurrence r)) (\<lambda>recur.
     rbind (optional_view_time (next_fire_at r)) (\<lambda>nfire.
     rbind (optional_view_time (next_evaluation_at r)) (\<lambda>neval.
     rbind (optional_view_time (original_next_fire_at r)) (\<lambda>onfire.
     rbind (optional_view_time (due_since r)) (\<lambda>due.
     rbind (optional_view_time (snooze_until r)) (\<lambda>snz.
     rbind (optional_view_time (last_checked_at r)) (\<lambda>checked.
     rbind (canonical_timestamp (created_at r)) (\<lambda>created.
     rbind (canonical_timestamp (updated_at r)) (\<lambda>updated.
     rbind (optional_view_time (completed_at r)) (\<lambda>completed.
     rbind (optional_view_time (cancelled_at r)) (\<lambda>cancelled.
       Ok \<lparr>rv_id = remindi_id r, rv_project_id = project_id r, rv_task_id = task_id r, rv_message = message r,
           rv_instructions = instructions r, rv_state = state_name (state r),
           rv_priority = priority_name (priority r), rv_trigger = trig, rv_recurrence = recur,
           rv_next_fire_at = nfire, rv_next_evaluation_at = neval, rv_original_next_fire_at = onfire,
           rv_due_since = due, rv_snooze_until = snz,
           rv_snoozed_from_state = map_option state_name (snoozed_from_state r),
           rv_overdue_after_seconds = overdue_after_seconds r, rv_occurrence_no = occurrence_no r,
           rv_source_session_id = source_session_id r, rv_source_task_lineage_id = source_task_lineage_id r,
           rv_last_checked_at = checked,
           rv_last_condition_status = map_option condition_status_name (last_condition_status r),
           rv_last_condition_detail = last_condition_detail r, rv_snooze_count = snooze_count r,
           rv_version = version r, rv_created_at = created, rv_updated_at = updated,
           rv_completed_at = completed, rv_cancelled_at = cancelled\<rparr>))))))))))))"

section \<open>Details of events\<close>

text \<open>
  The parsers of the \<open>time\<close> crate: of an RFC 3339 text, and of the array that old details hold.
  A \<open>serde_json\<close> object has distinct keys.
\<close>

record time_outside =
  to_rfc3339 :: "ustring \<Rightarrow> instant option"
  to_legacy :: "json list \<Rightarrow> instant option"

definition set_member :: "string \<Rightarrow> json \<Rightarrow> (string \<times> json) list \<Rightarrow> (string \<times> json) list" where
  "set_member key v kvs = map (\<lambda>(k, x). (k, if k = key then v else x)) kvs"

text \<open>The instant of a member that is not null. The text of an identifier has no offset.\<close>

fun member_instant :: "time_outside \<Rightarrow> json \<Rightarrow> (domain_error, instant) res" where
  "member_instant out (JStr s) = parse_timestamp (to_rfc3339 out) s"
| "member_instant out (JTime s) = parse_canonical s"
| "member_instant out (JUuid _) = Err TimestampOffsetRequired"
| "member_instant out (JArr xs) = ok_or InvalidPersistedValue (to_legacy out xs)"
| "member_instant out _ = Err InvalidPersistedValue"

fun normalize_object_timestamp :: "time_outside \<Rightarrow> string \<Rightarrow> json \<Rightarrow> (domain_error, json) res" where
  "normalize_object_timestamp out key (JObj kvs) =
     (case map_of kvs key of
        None \<Rightarrow> Ok (JObj kvs)
      | Some JNull \<Rightarrow> Ok (JObj kvs)
      | Some v \<Rightarrow>
          rbind (member_instant out v) (\<lambda>t.
          rbind (canonical_timestamp t) (\<lambda>s. Ok (JObj (set_member key (JTime s) kvs)))))"
| "normalize_object_timestamp out key v = Ok v"

fun normalize_nested_trigger_summary :: "time_outside \<Rightarrow> string \<Rightarrow> json \<Rightarrow> (domain_error, json) res" where
  "normalize_nested_trigger_summary out key (JObj kvs) =
     (case map_of kvs key of
        None \<Rightarrow> Ok (JObj kvs)
      | Some inner \<Rightarrow>
          rbind (normalize_object_timestamp out ''next_fire_at'' inner) (\<lambda>v.
          rbind (normalize_object_timestamp out ''next_evaluation_at'' v) (\<lambda>v'.
            Ok (JObj (set_member key v' kvs)))))"
| "normalize_nested_trigger_summary out key v = Ok v"

fun normalize_event_details :: "time_outside \<Rightarrow> event_type_kind \<Rightarrow> json \<Rightarrow> (domain_error, json) res" where
  "normalize_event_details out E_Snoozed v =
     rbind (normalize_object_timestamp out ''prior_next_fire_at'' v) (normalize_object_timestamp out ''snooze_until'')"
| "normalize_event_details out E_OccurrenceAdvanced v =
     rbind (normalize_object_timestamp out ''previous_schedule'' v) (normalize_object_timestamp out ''next_schedule'')"
| "normalize_event_details out E_Updated v =
     rbind (normalize_nested_trigger_summary out ''before_trigger'' v) (normalize_nested_trigger_summary out ''after_trigger'')"
| "normalize_event_details out _ v =
     rbind (normalize_object_timestamp out ''next_fire_at'' v) (normalize_object_timestamp out ''next_evaluation_at'')"

section \<open>Events and evidence\<close>

primrec actor_type_name :: "actor_type_kind \<Rightarrow> string" where
  "actor_type_name A_User = ''user''"
| "actor_type_name A_Agent = ''agent''"
| "actor_type_name A_Scheduler = ''scheduler''"
| "actor_type_name A_System = ''system''"

primrec evidence_type_name :: "evidence_type_kind \<Rightarrow> string" where
  "evidence_type_name Observation = ''observation''"
| "evidence_type_name TestResult = ''test_result''"
| "evidence_type_name ArtifactEvidence = ''artifact''"
| "evidence_type_name LogReference = ''log_reference''"
| "evidence_type_name ChangeReference = ''change_reference''"
| "evidence_type_name UserConfirmation = ''user_confirmation''"
| "evidence_type_name ExternalReference = ''external_reference''"

record event_view =
  ev_sequence :: "int option"
  ev_event_id :: uuid
  ev_remindi_id :: uuid
  ev_event_type :: string
  ev_actor_type :: string
  ev_actor_id :: ustring
  ev_request_id :: "ustring option"
  ev_occurred_at :: stamp
  ev_prior_version :: "u64 option"
  ev_new_version :: "u64 option"
  ev_details :: json

definition event_view_of :: "time_outside \<Rightarrow> remindi_event \<Rightarrow> (domain_error, event_view) res" where
  "event_view_of out e =
     rbind (canonical_timestamp (occurred_at e)) (\<lambda>occurred.
     rbind (normalize_event_details out (event_type e) (details e)) (\<lambda>dets.
       Ok \<lparr>ev_sequence = event_sequence e, ev_event_id = event_id e, ev_remindi_id = event_remindi_id e,
           ev_event_type = event_type_name (event_type e), ev_actor_type = actor_type_name (event_actor_type e),
           ev_actor_id = event_actor_id e, ev_request_id = event_request_id e, ev_occurred_at = occurred,
           ev_prior_version = prior_version e, ev_new_version = new_version e, ev_details = dets\<rparr>))"

record evidence_view =
  yv_id :: uuid
  yv_remindi_id :: uuid
  yv_evidence_type :: string
  yv_summary :: ustring
  yv_reference_uri :: "ustring option"
  yv_content_hash :: "ustring option"
  yv_observed_at :: stamp
  yv_recorded_at :: stamp
  yv_recorded_by :: ustring
  yv_metadata :: "json option"

definition evidence_view_of :: "completion_evidence \<Rightarrow> (domain_error, evidence_view) res" where
  "evidence_view_of e =
     rbind (canonical_timestamp (ce_observed_at e)) (\<lambda>observed.
     rbind (canonical_timestamp (ce_recorded_at e)) (\<lambda>recorded.
       Ok \<lparr>yv_id = ce_id e, yv_remindi_id = ce_remindi_id e,
           yv_evidence_type = evidence_type_name (ce_evidence_type e), yv_summary = ce_summary e,
           yv_reference_uri = ce_reference_uri e, yv_content_hash = ce_content_hash e,
           yv_observed_at = observed, yv_recorded_at = recorded, yv_recorded_by = ce_recorded_by e,
           yv_metadata = ce_metadata e\<rparr>))"

section \<open>What is stored is what is shown\<close>

lemma canonical_of_parsed: "parse_canonical s = Inr t \<Longrightarrow> canonical_timestamp t = Ok s"
proof -
  assume "parse_canonical s = Inr t"
  then have t: "rfc3339_ok t" "t = s * ns_per_ms" by (auto simp: parse_canonical_eq_Inr)
  from canonical_timestamp_Ok [OF t(1)] show ?thesis by (simp add: t(2) ns_per_ms_def)
qed

lemma shown_time: "required_time s = Inr t \<Longrightarrow> canonical_timestamp t = Ok s"
  by (auto simp: required_time_def map_err_eq_Inr canonical_of_parsed)

lemma shown_optional: "optional_time s = Inr t \<Longrightarrow> optional_view_time t = Ok s"
  by (auto simp: optional_time_def optional_view_time_def transpose_map_def rbind_eq_Inr shown_time split: option.splits)

lemma shown_trigger: "trigger_serializable t \<Longrightarrow> \<exists>v. trigger_view_of t = Ok v"
  by (cases t) (auto simp: canonical_timestamp_Ok optional_view_time_def transpose_map_def split: option.splits)

lemma shown_recurrence: "recurrence_serializable r \<Longrightarrow> \<exists>v. transpose_map recurrence_view_of r = Ok v"
  by (cases r)
    (auto simp: recurrence_serializable_def recurrence_view_of_def canonical_timestamp_Ok optional_view_time_def transpose_map_def
      split: option.splits)

text \<open>
  A tool shows an item with exactly the timestamps that its row holds, and showing an item that
  was read from a row never fails, if the instants of its trigger and recurrence have a text.
\<close>

theorem stored_times_shown:
  assumes "remindi_from_row r = Inr item"
    and "trigger_serializable (trigger item)" and "recurrence_serializable (recurrence item)"
  shows "\<exists>v. remindi_view_of item = Ok v \<and> rv_id v = c_id r \<and> rv_state v = c_state r
     \<and> rv_next_fire_at v = c_next_fire_at r \<and> rv_next_evaluation_at v = c_next_evaluation_at r
     \<and> rv_original_next_fire_at v = c_original_next_fire_at r \<and> rv_due_since v = c_due_since r
     \<and> rv_snooze_until v = c_snooze_until r \<and> rv_last_checked_at v = c_last_checked_at r
     \<and> rv_created_at v = c_created_at r \<and> rv_updated_at v = c_updated_at r
     \<and> rv_completed_at v = c_completed_at r \<and> rv_cancelled_at v = c_cancelled_at r"
proof -
  obtain trig where trig: "trigger_view_of (trigger item) = Ok trig" using shown_trigger [OF assms(2)] by blast
  obtain recur where recur: "transpose_map recurrence_view_of (recurrence item) = Ok recur"
    using shown_recurrence [OF assms(3)] by blast
  have st: "parse_enum state_from_str s = Inr x \<Longrightarrow> state_name x = s" for s x
    by (auto simp: parse_enum_def state_from_str_def from_str_def res_simps find_Some_iff)
  from assms(1) [unfolded remindi_from_row_def] show ?thesis
    by (elim rbindE)
      (auto simp: remindi_view_of_def trig recur shown_time shown_optional dest!: st)
qed

end
