(* ===== verification/Tools.thy ===== *)
theory Tools
  imports Views
begin

text \<open>
  The MCP tools: the results of \<open>src/mcp/responses.rs\<close>, the conversions and the dispatch of
  \<open>src/mcp/tools/mod.rs\<close>, and one handler per tool (\<open>src/mcp/tools/\<close>), each the conversion of its input,
  the call of the service and the view of the result. The catalogue of tools is modelled by its names.
\<close>

section \<open>Results\<close>

datatype retryability = Never | Always | Conditional

datatype error_code =
    ValidationErrorCode | UnauthenticatedCode | ForbiddenCode | NotFoundCode | InvalidStateCode
  | VersionConflictCode | IdempotencyKeyReusedCode | DatabaseBusyCode | AdapterNotFoundCode
  | AdapterDisabledCode | AdapterTimeoutCode | AdapterErrorCode | ReauthenticationRequiredCode
  | CsrfRejectedCode | WorkloadConflictCode | MaintenanceActiveCode | BackupInvalidCode
  | RestoreFailedCode | LimitExceededCode | InternalErrorCode

definition retryable :: "error_code \<Rightarrow> retryability" where
  "retryable code =
     (if code \<in> {VersionConflictCode, DatabaseBusyCode, AdapterTimeoutCode, WorkloadConflictCode, MaintenanceActiveCode}
      then Always
      else if code \<in> {AdapterErrorCode, RestoreFailedCode, InternalErrorCode} then Conditional
      else Never)"

record tool_error =
  te_code :: error_code
  te_message :: string
  te_retryable :: bool
  te_details :: "json option"

definition tool_error_new :: "error_code \<Rightarrow> string \<Rightarrow> tool_error" where
  "tool_error_new code msg =
     \<lparr>te_code = code, te_message = msg, te_retryable = (retryable code = Always), te_details = None\<rparr>"

definition with_details :: "json \<Rightarrow> tool_error \<Rightarrow> tool_error" where
  "with_details d e = e\<lparr>te_details := Some d\<rparr>"

record ready_item =
  ry_remindi_id :: uuid
  ry_readiness :: readiness_kind
  ry_message :: ustring
  ry_occurrence_no :: u64
  ry_version :: u64

datatype tool_data =
    MutationData uuid remindi_state u64
  | CheckData stamp "ready_item list" "cursor_text option"
  | PageData "remindi_view list" "cursor_text option"
  | HistoryData "event_view list" "evidence_view list" "cursor_text option"

datatype tool_result = SuccessResponse ustring tool_data | ErrorResponse ustring tool_error

section \<open>Conversions\<close>

datatype handler_error = HandlerValidation | HandlerService service_error | HandlerSerialization

definition input_time :: "time_outside \<Rightarrow> ustring \<Rightarrow> (handler_error, instant) res" where
  "input_time out v = map_err (\<lambda>_. HandlerValidation) (parse_timestamp (to_rfc3339 out) v)"

fun trigger_of_input :: "time_outside \<Rightarrow> trigger_in \<Rightarrow> (handler_error, trigger_spec) res" where
  "trigger_of_input out (InAtTime at) = rbind (input_time out at) (\<lambda>t. Ok (AtTime t))"
| "trigger_of_input out (InAfterElapsed n) = Ok (AfterElapsed n)"
| "trigger_of_input out (InInterval first every) = rbind (input_time out first) (\<lambda>t. Ok (Interval t every))"
| "trigger_of_input out InNextSession = Ok NextSession"
| "trigger_of_input out InNextContinuation = Ok NextContinuation"
| "trigger_of_input out (InGoalActive g) = Ok (GoalActive g)"
| "trigger_of_input out (InCondition adapter params poll manual) =
     rbind (transpose_map (input_time out) manual) (\<lambda>m. Ok (Condition adapter params poll m))"

primrec missed_policy_of_input :: "in_missed_policy \<Rightarrow> missed_policy_kind" where
  "missed_policy_of_input InCoalesce = Coalesce"
| "missed_policy_of_input InCatchUp = CatchUp"
| "missed_policy_of_input InSkip = Skip"

definition recurrence_of_input :: "time_outside \<Rightarrow> recurrence_in \<Rightarrow> (handler_error, recurrence_spec) res" where
  "recurrence_of_input out r =
     rbind (transpose_map (input_time out) (ri_end_at r)) (\<lambda>until.
       Ok \<lparr>every_seconds = ri_every_seconds r, missed_policy = missed_policy_of_input (ri_missed_policy r),
           max_occurrences = ri_max_occurrences r, end_at = until\<rparr>)"

primrec priority_of_input :: "in_priority \<Rightarrow> priority_level" where
  "priority_of_input InLow = Low"
| "priority_of_input InNormal = Normal"
| "priority_of_input InHigh = High"
| "priority_of_input InCritical = Critical"

primrec link_type_of_input :: "in_link_type \<Rightarrow> link_type_kind" where
  "link_type_of_input InGoal = L_Goal"
| "link_type_of_input InMemory = L_Memory"
| "link_type_of_input InIssue = L_Issue"
| "link_type_of_input InUrl = L_Url"
| "link_type_of_input InArtifact = L_Artifact"

definition link_of_input :: "link_in \<Rightarrow> link_input" where
  "link_of_input l = \<lparr>li_type = link_type_of_input (ki_type l), li_value = ki_value l\<rparr>"

primrec evidence_type_of_input :: "in_evidence_type \<Rightarrow> evidence_type_kind" where
  "evidence_type_of_input InObservation = Observation"
| "evidence_type_of_input InTestResult = TestResult"
| "evidence_type_of_input InEvidenceArtifact = ArtifactEvidence"
| "evidence_type_of_input InLogReference = LogReference"
| "evidence_type_of_input InChangeReference = ChangeReference"
| "evidence_type_of_input InUserConfirmation = UserConfirmation"
| "evidence_type_of_input InExternalReference = ExternalReference"

primrec lifecycle_of_input :: "in_lifecycle_event \<Rightarrow> lifecycle_event_kind" where
  "lifecycle_of_input InTaskStart = TaskStart"
| "lifecycle_of_input InCheckpoint = Checkpoint"
| "lifecycle_of_input InContinuation = Continuation"
| "lifecycle_of_input InFinalReview = FinalReview"

primrec disposition_of_input :: "in_disposition \<Rightarrow> occurrence_disposition" where
  "disposition_of_input InAcknowledged = Acknowledged"
| "disposition_of_input InSkipped = Skipped"

primrec state_of_input :: "in_state \<Rightarrow> remindi_state" where
  "state_of_input InScheduled = Scheduled"
| "state_of_input InDue = Due"
| "state_of_input InOverdue = Overdue"
| "state_of_input InSnoozed = Snoozed"
| "state_of_input InCompleted = Completed"
| "state_of_input InCancelled = Cancelled"

primrec trigger_type_of_input :: "in_trigger_type \<Rightarrow> string" where
  "trigger_type_of_input InAtTimeType = ''at_time''"
| "trigger_type_of_input InAfterElapsedType = ''after_elapsed''"
| "trigger_type_of_input InIntervalType = ''interval''"
| "trigger_type_of_input InNextSessionType = ''next_session''"
| "trigger_type_of_input InNextContinuationType = ''next_continuation''"
| "trigger_type_of_input InGoalActiveType = ''goal_active''"
| "trigger_type_of_input InConditionType = ''condition''"

primrec event_type_of_input :: "in_event_type \<Rightarrow> event_type_kind" where
  "event_type_of_input InCreated = E_Created"
| "event_type_of_input InChecked = E_Checked"
| "event_type_of_input InBecameDue = E_BecameDue"
| "event_type_of_input InBecameOverdue = E_BecameOverdue"
| "event_type_of_input InConditionEvaluated = E_ConditionEvaluated"
| "event_type_of_input InOccurrenceAdvanced = E_OccurrenceAdvanced"
| "event_type_of_input InEventSnoozed = E_Snoozed"
| "event_type_of_input InUpdated = E_Updated"
| "event_type_of_input InEventCompleted = E_Completed"
| "event_type_of_input InEventCancelled = E_Cancelled"
| "event_type_of_input InDeliveryAttempted = E_DeliveryAttempted"
| "event_type_of_input InDeliverySucceeded = E_DeliverySucceeded"
| "event_type_of_input InDeliveryFailed = E_DeliveryFailed"

text \<open>A patch as the nested option of an update request.\<close>

fun option_of_patch :: "'a patch \<Rightarrow> 'a option option" where
  "option_of_patch Unset = None"
| "option_of_patch PatchNull = Some None"
| "option_of_patch (PatchValue v) = Some (Some v)"

section \<open>Requests\<close>

definition add_request_of :: "time_outside \<Rightarrow> add_in \<Rightarrow> (handler_error, add_request) res" where
  "add_request_of out input =
     rbind (map_err (\<lambda>_. HandlerValidation) (validate_add_semantics input)) (\<lambda>_.
     rbind (trigger_of_input out (ai_trigger input)) (\<lambda>trig.
     rbind (transpose_map (recurrence_of_input out) (ai_recurrence input)) (\<lambda>recur.
       Ok \<lparr>ar_project_id = ai_project_id input, ar_task_id = ai_task_id input, ar_message = ai_message input,
           ar_instructions = ai_instructions input, ar_priority = priority_of_input (ai_priority input),
           ar_trigger = trig, ar_recurrence = recur,
           ar_overdue_after_seconds = ai_overdue_after_seconds input,
           ar_links = map link_of_input (ai_links input), ar_session_id = ai_session_id input,
           ar_task_lineage_id = ai_task_lineage_id input, ar_idempotency_key = ai_idempotency_key input\<rparr>)))"

definition complete_request_of :: "time_outside \<Rightarrow> complete_in \<Rightarrow> (handler_error, complete_request) res" where
  "complete_request_of out input =
     (let e = mi_evidence input in
      rbind (input_time out (vi_observed_at e)) (\<lambda>observed.
        Ok \<lparr>cr_remindi_id = mi_remindi_id input, cr_expected_version = mi_expected_version input,
            cr_evidence = \<lparr>evidence_type = evidence_type_of_input (vi_type e), summary = vi_summary e,
                           reference_uri = vi_reference_uri e, content_hash = vi_content_hash e,
                           observed_at = observed, metadata = vi_metadata e, source = AuthenticatedActor\<rparr>,
            cr_completion_note = mi_completion_note input, cr_idempotency_key = mi_idempotency_key input\<rparr>))"

definition snooze_request_of :: "time_outside \<Rightarrow> snooze_in \<Rightarrow> (handler_error, snooze_request) res" where
  "snooze_request_of out input =
     rbind (input_time out (si_snooze_until input)) (\<lambda>until.
       Ok \<lparr>sr_remindi_id = si_remindi_id input, sr_expected_version = si_expected_version input,
           sr_snooze_until = until, sr_reason = si_reason input, sr_idempotency_key = si_idempotency_key input\<rparr>)"

text \<open>The recurrence is converted before the trigger.\<close>

definition update_request_of :: "time_outside \<Rightarrow> update_in \<Rightarrow> (handler_error, update_request) res" where
  "update_request_of out input =
     rbind (map_err (\<lambda>_. HandlerValidation) (validate_update_semantics input)) (\<lambda>_.
     rbind (transpose_map (transpose_map (recurrence_of_input out)) (option_of_patch (ui_recurrence input))) (\<lambda>recur.
     rbind (transpose_map (trigger_of_input out) (ui_trigger input)) (\<lambda>trig.
       Ok \<lparr>ur_remindi_id = ui_remindi_id input, ur_expected_version = ui_expected_version input,
           ur_message = ui_message input, ur_instructions = option_of_patch (ui_instructions input),
           ur_priority = map_option priority_of_input (ui_priority input), ur_trigger = trig,
           ur_recurrence = recur, ur_overdue_after_seconds = ui_overdue_after_seconds input,
           ur_links = map_option (map link_of_input) (ui_links input),
           ur_disposition = map_option disposition_of_input (ui_occurrence_disposition input),
           ur_reason = ui_reason input, ur_idempotency_key = ui_idempotency_key input\<rparr>)))"

definition cancel_request_of :: "cancel_in \<Rightarrow> cancel_request" where
  "cancel_request_of input =
     \<lparr>xr_remindi_id = xi_remindi_id input, xr_expected_version = xi_expected_version input,
      xr_reason = xi_reason input, xr_idempotency_key = xi_idempotency_key input\<rparr>"

text \<open>\<open>evaluate_conditions\<close> is accepted and not used.\<close>

definition check_request_of :: "check_in \<Rightarrow> check_request" where
  "check_request_of input =
     \<lparr>kr_project_id = ci_project_id input, kr_task_id = ci_task_id input, kr_session_id = ci_session_id input,
      kr_task_lineage_id = ci_task_lineage_id input,
      kr_lifecycle_event = lifecycle_of_input (ci_lifecycle_event input),
      kr_active_goal_ids = ci_active_goal_ids input, kr_include_scheduled = ci_include_scheduled input,
      kr_limit = unat (ci_limit input), kr_cursor = ci_cursor input\<rparr>"

definition list_request_of :: "list_in \<Rightarrow> list_request" where
  "list_request_of input =
     \<lparr>lr_project_id = ti_project_id input, lr_task_id = ti_task_id input,
      lr_states = map state_of_input (ti_states input),
      lr_trigger_types = map (lit \<circ> trigger_type_of_input) (ti_trigger_types input),
      lr_linked_goal_id = ti_linked_goal_id input, lr_linked_memory_hash = ti_linked_memory_hash input,
      lr_limit = unat (ti_limit input), lr_cursor = ti_cursor input\<rparr>"

definition history_request_of :: "history_in \<Rightarrow> (handler_error, history_request) res" where
  "history_request_of input =
     rbind (transpose_map (\<lambda>n. ok_or HandlerValidation (i64_try_from_u64 n)) (hi_after_sequence input)) (\<lambda>after.
       Ok \<lparr>hr_remindi_id = hi_remindi_id input, hr_after_sequence = after,
           hr_event_types = map event_type_of_input (hi_event_types input),
           hr_limit = unat (hi_limit input), hr_cursor = hi_cursor input\<rparr>)"

section \<open>Handlers\<close>

type_synonym 'a tool = "(handler_error, 'a) action"

definition of_service :: "'a svc \<Rightarrow> 'a tool" where
  "of_service m = (\<lambda>w. let (r, w') = m w in (map_err HandlerService r, w'))"

definition mutation_data :: "remindi \<Rightarrow> tool_data" where
  "mutation_data item = MutationData (remindi_id item) (state item) (version item)"

text \<open>Every failure of a conversion to a view is reported as a serialization error.\<close>

definition shown :: "(domain_error, 'a) res \<Rightarrow> (handler_error, 'a) res" where
  "shown r = map_err (\<lambda>_. HandlerSerialization) r"

definition ready_item_of :: "checked_item \<Rightarrow> ready_item" where
  "ready_item_of i =
     \<lparr>ry_remindi_id = remindi_id (ci_remindi i), ry_readiness = ci_readiness i, ry_message = message (ci_remindi i),
      ry_occurrence_no = occurrence_no (ci_remindi i), ry_version = version (ci_remindi i)\<rparr>"

definition add_tool :: "env \<Rightarrow> time_outside \<Rightarrow> actor \<Rightarrow> add_in \<Rightarrow> tool_data tool" where
  "add_tool env out a input =
     sbind (slift (add_request_of out input)) (\<lambda>req.
     sbind (of_service (add env a req)) (\<lambda>item. slift (Ok (mutation_data item))))"

definition complete_tool :: "env \<Rightarrow> time_outside \<Rightarrow> actor \<Rightarrow> complete_in \<Rightarrow> tool_data tool" where
  "complete_tool env out a input =
     sbind (slift (complete_request_of out input)) (\<lambda>req.
     sbind (of_service (complete env a req (from_secs 300))) (\<lambda>item. slift (Ok (mutation_data item))))"

definition snooze_tool :: "env \<Rightarrow> time_outside \<Rightarrow> actor \<Rightarrow> snooze_in \<Rightarrow> tool_data tool" where
  "snooze_tool env out a input =
     sbind (slift (snooze_request_of out input)) (\<lambda>req.
     sbind (of_service (snooze env a req (from_secs 31536000))) (\<lambda>item. slift (Ok (mutation_data item))))"

definition update_tool :: "env \<Rightarrow> time_outside \<Rightarrow> actor \<Rightarrow> update_in \<Rightarrow> tool_data tool" where
  "update_tool env out a input =
     sbind (slift (update_request_of out input)) (\<lambda>req.
     sbind (of_service (update env a req)) (\<lambda>item. slift (Ok (mutation_data item))))"

definition cancel_tool :: "env \<Rightarrow> actor \<Rightarrow> cancel_in \<Rightarrow> tool_data tool" where
  "cancel_tool env a input =
     sbind (of_service (cancel env a (cancel_request_of input))) (\<lambda>item. slift (Ok (mutation_data item)))"

definition check_tool :: "env \<Rightarrow> actor \<Rightarrow> check_in \<Rightarrow> tool_data tool" where
  "check_tool env a input =
     sbind (of_service (check env a (check_request_of input))) (\<lambda>result.
     sbind (slift (shown (canonical_timestamp (kt_checked_at result)))) (\<lambda>at.
       slift (Ok (CheckData at (map ready_item_of (kt_items result)) (kt_next_cursor result)))))"

definition list_tool :: "env \<Rightarrow> actor \<Rightarrow> list_in \<Rightarrow> tool_data tool" where
  "list_tool env a input =
     sbind (of_service (list_items env a (list_request_of input))) (\<lambda>(items, cursor).
     sbind (slift (shown (collect_map remindi_view_of items))) (\<lambda>views.
       slift (Ok (PageData views cursor))))"

definition history_tool :: "env \<Rightarrow> time_outside \<Rightarrow> actor \<Rightarrow> history_in \<Rightarrow> tool_data tool" where
  "history_tool env out a input =
     sbind (slift (history_request_of input)) (\<lambda>req.
     sbind (of_service (history env a req)) (\<lambda>page.
     sbind (slift (shown (collect_map (event_view_of out) (hp_items page)))) (\<lambda>events.
     sbind (slift (shown (transpose_map evidence_view_of (hp_evidence page)))) (\<lambda>evidence.
       slift (Ok (HistoryData events (case evidence of None \<Rightarrow> [] | Some v \<Rightarrow> [v]) (hp_next_cursor page)))))))"

section \<open>Dispatch\<close>

text \<open>
  The arguments of a call: what \<open>serde_json::from_value\<close> makes of the JSON for the input type of
  each tool, or nothing.
\<close>

record arguments =
  as_add :: "add_in option"
  as_check :: "check_in option"
  as_complete :: "complete_in option"
  as_snooze :: "snooze_in option"
  as_update :: "update_in option"
  as_list :: "list_in option"
  as_cancel :: "cancel_in option"
  as_history :: "history_in option"

definition parsed :: "'a option \<Rightarrow> ('a \<Rightarrow> 'b tool) \<Rightarrow> 'b tool" where
  "parsed input f = sbind (slift (ok_or HandlerValidation input)) f"

definition tool_names :: "string list" where
  "tool_names = [''remindi_add'', ''remindi_check'', ''remindi_complete'', ''remindi_snooze'',
     ''remindi_update'', ''remindi_list'', ''remindi_cancel'', ''remindi_history'']"

definition dispatch :: "env \<Rightarrow> time_outside \<Rightarrow> actor \<Rightarrow> string \<Rightarrow> arguments \<Rightarrow> tool_data tool" where
  "dispatch env out a name args =
     (if name = ''remindi_add'' then parsed (as_add args) (add_tool env out a)
      else if name = ''remindi_check'' then parsed (as_check args) (check_tool env a)
      else if name = ''remindi_complete'' then parsed (as_complete args) (complete_tool env out a)
      else if name = ''remindi_snooze'' then parsed (as_snooze args) (snooze_tool env out a)
      else if name = ''remindi_update'' then parsed (as_update args) (update_tool env out a)
      else if name = ''remindi_list'' then parsed (as_list args) (list_tool env a)
      else if name = ''remindi_cancel'' then parsed (as_cancel args) (cancel_tool env a)
      else if name = ''remindi_history'' then parsed (as_history args) (history_tool env out a)
      else slift (Err HandlerValidation))"

fun tool_error_of :: "handler_error \<Rightarrow> tool_error" where
  "tool_error_of HandlerValidation = tool_error_new ValidationErrorCode ''Input failed validation.''"
| "tool_error_of HandlerSerialization = tool_error_new InternalErrorCode ''The request could not be completed.''"
| "tool_error_of (HandlerService Internal) = tool_error_new InternalErrorCode ''The request could not be completed.''"
| "tool_error_of (HandlerService NotFound) = tool_error_new NotFoundCode ''The Remindi item was not found.''"
| "tool_error_of (HandlerService InvalidState) =
     tool_error_new InvalidStateCode ''The operation is not allowed in the current state.''"
| "tool_error_of (HandlerService (VersionConflict current)) =
     with_details (JObj [(''current_version'', JNum (uint current))])
       (tool_error_new VersionConflictCode ''The Remindi item changed since it was read.'')"
| "tool_error_of (HandlerService IdempotencyKeyReused) =
     tool_error_new IdempotencyKeyReusedCode ''The idempotency key was reused with different input.''"
| "tool_error_of (HandlerService DatabaseBusy) =
     tool_error_new DatabaseBusyCode ''The database is busy; retry the request.''"
| "tool_error_of (HandlerService MaintenanceActive) =
     tool_error_new MaintenanceActiveCode ''Database maintenance is active; retry the request.''"
| "tool_error_of (HandlerService Validation) = tool_error_new ValidationErrorCode ''Input failed validation.''"
| "tool_error_of (HandlerService InvalidCursor) = tool_error_new ValidationErrorCode ''Input failed validation.''"

definition request_id_of :: "actor \<Rightarrow> ustring" where
  "request_id_of a = (case request_id a of Some i \<Rightarrow> i | None \<Rightarrow> lit ''request-unavailable'')"

text \<open>A result or an error becomes a response; a panic is neither.\<close>

definition tool_response :: "actor \<Rightarrow> (handler_error, tool_data) res \<Rightarrow> (unit, tool_result) res" where
  "tool_response a r =
     (case r of
        Inr d \<Rightarrow> Ok (SuccessResponse (request_id_of a) d)
      | Inl (Fail e) \<Rightarrow> Ok (ErrorResponse (request_id_of a) (tool_error_of e))
      | Inl Panic \<Rightarrow> Inl Panic
      | Inl Diverge \<Rightarrow> Inl Diverge)"

text \<open>The actor of a call comes from the factory of the server.\<close>

definition execute_tool ::
  "env \<Rightarrow> time_outside \<Rightarrow> (world \<Rightarrow> actor \<times> world) \<Rightarrow> string \<Rightarrow> arguments \<Rightarrow> (unit, tool_result) action" where
  "execute_tool env out factory name args = (\<lambda>w.
     let (a, w1) = factory w;
         (r, w2) = dispatch env out a name args w1
     in (tool_response a r, w2))"

end
