(* ===== verification/Migrations.thy ===== *)
theory Migrations
  imports Administration
begin

text \<open>
  The migrations that run whenever the database is opened, \<open>src/db/migrations.rs\<close>: the recorded
  versions are compared with the scripts of the program, missing scripts run, and the seeded rows
  are completed and validated, all in one transaction. The scripts create the tables of the items
  (\<open>0001_initial.sql\<close>) and those of the administration (\<open>0002_admin_webui.sql\<close>); a table that no
  recorded script has created is represented as empty.
\<close>

section \<open>The whole database\<close>

record backup_row =
  br_id :: ustring
  br_file_name :: ustring
  br_source :: string
  br_status :: string
  br_sha256 :: ustring
  br_size_bytes :: int
  br_schema_version :: int
  br_created_at :: ustring
  br_verified_at :: "ustring option"
  br_created_by :: ustring
  br_details :: "json option"

text \<open>\<open>ld_scripts\<close> lists the scripts whose tables exist; \<open>ld_migrations\<close> is \<open>schema_migrations\<close>.\<close>

record live_db =
  ld_scripts :: "int list"
  ld_migrations :: "(int \<times> ustring) list"
  ld_items :: db
  ld_admin :: admin_db
  ld_backups :: "backup_row list"

definition no_items :: db where
  "no_items = \<lparr>remindi_table = [], link_table = [], event_table = [], last_sequence = 0, evidence_table = [],
     idempotency_table = [], lease_table = [], runtime_table = []\<rparr>"

definition no_admin :: admin_db where
  "no_admin = \<lparr>setting_table = [], adapter_table = [], admin_event_table = [], admin_last_sequence = 0\<rparr>"

definition empty_live_db :: live_db where
  "empty_live_db = \<lparr>ld_scripts = [], ld_migrations = [], ld_items = no_items, ld_admin = no_admin, ld_backups = []\<rparr>"

section \<open>Migrations\<close>

definition migrations :: "(int \<times> string) list" where
  "migrations = [(1, ''initial''), (2, ''admin_webui'')]"

text \<open>\<open>digest\<close> is the hexadecimal SHA-256 of the script of a version.\<close>

definition migration_identity :: "(int \<Rightarrow> ustring) \<Rightarrow> int \<times> string \<Rightarrow> ustring" where
  "migration_identity digest m = lit (snd m) @ 58 # digest (fst m)"

text \<open>
  The scripts create their tables and do not expect them to exist; the second one also seeds the
  settings, the adapters and the components, as \<open>seed_and_validate\<close> does.
\<close>

definition create_tables :: "int \<Rightarrow> live_db \<Rightarrow> (database_error, live_db) res" where
  "create_tables v d =
     (if v \<in> set (ld_scripts d) then Err (DbSql SqlxOther) else Ok (d\<lparr>ld_scripts := ld_scripts d @ [v]\<rparr>))"

section \<open>Seeds\<close>

definition seed_adapter :: "stamp \<Rightarrow> ustring \<Rightarrow> adapter_row list \<Rightarrow> adapter_row list" where
  "seed_adapter at name rows =
     (if name \<in> ar_name ` set rows then rows
      else rows @ [\<lparr>ar_name = name, ar_enabled = 0, ar_config = EmptyObject, ar_version = 1, ar_updated_at = at,
                    ar_updated_by = lit ''system''\<rparr>])"

definition service_components :: "string list" where "service_components = [''mcp'', ''scheduler'']"

definition seed_component :: "stamp \<Rightarrow> string \<Rightarrow> runtime_row list \<Rightarrow> runtime_row list" where
  "seed_component at c rows =
     (if c \<in> t_component ` set rows then rows
      else rows @ [\<lparr>t_component = c, t_desired_state = ''running'', t_version = 1, t_updated_at = at,
                    t_updated_by = lit ''system''\<rparr>])"

text \<open>The order in which \<open>ADAPTER_NAMES\<close> lists the adapters.\<close>

definition seeded_adapters :: "ustring list" where
  "seeded_adapters = [lit ''observation_window_ended'', lit ''http_health'', lit ''tcp_reachable'', lit ''file_exists'']"

definition seed_rows :: "stamp \<Rightarrow> live_db \<Rightarrow> live_db" where
  "seed_rows at d =
     d\<lparr>ld_items := (ld_items d)\<lparr>runtime_table := fold (seed_component at) service_components (runtime_table (ld_items d))\<rparr>,
       ld_admin := (ld_admin d)\<lparr>setting_table := seed_settings at (setting_table (ld_admin d)),
                                adapter_table := fold (seed_adapter at) seeded_adapters (adapter_table (ld_admin d))\<rparr>\<rparr>"

section \<open>Running the scripts\<close>

definition run_script :: "stamp \<Rightarrow> int \<Rightarrow> live_db \<Rightarrow> (database_error, live_db) res" where
  "run_script at v d =
     rbind (create_tables v d) (\<lambda>d'. Ok (if v = 2 then seed_rows at d' else d'))"

definition apply_migration ::
  "(int \<Rightarrow> ustring) \<Rightarrow> stamp \<Rightarrow> (int \<times> ustring) list \<Rightarrow> int \<times> string \<Rightarrow> live_db \<Rightarrow> (database_error, live_db) res" where
  "apply_migration digest at applied m d =
     (case map_of applied (fst m) of
        Some name \<Rightarrow> if name \<noteq> migration_identity digest m then Err (MigrationDrift (fst m)) else Ok d
      | None \<Rightarrow>
          rbind (run_script at (fst m) d) (\<lambda>d'.
            Ok (d'\<lparr>ld_migrations := ld_migrations d' @ [(fst m, migration_identity digest m)]\<rparr>)))"

section \<open>Validation\<close>

text \<open>\<open>object_text\<close> says whether the text of a row that is not a configuration is a JSON object.\<close>

definition validate_adapters :: "(adapter_row \<Rightarrow> bool) \<Rightarrow> adapter_row list \<Rightarrow> (database_error, unit) res" where
  "validate_adapters object_text rows =
     (if length rows \<noteq> length (remdups seeded_adapters)
         \<or> list_ex (\<lambda>r. ar_name r \<notin> set seeded_adapters \<or> ar_config r = OtherText \<and> \<not> object_text r) rows
      then Err InvalidBootstrapRows else Ok ())"

definition validate_service_runtime :: "runtime_row list \<Rightarrow> (database_error, unit) res" where
  "validate_service_runtime rows =
     (if length rows \<noteq> length (remdups service_components)
         \<or> list_ex (\<lambda>r. t_component r \<notin> set service_components) rows
      then Err InvalidBootstrapRows else Ok ())"

text \<open>The seeds need the tables of the second script.\<close>

definition seed_and_validate :: "(adapter_row \<Rightarrow> bool) \<Rightarrow> stamp \<Rightarrow> live_db \<Rightarrow> (database_error, live_db) res" where
  "seed_and_validate object_text at d =
     (if 2 \<notin> set (ld_scripts d) then Err (DbSql SqlxOther)
      else
        let d' = seed_rows at d in
        rbind (validate_runtime_settings (setting_table (ld_admin d'))) (\<lambda>_.
        rbind (validate_adapters object_text (adapter_table (ld_admin d'))) (\<lambda>_.
        rbind (validate_service_runtime (runtime_table (ld_items d'))) (\<lambda>_. Ok d'))))"

text \<open>What does not commit leaves the database alone.\<close>

definition apply_migrations ::
  "(int \<Rightarrow> ustring) \<Rightarrow> (adapter_row \<Rightarrow> bool) \<Rightarrow> stamp \<Rightarrow> live_db \<Rightarrow> (database_error, live_db) res" where
  "apply_migrations digest object_text at d =
     (let applied = sort_key fst (ld_migrations d) in
      if applied \<noteq> [] \<and> fst (last applied) > int (length migrations) then Err (NewerSchema (fst (last applied)))
      else
        rbind (fold (\<lambda>m r. rbind r (apply_migration digest at applied m)) migrations (Ok d)) (seed_and_validate object_text at))"

section \<open>What migrating keeps\<close>

text \<open>The items with their links, events, evidence and responses: everything but the workloads and leases.\<close>

definition item_data ::
  "db \<Rightarrow> remindi_row list \<times> link_row list \<times> event_row list \<times> int \<times> evidence_row list \<times> idempotency_row list" where
  "item_data d = (remindi_table d, link_table d, event_table d, last_sequence d, evidence_table d, idempotency_table d)"

lemma item_data_updates [simp]:
  "item_data (d\<lparr>runtime_table := r\<rparr>) = item_data d" "item_data (d\<lparr>lease_table := l\<rparr>) = item_data d"
  by (simp_all add: item_data_def)

lemma seed_rows_frame [simp]:
  "ld_scripts (seed_rows at d) = ld_scripts d" "ld_migrations (seed_rows at d) = ld_migrations d"
  "ld_backups (seed_rows at d) = ld_backups d" "item_data (ld_items (seed_rows at d)) = item_data (ld_items d)"
  "lease_table (ld_items (seed_rows at d)) = lease_table (ld_items d)"
  "setting_table (ld_admin (seed_rows at d)) = seed_settings at (setting_table (ld_admin d))"
  by (simp_all add: seed_rows_def)

lemma apply_migration_Inr:
  "apply_migration digest at applied m d = Inr d' \<longleftrightarrow>
     (case map_of applied (fst m) of
        Some name \<Rightarrow> name = migration_identity digest m \<and> d' = d
      | None \<Rightarrow> \<exists>d1. run_script at (fst m) d = Inr d1
          \<and> d' = d1\<lparr>ld_migrations := ld_migrations d1 @ [(fst m, migration_identity digest m)]\<rparr>)"
  by (auto simp: apply_migration_def res_simps split: option.splits)

lemma run_script_Inr:
  assumes "run_script at v d = Inr d'"
  shows "item_data (ld_items d') = item_data (ld_items d) \<and> ld_migrations d' = ld_migrations d
     \<and> set (ld_scripts d') = insert v (set (ld_scripts d)) \<and> ld_backups d' = ld_backups d
     \<and> (distinct (map st_key (setting_table (ld_admin d))) \<longrightarrow> distinct (map st_key (setting_table (ld_admin d'))))"
  using assms
  by (auto simp: run_script_def create_tables_def res_simps seed_settings_distinct split: if_splits)

text \<open>What one migration does to a database; the identity of an applied one is recorded.\<close>

lemma apply_migration_keeps:
  assumes "apply_migration digest at applied m d = Inr d'"
  shows "item_data (ld_items d') = item_data (ld_items d)" and "ld_backups d' = ld_backups d"
    and "set (ld_scripts d) \<subseteq> set (ld_scripts d')"
    and "distinct (map st_key (setting_table (ld_admin d))) \<Longrightarrow> distinct (map st_key (setting_table (ld_admin d')))"
    and "ld_migrations d' = (if map_of applied (fst m) = None
           then ld_migrations d @ [(fst m, migration_identity digest m)] else ld_migrations d)"
    and "map_of applied (fst m) \<in> {None, Some (migration_identity digest m)}"
  using assms by (auto simp: apply_migration_Inr dest!: run_script_Inr split: option.splits)

lemma apply_migrations_Inr:
  assumes "apply_migrations digest object_text at d = Inr d'"
  obtains d1 d2 where "apply_migration digest at (sort_key fst (ld_migrations d)) (1, ''initial'') d = Inr d1"
    and "apply_migration digest at (sort_key fst (ld_migrations d)) (2, ''admin_webui'') d1 = Inr d2"
    and "seed_and_validate object_text at d2 = Inr d'"
  using assms by (auto simp: apply_migrations_def migrations_def Let_def res_simps split: if_splits)

lemma seed_and_validate_Inr:
  "seed_and_validate object_text at d = Inr d' \<longleftrightarrow> d' = seed_rows at d \<and> 2 \<in> set (ld_scripts d)
     \<and> validate_runtime_settings (setting_table (ld_admin d')) = Ok ()
     \<and> validate_adapters object_text (adapter_table (ld_admin d')) = Ok ()
     \<and> validate_service_runtime (runtime_table (ld_items d')) = Ok ()"
  by (auto simp: seed_and_validate_def Let_def res_simps)

lemma apply_migrations_keeps:
  assumes "apply_migrations digest object_text at d = Ok d'"
  shows "item_data (ld_items d') = item_data (ld_items d)" and "ld_backups d' = ld_backups d"
    and "set (ld_scripts d) \<subseteq> set (ld_scripts d')"
    and "distinct (map st_key (setting_table (ld_admin d))) \<Longrightarrow> settings_ok (setting_table (ld_admin d'))"
proof -
  from assms obtain d1 d2 where d: "apply_migration digest at (sort_key fst (ld_migrations d)) (1, ''initial'') d = Inr d1"
    "apply_migration digest at (sort_key fst (ld_migrations d)) (2, ''admin_webui'') d1 = Inr d2"
    "seed_and_validate object_text at d2 = Inr d'" by (rule apply_migrations_Inr)
  note k = apply_migration_keeps [OF d(1)] apply_migration_keeps [OF d(2)] d(3) [unfolded seed_and_validate_Inr]
  show "item_data (ld_items d') = item_data (ld_items d)" "ld_backups d' = ld_backups d" using k by simp_all
  show "set (ld_scripts d) \<subseteq> set (ld_scripts d')" using k by auto
  assume "distinct (map st_key (setting_table (ld_admin d)))"
  with k have "distinct (map st_key (setting_table (ld_admin d')))" by (simp add: seed_settings_distinct)
  from validate_runtime_settings_iff [OF this] k show "settings_ok (setting_table (ld_admin d'))" by blast
qed

section \<open>Migrating again\<close>

lemma fold_present: "(\<And>x. x \<in> set xs \<Longrightarrow> f x rows = rows) \<Longrightarrow> fold f xs rows = rows"
  by (induction xs) auto

text \<open>Seeding a table whose key column is \<open>key\<close> provides every seed and keeps what is there.\<close>

lemma fold_seeds:
  assumes "\<And>x rows. set rows \<subseteq> set (f x rows)" and "\<And>x rows. seed x \<in> key ` set (f x rows)"
  shows "set rows \<subseteq> set (fold f xs rows) \<and> seed ` set xs \<subseteq> key ` set (fold f xs rows)"
proof (induction xs arbitrary: rows)
  case (Cons x xs)
  from Cons [of "f x rows"] assms(1) [of rows x] assms(2) [of x rows] show ?case by auto
qed simp

lemma seeded_settings: "fst ` set runtime_defaults \<subseteq> st_key ` set (seed_settings at rows)"
  unfolding seed_settings_def by (rule fold_seeds [THEN conjunct2]) (auto simp: seed_setting_def)

lemma seeded_adapter_rows: "id ` set names \<subseteq> ar_name ` set (fold (seed_adapter at) names rows)"
  by (rule fold_seeds [THEN conjunct2]) (auto simp: seed_adapter_def)

lemma seeded_components: "id ` set names \<subseteq> t_component ` set (fold (seed_component at) names rows)"
  by (rule fold_seeds [THEN conjunct2]) (auto simp: seed_component_def)

lemma seed_settings_again: "seed_settings at' (seed_settings at rows) = seed_settings at rows"
  unfolding seed_settings_def [of at']
  using seeded_settings [of at rows] by (intro fold_present) (auto simp: seed_setting_def)

lemma seed_adapters_again:
  "fold (seed_adapter at') names (fold (seed_adapter at) names rows) = fold (seed_adapter at) names rows"
  using seeded_adapter_rows [of names at rows] by (intro fold_present) (auto simp: seed_adapter_def)

lemma seed_components_again:
  "fold (seed_component at') names (fold (seed_component at) names rows) = fold (seed_component at) names rows"
  using seeded_components [of names at rows] by (intro fold_present) (auto simp: seed_component_def)

lemma seed_rows_again: "seed_rows at' (seed_rows at d) = seed_rows at d"
  by (simp add: seed_rows_def seed_settings_again seed_adapters_again seed_components_again)

lemma map_of_sorted: "distinct (map fst xs) \<Longrightarrow> map_of (sort_key fst xs) = map_of xs"
  by (intro map_of_eqI) (auto simp: distinct_map inj_on_def map_of_eq_Some_iff)

lemma sorted_below_last: "sorted xs \<Longrightarrow> x \<in> set xs \<Longrightarrow> x \<le> last xs"
  by (induction xs) auto

text \<open>The test on the newest recorded version rejects exactly the databases with a newer one.\<close>

lemma newest_version:
  "xs \<noteq> [] \<and> fst (last (sort_key fst xs)) > n \<longleftrightarrow> (\<exists>v \<in> fst ` set xs. v > n)" for n :: "'a :: linorder"
proof
  assume "xs \<noteq> [] \<and> fst (last (sort_key fst xs)) > n"
  moreover from this have "sort_key fst xs \<noteq> []" by (metis length_0_conv length_sort)
  then have "last (sort_key fst xs) \<in> set (sort_key fst xs)" by (rule last_in_set)
  ultimately show "\<exists>v \<in> fst ` set xs. v > n" by auto
next
  assume "\<exists>v \<in> fst ` set xs. v > n"
  then obtain x where x: "x \<in> set xs" "fst x > n" by auto
  then have ne: "sort_key fst xs \<noteq> []" by (metis empty_iff empty_set set_sort)
  have "fst x \<le> last (map fst (sort_key fst xs))" using x by (intro sorted_below_last) simp_all
  with x ne show "xs \<noteq> [] \<and> fst (last (sort_key fst xs)) > n" by (auto simp: last_map)
qed

lemma apply_migrations_alt:
  "apply_migrations digest object_text at d =
     (if \<exists>v \<in> fst ` set (ld_migrations d). v > 2 then Err (NewerSchema (fst (last (sort_key fst (ld_migrations d)))))
      else rbind (apply_migration digest at (sort_key fst (ld_migrations d)) (1, ''initial'') d) (\<lambda>d1.
           rbind (apply_migration digest at (sort_key fst (ld_migrations d)) (2, ''admin_webui'') d1)
             (seed_and_validate object_text at)))"
proof -
  have "sort_key fst (ld_migrations d) \<noteq> [] \<longleftrightarrow> ld_migrations d \<noteq> []" by (metis length_0_conv length_sort)
  with newest_version [of "ld_migrations d" 2] show ?thesis
    by (simp add: apply_migrations_def migrations_def Let_def rbind_assoc)
qed

text \<open>
  The migrations are idempotent: a database they accept is accepted again at any time and left as it
  is. On the way there they keep the items, their links, events, evidence and stored responses, and
  the inventory of backups, and leave valid settings.
\<close>

theorem migrations_idempotent:
  assumes "apply_migrations digest object_text at d = Ok d'" and "distinct (map fst (ld_migrations d))"
    and "distinct (map st_key (setting_table (ld_admin d)))"
  shows "apply_migrations digest object_text at' d' = Ok d' \<and> item_data (ld_items d') = item_data (ld_items d)
     \<and> ld_backups d' = ld_backups d \<and> settings_ok (setting_table (ld_admin d'))"
proof -
  let ?applied = "sort_key fst (ld_migrations d)"
  from assms(1) obtain d1 d2 where d: "apply_migration digest at ?applied (1, ''initial'') d = Inr d1"
    "apply_migration digest at ?applied (2, ''admin_webui'') d1 = Inr d2"
    "seed_and_validate object_text at d2 = Inr d'" by (rule apply_migrations_Inr)
  note k = apply_migration_keeps(5,6) [OF d(1)] apply_migration_keeps(5,6) [OF d(2)] d(3) [unfolded seed_and_validate_Inr]
  have low: "\<not> (\<exists>v \<in> fst ` set (ld_migrations d). v > 2)" using assms(1) by (auto simp: apply_migrations_alt split: if_splits)
  have "distinct (map fst (ld_migrations d'))" "\<not> (\<exists>v \<in> fst ` set (ld_migrations d'). v > 2)"
    and "map_of (ld_migrations d') 1 = Some (migration_identity digest (1, ''initial''))"
    and "map_of (ld_migrations d') 2 = Some (migration_identity digest (2, ''admin_webui''))"
    using k assms(2) low
    by (auto simp: map_of_sorted map_of_eq_None_iff map_add_def split: if_splits)
  moreover have "seed_and_validate object_text at' d' = Ok d'"
    using k by (auto simp: seed_and_validate_Inr seed_rows_again)
  ultimately have "apply_migrations digest object_text at' d' = Ok d'"
    by (simp add: apply_migrations_alt map_of_sorted apply_migration_def)
  with apply_migrations_keeps [OF assms(1)] assms(3) show ?thesis by blast
qed

text \<open>A database that the program creates, and opens again later.\<close>

definition fresh_live_db :: live_db where
  "fresh_live_db =
     (seed_rows 0 (empty_live_db\<lparr>ld_scripts := [1, 2]\<rparr>))\<lparr>ld_migrations :=
        [(1, migration_identity (\<lambda>_. []) (1, ''initial'')), (2, migration_identity (\<lambda>_. []) (2, ''admin_webui''))]\<rparr>"

lemma fresh_created: "apply_migrations (\<lambda>_. []) (\<lambda>_. False) 0 empty_live_db = Ok fresh_live_db"
proof -
  have e: "fst ` set (ld_migrations empty_live_db) = {}" "ld_migrations empty_live_db = []"
    "ld_scripts empty_live_db = []" by (simp_all add: empty_live_db_def)
  have "settings_ok (seed_settings 0 [])" by (rule seed_empty_ok)
  moreover have "distinct (map st_key (seed_settings 0 []))" by (rule seed_settings_distinct) simp
  ultimately have "validate_runtime_settings (seed_settings 0 []) = Ok ()" by (simp add: validate_runtime_settings_iff)
  moreover have "validate_adapters (\<lambda>_. False) (fold (seed_adapter 0) seeded_adapters []) = Ok ()"
    by (simp add: validate_adapters_def seeded_adapters_def seed_adapter_def)
  moreover have "validate_service_runtime (fold (seed_component 0) service_components []) = Ok ()"
    by (simp add: validate_service_runtime_def service_components_def seed_component_def)
  ultimately have "seed_and_validate (\<lambda>_. False) 0 fresh_live_db = Ok fresh_live_db"
    by (auto simp: seed_and_validate_Inr fresh_live_db_def seed_rows_def empty_live_db_def no_items_def no_admin_def
        seed_settings_again seed_adapters_again seed_components_again)
  then show ?thesis
    by (simp add: apply_migrations_alt e apply_migration_def run_script_def create_tables_def fresh_live_db_def
        seed_rows_def empty_live_db_def)
qed

theorem migrations_idempotent_witness:
  "apply_migrations (\<lambda>_. []) (\<lambda>_. False) 0 empty_live_db = Ok fresh_live_db
     \<and> apply_migrations (\<lambda>_. []) (\<lambda>_. False) 5 fresh_live_db = Ok fresh_live_db
     \<and> settings_ok (setting_table (ld_admin fresh_live_db))"
proof -
  have "distinct (map fst (ld_migrations empty_live_db))" "distinct (map st_key (setting_table (ld_admin empty_live_db)))"
    by (simp_all add: empty_live_db_def no_admin_def)
  from migrations_idempotent [OF fresh_created this] fresh_created show ?thesis by blast
qed

end
