(* ===== verification/Outcomes.thy ===== *)
theory Outcomes
  imports Effects
begin

text \<open>
  What an operation with a state ensures, in the style of a Hoare logic with three postconditions:
  for its value, for an error, and for a state in which the process stopped.
\<close>

definition after :: "('e, 'a) res \<Rightarrow> ('a \<Rightarrow> 's \<Rightarrow> bool) \<Rightarrow> ('s \<Rightarrow> bool) \<Rightarrow> ('s \<Rightarrow> bool) \<Rightarrow> 's \<Rightarrow> bool" where
  "after r Q E X s = (case r of Inr x \<Rightarrow> Q x s | Inl (Fail e) \<Rightarrow> E s | Inl Panic \<Rightarrow> X s | Inl Diverge \<Rightarrow> X s)"

definition triple ::
  "('s \<Rightarrow> bool) \<Rightarrow> ('s, 'e, 'a) effect \<Rightarrow> ('a \<Rightarrow> 's \<Rightarrow> bool) \<Rightarrow> ('s \<Rightarrow> bool) \<Rightarrow> ('s \<Rightarrow> bool) \<Rightarrow> bool" where
  "triple P m Q E X \<longleftrightarrow> (\<forall>s. P s \<longrightarrow> after (fst (m s)) Q E X (snd (m s)))"

lemma after_simps [simp]:
  "after (Inr x) Q E X s = Q x s" "after (Inl (Fail e)) Q E X s = E s"
  "after (Inl Panic) Q E X s = X s" "after (Inl Diverge) Q E X s = X s"
  by (simp_all add: after_def)

lemma tripleI: "(\<And>s r s'. P s \<Longrightarrow> m s = (r, s') \<Longrightarrow> after r Q E X s') \<Longrightarrow> triple P m Q E X"
  unfolding triple_def by (metis prod.collapse)

lemma tripleD: "triple P m Q E X \<Longrightarrow> P s \<Longrightarrow> m s = (r, s') \<Longrightarrow> after r Q E X s'"
  unfolding triple_def by (metis fst_conv snd_conv)

lemma triple_bind:
  assumes "triple P m Q E X" and "\<And>x. triple (Q x) (f x) R E X"
  shows "triple P (mbind m f) R E X"
proof (rule tripleI)
  fix s r s' assume P: "P s" and e: "mbind m f s = (r, s')"
  obtain a s1 where m: "m s = (a, s1)" by (cases "m s")
  note a = tripleD [OF assms(1) P m]
  show "after r R E X s'"
  proof (cases a)
    case (Inl x)
    with e m a show ?thesis by (cases x) (auto simp: mbind_def)
  next
    case (Inr x)
    with e m a tripleD [OF assms(2)] show ?thesis by (auto simp: mbind_def)
  qed
qed

lemma triple_conseq:
  assumes "triple P' m Q' E' X'" and "\<And>s. P s \<Longrightarrow> P' s" and "\<And>x s. Q' x s \<Longrightarrow> Q x s"
    and "\<And>s. E' s \<Longrightarrow> E s" and "\<And>s. X' s \<Longrightarrow> X s"
  shows "triple P m Q E X"
proof (rule tripleI)
  fix s r s' assume "P s" "m s = (r, s')"
  with tripleD [OF assms(1)] assms(2-) show "after r Q E X s'"
    by (fastforce simp: after_def split: sum.splits failure.splits)
qed

lemma triple_pre: "triple P' m Q E X \<Longrightarrow> (\<And>s. P s \<Longrightarrow> P' s) \<Longrightarrow> triple P m Q E X"
  by (rule triple_conseq)

lemma triple_mlift: "(\<And>s. P s \<Longrightarrow> after r Q E X s) \<Longrightarrow> triple P (mlift r) Q E X"
  by (rule tripleI) (simp add: mlift_def)

lemma triple_attempt:
  assumes "triple P m (\<lambda>x. Q (Inr x)) (\<lambda>s. \<forall>e. Q (Inl e) s) X"
  shows "triple P (attempt m) Q E X"
proof (rule tripleI)
  fix s r s' assume P: "P s" and e: "attempt m s = (r, s')"
  obtain a s1 where m: "m s = (a, s1)" by (cases "m s")
  show "after r Q E X s'"
    using tripleD [OF assms P m] e m by (auto simp: attempt_def after_def split: sum.splits failure.splits)
qed

lemma triple_or_else: "triple P m Q E X \<Longrightarrow> triple P (or_else m f) Q E X"
proof (rule tripleI)
  fix s r s' assume t: "triple P m Q E X" and P: "P s" and e: "or_else m f s = (r, s')"
  obtain a s1 where m: "m s = (a, s1)" by (cases "m s")
  show "after r Q E X s'"
    using tripleD [OF t P m] e m by (auto simp: or_else_def after_def map_err_def split: sum.splits failure.splits)
qed

lemma triple_ensures: "ensures (keeping P) m \<Longrightarrow> triple P m (\<lambda>_. P) P P"
proof (rule tripleI)
  fix s r s' assume "ensures (keeping P) m" "P s" "m s = (r, s')"
  from ensuresD [OF this(1,3)] this(2) have "P s'" by (simp add: keeping_def)
  then show "after r (\<lambda>_. P) P P s'" by (auto simp: after_def split: sum.splits failure.splits)
qed

lemma ensures_triple: "triple P m (\<lambda>_. P) P P \<Longrightarrow> ensures (keeping P) m"
proof (rule ensuresI)
  fix s r s' assume "triple P m (\<lambda>_. P) P P" "m s = (r, s')"
  from tripleD [OF this(1) _ this(2)] show "keeping P s s'"
    by (auto simp: keeping_def after_def split: sum.splits failure.splits)
qed

lemma triple_conj:
  assumes "triple P m Q E X" and "triple P' m Q' E' X'"
  shows "triple (\<lambda>s. P s \<and> P' s) m (\<lambda>x s. Q x s \<and> Q' x s) (\<lambda>s. E s \<and> E' s) (\<lambda>s. X s \<and> X' s)"
proof (rule tripleI)
  fix s r s' assume "P s \<and> P' s" "m s = (r, s')"
  with tripleD [OF assms(1)] tripleD [OF assms(2)]
  show "after r (\<lambda>x s. Q x s \<and> Q' x s) (\<lambda>s. E s \<and> E' s) (\<lambda>s. X s \<and> X' s) s'"
    by (fastforce simp: after_def split: sum.splits failure.splits)
qed

lemma ensures_attempt: "ensures R m \<Longrightarrow> ensures R (attempt m)"
proof (rule ensuresI)
  fix s r s' assume e: "ensures R m" "attempt m s = (r, s')"
  obtain a s1 where m: "m s = (a, s1)" by (cases "m s")
  with ensuresD [OF e(1) m] e(2) show "R s s'" by (auto simp: attempt_def split: sum.splits failure.splits)
qed

lemma ensures_or_else: "ensures R m \<Longrightarrow> ensures R (or_else m f)"
proof (rule ensuresI)
  fix s r s' assume e: "ensures R m" "or_else m f s = (r, s')"
  obtain a s1 where m: "m s = (a, s1)" by (cases "m s")
  with ensuresD [OF e(1) m] e(2) show "R s s'" by (auto simp: or_else_def)
qed

lemma ensures_mono: "ensures R m \<Longrightarrow> (\<And>s s'. R s s' \<Longrightarrow> R' s s') \<Longrightarrow> ensures R' m"
  by (simp add: ensures_def)

text \<open>An operation that first looks at its state.\<close>

lemma ensures_state: "(\<And>x. ensures R (m x)) \<Longrightarrow> ensures R (\<lambda>s. m s s)"
  by (simp add: ensures_def)

end
