(* ===== verification/Storage.thy ===== *)
theory Storage
  imports Migrations Outcomes "HOL-Library.AList"
begin

text \<open>
  The files of the program and the database behind them, as \<open>src/admin/backup.rs\<close>,
  \<open>src/db/manager.rs\<close> and \<open>src/db/transactions.rs\<close> use them: the backup directory, the live
  database with its write-ahead log, and the file a replacement is staged in. Every call to the
  file system or to SQLite may proceed, fail, or be the last one of the process, before or after it
  took effect; what a write leaves behind that did not finish is a parameter. SQLite is a
  parameter: how it reads a file with a log and how it writes them. A call that does not leave what
  SQLite promises to leave counts as failed, so that nothing is assumed of it.
\<close>

section \<open>Files\<close>

type_synonym bytes = "nat list"

text \<open>Names in the backup directory, the live database and its log, and the staged replacement of an operation.\<close>

datatype file_path = Backup ustring | LiveFile | LiveLog | Staged ustring

datatype fate = Proceeds | Fails | Dies bool

datatype backup_error =
    BackupInvalid
  | BackupLimitExceeded
  | BackupNotFound
  | BackupDatabase
  | BackupIo
  | RestoreConfirmation
  | RestoreFailed
  | BackupWorkload

text \<open>\<open>sq_integrity\<close> and \<open>sq_quick\<close> are the answers of the checks; \<open>ev_keeps_log\<close> says whether the log
  survives the closing of the connections.\<close>

record storage_env =
  ev_fate :: "nat \<Rightarrow> fate"
  ev_debris :: "nat \<Rightarrow> bytes"
  ev_keeps_log :: "nat \<Rightarrow> bool"
  ev_now :: "nat \<Rightarrow> instant"
  ev_ids :: "nat \<Rightarrow> uuid"
  sq_read :: "bytes \<Rightarrow> bytes option \<Rightarrow> live_db option"
  sq_integrity :: "bytes \<Rightarrow> bytes option \<Rightarrow> string"
  sq_quick :: "bytes \<Rightarrow> bytes option \<Rightarrow> string"
  sq_vacuum :: "live_db \<Rightarrow> bytes"
  sq_log :: "bytes \<Rightarrow> bytes option \<Rightarrow> live_db \<Rightarrow> bytes"
  sq_flush :: "bytes \<Rightarrow> bytes option \<Rightarrow> bytes"
  sq_empty :: bytes
  sq_now :: "nat \<Rightarrow> stamp"
  sq_digest :: "int \<Rightarrow> ustring"
  sq_object_text :: "adapter_row \<Rightarrow> bool"

record storage =
  fs_disk :: "(file_path \<times> bytes) list"
  fs_open :: bool
  fs_step :: nat
  fs_clock :: nat
  fs_ids :: nat

type_synonym ('x, 'a) stored = "('x storage_scheme, backup_error, 'a) effect"

definition file_at :: "'x storage_scheme \<Rightarrow> file_path \<Rightarrow> bytes option" where
  "file_at s p = map_of (fs_disk s) p"

definition put_file :: "file_path \<Rightarrow> bytes \<Rightarrow> 'x storage_scheme \<Rightarrow> 'x storage_scheme" where
  "put_file p b s = s\<lparr>fs_disk := AList.update p b (fs_disk s)\<rparr>"

definition drop_file :: "file_path \<Rightarrow> 'x storage_scheme \<Rightarrow> 'x storage_scheme" where
  "drop_file p s = s\<lparr>fs_disk := AList.delete p (fs_disk s)\<rparr>"

text \<open>
  One call to the outside, with what it does when it proceeds and what is left when it does not. A
  process that dies does not go on: the operation diverges in that state.
\<close>

definition system_call ::
  "'z storage_env_scheme \<Rightarrow> backup_error \<Rightarrow> ('x storage_scheme \<Rightarrow> 'x storage_scheme)
     \<Rightarrow> (nat \<Rightarrow> 'x storage_scheme \<Rightarrow> 'x storage_scheme) \<Rightarrow> ('x, unit) stored" where
  "system_call env e finished broken = (\<lambda>s.
     let n = fs_step s; s1 = s\<lparr>fs_step := n + 1\<rparr> in
     case ev_fate env n of
       Proceeds \<Rightarrow> (Ok (), finished s1)
     | Fails \<Rightarrow> (Err e, broken n s1)
     | Dies landed \<Rightarrow> (Inl Diverge, if landed then finished s1 else broken n s1))"

text \<open>Opening, reading, flushing and changing permissions change no contents.\<close>

definition quiet_call :: "'z storage_env_scheme \<Rightarrow> backup_error \<Rightarrow> ('x, unit) stored" where
  "quiet_call env e = system_call env e (\<lambda>s. s) (\<lambda>_ s. s)"

definition read_file :: "'z storage_env_scheme \<Rightarrow> backup_error \<Rightarrow> file_path \<Rightarrow> ('x, bytes) stored" where
  "read_file env e p = mbind (quiet_call env e) (\<lambda>_ s. (ok_or e (file_at s p), s))"

text \<open>\<open>OpenOptions::create_new\<close> and \<open>File::create\<close>.\<close>

definition create_new :: "'z storage_env_scheme \<Rightarrow> file_path \<Rightarrow> ('x, unit) stored" where
  "create_new env p = (\<lambda>s.
     if file_at s p \<noteq> None then (Err BackupIo, s) else system_call env BackupIo (put_file p []) (\<lambda>_ s. s) s)"

definition create_file :: "'z storage_env_scheme \<Rightarrow> file_path \<Rightarrow> ('x, unit) stored" where
  "create_file env p = system_call env BackupIo (put_file p []) (\<lambda>_ s. s)"

definition append_file :: "'z storage_env_scheme \<Rightarrow> file_path \<Rightarrow> bytes \<Rightarrow> ('x, unit) stored" where
  "append_file env p b = (\<lambda>s.
     let old = (case file_at s p of None \<Rightarrow> [] | Some x \<Rightarrow> x) in
     system_call env BackupIo (put_file p (old @ b)) (\<lambda>n. put_file p (old @ ev_debris env n)) s)"

definition rename_file :: "'z storage_env_scheme \<Rightarrow> file_path \<Rightarrow> file_path \<Rightarrow> ('x, unit) stored" where
  "rename_file env p q = (\<lambda>s.
     case file_at s p of
       None \<Rightarrow> (Err BackupIo, s)
     | Some b \<Rightarrow> system_call env BackupIo (\<lambda>s. put_file q b (drop_file p s)) (\<lambda>_ s. s) s)"

definition copy_file :: "'z storage_env_scheme \<Rightarrow> file_path \<Rightarrow> file_path \<Rightarrow> ('x, unit) stored" where
  "copy_file env p q = (\<lambda>s.
     case file_at s p of
       None \<Rightarrow> (Err BackupIo, s)
     | Some b \<Rightarrow> system_call env BackupIo (put_file q b) (\<lambda>n. put_file q (ev_debris env n)) s)"

text \<open>An error is logged and ignored.\<close>

definition remove_if_exists :: "'z storage_env_scheme \<Rightarrow> file_path \<Rightarrow> ('x, unit) stored" where
  "remove_if_exists env p = mbind (attempt (system_call env BackupIo (drop_file p) (\<lambda>_ s. s))) (\<lambda>_. mlift (Ok ()))"

definition remove_file :: "'z storage_env_scheme \<Rightarrow> file_path \<Rightarrow> ('x, unit) stored" where
  "remove_file env p = (\<lambda>s.
     if file_at s p = None then (Err BackupIo, s) else system_call env BackupIo (drop_file p) (\<lambda>_ s. s) s)"

definition protect_file :: "'z storage_env_scheme \<Rightarrow> file_path \<Rightarrow> ('x, unit) stored" where
  "protect_file env p = quiet_call env BackupIo"

definition protect_directory :: "'z storage_env_scheme \<Rightarrow> ('x, unit) stored" where
  "protect_directory env = quiet_call env BackupIo"

text \<open>Opening the file and flushing it.\<close>

definition sync_file :: "'z storage_env_scheme \<Rightarrow> file_path \<Rightarrow> ('x, unit) stored" where
  "sync_file env p = mbind (read_file env BackupIo p) (\<lambda>_. quiet_call env BackupIo)"

definition sync_directory :: "'z storage_env_scheme \<Rightarrow> ('x, unit) stored" where
  "sync_directory env = quiet_call env BackupIo"

definition storage_now :: "'z storage_env_scheme \<Rightarrow> ('x, instant) stored" where
  "storage_now env = (\<lambda>s. (Ok (ev_now env (fs_clock s)), s\<lparr>fs_clock := fs_clock s + 1\<rparr>))"

definition storage_id :: "'z storage_env_scheme \<Rightarrow> ('x, uuid) stored" where
  "storage_id env = (\<lambda>s. (Ok (ev_ids env (fs_ids s)), s\<lparr>fs_ids := fs_ids s + 1\<rparr>))"

section \<open>The live database\<close>

definition live_view :: "'z storage_env_scheme \<Rightarrow> 'x storage_scheme \<Rightarrow> live_db option" where
  "live_view env s = (case file_at s LiveFile of None \<Rightarrow> None | Some b \<Rightarrow> sq_read env b (file_at s LiveLog))"

text \<open>A connection of the pool and a query on it: what it sees.\<close>

definition live_query :: "'z storage_env_scheme \<Rightarrow> ('x, live_db) stored" where
  "live_query env =
     mbind (quiet_call env BackupDatabase) (\<lambda>_ s.
       (if fs_open s then ok_or BackupDatabase (live_view env s) else Err BackupDatabase, s))"

text \<open>A statement inside a transaction that works on its own copy; nothing is visible before the commit.\<close>

definition statement_call :: "'z storage_env_scheme \<Rightarrow> ('x, unit) stored" where
  "statement_call env = quiet_call env BackupDatabase"

definition commit_live :: "'z storage_env_scheme \<Rightarrow> live_db \<Rightarrow> ('x, unit) stored" where
  "commit_live env d = (\<lambda>s.
     case file_at s LiveFile of
       None \<Rightarrow> (Err BackupDatabase, s)
     | Some m \<Rightarrow>
         let l = sq_log env m (file_at s LiveLog) d in
         if sq_read env m (Some l) \<noteq> Some d then (Err BackupDatabase, s)
         else system_call env BackupDatabase (put_file LiveLog l) (\<lambda>_ s. s) s)"

text \<open>\<open>VACUUM INTO\<close> refuses an existing file.\<close>

definition vacuum_into :: "'z storage_env_scheme \<Rightarrow> file_path \<Rightarrow> ('x, unit) stored" where
  "vacuum_into env p =
     mbind (live_query env) (\<lambda>d s.
       let b = sq_vacuum env d in
       if file_at s p \<noteq> None \<or> sq_read env b None \<noteq> Some d then (Err BackupDatabase, s)
       else system_call env BackupDatabase (put_file p b) (\<lambda>n. put_file p (ev_debris env n)) s)"

section \<open>Maintenance of the pool\<close>

definition drain_log :: "bytes \<Rightarrow> 'x storage_scheme \<Rightarrow> 'x storage_scheme" where
  "drain_log m s = drop_file LiveLog (put_file LiveFile m s)"

text \<open>The last connection that closes writes the log back, whether or not somebody waits for it.\<close>

definition connections_closed :: "'z storage_env_scheme \<Rightarrow> 'x storage_scheme \<Rightarrow> 'x storage_scheme" where
  "connections_closed env s =
     (case file_at s LiveFile of
        None \<Rightarrow> s
      | Some m \<Rightarrow>
          let m' = sq_flush env m (file_at s LiveLog) in
          if ev_keeps_log env (fs_step s) \<or> sq_read env m' None \<noteq> sq_read env m (file_at s LiveLog) then s
          else drain_log m' s)"

text \<open>\<open>checkpoint_and_close\<close>: the pool is closed whether or not the checkpoint succeeds.\<close>

definition checkpoint_and_close :: "'z storage_env_scheme \<Rightarrow> ('x, unit) stored" where
  "checkpoint_and_close env = (\<lambda>s.
     if \<not> fs_open s then (Err BackupDatabase, s)
     else
       let s1 = s\<lparr>fs_open := False\<rparr> in
       case file_at s1 LiveFile of
         None \<Rightarrow> (Err BackupDatabase, s1)
       | Some m \<Rightarrow>
           let m' = sq_flush env m (file_at s1 LiveLog) in
           if sq_read env m' None \<noteq> sq_read env m (file_at s1 LiveLog) then (Err BackupDatabase, s1)
           else system_call env BackupDatabase (drain_log m') (\<lambda>_. connections_closed env) s1)"

definition quick_check :: "'z storage_env_scheme \<Rightarrow> ('x, unit) stored" where
  "quick_check env =
     mbind (quiet_call env BackupDatabase) (\<lambda>_ s.
       (case file_at s LiveFile of
          None \<Rightarrow> Err BackupDatabase
        | Some m \<Rightarrow> guard (sq_quick env m (file_at s LiveLog) = ''ok'') BackupDatabase, s))"

text \<open>\<open>migrations::apply\<close> in its transaction.\<close>

definition migrate_live :: "'z storage_env_scheme \<Rightarrow> ('x, unit) stored" where
  "migrate_live env =
     mbind (quiet_call env BackupDatabase) (\<lambda>_ s.
       mbind (mlift (rbind (ok_or BackupDatabase (live_view env s)) (\<lambda>d.
                map_err (\<lambda>_. BackupDatabase)
                  (apply_migrations (sq_digest env) (sq_object_text env) (sq_now env (fs_step s)) d))))
         (commit_live env) s)"

definition open_pool :: "'z storage_env_scheme \<Rightarrow> ('x, unit) stored" where
  "open_pool env =
     mbind (system_call env BackupDatabase
              (\<lambda>s. if file_at s LiveFile = None then put_file LiveFile (sq_empty env) s else s) (\<lambda>_ s. s)) (\<lambda>_.
     mbind (quick_check env) (\<lambda>_.
     mbind (migrate_live env) (\<lambda>_.
     mbind (quick_check env) (\<lambda>_. quiet_call env BackupDatabase))))"

text \<open>A pool that does not pass its checks is dropped.\<close>

definition reopen :: "'z storage_env_scheme \<Rightarrow> ('x, unit) stored" where
  "reopen env =
     mbind (attempt (open_pool env)) (\<lambda>r s.
       case r of
         Inr _ \<Rightarrow> (Ok (), s\<lparr>fs_open := True\<rparr>)
       | Inl e \<Rightarrow> (Err e, connections_closed env s))"

definition clear_scheduler_leases :: "'z storage_env_scheme \<Rightarrow> ('x, unit) stored" where
  "clear_scheduler_leases env =
     mbind (live_query env) (\<lambda>d.
       commit_live env (d\<lparr>ld_items := (ld_items d)\<lparr>lease_table := []\<rparr>\<rparr>))"

section \<open>Reading the disk\<close>

lemma file_at_updates [simp]:
  "file_at (put_file p b s) q = (if q = p then Some b else file_at s q)"
  "file_at (drop_file p s) q = (if q = p then None else file_at s q)"
  "file_at (s\<lparr>fs_step := n\<rparr>) q = file_at s q" "file_at (s\<lparr>fs_clock := n\<rparr>) q = file_at s q"
  "file_at (s\<lparr>fs_ids := n\<rparr>) q = file_at s q" "file_at (s\<lparr>fs_open := b'\<rparr>) q = file_at s q"
  by (simp_all add: file_at_def put_file_def drop_file_def update_conv' delete_conv')

lemma fs_open_updates [simp]:
  "fs_open (put_file p b s) = fs_open s" "fs_open (drop_file p s) = fs_open s"
  "fs_ids (put_file p b s) = fs_ids s" "fs_ids (drop_file p s) = fs_ids s"
  by (simp_all add: put_file_def drop_file_def)

text \<open>The items of the live database, with all that hangs on them.\<close>

definition live_items where
  "live_items env s = map_option (\<lambda>d. item_data (ld_items d)) (live_view env s)"

lemma live_view_cong:
  "file_at s' LiveFile = file_at s LiveFile \<Longrightarrow> file_at s' LiveLog = file_at s LiveLog \<Longrightarrow> live_view env s' = live_view env s"
  by (simp add: live_view_def split: option.split)

lemma live_view_updates [simp]:
  "live_view env (s\<lparr>fs_step := n\<rparr>) = live_view env s" "live_view env (s\<lparr>fs_open := b\<rparr>) = live_view env s"
  by (simp_all add: live_view_def cong: option.case_cong)

text \<open>
  Only the files of \<open>T\<close> change, and identifiers are not given out twice (\<open>touches\<close>); moreover the live items stay (\<open>unmoved\<close>); other files may
  disappear but not change (\<open>tidy\<close>).
\<close>

definition touches :: "file_path set \<Rightarrow> 'x storage_scheme \<Rightarrow> 'x storage_scheme \<Rightarrow> bool" where
  "touches T s s' \<longleftrightarrow> fs_open s' = fs_open s \<and> fs_ids s \<le> fs_ids s' \<and> (\<forall>p. p \<notin> T \<longrightarrow> file_at s' p = file_at s p)"

definition unmoved :: "'z storage_env_scheme \<Rightarrow> file_path set \<Rightarrow> 'x storage_scheme \<Rightarrow> 'x storage_scheme \<Rightarrow> bool" where
  "unmoved env T s s' \<longleftrightarrow> touches T s s' \<and> live_items env s' = live_items env s"

definition tidy :: "'z storage_env_scheme \<Rightarrow> file_path set \<Rightarrow> 'x storage_scheme \<Rightarrow> 'x storage_scheme \<Rightarrow> bool" where
  "tidy env T s s' \<longleftrightarrow> fs_open s' = fs_open s \<and> live_items env s' = live_items env s
     \<and> (\<forall>p. p \<notin> T \<longrightarrow> file_at s' p \<in> {file_at s p, None})"

lemma touches_order [simp]: "reflp (touches T)" "transp (touches T)"
  by (auto simp: reflp_def transp_def touches_def)

lemma unmoved_order [simp]: "reflp (unmoved env T)" "transp (unmoved env T)"
  by (auto simp: reflp_def transp_def unmoved_def touches_def)

lemma tidy_order [simp]: "reflp (tidy env T)" "transp (tidy env T)"
  by (auto simp: reflp_def tidy_def intro!: transpI) (metis option.distinct(1))+

lemma ensures_touches_mono: "ensures (touches T) m \<Longrightarrow> T \<subseteq> T' \<Longrightarrow> ensures (touches T') m"
  by (auto simp: ensures_def touches_def)

lemma ensures_unmoved_mono: "ensures (unmoved env T) m \<Longrightarrow> T \<subseteq> T' \<Longrightarrow> ensures (unmoved env T') m"
  by (auto simp: ensures_def touches_def unmoved_def)

lemma ensures_unmoved:
  "ensures (touches T) m \<Longrightarrow> LiveFile \<notin> T \<Longrightarrow> LiveLog \<notin> T \<Longrightarrow> ensures (unmoved env T) m"
  by (auto simp: ensures_def touches_def unmoved_def live_items_def intro!: arg_cong [where f = "map_option _"] live_view_cong)

lemma ensures_tidy: "ensures (unmoved env T) m \<Longrightarrow> ensures (tidy env T) m"
  by (auto simp: ensures_def touches_def unmoved_def tidy_def)

named_theorems touches_intros \<open>which files a call changes\<close>

lemma touches_mbind [touches_intros]:
  "ensures (touches T) m \<Longrightarrow> (\<And>x. ensures (touches T) (f x)) \<Longrightarrow> ensures (touches T) (mbind m f)"
  by (rule ensures_mbind) simp_all

lemma touches_mlift [touches_intros]: "ensures (touches T) (mlift r)"
  by (rule ensures_mlift) simp

lemma touches_attempt [touches_intros]: "ensures (touches T) m \<Longrightarrow> ensures (touches T) (attempt m)"
  by (rule ensures_attempt)

lemma touches_or_else [touches_intros]: "ensures (touches T) m \<Longrightarrow> ensures (touches T) (or_else m f)"
  by (rule ensures_or_else)

lemma touches_if [touches_intros]:
  "ensures (touches T) m \<Longrightarrow> ensures (touches T) m' \<Longrightarrow> ensures (touches T) (if b then m else m')"
  by simp

lemma touches_read [touches_intros]: "ensures (touches T) (\<lambda>s. (r s, s))"
  by (simp add: ensures_def touches_def)

lemma touches_system_call:
  assumes "\<And>s. touches T s (finished s)" and "\<And>n s. touches T s (broken n s)"
  shows "ensures (touches T) (system_call env e finished broken)"
proof (rule ensuresI)
  fix s r s' assume e: "system_call env e finished broken s = (r, s')"
  let ?s = "s\<lparr>fs_step := fs_step s + 1\<rparr>"
  have "s' = finished ?s \<or> s' = broken (fs_step s) ?s"
    using e by (auto simp: system_call_def Let_def split: fate.splits if_splits)
  then have "touches T ?s s'" using assms by blast
  moreover have "touches T s ?s" by (simp add: touches_def)
  ultimately show "touches T s s'" using touches_order(2) by (blast dest: transpD)
qed

lemma touches_quiet [touches_intros]: "ensures (touches T) (quiet_call env e)"
  unfolding quiet_call_def by (rule touches_system_call) (simp_all add: touches_def)

lemma touches_reading [touches_intros]:
  "ensures (touches T) (read_file env e p)" "ensures (touches T) (protect_file env p)"
  "ensures (touches T) (protect_directory env)" "ensures (touches T) (sync_file env p)"
  "ensures (touches T) (sync_directory env)" "ensures (touches T) (statement_call env)"
  "ensures (touches T) (storage_now env)" "ensures (touches T) (storage_id env)"
  "ensures (touches T) (live_query env)" "ensures (touches T) (quick_check env)"
  by (auto simp: read_file_def protect_file_def protect_directory_def sync_file_def sync_directory_def
      statement_call_def live_query_def quick_check_def intro!: touches_intros)
    (auto simp: storage_now_def storage_id_def ensures_def touches_def)

lemma touches_refl [simp]: "touches T s s"
  by (simp add: touches_def)

lemma touches_put [simp]: "p \<in> T \<Longrightarrow> touches T s (put_file p b s)" "p \<in> T \<Longrightarrow> touches T s (drop_file p s)"
  by (simp_all add: touches_def)

lemma touches_call:
  assumes "\<And>s. touches T s (finished s)" and "\<And>n s. touches T s (broken n s)"
  shows "touches T s (snd (system_call env e finished broken s))"
  using touches_system_call [of T finished broken env e] assms by (simp add: ensures_def)

lemma touches_writing [touches_intros]:
  "p \<in> T \<Longrightarrow> ensures (touches T) (create_new env p)" "p \<in> T \<Longrightarrow> ensures (touches T) (create_file env p)"
  "p \<in> T \<Longrightarrow> ensures (touches T) (append_file env p b)"
  "p \<in> T \<Longrightarrow> q \<in> T \<Longrightarrow> ensures (touches T) (rename_file env p q)"
  "q \<in> T \<Longrightarrow> ensures (touches T) (copy_file env p q)"
  "p \<in> T \<Longrightarrow> ensures (touches T) (remove_file env p)"
  by (auto simp: ensures_def create_new_def create_file_def append_file_def rename_file_def copy_file_def
      remove_file_def Let_def touches_def split: option.splits intro!: touches_call [unfolded touches_def])

lemma touches_remove [touches_intros]: "p \<in> T \<Longrightarrow> ensures (touches T) (remove_if_exists env p)"
  unfolding remove_if_exists_def by (intro touches_intros touches_system_call) simp_all

text \<open>A transaction on the live database that leaves the items alone.\<close>

lemma commit_live_cases:
  assumes "commit_live env d s = (r, s')"
  shows "touches {LiveLog} s s'" and "live_view env s' \<in> {live_view env s, Some d}"
    and "r = Inr () \<Longrightarrow> live_view env s' = Some d"
proof -
  have "touches {LiveLog} s s' \<and> live_view env s' \<in> {live_view env s, Some d} \<and> (r = Inr () \<longrightarrow> live_view env s' = Some d)"
    using assms by (auto simp: commit_live_def system_call_def Let_def touches_def live_view_def
        split: option.splits if_splits fate.splits)
  then show "touches {LiveLog} s s'" and "live_view env s' \<in> {live_view env s, Some d}"
    and "r = Inr () \<Longrightarrow> live_view env s' = Some d" by blast+
qed

lemma live_query_Inr: "live_query env s = (Inr d, s') \<Longrightarrow> live_view env s = Some d \<and> fs_open s \<and> touches {} s s'"
  by (auto simp: live_query_def quiet_call_def mbind_eq_Inr system_call_def Let_def ok_or_eq_Inr touches_def
      split: fate.splits if_splits)

lemma touches_live_view: "touches T s s' \<Longrightarrow> LiveFile \<notin> T \<Longrightarrow> LiveLog \<notin> T \<Longrightarrow> live_view env s' = live_view env s"
  by (intro live_view_cong) (simp_all add: touches_def)

lemma touches_view_refl: "touches {} s s' \<Longrightarrow> live_view env s' = live_view env s"
  by (erule touches_live_view) simp_all

lemma touches_trans: "touches T s s' \<Longrightarrow> touches T' s' s'' \<Longrightarrow> touches (T \<union> T') s s''"
  by (auto simp: touches_def)

text \<open>A transaction whose statements keep the part \<open>g\<close> of the database keeps it in the live one.\<close>

lemma transaction_keeps:
  assumes "\<And>d. ensures (touches {}) (B d)"
    and "\<And>d s d' s'. B d s = (Inr d', s') \<Longrightarrow> g d' = g d"
  shows "ensures (\<lambda>s s'. touches {LiveLog} s s' \<and> map_option g (live_view env s') = map_option g (live_view env s))
           (mbind (live_query env) (\<lambda>d. mbind (B d) (commit_live env)))"
proof (rule ensuresI)
  fix s r s' assume e: "mbind (live_query env) (\<lambda>d. mbind (B d) (commit_live env)) s = (r, s')"
  obtain a s0 where q: "live_query env s = (a, s0)" by (cases "live_query env s")
  have t0: "touches {} s s0" using q ensuresD [OF touches_reading(9)] by blast
  show "touches {LiveLog} s s' \<and> map_option g (live_view env s') = map_option g (live_view env s)"
  proof (cases a)
    case (Inl x)
    with e q have "s' = s0" by (simp add: mbind_def)
    with t0 touches_view_refl [OF t0, where env = env] show ?thesis by (simp add: touches_def)
  next
    case (Inr d)
    with q have v: "live_view env s = Some d" using live_query_Inr by blast
    obtain b s1 where b: "B d s0 = (b, s1)" by (cases "B d s0")
    from t0 ensuresD [OF assms(1) b] have t1: "touches {} s s1" using touches_trans by fastforce
    show ?thesis
    proof (cases b)
      case (Inl x)
      with Inr e q b have "s' = s1" by (simp add: mbind_def)
      with t1 touches_view_refl [OF t1, where env = env] show ?thesis by (simp add: touches_def)
    next
      case d': (Inr d')
      with Inr e q b have c: "commit_live env d' s1 = (r, s')" by (simp add: mbind_def)
      have "live_view env s1 = Some d" using v touches_view_refl [OF t1, where env = env] by simp
      moreover have "g d' = g d" using assms(2) b d' by blast
      ultimately show ?thesis
        using commit_live_cases(1,2) [OF c] touches_trans [OF t1 commit_live_cases(1) [OF c]] v by auto
    qed
  qed
qed

lemma unmoved_transaction:
  assumes "\<And>d. ensures (touches {}) (B d)"
    and "\<And>d s d' s'. B d s = (Inr d', s') \<Longrightarrow> item_data (ld_items d') = item_data (ld_items d)"
  shows "ensures (unmoved env {LiveLog}) (mbind (live_query env) (\<lambda>d. mbind (B d) (commit_live env)))"
  using transaction_keeps [where g = "\<lambda>d. item_data (ld_items d)" and B = B and env = env, OF assms]
  by (simp add: ensures_def unmoved_def live_items_def)

text \<open>A part of the live database, and what does not touch the database at all.\<close>

definition live_part where
  "live_part env g s = map_option g (live_view env s)"

lemma live_part_transaction:
  assumes "\<And>d. ensures (touches {}) (B d)" and "\<And>d s d' s'. B d s = (Inr d', s') \<Longrightarrow> g d' = g d"
  shows "ensures (same (live_part env g)) (mbind (live_query env) (\<lambda>d. mbind (B d) (commit_live env)))"
  using transaction_keeps [where g = g and B = B and env = env, OF assms] by (simp add: ensures_def same_def live_part_def)

lemma live_part_touches:
  "ensures (touches T) m \<Longrightarrow> LiveFile \<notin> T \<Longrightarrow> LiveLog \<notin> T \<Longrightarrow> ensures (same (live_part env g)) m"
  by (auto simp: ensures_def same_def live_part_def intro!: arg_cong [where f = "map_option g"] touches_live_view)

lemma live_part_mbind:
  "ensures (same (live_part env g)) m \<Longrightarrow> (\<And>x. ensures (same (live_part env g)) (f x)) \<Longrightarrow> ensures (same (live_part env g)) (mbind m f)"
  by (rule ensures_mbind) simp_all

section \<open>Calls that succeed\<close>

lemma system_call_Inr:
  "system_call env e finished broken s = (Inr u, s') \<longleftrightarrow>
     ev_fate env (fs_step s) = Proceeds \<and> s' = finished (s\<lparr>fs_step := fs_step s + 1\<rparr>)"
  by (auto simp: system_call_def Let_def split: fate.splits)

lemma read_file_Inr: "read_file env e p s = (Inr b, s') \<Longrightarrow> file_at s p = Some b \<and> touches {} s s'"
  by (auto simp: read_file_def quiet_call_def mbind_eq_Inr system_call_Inr ok_or_eq_Inr touches_def)

lemma rename_file_Inr:
  "rename_file env p q s = (Inr u, s') \<Longrightarrow> \<exists>b. file_at s p = Some b \<and> file_at s' q = Some b \<and> touches {p, q} s s'"
  by (auto simp: rename_file_def system_call_Inr touches_def split: option.splits)

lemma copy_file_Inr:
  "copy_file env p q s = (Inr u, s') \<Longrightarrow> \<exists>b. file_at s p = Some b \<and> file_at s' q = Some b \<and> touches {q} s s'"
  by (auto simp: copy_file_def system_call_Inr touches_def split: option.splits)

lemma vacuum_into_Inr:
  assumes "vacuum_into env p s = (Inr u, s')"
  shows "\<exists>b d. live_view env s = Some d \<and> file_at s' p = Some b \<and> sq_read env b None = Some d \<and> touches {p} s s'"
proof -
  from assms obtain d s1 where q: "live_query env s = (Inr d, s1)" and
    w: "sq_read env (sq_vacuum env d) None = Some d"
    "system_call env BackupDatabase (put_file p (sq_vacuum env d)) (\<lambda>n. put_file p (ev_debris env n)) s1 = (Inr u, s')"
    by (auto simp: vacuum_into_def mbind_eq_Inr Let_def split: if_splits)
  with live_query_Inr [OF q] show ?thesis by (auto simp: system_call_Inr touches_def)
qed

lemma touches_vacuum [touches_intros]: "p \<in> T \<Longrightarrow> ensures (touches T) (vacuum_into env p)"
proof -
  assume p: "p \<in> T"
  have "ensures (touches T) (\<lambda>s. let b = sq_vacuum env d in
       if file_at s p \<noteq> None \<or> sq_read env b None \<noteq> Some d then (Err BackupDatabase, s)
       else system_call env BackupDatabase (put_file p b) (\<lambda>n. put_file p (ev_debris env n)) s)" for d
    using p by (auto simp: ensures_def Let_def intro!: touches_call)
  then show ?thesis unfolding vacuum_into_def by (intro touches_intros)
qed

lemma unmoved_mbind:
  "ensures (unmoved env T) m \<Longrightarrow> (\<And>x. ensures (unmoved env T) (f x)) \<Longrightarrow> ensures (unmoved env T) (mbind m f)"
  by (rule ensures_mbind) simp_all

lemma tidy_mbind:
  "ensures (tidy env T) m \<Longrightarrow> (\<And>x. ensures (tidy env T) (f x)) \<Longrightarrow> ensures (tidy env T) (mbind m f)"
  by (rule ensures_mbind) simp_all

text \<open>Removing a file of the directory is tidy, whatever file it is.\<close>

lemma tidy_remove: "p \<notin> {LiveFile, LiveLog} \<Longrightarrow> ensures (tidy env T) (remove_if_exists env p)"
proof (rule ensuresI)
  fix s r s' assume p: "p \<notin> {LiveFile, LiveLog}" and e: "remove_if_exists env p s = (r, s')"
  have t: "touches {p} s s'" by (rule ensuresD [OF touches_remove e]) simp
  have "file_at s' p \<in> {file_at s p, None}"
    using e by (auto simp: remove_if_exists_def mbind_def attempt_def system_call_def mlift_def Let_def
        split: fate.splits if_splits)
  moreover have v: "live_view env s' = live_view env s" using t p by (intro touches_live_view) auto
  moreover have "file_at s' q = file_at s q" if "q \<noteq> p" for q using t that by (simp add: touches_def)
  ultimately have "file_at s' q \<in> {file_at s q, None}" for q by (cases "q = p") blast+
  with v t show "tidy env T s s'" by (simp add: tidy_def touches_def live_items_def)
qed

lemma ensures_tidy_mono: "ensures (tidy env T) m \<Longrightarrow> T \<subseteq> T' \<Longrightarrow> ensures (tidy env T') m"
  by (erule ensures_mono) (unfold tidy_def, blast)

lemma quiet_unmoved: "ensures (touches {}) m \<Longrightarrow> ensures (unmoved env T) m"
  by (rule ensures_unmoved_mono [OF ensures_unmoved [where T = "{}"]]) simp_all

end
