(* ===== verification/Backups.thy ===== *)
theory Backups
  imports Storage
begin

text \<open>
  \<open>BackupManager\<close> of \<open>src/admin/backup.rs\<close>: creating, uploading, listing, downloading and verifying
  backups, the reconciliation of the directory with the inventory, and retention. The mutex
  \<open>mutation\<close> serialises creations and uploads, so each is one operation. Backups are read without
  a log of their own. JSON, SHA-256, the syntax of UUIDs and the text of timestamps are parameters.
\<close>

section \<open>Records and manifests\<close>

datatype backup_source = Manual | Automatic | Upload | PreRestore

fun source_name :: "backup_source \<Rightarrow> string" where
  "source_name Manual = ''manual''"
| "source_name Automatic = ''automatic''"
| "source_name Upload = ''upload''"
| "source_name PreRestore = ''pre_restore''"

record backup_record =
  bk_id :: ustring
  bk_file_name :: ustring
  bk_source :: backup_source
  bk_status :: string
  bk_sha256 :: ustring
  bk_size_bytes :: int
  bk_schema_version :: int
  bk_created_at :: ustring
  bk_verified_at :: "ustring option"
  bk_created_by :: ustring
  bk_details :: json

record backup_manifest =
  bm_id :: ustring
  bm_file_name :: ustring
  bm_source :: backup_source
  bm_sha256 :: ustring
  bm_size_bytes :: int
  bm_schema_version :: int
  bm_created_at :: ustring
  bm_verified_at :: ustring
  bm_created_by :: ustring
  bm_details :: json

record pending_backup =
  pb_id :: ustring
  pb_file_name :: ustring
  pb_source :: backup_source
  pb_created_at :: ustring
  pb_created_by :: ustring

record verified_file =
  vf_sha256 :: ustring
  vf_size_bytes :: int
  vf_schema_version :: int
  vf_verified_at :: ustring

record backup_env = storage_env +
  ev_owner :: ustring
  ev_sha256 :: "bytes \<Rightarrow> ustring"
  ev_uuid_text :: "uuid \<Rightarrow> ustring"
  ev_is_uuid :: "ustring \<Rightarrow> bool"
  ev_time_text :: "stamp \<Rightarrow> ustring"
  ev_manifest_bytes :: "backup_manifest \<Rightarrow> bytes"
  ev_parse_manifest :: "bytes \<Rightarrow> backup_manifest option"
  ev_json_len :: "json \<Rightarrow> nat"

definition current_schema_version :: int where "current_schema_version = 2"
definition sqlite_header :: bytes where "sqlite_header = lit ''SQLite format 3'' @ [0]"
definition detail_limit :: nat where "detail_limit = 1024"

definition finish_backup :: "pending_backup \<Rightarrow> verified_file \<Rightarrow> backup_manifest" where
  "finish_backup p v =
     \<lparr>bm_id = pb_id p, bm_file_name = pb_file_name p, bm_source = pb_source p, bm_sha256 = vf_sha256 v,
      bm_size_bytes = vf_size_bytes v, bm_schema_version = vf_schema_version v, bm_created_at = pb_created_at p,
      bm_verified_at = vf_verified_at v, bm_created_by = pb_created_by p, bm_details = JObj []\<rparr>"

definition record_of_manifest :: "backup_manifest \<Rightarrow> backup_record" where
  "record_of_manifest m =
     \<lparr>bk_id = bm_id m, bk_file_name = bm_file_name m, bk_source = bm_source m, bk_status = ''ready'',
      bk_sha256 = bm_sha256 m, bk_size_bytes = bm_size_bytes m, bk_schema_version = bm_schema_version m,
      bk_created_at = bm_created_at m, bk_verified_at = Some (bm_verified_at m), bk_created_by = bm_created_by m,
      bk_details = bm_details m\<rparr>"

definition row_of_manifest :: "backup_manifest \<Rightarrow> backup_row" where
  "row_of_manifest m =
     \<lparr>br_id = bm_id m, br_file_name = bm_file_name m, br_source = source_name (bm_source m), br_status = ''ready'',
      br_sha256 = bm_sha256 m, br_size_bytes = bm_size_bytes m, br_schema_version = bm_schema_version m,
      br_created_at = bm_created_at m, br_verified_at = Some (bm_verified_at m), br_created_by = bm_created_by m,
      br_details = Some (bm_details m)\<rparr>"

text \<open>\<open>INSERT OR IGNORE\<close>: a row that violates a constraint of the table is not inserted.\<close>

definition insert_manifest :: "backup_manifest \<Rightarrow> live_db \<Rightarrow> live_db \<times> bool" where
  "insert_manifest m d =
     (if bm_id m \<in> br_id ` set (ld_backups d) \<or> bm_file_name m \<in> br_file_name ` set (ld_backups d)
         \<or> length (bm_sha256 m) \<noteq> 64 \<or> bm_size_bytes m \<le> 0 \<or> bm_schema_version m < 1
      then (d, False) else (d\<lparr>ld_backups := ld_backups d @ [row_of_manifest m]\<rparr>, True))"

definition source_of_name :: "string \<Rightarrow> backup_source option" where
  "source_of_name s = find (\<lambda>x. source_name x = s) [Manual, Automatic, Upload, PreRestore]"

definition record_from_row :: "backup_row \<Rightarrow> (backup_error, backup_record) res" where
  "record_from_row r =
     rbind (ok_or BackupDatabase (source_of_name (br_source r))) (\<lambda>source.
     rbind (ok_or BackupDatabase (br_details r)) (\<lambda>dets.
       Ok \<lparr>bk_id = br_id r, bk_file_name = br_file_name r, bk_source = source, bk_status = br_status r,
           bk_sha256 = br_sha256 r, bk_size_bytes = br_size_bytes r, bk_schema_version = br_schema_version r,
           bk_created_at = br_created_at r, bk_verified_at = br_verified_at r, bk_created_by = br_created_by r,
           bk_details = dets\<rparr>))"

section \<open>Names\<close>

definition has_prefix :: "ustring \<Rightarrow> ustring \<Rightarrow> bool" where
  "has_prefix p s \<longleftrightarrow> take (length p) s = p"

definition has_suffix :: "ustring \<Rightarrow> ustring \<Rightarrow> bool" where
  "has_suffix p s \<longleftrightarrow> has_prefix (rev p) (rev s)"

text \<open>The last component of a name without a slash is the name, unless it is a dot or two.\<close>

definition safe_file_name :: "ustring \<Rightarrow> bool" where
  "safe_file_name name \<longleftrightarrow> name \<noteq> [] \<and> utf8_len name \<le> 128
     \<and> 47 \<notin> set name \<and> name \<noteq> lit ''.'' \<and> name \<noteq> lit ''..''
     \<and> has_prefix (lit ''remindi-'') name \<and> has_suffix (lit ''.sqlite3'') name"

definition database_file_name :: "ustring \<Rightarrow> ustring" where
  "database_file_name i = lit ''remindi-'' @ i @ lit ''.sqlite3''"

definition temporary_database_name :: "ustring \<Rightarrow> ustring" where
  "temporary_database_name i = lit ''.tmp-'' @ i @ lit ''.sqlite3''"

definition temporary_manifest_name :: "ustring \<Rightarrow> ustring" where
  "temporary_manifest_name i = lit ''.tmp-'' @ i @ lit ''.manifest.json''"

definition is_temporary_name :: "ustring \<Rightarrow> bool" where
  "is_temporary_name name \<longleftrightarrow> has_prefix (lit ''.tmp-'') name
     \<and> (has_suffix (lit ''.sqlite3'') name \<or> has_suffix (lit ''.manifest.json'') name)"

text \<open>
  \<open>Path::file_stem\<close> and \<open>Path::extension\<close> of a plain name: what is before and after its last dot,
  when that is not its first character.
\<close>

definition file_stem :: "ustring \<Rightarrow> ustring" where
  "file_stem name =
     (let stem = rev (drop 1 (dropWhile (\<lambda>c. c \<noteq> 46) (rev name))) in if stem = [] then name else stem)"

definition file_extension :: "ustring \<Rightarrow> ustring option" where
  "file_extension name = (if file_stem name = name then None else Some (rev (takeWhile (\<lambda>c. c \<noteq> 46) (rev name))))"

definition manifest_name :: "ustring \<Rightarrow> ustring" where
  "manifest_name name = file_stem name @ lit ''.sqlite3.json''"

definition journal_temporary :: file_path where "journal_temporary = Backup (lit ''.restore-journal.tmp'')"

section \<open>Verification\<close>

definition big_endian :: "nat \<Rightarrow> nat \<Rightarrow> int" where "big_endian a b = 256 * int a + int b"

definition page_size :: "bytes \<Rightarrow> int" where
  "page_size header =
     (let encoded = big_endian (header ! 16) (header ! 17) in if encoded = 1 then 65536 else encoded)"

definition valid_page_size :: "int \<Rightarrow> bool" where
  "valid_page_size n \<longleftrightarrow> n \<in> {512, 1024, 2048, 4096, 8192, 16384, 32768, 65536}"

definition header_ok :: "bytes \<Rightarrow> bool" where
  "header_ok b \<longleftrightarrow> length b \<ge> 18 \<and> take 16 b = sqlite_header \<and> valid_page_size (page_size (take 18 b))"

definition verify_header :: "'z backup_env_scheme \<Rightarrow> file_path \<Rightarrow> ('x, unit) stored" where
  "verify_header env p =
     mbind (read_file env BackupInvalid p) (\<lambda>b. mlift (guard (header_ok b) BackupInvalid))"

text \<open>\<open>SELECT COALESCE(MAX(version), 0) FROM schema_migrations\<close>.\<close>

definition schema_version_of :: "live_db \<Rightarrow> int" where
  "schema_version_of d = fold max (map fst (ld_migrations d)) 0"

definition wrong_owner :: "ustring \<Rightarrow> live_db \<Rightarrow> nat" where
  "wrong_owner owner d = length (filter (\<lambda>r. c_owner_id r \<noteq> owner) (remindi_table (ld_items d)))"

definition evidence_mismatch :: "db \<Rightarrow> remindi_row \<Rightarrow> bool" where
  "evidence_mismatch d r \<longleftrightarrow>
     (c_state r = ''completed'') \<noteq> (length (filter (\<lambda>e. v_remindi_id e = c_id r) (evidence_table d)) = 1)"

definition invariant_violations :: "live_db \<Rightarrow> nat" where
  "invariant_violations d =
     length (filter (evidence_mismatch (ld_items d)) (remindi_table (ld_items d)))
     + length (filter (\<lambda>r. (c_snooze_until r = None) \<noteq> (c_snoozed_from_state r = None)) (remindi_table (ld_items d)))"

definition hash_file ::
  "'z backup_env_scheme \<Rightarrow> file_path \<Rightarrow> int \<Rightarrow> instant \<Rightarrow> ('x, verified_file) stored" where
  "hash_file env p schema now =
     mbind (read_file env BackupIo p) (\<lambda>b.
     mbind (mlift (guard (int (length b) \<le> i64_max) BackupInvalid)) (\<lambda>_.
     mbind (mlift (map_err (\<lambda>_. BackupDatabase) (canonical_timestamp now))) (\<lambda>at.
       mlift (Ok \<lparr>vf_sha256 = ev_sha256 env b, vf_size_bytes = int (length b), vf_schema_version = schema,
                  vf_verified_at = ev_time_text env at\<rparr>))))"

text \<open>A read-only connection to a file; the live one has a log.\<close>

definition log_of :: "'x storage_scheme \<Rightarrow> file_path \<Rightarrow> bytes option" where
  "log_of s p = (if p = LiveFile then file_at s LiveLog else None)"

definition check_integrity :: "'z backup_env_scheme \<Rightarrow> file_path \<Rightarrow> ('x, unit) stored" where
  "check_integrity env p =
     mbind (quiet_call env BackupInvalid) (\<lambda>_ s.
       (case file_at s p of
          None \<Rightarrow> Err BackupInvalid
        | Some b \<Rightarrow> guard (sq_integrity env b (log_of s p) = ''ok'') BackupInvalid, s))"

text \<open>The queries of the verification need the tables of the first script.\<close>

definition open_read_only :: "'z backup_env_scheme \<Rightarrow> file_path \<Rightarrow> ('x, live_db) stored" where
  "open_read_only env p =
     mbind (quiet_call env BackupInvalid) (\<lambda>_ s.
       (case file_at s p of
          None \<Rightarrow> Err BackupInvalid
        | Some b \<Rightarrow>
            rbind (ok_or BackupInvalid (sq_read env b (log_of s p))) (\<lambda>d.
            rbind (guard (1 \<in> set (ld_scripts d)) BackupInvalid) (\<lambda>_. Ok d)), s))"

definition verify_database_at ::
  "'z backup_env_scheme \<Rightarrow> file_path \<Rightarrow> instant \<Rightarrow> ('x, verified_file) stored" where
  "verify_database_at env p now =
     mbind (verify_header env p) (\<lambda>_.
     mbind (check_integrity env p) (\<lambda>_.
     mbind (open_read_only env p) (\<lambda>d.
     mbind (mlift (guard (1 \<le> schema_version_of d \<and> schema_version_of d \<le> current_schema_version) BackupInvalid)) (\<lambda>_.
     mbind (mlift (guard (wrong_owner (ev_owner env) d = 0 \<and> invariant_violations d = 0) BackupInvalid)) (\<lambda>_.
       hash_file env p (schema_version_of d) now)))))"

definition verify_database :: "'z backup_env_scheme \<Rightarrow> file_path \<Rightarrow> ('x, verified_file) stored" where
  "verify_database env p = mbind (storage_now env) (verify_database_at env p)"

definition validate_manifest :: "'z backup_env_scheme \<Rightarrow> backup_manifest \<Rightarrow> (backup_error, unit) res" where
  "validate_manifest env m =
     (if \<not> ev_is_uuid env (bm_id m)
         \<or> bm_file_name m \<noteq> database_file_name (bm_id m)
         \<or> \<not> safe_file_name (bm_file_name m)
         \<or> utf8_len (bm_sha256 m) \<noteq> 64
         \<or> \<not> list_all (\<lambda>c. is_ascii_digit c \<or> 97 \<le> c \<and> c \<le> 102) (bm_sha256 m)
         \<or> bm_size_bytes m \<le> 0
         \<or> \<not> (1 \<le> bm_schema_version m \<and> bm_schema_version m \<le> current_schema_version)
         \<or> bm_created_by m = []
         \<or> utf8_len (bm_created_by m) > 256
         \<or> list_ex is_control (bm_created_by m)
         \<or> \<not> is_object (bm_details m)
         \<or> ev_json_len env (bm_details m) > detail_limit
      then Err BackupInvalid else Ok ())"

definition read_manifest :: "'z backup_env_scheme \<Rightarrow> file_path \<Rightarrow> ('x, backup_manifest) stored" where
  "read_manifest env p =
     mbind (read_file env BackupInvalid p) (\<lambda>b.
     mbind (mlift (guard (length b \<le> 16 * 1024) BackupInvalid)) (\<lambda>_.
     mbind (mlift (ok_or BackupInvalid (ev_parse_manifest env b))) (\<lambda>m.
     mbind (mlift (validate_manifest env m)) (\<lambda>_. mlift (Ok m)))))"

section \<open>The audit log\<close>

definition storage_audit ::
  "'z storage_env_scheme \<Rightarrow> string \<Rightarrow> admin_actor \<Rightarrow> string \<Rightarrow> json \<Rightarrow> live_db \<Rightarrow> ('x, live_db) stored" where
  "storage_audit env kind who outcome dets d =
     mbind (storage_now env) (\<lambda>now.
     mbind (mlift (map_err (\<lambda>_. BackupDatabase) (canonical_timestamp now))) (\<lambda>at.
     mbind (storage_id env) (\<lambda>i.
     mbind (statement_call env) (\<lambda>_.
       mlift (Ok (d\<lparr>ld_admin := insert_event (admin_event_of (ld_admin d) kind who outcome dets i at) (ld_admin d)\<rparr>))))))"

definition storage_audit_append ::
  "'z storage_env_scheme \<Rightarrow> string \<Rightarrow> admin_actor \<Rightarrow> string \<Rightarrow> json \<Rightarrow> ('x, unit) stored" where
  "storage_audit_append env kind who outcome dets =
     mbind (live_query env) (\<lambda>d.
     mbind (storage_audit env kind who outcome dets d) (commit_live env))"

definition backup_details :: "ustring \<Rightarrow> json" where
  "backup_details i = JObj [(''backup_id'', JStr i)]"

section \<open>Operations\<close>

definition backup_identity ::
  "'z backup_env_scheme \<Rightarrow> backup_source \<Rightarrow> admin_actor \<Rightarrow> ('x, pending_backup) stored" where
  "backup_identity env source who =
     mbind (storage_id env) (\<lambda>i.
     mbind (storage_now env) (\<lambda>now.
     mbind (mlift (map_err (\<lambda>_. BackupDatabase) (canonical_timestamp now))) (\<lambda>at.
       mlift (Ok \<lparr>pb_id = ev_uuid_text env i, pb_file_name = database_file_name (ev_uuid_text env i),
                  pb_source = source, pb_created_at = ev_time_text env at, pb_created_by = aa_actor_id who\<rparr>))))"

definition publish_backup ::
  "'z backup_env_scheme \<Rightarrow> file_path \<Rightarrow> ustring \<Rightarrow> backup_manifest \<Rightarrow> ('x, unit) stored" where
  "publish_backup env temporary final_name m =
     (let temporary_manifest = Backup (temporary_manifest_name (bm_id m)) in
      mbind (create_new env temporary_manifest) (\<lambda>_.
      mbind (append_file env temporary_manifest (ev_manifest_bytes env m)) (\<lambda>_.
      mbind (quiet_call env BackupIo) (\<lambda>_.
      mbind (protect_file env temporary_manifest) (\<lambda>_.
      mbind (sync_file env temporary_manifest) (\<lambda>_.
      mbind (rename_file env temporary (Backup final_name)) (\<lambda>_.
      mbind (rename_file env temporary_manifest (Backup (manifest_name final_name))) (\<lambda>_.
        sync_directory env))))))))"

definition register ::
  "'z backup_env_scheme \<Rightarrow> backup_manifest \<Rightarrow> string \<Rightarrow> admin_actor \<Rightarrow> ('x, backup_record) stored" where
  "register env m kind who =
     mbind (live_query env) (\<lambda>d.
     mbind (statement_call env) (\<lambda>_.
     mbind (storage_audit env kind who ''succeeded'' (backup_details (bm_id m)) (fst (insert_manifest m d))) (\<lambda>d'.
     mbind (commit_live env d') (\<lambda>_.
       mlift (Ok (record_of_manifest m))))))"

definition insert_if_missing :: "'z backup_env_scheme \<Rightarrow> backup_manifest \<Rightarrow> ('x, bool) stored" where
  "insert_if_missing env m =
     mbind (live_query env) (\<lambda>d.
     mbind (statement_call env) (\<lambda>_.
     mbind (commit_live env (fst (insert_manifest m d))) (\<lambda>_.
       mlift (Ok (snd (insert_manifest m d))))))"

text \<open>\<open>CAST(value_json AS INTEGER)\<close>.\<close>

fun cast_integer :: "json \<Rightarrow> int" where
  "cast_integer (JNum n) = max (- i64_max - 1) (min i64_max n)"
| "cast_integer _ = 0"

definition retention_key :: ustring where "retention_key = lit ''backups.retention_count''"

definition retention_count :: "live_db \<Rightarrow> int option" where
  "retention_count d =
     map_option (\<lambda>r. cast_integer (st_value r)) (find (\<lambda>r. st_key r = retention_key) (setting_table (ld_admin d)))"

text \<open>\<open>ORDER BY created_at DESC, id DESC\<close>; the identifiers are unique.\<close>

definition newest_first :: "backup_row list \<Rightarrow> backup_row list" where
  "newest_first rows = rev (sort_key br_created_at (sort_key br_id rows))"

definition retainable :: "backup_row \<Rightarrow> bool" where
  "retainable r \<longleftrightarrow> br_status r = ''ready'' \<and> br_source r \<in> {''automatic'', ''upload''}"

definition outdated_rows :: "int \<Rightarrow> live_db \<Rightarrow> backup_row list" where
  "outdated_rows n d = drop (nat n) (newest_first (filter retainable (ld_backups d)))"

definition expire_row :: "ustring \<Rightarrow> live_db \<Rightarrow> live_db" where
  "expire_row i d =
     d\<lparr>ld_backups := map (\<lambda>r. if br_id r = i \<and> br_status r = ''ready'' then r\<lparr>br_status := ''expired''\<rparr> else r) (ld_backups d)\<rparr>"

definition expire_backup :: "'z backup_env_scheme \<Rightarrow> admin_actor \<Rightarrow> backup_row \<Rightarrow> ('x, unit) stored" where
  "expire_backup env who r =
     mbind (live_query env) (\<lambda>d.
     mbind (statement_call env) (\<lambda>_.
     mbind (storage_audit env ''backup_expired'' who ''succeeded'' (backup_details (br_id r)) (expire_row (br_id r) d)) (\<lambda>d'.
     mbind (commit_live env d') (\<lambda>_.
     mbind (remove_if_exists env (Backup (br_file_name r))) (\<lambda>_.
       remove_if_exists env (Backup (manifest_name (br_file_name r))))))))"

definition apply_retention :: "'z backup_env_scheme \<Rightarrow> admin_actor \<Rightarrow> ('x, nat) stored" where
  "apply_retention env who =
     mbind (live_query env) (\<lambda>d.
     mbind (mlift (ok_or BackupDatabase (retention_count d))) (\<lambda>n.
     mbind (statement_call env) (\<lambda>_.
       let rows = outdated_rows n d in
       mbind (each (expire_backup env who) rows) (\<lambda>_.
       mbind (if rows \<noteq> [] then sync_directory env else mlift (Ok ())) (\<lambda>_.
         mlift (Ok (length rows)))))))"

definition create_backup ::
  "'z backup_env_scheme \<Rightarrow> backup_source \<Rightarrow> admin_actor \<Rightarrow> ('x, backup_record) stored" where
  "create_backup env source who =
     (if source = Upload then mlift (Err BackupInvalid)
      else
        mbind (backup_identity env source who) (\<lambda>p.
        let temporary = Backup (temporary_database_name (pb_id p)) in
        mbind (vacuum_into env temporary) (\<lambda>_.
        mbind (protect_file env temporary) (\<lambda>_.
        mbind (sync_file env temporary) (\<lambda>_.
        mbind (verify_database env temporary) (\<lambda>v.
        let m = finish_backup p v in
        mbind (publish_backup env temporary (pb_file_name p) m) (\<lambda>_.
        mbind (register env m ''backup_created'' who) (\<lambda>r.
        mbind (apply_retention env who) (\<lambda>_.
          mlift (Ok r))))))))))"

text \<open>The chunks of an upload; \<open>None\<close> is an error of the stream. The counter is a \<open>u64\<close>.\<close>

fun upload_chunks ::
  "'z backup_env_scheme \<Rightarrow> file_path \<Rightarrow> nat \<Rightarrow> nat \<Rightarrow> bytes option list \<Rightarrow> ('x, unit) stored" where
  "upload_chunks env p maximum written [] = mlift (Ok ())"
| "upload_chunks env p maximum written (None # chunks) = mlift (Err BackupInvalid)"
| "upload_chunks env p maximum written (Some b # chunks) =
     (if written + length b \<ge> 2 ^ 64 then mlift (Err BackupLimitExceeded)
      else if written + length b > maximum then
        mbind (remove_if_exists env p) (\<lambda>_. mlift (Err BackupLimitExceeded))
      else mbind (append_file env p b) (\<lambda>_. upload_chunks env p maximum (written + length b) chunks))"

definition or_discard :: "'z backup_env_scheme \<Rightarrow> file_path \<Rightarrow> ('x, 'a) stored \<Rightarrow> ('x, 'a) stored" where
  "or_discard env p m =
     mbind (attempt m) (\<lambda>r.
       case r of Inr x \<Rightarrow> mlift (Ok x) | Inl e \<Rightarrow> mbind (remove_if_exists env p) (\<lambda>_. mlift (Err e)))"

definition upload_backup ::
  "'z backup_env_scheme \<Rightarrow> bytes option list \<Rightarrow> u64 \<Rightarrow> admin_actor \<Rightarrow> ('x, backup_record) stored" where
  "upload_backup env chunks maximum who =
     mbind (backup_identity env Upload who) (\<lambda>p.
     let temporary = Backup (temporary_database_name (pb_id p)) in
     mbind (create_new env temporary) (\<lambda>_.
     mbind (protect_file env temporary) (\<lambda>_.
     mbind (upload_chunks env temporary (unat maximum) 0 chunks) (\<lambda>_.
     mbind (quiet_call env BackupIo) (\<lambda>_.
     mbind (or_discard env temporary (verify_database env temporary)) (\<lambda>v.
     let m = finish_backup p v in
     mbind (publish_backup env temporary (pb_file_name p) m) (\<lambda>_.
     mbind (register env m ''backup_uploaded'' who) (\<lambda>r.
     mbind (apply_retention env who) (\<lambda>_.
       mlift (Ok r))))))))))"

definition list_backups :: "'z backup_env_scheme \<Rightarrow> ('x, backup_record list) stored" where
  "list_backups env =
     mbind (live_query env) (\<lambda>d. mlift (collect_map record_from_row (newest_first (ld_backups d))))"

definition offered :: "ustring \<Rightarrow> backup_record \<Rightarrow> bool" where
  "offered i r \<longleftrightarrow> bk_id r = i \<and> bk_status r \<noteq> ''expired''"

definition download_backup ::
  "'z backup_env_scheme \<Rightarrow> ustring \<Rightarrow> ('x, backup_record \<times> file_path) stored" where
  "download_backup env i =
     mbind (list_backups env) (\<lambda>records.
     mbind (mlift (ok_or BackupNotFound (find (offered i) records))) (\<lambda>r.
     mbind (mlift (guard (safe_file_name (bk_file_name r)) BackupInvalid)) (\<lambda>_.
     mbind (read_manifest env (Backup (manifest_name (bk_file_name r)))) (\<lambda>m.
     mbind (verify_database env (Backup (bk_file_name r))) (\<lambda>v.
       if bm_id m \<noteq> bk_id r \<or> bm_sha256 m \<noteq> bk_sha256 r \<or> vf_sha256 v \<noteq> bk_sha256 r
          \<or> vf_size_bytes v \<noteq> bk_size_bytes r
       then mlift (Err BackupInvalid)
       else mlift (Ok (r, Backup (bk_file_name r))))))))"

definition verify_backup ::
  "'z backup_env_scheme \<Rightarrow> ustring \<Rightarrow> admin_actor \<Rightarrow> ('x, backup_record) stored" where
  "verify_backup env i who =
     mbind (download_backup env i) (\<lambda>(r, _).
     mbind (storage_audit_append env ''backup_verified'' who ''succeeded'' (backup_details (bk_id r))) (\<lambda>_.
       mlift (Ok r)))"

definition prepare_directory :: "'z backup_env_scheme \<Rightarrow> ('x, unit) stored" where
  "prepare_directory env =
     mbind (quiet_call env BackupIo) (\<lambda>_.
     mbind (protect_directory env) (\<lambda>_.
       remove_if_exists env journal_temporary))"

text \<open>One entry of the directory; the result says whether a row was inserted.\<close>

definition reconcile_entry :: "'z backup_env_scheme \<Rightarrow> ustring \<Rightarrow> ('x, bool) stored" where
  "reconcile_entry env name =
     (if is_temporary_name name then mbind (remove_if_exists env (Backup name)) (\<lambda>_. mlift (Ok False))
      else if file_extension name \<noteq> Some (lit ''json'') then mlift (Ok False)
      else
        mbind (attempt (read_manifest env (Backup name))) (\<lambda>read.
          case read of
            Inl _ \<Rightarrow> mlift (Ok False)
          | Inr m \<Rightarrow>
              if name \<noteq> manifest_name (bm_file_name m) then mlift (Ok False)
              else
                mbind (attempt (verify_database env (Backup (bm_file_name m)))) (\<lambda>verified.
                  case verified of
                    Inl _ \<Rightarrow> mlift (Ok False)
                  | Inr v \<Rightarrow>
                      if bm_sha256 m \<noteq> vf_sha256 v \<or> bm_size_bytes m \<noteq> vf_size_bytes v
                         \<or> bm_schema_version m \<noteq> vf_schema_version v
                      then mlift (Ok False) else insert_if_missing env m)))"

fun reconcile_entries :: "'z backup_env_scheme \<Rightarrow> ustring list \<Rightarrow> nat \<Rightarrow> ('x, nat) stored" where
  "reconcile_entries env [] so_far = mlift (Ok so_far)"
| "reconcile_entries env (name # names) so_far =
     mbind (quiet_call env BackupIo) (\<lambda>_.
     mbind (reconcile_entry env name) (\<lambda>inserted.
       reconcile_entries env names (so_far + of_bool inserted)))"

definition directory_names :: "'x storage_scheme \<Rightarrow> ustring list" where
  "directory_names s = List.map_filter (\<lambda>(p, _). case p of Backup n \<Rightarrow> Some n | _ \<Rightarrow> None) (fs_disk s)"

definition reconcile :: "'z backup_env_scheme \<Rightarrow> ('x, nat) stored" where
  "reconcile env =
     mbind (prepare_directory env) (\<lambda>_.
     mbind (quiet_call env BackupIo) (\<lambda>_ s. reconcile_entries env (directory_names s) 0 s))"

definition open_backups :: "'z backup_env_scheme \<Rightarrow> ('x, unit) stored" where
  "open_backups env = mbind (prepare_directory env) (\<lambda>_. mbind (reconcile env) (\<lambda>_. mlift (Ok ())))"

end
