(* ===== verification/Restore.thy ===== *)
theory Restore
  imports Backups Controller
begin

text \<open>
  \<open>RestoreManager\<close> of \<open>src/admin/backup.rs\<close>: the guarded restore with its journal, its test faults and
  its rollback, and the recovery at start-up of a restore that was interrupted. The mutex \<open>operation\<close>
  admits one restore at a time. Between the backup it takes of the live database and the
  exclusive maintenance other requests may commit: \<open>re_meanwhile\<close> is what they do.
\<close>

section \<open>The journal\<close>

datatype restore_phase =
    Requested
  | CandidateVerified
  | PreRestoreBackupVerified
  | WorkloadsQuiesced
  | LiveReplaced
  | ReplacementVerified
  | WorkloadsRestarted
  | Succeeded
  | RollbackStarted
  | PreRestoreReinstalled
  | RollbackVerified
  | WorkloadsRestartedOrHeld
  | FailedPhase

datatype restore_fault = NoFault | BeforeSwap | DuringReopen | AfterSwap

record restore_journal =
  jn_operation_id :: ustring
  jn_phase :: restore_phase
  jn_candidate_file :: ustring
  jn_pre_restore_file :: ustring

record restore_outcome =
  ro_operation_id :: ustring
  ro_backup_id :: ustring
  ro_restored :: bool
  ro_rolled_back :: bool

record ('m, 's) restore_env = backup_env +
  re_journal_bytes :: "restore_journal \<Rightarrow> bytes"
  re_parse_journal :: "bytes \<Rightarrow> restore_journal option"
  re_meanwhile :: "live_db \<Rightarrow> live_db"
  re_control :: "('m, 's) control_env"

record ('m, 's) restore_site = storage +
  rx_control :: "('m, 's) control"

type_synonym ('m, 's, 'x, 'a) restoring = "(('m, 's, 'x) restore_site_scheme, backup_error, 'a) effect"

definition restore_confirmation :: ustring where "restore_confirmation = lit ''RESTORE REMINDI''"

definition journal_file :: file_path where "journal_file = Backup (lit ''restore-journal.json'')"

definition write_journal :: "('m, 's, 'z) restore_env_scheme \<Rightarrow> restore_journal \<Rightarrow> ('x, unit) stored" where
  "write_journal env j =
     mbind (create_file env journal_temporary) (\<lambda>_.
     mbind (append_file env journal_temporary (re_journal_bytes env j)) (\<lambda>_.
     mbind (quiet_call env BackupIo) (\<lambda>_.
     mbind (protect_file env journal_temporary) (\<lambda>_.
     mbind (rename_file env journal_temporary journal_file) (\<lambda>_.
       sync_directory env)))))"

definition remove_journal :: "('m, 's, 'z) restore_env_scheme \<Rightarrow> ('x, unit) stored" where
  "remove_journal env = mbind (remove_if_exists env journal_file) (\<lambda>_. sync_directory env)"

definition install_database ::
  "'z storage_env_scheme \<Rightarrow> file_path \<Rightarrow> ustring \<Rightarrow> ('x, unit) stored" where
  "install_database env source operation =
     mbind (remove_if_exists env (Staged operation)) (\<lambda>_.
     mbind (copy_file env source (Staged operation)) (\<lambda>_.
     mbind (protect_file env (Staged operation)) (\<lambda>_.
     mbind (sync_file env (Staged operation)) (\<lambda>_.
     mbind (rename_file env (Staged operation) LiveFile) (\<lambda>_.
       sync_directory env)))))"

section \<open>Workloads and other requests\<close>

text \<open>The workload controller reads its rows from the live database.\<close>

definition on_workloads ::
  "('m, 's, 'z) restore_env_scheme \<Rightarrow> ('m, 's, 'a) controlled \<Rightarrow> ('m, 's, 'x, 'a) restoring" where
  "on_workloads env m = (\<lambda>s.
     let rows = (case live_view env s of None \<Rightarrow> [] | Some d \<Rightarrow> runtime_table (ld_items d));
         (r, c) = m ((rx_control s)\<lparr>ct_rows := rows\<rparr>)
     in (map_err (\<lambda>_. BackupWorkload) r, s\<lparr>rx_control := c\<rparr>))"

definition others_commit :: "('m, 's, 'z) restore_env_scheme \<Rightarrow> ('x, unit) stored" where
  "others_commit env = (\<lambda>s.
     case (file_at s LiveFile, live_view env s) of
       (Some m, Some d) \<Rightarrow>
         let l = sq_log env m (file_at s LiveLog) (re_meanwhile env d) in
         (Ok (), if sq_read env m (Some l) = Some (re_meanwhile env d) then put_file LiveLog l s else s)
     | _ \<Rightarrow> (Ok (), s))"

text \<open>The maintenance of the workloads ends with the operation.\<close>

definition holding_workloads :: "('m, 's, 'x, 'a) restoring \<Rightarrow> ('m, 's, 'x, 'a) restoring" where
  "holding_workloads m = (\<lambda>s. let (r, s') = m s in (r, s'\<lparr>rx_control := release_maintenance (rx_control s')\<rparr>))"

definition ignoring :: "('s, 'e, 'a) effect \<Rightarrow> ('s, 'e, unit) effect" where
  "ignoring m = mbind (attempt m) (\<lambda>_. mlift (Ok ()))"

text \<open>An error before the maintenance removes the journal.\<close>

definition or_abandon :: "('m, 's, 'z) restore_env_scheme \<Rightarrow> ('x, 'a) stored \<Rightarrow> ('x, 'a) stored" where
  "or_abandon env m =
     mbind (attempt m) (\<lambda>r.
       case r of Inr x \<Rightarrow> mlift (Ok x) | Inl e \<Rightarrow> mbind (remove_journal env) (\<lambda>_. mlift (Err e)))"

section \<open>The restore\<close>

text \<open>The replacement under maintenance, with the seams of the tests.\<close>

definition replace_live ::
  "('m, 's, 'z) restore_env_scheme \<Rightarrow> restore_fault \<Rightarrow> file_path \<Rightarrow> restore_journal \<Rightarrow> ('x, unit) stored" where
  "replace_live env fault candidate j =
     mbind (write_journal env (j\<lparr>jn_phase := WorkloadsQuiesced\<rparr>)) (\<lambda>_.
     mbind (or_else (checkpoint_and_close env) (\<lambda>_. RestoreFailed)) (\<lambda>_.
     mbind (mlift (guard (fault \<noteq> BeforeSwap) RestoreFailed)) (\<lambda>_.
     mbind (install_database env candidate (jn_operation_id j)) (\<lambda>_.
     mbind (write_journal env (j\<lparr>jn_phase := LiveReplaced\<rparr>)) (\<lambda>_.
     mbind (mlift (guard (fault \<noteq> DuringReopen) RestoreFailed)) (\<lambda>_.
     mbind (or_else (reopen env) (\<lambda>_. RestoreFailed)) (\<lambda>_.
     mbind (write_journal env (j\<lparr>jn_phase := ReplacementVerified\<rparr>)) (\<lambda>_.
     mbind (mlift (guard (fault \<noteq> AfterSwap) RestoreFailed)) (\<lambda>_.
       or_else (clear_scheduler_leases env) (\<lambda>_. RestoreFailed))))))))))"

definition restore_details :: "ustring \<Rightarrow> ustring \<Rightarrow> json" where
  "restore_details backup operation = JObj [(''backup_id'', JStr backup), (''operation_id'', JStr operation)]"

text \<open>Putting the backup of the former database back, after either kind of failure.\<close>

definition reinstall ::
  "('m, 's, 'z) restore_env_scheme \<Rightarrow> file_path \<Rightarrow> restore_journal \<Rightarrow> ('x, unit) stored" where
  "reinstall env pre_restore j =
     mbind (ignoring (write_journal env (j\<lparr>jn_phase := RollbackStarted\<rparr>))) (\<lambda>_.
     mbind (ignoring (checkpoint_and_close env)) (\<lambda>_.
     mbind (install_database env pre_restore (jn_operation_id j)) (\<lambda>_.
     mbind (ignoring (write_journal env (j\<lparr>jn_phase := PreRestoreReinstalled\<rparr>))) (\<lambda>_.
     mbind (or_else (reopen env) (\<lambda>_. RestoreFailed)) (\<lambda>_.
     mbind (ignoring (write_journal env (j\<lparr>jn_phase := RollbackVerified\<rparr>))) (\<lambda>_.
       or_else (clear_scheduler_leases env) (\<lambda>_. RestoreFailed)))))))"

definition roll_back ::
  "('m, 's, 'z) restore_env_scheme \<Rightarrow> file_path \<Rightarrow> restore_journal \<Rightarrow> ustring \<Rightarrow> admin_actor
     \<Rightarrow> ('m, 's, 'x, restore_outcome) restoring" where
  "roll_back env pre_restore j candidate who =
     mbind (reinstall env pre_restore j) (\<lambda>_.
     mbind (attempt (on_workloads env (restart_from_persisted (re_control env)))) (\<lambda>restart.
     mbind (ignoring (write_journal env (j\<lparr>jn_phase := WorkloadsRestartedOrHeld\<rparr>))) (\<lambda>_.
     mbind (storage_audit_append env ''restore_failed'' who ''failed'' (restore_details candidate (jn_operation_id j))) (\<lambda>_.
     mbind (ignoring (write_journal env (j\<lparr>jn_phase := FailedPhase\<rparr>))) (\<lambda>_.
     mbind (remove_journal env) (\<lambda>_.
       mlift (case restart of Inl e \<Rightarrow> Err e | Inr _ \<Rightarrow> Err RestoreFailed)))))))"

definition complete_restore ::
  "('m, 's, 'z) restore_env_scheme \<Rightarrow> restore_journal \<Rightarrow> ustring \<Rightarrow> admin_actor
     \<Rightarrow> ('x, restore_outcome) stored" where
  "complete_restore env j candidate who =
     mbind (write_journal env (j\<lparr>jn_phase := WorkloadsRestarted\<rparr>)) (\<lambda>_.
     mbind (storage_audit_append env ''restore_succeeded'' who ''succeeded''
              (restore_details candidate (jn_operation_id j))) (\<lambda>_.
     mbind (write_journal env (j\<lparr>jn_phase := Succeeded\<rparr>)) (\<lambda>_.
     mbind (remove_journal env) (\<lambda>_.
       mlift (Ok \<lparr>ro_operation_id = jn_operation_id j, ro_backup_id = candidate, ro_restored = True,
                  ro_rolled_back = False\<rparr>)))))"

definition exchange ::
  "('m, 's, 'z) restore_env_scheme \<Rightarrow> restore_fault \<Rightarrow> file_path \<Rightarrow> file_path \<Rightarrow> restore_journal \<Rightarrow> ustring
     \<Rightarrow> admin_actor \<Rightarrow> ('m, 's, 'x, restore_outcome) restoring" where
  "exchange env fault candidate_path pre_restore j candidate who =
     mbind (attempt (replace_live env fault candidate_path j)) (\<lambda>operation.
       case operation of
         Inl _ \<Rightarrow> roll_back env pre_restore j candidate who
       | Inr _ \<Rightarrow>
           mbind (attempt (mbind (reconcile env) (\<lambda>_.
                    on_workloads env (restart_from_persisted (re_control env))))) (\<lambda>completion.
             case completion of
               Inl _ \<Rightarrow>
                 mbind (ignoring (on_workloads env (quiesce_again (re_control env)))) (\<lambda>_.
                   roll_back env pre_restore j candidate who)
             | Inr _ \<Rightarrow> complete_restore env j candidate who))"

text \<open>What comes before the maintenance: the journal, the candidate and the backup of the live database.\<close>

definition prepare_restore ::
  "('m, 's, 'z) restore_env_scheme \<Rightarrow> ustring \<Rightarrow> admin_actor
     \<Rightarrow> ('x, restore_journal \<times> backup_record \<times> file_path \<times> file_path) stored" where
  "prepare_restore env i who =
     mbind (list_backups env) (\<lambda>records.
     mbind (mlift (ok_or BackupNotFound (find (offered i) records))) (\<lambda>requested.
     mbind (mlift (guard (safe_file_name (bk_file_name requested)) BackupInvalid)) (\<lambda>_.
     mbind (storage_id env) (\<lambda>operation.
     let j = \<lparr>jn_operation_id = ev_uuid_text env operation, jn_phase = Requested,
              jn_candidate_file = bk_file_name requested, jn_pre_restore_file = []\<rparr> in
     mbind (write_journal env j) (\<lambda>_.
     mbind (or_abandon env (download_backup env i)) (\<lambda>(candidate, candidate_path).
     mbind (write_journal env (j\<lparr>jn_phase := CandidateVerified\<rparr>)) (\<lambda>_.
     mbind (or_abandon env (create_backup env PreRestore who)) (\<lambda>pre_restore.
     mbind (or_abandon env (download_backup env (bk_id pre_restore))) (\<lambda>(_, pre_restore_path).
     let j' = j\<lparr>jn_pre_restore_file := bk_file_name pre_restore\<rparr> in
     mbind (write_journal env (j'\<lparr>jn_phase := PreRestoreBackupVerified\<rparr>)) (\<lambda>_.
       mlift (Ok (j', candidate, candidate_path, pre_restore_path))))))))))))"

definition restore ::
  "('m, 's, 'z) restore_env_scheme \<Rightarrow> ustring \<Rightarrow> ustring \<Rightarrow> admin_actor \<Rightarrow> restore_fault
     \<Rightarrow> ('m, 's, 'x, restore_outcome) restoring" where
  "restore env i confirmation who fault =
     (if confirmation \<noteq> restore_confirmation then mlift (Err RestoreConfirmation)
      else
        mbind (prepare_restore env i who) (\<lambda>(j, candidate, candidate_path, pre_restore_path).
        mbind (or_abandon env (on_workloads env (quiesce_for_maintenance (re_control env)))) (\<lambda>_.
        mbind (others_commit env) (\<lambda>_.
          holding_workloads
            (exchange env fault candidate_path pre_restore_path j (bk_id candidate) who)))))"

section \<open>Recovery at start-up\<close>

definition early_phase :: "restore_phase \<Rightarrow> bool" where
  "early_phase p \<longleftrightarrow> p \<in> {Requested, CandidateVerified}"

definition journal_ok :: "('m, 's, 'z) restore_env_scheme \<Rightarrow> restore_journal \<Rightarrow> bool" where
  "journal_ok env j \<longleftrightarrow> ev_is_uuid env (jn_operation_id j) \<and> safe_file_name (jn_candidate_file j)
     \<and> (\<not> early_phase (jn_phase j) \<longrightarrow> safe_file_name (jn_pre_restore_file j))"

definition repair :: "('m, 's, 'z) restore_env_scheme \<Rightarrow> instant \<Rightarrow> restore_journal \<Rightarrow> ('x, unit) stored" where
  "repair env now j =
     (if early_phase (jn_phase j)
      then mbind (verify_database_at env LiveFile now) (\<lambda>_. mlift (Ok ()))
      else if jn_phase j \<noteq> Succeeded then
        mbind (verify_database_at env (Backup (jn_pre_restore_file j)) now) (\<lambda>_.
        mbind (install_database env (Backup (jn_pre_restore_file j)) (jn_operation_id j)) (\<lambda>_.
        mbind (verify_database_at env LiveFile now) (\<lambda>_. mlift (Ok ()))))
      else mlift (Ok ()))"

definition recover_interrupted :: "('m, 's, 'z) restore_env_scheme \<Rightarrow> instant \<Rightarrow> ('x, bool) stored" where
  "recover_interrupted env now =
     mbind (quiet_call env BackupIo) (\<lambda>_ s.
       case file_at s journal_file of
         None \<Rightarrow> (Ok False, s)
       | Some b \<Rightarrow>
           (mbind (mlift (guard (length b \<le> 16 * 1024) BackupInvalid)) (\<lambda>_.
            mbind (mlift (ok_or BackupInvalid (re_parse_journal env b))) (\<lambda>j.
            mbind (mlift (guard (journal_ok env j) BackupInvalid)) (\<lambda>_.
            mbind (repair env now j) (\<lambda>_.
            mbind (remove_file env journal_file) (\<lambda>_.
            mbind (sync_directory env) (\<lambda>_. mlift (Ok True)))))))) s)"

end
