(* ===== verification/WebApi.thy ===== *)
theory WebApi
  imports Tools Cookies Lifecycle Restore
begin

text \<open>
  The JSON API of the browser interface, \<open>src/http/api/mod.rs\<close>: responses, the sign-in routes, the
  authorization of the other routes, the mapping of errors, and the headers of every response. A
  handler that returns early with a response fails with it; \<open>respond\<close> makes it the result. What the
  framework does before a handler runs (routing, decoding of bodies and paths) is not modelled.
\<close>

section \<open>Responses\<close>

datatype web_data =
    SessionData bool bool "ustring option" ustring "stamp option option"
  | LoggedOut
  | ItemData remindi
  | CheckedData "stamp option" "ready_item list" "cursor_text option"
  | ListedData "remindi list" "cursor_text option"
  | EventsData "remindi_event list" "completion_evidence option" "cursor_text option"
  | SettingsData "runtime_setting list"
  | SettingData runtime_setting
  | AdaptersData "adapter_config_view list"
  | AdapterData adapter_config_view
  | WorkloadsData "workload_status list"
  | AdminEventsData "admin_event list"
  | BackupsData "backup_record list"
  | BackupData backup_record
  | RestoreData restore_outcome
  | BootstrapData "(string \<times> json option \<times> bool \<times> bool \<times> bool) list"

datatype response_body =
    SuccessBody ustring web_data
  | ErrorBody ustring string string bool json
  | OtherBody "nat list"

record response =
  resp_status :: nat
  resp_headers :: header_map
  resp_body :: response_body

definition request_id_header :: "header_map \<Rightarrow> ustring" where
  "request_id_header headers =
     (case Option.bind (get_header headers ''x-request-id'') to_str of
        Some v \<Rightarrow> if v \<noteq> [] \<and> utf8_len v \<le> 128 then v else lit ''request-unavailable''
      | None \<Rightarrow> lit ''request-unavailable'')"

definition json_content :: "string \<times> nat list" where
  "json_content = (''content-type'', lit ''application/json'')"

definition success_response :: "header_map \<Rightarrow> web_data \<Rightarrow> response" where
  "success_response headers d =
     \<lparr>resp_status = 200, resp_headers = [json_content], resp_body = SuccessBody (request_id_header headers) d\<rparr>"

definition api_error :: "header_map \<Rightarrow> nat \<Rightarrow> string \<Rightarrow> string \<Rightarrow> bool \<Rightarrow> json option \<Rightarrow> response" where
  "api_error headers status code msg can_retry dets =
     \<lparr>resp_status = status, resp_headers = [json_content],
      resp_body = ErrorBody (request_id_header headers) code msg can_retry
                  (case dets of None \<Rightarrow> JObj [] | Some d \<Rightarrow> d)\<rparr>"

text \<open>\<open>HeaderMap::insert\<close> replaces every value of the name.\<close>

definition insert_header :: "string \<Rightarrow> nat list \<Rightarrow> response \<Rightarrow> response" where
  "insert_header name v r = r\<lparr>resp_headers := filter (\<lambda>(n, _). n \<noteq> name) (resp_headers r) @ [(name, v)]\<rparr>"

definition unauthenticated_response :: "header_map \<Rightarrow> response" where
  "unauthenticated_response headers =
     api_error headers 401 ''UNAUTHENTICATED'' ''Authentication is required.'' False None"

definition csrf_error :: "header_map \<Rightarrow> response" where
  "csrf_error headers = api_error headers 403 ''CSRF_REJECTED'' ''The browser request was rejected.'' False None"

fun service_error_response :: "header_map \<Rightarrow> service_error \<Rightarrow> response" where
  "service_error_response headers Validation =
     api_error headers 400 ''VALIDATION_ERROR'' ''Input failed validation.'' False None"
| "service_error_response headers InvalidCursor =
     api_error headers 400 ''VALIDATION_ERROR'' ''Input failed validation.'' False None"
| "service_error_response headers NotFound =
     api_error headers 404 ''NOT_FOUND'' ''The Remindi item was not found.'' False None"
| "service_error_response headers InvalidState =
     api_error headers 409 ''INVALID_STATE'' ''The operation is not allowed in the current state.'' False None"
| "service_error_response headers (VersionConflict current) =
     api_error headers 409 ''VERSION_CONFLICT'' ''The Remindi item changed since it was read.'' True
       (Some (JObj [(''current_version'', JNum (uint current))]))"
| "service_error_response headers IdempotencyKeyReused =
     api_error headers 409 ''IDEMPOTENCY_KEY_REUSED'' ''The idempotency key was reused with different input.'' False None"
| "service_error_response headers DatabaseBusy =
     api_error headers 503 ''DATABASE_BUSY'' ''The database is busy; retry the request.'' True None"
| "service_error_response headers MaintenanceActive =
     api_error headers 503 ''MAINTENANCE_ACTIVE'' ''Database maintenance is active; retry the request.'' True None"
| "service_error_response headers Internal =
     api_error headers 500 ''INTERNAL_ERROR'' ''The request could not be completed.'' False None"

section \<open>The site\<close>

text \<open>What the handlers share: the sessions, the world of the service, and the readings of the wall clock.\<close>

record site =
  st_web :: web_state
  st_world :: world
  st_now :: nat

record site_env =
  se_policy :: web_policy
  se_web :: web_outside
  se_service :: env
  se_time :: time_outside
  se_now :: "nat \<Rightarrow> instant"

type_synonym ('x, 'e, 'a) on_site = "('x site_scheme, 'e, 'a) effect"
type_synonym ('x, 'a) handler = "('x site_scheme, response, 'a) effect"

definition now_utc :: "site_env \<Rightarrow> ('x, 'e, instant) on_site" where
  "now_utc se = (\<lambda>s. (Ok (se_now se (st_now s)), s\<lparr>st_now := st_now s + 1\<rparr>))"

definition on_web :: "('e, 'a) web \<Rightarrow> ('x, 'e, 'a) on_site" where
  "on_web m = (\<lambda>s. let (r, w) = m (st_web s) in (r, s\<lparr>st_web := w\<rparr>))"

definition on_world :: "('e, 'a) action \<Rightarrow> ('x, 'e, 'a) on_site" where
  "on_world m = (\<lambda>s. let (r, w) = m (st_world s) in (r, s\<lparr>st_world := w\<rparr>))"

definition respond :: "('s, response, response) effect \<Rightarrow> ('s, unit, response) effect" where
  "respond h = (\<lambda>s. case h s of
       (Inr r, s') \<Rightarrow> (Ok r, s')
     | (Inl (Fail r), s') \<Rightarrow> (Ok r, s')
     | (Inl Panic, s') \<Rightarrow> (Inl Panic, s')
     | (Inl Diverge, s') \<Rightarrow> (Inl Diverge, s'))"

section \<open>Sign-in routes\<close>

text \<open>\<open>canonical_timestamp(..).unwrap_or("invalid")\<close>: \<open>None\<close> is the word.\<close>

definition format_time :: "instant \<Rightarrow> ('e, stamp option) res" where
  "format_time t =
     (case canonical_timestamp t of
        Inr s \<Rightarrow> Ok (Some s) | Inl (Fail _) \<Rightarrow> Ok None | Inl Panic \<Rightarrow> Inl Panic | Inl Diverge \<Rightarrow> Inl Diverge)"

definition internal_error :: "header_map \<Rightarrow> response" where
  "internal_error headers = api_error headers 500 ''INTERNAL_ERROR'' ''The request could not be completed.'' False None"

definition session_route :: "site_env \<Rightarrow> header_map \<Rightarrow> ('x, response) handler" where
  "session_route se headers =
     mbind (now_utc se) (\<lambda>now.
     mbind (attempt (on_web (web_authenticate (se_policy se) headers now))) (\<lambda>r.
     case r of
       Inr v \<Rightarrow>
         (let required = wp_mode (se_policy se) = WebAuthenticated in
          mbind (mlift (if required then rbind (format_time (sv_expires_at v)) (\<lambda>t. Ok (Some t)) else Ok None)) (\<lambda>expires.
            mlift (Ok (success_response headers
              (SessionData True required (Some (sv_actor_id v)) (sv_csrf_token v) expires)))))
     | Inl SessionDisabled \<Rightarrow>
         mlift (Err (api_error headers 404 ''NOT_FOUND'' ''The requested resource was not found.'' False None))
     | Inl _ \<Rightarrow>
         mbind (or_else (on_web (issue_pre_session_token (se_web se) (se_policy se) now)) (\<lambda>_. internal_error headers)) (\<lambda>token.
           mlift (Ok (success_response headers (SessionData False True None token None))))))"

text \<open>The one token header of a sign-in.\<close>

definition sign_in_token :: "header_map \<Rightarrow> ustring option" where
  "sign_in_token headers =
     (if length (get_all headers csrf_header) = 1 then Option.bind (get_header headers csrf_header) to_str else None)"

fun login_error_response :: "header_map \<Rightarrow> login_error \<Rightarrow> response" where
  "login_error_response headers CsrfRejected = csrf_error headers"
| "login_error_response headers RateLimited =
     api_error headers 429 ''LIMIT_EXCEEDED'' ''Sign-in is temporarily unavailable.'' False None"
| "login_error_response headers InvalidCredentials =
     api_error headers 401 ''UNAUTHENTICATED'' ''Sign-in failed.'' False None"
| "login_error_response headers LoginDisabled =
     api_error headers 401 ''UNAUTHENTICATED'' ''Sign-in failed.'' False None"
| "login_error_response headers Randomness = internal_error headers"

definition login_route :: "site_env \<Rightarrow> header_map \<Rightarrow> ustring \<Rightarrow> ustring \<Rightarrow> ('x, response) handler" where
  "login_route se headers username password =
     mbind (mlift (map_err (\<lambda>_. csrf_error headers) (validate_same_origin headers))) (\<lambda>_.
     mbind (mlift (ok_or (csrf_error headers) (sign_in_token headers))) (\<lambda>token.
     mbind (now_utc se) (\<lambda>now.
     mbind (or_else (on_web (web_login (se_web se) (se_policy se) username password token now))
              (login_error_response headers)) (\<lambda>(v, cookie).
     mbind (mlift (format_time (sv_expires_at v))) (\<lambda>expires.
       mlift (Ok (insert_header ''set-cookie'' cookie (success_response headers
         (SessionData True True (Some (sv_actor_id v)) (sv_csrf_token v) (Some expires))))))))))"

text \<open>Who acts, for a request that reads and for one that may change something.\<close>

definition user_actor :: "header_map \<Rightarrow> session_view \<Rightarrow> actor" where
  "user_actor headers v =
     \<lparr>actor_type = A_User, actor_id = sv_actor_id v, request_id = Some (request_id_header headers)\<rparr>"

definition current_session :: "site_env \<Rightarrow> header_map \<Rightarrow> ('x, session_view) handler" where
  "current_session se headers =
     mbind (now_utc se) (\<lambda>now.
       or_else (on_web (web_authenticate (se_policy se) headers now)) (\<lambda>_. unauthenticated_response headers))"

definition web_actor :: "site_env \<Rightarrow> header_map \<Rightarrow> ('x, actor) handler" where
  "web_actor se headers = mbind (current_session se headers) (\<lambda>v. mlift (Ok (user_actor headers v)))"

definition authorize_mutation :: "site_env \<Rightarrow> header_map \<Rightarrow> http_method \<Rightarrow> ('x, actor) handler" where
  "authorize_mutation se headers method =
     mbind (current_session se headers) (\<lambda>v.
     mbind (mlift (map_err (\<lambda>_. csrf_error headers) (validate_mutation method headers (sv_csrf_token v)))) (\<lambda>_.
       mlift (Ok (user_actor headers v))))"

definition post :: http_method where "post = OtherMethod ''POST''"
definition patch_method :: http_method where "patch_method = OtherMethod ''PATCH''"

definition logout_route :: "site_env \<Rightarrow> header_map \<Rightarrow> ('x, response) handler" where
  "logout_route se headers =
     mbind (authorize_mutation se headers post) (\<lambda>_.
     mbind (on_web (web_logout (se_policy se) headers)) (\<lambda>cookie.
       mlift (Ok (insert_header ''set-cookie'' cookie (success_response headers LoggedOut)))))"

fun reauthenticate_error_response :: "header_map \<Rightarrow> login_error \<Rightarrow> response" where
  "reauthenticate_error_response headers RateLimited =
     api_error headers 429 ''LIMIT_EXCEEDED'' ''Password verification is temporarily unavailable.'' False None"
| "reauthenticate_error_response headers _ =
     api_error headers 401 ''REAUTHENTICATION_REQUIRED'' ''Recent password verification is required.'' False None"

definition reauthenticate_route :: "site_env \<Rightarrow> header_map \<Rightarrow> ustring \<Rightarrow> ('x, response) handler" where
  "reauthenticate_route se headers password =
     mbind (authorize_mutation se headers post) (\<lambda>_.
     mbind (now_utc se) (\<lambda>now.
     mbind (or_else (on_web (reauthenticate (se_web se) (se_policy se) headers password now))
              (reauthenticate_error_response headers)) (\<lambda>(v, set_cookie).
     mbind (mlift (format_time (sv_expires_at v))) (\<lambda>expires.
     let r = success_response headers (SessionData True (wp_mode (se_policy se) = WebAuthenticated)
               (Some (sv_actor_id v)) (sv_csrf_token v) (Some expires))
     in mlift (Ok (case set_cookie of None \<Rightarrow> r | Some cookie \<Rightarrow> insert_header ''set-cookie'' cookie r))))))"

section \<open>Headers of every response\<close>

definition quoted :: "string \<Rightarrow> string" where
  "quoted s = CHR 0x27 # s @ [CHR 0x27]"

definition content_security_policy :: string where
  "content_security_policy =
     ''default-src '' @ quoted ''self'' @ ''; script-src '' @ quoted ''self'' @ ''; style-src '' @ quoted ''self''
     @ ''; img-src '' @ quoted ''self'' @ '' data:; object-src '' @ quoted ''none'' @ ''; base-uri '' @ quoted ''none''
     @ ''; frame-ancestors '' @ quoted ''none'' @ ''; form-action '' @ quoted ''self''"

definition is_json_response :: "response \<Rightarrow> bool" where
  "is_json_response r \<longleftrightarrow>
     (case Option.bind (get_header (resp_headers r) ''content-type'') to_str of
        None \<Rightarrow> False | Some v \<Rightarrow> strip_prefix (lit ''application/json'') v \<noteq> None)"

text \<open>What the framework rejects in plain text becomes an error of the API.\<close>

definition framework_rejection :: "header_map \<Rightarrow> response \<Rightarrow> response" where
  "framework_rejection headers r =
     (if \<not> is_json_response r \<and> resp_status r \<in> {400, 413, 415, 422} then
        if resp_status r = 413
        then api_error headers 413 ''LIMIT_EXCEEDED'' ''The request body exceeded the configured limit.'' False None
        else api_error headers (resp_status r) ''VALIDATION_ERROR'' ''Input failed validation.'' False None
      else r)"

definition policy_headers :: "header_map" where
  "policy_headers =
     [(''content-security-policy'', lit content_security_policy), (''x-frame-options'', lit ''DENY''),
      (''x-content-type-options'', lit ''nosniff''), (''referrer-policy'', lit ''no-referrer''),
      (''cache-control'', lit ''no-store'')]"

definition security_headers :: "header_map \<Rightarrow> response \<Rightarrow> response" where
  "security_headers headers r =
     fold (\<lambda>(name, v). insert_header name v) policy_headers (framework_rejection headers r)"

end
