(* ===== verification/WebRemindi.thy ===== *)
theory WebRemindi
  imports WebApi
begin

text \<open>
  The item routes of the browser interface, \<open>src/http/api/remindi.rs\<close>: the bodies and queries, their
  conversion to the requests of the service, and one handler per route.
\<close>

section \<open>Bodies and queries\<close>

datatype web_priority = WebLow | WebNormal | WebHigh | WebCritical

primrec web_priority_of :: "web_priority \<Rightarrow> priority_level" where
  "web_priority_of WebLow = Low"
| "web_priority_of WebNormal = priority_level.Normal"
| "web_priority_of WebHigh = High"
| "web_priority_of WebCritical = Critical"

datatype web_trigger =
    WebAtTime ustring
  | WebAfterElapsed u64
  | WebInterval ustring u64
  | WebNextSession
  | WebNextContinuation
  | WebGoalActive ustring
  | WebCondition ustring json "u64 option" "ustring option"

definition web_time :: "time_outside \<Rightarrow> ustring \<Rightarrow> (unit, instant) res" where
  "web_time out v = map_err (\<lambda>_. ()) (parse_timestamp (to_rfc3339 out) v)"

fun web_trigger_of :: "time_outside \<Rightarrow> web_trigger \<Rightarrow> (unit, trigger_spec) res" where
  "web_trigger_of out (WebAtTime at) = rbind (web_time out at) (\<lambda>t. Ok (AtTime t))"
| "web_trigger_of out (WebAfterElapsed n) = Ok (AfterElapsed n)"
| "web_trigger_of out (WebInterval first every) = rbind (web_time out first) (\<lambda>t. Ok (Interval t every))"
| "web_trigger_of out WebNextSession = Ok NextSession"
| "web_trigger_of out WebNextContinuation = Ok NextContinuation"
| "web_trigger_of out (WebGoalActive g) = Ok (GoalActive g)"
| "web_trigger_of out (WebCondition adapter params poll manual) =
     rbind (transpose_map (web_time out) manual) (\<lambda>m. Ok (Condition adapter params poll m))"

record web_recurrence =
  br_every_seconds :: u64
  br_missed_policy :: missed_policy_kind
  br_max_occurrences :: "u64 option"
  br_end_at :: "ustring option"

definition web_recurrence_of :: "time_outside \<Rightarrow> web_recurrence \<Rightarrow> (unit, recurrence_spec) res" where
  "web_recurrence_of out r =
     rbind (transpose_map (web_time out) (br_end_at r)) (\<lambda>until.
       Ok \<lparr>every_seconds = br_every_seconds r, missed_policy = br_missed_policy r,
           max_occurrences = br_max_occurrences r, end_at = until\<rparr>)"

record web_link =
  bl_type :: link_type_kind
  bl_value :: ustring

definition web_link_of :: "web_link \<Rightarrow> link_input" where
  "web_link_of l = \<lparr>li_type = bl_type l, li_value = bl_value l\<rparr>"

record add_item_body =
  ba_project_id :: ustring
  ba_task_id :: "ustring option"
  ba_message :: ustring
  ba_instructions :: "ustring option"
  ba_priority :: web_priority
  ba_trigger :: web_trigger
  ba_recurrence :: "web_recurrence option"
  ba_overdue_after_seconds :: u64
  ba_links :: "web_link list"
  ba_session_id :: "ustring option"
  ba_task_lineage_id :: "ustring option"
  ba_idempotency_key :: ustring

record check_body =
  bk_project_id :: ustring
  bk_task_id :: "ustring option"
  bk_session_id :: "ustring option"
  bk_task_lineage_id :: "ustring option"
  bk_lifecycle_event :: lifecycle_event_kind
  bk_active_goal_ids :: "ustring list"
  bk_include_scheduled :: bool
  bk_limit :: nat
  bk_cursor :: "cursor_text option"

text \<open>The dates of these two bodies are decoded with the body.\<close>

record web_evidence =
  be_type :: evidence_type_kind
  be_summary :: ustring
  be_reference_uri :: "ustring option"
  be_content_hash :: "ustring option"
  be_observed_at :: instant
  be_metadata :: "json option"

record complete_body =
  bm_expected_version :: u64
  bm_evidence :: web_evidence
  bm_completion_note :: "ustring option"
  bm_idempotency_key :: ustring

record snooze_body =
  bs_expected_version :: u64
  bs_snooze_until :: instant
  bs_reason :: ustring
  bs_idempotency_key :: ustring

record cancel_body =
  bx_expected_version :: u64
  bx_reason :: ustring
  bx_idempotency_key :: ustring

datatype 'a web_patch = WebUnset | WebNull | WebValue 'a

record update_body =
  bu_expected_version :: u64
  bu_message :: "ustring option"
  bu_instructions :: "ustring web_patch"
  bu_priority :: "web_priority option"
  bu_trigger :: "web_trigger option"
  bu_recurrence :: "web_recurrence web_patch"
  bu_overdue_after_seconds :: "u64 option"
  bu_links :: "web_link list option"
  bu_disposition :: "occurrence_disposition option"
  bu_reason :: ustring
  bu_idempotency_key :: ustring

record list_query =
  bq_project_id :: "ustring option"
  bq_task_id :: "ustring option"
  bq_states :: "ustring option"
  bq_trigger_types :: "ustring option"
  bq_linked_goal_id :: "ustring option"
  bq_linked_memory_hash :: "ustring option"
  bq_limit :: nat
  bq_cursor :: "cursor_text option"

record history_query =
  bh_after_sequence :: "int option"
  bh_event_types :: "ustring option"
  bh_limit :: nat
  bh_cursor :: "cursor_text option"

definition comma_strings :: "ustring option \<Rightarrow> ustring list" where
  "comma_strings v = (case v of None \<Rightarrow> [] | Some s \<Rightarrow> filter (\<lambda>p. p \<noteq> []) (split_char 44 s))"

definition parse_name :: "('a \<Rightarrow> string) \<Rightarrow> 'a list \<Rightarrow> ustring \<Rightarrow> (unit, 'a) res" where
  "parse_name name variants s = ok_or () (find (\<lambda>v. lit (name v) = s) variants)"

definition comma_values :: "(ustring \<Rightarrow> (unit, 'a) res) \<Rightarrow> ustring option \<Rightarrow> (unit, 'a list) res" where
  "comma_values parse v = collect_map parse (comma_strings v)"

section \<open>Requests\<close>

definition web_add_request :: "time_outside \<Rightarrow> add_item_body \<Rightarrow> (unit, add_request) res" where
  "web_add_request out b =
     rbind (web_trigger_of out (ba_trigger b)) (\<lambda>trig.
     rbind (transpose_map (web_recurrence_of out) (ba_recurrence b)) (\<lambda>recur.
       Ok \<lparr>ar_project_id = ba_project_id b, ar_task_id = ba_task_id b, ar_message = ba_message b,
           ar_instructions = ba_instructions b, ar_priority = web_priority_of (ba_priority b), ar_trigger = trig,
           ar_recurrence = recur, ar_overdue_after_seconds = ba_overdue_after_seconds b,
           ar_links = map web_link_of (ba_links b), ar_session_id = ba_session_id b,
           ar_task_lineage_id = ba_task_lineage_id b, ar_idempotency_key = ba_idempotency_key b\<rparr>))"

definition web_check_request :: "check_body \<Rightarrow> check_request" where
  "web_check_request b =
     \<lparr>kr_project_id = bk_project_id b, kr_task_id = bk_task_id b, kr_session_id = bk_session_id b,
      kr_task_lineage_id = bk_task_lineage_id b, kr_lifecycle_event = bk_lifecycle_event b,
      kr_active_goal_ids = bk_active_goal_ids b, kr_include_scheduled = bk_include_scheduled b,
      kr_limit = bk_limit b, kr_cursor = bk_cursor b\<rparr>"

definition web_complete_request :: "uuid \<Rightarrow> complete_body \<Rightarrow> complete_request" where
  "web_complete_request i b =
     (let e = bm_evidence b in
      \<lparr>cr_remindi_id = i, cr_expected_version = bm_expected_version b,
       cr_evidence = \<lparr>evidence_type = be_type e, summary = be_summary e, reference_uri = be_reference_uri e,
                      content_hash = be_content_hash e, observed_at = be_observed_at e,
                      metadata = be_metadata e, source = AuthenticatedActor\<rparr>,
       cr_completion_note = bm_completion_note b, cr_idempotency_key = bm_idempotency_key b\<rparr>)"

definition web_snooze_request :: "uuid \<Rightarrow> snooze_body \<Rightarrow> snooze_request" where
  "web_snooze_request i b =
     \<lparr>sr_remindi_id = i, sr_expected_version = bs_expected_version b, sr_snooze_until = bs_snooze_until b,
      sr_reason = bs_reason b, sr_idempotency_key = bs_idempotency_key b\<rparr>"

definition web_cancel_request :: "uuid \<Rightarrow> cancel_body \<Rightarrow> cancel_request" where
  "web_cancel_request i b =
     \<lparr>xr_remindi_id = i, xr_expected_version = bx_expected_version b, xr_reason = bx_reason b,
      xr_idempotency_key = bx_idempotency_key b\<rparr>"

fun option_of_web_patch :: "'a web_patch \<Rightarrow> 'a option option" where
  "option_of_web_patch WebUnset = None"
| "option_of_web_patch WebNull = Some None"
| "option_of_web_patch (WebValue v) = Some (Some v)"

definition web_update_request :: "time_outside \<Rightarrow> uuid \<Rightarrow> update_body \<Rightarrow> (unit, update_request) res" where
  "web_update_request out i b =
     rbind (transpose_map (web_trigger_of out) (bu_trigger b)) (\<lambda>trig.
     rbind (transpose_map (transpose_map (web_recurrence_of out)) (option_of_web_patch (bu_recurrence b))) (\<lambda>recur.
       Ok \<lparr>ur_remindi_id = i, ur_expected_version = bu_expected_version b, ur_message = bu_message b,
           ur_instructions = option_of_web_patch (bu_instructions b),
           ur_priority = map_option web_priority_of (bu_priority b), ur_trigger = trig, ur_recurrence = recur,
           ur_overdue_after_seconds = bu_overdue_after_seconds b,
           ur_links = map_option (map web_link_of) (bu_links b), ur_disposition = bu_disposition b,
           ur_reason = bu_reason b, ur_idempotency_key = bu_idempotency_key b\<rparr>))"

definition web_list_request :: "list_query \<Rightarrow> (unit, list_request) res" where
  "web_list_request q =
     rbind (comma_values (parse_name state_name state_variants) (bq_states q)) (\<lambda>states.
       Ok \<lparr>lr_project_id = bq_project_id q, lr_task_id = bq_task_id q, lr_states = states,
           lr_trigger_types = comma_strings (bq_trigger_types q), lr_linked_goal_id = bq_linked_goal_id q,
           lr_linked_memory_hash = bq_linked_memory_hash q, lr_limit = bq_limit q, lr_cursor = bq_cursor q\<rparr>)"

definition web_history_request :: "uuid \<Rightarrow> history_query \<Rightarrow> (unit, history_request) res" where
  "web_history_request i q =
     rbind (comma_values (parse_name event_type_name event_type_variants) (bh_event_types q)) (\<lambda>types.
       Ok \<lparr>hr_remindi_id = i, hr_after_sequence = bh_after_sequence q, hr_event_types = types,
           hr_limit = bh_limit q, hr_cursor = bh_cursor q\<rparr>)"

section \<open>Routes\<close>

definition service_call :: "header_map \<Rightarrow> 'a svc \<Rightarrow> ('x, 'a) handler" where
  "service_call headers m = or_else (on_world m) (service_error_response headers)"

definition converted :: "header_map \<Rightarrow> (unit, 'a) res \<Rightarrow> ('x, 'a) handler" where
  "converted headers r = mlift (map_err (\<lambda>_. service_error_response headers Validation) r)"

text \<open>
  \<open>json!\<close> panics when a value cannot be written: an item whose trigger or recurrence holds an
  instant without an RFC 3339 text.
\<close>

definition item_writable :: "remindi \<Rightarrow> bool" where
  "item_writable item \<longleftrightarrow> trigger_serializable (trigger item) \<and> recurrence_serializable (recurrence item)"

definition item_response :: "header_map \<Rightarrow> remindi \<Rightarrow> (response, response) res" where
  "item_response headers item =
     (if item_writable item then Ok (success_response headers (ItemData item)) else Inl Panic)"

definition add_route :: "site_env \<Rightarrow> header_map \<Rightarrow> add_item_body \<Rightarrow> ('x, response) handler" where
  "add_route se headers b =
     mbind (authorize_mutation se headers post) (\<lambda>a.
     mbind (converted headers (web_add_request (se_time se) b)) (\<lambda>req.
     mbind (service_call headers (add (se_service se) a req)) (\<lambda>item.
       mlift (item_response headers item))))"

text \<open>The time of a check is shown as null when it has no text.\<close>

definition shown_time_of_check :: "instant \<Rightarrow> (response, stamp option) res" where
  "shown_time_of_check t = format_time t"

definition check_route :: "site_env \<Rightarrow> header_map \<Rightarrow> check_body \<Rightarrow> ('x, response) handler" where
  "check_route se headers b =
     mbind (authorize_mutation se headers post) (\<lambda>a.
     mbind (service_call headers (check (se_service se) a (web_check_request b))) (\<lambda>result.
     mbind (mlift (shown_time_of_check (kt_checked_at result))) (\<lambda>at.
       mlift (Ok (success_response headers
         (CheckedData at (map ready_item_of (kt_items result)) (kt_next_cursor result)))))))"

definition list_route :: "site_env \<Rightarrow> header_map \<Rightarrow> list_query \<Rightarrow> ('x, response) handler" where
  "list_route se headers q =
     mbind (web_actor se headers) (\<lambda>a.
     mbind (converted headers (web_list_request q)) (\<lambda>req.
     mbind (service_call headers (list_items (se_service se) a req)) (\<lambda>(items, cursor).
       mlift (if list_all item_writable items then Ok (success_response headers (ListedData items cursor)) else Inl Panic))))"

definition detail_route :: "site_env \<Rightarrow> header_map \<Rightarrow> uuid \<Rightarrow> ('x, response) handler" where
  "detail_route se headers i =
     mbind (web_actor se headers) (\<lambda>a.
     mbind (service_call headers (get_item (se_service se) a i)) (\<lambda>item. mlift (item_response headers item)))"

definition complete_route :: "site_env \<Rightarrow> header_map \<Rightarrow> uuid \<Rightarrow> complete_body \<Rightarrow> ('x, response) handler" where
  "complete_route se headers i b =
     mbind (authorize_mutation se headers post) (\<lambda>a.
     mbind (service_call headers (complete (se_service se) a (web_complete_request i b) (from_secs 300))) (\<lambda>item.
       mlift (item_response headers item)))"

definition snooze_route :: "site_env \<Rightarrow> header_map \<Rightarrow> uuid \<Rightarrow> snooze_body \<Rightarrow> ('x, response) handler" where
  "snooze_route se headers i b =
     mbind (authorize_mutation se headers post) (\<lambda>a.
     mbind (service_call headers (snooze (se_service se) a (web_snooze_request i b) (from_secs 31536000))) (\<lambda>item.
       mlift (item_response headers item)))"

definition update_route :: "site_env \<Rightarrow> header_map \<Rightarrow> uuid \<Rightarrow> update_body \<Rightarrow> ('x, response) handler" where
  "update_route se headers i b =
     mbind (authorize_mutation se headers patch_method) (\<lambda>a.
     mbind (converted headers (web_update_request (se_time se) i b)) (\<lambda>req.
     mbind (service_call headers (update (se_service se) a req)) (\<lambda>item. mlift (item_response headers item))))"

definition cancel_route :: "site_env \<Rightarrow> header_map \<Rightarrow> uuid \<Rightarrow> cancel_body \<Rightarrow> ('x, response) handler" where
  "cancel_route se headers i b =
     mbind (authorize_mutation se headers post) (\<lambda>a.
     mbind (service_call headers (cancel (se_service se) a (web_cancel_request i b))) (\<lambda>item.
       mlift (item_response headers item)))"

definition history_route :: "site_env \<Rightarrow> header_map \<Rightarrow> uuid \<Rightarrow> history_query \<Rightarrow> ('x, response) handler" where
  "history_route se headers i q =
     mbind (web_actor se headers) (\<lambda>a.
     mbind (converted headers (web_history_request i q)) (\<lambda>req.
     mbind (service_call headers (history (se_service se) a req)) (\<lambda>page.
       mlift (Ok (success_response headers (EventsData (hp_items page) (hp_evidence page) (hp_next_cursor page)))))))"

end
