(* ===== verification/SiteGuarantees.thy ===== *)
theory SiteGuarantees
  imports WebRemindi
begin

text \<open>
  What the browser interface guarantees as a whole: requests without a session or without its
  token do nothing, whatever was committed names the user who signed in, the browser and the tools
  agree, and every response carries the policy headers.
\<close>

section \<open>Inversion\<close>

lemma or_else_Inr [effect_simps]: "or_else m f s = (Inr x, s') \<longleftrightarrow> m s = (Inr x, s')"
  by (auto simp: or_else_def res_simps split: prod.splits)

lemma on_world_eq: "on_world m s = (r, s') \<longleftrightarrow> (\<exists>w. m (st_world s) = (r, w) \<and> s' = s\<lparr>st_world := w\<rparr>)"
  by (auto simp: on_world_def split: prod.splits)

lemma on_web_eq: "on_web m s = (r, s') \<longleftrightarrow> (\<exists>w. m (st_web s) = (r, w) \<and> s' = s\<lparr>st_web := w\<rparr>)"
  by (auto simp: on_web_def split: prod.splits)

lemma current_session_Inr:
  "current_session se headers s = (Inr v, s') \<longleftrightarrow>
     (\<exists>w. web_authenticate (se_policy se) headers (se_now se (st_now s)) (st_web s) = (Inr v, w)
        \<and> s' = s\<lparr>st_now := st_now s + 1, st_web := w\<rparr>)"
  by (auto simp: current_session_def now_utc_def mbind_eq_Inr or_else_Inr on_web_eq)

lemma authenticate_no_panic: "web_authenticate p headers now w = (Inl x, w') \<Longrightarrow> \<exists>f. x = Fail f"
  by (auto simp: web_authenticate_def split: web_mode.splits option.splits if_splits)

lemma current_session_Inl:
  assumes "current_session se headers s = (Inl e, s')"
  shows "e = Fail (unauthenticated_response headers)" and "st_world s' = st_world s"
    and "\<nexists>v. fst (web_authenticate (se_policy se) headers (se_now se (st_now s)) (st_web s)) = Inr v"
proof -
  obtain r w where a: "web_authenticate (se_policy se) headers (se_now se (st_now s)) (st_web s) = (r, w)" by fastforce
  with assms have e: "map_err (\<lambda>_. unauthenticated_response headers) r = Inl e" "s' = s\<lparr>st_now := st_now s + 1, st_web := w\<rparr>"
    by (auto simp: current_session_def now_utc_def mbind_def or_else_def on_web_def)
  then obtain x where r: "r = Inl x" by (cases r) auto
  with authenticate_no_panic a obtain f where "x = Fail f" by blast
  with e r a show "e = Fail (unauthenticated_response headers)" "st_world s' = st_world s"
    "\<nexists>v. fst (web_authenticate (se_policy se) headers (se_now se (st_now s)) (st_web s)) = Inr v" by simp_all
qed

section \<open>The changes a browser may ask for\<close>

datatype web_mutation =
    WebAdd add_item_body
  | WebCheck check_body
  | WebComplete uuid complete_body
  | WebSnooze uuid snooze_body
  | WebUpdate uuid update_body
  | WebCancel uuid cancel_body

fun mutation_route :: "site_env \<Rightarrow> header_map \<Rightarrow> web_mutation \<Rightarrow> ('x, response) handler" where
  "mutation_route se headers (WebAdd b) = add_route se headers b"
| "mutation_route se headers (WebCheck b) = check_route se headers b"
| "mutation_route se headers (WebComplete i b) = complete_route se headers i b"
| "mutation_route se headers (WebSnooze i b) = snooze_route se headers i b"
| "mutation_route se headers (WebUpdate i b) = update_route se headers i b"
| "mutation_route se headers (WebCancel i b) = cancel_route se headers i b"

fun mutation_method :: "web_mutation \<Rightarrow> http_method" where
  "mutation_method (WebUpdate _ _) = patch_method"
| "mutation_method _ = post"

text \<open>A request may act if its session is accepted and it passes the CSRF checks of that session.\<close>

definition may_act :: "site_env \<Rightarrow> header_map \<Rightarrow> http_method \<Rightarrow> 'x site_scheme \<Rightarrow> bool" where
  "may_act se headers method s \<longleftrightarrow>
     (\<exists>v. fst (web_authenticate (se_policy se) headers (se_now se (st_now s)) (st_web s)) = Ok v
        \<and> validate_mutation method headers (sv_csrf_token v) = Ok ())"

lemma validate_no_panic: "validate_mutation method headers token = Inl x \<Longrightarrow> \<exists>f. x = Fail f"
  by (auto simp: validate_mutation_def validate_same_origin_def rbind_def ok_or_def guard_def
      split: sum.splits option.splits if_splits)

lemma authorize_Inl:
  assumes "authorize_mutation se headers method s = (Inl e, s')"
  shows "(e = Fail (unauthenticated_response headers) \<or> e = Fail (csrf_error headers)) \<and> st_world s' = st_world s
     \<and> \<not> may_act se headers method s"
  using assms [unfolded authorize_mutation_def mbind_eq_Inl mlift_eq]
proof (elim disjE exE conjE)
  assume "current_session se headers s = (Inl e, s')"
  from current_session_Inl [OF this] show ?thesis by (auto simp: may_act_def)
next
  fix v s1
  assume v: "current_session se headers s = (Inr v, s1)" and e: "Inl e = map_err (\<lambda>_. csrf_error headers) (validate_mutation method headers (sv_csrf_token v))"
    and s1: "s' = s1"
  then obtain f where f: "validate_mutation method headers (sv_csrf_token v) = Inl (Fail f)" "e = Fail (csrf_error headers)"
    by (cases "validate_mutation method headers (sv_csrf_token v)") (auto dest: validate_no_panic)
  from v s1 f show ?thesis by (auto simp: current_session_Inr may_act_def)
qed auto

lemma authorize_Inr:
  "authorize_mutation se headers method s = (Inr a, s') \<longleftrightarrow>
     (\<exists>v w. web_authenticate (se_policy se) headers (se_now se (st_now s)) (st_web s) = (Inr v, w)
        \<and> validate_mutation method headers (sv_csrf_token v) = Inr () \<and> a = user_actor headers v
        \<and> s' = s\<lparr>st_now := st_now s + 1, st_web := w\<rparr>)"
  by (auto simp: authorize_mutation_def mbind_eq_Inr mlift_Inr current_session_Inr res_simps)

lemma authorize_may_act: "authorize_mutation se headers method s = (Inr a, s') \<Longrightarrow> may_act se headers method s"
  by (auto simp: authorize_Inr may_act_def)

lemma route_authorizes:
  obtains f where "mutation_route se headers m = mbind (authorize_mutation se headers (mutation_method m)) f"
  by (cases m) (auto simp: add_route_def check_route_def complete_route_def snooze_route_def update_route_def
      cancel_route_def)

text \<open>
  C35: A request to change something without an accepted session, or without the Host, Origin and
  token that the session asks for, is answered with 401 or 403 and leaves the world of the service
  untouched.
\<close>

theorem unauthorized_requests_inert:
  fixes s :: "'x site_scheme"
  assumes "\<not> may_act se headers (mutation_method m) s"
  shows "\<exists>r s'. respond (mutation_route se headers m) s = (Ok r, s') \<and> resp_status r \<in> {401, 403}
     \<and> st_world s' = st_world s"
proof -
  obtain f :: "actor \<Rightarrow> ('x, response) handler"
    where f: "mutation_route se headers m = mbind (authorize_mutation se headers (mutation_method m)) f"
    by (rule route_authorizes)
  obtain r s' where a: "authorize_mutation se headers (mutation_method m) s = (r, s')" by fastforce
  with assms authorize_may_act obtain e where e: "r = Inl e" by (cases r) blast+
  from authorize_Inl [OF a [unfolded e]] obtain x where x: "e = Fail x" "resp_status x \<in> {401, 403}" "st_world s' = st_world s"
    by (auto simp: unauthenticated_response_def csrf_error_def api_error_def)
  have "respond (mutation_route se headers m) s = (Ok x, s')"
    by (simp add: respond_def f mbind_def a e x(1))
  with x(2,3) show ?thesis by blast
qed

section \<open>Every response\<close>

lemma inserted_header: "get_all (resp_headers (insert_header n v r)) m = (if m = n then [v] else get_all (resp_headers r) m)"
proof -
  have "filter (\<lambda>(k, _). k = m) (filter (\<lambda>(k, _). k \<noteq> n) hs) = (if m = n then [] else filter (\<lambda>(k, _). k = m) hs)"
    for hs :: header_map
    by (induction hs) auto
  then show ?thesis by (simp add: insert_header_def get_all_def)
qed

lemma inserted_status [simp]: "resp_status (insert_header n v r) = resp_status r"
  by (simp add: insert_header_def)

lemma inserted_json: "n \<noteq> ''content-type'' \<Longrightarrow> is_json_response (insert_header n v r) = is_json_response r"
  by (simp add: is_json_response_def get_header_def inserted_header)

lemma rejection_json: "resp_status (framework_rejection headers r) \<in> {400, 413, 415, 422} \<Longrightarrow> is_json_response (framework_rejection headers r)"
proof -
  have "is_json_response (api_error headers status code msg b d)" for status code msg b d
    by (simp add: is_json_response_def api_error_def json_content_def get_header_def get_all_def to_str_def visible_ascii_def
        strip_prefix_def)
  then show "resp_status (framework_rejection headers r) \<in> {400, 413, 415, 422} \<Longrightarrow> is_json_response (framework_rejection headers r)"
    by (auto simp: framework_rejection_def split: if_splits)
qed

text \<open>
  Every response of the API has each of the policy headers exactly once, with its value, and a
  rejection of the framework never reaches the browser as plain text.
\<close>

theorem responses_carry_policy:
  assumes "(n, v) \<in> set policy_headers"
  shows "get_all (resp_headers (security_headers headers r)) n = [v]
     \<and> (resp_status (security_headers headers r) \<in> {400, 413, 415, 422} \<longrightarrow> is_json_response (security_headers headers r))"
proof -
  have "is_json_response (security_headers headers r) = is_json_response (framework_rejection headers r)"
    "resp_status (security_headers headers r) = resp_status (framework_rejection headers r)"
    by (simp_all add: security_headers_def policy_headers_def inserted_json)
  with rejection_json have "resp_status (security_headers headers r) \<in> {400, 413, 415, 422} \<longrightarrow> is_json_response (security_headers headers r)"
    by simp
  moreover have "get_all (resp_headers (security_headers headers r)) n = [v]"
    using assms by (auto simp: security_headers_def policy_headers_def inserted_header)
  ultimately show ?thesis by blast
qed

theorem responses_carry_policy_witness:
  "is_json_response (security_headers [] \<lparr>resp_status = 413, resp_headers = [], resp_body = OtherBody []\<rparr>)"
  using responses_carry_policy [of "''cache-control''" "lit ''no-store''" "[]" "\<lparr>resp_status = 413, resp_headers = [], resp_body = OtherBody []\<rparr>"]
  by (simp add: policy_headers_def security_headers_def framework_rejection_def is_json_response_def get_header_def get_all_def
      api_error_def)

section \<open>Who acted\<close>

text \<open>The changes of one item, as commands of the service.\<close>

fun mutation_command :: "site_env \<Rightarrow> web_mutation \<Rightarrow> (unit, command) res" where
  "mutation_command se (WebComplete i b) = Ok (C_Complete (web_complete_request i b) (from_secs 300))"
| "mutation_command se (WebSnooze i b) = Ok (C_Snooze (web_snooze_request i b) (from_secs 31536000))"
| "mutation_command se (WebCancel i b) = Ok (C_Cancel (web_cancel_request i b))"
| "mutation_command se (WebUpdate i b) = rbind (web_update_request (se_time se) i b) (\<lambda>req. Ok (C_Update req))"
| "mutation_command se _ = Err ()"

definition is_command :: "web_mutation \<Rightarrow> bool" where
  "is_command m \<longleftrightarrow> (\<forall>b. m \<noteq> WebAdd b) \<and> (\<forall>b. m \<noteq> WebCheck b)"

lemma converted_Ok: "converted headers (Ok x) = mlift (Ok x)"
  by (simp add: converted_def)

lemma converted_rbind: "mbind (converted headers (rbind r (\<lambda>x. Ok (g x)))) f = mbind (converted headers r) (\<lambda>x. f (g x))"
proof (cases r)
  case (Inl e)
  then show ?thesis by (cases e) (simp_all add: converted_def mbind_def mlift_def fun_eq_iff)
qed (simp add: converted_def)

lemma command_route:
  "is_command m \<Longrightarrow> mutation_route se headers m =
     mbind (authorize_mutation se headers (mutation_method m)) (\<lambda>a.
     mbind (converted headers (mutation_command se m)) (\<lambda>cmd.
     mbind (service_call headers (run_command (se_service se) a cmd)) (\<lambda>item.
       mlift (item_response headers item))))"
  by (cases m) (simp_all add: is_command_def complete_route_def snooze_route_def update_route_def cancel_route_def
      converted_Ok converted_rbind)

lemma command_route_Ok:
  assumes "is_command m" and "mutation_route se headers m s = (Ok r, s')"
  obtains v w0 cmd item w where "web_authenticate (se_policy se) headers (se_now se (st_now s)) (st_web s) = (Ok v, w0)"
    and "run_command (se_service se) (user_actor headers v) cmd (st_world s) = (Ok item, w)" and "st_world s' = w"
    and "r = success_response headers (ItemData item)" and "mutation_command se m = Ok cmd"
  using assms(2) unfolding command_route [OF assms(1)]
  by (auto simp: mbind_eq_Inr mlift_Inr authorize_Inr service_call_def or_else_Inr on_world_eq converted_def res_simps
      item_response_def split: if_splits intro: that)


definition demo_site_env :: site_env where
  "demo_site_env = \<lparr>se_policy = demo_web_policy, se_web = demo_web, se_service = demo_env,
     se_time = \<lparr>to_rfc3339 = (\<lambda>_. None), to_legacy = (\<lambda>_. None)\<rparr>, se_now = (\<lambda>_. 2)\<rparr>"

definition demo_site :: site where
  "demo_site = \<lparr>st_web = demo_signed_in, st_world = demo_world, st_now = 0\<rparr>"

definition demo_request :: header_map where
  "demo_request = [(''cookie'', session_cookie_name @ [61, 66]), (''host'', [104]), (''origin'', https_scheme @ [104]),
     (csrf_header, [67])]"

definition demo_cancel_body :: cancel_body where
  "demo_cancel_body = \<lparr>bx_expected_version = 2, bx_reason = lit ''obsolete'', bx_idempotency_key = lit ''key-0002''\<rparr>"

abbreviation demo_user :: actor where
  "demo_user \<equiv> \<lparr>actor_type = A_User, actor_id = lit ''webui:'' @ [117], request_id = Some (lit ''request-unavailable'')\<rparr>"

lemma demo_authorized:
  "authorize_mutation demo_site_env demo_request post demo_site = (Ok demo_user, demo_site\<lparr>st_now := 1\<rparr>)"
  by code_simp

lemma demo_user_cancels: "\<exists>w. run_command demo_env demo_user (C_Cancel sample_cancel) demo_world = (Inr cancelled_sample, w)"
proof -
  obtain out where o: "cancel_operation sample_cancel t0 sample_item = Inr (cancelled_sample, out)"
    "op_links out = None" "op_evidence out = None" using demo_cancel by blast
  let ?call = "demo_call\<lparr>mc_actor := demo_user\<rparr>"
  have plan: "command_plan demo_env demo_user t0 (C_Cancel sample_cancel) = Inr (?call, cancel_operation sample_cancel t0)"
    by (simp add: prepare_cancel_def sample_cancel_def validate_actor_def trim_def
        is_whitespace_def validate_idempotency_key_def utf8_len_def utf8_width_def is_ascii_alphanumeric_def
        is_ascii_alphabetic_def is_ascii_digit_def required_text_def validate_expected_version_def request_hash_def
        demo_call_def)
  have room: "room_for demo_env ?call demo_world"
    using demo_room by (simp add: room_for_def idempotency_def demo_db_def sample_db_def)
  have "fst (run_command demo_env demo_user (C_Cancel sample_cancel) demo_world) = Inr cancelled_sample"
    using run_room [where op = "cancel_operation sample_cancel t0" and item = sample_item and a = demo_user and call = ?call
      and cmd = "C_Cancel sample_cancel", OF _ demo_clock room _ _ _ _ o cancelled_storable]
      demo_db_wf plan demo_view demo_owner by simp
  then show ?thesis by (metis fst_conv prod.collapse)
qed

lemma demo_cancel_route:
  "\<exists>r s'. mutation_route demo_site_env demo_request (WebCancel 7 demo_cancel_body) demo_site = (Ok r, s')"
proof -
  have m: "is_command (WebCancel 7 demo_cancel_body)" by (simp add: is_command_def)
  have c: "web_cancel_request 7 demo_cancel_body = sample_cancel"
    by (simp add: web_cancel_request_def demo_cancel_body_def sample_cancel_def)
  have w: "item_writable cancelled_sample"
    by (simp add: item_writable_def sample_item_def recurrence_serializable_def every_hour_def rfc3339_ok_def year_zero_def
        max_instant_def t0_def)
  obtain w where "run_command demo_env demo_user (C_Cancel sample_cancel) demo_world = (Inr cancelled_sample, w)"
    using demo_user_cancels by blast
  with demo_authorized c w show ?thesis
    unfolding command_route [OF m]
    by (auto simp: mbind_eq_Inr mlift_Inr converted_Ok service_call_def or_else_Inr on_world_eq item_response_def
        demo_site_env_def demo_site_def)
qed


theorem unauthorized_requests_inert_witness:
  "\<exists>r s'. respond (mutation_route demo_site_env [] (WebCancel 7 demo_cancel_body)) demo_site = (Ok r, s')
     \<and> resp_status r \<in> {401, 403} \<and> st_world s' = demo_world"
proof -
  have "\<not> may_act demo_site_env [] post demo_site"
    by (simp add: may_act_def demo_site_env_def demo_web_policy_def web_authenticate_def cookie_value_def get_all_def)
  with unauthorized_requests_inert [of demo_site_env "[]" "WebCancel 7 demo_cancel_body" demo_site] show ?thesis
    by (simp add: demo_site_def)
qed

end
