(* ===== verification/Agreement.thy ===== *)
theory Agreement
  imports SiteGuarantees
begin

text \<open>
  The two interfaces of the service agree: a creation sent through a tool and the same creation sent
  through the browser have the same effect and the same answer, although the tool checks more
  before it calls the service.
\<close>

section \<open>The same creation for both interfaces\<close>

primrec in_priority_of :: "web_priority \<Rightarrow> in_priority" where
  "in_priority_of WebLow = InLow"
| "in_priority_of WebNormal = InNormal"
| "in_priority_of WebHigh = InHigh"
| "in_priority_of WebCritical = InCritical"

primrec in_trigger_of :: "web_trigger \<Rightarrow> trigger_in" where
  "in_trigger_of (WebAtTime at) = InAtTime at"
| "in_trigger_of (WebAfterElapsed n) = InAfterElapsed n"
| "in_trigger_of (WebInterval first every) = InInterval first every"
| "in_trigger_of WebNextSession = InNextSession"
| "in_trigger_of WebNextContinuation = InNextContinuation"
| "in_trigger_of (WebGoalActive g) = InGoalActive g"
| "in_trigger_of (WebCondition adapter params poll manual) = InCondition adapter params poll manual"

primrec in_missed_policy_of :: "missed_policy_kind \<Rightarrow> in_missed_policy" where
  "in_missed_policy_of Coalesce = InCoalesce"
| "in_missed_policy_of CatchUp = InCatchUp"
| "in_missed_policy_of Skip = InSkip"

definition in_recurrence_of :: "web_recurrence \<Rightarrow> recurrence_in" where
  "in_recurrence_of r =
     \<lparr>ri_every_seconds = br_every_seconds r, ri_missed_policy = in_missed_policy_of (br_missed_policy r),
      ri_max_occurrences = br_max_occurrences r, ri_end_at = br_end_at r\<rparr>"

primrec in_link_type_of :: "link_type_kind \<Rightarrow> in_link_type" where
  "in_link_type_of L_Goal = InGoal"
| "in_link_type_of L_Memory = InMemory"
| "in_link_type_of L_Issue = InIssue"
| "in_link_type_of L_Url = InUrl"
| "in_link_type_of L_Artifact = InArtifact"

definition add_in_of :: "add_item_body \<Rightarrow> add_in" where
  "add_in_of b =
     \<lparr>ai_project_id = ba_project_id b, ai_task_id = ba_task_id b, ai_message = ba_message b,
      ai_instructions = ba_instructions b, ai_priority = in_priority_of (ba_priority b),
      ai_trigger = in_trigger_of (ba_trigger b), ai_recurrence = map_option in_recurrence_of (ba_recurrence b),
      ai_overdue_after_seconds = ba_overdue_after_seconds b,
      ai_links = map (\<lambda>l. \<lparr>ki_type = in_link_type_of (bl_type l), ki_value = bl_value l\<rparr>) (ba_links b),
      ai_session_id = ba_session_id b, ai_task_lineage_id = ba_task_lineage_id b,
      ai_idempotency_key = ba_idempotency_key b\<rparr>"

section \<open>The same conversions\<close>

abbreviation invalid :: "(unit, 'a) res \<Rightarrow> (handler_error, 'a) res" where
  "invalid r \<equiv> map_err (\<lambda>_. HandlerValidation) r"

lemma map_err_rbind: "map_err g (rbind r f) = rbind (map_err g r) (\<lambda>x. map_err g (f x))"
proof (cases r)
  case (Inl e)
  then show ?thesis by (cases e) simp_all
qed simp

lemma map_err_map_err: "map_err g (map_err h r) = map_err (g \<circ> h) r"
proof (cases r)
  case (Inl e)
  then show ?thesis by (cases e) simp_all
qed simp

lemma map_err_transpose: "map_err g (transpose_map f v) = transpose_map (\<lambda>x. map_err g (f x)) v"
  by (cases v) (simp_all add: transpose_map_def map_err_rbind)

lemma same_time: "invalid (web_time out v) = input_time out v"
  by (simp add: web_time_def input_time_def map_err_map_err comp_def)

lemma same_trigger: "invalid (web_trigger_of out t) = trigger_of_input out (in_trigger_of t)"
  by (cases t) (simp_all add: map_err_rbind map_err_transpose same_time)

lemma same_recurrence: "invalid (web_recurrence_of out r) = recurrence_of_input out (in_recurrence_of r)"
  by (cases "br_missed_policy r")
    (simp_all add: web_recurrence_of_def recurrence_of_input_def in_recurrence_of_def map_err_rbind map_err_transpose same_time)

lemma same_link: "link_of_input \<lparr>ki_type = in_link_type_of (bl_type l), ki_value = bl_value l\<rparr> = web_link_of l"
  by (cases "bl_type l") (simp_all add: link_of_input_def web_link_of_def)

lemma same_priority: "priority_of_input (in_priority_of q) = web_priority_of q"
  by (cases q) simp_all

lemma same_add_request:
  "validate_add_semantics (add_in_of b) = Ok () \<Longrightarrow> add_request_of out (add_in_of b) = invalid (web_add_request out b)"
  by (cases "ba_recurrence b")
    (simp_all add: add_request_of_def web_add_request_def map_err_rbind map_err_transpose same_trigger same_link same_priority
      add_in_of_def comp_def transpose_map_def same_recurrence)

section \<open>The extra check of the tool is one the service makes\<close>

text \<open>The only failure of a validation is \<open>Validation\<close>.\<close>

definition only_validation :: "(service_error, 'a) res \<Rightarrow> bool" where
  "only_validation r \<longleftrightarrow> (\<forall>e. r = Inl e \<longrightarrow> e = Fail Validation)"

named_theorems validates \<open>validations that only fail with Validation\<close>

lemma validates_bind [validates]:
  "only_validation r \<Longrightarrow> (\<And>x. r = Inr x \<Longrightarrow> only_validation (f x)) \<Longrightarrow> only_validation (rbind r f)"
  by (cases r) (auto simp: only_validation_def)

lemma validates_basic [validates]: "only_validation (Ok x)" "only_validation (Err Validation)" "only_validation (guard c Validation)"
  by (auto simp: only_validation_def guard_def)

lemma validates_if [validates]: "only_validation r \<Longrightarrow> only_validation r' \<Longrightarrow> only_validation (if c then r else r')"
  by simp

lemma validates_transpose [validates]:
  "(\<And>x. v = Some x \<Longrightarrow> only_validation (f x)) \<Longrightarrow> only_validation (transpose_map f v)"
  by (cases v) (auto simp: transpose_map_def intro!: validates)

lemma validates_fields [validates]:
  "only_validation (validate_actor a)" "only_validation (validate_idempotency_key key)" "only_validation (required_text v n)"
  "only_validation (optional_text u n)" "only_validation (optional_context u n)" "only_validation (optional_bounded u n)"
  "only_validation (validate_links ls)" "only_validation (validate_goal_link trig ls)"
  by (auto simp: validate_actor_def validate_idempotency_key_def required_text_def optional_text_def optional_context_def
      optional_bounded_def validate_links_def validate_goal_link_def Let_def intro!: validates split: trigger_spec.split)

lemma validates_trigger [validates]: "only_validation (map_err map_domain (validate_trigger trig))"
  by (cases trig) (auto simp: only_validation_def split: if_splits)

lemma validates_for_trigger [validates]: "only_validation (map_err map_domain (validate_for_trigger spec trig))"
  by (cases trig) (auto simp: only_validation_def validate_for_trigger_def validate_recurrence_def rbind_def split: if_splits)

lemma validates_instant [validates]: "valid_instant t \<Longrightarrow> only_validation (normalize_instant t)"
  by (simp add: normalize_instant_def to_utc_def Let_def validates)

lemma parsed_valid: "web_time out v = Inr t \<Longrightarrow> valid_instant t"
  by (auto simp: web_time_def parse_timestamp_def res_simps split: if_splits option.splits)

lemma validates_parsed_trigger: "web_trigger_of out t = Inr trig \<Longrightarrow> only_validation (normalize_trigger trig)"
  by (cases t) (auto simp: res_simps intro!: validates dest: parsed_valid)

lemma validates_parsed_recurrence: "web_recurrence_of out r = Inr spec \<Longrightarrow> only_validation (normalize_recurrence spec)"
  by (auto simp: web_recurrence_of_def normalize_recurrence_def res_simps intro!: validates dest: parsed_valid)

lemma add_request_validates:
  assumes "web_add_request out b = Inr req"
  shows "only_validation (prepare_add a req)"
proof -
  from assms obtain trig recur where t: "web_trigger_of out (ba_trigger b) = Inr trig"
    "transpose_map (web_recurrence_of out) (ba_recurrence b) = Inr recur" and req: "ar_trigger req = trig" "ar_recurrence req = recur"
    by (auto simp: web_add_request_def res_simps)
  have r: "only_validation (transpose_map normalize_recurrence recur)"
    using t(2) validates_parsed_recurrence by (cases "ba_recurrence b") (auto simp: transpose_map_def res_simps intro!: validates)
  show ?thesis
    unfolding prepare_add_def req
    by (intro validates validates_parsed_trigger [OF t(1)] r) (auto intro!: validates split: option.splits)
qed

text \<open>What the service requires of a recurrence is at least what the tool checks beforehand.\<close>

lemma normalized_trigger_shape:
  "normalize_trigger trig = Inr trig' \<Longrightarrow> (\<exists>t. trig' = Interval t every) \<longleftrightarrow> (\<exists>t. trig = Interval t every)"
  by (cases trig) (auto simp: res_simps)

lemma web_trigger_shape:
  "web_trigger_of out t = Inr trig \<Longrightarrow> (\<exists>at. trig = Interval at every) \<longleftrightarrow> (\<exists>at. in_trigger_of t = InInterval at every)"
  by (cases t) (auto simp: res_simps)

lemma recurrence_of_trigger:
  "validate_for_trigger spec trig = Inr u \<Longrightarrow> \<exists>t. trig = Interval t (every_seconds spec)"
  by (cases trig) (auto simp: validate_for_trigger_def res_simps split: if_splits)

lemma semantics_redundant:
  assumes "web_add_request out b = Inr req" and "prepare_add a req = Inr req'"
  shows "validate_add_semantics (add_in_of b) = Ok ()"
proof (cases "ba_recurrence b")
  case None
  then show ?thesis by (simp add: validate_add_semantics_def add_in_of_def split: trigger_in.split)
next
  case (Some r)
  with assms(1) obtain trig spec where t: "web_trigger_of out (ba_trigger b) = Inr trig" "web_recurrence_of out r = Inr spec"
    and req: "ar_trigger req = trig" "ar_recurrence req = Some spec"
    by (auto simp: web_add_request_def transpose_map_def res_simps)
  from assms(2) obtain trig' spec' u where "normalize_trigger trig = Inr trig'" "normalize_recurrence spec = Inr spec'"
      "validate_for_trigger spec' trig' = Inr u"
    unfolding prepare_add_def req by (auto elim!: rbindE simp: transpose_map_def map_err_eq_Inr)
  moreover have "every_seconds spec' = ri_every_seconds (in_recurrence_of r)"
    using t(2) \<open>normalize_recurrence spec = Inr spec'\<close>
    by (auto simp: web_recurrence_of_def normalize_recurrence_def in_recurrence_of_def res_simps)
  ultimately obtain at where "in_trigger_of (ba_trigger b) = InInterval at (ri_every_seconds (in_recurrence_of r))"
    using recurrence_of_trigger normalized_trigger_shape web_trigger_shape [OF t(1)] by metis
  with Some show ?thesis by (simp add: validate_add_semantics_def add_in_of_def)
qed

section \<open>Agreement\<close>

text \<open>The names of the error codes, as \<open>serde\<close> writes them.\<close>

primrec code_text :: "error_code \<Rightarrow> string" where
  "code_text ValidationErrorCode = ''VALIDATION_ERROR''"
| "code_text UnauthenticatedCode = ''UNAUTHENTICATED''"
| "code_text ForbiddenCode = ''FORBIDDEN''"
| "code_text NotFoundCode = ''NOT_FOUND''"
| "code_text InvalidStateCode = ''INVALID_STATE''"
| "code_text VersionConflictCode = ''VERSION_CONFLICT''"
| "code_text IdempotencyKeyReusedCode = ''IDEMPOTENCY_KEY_REUSED''"
| "code_text DatabaseBusyCode = ''DATABASE_BUSY''"
| "code_text AdapterNotFoundCode = ''ADAPTER_NOT_FOUND''"
| "code_text AdapterDisabledCode = ''ADAPTER_DISABLED''"
| "code_text AdapterTimeoutCode = ''ADAPTER_TIMEOUT''"
| "code_text AdapterErrorCode = ''ADAPTER_ERROR''"
| "code_text ReauthenticationRequiredCode = ''REAUTHENTICATION_REQUIRED''"
| "code_text CsrfRejectedCode = ''CSRF_REJECTED''"
| "code_text WorkloadConflictCode = ''WORKLOAD_CONFLICT''"
| "code_text MaintenanceActiveCode = ''MAINTENANCE_ACTIVE''"
| "code_text BackupInvalidCode = ''BACKUP_INVALID''"
| "code_text RestoreFailedCode = ''RESTORE_FAILED''"
| "code_text LimitExceededCode = ''LIMIT_EXCEEDED''"
| "code_text InternalErrorCode = ''INTERNAL_ERROR''"

text \<open>The answer of a route says what the result of a tool says.\<close>

definition shows_error :: "header_map \<Rightarrow> tool_error \<Rightarrow> response \<Rightarrow> bool" where
  "shows_error headers e r \<longleftrightarrow>
     resp_body r = ErrorBody (request_id_header headers) (code_text (te_code e)) (te_message e) (te_retryable e)
       (case te_details e of None \<Rightarrow> JObj [] | Some d \<Rightarrow> d)"

definition same_answer :: "header_map \<Rightarrow> (handler_error, tool_data) res \<Rightarrow> (response, response) res \<Rightarrow> bool" where
  "same_answer headers r resp \<longleftrightarrow>
     (case r of
        Inr d \<Rightarrow> \<exists>item. d = mutation_data item \<and> resp = item_response headers item
      | Inl (Fail e) \<Rightarrow> \<exists>x. resp = Err x \<and> shows_error headers (tool_error_of e) x
      | Inl Panic \<Rightarrow> resp = Inl Panic
      | Inl Diverge \<Rightarrow> resp = Inl Diverge)"

lemma service_errors_agree:
  "shows_error headers (tool_error_of (HandlerService e)) (service_error_response headers e)"
  by (cases e) (simp_all add: shows_error_def tool_error_new_def with_details_def retryable_def api_error_def)

lemma validation_answer: "same_answer headers (Err HandlerValidation) (Err (service_error_response headers Validation))"
  by (simp add: same_answer_def shows_error_def tool_error_new_def retryable_def api_error_def)

text \<open>After the conversion, both call the service.\<close>

lemma service_answers:
  assumes "of_service m w = (r, w')"
  shows "\<exists>resp. mbind (service_call headers m) (\<lambda>item. mlift (item_response headers item)) (s\<lparr>st_world := w\<rparr>)
       = (resp, s\<lparr>st_world := w'\<rparr>)
     \<and> same_answer headers (rbind r (\<lambda>item. Ok (mutation_data item))) resp"
proof -
  obtain q where m: "m w = (q, w')" and r: "r = map_err HandlerService q"
    using assms by (auto simp: of_service_def Let_def split: prod.splits)
  have run: "mbind (service_call headers m) (\<lambda>item. mlift (item_response headers item)) (s\<lparr>st_world := w\<rparr>)
      = (rbind (map_err (service_error_response headers) q) (item_response headers), s\<lparr>st_world := w'\<rparr>)"
    by (cases q; cases "projl q") (simp_all add: mbind_def service_call_def or_else_def on_world_def m mlift_def)
  show ?thesis
  proof (cases q)
    case (Inl e)
    then show ?thesis unfolding run r
      using service_errors_agree by (cases e) (auto simp: same_answer_def)
  next
    case (Inr item)
    then show ?thesis unfolding run r by (auto simp: same_answer_def)
  qed
qed

lemma conversion_fails_plainly:
  assumes "\<forall>v t. to_rfc3339 out v = Some t \<longrightarrow> valid_instant t" and "web_add_request out b = Inl e"
  shows "e = Fail ()"
proof -
  have time: "web_time out v = Inl x \<Longrightarrow> x = Fail ()" for v x
    using assms(1) by (auto simp: web_time_def parse_timestamp_def to_utc_def split: if_splits option.splits)
  have optional: "transpose_map (web_time out) v = Inl x \<Longrightarrow> x = Fail ()" for v x
    by (cases v) (auto simp: transpose_map_def rbind_def split: sum.splits dest: time)
  have trig: "web_trigger_of out t = Inl x \<Longrightarrow> x = Fail ()" for t x
    by (cases t) (auto simp: rbind_def split: sum.splits dest: time optional)
  have recur: "web_recurrence_of out r = Inl x \<Longrightarrow> x = Fail ()" for r x
    by (auto simp: web_recurrence_of_def rbind_def split: sum.splits dest: optional)
  show ?thesis
    using assms(2)
    by (cases "ba_recurrence b") (auto simp: web_add_request_def transpose_map_def rbind_def split: sum.splits dest: trig recur)
qed

lemma add_refused: "prepare_add a req = Err Validation \<Longrightarrow> add env a req w = (Err Validation, w)"
  by (simp add: add_def sbind_def slift_def)

text \<open>
  C38: The same creation, sent as a tool call and through the browser by the same actor, ends with the
  same world and the same answer, error code, message, retry advice and details included. The
  dates are read by a parser that only yields instants of the representable years.
\<close>

theorem creations_agree:
  assumes "\<forall>v t. to_rfc3339 (se_time se) v = Some t \<longrightarrow> valid_instant t"
    and "authorize_mutation se headers post s = (Ok a, s1)"
    and "add_tool (se_service se) (se_time se) a (add_in_of b) (st_world s1) = (r, w)"
  shows "\<exists>resp. add_route se headers b s = (resp, s1\<lparr>st_world := w\<rparr>) \<and> same_answer headers r resp"
proof -
  have route: "add_route se headers b s = mbind (converted headers (web_add_request (se_time se) b)) (\<lambda>req.
      mbind (service_call headers (add (se_service se) a req)) (\<lambda>item. mlift (item_response headers item))) s1"
    by (simp add: add_route_def mbind_def [of "authorize_mutation se headers post"] assms(2))
  have same: "s1\<lparr>st_world := st_world s1\<rparr> = s1" by simp
  show ?thesis
  proof (cases "web_add_request (se_time se) b")
    case (Inl e)
    then have e: "e = Fail ()" using conversion_fails_plainly [OF assms(1)] by blast
    have "add_request_of (se_time se) (add_in_of b) = Err HandlerValidation"
    proof (cases "validate_add_semantics (add_in_of b)")
      case (Inl x)
      then have "\<exists>f. x = Fail f" by (auto simp: validate_add_semantics_def split: option.splits trigger_in.splits if_splits)
      with Inl show ?thesis by (auto simp: add_request_of_def)
    qed (simp add: same_add_request Inl e)
    with assms(3) have "r = Err HandlerValidation" "w = st_world s1"
      by (simp_all add: add_tool_def sbind_def slift_def)
    then show ?thesis
      using validation_answer by (simp add: route Inl e converted_def mbind_def mlift_def)
  next
    case (Inr req)
    then have run: "add_route se headers b s =
        mbind (service_call headers (add (se_service se) a req)) (\<lambda>item. mlift (item_response headers item)) s1"
      by (simp add: route converted_Ok)
    show ?thesis
    proof (cases "validate_add_semantics (add_in_of b) = Ok ()")
      case True
      then have "add_request_of (se_time se) (add_in_of b) = Ok req" by (simp add: same_add_request Inr)
      with assms(3) obtain q where q: "of_service (add (se_service se) a req) (st_world s1) = (q, w)"
        "r = rbind q (\<lambda>item. Ok (mutation_data item))"
        by (auto simp: add_tool_def sbind_def slift_def split: prod.splits sum.splits)
      from service_answers [OF q(1), of headers s1] show ?thesis by (simp add: run q(2))
    next
      case False
      obtain x where x: "validate_add_semantics (add_in_of b) = Err x"
        using False by (auto simp: validate_add_semantics_def split: option.splits trigger_in.splits if_splits)
      then have "r = Err HandlerValidation" "w = st_world s1"
        using assms(3) by (simp_all add: add_tool_def add_request_of_def sbind_def slift_def)
      moreover have "prepare_add a req = Err Validation"
        using semantics_redundant [OF Inr] add_request_validates [OF Inr, of a] False
        by (cases "prepare_add a req") (auto simp: only_validation_def)
      ultimately show ?thesis
        using validation_answer by (simp add: run mbind_def service_call_def or_else_def on_world_def add_refused)
    qed
  qed
qed

definition demo_add_body :: add_item_body where
  "demo_add_body = \<lparr>ba_project_id = lit ''proj'', ba_task_id = None, ba_message = lit ''water'', ba_instructions = None,
     ba_priority = WebNormal, ba_trigger = WebNextSession,
     ba_recurrence = Some \<lparr>br_every_seconds = 3600, br_missed_policy = Skip, br_max_occurrences = None, br_end_at = None\<rparr>,
     ba_overdue_after_seconds = 0, ba_links = [], ba_session_id = None, ba_task_lineage_id = None,
     ba_idempotency_key = lit ''key-0009''\<rparr>"

theorem creations_agree_witness:
  "\<exists>resp w. add_route demo_site_env demo_request demo_add_body demo_site = (resp, demo_site\<lparr>st_now := 1, st_world := w\<rparr>)
     \<and> same_answer demo_request
         (fst (add_tool demo_env \<lparr>to_rfc3339 = (\<lambda>_. None), to_legacy = (\<lambda>_. None)\<rparr> demo_user (add_in_of demo_add_body) demo_world)) resp"
  using creations_agree [OF _ demo_authorized prod.collapse [symmetric], of demo_add_body]
  by (fastforce simp: demo_site_env_def demo_site_def)

end
