(* ===== verification/Assets.thy ===== *)
theory Assets
  imports WebApi
begin

text \<open>
  The static pages of the browser interface, \<open>src/webui/assets.rs\<close> and \<open>src/webui/mod.rs\<close>: the files
  that an administrator may mount over the embedded ones, their validation, the title of the page,
  and the responses. The embedded files (\<open>src/webui/static\<close>) and the file system are parameters.
\<close>

section \<open>Text from bytes\<close>

text \<open>\<open>str::from_utf8\<close>: well-formed UTF-8 without overlong forms, surrogates, or values beyond Unicode.\<close>

definition continuation :: "nat \<Rightarrow> bool" where
  "continuation b \<longleftrightarrow> 128 \<le> b \<and> b < 192"

definition surrogate :: "nat \<Rightarrow> bool" where
  "surrogate n \<longleftrightarrow> 55296 \<le> n \<and> n < 57344"

fun decode_char :: "nat \<Rightarrow> nat list \<Rightarrow> (nat \<times> nat list) option" where
  "decode_char a bs =
     (if a < 128 then Some (a, bs)
      else if 192 \<le> a \<and> a < 224 then
        (case bs of
           b # r \<Rightarrow> let n = (a - 192) * 64 + (b - 128) in
             if continuation b \<and> 128 \<le> n then Some (n, r) else None
         | _ \<Rightarrow> None)
      else if 224 \<le> a \<and> a < 240 then
        (case bs of
           b # c # r \<Rightarrow> let n = (a - 224) * 4096 + (b - 128) * 64 + (c - 128) in
             if continuation b \<and> continuation c \<and> 2048 \<le> n \<and> \<not> surrogate n then Some (n, r) else None
         | _ \<Rightarrow> None)
      else if 240 \<le> a \<and> a < 248 then
        (case bs of
           b # c # d # r \<Rightarrow> let n = (a - 240) * 262144 + (b - 128) * 4096 + (c - 128) * 64 + (d - 128) in
             if continuation b \<and> continuation c \<and> continuation d \<and> 65536 \<le> n \<and> n < 1114112 then Some (n, r) else None
         | _ \<Rightarrow> None)
      else None)"

lemma decode_char_shorter: "decode_char a bs = Some (c, r) \<Longrightarrow> length r \<le> length bs"
  by (auto simp: Let_def split: if_splits list.splits)

declare decode_char.simps [simp del]

function from_utf8 :: "nat list \<Rightarrow> ustring option" where
  "from_utf8 [] = Some []"
| "from_utf8 (b # bs) =
     (case decode_char b bs of
        None \<Rightarrow> None
      | Some (c, r) \<Rightarrow> map_option (Cons c) (from_utf8 r))"
  by pat_completeness auto

termination
  by (relation "measure length") (auto dest: decode_char_shorter)

definition scalar_value :: "nat \<Rightarrow> bool" where
  "scalar_value c \<longleftrightarrow> c < 1114112 \<and> \<not> surrogate c"

text \<open>Decoding a continuation byte, in the digits of base 64.\<close>

lemma base64_digits:
  fixes c :: nat
  shows "(c div 64) * 64 + c mod 64 = c" and "(c div 4096) * 4096 + (c div 64 mod 64) * 64 + c mod 64 = c"
    and "(c div 262144) * 262144 + (c div 4096 mod 64) * 4096 + (c div 64 mod 64) * 64 + c mod 64 = c"
proof -
  define d e where "d = c div 64" "e = d div 64"
  have de: "c div 4096 = e" "c div 262144 = e div 64" by (simp_all add: d_e_def div_mult2_eq [symmetric])
  have "c = d * 64 + c mod 64" "d = e * 64 + d mod 64" "e = e div 64 * 64 + e mod 64" by (simp_all add: d_e_def)
  then show "(c div 64) * 64 + c mod 64 = c" and "(c div 4096) * 4096 + (c div 64 mod 64) * 64 + c mod 64 = c"
    and "(c div 262144) * 262144 + (c div 4096 mod 64) * 4096 + (c div 64 mod 64) * 64 + c mod 64 = c"
    unfolding de d_e_def(1) [symmetric] by linarith+
qed

lemma continuation_digit [simp]: "continuation (128 + n mod 64)"
  by (simp add: continuation_def)

lemma decode_utf8_char:
  assumes "scalar_value c"
  shows "\<exists>b bs. utf8_char c = b # bs \<and> decode_char b (bs @ r) = Some (c, r)"
proof -
  consider "c < 128" | "128 \<le> c" "c < 2048" | "2048 \<le> c" "c < 65536" | "65536 \<le> c" "c < 1114112"
    using assms by (fastforce simp: scalar_value_def)
  then show ?thesis
  proof cases
    case 1
    then show ?thesis by (simp add: utf8_char_def decode_char.simps)
  next
    case 2
    then have "192 + c div 64 < 224" by simp
    with 2 base64_digits(1) [of c] show ?thesis by (simp add: utf8_char_def decode_char.simps)
  next
    case 3
    then have "224 + c div 4096 < 240" by simp
    with 3 assms base64_digits(2) [of c] show ?thesis
      by (simp add: utf8_char_def decode_char.simps scalar_value_def)
  next
    case 4
    then have "240 + c div 262144 < 248" by simp
    with 4 base64_digits(3) [of c] show ?thesis by (simp add: utf8_char_def decode_char.simps)
  qed
qed

lemma from_utf8_bytes: "list_all scalar_value s \<Longrightarrow> from_utf8 (utf8_bytes s) = Some s"
proof (induction s)
  case (Cons c s)
  then obtain b bs where "utf8_char c = b # bs" "decode_char b (bs @ utf8_bytes s) = Some (c, utf8_bytes s)"
    using decode_utf8_char [of c "utf8_bytes s"] by auto
  with Cons show ?case by (simp add: utf8_bytes_def)
qed (simp add: utf8_bytes_def)

section \<open>The page and its title\<close>

text \<open>\<open>str::replace\<close> for a character and for a text: the matches from left to right, without overlap.\<close>

definition replace_char :: "nat \<Rightarrow> ustring \<Rightarrow> ustring \<Rightarrow> ustring" where
  "replace_char c by_text s = concat (map (\<lambda>x. if x = c then by_text else [x]) s)"

function replace_text :: "ustring \<Rightarrow> ustring \<Rightarrow> ustring \<Rightarrow> ustring" where
  "replace_text pattern by_text [] = []"
| "replace_text pattern by_text (x # xs) =
     (if pattern \<noteq> [] \<and> take (length pattern) (x # xs) = pattern
      then by_text @ replace_text pattern by_text (drop (length pattern) (x # xs))
      else x # replace_text pattern by_text xs)"
  by pat_completeness auto

termination
  by (relation "measure (\<lambda>(_, _, s). length s)") auto

definition escape_html :: "ustring \<Rightarrow> ustring" where
  "escape_html input =
     replace_char 39 (lit ''&#39;'') (replace_char 34 (lit ''&quot;'') (replace_char 62 (lit ''&gt;'')
       (replace_char 60 (lit ''&lt;'') (replace_char 38 (lit ''&amp;'') input))))"

definition title_mark :: ustring where "title_mark = lit ''{{TITLE}}''"

definition render_index :: "ustring \<Rightarrow> ustring \<Rightarrow> nat list" where
  "render_index page title = utf8_bytes (replace_text title_mark (escape_html title) page)"

section \<open>Files\<close>

datatype asset_error =
    AssetRead string
  | AssetInvalidFile string
  | AssetWorldWritable string
  | AssetTooLarge string
  | AssetUnsupportedType string
  | AssetInvalidCss

record file_metadata =
  fm_is_file :: bool
  fm_mode :: "32 word"
  fm_len :: nat

record asset_files =
  af_metadata :: "ustring \<Rightarrow> file_metadata option"
  af_read :: "ustring \<Rightarrow> nat list option"

definition max_custom_css_bytes :: nat where "max_custom_css_bytes = 256 * 1024"
definition max_logo_bytes :: nat where "max_logo_bytes = 2 * 1024 * 1024"
definition max_favicon_bytes :: nat where "max_favicon_bytes = 512 * 1024"

definition read_asset :: "asset_files \<Rightarrow> ustring \<Rightarrow> string \<Rightarrow> nat \<Rightarrow> (asset_error, nat list) res" where
  "read_asset files path kind maximum =
     rbind (guard (path_is_absolute path) (AssetInvalidFile kind)) (\<lambda>_.
     rbind (ok_or (AssetRead kind) (af_metadata files path)) (\<lambda>metadata.
     rbind (guard (fm_is_file metadata) (AssetInvalidFile kind)) (\<lambda>_.
     rbind (guard (\<not> bit (fm_mode metadata) 1) (AssetWorldWritable kind)) (\<lambda>_.
     rbind (guard (fm_len metadata \<le> maximum) (AssetTooLarge kind)) (\<lambda>_.
       ok_or (AssetRead kind) (af_read files path))))))"

definition starts_with :: "'a list \<Rightarrow> 'a list \<Rightarrow> bool" where
  "starts_with start s \<longleftrightarrow> take (length start) s = start"

fun contains_text :: "ustring \<Rightarrow> ustring \<Rightarrow> bool" where
  "contains_text pattern [] = (pattern = [])"
| "contains_text pattern (x # xs) = (starts_with pattern (x # xs) \<or> contains_text pattern xs)"

definition trim_start :: "ustring \<Rightarrow> ustring" where
  "trim_start s = dropWhile is_whitespace s"

definition looks_like_svg :: "nat list \<Rightarrow> bool" where
  "looks_like_svg bytes \<longleftrightarrow>
     (case from_utf8 bytes of
        None \<Rightarrow> False
      | Some content \<Rightarrow>
          let lowercase = to_ascii_lowercase (trim_start content) in
          (starts_with (lit ''<svg'') lowercase \<or> starts_with (lit ''<?xml'') lowercase)
          \<and> contains_text (lit ''<svg'') lowercase
          \<and> \<not> contains_text (lit ''<script'') lowercase
          \<and> \<not> contains_text (lit ''javascript:'') lowercase
          \<and> \<not> contains_text (lit ''<foreignobject'') lowercase)"

text \<open>\<open>Path::extension\<close>: what follows the last dot of the file name, if something precedes it.\<close>

definition path_extension :: "ustring \<Rightarrow> ustring option" where
  "path_extension path =
     (case rev (path_components path) of
        path_component.Normal name # _ \<Rightarrow>
          let pieces = split_char 46 name in
          if length pieces = 1 \<or> butlast pieces = [[]] then None else Some (last pieces)
      | _ \<Rightarrow> None)"

definition png_signature :: "nat list" where "png_signature = [137, 80, 78, 71, 13, 10, 26, 10]"

definition image_content_type :: "ustring \<Rightarrow> nat list \<Rightarrow> string \<Rightarrow> (asset_error, string) res" where
  "image_content_type path bytes kind =
     (let extension = to_ascii_lowercase (case path_extension path of None \<Rightarrow> [] | Some e \<Rightarrow> e);
          detected =
            (if extension = lit ''svg'' \<and> looks_like_svg bytes then Some ''image/svg+xml''
             else if extension = lit ''png'' \<and> starts_with png_signature bytes then Some ''image/png''
             else if (extension = lit ''jpg'' \<or> extension = lit ''jpeg'') \<and> starts_with [255, 216, 255] bytes
               then Some ''image/jpeg''
             else if extension = lit ''gif'' \<and> (starts_with (lit ''GIF87a'') bytes \<or> starts_with (lit ''GIF89a'') bytes)
               then Some ''image/gif''
             else if extension = lit ''webp'' \<and> starts_with (lit ''RIFF'') bytes \<and> take 4 (drop 8 bytes) = lit ''WEBP''
               then Some ''image/webp''
             else if extension = lit ''ico'' \<and> kind = ''favicon'' \<and> starts_with [0, 0, 1, 0] bytes
               then Some ''image/x-icon''
             else None)
      in ok_or (AssetUnsupportedType kind) detected)"

section \<open>Loading\<close>

record embedded_files =
  ef_index :: ustring
  ef_app_css :: "nat list"
  ef_app_js :: "nat list"
  ef_logo :: "nat list"
  ef_favicon :: "nat list"

record asset_overrides =
  ao_custom_css :: "ustring option"
  ao_logo :: "ustring option"
  ao_favicon :: "ustring option"

record webui_assets =
  wa_index :: "nat list"
  wa_custom_css :: "nat list"
  wa_logo :: "nat list"
  wa_logo_content_type :: string
  wa_favicon :: "nat list"
  wa_favicon_content_type :: string

definition embedded_assets :: "embedded_files \<Rightarrow> ustring \<Rightarrow> webui_assets" where
  "embedded_assets ef title =
     \<lparr>wa_index = render_index (ef_index ef) title, wa_custom_css = [], wa_logo = ef_logo ef,
      wa_logo_content_type = ''image/svg+xml'', wa_favicon = ef_favicon ef,
      wa_favicon_content_type = ''image/svg+xml''\<rparr>"

text \<open>An override of an image: the bytes and their type, or \<open>None\<close> for an absent or empty file.\<close>

definition image_override ::
  "asset_files \<Rightarrow> ustring option \<Rightarrow> string \<Rightarrow> nat \<Rightarrow> (asset_error, (nat list \<times> string) option) res" where
  "image_override files override kind maximum =
     (case override of
        None \<Rightarrow> Ok None
      | Some path \<Rightarrow>
          rbind (read_asset files path kind maximum) (\<lambda>bytes.
            if bytes = [] then Ok None
            else rbind (image_content_type path bytes kind) (\<lambda>content_type. Ok (Some (bytes, content_type)))))"

definition css_override :: "asset_files \<Rightarrow> ustring option \<Rightarrow> (asset_error, nat list) res" where
  "css_override files override =
     (case override of
        None \<Rightarrow> Ok []
      | Some path \<Rightarrow>
          rbind (read_asset files path ''custom CSS'' max_custom_css_bytes) (\<lambda>bytes.
          rbind (guard (bytes = [] \<or> from_utf8 bytes \<noteq> None) AssetInvalidCss) (\<lambda>_. Ok bytes)))"

definition load_assets ::
  "asset_files \<Rightarrow> embedded_files \<Rightarrow> ustring \<Rightarrow> asset_overrides \<Rightarrow> (asset_error, webui_assets) res" where
  "load_assets files ef title overrides =
     (let assets = embedded_assets ef title in
      rbind (css_override files (ao_custom_css overrides)) (\<lambda>css.
      rbind (image_override files (ao_logo overrides) ''logo'' max_logo_bytes) (\<lambda>logo.
      rbind (image_override files (ao_favicon overrides) ''favicon'' max_favicon_bytes) (\<lambda>favicon.
        let assets = assets\<lparr>wa_custom_css := css\<rparr>;
            assets = (case logo of None \<Rightarrow> assets
                      | Some (bytes, t) \<Rightarrow> assets\<lparr>wa_logo := bytes, wa_logo_content_type := t\<rparr>);
            assets = (case favicon of None \<Rightarrow> assets
                      | Some (bytes, t) \<Rightarrow> assets\<lparr>wa_favicon := bytes, wa_favicon_content_type := t\<rparr>)
        in Ok assets))))"

section \<open>Responses\<close>

definition asset_response :: "string \<Rightarrow> nat list \<Rightarrow> response" where
  "asset_response content_type body =
     \<lparr>resp_status = 200,
      resp_headers = [(''content-type'', lit content_type), (''cache-control'', lit ''no-cache''),
                      (''x-content-type-options'', lit ''nosniff'')],
      resp_body = OtherBody body\<rparr>"

text \<open>The routes of \<open>webui::router\<close>, by their path.\<close>

definition asset_route :: "embedded_files \<Rightarrow> webui_assets \<Rightarrow> string \<Rightarrow> response option" where
  "asset_route ef assets path =
     (if path = ''/'' then Some (asset_response ''text/html; charset=utf-8'' (wa_index assets))
      else if path = ''/assets/app.css'' then Some (asset_response ''text/css; charset=utf-8'' (ef_app_css ef))
      else if path = ''/assets/custom.css'' then Some (asset_response ''text/css; charset=utf-8'' (wa_custom_css assets))
      else if path = ''/assets/app.js'' then Some (asset_response ''text/javascript; charset=utf-8'' (ef_app_js ef))
      else if path = ''/assets/logo'' then Some (asset_response (wa_logo_content_type assets) (wa_logo assets))
      else if path = ''/assets/favicon'' then Some (asset_response (wa_favicon_content_type assets) (wa_favicon assets))
      else None)"

section \<open>Guarantees\<close>

text \<open>The entity of a character, and reading an escaped text back.\<close>

definition html_entity :: "nat \<Rightarrow> ustring" where
  "html_entity c =
     (if c = 38 then lit ''&amp;'' else if c = 60 then lit ''&lt;'' else if c = 62 then lit ''&gt;''
      else if c = 34 then lit ''&quot;'' else if c = 39 then lit ''&#39;'' else [c])"

definition entities :: "(nat \<times> ustring) list" where
  "entities = map (\<lambda>c. (c, html_entity c)) [38, 60, 62, 34, 39]"

function unescape_html :: "ustring \<Rightarrow> ustring" where
  "unescape_html [] = []"
| "unescape_html (x # xs) =
     (case find (\<lambda>(c, e). starts_with e (x # xs)) entities of
        None \<Rightarrow> x # unescape_html xs
      | Some (c, e) \<Rightarrow> c # unescape_html (drop (length e - 1) xs))"
  by pat_completeness auto

termination
  by (relation "measure length") auto

lemma replace_char_append [simp]: "replace_char c r (a @ b) = replace_char c r a @ replace_char c r b"
  by (simp add: replace_char_def)

lemma escape_one: "escape_html [c] = html_entity c"
  by (simp add: escape_html_def replace_char_def html_entity_def)

lemma escape_entities: "escape_html s = concat (map html_entity s)"
proof (induction s)
  case (Cons c s)
  have "escape_html (c # s) = escape_html [c] @ escape_html s"
    using replace_char_append [of _ _ "[c]" s] by (simp add: escape_html_def)
  with Cons show ?case by (simp add: escape_one)
qed (simp add: escape_html_def replace_char_def)

lemma unescape_entity: "unescape_html (html_entity c @ s) = c # unescape_html s"
  by (auto simp: html_entity_def entities_def starts_with_def)

text \<open>
  A title cannot become markup: in the escaped title no character that opens or closes a tag or an
  attribute is left, and reading its entities gives the title back, so that every title is shown as it is.
\<close>

theorem title_is_text:
  "unescape_html (escape_html title) = title \<and> set (escape_html title) \<inter> set (lit ''<>'' @ [34, 39]) = {}"
proof
  show "unescape_html (escape_html title) = title"
    unfolding escape_entities by (induction title) (simp_all add: unescape_entity)
  have "set (html_entity c) \<inter> set (lit ''<>'' @ [34, 39]) = {}" for c by (auto simp: html_entity_def)
  then show "set (escape_html title) \<inter> set (lit ''<>'' @ [34, 39]) = {}"
    unfolding escape_entities by (induction title) auto
qed

end
