(* ===== verification/McpServer.thy ===== *)
theory McpServer
  imports SiteGuarantees
begin

text \<open>
  The MCP side of the process: the catalogue of the tools (\<open>src/mcp/tools/mod.rs\<close>), the server that
  calls them (\<open>src/mcp/mod.rs\<close>), and the requests to \<open>/mcp\<close> (\<open>McpWorkload\<close> of
  \<open>src/mcp/server.rs\<close>): authentication, the identity that the next calls act as, and the answers
  of the control plane. The transport that takes an admitted request is the library \<open>rmcp\<close>.
\<close>

section \<open>The catalogue\<close>

record tool_definition =
  td_name :: string
  td_title :: string
  td_read_only :: bool
  td_destructive :: bool
  td_idempotent :: bool
  td_open_world :: bool

definition tool_catalogue :: "tool_definition list" where
  "tool_catalogue =
     map (\<lambda>(name, title, read_only, destructive, idempotent, open_world).
         \<lparr>td_name = name, td_title = title, td_read_only = read_only, td_destructive = destructive,
          td_idempotent = idempotent, td_open_world = open_world\<rparr>)
       [(''remindi_add'', ''Add Remindi item'', False, False, True, False),
        (''remindi_check'', ''Check Remindi items'', False, False, True, True),
        (''remindi_complete'', ''Complete Remindi item'', False, True, True, False),
        (''remindi_snooze'', ''Snooze Remindi item'', False, True, True, False),
        (''remindi_update'', ''Update Remindi item'', False, True, True, False),
        (''remindi_list'', ''List Remindi items'', True, False, True, False),
        (''remindi_cancel'', ''Cancel Remindi item'', False, True, True, False),
        (''remindi_history'', ''Get Remindi history'', True, False, True, False)]"

definition get_tool :: "string \<Rightarrow> tool_definition option" where
  "get_tool name = find (\<lambda>t. td_name t = name) tool_catalogue"

datatype rpc_error = MethodNotFound string

definition call_tool ::
  "env \<Rightarrow> time_outside \<Rightarrow> (world \<Rightarrow> actor \<times> world) \<Rightarrow> string \<Rightarrow> arguments \<Rightarrow> (rpc_error, tool_result) action" where
  "call_tool env out factory name args = (\<lambda>w.
     if get_tool name = None then (Err (MethodNotFound ''unknown Remindi tool''), w)
     else let (r, w') = execute_tool env out factory name args w
          in (map_err (\<lambda>_. MethodNotFound ''unknown Remindi tool'') r, w'))"

section \<open>Requests\<close>

text \<open>The state of \<open>McpWorkload\<close> beside the service: the last identity, and whether it runs.\<close>

record mcp_workload =
  mw_identity :: "mcp_identity option"
  mw_running :: bool

record control_response =
  cr_status :: nat
  cr_error :: string
  cr_retry_after :: "string option"

definition safe_response :: "nat \<Rightarrow> string \<Rightarrow> string option \<Rightarrow> control_response" where
  "safe_response status msg retry_after = \<lparr>cr_status = status, cr_error = msg, cr_retry_after = retry_after\<rparr>"

fun auth_failure :: "mcp_auth_error \<Rightarrow> control_response" where
  "auth_failure McpUnauthenticated = safe_response 401 ''MCP authentication failed'' None"
| "auth_failure OriginRejected = safe_response 403 ''MCP origin rejected'' None"
| "auth_failure CredentialLocation = safe_response 400 ''MCP request rejected'' None"
| "auth_failure HostRejected = safe_response 400 ''MCP request rejected'' None"
| "auth_failure InvalidHostPolicy = safe_response 503 ''MCP workload is unavailable'' None"
| "auth_failure InvalidOriginPolicy = safe_response 503 ''MCP workload is unavailable'' None"

datatype mcp_answer = Answered control_response | Delegated

text \<open>The locks are never poisoned; a panic cannot happen while a request is authenticated.\<close>

definition mcp_handle ::
  "auth_outside \<Rightarrow> mcp_auth_policy \<Rightarrow> header_map \<Rightarrow> ustring option \<Rightarrow> mcp_workload \<Rightarrow> mcp_answer \<times> mcp_workload" where
  "mcp_handle out policy headers query s =
     (case mcp_authenticate out policy headers query of
        Inl (Fail e) \<Rightarrow> (Answered (auth_failure e), s)
      | Inl _ \<Rightarrow> (Answered (safe_response 503 ''MCP workload is unavailable'' None), s)
      | Inr ident \<Rightarrow>
          let s' = s\<lparr>mw_identity := Some ident\<rparr> in
          if mw_running s' then (Delegated, s')
          else (Answered (safe_response 503 ''MCP workload is stopped'' (Some ''1'')), s'))"

text \<open>The actor of a call: whoever the identity is when the call is made; \<open>simple\<close> is the text of an identifier.\<close>

definition actor_factory :: "(uuid \<Rightarrow> ustring) \<Rightarrow> env \<Rightarrow> mcp_workload \<Rightarrow> world \<Rightarrow> actor \<times> world" where
  "actor_factory simple env s w =
     (agent_actor (case mw_identity s of None \<Rightarrow> lit ''mcp:unavailable'' | Some ident \<Rightarrow> mi_actor_id ident)
        (Some (lit ''req_'' @ simple (env_ids env (w_ids w)))),
      w\<lparr>w_ids := w_ids w + 1\<rparr>)"

section \<open>What the catalogue promises\<close>

lemma factory_db: "w_db (snd (actor_factory simple env s w)) = w_db w"
  by (simp add: actor_factory_def)

lemma reads_only_of_service [ro_intros]: "reads_only m \<Longrightarrow> reads_only (of_service m)"
  by (auto simp: reads_only_def of_service_def split: prod.splits) (metis snd_conv)

lemma of_service_Inl: "of_service m w = (Inl e, w') \<Longrightarrow> \<exists>f. m w = (Inl f, w')"
  by (cases "m w"; cases "fst (m w)") (auto simp: of_service_def)

lemma of_service_Inr: "of_service m w = (Inr x, w') \<Longrightarrow> m w = (Inr x, w')"
  by (cases "m w") (auto simp: of_service_def map_err_eq_Inr)

lemma atomic_of_service: "atomic m \<Longrightarrow> atomic (of_service m)"
  by (auto simp: atomic_def dest!: of_service_Inl)

lemma query_tools [ro_intros]: "reads_only (list_tool env a li)" "reads_only (history_tool env out a hi)"
  unfolding list_tool_def history_tool_def
  by (intro ro_intros | clarsimp split: prod.split)+

lemma dispatch_queries:
  "dispatch env out a ''remindi_list'' args = parsed (as_list args) (list_tool env a)"
  "dispatch env out a ''remindi_history'' args = parsed (as_history args) (history_tool env out a)"
  by (simp_all add: dispatch_def)

lemma reads_only_parsed [ro_intros]: "(\<And>i. reads_only (f i)) \<Longrightarrow> reads_only (parsed input f)"
  unfolding parsed_def by (intro ro_intros)

lemma executed_db:
  assumes "execute_tool env out (actor_factory simple env s) name args w = (r, w')"
  obtains a w1 q where "w_db w1 = w_db w" and "dispatch env out a name args w1 = (q, w')" and "r = tool_response a q"
    and "actor_factory simple env s w = (a, w1)"
proof -
  obtain a w1 where f: "actor_factory simple env s w = (a, w1)" by fastforce
  with factory_db [of simple env s w] have "w_db w1 = w_db w" by simp
  moreover obtain q w2 where "dispatch env out a name args w1 = (q, w2)" by fastforce
  ultimately show thesis using assms f by (intro that [of w1 a q]) (auto simp: execute_tool_def)
qed

text \<open>
  The annotations of the catalogue are truthful: a tool that is announced as read-only never changes the
  database, whoever calls it with whatever arguments and however it ends.
\<close>

theorem read_only_tools_read:
  assumes "get_tool name = Some t" and "td_read_only t" and "call_tool env out (actor_factory simple env s) name args w = (r, w')"
  shows "w_db w' = w_db w"
proof -
  have "\<forall>t \<in> set tool_catalogue. td_read_only t \<longrightarrow> td_name t = ''remindi_list'' \<or> td_name t = ''remindi_history''"
    by (simp add: tool_catalogue_def)
  with assms(1,2) find_key_SomeD [of td_name name tool_catalogue t]
  have "name = ''remindi_list'' \<or> name = ''remindi_history''" by (auto simp: get_tool_def)
  then have ro: "reads_only (dispatch env out a name args)" for a
    by (elim disjE) (simp_all add: dispatch_queries ro_intros)
  from assms(1,3) obtain q where "execute_tool env out (actor_factory simple env s) name args w = (q, w')"
    by (auto simp: call_tool_def split: prod.splits)
  then show ?thesis
    by (rule executed_db) (metis ro reads_only_def snd_conv)
qed

theorem read_only_tools_read_witness:
  "w_db (snd (call_tool demo_env \<lparr>to_rfc3339 = (\<lambda>_. None), to_legacy = (\<lambda>_. None)\<rparr>
     (actor_factory (\<lambda>_. []) demo_env \<lparr>mw_identity = None, mw_running = True\<rparr>) ''remindi_list''
     \<lparr>as_add = None, as_check = None, as_complete = None, as_snooze = None, as_update = None, as_list = None,
      as_cancel = None, as_history = None\<rparr> demo_world)) = demo_db"
proof -
  have "\<exists>t. get_tool ''remindi_list'' = Some t \<and> td_read_only t" by (simp add: get_tool_def tool_catalogue_def)
  with read_only_tools_read [OF _ _ surjective_pairing] show ?thesis by fastforce
qed

section \<open>Failing calls\<close>

text \<open>A tool whose only fallible step that writes is its call of the service is atomic.\<close>

lemma atomic_mutation_tools:
  "atomic (add_tool env out a ai)" "atomic (complete_tool env out a mi)" "atomic (snooze_tool env out a si)"
  "atomic (update_tool env out a ui)" "atomic (cancel_tool env a xi)"
  unfolding add_tool_def complete_tool_def snooze_tool_def update_tool_def cancel_tool_def
  by (auto intro!: atomic_bind [OF reads_only_basic(1)] atomic_bind_final atomic_of_service atomic_add atomic_commands)

text \<open>A check reports the time it read, which has a timestamp.\<close>

lemma check_reports_clock: "check env a req w = (Inr result, w') \<Longrightarrow> kt_checked_at result \<in> range (env_clock env)"
  by (auto simp: check_def check_apply_def check_plan_def svc_simps Let_def split: if_splits)

lemma atomic_check_tool:
  assumes "clock_ok env"
  shows "atomic (check_tool env a ci)"
  unfolding atomic_def
proof clarify
  fix w e w' assume run: "check_tool env a ci w = (Inl e, w')"
  show "w_db w' = w_db w"
  proof (cases "of_service (check env a (check_request_of ci)) w")
    case (Pair r w1)
    show ?thesis
    proof (cases r)
      case (Inl x)
      with run Pair have "w' = w1" by (simp add: check_tool_def sbind_def)
      moreover from of_service_Inl [OF Pair [unfolded Inl]] obtain f where "check env a (check_request_of ci) w = (Inl f, w1)" by blast
      with atomic_check have "w_db w1 = w_db w" unfolding atomic_def by blast
      ultimately show ?thesis by simp
    next
      case (Inr result)
      from check_reports_clock [OF of_service_Inr [OF Pair [unfolded Inr]]] obtain n where "kt_checked_at result = env_clock env n"
        by (rule rangeE)
      moreover from assms have "rfc3339_ok (env_clock env n)" by (simp add: clock_ok_def)
      ultimately have "canonical_timestamp (kt_checked_at result) = Ok (kt_checked_at result div ns_per_ms)"
        using canonical_timestamp_Ok by simp
      with run Pair Inr show ?thesis by (simp add: check_tool_def sbind_def slift_def shown_def)
    qed
  qed
qed

lemma atomic_parsed: "(\<And>i. atomic (f i)) \<Longrightarrow> atomic (parsed input f)"
  unfolding parsed_def by (intro atomic_bind ro_intros)

lemma atomic_if: "atomic m \<Longrightarrow> atomic n \<Longrightarrow> atomic (if b then m else n)"
  by simp

lemma atomic_dispatch: "clock_ok env \<Longrightarrow> atomic (dispatch env out a name args)"
  unfolding dispatch_def
  by (intro atomic_if atomic_parsed atomic_mutation_tools atomic_check_tool atomic_slift
      reads_only_atomic [OF query_tools(1)] reads_only_atomic [OF query_tools(2)])

text \<open>
  C39: A tool call that is not answered with a success has changed nothing: whatever the tool, the arguments and
  the reason, the items, the audit trail and the stored responses are as before the call.
\<close>

theorem failed_calls_change_nothing:
  assumes "clock_ok env" and "call_tool env out (actor_factory simple env s) name args w = (r, w')"
    and "\<nexists>i d. r = Ok (SuccessResponse i d)"
  shows "w_db w' = w_db w"
proof (cases "get_tool name")
  case None
  with assms(2) show ?thesis by (simp add: call_tool_def)
next
  case (Some t)
  with assms(2) obtain q where q: "execute_tool env out (actor_factory simple env s) name args w = (q, w')"
    and r: "r = map_err (\<lambda>_. MethodNotFound ''unknown Remindi tool'') q"
    by (auto simp: call_tool_def split: prod.splits)
  from q show ?thesis
  proof (rule executed_db)
    fix a w1 x assume w1: "w_db w1 = w_db w" and d: "dispatch env out a name args w1 = (x, w')" and x: "q = tool_response a x"
    from assms(3) r x obtain e where "x = Inl e" by (cases x) (auto simp: tool_response_def)
    with atomic_dispatch [OF assms(1)] d w1 show ?thesis by (fastforce simp: atomic_def)
  qed
qed

theorem failed_calls_change_nothing_witness:
  "w_db (snd (call_tool demo_env \<lparr>to_rfc3339 = (\<lambda>_. None), to_legacy = (\<lambda>_. None)\<rparr>
     (actor_factory (\<lambda>_. []) demo_env \<lparr>mw_identity = None, mw_running = True\<rparr>) ''remindi_drop''
     \<lparr>as_add = None, as_check = None, as_complete = None, as_snooze = None, as_update = None, as_list = None,
      as_cancel = None, as_history = None\<rparr> demo_world)) = demo_db"
proof -
  have "get_tool ''remindi_drop'' = None" by (simp add: get_tool_def tool_catalogue_def)
  with failed_calls_change_nothing [OF demo_clock surjective_pairing, where name = "''remindi_drop''" and w = demo_world]
  show ?thesis by (simp add: call_tool_def)
qed

section \<open>Who a call acts as\<close>

datatype mcp_event = McpRequest header_map "ustring option" | McpStart | McpStop

fun mcp_step :: "auth_outside \<Rightarrow> mcp_auth_policy \<Rightarrow> mcp_event \<Rightarrow> mcp_workload \<Rightarrow> mcp_workload" where
  "mcp_step out policy (McpRequest headers query) s = snd (mcp_handle out policy headers query s)"
| "mcp_step out policy McpStart s = s\<lparr>mw_running := mcp_start (mw_running s)\<rparr>"
| "mcp_step out policy McpStop s = s\<lparr>mw_running := mcp_stop (mw_running s)\<rparr>"

definition knows_owner :: "mcp_auth_policy \<Rightarrow> mcp_workload \<Rightarrow> bool" where
  "knows_owner policy s \<longleftrightarrow> (\<forall>ident. mw_identity s = Some ident \<longrightarrow> mi_actor_id ident = mp_actor_id policy)"

lemma authenticated_identity:
  "mcp_authenticate out policy headers query = Inr ident \<Longrightarrow> mi_actor_id ident = mp_actor_id policy"
  by (auto simp: mcp_authenticate_def res_simps split: if_splits)

lemma step_owner: "knows_owner policy s \<Longrightarrow> knows_owner policy (mcp_step out policy e s)"
  by (cases e) (auto simp: knows_owner_def mcp_handle_def Let_def authenticated_identity split: sum.splits failure.splits)

lemma step_identity: "mw_identity s \<noteq> None \<Longrightarrow> mw_identity (mcp_step out policy e s) \<noteq> None"
  by (cases e) (auto simp: mcp_handle_def Let_def split: sum.splits failure.splits)

lemma run_owner: "knows_owner policy s \<Longrightarrow> knows_owner policy (fold (mcp_step out policy) es s)"
  by (induction es arbitrary: s) (simp_all add: step_owner)

lemma run_identity: "mw_identity s \<noteq> None \<Longrightarrow> mw_identity (fold (mcp_step out policy) es s) \<noteq> None"
proof (induction es arbitrary: s)
  case (Cons e es)
  from Cons.IH [OF step_identity [OF Cons.prems]] show ?case by simp
qed simp

text \<open>
  C40: The identity that the server keeps is shared by all requests and overwritten by each, and this is
  harmless: whatever requests, rejected or admitted, and whatever starts and stops come before an admitted
  request and between it and the call that it makes, the call acts as the agent of the configured
  owner and secret.
\<close>

theorem tool_calls_act_for_owner:
  assumes "mcp_policy_new out owner secret hosts origins = Ok policy"
    and "mcp_handle out policy headers query (fold (mcp_step out policy) before \<lparr>mw_identity = None, mw_running = running\<rparr>) = (Delegated, s)"
    and "actor_factory simple env (fold (mcp_step out policy) meanwhile s) w = (a, w')"
  shows "actor_type a = A_Agent \<and> actor_id a = actor_fingerprint out (utf8_bytes owner) (utf8_bytes secret)"
proof -
  let ?s0 = "fold (mcp_step out policy) before \<lparr>mw_identity = None, mw_running = running\<rparr>"
  have "knows_owner policy ?s0" by (intro run_owner) (simp add: knows_owner_def)
  from step_owner [OF this, of out "McpRequest headers query"] assms(2) have k: "knows_owner policy s" by simp
  from assms(2) have "mw_identity s \<noteq> None"
    by (auto simp: mcp_handle_def Let_def split: sum.splits failure.splits if_splits)
  from run_identity [OF this] run_owner [OF k] obtain ident
    where "mw_identity (fold (mcp_step out policy) meanwhile s) = Some ident" "mi_actor_id ident = mp_actor_id policy"
    by (fastforce simp: knows_owner_def)
  with assms(3) mcp_policy_new_Ok [OF assms(1)] show ?thesis
    by (auto simp: actor_factory_def agent_actor_def)
qed

definition demo_policy :: mcp_auth_policy where
  "demo_policy = \<lparr>mp_owner_id = lit ''owner'', mp_expected_token_digest = token_digest demo_auth (utf8_bytes (lit ''secret'')),
     mp_actor_id = actor_fingerprint demo_auth (utf8_bytes (lit ''owner'')) (utf8_bytes (lit ''secret'')),
     mp_allowed_hosts = [], mp_allowed_origins = []\<rparr>"

theorem tool_calls_act_for_owner_witness:
  "\<exists>a w'. actor_factory (\<lambda>_. []) demo_env
       (fold (mcp_step demo_auth demo_policy) [McpRequest [] None, McpStop]
         (snd (mcp_handle demo_auth demo_policy demo_headers None \<lparr>mw_identity = None, mw_running = True\<rparr>))) demo_world = (a, w')
     \<and> actor_id a = actor_fingerprint demo_auth (utf8_bytes (lit ''owner'')) (utf8_bytes (lit ''secret''))"
proof -
  have p: "mcp_policy_new demo_auth (lit ''owner'') (lit ''secret'') [] [] = Ok demo_policy"
    by (simp add: mcp_policy_new_def demo_policy_def)
  have "fst (mcp_handle demo_auth demo_policy demo_headers None \<lparr>mw_identity = None, mw_running = True\<rparr>) = Delegated"
    by (simp add: mcp_handle_def demo_admitted [OF p])
  then have "mcp_handle demo_auth demo_policy demo_headers None
      (fold (mcp_step demo_auth demo_policy) [] \<lparr>mw_identity = None, mw_running = True\<rparr>)
      = (Delegated, snd (mcp_handle demo_auth demo_policy demo_headers None \<lparr>mw_identity = None, mw_running = True\<rparr>))"
    by (metis fold_simps(1) prod.collapse)
  from tool_calls_act_for_owner [OF p this surjective_pairing] show ?thesis by (metis surjective_pairing)
qed

end
