(* ===== verification/BackupFrames.thy ===== *)
theory BackupFrames
  imports Backups
begin

text \<open>
  What the operations on backups change: which files, that the items of the live database stay, and
  what a successful verification, download or creation says of the files.
\<close>

section \<open>Reading changes nothing\<close>

lemma touches_case_sum [touches_intros]:
  "(\<And>x. ensures (touches T) (f x)) \<Longrightarrow> (\<And>y. ensures (touches T) (g y)) \<Longrightarrow> ensures (touches T) (case_sum f g r)"
  by (cases r) simp_all

lemma touches_verifying [touches_intros]:
  "ensures (touches T) (verify_header env p)" "ensures (touches T) (check_integrity env p)"
  "ensures (touches T) (open_read_only env p)" "ensures (touches T) (hash_file env p v now)"
  "ensures (touches T) (read_manifest env p)"
  by (auto simp: verify_header_def check_integrity_def open_read_only_def hash_file_def read_manifest_def
      intro!: touches_intros)

lemma touches_audit [touches_intros]: "ensures (touches T) (storage_audit env kind who outcome dets d)"
  by (auto simp: storage_audit_def intro!: touches_intros)

lemma touches_verify [touches_intros]:
  "ensures (touches T) (verify_database_at env p now)" "ensures (touches T) (verify_database env p)"
  "ensures (touches T) (backup_identity env source who)" "ensures (touches T) (list_backups env)"
  by (auto simp: verify_database_at_def verify_database_def backup_identity_def list_backups_def
      intro!: touches_intros)

lemma touches_download [touches_intros]: "ensures (touches T) (download_backup env i)"
  by (auto simp: download_backup_def intro!: touches_intros)

section \<open>Transactions keep the items\<close>

lemma storage_audit_items:
  "storage_audit env kind who outcome dets d s = (Inr d', s') \<Longrightarrow> ld_items d' = ld_items d \<and> ld_backups d' = ld_backups d"
  by (auto simp: storage_audit_def mbind_eq_Inr mlift_eq)

lemma insert_manifest_items [simp]: "ld_items (fst (insert_manifest m d)) = ld_items d"
  by (simp add: insert_manifest_def)

lemma expire_row_items [simp]: "ld_items (expire_row i d) = ld_items d"
  by (simp add: expire_row_def)

lemma unmoved_mlift: "ensures (unmoved env T) (mlift r)"
  by (rule ensures_mlift) simp

lemma unmoved_audit_append: "ensures (unmoved env {LiveLog}) (storage_audit_append env kind who outcome dets)"
  unfolding storage_audit_append_def
  by (rule unmoved_transaction) (auto intro!: touches_intros dest: storage_audit_items)

lemma unmoved_register: "ensures (unmoved env {LiveLog}) (register env m kind who)"
proof -
  have e: "register env m kind who =
      mbind (mbind (live_query env) (\<lambda>d. mbind (mbind (statement_call env) (\<lambda>_.
        storage_audit env kind who ''succeeded'' (backup_details (bm_id m)) (fst (insert_manifest m d)))) (commit_live env)))
       (\<lambda>_. mlift (Ok (record_of_manifest m)))"
    by (simp add: register_def mbind_assoc)
  show ?thesis
    unfolding e by (intro unmoved_mbind unmoved_mlift unmoved_transaction)
      (auto intro!: touches_intros simp: mbind_eq_Inr dest!: storage_audit_items)
qed

lemma unmoved_insert: "ensures (unmoved env {LiveLog}) (insert_if_missing env m :: ('x, bool) stored)"
proof -
  let ?t = "mbind (live_query env) (\<lambda>d. mbind (mbind (statement_call env) (\<lambda>_.
        mlift (Ok (fst (insert_manifest m d))))) (commit_live env)) :: ('x, unit) stored"
  have "ensures (unmoved env {LiveLog}) ?t"
    by (rule unmoved_transaction) (auto intro!: touches_intros simp: mbind_eq_Inr mlift_eq)
  moreover have "snd (insert_if_missing env m s) = snd (?t s)" for s :: "'x storage_scheme"
    by (auto simp: insert_if_missing_def mbind_def mlift_def split: prod.splits sum.splits)
  ultimately show ?thesis by (simp add: ensures_def)
qed

lemma tidy_mlift: "ensures (tidy env T) (mlift r)"
  by (rule ensures_mlift) simp

lemma tidy_quiet: "ensures (touches {}) m \<Longrightarrow> ensures (tidy env T) m"
  by (intro ensures_tidy quiet_unmoved)

lemma tidy_expire: "ensures (tidy env {LiveLog}) (expire_backup env who r)"
proof -
  have e: "expire_backup env who r =
      mbind (mbind (live_query env) (\<lambda>d. mbind (mbind (statement_call env) (\<lambda>_.
        storage_audit env ''backup_expired'' who ''succeeded'' (backup_details (br_id r)) (expire_row (br_id r) d))) (commit_live env)))
       (\<lambda>_. mbind (remove_if_exists env (Backup (br_file_name r))) (\<lambda>_.
              remove_if_exists env (Backup (manifest_name (br_file_name r)))))"
    by (simp add: expire_backup_def mbind_assoc)
  show ?thesis
    unfolding e by (intro tidy_mbind tidy_remove ensures_tidy unmoved_transaction)
      (auto intro!: touches_intros simp: mbind_eq_Inr dest!: storage_audit_items)
qed

lemma tidy_each: "(\<And>x. ensures (tidy env T) (f x)) \<Longrightarrow> ensures (tidy env T) (each f xs)"
  by (rule ensures_each) simp_all

lemma tidy_retention: "ensures (tidy env {LiveLog}) (apply_retention env who)"
proof -
  have sync: "ensures (tidy env T) (if rows \<noteq> [] then sync_directory env else mlift (Ok ()))"
    for T and rows :: "backup_row list"
    by (intro tidy_quiet touches_intros)
  show ?thesis
    unfolding apply_retention_def Let_def
    by (intro tidy_mbind tidy_each tidy_expire tidy_mlift sync tidy_quiet touches_reading)
qed

section \<open>Names\<close>

lemma has_prefix_hd: "has_prefix p s \<Longrightarrow> p \<noteq> [] \<Longrightarrow> s \<noteq> [] \<and> hd s = hd p"
  by (cases p; cases s) (auto simp: has_prefix_def)

lemma has_suffix_last: "has_suffix p s \<Longrightarrow> p \<noteq> [] \<Longrightarrow> s \<noteq> [] \<and> last s = last p"
  using has_prefix_hd [of "rev p" "rev s"] by (auto simp: has_suffix_def hd_rev)

text \<open>The first and the last character of a name tell the kinds of files apart.\<close>

lemma safe_ends: "safe_file_name n \<Longrightarrow> n \<noteq> [] \<and> hd n = 114 \<and> last n = 51"
  using has_prefix_hd [of "lit ''remindi-''" n] has_suffix_last [of "lit ''.sqlite3''" n] by (simp add: safe_file_name_def)

lemma temporary_start: "is_temporary_name n \<Longrightarrow> n \<noteq> [] \<and> hd n = 46"
  using has_prefix_hd [of "lit ''.tmp-''" n] by (simp add: is_temporary_name_def)

lemma generated_names [simp]:
  "hd (database_file_name i) = 114" "last (database_file_name i) = 51" "database_file_name i \<noteq> []"
  "hd (temporary_database_name i) = 46" "hd (temporary_manifest_name i) = 46"
  "last (temporary_database_name i) = 51" "last (temporary_manifest_name i) = 110"
  "last (manifest_name n) = 110" "manifest_name n \<noteq> []"
  by (simp_all add: database_file_name_def temporary_database_name_def temporary_manifest_name_def manifest_name_def)

text \<open>The files a creation with the identifier \<open>i\<close> writes.\<close>

definition created_files :: "ustring \<Rightarrow> file_path set" where
  "created_files i = {Backup (temporary_database_name i), Backup (temporary_manifest_name i), Backup (database_file_name i),
     Backup (manifest_name (database_file_name i)), LiveLog}"

section \<open>Creating\<close>

lemma touches_publish:
  "{p, Backup (temporary_manifest_name (bm_id m)), Backup n, Backup (manifest_name n)} \<subseteq> T
    \<Longrightarrow> ensures (touches T) (publish_backup env p n m)"
  unfolding publish_backup_def Let_def by (intro touches_intros) auto

lemma backup_identity_Inr:
  "backup_identity env source who s = (Inr p, s') \<Longrightarrow>
     pb_id p = ev_uuid_text env (ev_ids env (fs_ids s)) \<and> pb_file_name p = database_file_name (pb_id p)
     \<and> pb_source p = source"
  by (auto simp: backup_identity_def mbind_eq_Inr mlift_eq storage_id_def storage_now_def)

lemma finish_backup_simps [simp]:
  "bm_id (finish_backup p v) = pb_id p" "bm_file_name (finish_backup p v) = pb_file_name p"
  "bm_source (finish_backup p v) = pb_source p"
  by (simp_all add: finish_backup_def)

lemma tidy_touches: "ensures (touches (T - {LiveLog})) m \<Longrightarrow> LiveFile \<notin> T \<Longrightarrow> ensures (tidy env T) m"
  by (rule ensures_tidy [OF ensures_unmoved_mono [OF ensures_unmoved [where T = "T - {LiveLog}"]]]) auto

lemma tidy_create_rest:
  fixes p :: pending_backup
  assumes "pb_file_name p = database_file_name (pb_id p)"
  shows "ensures (tidy env (created_files (pb_id p))) (mbind (vacuum_into env (Backup (temporary_database_name (pb_id p)))) (\<lambda>_.
        mbind (protect_file env (Backup (temporary_database_name (pb_id p)))) (\<lambda>_.
        mbind (sync_file env (Backup (temporary_database_name (pb_id p)))) (\<lambda>_.
        mbind (verify_database env (Backup (temporary_database_name (pb_id p)))) (\<lambda>v.
        mbind (publish_backup env (Backup (temporary_database_name (pb_id p))) (pb_file_name p) (finish_backup p v)) (\<lambda>_.
        mbind (register env (finish_backup p v) ''backup_created'' who) (\<lambda>r.
        mbind (apply_retention env who) (\<lambda>_.
          mlift (Ok r)))))))))"
proof -
  let ?T = "created_files (pb_id p)"
  have ret: "ensures (tidy env ?T) (apply_retention env who)"
    by (rule ensures_tidy_mono [OF tidy_retention]) (simp add: created_files_def)
  have reg: "ensures (tidy env ?T) (register env m ''backup_created'' who)" for m
    by (rule ensures_tidy_mono [OF ensures_tidy [OF unmoved_register]]) (simp add: created_files_def)
  have pub: "ensures (tidy env ?T) (publish_backup env (Backup (temporary_database_name (pb_id p))) (pb_file_name p) (finish_backup p v))" for v
    by (intro tidy_touches touches_publish) (auto simp: created_files_def assms)
  have vac: "ensures (tidy env ?T) (vacuum_into env (Backup (temporary_database_name (pb_id p))))"
    by (intro tidy_touches touches_vacuum) (auto simp: created_files_def)
  show ?thesis
    by (intro tidy_mbind vac pub reg ret tidy_mlift tidy_quiet touches_intros)
qed

text \<open>Whatever becomes of a creation, the items stay and other files at most disappear.\<close>

lemma create_tidy:
  assumes "create_backup env source who s = (r, s')"
  shows "tidy env (created_files (ev_uuid_text env (ev_ids env (fs_ids s)))) s s'"
proof (cases "source = Upload")
  case True
  with assms show ?thesis by (simp add: create_backup_def mlift_eq tidy_def)
next
  case False
  obtain a s1 where i: "backup_identity env source who s = (a, s1)" by (cases "backup_identity env source who s")
  have t: "touches {} s s1" using i ensuresD [OF touches_verify(3)] by blast
  then have t': "tidy env T s s1" for T
    using touches_view_refl [OF t, where env = env] by (auto simp: tidy_def touches_def live_items_def)
  show ?thesis
  proof (cases a)
    case (Inl x)
    with assms i False t' show ?thesis by (simp add: create_backup_def mbind_def)
  next
    case (Inr p)
    note p = backup_identity_Inr [OF i [unfolded Inr]]
    have "tidy env (created_files (pb_id p)) s1 s'"
      by (rule ensuresD [OF tidy_create_rest [where p = p and env = env and who = who]])
        (use assms i False Inr p in \<open>simp_all add: create_backup_def mbind_def [of "backup_identity env source who"] Let_def\<close>)
    with t' [of "created_files (pb_id p)"] p show ?thesis
      using tidy_order(2) [of env "created_files (pb_id p)"] by (simp add: transp_def) blast
  qed
qed

text \<open>The identifiers and file names of the inventory.\<close>

definition backup_names :: "live_db \<Rightarrow> (ustring \<times> ustring) list" where
  "backup_names d = map (\<lambda>r. (br_id r, br_file_name r)) (ld_backups d)"

lemma expire_row_names [simp]: "backup_names (expire_row i d) = backup_names d"
  by (auto simp: backup_names_def expire_row_def)

lemma names_touches [intro]: "ensures (touches {}) m \<Longrightarrow> ensures (same (live_part env g)) m"
  by (erule live_part_touches) simp_all

lemma retention_names: "ensures (same (live_part env backup_names)) (apply_retention env who)"
proof -
  have e: "expire_backup env who r =
      mbind (mbind (live_query env) (\<lambda>d. mbind (mbind (statement_call env) (\<lambda>_.
        storage_audit env ''backup_expired'' who ''succeeded'' (backup_details (br_id r)) (expire_row (br_id r) d))) (commit_live env)))
       (\<lambda>_. mbind (remove_if_exists env (Backup (br_file_name r))) (\<lambda>_.
              remove_if_exists env (Backup (manifest_name (br_file_name r)))))" for r
    by (simp add: expire_backup_def mbind_assoc)
  have rm: "ensures (same (live_part env backup_names)) (remove_if_exists env (Backup n))" for n
    by (rule live_part_touches [OF touches_remove [of _ "{Backup n}"]]) simp_all
  have keep: "backup_names d' = backup_names (expire_row i d)"
    if "storage_audit env kind w out dets (expire_row i d) s = (Inr d', s')" for kind w out dets i d s d' s'
    using storage_audit_items [OF that] by (simp add: backup_names_def)
  have one: "ensures (same (live_part env backup_names)) (expire_backup env who r)" for r
    unfolding e by (intro live_part_mbind rm live_part_transaction)
      (auto intro!: touches_intros simp: mbind_eq_Inr dest!: keep)
  have all: "ensures (same (live_part env backup_names)) (each (expire_backup env who) rows)" for rows
    by (rule ensures_each) (simp_all add: one)
  have sync: "ensures (same (live_part env backup_names)) (if rows \<noteq> [] then sync_directory env else mlift (Ok ()))"
    for rows :: "backup_row list" by (intro names_touches touches_intros)
  show ?thesis
    unfolding apply_retention_def Let_def
    by (intro live_part_mbind all sync names_touches touches_intros)
qed

lemma register_Inr:
  assumes "register env m kind who s = (Inr rec, s')"
  shows "rec = record_of_manifest m \<and> touches {LiveLog} s s' \<and> (\<exists>d d'. live_view env s = Some d \<and> live_view env s' = Some d'
     \<and> ld_backups d' = ld_backups (fst (insert_manifest m d)) \<and> ld_items d' = ld_items d)"
proof -
  from assms obtain d s1 s2 d' s3 where q: "live_query env s = (Inr d, s1)" and st: "statement_call env s1 = (Inr (), s2)"
    and a: "storage_audit env kind who ''succeeded'' (backup_details (bm_id m)) (fst (insert_manifest m d)) s2 = (Inr d', s3)"
    and c: "commit_live env d' s3 = (Inr (), s')" and r: "rec = record_of_manifest m"
    by (auto simp: register_def mbind_eq_Inr mlift_eq)
  have "touches {} s s3"
    using live_query_Inr [OF q] ensuresD [OF touches_reading(6) [where T = "{}"] st] ensuresD [OF touches_audit [where T = "{}"] a]
    by (auto simp: touches_def)
  then have "touches {LiveLog} s s'" using commit_live_cases(1) [OF c] touches_trans by fastforce
  with r live_query_Inr [OF q] storage_audit_items [OF a] commit_live_cases(3) [OF c] show ?thesis by simp
qed

lemma publish_Inr:
  assumes "publish_backup env p n m s = (Inr u, s')" and "p \<noteq> Backup (temporary_manifest_name (bm_id m))"
    and "n \<noteq> temporary_manifest_name (bm_id m)" and "n \<noteq> manifest_name n"
  shows "file_at s' (Backup n) = file_at s p"
proof -
  let ?t = "Backup (temporary_manifest_name (bm_id m))"
  from assms(1) obtain s1 s2 s3 s4 s5 s6 s7 u1 u2 u3 u4 u5 u6 u7 where s: "create_new env ?t s = (Inr u1, s1)"
    "append_file env ?t (ev_manifest_bytes env m) s1 = (Inr u2, s2)" "quiet_call env BackupIo s2 = (Inr u3, s3)"
    "protect_file env ?t s3 = (Inr u4, s4)" "sync_file env ?t s4 = (Inr u5, s5)"
    "rename_file env p (Backup n) s5 = (Inr u6, s6)" "rename_file env ?t (Backup (manifest_name n)) s6 = (Inr u7, s7)"
    "sync_directory env s7 = (Inr u, s')"
    unfolding publish_backup_def Let_def mbind_eq_Inr by blast
  have "touches {?t} s s5"
    using ensuresD [OF touches_writing(1) [where T = "{?t}"] s(1)] ensuresD [OF touches_writing(3) [where T = "{?t}"] s(2)]
      ensuresD [OF touches_quiet [where T = "{?t}"] s(3)] ensuresD [OF touches_reading(2) [where T = "{?t}"] s(4)]
      ensuresD [OF touches_reading(4) [where T = "{?t}"] s(5)] by (auto simp: touches_def)
  moreover obtain b where "file_at s5 p = Some b" "file_at s6 (Backup n) = Some b" using rename_file_Inr [OF s(6)] by blast
  moreover have "file_at s7 (Backup n) = file_at s6 (Backup n)" using rename_file_Inr [OF s(7)] assms(3,4) by (auto simp: touches_def)
  moreover have "file_at s' (Backup n) = file_at s7 (Backup n)"
    using ensuresD [OF touches_reading(5) [where T = "{}"] s(8)] by (simp add: touches_def)
  ultimately show ?thesis using assms(2) by (simp add: touches_def)
qed

lemma tidyD: "tidy env T s s' \<Longrightarrow> file_at s p = Some b \<Longrightarrow> p \<notin> T \<Longrightarrow> file_at s' p \<in> {Some b, None}"
  unfolding tidy_def by metis

text \<open>
  A creation that succeeds: its file holds what the live database was, unless the retention has removed it
  already, and no other row got its identifier.
\<close>

lemma create_Inr:
  assumes "create_backup env source who s = (Inr rec, s')"
  defines "i \<equiv> ev_uuid_text env (ev_ids env (fs_ids s))"
  shows "bk_id rec = i \<and> bk_file_name rec = database_file_name i
     \<and> (\<exists>b d d'. live_view env s = Some d \<and> sq_read env b None = Some d
          \<and> file_at s' (Backup (database_file_name i)) \<in> {Some b, None} \<and> live_view env s' = Some d'
          \<and> set (backup_names d') \<subseteq> insert (i, database_file_name i) (set (backup_names d)))"
proof -
  from assms(1) have ne: "source \<noteq> Upload" by (auto simp: create_backup_def mlift_eq split: if_splits)
  with assms(1) obtain p v s1 s2 s3 s4 s5 s6 s7 u1 u2 u3 u4 n where
    i: "backup_identity env source who s = (Inr p, s1)" and
    st: "vacuum_into env (Backup (temporary_database_name (pb_id p))) s1 = (Inr u1, s2)"
    "protect_file env (Backup (temporary_database_name (pb_id p))) s2 = (Inr u2, s3)"
    "sync_file env (Backup (temporary_database_name (pb_id p))) s3 = (Inr u3, s4)"
    "verify_database env (Backup (temporary_database_name (pb_id p))) s4 = (Inr v, s5)"
    "publish_backup env (Backup (temporary_database_name (pb_id p))) (pb_file_name p) (finish_backup p v) s5 = (Inr u4, s6)"
    "register env (finish_backup p v) ''backup_created'' who s6 = (Inr rec, s7)"
    "apply_retention env who s7 = (Inr n, s')"
    by (auto simp: create_backup_def mbind_eq_Inr mlift_eq Let_def)
  have p: "pb_id p = i" "pb_file_name p = database_file_name i" using backup_identity_Inr [OF i] by (simp_all add: i_def)
  let ?f = "Backup (database_file_name i)"
  obtain b d where v: "live_view env s1 = Some d" "file_at s2 (Backup (temporary_database_name i)) = Some b"
    "sq_read env b None = Some d" "touches {Backup (temporary_database_name i)} s1 s2"
    using vacuum_into_Inr [OF st(1)] p by auto
  have t: "touches {} s s1" using i ensuresD [OF touches_verify(3)] by blast
  have t5: "touches {} s2 s5"
    using ensuresD [OF touches_reading(2) [where T = "{}"] st(2)] ensuresD [OF touches_reading(4) [where T = "{}"] st(3)]
      ensuresD [OF touches_verify(2) [where T = "{}"] st(4)] by (auto simp: touches_def)
  have "file_at s6 ?f = file_at s5 (Backup (temporary_database_name i))"
    using publish_Inr [OF st(5)] p
    by (metis file_path.inject(1) finish_backup_simps(1) generated_names(1,2,4-8) zero_neq_numeral numeral_eq_iff semiring_norm(83,85-90))
  with t5 v have f6: "file_at s6 ?f = Some b" by (simp add: touches_def)
  have d6: "live_view env s6 = Some d"
  proof -
    have "touches {Backup (temporary_database_name i), Backup (temporary_manifest_name i), ?f, Backup (manifest_name (database_file_name i))} s5 s6"
      using p by (intro ensuresD [OF touches_publish st(5)]) auto
    with v t5 have "live_view env s6 = live_view env s1" by (intro live_view_cong) (auto simp: touches_def)
    with v show ?thesis by simp
  qed
  obtain d' where r: "rec = record_of_manifest (finish_backup p v)" "touches {LiveLog} s6 s7" "live_view env s7 = Some d'"
    "ld_backups d' = ld_backups (fst (insert_manifest (finish_backup p v) d))"
    using register_Inr [OF st(6)] d6 by auto
  have names: "set (backup_names d') \<subseteq> insert (i, database_file_name i) (set (backup_names d))"
    using r(4) p by (auto simp: backup_names_def insert_manifest_def row_of_manifest_def split: if_splits)
  have "tidy env {LiveLog} s7 s'" using ensuresD [OF tidy_retention st(7)] .
  moreover have "file_at s7 ?f = Some b" using f6 r(2) by (simp add: touches_def)
  ultimately have f: "file_at s' ?f \<in> {Some b, None}" by (rule tidyD) simp
  have "live_part env backup_names s' = live_part env backup_names s7"
    using ensuresD [OF retention_names st(7)] by (simp add: same_def)
  with r(3) obtain d'' where d'': "live_view env s' = Some d''" "backup_names d'' = backup_names d'"
    by (auto simp: live_part_def)
  have "live_view env s = Some d" using v touches_view_refl [OF t, where env = env] by simp
  with p r(1) f d'' names v show ?thesis by (auto simp: record_of_manifest_def)
qed

section \<open>Verification and download\<close>

text \<open>What a verified file is: an intact database of a known version with the items of the owner only.\<close>

definition sound_file :: "'z backup_env_scheme \<Rightarrow> bytes \<Rightarrow> live_db \<Rightarrow> bool" where
  "sound_file env b d \<longleftrightarrow> header_ok b \<and> sq_integrity env b None = ''ok'' \<and> sq_read env b None = Some d
     \<and> 1 \<in> set (ld_scripts d) \<and> 1 \<le> schema_version_of d \<and> schema_version_of d \<le> current_schema_version
     \<and> list_all (\<lambda>r. c_owner_id r = ev_owner env) (remindi_table (ld_items d)) \<and> invariant_violations d = 0"

lemma wrong_owner_0: "wrong_owner owner d = 0 \<longleftrightarrow> list_all (\<lambda>r. c_owner_id r = owner) (remindi_table (ld_items d))"
  by (simp add: wrong_owner_def filter_empty_conv list_all_iff)

lemma verify_at_Inr:
  assumes "verify_database_at env (Backup n) now s = (Inr v, s')"
  shows "\<exists>b d. file_at s (Backup n) = Some b \<and> sound_file env b d \<and> vf_sha256 v = ev_sha256 env b
     \<and> vf_size_bytes v = int (length b) \<and> vf_schema_version v = schema_version_of d \<and> touches {} s s'"
proof -
  from assms obtain u1 u2 d u3 s1 s2 s3 where st: "verify_header env (Backup n) s = (Inr u1, s1)"
    "check_integrity env (Backup n) s1 = (Inr u2, s2)" "open_read_only env (Backup n) s2 = (Inr d, s3)"
    and g: "1 \<le> schema_version_of d" "schema_version_of d \<le> current_schema_version" "wrong_owner (ev_owner env) d = 0"
    "invariant_violations d = 0" and h: "hash_file env (Backup n) (schema_version_of d) now s3 = (Inr v, s')"
    by (auto simp: verify_database_at_def mbind_eq_Inr mlift_eq guard_def split: if_splits)
  note q = ensuresD [OF touches_verifying(1) [where T = "{}"] st(1)] ensuresD [OF touches_verifying(2) [where T = "{}"] st(2)]
    ensuresD [OF touches_verifying(3) [where T = "{}"] st(3)] ensuresD [OF touches_verifying(4) [where T = "{}"] h]
  obtain b where b: "file_at s (Backup n) = Some b" "header_ok b"
    using st(1) by (auto simp: verify_header_def mbind_eq_Inr mlift_eq guard_def dest!: read_file_Inr split: if_splits)
  with q have f: "file_at s1 (Backup n) = Some b" "file_at s2 (Backup n) = Some b" "file_at s3 (Backup n) = Some b"
    by (simp_all add: touches_def)
  have "sq_integrity env b None = ''ok''"
    using st(2) f(1) by (auto simp: check_integrity_def mbind_eq_Inr quiet_call_def system_call_Inr guard_def log_of_def
        split: option.splits if_splits)
  moreover have "sq_read env b None = Some d \<and> 1 \<in> set (ld_scripts d)"
    using st(3) f(2) by (auto simp: open_read_only_def mbind_eq_Inr quiet_call_def system_call_Inr guard_def log_of_def
        res_simps split: option.splits if_splits)
  moreover have "vf_sha256 v = ev_sha256 env b \<and> vf_size_bytes v = int (length b) \<and> vf_schema_version v = schema_version_of d"
    using h f(3) by (auto simp: hash_file_def mbind_eq_Inr mlift_eq dest!: read_file_Inr)
  ultimately show ?thesis using b g q by (auto simp: sound_file_def wrong_owner_0 touches_def)
qed

lemma verify_Inr:
  assumes "verify_database env (Backup n) s = (Inr v, s')"
  shows "\<exists>b d. file_at s (Backup n) = Some b \<and> sound_file env b d \<and> vf_sha256 v = ev_sha256 env b
     \<and> vf_size_bytes v = int (length b) \<and> vf_schema_version v = schema_version_of d"
  using assms by (auto simp: verify_database_def mbind_eq_Inr storage_now_def dest!: verify_at_Inr)

lemma record_of_row: "record_from_row r = Inr k \<Longrightarrow> bk_id k = br_id r \<and> bk_file_name k = br_file_name r
    \<and> bk_status k = br_status r \<and> bk_sha256 k = br_sha256 r \<and> bk_size_bytes k = br_size_bytes r"
  by (auto simp: record_from_row_def res_simps)

lemma set_newest_first [simp]: "set (newest_first rows) = set rows"
  by (simp add: newest_first_def)

lemma collect_map_member: "collect_map f xs = Inr ys \<Longrightarrow> y \<in> set ys \<Longrightarrow> \<exists>x \<in> set xs. f x = Inr y"
  by (induction xs arbitrary: ys) (auto simp: rbind_eq_Inr)

lemma list_backups_Inr:
  assumes "list_backups env s = (Inr records, s')"
  shows "\<exists>d. live_view env s = Some d \<and> touches {} s s'
     \<and> (\<forall>k \<in> set records. \<exists>r \<in> set (ld_backups d). record_from_row r = Inr k)"
proof -
  from assms obtain d where d: "live_query env s = (Inr d, s')"
    and c: "collect_map record_from_row (newest_first (ld_backups d)) = Inr records"
    by (auto simp: list_backups_def mbind_eq_Inr mlift_Inr)
  have "\<forall>k \<in> set records. \<exists>r \<in> set (ld_backups d). record_from_row r = Inr k"
    using collect_map_member [OF c] by simp
  with live_query_Inr [OF d] show ?thesis by blast
qed

lemma offered_record:
  assumes "list_backups env s = (Inr records, s')" and "find (offered i) records = Some k"
  shows "touches {} s s' \<and> (\<exists>d r. live_view env s = Some d \<and> r \<in> set (ld_backups d) \<and> record_from_row r = Inr k
     \<and> br_id r = i \<and> br_status r \<noteq> ''expired'')"
proof -
  from assms(2) have "k \<in> set records" "offered i k" by (auto simp: find_Some_iff)
  moreover from list_backups_Inr [OF assms(1)] this(1) obtain d r where "live_view env s = Some d" "touches {} s s'"
    "r \<in> set (ld_backups d)" "record_from_row r = Inr k" by blast
  ultimately show ?thesis using record_of_row [of r k] by (auto simp: offered_def)
qed

lemma download_Inr:
  assumes "download_backup env i s = (Inr (k, p), s')"
  shows "p = Backup (bk_file_name k) \<and> safe_file_name (bk_file_name k) \<and> touches {} s s'
     \<and> (\<exists>d r b c. live_view env s = Some d \<and> r \<in> set (ld_backups d) \<and> record_from_row r = Inr k \<and> br_id r = i
          \<and> br_status r \<noteq> ''expired'' \<and> file_at s p = Some b \<and> sound_file env b c
          \<and> ev_sha256 env b = bk_sha256 k \<and> int (length b) = bk_size_bytes k)"
proof -
  from assms obtain records s1 m s2 v where l: "list_backups env s = (Inr records, s1)" "find (offered i) records = Some k"
    and sf: "safe_file_name (bk_file_name k)" and m: "read_manifest env (Backup (manifest_name (bk_file_name k))) s1 = (Inr m, s2)"
    and v: "verify_database env (Backup (bk_file_name k)) s2 = (Inr v, s')"
    and eq: "p = Backup (bk_file_name k)" "vf_sha256 v = bk_sha256 k" "vf_size_bytes v = bk_size_bytes k"
    by (auto simp: download_backup_def mbind_eq_Inr mlift_Inr guard_def ok_or_eq_Inr split: if_splits)
  have t: "touches {} s s2"
    using offered_record [OF l] ensuresD [OF touches_verifying(5) [where T = "{}"] m] by (auto simp: touches_def)
  then have "touches {} s s'" using ensuresD [OF touches_verify(2) [where T = "{}"] v] by (auto simp: touches_def)
  moreover obtain b c where "file_at s2 p = Some b" "sound_file env b c" "vf_sha256 v = ev_sha256 env b"
    "vf_size_bytes v = int (length b)" using verify_Inr [OF v] eq(1) by auto
  moreover have "file_at s2 p = file_at s p" using t by (simp add: touches_def)
  moreover obtain d r where "live_view env s = Some d" "r \<in> set (ld_backups d)" "record_from_row r = Inr k" "br_id r = i"
    "br_status r \<noteq> ''expired''" using offered_record [OF l] by blast
  ultimately show ?thesis using sf eq by metis
qed

section \<open>Reconciling\<close>

definition reconciled_files :: "file_path set" where
  "reconciled_files = insert LiveLog (insert journal_temporary (Backup ` Collect is_temporary_name))"

lemma unmoved_remove: "Backup n \<in> T \<Longrightarrow> ensures (unmoved env T) (remove_if_exists env (Backup n))"
  by (rule ensures_unmoved_mono [OF ensures_unmoved [OF touches_remove [of _ "{Backup n}"]]]) auto

lemma unmoved_attempt: "ensures (unmoved env T) m \<Longrightarrow> ensures (unmoved env T) (attempt m)"
  by (rule ensures_attempt)

lemma unmoved_reconcile_entry: "ensures (unmoved env reconciled_files) (reconcile_entry env name)"
proof -
  have ins: "ensures (unmoved env reconciled_files) (insert_if_missing env m)" for m
    by (rule ensures_unmoved_mono [OF unmoved_insert]) (simp add: reconciled_files_def)
  have rm: "ensures (unmoved env reconciled_files) (remove_if_exists env (Backup name))" if "is_temporary_name name"
    using that by (intro unmoved_remove) (simp add: reconciled_files_def)
  have rd: "ensures (unmoved env reconciled_files) (attempt (read_manifest env p))"
    "ensures (unmoved env reconciled_files) (attempt (verify_database env p))" for p
    by (intro quiet_unmoved touches_intros)+
  show ?thesis
    unfolding reconcile_entry_def
    by (auto intro!: unmoved_mbind unmoved_mlift ins rm rd split: sum.splits)
qed

lemma unmoved_reconcile: "ensures (unmoved env reconciled_files) (reconcile env)"
proof -
  have one: "ensures (unmoved env reconciled_files) (reconcile_entries env names n)" for names n
  proof (induction names arbitrary: n)
    case (Cons name names)
    have "ensures (unmoved env reconciled_files) (quiet_call env BackupIo)" by (intro quiet_unmoved touches_intros)
    then show ?case unfolding reconcile_entries.simps by (intro unmoved_mbind unmoved_reconcile_entry Cons)
  qed (simp add: unmoved_mlift)
  have rm: "ensures (unmoved env reconciled_files) (remove_if_exists env journal_temporary)"
    unfolding journal_temporary_def by (rule unmoved_remove) (simp add: reconciled_files_def journal_temporary_def)
  have all: "ensures (unmoved env reconciled_files) (\<lambda>s. reconcile_entries env (directory_names s) 0 s)"
    by (rule ensures_state) (rule one)
  show ?thesis
    unfolding reconcile_def prepare_directory_def
    by (intro unmoved_mbind all rm quiet_unmoved touches_quiet touches_reading)
qed

end
