(* ===== verification/RestoreSafety.thy ===== *)
theory RestoreSafety
  imports Restore BackupFrames
begin

text \<open>
  What a restore guarantees for the items: at every moment, also when the process dies in the middle of a
  call, the files are such that the recovery at the next start yields the items the pre-restore backup
  has of the former database or those of the candidate. What other requests commit between that backup
  and the maintenance is in neither.
\<close>

section \<open>States from which the recovery succeeds\<close>

definition live_in where
  "live_in env Y s \<longleftrightarrow> (\<exists>x \<in> Y. live_items env s = Some x)"

definition readable_at where
  "readable_at env Y p s \<longleftrightarrow> (\<exists>b c. file_at s p = Some b \<and> sq_read env b None = Some c \<and> item_data (ld_items c) \<in> Y)"

definition settled_phase :: "restore_phase \<Rightarrow> bool" where
  "settled_phase p \<longleftrightarrow> early_phase p \<or> p = Succeeded"

definition recoverable where
  "recoverable env Y s \<longleftrightarrow>
     (case file_at s journal_file of
        None \<Rightarrow> live_in env Y s
      | Some b \<Rightarrow> \<exists>j. re_parse_journal env b = Some j \<and>
          (if settled_phase (jn_phase j) then live_in env Y s
           else readable_at env Y (Backup (jn_pre_restore_file j)) s))"

text \<open>During the exchange: the journal names the backup \<open>f\<close> of the former database, which can be read.\<close>

definition under_guard where
  "under_guard env Yp Yc f n s \<longleftrightarrow> readable_at env Yp (Backup f) s
     \<and> (\<exists>b j. file_at s journal_file = Some b \<and> re_parse_journal env b = Some j
          \<and> \<not> settled_phase (jn_phase j) \<and> jn_pre_restore_file j = f)
     \<and> (\<forall>b c. file_at s (Backup n) = Some b \<longrightarrow> sq_read env b None = Some c \<longrightarrow> item_data (ld_items c) \<in> Yc)"

definition changes :: "file_path set \<Rightarrow> 'x storage_scheme \<Rightarrow> 'x storage_scheme \<Rightarrow> bool" where
  "changes T s s' \<longleftrightarrow> (\<forall>p. p \<notin> T \<longrightarrow> file_at s' p = file_at s p)"

lemma changes_touches: "touches T s s' \<Longrightarrow> changes T s s'"
  by (simp add: touches_def changes_def)

lemma guarded_recoverable: "under_guard env Yp Yc f n s \<Longrightarrow> recoverable env (Yp \<union> Yc) s"
proof -
  assume g: "under_guard env Yp Yc f n s"
  then obtain b j where j: "file_at s journal_file = Some b" "re_parse_journal env b = Some j"
    "\<not> settled_phase (jn_phase j)" "jn_pre_restore_file j = f" by (auto simp: under_guard_def)
  moreover have "readable_at env (Yp \<union> Yc) (Backup f) s" using g by (auto simp: under_guard_def readable_at_def)
  ultimately show ?thesis by (simp add: recoverable_def)
qed

lemma guarded_changes:
  "under_guard env Yp Yc f n s \<Longrightarrow> changes T s s' \<Longrightarrow> Backup f \<notin> T \<Longrightarrow> Backup n \<notin> T \<Longrightarrow> journal_file \<notin> T
    \<Longrightarrow> under_guard env Yp Yc f n s'"
  by (simp add: under_guard_def changes_def readable_at_def)

section \<open>The journal\<close>

lemma journal_paths [simp]: "journal_file \<noteq> journal_temporary" "journal_temporary \<noteq> journal_file"
  "journal_file \<noteq> LiveFile" "journal_file \<noteq> LiveLog" "journal_file \<noteq> Staged x"
  "journal_temporary \<noteq> LiveFile" "journal_temporary \<noteq> LiveLog" "journal_temporary \<noteq> Staged x"
  "LiveFile \<noteq> journal_file" "LiveLog \<noteq> journal_file" "LiveFile \<noteq> journal_temporary" "LiveLog \<noteq> journal_temporary"
  by (simp_all add: journal_file_def journal_temporary_def)

lemma safe_path: "safe_file_name n \<Longrightarrow> Backup n \<notin> {journal_file, journal_temporary, LiveFile, LiveLog, Staged x}"
  using safe_ends [of n] by (auto simp: journal_file_def journal_temporary_def)

lemma touches_write_journal: "{journal_temporary, journal_file} \<subseteq> T \<Longrightarrow> ensures (touches T) (write_journal env j)"
  unfolding write_journal_def by (intro touches_intros) auto

lemma touches_remove_journal: "journal_file \<in> T \<Longrightarrow> ensures (touches T) (remove_journal env)"
  unfolding remove_journal_def by (intro touches_intros) auto

lemma create_file_Inr: "create_file env p s = (Inr u, s') \<Longrightarrow> file_at s' p = Some [] \<and> touches {p} s s'"
  by (auto simp: create_file_def system_call_Inr touches_def)

lemma append_file_Inr:
  "append_file env p b s = (Inr u, s') \<Longrightarrow> file_at s' p = Some (case_option [] id (file_at s p) @ b) \<and> touches {p} s s'"
  by (auto simp: append_file_def Let_def system_call_Inr touches_def split: option.splits)

lemma rename_file_target:
  assumes "rename_file env p q s = (r, s')" and "p \<noteq> q"
  shows "file_at s' q \<in> {file_at s q, file_at s p}"
  using assms by (auto simp: rename_file_def system_call_def Let_def split: option.splits fate.splits if_splits)

text \<open>Whatever happens, the journal is the former one or the new one, never a part of one.\<close>

lemma write_journal_atomic:
  fixes s :: "'x storage_scheme"
  assumes "write_journal env j s = (r, s')"
  shows "file_at s' journal_file \<in> {file_at s journal_file, Some (re_journal_bytes env j)}"
    and "r = Inr () \<Longrightarrow> file_at s' journal_file = Some (re_journal_bytes env j)"
proof -
  let ?B = "Some (re_journal_bytes env j)"
  define P where "P = (\<lambda>s1 :: 'x storage_scheme. file_at s1 journal_file = file_at s journal_file)"
  define T where "T = (\<lambda>b s1. P s1 \<and> file_at s1 journal_temporary = Some b)"
  define F where "F = (\<lambda>s1 :: 'x storage_scheme. file_at s1 journal_file \<in> {file_at s journal_file, ?B})"
  have still: "triple (T b) m (\<lambda>_. T b) P P" if "ensures (touches {}) m" for b and m :: "('x, unit) stored"
    by (rule triple_conseq [OF triple_ensures [where P = "T b"]])
      (use that in \<open>auto simp: T_def P_def ensures_def keeping_def touches_def\<close>)
  have t: "triple P (write_journal env j) (\<lambda>_ s1. file_at s1 journal_file = ?B) F F"
    unfolding write_journal_def
  proof (intro triple_bind)
    show "triple P (create_file env journal_temporary) (\<lambda>_. T []) F F"
      by (rule tripleI) (auto simp: P_def T_def F_def create_file_def system_call_def Let_def after_def
          split: fate.splits if_splits)
    show "triple (T []) (append_file env journal_temporary (re_journal_bytes env j)) (\<lambda>_. T (re_journal_bytes env j)) F F"
      by (rule tripleI) (auto simp: P_def T_def F_def append_file_def system_call_def Let_def after_def
          split: fate.splits if_splits)
    show "triple (T b) (quiet_call env BackupIo) (\<lambda>_. T b) F F" for b
      by (rule triple_conseq [OF still]) (auto simp: F_def P_def intro: touches_intros)
    show "triple (T b) (protect_file env journal_temporary) (\<lambda>_. T b) F F" for b
      by (rule triple_conseq [OF still]) (auto simp: F_def P_def intro: touches_intros)
    show "triple (T (re_journal_bytes env j)) (rename_file env journal_temporary journal_file)
        (\<lambda>_ s1. file_at s1 journal_file = ?B) F F"
      by (rule tripleI) (auto simp: P_def T_def F_def rename_file_def system_call_def Let_def after_def
          split: fate.splits if_splits)
    show "triple (\<lambda>s1. file_at s1 journal_file = ?B) (sync_directory env) (\<lambda>_ s1. file_at s1 journal_file = ?B) F F"
      by (rule tripleI) (auto simp: F_def sync_directory_def quiet_call_def system_call_def Let_def after_def
          split: fate.splits if_splits)
  qed
  have a: "after r (\<lambda>_ s1. file_at s1 journal_file = ?B) F F s'"
    by (rule tripleD [OF t _ assms(1)]) (simp add: P_def)
  then show "file_at s' journal_file \<in> {file_at s journal_file, ?B}"
    by (auto simp: after_def F_def split: sum.splits failure.splits)
  show "r = Inr () \<Longrightarrow> file_at s' journal_file = ?B" using a by simp
qed

section \<open>The live database through an exchange\<close>

text \<open>Closed with an empty log, ready to be closed so, and serving items of \<open>Y\<close>.\<close>

definition drained :: "'x storage_scheme \<Rightarrow> bool" where
  "drained s \<longleftrightarrow> file_at s LiveFile \<noteq> None \<and> \<not> fs_open s \<and> file_at s LiveLog = None"

definition poised :: "'x storage_scheme \<Rightarrow> bool" where
  "poised s \<longleftrightarrow> file_at s LiveFile \<noteq> None \<and> (fs_open s \<or> file_at s LiveLog = None)"

definition installed where
  "installed env Y s \<longleftrightarrow> drained s \<and> (\<forall>c. live_view env s = Some c \<longrightarrow> item_data (ld_items c) \<in> Y)"

definition serving where
  "serving env Y s \<longleftrightarrow> fs_open s \<and> live_in env Y s"

text \<open>What a stable property says is not affected by the journal and the staged file.\<close>

definition stable :: "('x storage_scheme \<Rightarrow> bool) \<Rightarrow> bool" where
  "stable Z \<longleftrightarrow> (\<forall>s s' op. touches {journal_file, journal_temporary, Staged op} s s' \<longrightarrow> Z s \<longrightarrow> Z s')"

lemma stable_live:
  assumes "\<And>s s'. fs_open s' = fs_open s \<Longrightarrow> file_at s' LiveFile = file_at s LiveFile \<Longrightarrow>
    file_at s' LiveLog = file_at s LiveLog \<Longrightarrow> Z s \<Longrightarrow> Z s'"
  shows "stable Z"
  unfolding stable_def by (intro allI impI, rule assms) (simp_all add: touches_def)

lemma live_items_cong:
  "file_at s' LiveFile = file_at s LiveFile \<Longrightarrow> file_at s' LiveLog = file_at s LiveLog \<Longrightarrow> live_items env s' = live_items env s"
  using live_view_cong [of s' s env] by (simp add: live_items_def)

lemma stable_states:
  "stable (drained :: 'x storage_scheme \<Rightarrow> bool)" "stable (poised :: 'x storage_scheme \<Rightarrow> bool)"
  "stable (installed env Y :: 'x storage_scheme \<Rightarrow> bool)" "stable (serving env Y :: 'x storage_scheme \<Rightarrow> bool)"
proof -
  show "stable (drained :: 'x storage_scheme \<Rightarrow> bool)" "stable (poised :: 'x storage_scheme \<Rightarrow> bool)"
    by (rule stable_live; simp add: drained_def poised_def)+
  show "stable (installed env Y :: 'x storage_scheme \<Rightarrow> bool)"
  proof (rule stable_live)
    fix s s' :: "'x storage_scheme"
    assume f: "fs_open s' = fs_open s" "file_at s' LiveFile = file_at s LiveFile" "file_at s' LiveLog = file_at s LiveLog"
    show "installed env Y s \<Longrightarrow> installed env Y s'"
      using f live_view_cong [OF f(2,3), of env] by (simp add: installed_def drained_def)
  qed
  show "stable (serving env Y :: 'x storage_scheme \<Rightarrow> bool)"
  proof (rule stable_live)
    fix s s' :: "'x storage_scheme"
    assume f: "fs_open s' = fs_open s" "file_at s' LiveFile = file_at s LiveFile" "file_at s' LiveLog = file_at s LiveLog"
    show "serving env Y s \<Longrightarrow> serving env Y s'"
      using f live_items_cong [OF f(2,3), of env] by (simp add: serving_def live_in_def)
  qed
qed

lemma stable_still: "stable Z \<Longrightarrow> touches {} s s' \<Longrightarrow> Z s \<Longrightarrow> Z s'"
  unfolding stable_def by (auto simp: touches_def)

lemma live_view_file: "live_view env s = Some d \<Longrightarrow> file_at s LiveFile \<noteq> None"
  by (auto simp: live_view_def split: option.splits)

lemma serving_poised: "serving env Y s \<Longrightarrow> poised s"
  by (auto simp: serving_def poised_def live_in_def live_items_def dest: live_view_file)

lemma drained_poised: "drained s \<Longrightarrow> poised s" and installed_drained: "installed env Y s \<Longrightarrow> drained s"
  by (simp_all add: drained_def poised_def installed_def)

lemma guarded_keep:
  assumes "ensures (changes T) m" and "Backup f \<notin> T" and "Backup n \<notin> T" and "journal_file \<notin> T"
  shows "ensures (keeping (under_guard env Yp Yc f n)) m"
  using assms by (auto simp: ensures_def keeping_def intro: guarded_changes)

lemma triple_stable:
  assumes "ensures (touches {journal_file, journal_temporary, Staged op}) m" and "ensures (keeping G) m" and "stable Z"
  shows "triple (\<lambda>s. G s \<and> Z s) m (\<lambda>_ s. G s \<and> Z s) (\<lambda>s. G s \<and> Z s) (\<lambda>s. G s \<and> Z s)"
proof (rule triple_ensures, rule ensuresI)
  fix s r s' assume m: "m s = (r, s')"
  have "touches {journal_file, journal_temporary, Staged op} s s'" "keeping G s s'"
    using ensuresD [OF assms(1) m] ensuresD [OF assms(2) m] by blast+
  with assms(3) show "keeping (\<lambda>s. G s \<and> Z s) s s'" by (auto simp: keeping_def stable_def)
qed

lemma guarded_journal:
  assumes "re_parse_journal env (re_journal_bytes env j) = Some j" and "\<not> settled_phase (jn_phase j)"
    and "jn_pre_restore_file j = f" and "safe_file_name f" and "safe_file_name n"
  shows "ensures (keeping (under_guard env Yp Yc f n)) (write_journal env j)"
proof (rule ensuresI)
  fix s r s' assume w: "write_journal env j s = (r, s')"
  have "touches {journal_temporary, journal_file} s s'" by (rule ensuresD [OF touches_write_journal w]) simp
  moreover have "file_at s' journal_file \<in> {file_at s journal_file, Some (re_journal_bytes env j)}"
    by (rule write_journal_atomic(1) [OF w])
  ultimately show "keeping (under_guard env Yp Yc f n) s s'"
    using assms safe_path [OF assms(4)] safe_path [OF assms(5)]
    by (auto simp: keeping_def under_guard_def readable_at_def touches_def)
qed

lemma journal_step:
  assumes "re_parse_journal env (re_journal_bytes env j) = Some j" and "\<not> settled_phase (jn_phase j)"
    and "jn_pre_restore_file j = f" and "safe_file_name f" and "safe_file_name n" and "stable Z"
  shows "triple (\<lambda>s. under_guard env Yp Yc f n s \<and> Z s) (write_journal env j) (\<lambda>_ s. under_guard env Yp Yc f n s \<and> Z s)
     (\<lambda>s. under_guard env Yp Yc f n s \<and> Z s) (\<lambda>s. under_guard env Yp Yc f n s \<and> Z s)"
  by (rule triple_stable [OF touches_write_journal guarded_journal [OF assms(1-5)] assms(6)]) simp

text \<open>What SQLite documents: the last connection writes the log back when it closes.\<close>

definition closes_cleanly :: "'z storage_env_scheme \<Rightarrow> bool" where
  "closes_cleanly env \<longleftrightarrow> (\<forall>k. \<not> ev_keeps_log env k) \<and> (\<forall>m l. sq_read env (sq_flush env m l) None = sq_read env m l)"

lemma drain_log_simps [simp]:
  "file_at (drain_log m s) p = (if p = LiveLog then None else if p = LiveFile then Some m else file_at s p)"
  "fs_open (drain_log m s) = fs_open s"
  by (simp_all add: drain_log_def)

lemma connections_closed_simps [simp]:
  "p \<notin> {LiveFile, LiveLog} \<Longrightarrow> file_at (connections_closed env s) p = file_at s p"
  "fs_open (connections_closed env s) = fs_open s"
  by (auto simp: connections_closed_def Let_def split: option.splits)

lemma connections_closed_drains:
  assumes "closes_cleanly env" and "file_at s LiveFile \<noteq> None" and "\<not> fs_open s"
  shows "drained (connections_closed env s)" and "changes {LiveFile, LiveLog} s (connections_closed env s)"
  using assms by (auto simp: connections_closed_def closes_cleanly_def drained_def changes_def Let_def)

lemma checkpoint_step:
  assumes "closes_cleanly env"
  shows "triple poised (checkpoint_and_close env) (\<lambda>_. drained) drained (\<lambda>_. True)"
    and "ensures (changes {LiveFile, LiveLog}) (checkpoint_and_close env)"
proof -
  show "ensures (changes {LiveFile, LiveLog}) (checkpoint_and_close env)"
    by (auto simp: ensures_def checkpoint_and_close_def system_call_def Let_def changes_def
        split: option.splits fate.splits if_splits)
  show "triple poised (checkpoint_and_close env) (\<lambda>_. drained) drained (\<lambda>_. True)"
  proof (rule tripleI)
    fix s r s' assume p: "poised s" and e: "checkpoint_and_close env s = (r, s')"
    show "after r (\<lambda>_. drained) drained (\<lambda>_. True) s'"
    proof (cases "fs_open s")
      case False
      with p e show ?thesis by (auto simp: checkpoint_and_close_def poised_def drained_def)
    next
      case True
      then obtain m where m: "file_at s LiveFile = Some m" using p by (auto simp: poised_def)
      have "drained (connections_closed env (s\<lparr>fs_open := False, fs_step := fs_step s + 1\<rparr>))"
        using m by (intro connections_closed_drains(1) [OF assms]) simp_all
      with e m True assms show ?thesis
        by (auto simp: checkpoint_and_close_def system_call_def Let_def closes_cleanly_def drained_def
            split: fate.splits if_splits)
    qed
  qed
qed

lemma triple_touches:
  assumes "ensures (touches T) m" and "\<And>s s'. touches T s s' \<Longrightarrow> P s \<Longrightarrow> P s'"
  shows "triple P m (\<lambda>_. P) P P"
proof (rule triple_ensures, rule ensuresI)
  fix s r s' assume "m s = (r, s')"
  from ensuresD [OF assms(1) this] assms(2) show "keeping P s s'" by (auto simp: keeping_def)
qed

definition holds_items where
  "holds_items env Y p s \<longleftrightarrow> (\<forall>b c. file_at s p = Some b \<longrightarrow> sq_read env b None = Some c \<longrightarrow> item_data (ld_items c) \<in> Y)"

lemma changes_install: "ensures (changes {Staged op, LiveFile}) (install_database env p op)"
proof -
  have "ensures (touches {Staged op, LiveFile}) (install_database env p op)"
    unfolding install_database_def by (intro touches_intros) auto
  then show ?thesis by (rule ensures_mono) (rule changes_touches)
qed

lemma install_step:
  assumes "p \<notin> {LiveFile, LiveLog, Staged op}"
  shows "triple (\<lambda>s. drained s \<and> holds_items env Y p s) (install_database env p op) (\<lambda>_. installed env Y) drained (\<lambda>_. True)"
proof -
  let ?P = "\<lambda>s. drained s \<and> holds_items env Y p s"
  let ?Q = "\<lambda>s. drained s \<and> holds_items env Y (Staged op) s"
  show ?thesis
    unfolding install_database_def
  proof (intro triple_bind)
    show "triple ?P (remove_if_exists env (Staged op)) (\<lambda>_. ?P) drained (\<lambda>_. True)"
      using assms by (intro triple_conseq [OF triple_touches [where P = ?P and T = "{Staged op}"]] touches_remove)
        (auto simp: touches_def drained_def holds_items_def)
    show "triple ?P (copy_file env p (Staged op)) (\<lambda>_. ?Q) drained (\<lambda>_. True)"
      by (rule tripleI) (auto simp: copy_file_def system_call_def Let_def drained_def holds_items_def
          split: option.splits fate.splits)
    show "triple ?Q (protect_file env (Staged op)) (\<lambda>_. ?Q) drained (\<lambda>_. True)"
      by (intro triple_conseq [OF triple_touches [where P = ?Q and T = "{}"]] touches_reading)
        (auto simp: touches_def drained_def holds_items_def)
    show "triple ?Q (sync_file env (Staged op)) (\<lambda>_. ?Q) drained (\<lambda>_. True)"
      by (intro triple_conseq [OF triple_touches [where P = ?Q and T = "{}"]] touches_reading)
        (auto simp: touches_def drained_def holds_items_def)
    show "triple ?Q (rename_file env (Staged op) LiveFile) (\<lambda>_. installed env Y) drained (\<lambda>_. True)"
      by (rule tripleI) (auto simp: rename_file_def system_call_def Let_def drained_def holds_items_def installed_def
          live_view_def split: option.splits fate.splits)
    show "triple (installed env Y) (sync_directory env) (\<lambda>_. installed env Y) drained (\<lambda>_. True)"
      by (intro triple_conseq [OF triple_touches [where P = "installed env Y" and T = "{}"]] touches_reading)
        (auto dest: installed_drained intro: stable_still [OF stable_states(3)])
  qed
qed

lemma migrate_live_cases:
  assumes "migrate_live env s = (r, s')"
  shows "touches {LiveLog} s s'"
    and "r = Inr () \<Longrightarrow> \<exists>d d'. live_view env s = Some d \<and> live_view env s' = Some d' \<and> item_data (ld_items d') = item_data (ld_items d)"
proof -
  obtain a s1 where q: "quiet_call env BackupDatabase s = (a, s1)" by (cases "quiet_call env BackupDatabase s")
  have t: "touches {} s s1" by (rule ensuresD [OF touches_quiet q])
  have v: "live_view env s1 = live_view env s" by (rule touches_view_refl [OF t])
  show tt: "touches {LiveLog} s s'"
  proof (cases a)
    case (Inl e)
    with assms q t show ?thesis by (auto simp: migrate_live_def mbind_def touches_def)
  next
    case (Inr u)
    with assms q obtain m where m: "mbind (mlift m) (commit_live env) s1 = (r, s')"
      by (auto simp: migrate_live_def mbind_def [of "quiet_call env BackupDatabase"])
    show ?thesis
    proof (cases m)
      case (Inl e)
      with m t show ?thesis by (auto simp: mbind_def mlift_def touches_def)
    next
      case (Inr d)
      with m have "commit_live env d s1 = (r, s')" by simp
      from touches_trans [OF t commit_live_cases(1) [OF this]] show ?thesis by simp
    qed
  qed
  assume r: "r = Inr ()"
  with assms q obtain d d' where "live_view env s1 = Some d"
    "apply_migrations (sq_digest env) (sq_object_text env) (sq_now env (fs_step s1)) d = Inr d'" "commit_live env d' s1 = (Inr (), s')"
    by (auto simp: migrate_live_def mbind_eq_Inr mlift_Inr rbind_eq_Inr ok_or_eq_Inr map_err_eq_Inr)
  with v commit_live_cases(3) [OF this(3)] apply_migrations_keeps(1) [OF this(2)]
  show "\<exists>d d'. live_view env s = Some d \<and> live_view env s' = Some d' \<and> item_data (ld_items d') = item_data (ld_items d)"
    by metis
qed

lemma open_pool_step:
  "triple (\<lambda>s. \<not> fs_open s \<and> file_at s LiveFile \<noteq> None \<and> (\<forall>c. live_view env s = Some c \<longrightarrow> item_data (ld_items c) \<in> Y))
     (open_pool env) (\<lambda>_ s. live_in env Y s) (\<lambda>s. \<not> fs_open s \<and> file_at s LiveFile \<noteq> None) (\<lambda>_. True)"
proof -
  let ?E = "\<lambda>s. \<not> fs_open s \<and> file_at s LiveFile \<noteq> None"
  let ?W = "\<lambda>s. \<not> fs_open s \<and> file_at s LiveFile \<noteq> None \<and> (\<forall>c. live_view env s = Some c \<longrightarrow> item_data (ld_items c) \<in> Y)"
  let ?V = "\<lambda>s. ?E s \<and> live_in env Y s"
  have W: "?W s'" if "touches {} s s'" "?W s" for s s'
    using that touches_view_refl [OF that(1), where env = env] by (simp add: touches_def)
  have V: "?V s'" if "touches {} s s'" "?V s" for s s'
    using that touches_view_refl [OF that(1), where env = env] by (simp add: touches_def live_in_def live_items_def)
  show ?thesis
    unfolding open_pool_def
  proof (rule triple_conseq [where Q' = "\<lambda>_. ?V" and P' = ?W and E' = ?E and X' = "\<lambda>_. True"], intro triple_bind)
    show "triple ?W (system_call env BackupDatabase
        (\<lambda>s. if file_at s LiveFile = None then put_file LiveFile (sq_empty env) s else s) (\<lambda>_ s. s)) (\<lambda>_. ?W) ?E (\<lambda>_. True)"
      by (rule tripleI) (auto simp: system_call_def Let_def split: fate.splits)
    show "triple ?W (quick_check env) (\<lambda>_. ?W) ?E (\<lambda>_. True)"
      by (rule triple_conseq [OF triple_touches [where P = ?W and T = "{}"]])
        (use W in \<open>auto intro: touches_reading\<close>)
    show "triple ?W (migrate_live env) (\<lambda>_. ?V) ?E (\<lambda>_. True)"
    proof (rule tripleI)
      fix s r s' assume w: "?W s" and m: "migrate_live env s = (r, s')"
      have e: "?E s'" using w migrate_live_cases(1) [OF m] by (simp add: touches_def)
      show "after r (\<lambda>_. ?V) ?E (\<lambda>_. True) s'"
        using e w migrate_live_cases(2) [OF m]
        by (cases r) (auto simp: after_def live_in_def live_items_def split: failure.splits)
    qed
    show "triple ?V (quick_check env) (\<lambda>_. ?V) ?E (\<lambda>_. True)"
      by (rule triple_conseq [OF triple_touches [where P = ?V and T = "{}"]])
        (use V in \<open>auto intro: touches_reading\<close>)
    show "triple ?V (quiet_call env BackupDatabase) (\<lambda>_. ?V) ?E (\<lambda>_. True)"
      by (rule triple_conseq [OF triple_touches [where P = ?V and T = "{}"]])
        (use V in \<open>auto intro: touches_quiet\<close>)
  qed auto
qed

lemma changes_open_pool: "ensures (changes {LiveFile, LiveLog}) (open_pool env)"
proof -
  have m: "ensures (touches {LiveFile, LiveLog}) (migrate_live env)"
    by (rule ensuresI) (use migrate_live_cases(1) in \<open>auto simp: touches_def\<close>)
  have c: "ensures (touches {LiveFile, LiveLog}) (system_call env BackupDatabase
        (\<lambda>s. if file_at s LiveFile = None then put_file LiveFile (sq_empty env) s else s) (\<lambda>_ s. s))"
    by (rule touches_system_call) (auto simp: touches_def)
  have "ensures (touches {LiveFile, LiveLog}) (open_pool env)"
    unfolding open_pool_def by (intro touches_intros m c)
  then show ?thesis by (rule ensures_mono) (rule changes_touches)
qed

lemma changes_order [simp]: "reflp (changes T)" "transp (changes T)"
  by (auto simp: changes_def reflp_def transp_def)

lemma changes_reopen: "ensures (changes {LiveFile, LiveLog}) (reopen env)"
  unfolding reopen_def
proof (rule ensures_mbind [OF changes_order(2) ensures_attempt [OF changes_open_pool]])
  show "ensures (changes {LiveFile, LiveLog}) (\<lambda>s. case x of Inr _ \<Rightarrow> (Ok (), s\<lparr>fs_open := True\<rparr>)
       | Inl e \<Rightarrow> (Err e, connections_closed env s))" for x :: "backup_error + unit"
    by (auto simp: ensures_def changes_def split: sum.splits)
qed

lemma live_items_open [simp]: "live_items env (s\<lparr>fs_open := b\<rparr>) = live_items env s"
  by (simp add: live_items_def)

lemma reopen_step:
  assumes "closes_cleanly env"
  shows "triple (installed env Y) (reopen env) (\<lambda>_. serving env Y) drained (\<lambda>_. True)"
  unfolding reopen_def
proof (rule triple_bind [OF triple_attempt [where Q = "\<lambda>r s. case r of Inr _ \<Rightarrow> live_in env Y s
      | Inl _ \<Rightarrow> \<not> fs_open s \<and> file_at s LiveFile \<noteq> None"]])
  show "triple (installed env Y) (open_pool env) (\<lambda>x s. case Inr x :: backup_error + unit of Inr _ \<Rightarrow> live_in env Y s
      | Inl _ \<Rightarrow> \<not> fs_open s \<and> file_at s LiveFile \<noteq> None)
     (\<lambda>s. \<forall>e. case Inl e :: backup_error + unit of Inr _ \<Rightarrow> live_in env Y s
      | Inl _ \<Rightarrow> \<not> fs_open s \<and> file_at s LiveFile \<noteq> None) (\<lambda>_. True)"
    by (rule triple_conseq [OF open_pool_step [of env Y]]) (auto simp: installed_def drained_def)
next
  fix x :: "backup_error + unit"
  show "triple (\<lambda>s. case x of Inr _ \<Rightarrow> live_in env Y s | Inl _ \<Rightarrow> \<not> fs_open s \<and> file_at s LiveFile \<noteq> None)
      (\<lambda>s. case x of Inr _ \<Rightarrow> (Ok (), s\<lparr>fs_open := True\<rparr>) | Inl e \<Rightarrow> (Err e, connections_closed env s))
      (\<lambda>_. serving env Y) drained (\<lambda>_. True)"
    using assms by (intro tripleI) (auto simp: serving_def live_in_def intro!: connections_closed_drains(1) split: sum.splits)
qed

lemma unmoved_clear: "ensures (unmoved env {LiveLog}) (clear_scheduler_leases env)"
proof -
  have e: "clear_scheduler_leases env = mbind (live_query env) (\<lambda>d.
      mbind (mlift (Ok (d\<lparr>ld_items := (ld_items d)\<lparr>lease_table := []\<rparr>\<rparr>))) (commit_live env))"
    by (simp add: clear_scheduler_leases_def)
  show ?thesis unfolding e
    by (rule unmoved_transaction) (auto simp: mlift_eq intro!: touches_intros)
qed

lemma unmoved_serving: "unmoved env T s s' \<Longrightarrow> serving env Y s \<Longrightarrow> serving env Y s'"
  by (simp add: unmoved_def touches_def serving_def live_in_def)

lemma unmoved_changes: "ensures (unmoved env T) m \<Longrightarrow> ensures (changes T) m"
  by (simp add: ensures_def unmoved_def changes_touches)

section \<open>Replacing and reinstalling\<close>

text \<open>
  The facts about the live database and the guard go together: \<open>under_guard\<close> is kept by every step, also
  in the state in which the process dies.
\<close>

lemma guarded_step:
  assumes "triple P m Q E (\<lambda>_. True)" and "ensures (changes T) m"
    and "Backup f \<notin> T" and "Backup n \<notin> T" and "journal_file \<notin> T"
  shows "triple (\<lambda>s. under_guard env Yp Yc f n s \<and> P s) m (\<lambda>x s. under_guard env Yp Yc f n s \<and> Q x s)
     (\<lambda>s. under_guard env Yp Yc f n s \<and> E s) (under_guard env Yp Yc f n)"
  by (rule triple_conseq [OF triple_conj [OF triple_ensures [OF guarded_keep [OF assms(2-5)]] assms(1)]]) auto

lemma guarded_unmoved:
  assumes "ensures (unmoved env T) m" and "Backup f \<notin> T" and "Backup n \<notin> T" and "journal_file \<notin> T"
  shows "triple (\<lambda>s. under_guard env Yp Yc f n s \<and> serving env Y s) m (\<lambda>_ s. under_guard env Yp Yc f n s \<and> serving env Y s)
     (\<lambda>s. under_guard env Yp Yc f n s \<and> serving env Y s) (under_guard env Yp Yc f n)"
proof -
  have "ensures (keeping (serving env Y)) m"
    by (rule ensures_mono [OF assms(1)]) (auto simp: keeping_def intro: unmoved_serving)
  from guarded_step [OF triple_conseq [OF triple_ensures [OF this]] unmoved_changes [OF assms(1)] assms(2-4)]
  show ?thesis by simp
qed

lemma triple_ignoring: "triple P m (\<lambda>_. R) R X \<Longrightarrow> triple P (ignoring m) (\<lambda>_. R) E X"
  unfolding ignoring_def
proof (rule triple_bind [OF triple_attempt [where Q = "\<lambda>_. R"]])
  assume t: "triple P m (\<lambda>_. R) R X"
  show "triple P m (\<lambda>_. R) (\<lambda>s. \<forall>e. R s) X" by (rule triple_conseq [OF t]) simp_all
  show "triple R (mlift (Ok ())) (\<lambda>_. R) E X" by (rule triple_mlift) simp
qed

lemma triple_guard: "(\<And>s. P s \<Longrightarrow> E s) \<Longrightarrow> triple P (mlift (guard b e)) (\<lambda>_. P) E X"
  by (rule triple_mlift) (auto simp: guard_def)

text \<open>What an exchange relies on: the codec of the journal, SQLite's closing and plain names.\<close>

definition exchange_ok where
  "exchange_ok env f n j \<longleftrightarrow> closes_cleanly env \<and> (\<forall>j. re_parse_journal env (re_journal_bytes env j) = Some j)
     \<and> safe_file_name f \<and> safe_file_name n \<and> jn_pre_restore_file j = f"

lemma exchange_journal:
  assumes "exchange_ok env f n j" and "\<not> settled_phase p" and "stable Z"
  shows "triple (\<lambda>s. under_guard env Yp Yc f n s \<and> Z s) (write_journal env (j\<lparr>jn_phase := p\<rparr>)) (\<lambda>_ s. under_guard env Yp Yc f n s \<and> Z s)
     (\<lambda>s. under_guard env Yp Yc f n s \<and> Z s) (under_guard env Yp Yc f n)"
  using assms by (intro triple_conseq [OF journal_step [where f = f and n = n and Z = Z and j = "j\<lparr>jn_phase := p\<rparr>"]])
    (auto simp: exchange_ok_def)

lemma replace_live_step:
  assumes ok: "exchange_ok env f n j"
  shows "triple (\<lambda>s. under_guard env Yp Yc f n s \<and> poised s) (replace_live env fault (Backup n) j)
     (\<lambda>_ s. under_guard env Yp Yc f n s \<and> serving env Yc s) (\<lambda>s. under_guard env Yp Yc f n s \<and> poised s) (under_guard env Yp Yc f n)"
proof -
  note ne = safe_path [of f] safe_path [of n]
  have safe: "safe_file_name f" "safe_file_name n" "closes_cleanly env" using ok by (auto simp: exchange_ok_def)
  let ?G = "under_guard env Yp Yc f n" and ?op = "jn_operation_id j"
  have phases: "\<not> settled_phase WorkloadsQuiesced" "\<not> settled_phase LiveReplaced" "\<not> settled_phase ReplacementVerified"
    by (simp_all add: settled_phase_def early_phase_def)
  have src: "?G s \<Longrightarrow> holds_items env Yc (Backup n) s" for s by (simp add: under_guard_def holds_items_def)
  show ?thesis
    unfolding replace_live_def
  proof (intro triple_bind triple_or_else)
    show "triple (\<lambda>s. ?G s \<and> poised s) (write_journal env (j\<lparr>jn_phase := WorkloadsQuiesced\<rparr>)) (\<lambda>_ s. ?G s \<and> poised s)
        (\<lambda>s. ?G s \<and> poised s) ?G"
      by (rule exchange_journal [OF ok phases(1) stable_states(2)])
    show "triple (\<lambda>s. ?G s \<and> poised s) (checkpoint_and_close env) (\<lambda>_ s. ?G s \<and> drained s) (\<lambda>s. ?G s \<and> poised s) ?G"
      by (rule triple_conseq [OF guarded_step [OF checkpoint_step [OF safe(3)]]]) (use drained_poised in \<open>auto simp: journal_file_def\<close>)
    show "triple (\<lambda>s. ?G s \<and> drained s) (mlift (guard (fault \<noteq> BeforeSwap) RestoreFailed)) (\<lambda>_ s. ?G s \<and> drained s)
        (\<lambda>s. ?G s \<and> poised s) ?G"
      by (rule triple_guard) (auto dest: drained_poised)
    show "triple (\<lambda>s. ?G s \<and> drained s) (install_database env (Backup n) ?op) (\<lambda>_ s. ?G s \<and> installed env Yc s)
        (\<lambda>s. ?G s \<and> poised s) ?G"
      by (rule triple_conseq [OF guarded_step [OF install_step [where Y = Yc] changes_install]])
        (auto dest: drained_poised src)
    show "triple (\<lambda>s. ?G s \<and> installed env Yc s) (write_journal env (j\<lparr>jn_phase := LiveReplaced\<rparr>))
        (\<lambda>_ s. ?G s \<and> installed env Yc s) (\<lambda>s. ?G s \<and> poised s) ?G"
      by (rule triple_conseq [OF exchange_journal [OF ok phases(2) stable_states(3)]])
        (auto dest: installed_drained drained_poised)
    show "triple (\<lambda>s. ?G s \<and> installed env Yc s) (mlift (guard (fault \<noteq> DuringReopen) RestoreFailed))
        (\<lambda>_ s. ?G s \<and> installed env Yc s) (\<lambda>s. ?G s \<and> poised s) ?G"
      by (rule triple_guard) (auto dest: installed_drained drained_poised)
    show "triple (\<lambda>s. ?G s \<and> installed env Yc s) (reopen env) (\<lambda>_ s. ?G s \<and> serving env Yc s) (\<lambda>s. ?G s \<and> poised s) ?G"
      by (rule triple_conseq [OF guarded_step [OF reopen_step [OF safe(3)] changes_reopen]]) (auto dest: drained_poised)
    show "triple (\<lambda>s. ?G s \<and> serving env Yc s) (write_journal env (j\<lparr>jn_phase := ReplacementVerified\<rparr>))
        (\<lambda>_ s. ?G s \<and> serving env Yc s) (\<lambda>s. ?G s \<and> poised s) ?G"
      by (rule triple_conseq [OF exchange_journal [OF ok phases(3) stable_states(4)]]) (auto dest: serving_poised)
    show "triple (\<lambda>s. ?G s \<and> serving env Yc s) (mlift (guard (fault \<noteq> AfterSwap) RestoreFailed))
        (\<lambda>_ s. ?G s \<and> serving env Yc s) (\<lambda>s. ?G s \<and> poised s) ?G"
      by (rule triple_guard) (auto dest: serving_poised)
    show "triple (\<lambda>s. ?G s \<and> serving env Yc s) (clear_scheduler_leases env) (\<lambda>_ s. ?G s \<and> serving env Yc s)
        (\<lambda>s. ?G s \<and> poised s) ?G"
      by (rule triple_conseq [OF guarded_unmoved [OF unmoved_clear]]) (auto dest: serving_poised)
  qed
qed

lemma ignored_journal:
  assumes "exchange_ok env f n j" and "\<not> settled_phase p" and "stable Z"
  shows "triple (\<lambda>s. under_guard env Yp Yc f n s \<and> Z s) (ignoring (write_journal env (j\<lparr>jn_phase := p\<rparr>)))
     (\<lambda>_ s. under_guard env Yp Yc f n s \<and> Z s) E (under_guard env Yp Yc f n)"
  by (rule triple_ignoring [OF exchange_journal [OF assms]])

lemma rollback_phases:
  "\<not> settled_phase RollbackStarted" "\<not> settled_phase PreRestoreReinstalled" "\<not> settled_phase RollbackVerified"
  "\<not> settled_phase WorkloadsRestartedOrHeld" "\<not> settled_phase FailedPhase" "\<not> settled_phase WorkloadsRestarted"
  by (simp_all add: settled_phase_def early_phase_def)

lemma reinstall_step:
  assumes ok: "exchange_ok env f n j"
  shows "triple (\<lambda>s. under_guard env Yp Yc f n s \<and> poised s) (reinstall env (Backup f) j)
     (\<lambda>_ s. under_guard env Yp Yc f n s \<and> serving env Yp s) (under_guard env Yp Yc f n) (under_guard env Yp Yc f n)"
proof -
  note ne = safe_path [of f] safe_path [of n]
  have safe: "safe_file_name f" "safe_file_name n" "closes_cleanly env" using ok by (auto simp: exchange_ok_def)
  let ?G = "under_guard env Yp Yc f n" and ?op = "jn_operation_id j"
  have src: "?G s \<Longrightarrow> holds_items env Yp (Backup f) s" for s by (auto simp: under_guard_def holds_items_def readable_at_def)
  show ?thesis
    unfolding reinstall_def
  proof (intro triple_bind triple_or_else)
    show "triple (\<lambda>s. ?G s \<and> poised s) (ignoring (write_journal env (j\<lparr>jn_phase := RollbackStarted\<rparr>)))
        (\<lambda>_ s. ?G s \<and> poised s) ?G ?G"
      by (rule ignored_journal [OF ok rollback_phases(1) stable_states(2)])
    show "triple (\<lambda>s. ?G s \<and> poised s) (ignoring (checkpoint_and_close env)) (\<lambda>_ s. ?G s \<and> drained s) ?G ?G"
      by (rule triple_ignoring, rule guarded_step [OF checkpoint_step [OF safe(3)]]) (simp_all add: journal_file_def)
    show "triple (\<lambda>s. ?G s \<and> drained s) (install_database env (Backup f) ?op) (\<lambda>_ s. ?G s \<and> installed env Yp s) ?G ?G"
      by (rule triple_conseq [OF guarded_step [OF install_step [where Y = Yp] changes_install]]) (auto dest: src)
    show "triple (\<lambda>s. ?G s \<and> installed env Yp s) (ignoring (write_journal env (j\<lparr>jn_phase := PreRestoreReinstalled\<rparr>)))
        (\<lambda>_ s. ?G s \<and> installed env Yp s) ?G ?G"
      by (rule ignored_journal [OF ok rollback_phases(2) stable_states(3)])
    show "triple (\<lambda>s. ?G s \<and> installed env Yp s) (reopen env) (\<lambda>_ s. ?G s \<and> serving env Yp s) ?G ?G"
      by (rule triple_conseq [OF guarded_step [OF reopen_step [OF safe(3)] changes_reopen]]) auto
    show "triple (\<lambda>s. ?G s \<and> serving env Yp s) (ignoring (write_journal env (j\<lparr>jn_phase := RollbackVerified\<rparr>)))
        (\<lambda>_ s. ?G s \<and> serving env Yp s) ?G ?G"
      by (rule ignored_journal [OF ok rollback_phases(3) stable_states(4)])
    show "triple (\<lambda>s. ?G s \<and> serving env Yp s) (clear_scheduler_leases env) (\<lambda>_ s. ?G s \<and> serving env Yp s) ?G ?G"
      by (rule triple_conseq [OF guarded_unmoved [OF unmoved_clear]]) auto
  qed
qed

section \<open>The end of an exchange\<close>

lemma workloads_touch_nothing:
  fixes m :: "('m, 's, 'a) controlled"
  shows "ensures (touches T) (on_workloads env m :: ('m, 's, 'x, 'a) restoring)"
proof -
  have f: "file_at (s\<lparr>rx_control := c\<rparr>) p = file_at s p" for s :: "('m, 's, 'x) restore_site_scheme" and c p
    by (simp add: file_at_def)
  show ?thesis by (auto simp: ensures_def on_workloads_def touches_def f Let_def split: prod.splits)
qed

lemma live_in_mono: "live_in env Y s \<Longrightarrow> Y \<subseteq> Y' \<Longrightarrow> live_in env Y' s"
  by (auto simp: live_in_def)

lemma remove_journal_cases:
  assumes "remove_journal env s = (r, s')"
  shows "file_at s' journal_file \<in> {file_at s journal_file, None}" and "touches {journal_file} s s'"
proof -
  show t: "touches {journal_file} s s'" by (rule ensuresD [OF touches_remove_journal assms]) simp
  obtain a s1 where a: "remove_if_exists env journal_file s = (a, s1)" by (cases "remove_if_exists env journal_file s")
  then have "file_at s1 journal_file \<in> {file_at s journal_file, None}"
    by (auto simp: remove_if_exists_def mbind_def attempt_def system_call_def mlift_def Let_def split: fate.splits if_splits)
  moreover have "file_at s' journal_file = file_at s1 journal_file"
    using assms a by (auto simp: remove_journal_def mbind_def sync_directory_def quiet_call_def system_call_def Let_def
        split: sum.splits fate.splits if_splits)
  ultimately show "file_at s' journal_file \<in> {file_at s journal_file, None}" by simp
qed

text \<open>Once the live database serves acceptable items, the journal may go, and it may say that all is done.\<close>

definition settled_state where
  "settled_state env Y Z s \<longleftrightarrow> recoverable env Z s \<and> serving env Y s \<and> Y \<subseteq> Z
     \<and> (\<forall>b k. file_at s journal_file = Some b \<longrightarrow> re_parse_journal env b = Some k \<longrightarrow>
          safe_file_name (jn_pre_restore_file k) \<or> settled_phase (jn_phase k))"

lemma settled_recoverable: "settled_state env Y Z s \<Longrightarrow> recoverable env Z s"
  by (simp add: settled_state_def)

lemma guarded_settled:
  "under_guard env Yp Yc f n s \<Longrightarrow> serving env Y s \<Longrightarrow> safe_file_name f \<Longrightarrow> Y \<subseteq> Yp \<union> Yc \<Longrightarrow> settled_state env Y (Yp \<union> Yc) s"
  using guarded_recoverable [of env Yp Yc f n s] by (auto simp: settled_state_def under_guard_def)

lemma settled_kept:
  assumes "settled_state env Y Z s" and t: "touches {journal_temporary, journal_file} s s'"
    and "file_at s' journal_file \<in> {file_at s journal_file, None}
      \<or> (\<exists>b j. file_at s' journal_file = Some b \<and> re_parse_journal env b = Some j \<and> settled_phase (jn_phase j))"
  shows "settled_state env Y Z s'"
proof -
  have i: "live_items env s' = live_items env s" using t by (intro live_items_cong) (simp_all add: touches_def)
  then have sv: "serving env Y s'" using assms(1) t by (auto simp: settled_state_def serving_def live_in_def touches_def)
  then have l: "live_in env Z s'" using assms(1) by (auto simp: settled_state_def serving_def live_in_def)
  show ?thesis
  proof (cases "file_at s' journal_file = file_at s journal_file \<and> file_at s journal_file \<noteq> None")
    case True
    then obtain b where b: "file_at s journal_file = Some b" "file_at s' journal_file = Some b" by auto
    then obtain k where k: "re_parse_journal env b = Some k"
      "if settled_phase (jn_phase k) then live_in env Z s else readable_at env Z (Backup (jn_pre_restore_file k)) s"
      "safe_file_name (jn_pre_restore_file k) \<or> settled_phase (jn_phase k)"
      using assms(1) by (auto simp: settled_state_def recoverable_def)
    have "readable_at env Z (Backup (jn_pre_restore_file k)) s'" if "\<not> settled_phase (jn_phase k)"
      using that k t safe_path [of "jn_pre_restore_file k"] by (auto simp: readable_at_def touches_def)
    with b k l sv assms(1) show ?thesis by (simp add: settled_state_def recoverable_def)
  next
    case False
    with assms(3) l sv assms(1) show ?thesis by (auto simp: settled_state_def recoverable_def)
  qed
qed

lemma settled_remove: "ensures (keeping (settled_state env Y Z)) (remove_journal env)"
proof (rule ensuresI)
  fix s r s' assume "remove_journal env s = (r, s')"
  from remove_journal_cases [OF this] show "keeping (settled_state env Y Z) s s'"
    unfolding keeping_def by (intro impI, elim settled_kept) (auto simp: touches_def)
qed

lemma settled_journal:
  assumes "re_parse_journal env (re_journal_bytes env j) = Some j" and "settled_phase (jn_phase j)"
  shows "ensures (keeping (settled_state env Y Z)) (write_journal env j)"
proof (rule ensuresI)
  fix s r s' assume w: "write_journal env j s = (r, s')"
  have "touches {journal_temporary, journal_file} s s'" by (rule ensuresD [OF touches_write_journal w]) simp
  with write_journal_atomic(1) [OF w] assms show "keeping (settled_state env Y Z) s s'"
    unfolding keeping_def by (intro impI, elim settled_kept) auto
qed

lemma guarded_audit:
  assumes "exchange_ok env f n j"
  shows "triple (\<lambda>s. under_guard env Yp Yc f n s \<and> serving env Y s) (storage_audit_append env kind who outcome dets)
     (\<lambda>_ s. under_guard env Yp Yc f n s \<and> serving env Y s) (under_guard env Yp Yc f n) (under_guard env Yp Yc f n)"
  by (rule triple_conseq [OF guarded_unmoved [OF unmoved_audit_append]]) (auto simp: journal_file_def)

lemma guarded_workloads:
  fixes m :: "('m, 's, 'a) controlled" and env :: "('m, 's, 'z) restore_env_scheme"
  shows "triple (\<lambda>s. under_guard env Yp Yc f n s \<and> serving env Y s) (on_workloads env m :: ('m, 's, 'x, 'a) restoring)
     (\<lambda>_ s. under_guard env Yp Yc f n s \<and> serving env Y s) (\<lambda>s. under_guard env Yp Yc f n s \<and> serving env Y s) (under_guard env Yp Yc f n)"
  by (rule guarded_unmoved [OF quiet_unmoved [where T = "{}", OF workloads_touch_nothing]]) simp_all

lemma roll_back_step:
  assumes ok: "exchange_ok env f n j"
  shows "triple (\<lambda>s. under_guard env Yp Yc f n s \<and> poised s) (roll_back env (Backup f) j candidate who)
     (\<lambda>_ _. False) (recoverable env (Yp \<union> Yc)) (recoverable env (Yp \<union> Yc))"
proof -
  let ?G = "under_guard env Yp Yc f n" and ?S = "\<lambda>s. under_guard env Yp Yc f n s \<and> serving env Yp s"
    and ?R = "recoverable env (Yp \<union> Yc)"
  have G: "?G s \<Longrightarrow> ?R s" for s by (rule guarded_recoverable)
  have sf: "safe_file_name f" using ok by (simp add: exchange_ok_def)
  have ign: "triple ?S (ignoring (write_journal env (j\<lparr>jn_phase := p\<rparr>))) (\<lambda>_. ?S) ?R ?R" if "\<not> settled_phase p" for p
    by (rule triple_conseq [OF ignored_journal [OF ok that stable_states(4), where E = "\<lambda>_. False"]]) (auto dest: G)
  show ?thesis
    unfolding roll_back_def
  proof (intro triple_bind)
    show "triple (\<lambda>s. ?G s \<and> poised s) (reinstall env (Backup f) j) (\<lambda>_. ?S) ?R ?R"
      by (rule triple_conseq [OF reinstall_step [OF ok]]) (auto dest: G)
    show "triple ?S (attempt (on_workloads env (restart_from_persisted (re_control env)))) (\<lambda>_. ?S) ?R ?R"
      by (rule triple_attempt, rule triple_conseq [OF guarded_workloads]) (auto dest: G)
    show "triple ?S (ignoring (write_journal env (j\<lparr>jn_phase := WorkloadsRestartedOrHeld\<rparr>))) (\<lambda>_. ?S) ?R ?R"
      by (rule ign [OF rollback_phases(4)])
    show "triple ?S (storage_audit_append env ''restore_failed'' who ''failed'' (restore_details candidate (jn_operation_id j)))
        (\<lambda>_. ?S) ?R ?R"
      by (rule triple_conseq [OF guarded_audit [OF ok]]) (auto dest: G)
    show "triple ?S (ignoring (write_journal env (j\<lparr>jn_phase := FailedPhase\<rparr>))) (\<lambda>_. ?S) ?R ?R"
      by (rule ign [OF rollback_phases(5)])
    show "triple ?S (remove_journal env) (\<lambda>_. ?R) ?R ?R"
      by (rule triple_conseq [OF triple_ensures [OF settled_remove [of env Yp "Yp \<union> Yc"]]])
        (use sf in \<open>auto intro: guarded_settled dest: settled_recoverable\<close>)
    show "triple ?R (mlift (case restart of Inl e \<Rightarrow> Err e | Inr _ \<Rightarrow> Err RestoreFailed)) (\<lambda>_ _. False) ?R ?R" for restart
      by (rule triple_mlift) (auto split: sum.splits)
  qed
qed

lemma complete_step:
  assumes ok: "exchange_ok env f n j"
  shows "triple (\<lambda>s. under_guard env Yp Yc f n s \<and> serving env Yc s) (complete_restore env j candidate who)
     (\<lambda>out s. settled_state env Yc (Yp \<union> Yc) s) (recoverable env (Yp \<union> Yc)) (recoverable env (Yp \<union> Yc))"
proof -
  let ?S = "\<lambda>s. under_guard env Yp Yc f n s \<and> serving env Yc s" and ?R = "recoverable env (Yp \<union> Yc)"
    and ?D = "settled_state env Yc (Yp \<union> Yc)"
  have G: "under_guard env Yp Yc f n s \<Longrightarrow> ?R s" for s by (rule guarded_recoverable)
  have sf: "safe_file_name f" and law: "\<And>j. re_parse_journal env (re_journal_bytes env j) = Some j"
    using ok by (simp_all add: exchange_ok_def)
  show ?thesis
    unfolding complete_restore_def
  proof (intro triple_bind)
    show "triple ?S (write_journal env (j\<lparr>jn_phase := WorkloadsRestarted\<rparr>)) (\<lambda>_. ?S) ?R ?R"
      by (rule triple_conseq [OF exchange_journal [OF ok rollback_phases(6) stable_states(4)]]) (auto dest: G)
    show "triple ?S (storage_audit_append env ''restore_succeeded'' who ''succeeded'' (restore_details candidate (jn_operation_id j)))
        (\<lambda>_. ?S) ?R ?R"
      by (rule triple_conseq [OF guarded_audit [OF ok]]) (auto dest: G)
    show "triple ?S (write_journal env (j\<lparr>jn_phase := Succeeded\<rparr>)) (\<lambda>_. ?D) ?R ?R"
      by (rule triple_conseq [OF triple_ensures [OF settled_journal]])
        (use sf law in \<open>auto intro: guarded_settled dest: settled_recoverable simp: settled_phase_def\<close>)
    show "triple ?D (remove_journal env) (\<lambda>_. ?D) ?R ?R"
      by (rule triple_conseq [OF triple_ensures [OF settled_remove]]) (auto dest: settled_recoverable)
    show "triple ?D (mlift (Ok x)) (\<lambda>_. ?D) ?R ?R" for x :: restore_outcome
      by (rule triple_mlift) simp
  qed
qed

lemma exchange_step:
  assumes ok: "exchange_ok env f n j"
  shows "triple (\<lambda>s. under_guard env Yp Yc f n s \<and> poised s) (exchange env fault (Backup n) (Backup f) j candidate who)
     (\<lambda>out s. settled_state env Yc (Yp \<union> Yc) s) (recoverable env (Yp \<union> Yc)) (recoverable env (Yp \<union> Yc))"
proof -
  let ?G = "under_guard env Yp Yc f n" and ?S = "\<lambda>s. under_guard env Yp Yc f n s \<and> serving env Yc s" and ?R = "recoverable env (Yp \<union> Yc)"
  have G: "?G s \<Longrightarrow> ?R s" for s by (rule guarded_recoverable)
  have sf: "safe_file_name f" "safe_file_name n" using ok by (simp_all add: exchange_ok_def)
  have out: "Backup f \<notin> reconciled_files" "Backup n \<notin> reconciled_files" "journal_file \<notin> reconciled_files"
    using sf [THEN safe_ends] temporary_start
    by (auto simp: reconciled_files_def journal_file_def journal_temporary_def is_temporary_name_def has_prefix_def)
  have rb: "triple (\<lambda>s. ?G s \<and> poised s) (roll_back env (Backup f) j candidate who)
      (\<lambda>out s. settled_state env Yc (Yp \<union> Yc) s) ?R ?R"
    by (rule triple_conseq [OF roll_back_step [OF ok]]) auto
  show ?thesis
    unfolding exchange_def
  proof (rule triple_bind [OF triple_attempt [where Q = "\<lambda>r s. ?G s \<and> (case r of Inr _ \<Rightarrow> serving env Yc s | Inl _ \<Rightarrow> poised s)"]])
    show "triple (\<lambda>s. ?G s \<and> poised s) (replace_live env fault (Backup n) j)
        (\<lambda>x s. ?G s \<and> (case Inr x :: backup_error + unit of Inr _ \<Rightarrow> serving env Yc s | Inl _ \<Rightarrow> poised s))
        (\<lambda>s. \<forall>e. ?G s \<and> (case Inl e :: backup_error + unit of Inr _ \<Rightarrow> serving env Yc s | Inl _ \<Rightarrow> poised s)) ?R"
      by (rule triple_conseq [OF replace_live_step [OF ok]]) (auto dest: G)
  next
    fix r :: "backup_error + unit"
    show "triple (\<lambda>s. ?G s \<and> (case r of Inr _ \<Rightarrow> serving env Yc s | Inl _ \<Rightarrow> poised s))
       (case r of Inl _ \<Rightarrow> roll_back env (Backup f) j candidate who
        | Inr _ \<Rightarrow> mbind (attempt (mbind (reconcile env) (\<lambda>_. on_workloads env (restart_from_persisted (re_control env))))) (\<lambda>completion.
             case completion of
               Inl _ \<Rightarrow> mbind (ignoring (on_workloads env (quiesce_again (re_control env)))) (\<lambda>_.
                   roll_back env (Backup f) j candidate who)
             | Inr _ \<Rightarrow> complete_restore env j candidate who))
       (\<lambda>out s. settled_state env Yc (Yp \<union> Yc) s) ?R ?R"
    proof (cases r)
      case (Inl e)
      with rb show ?thesis by simp
    next
      case (Inr u)
      have "triple ?S (mbind (reconcile env) (\<lambda>_. on_workloads env (restart_from_persisted (re_control env)))) (\<lambda>_. ?S) ?S ?R"
      proof (rule triple_bind)
        show "triple ?S (reconcile env) (\<lambda>_. ?S) ?S ?R"
          by (rule triple_conseq [OF guarded_unmoved [OF unmoved_reconcile out]]) (auto dest: G)
        show "triple ?S (on_workloads env (restart_from_persisted (re_control env))) (\<lambda>_. ?S) ?S ?R"
          by (rule triple_conseq [OF guarded_workloads]) (auto dest: G)
      qed
      then have a: "triple ?S (attempt (mbind (reconcile env) (\<lambda>_. on_workloads env (restart_from_persisted (re_control env)))))
          (\<lambda>_. ?S) ?R ?R"
        by (intro triple_attempt) (simp add: triple_conseq)
      have q: "triple ?S (ignoring (on_workloads env (quiesce_again (re_control env)))) (\<lambda>_ s. ?G s \<and> poised s) ?R ?R"
        by (rule triple_ignoring, rule triple_conseq [OF guarded_workloads]) (auto dest: G serving_poised)
      have "triple ?S (case completion of
               Inl _ \<Rightarrow> mbind (ignoring (on_workloads env (quiesce_again (re_control env)))) (\<lambda>_.
                   roll_back env (Backup f) j candidate who)
             | Inr _ \<Rightarrow> complete_restore env j candidate who) (\<lambda>out s. settled_state env Yc (Yp \<union> Yc) s) ?R ?R" for completion
        by (cases completion) (use complete_step [OF ok] triple_bind [OF q rb] in auto)
      with triple_bind [OF a this] Inr show ?thesis by simp
    qed
  qed
qed

section \<open>Recovery\<close>

text \<open>A start-up that finds no log: the state the recovery keeps, whatever becomes of it.\<close>

definition awaiting where
  "awaiting env Y s \<longleftrightarrow> recoverable env Y s \<and> file_at s LiveLog = None"

lemma awaiting_touches: "awaiting env Y s \<Longrightarrow> touches {} s s' \<Longrightarrow> awaiting env Y s'"
proof -
  assume a: "awaiting env Y s" and t: "touches {} s s'"
  have i: "live_in env Y s' = live_in env Y s" using t live_items_cong [of s' s env] by (simp add: live_in_def touches_def)
  have f: "file_at s' = file_at s" using t by (auto simp: touches_def)
  then have r: "readable_at env Y p s' = readable_at env Y p s" for p by (simp add: readable_at_def)
  have "recoverable env Y s' = recoverable env Y s" unfolding recoverable_def by (simp only: i f r)
  with a f show ?thesis by (simp add: awaiting_def)
qed

lemma install_Inr:
  assumes "install_database env p op s = (Inr u, s')" and "p \<noteq> Staged op" and "p \<noteq> LiveFile"
  shows "file_at s' LiveFile = file_at s p"
proof -
  let ?S = "Staged op"
  from assms(1) obtain u1 u2 u3 u4 u5 s1 s2 s3 s4 s5 where s: "remove_if_exists env ?S s = (Inr u1, s1)"
    "copy_file env p ?S s1 = (Inr u2, s2)" "protect_file env ?S s2 = (Inr u3, s3)" "sync_file env ?S s3 = (Inr u4, s4)"
    "rename_file env ?S LiveFile s4 = (Inr u5, s5)" "sync_directory env s5 = (Inr u, s')"
    unfolding install_database_def mbind_eq_Inr by blast
  have "touches {?S} s s1" by (rule ensuresD [OF touches_remove s(1)]) simp
  moreover have "touches {} s2 s4"
    using ensuresD [OF touches_reading(2) [where T = "{}"] s(3)] ensuresD [OF touches_reading(4) [where T = "{}"] s(4)]
    by (auto simp: touches_def)
  moreover have "touches {} s5 s'" by (rule ensuresD [OF touches_reading(5) s(6)])
  ultimately show ?thesis
    using copy_file_Inr [OF s(2)] rename_file_Inr [OF s(5)] assms(2,3) by (auto simp: touches_def)
qed

lemma awaiting_install:
  assumes j: "file_at s journal_file = Some b" "re_parse_journal env b = Some j" "\<not> settled_phase (jn_phase j)"
    and sf: "safe_file_name (jn_pre_restore_file j)" and a: "awaiting env Y s"
    and i: "install_database env (Backup (jn_pre_restore_file j)) op s = (r, s')"
  shows "awaiting env Y s' \<and> file_at s' journal_file = Some b \<and> (\<forall>u. r = Inr u \<longrightarrow> live_in env Y s')"
proof -
  let ?p = "Backup (jn_pre_restore_file j)"
  have c: "changes {Staged op, LiveFile} s s'" by (rule ensuresD [OF changes_install i])
  have r: "readable_at env Y ?p s" using a j by (simp add: awaiting_def recoverable_def)
  have f: "file_at s' journal_file = Some b" "file_at s' ?p = file_at s ?p" "file_at s' LiveLog = None"
    using c j a by (simp_all add: changes_def awaiting_def)
  then have "readable_at env Y ?p s'" using r by (simp add: readable_at_def)
  with f j have "awaiting env Y s'" by (simp add: awaiting_def recoverable_def)
  moreover have "live_in env Y s'" if "r = Inr u" for u
    using install_Inr [OF i [unfolded that]] r f(3) by (auto simp: readable_at_def live_in_def live_items_def live_view_def)
  ultimately show ?thesis using f by blast
qed

lemma triple_verify:
  "(\<And>s s'. touches {} s s' \<Longrightarrow> P s \<Longrightarrow> P s') \<Longrightarrow> triple P (verify_database_at env p now) (\<lambda>_. P) P P"
  by (rule triple_touches [OF touches_verify(1)])

lemma repair_step:
  assumes j: "re_parse_journal env b = Some j" and ok: "journal_ok env j"
  shows "triple (\<lambda>s. awaiting env Y s \<and> file_at s journal_file = Some b) (repair env now j)
     (\<lambda>_ s. awaiting env Y s \<and> file_at s journal_file = Some b \<and> live_in env Y s) (awaiting env Y) (awaiting env Y)"
proof -
  let ?P = "\<lambda>s. awaiting env Y s \<and> file_at s journal_file = Some b"
  have P: "?P s'" if "touches {} s s'" "?P s" for s s'
    using that awaiting_touches [of env Y s s'] by (simp add: touches_def)
  have live: "live_in env Y s" if "?P s" "settled_phase (jn_phase j)" for s
    using that j by (auto simp: awaiting_def recoverable_def)
  show ?thesis
  proof (cases "settled_phase (jn_phase j)")
    case True
    show ?thesis
    proof (cases "early_phase (jn_phase j)")
      case e: True
      have "triple ?P (verify_database_at env LiveFile now) (\<lambda>_. ?P) (awaiting env Y) (awaiting env Y)"
        by (rule triple_conseq [OF triple_verify [where P = ?P]]) (use P in auto)
      moreover have "triple ?P (mlift (Ok ())) (\<lambda>_ s. ?P s \<and> live_in env Y s) (awaiting env Y) (awaiting env Y)"
        using True live by (intro triple_mlift) simp
      ultimately have "triple ?P (mbind (verify_database_at env LiveFile now) (\<lambda>_. mlift (Ok ())))
          (\<lambda>_ s. ?P s \<and> live_in env Y s) (awaiting env Y) (awaiting env Y)" by (rule triple_bind)
      with e show ?thesis by (simp add: repair_def conj_assoc)
    next
      case False
      with True have "jn_phase j = Succeeded" by (simp add: settled_phase_def)
      with True False show ?thesis by (auto simp: repair_def intro!: triple_mlift live)
    qed
  next
    case False
    then have sf: "safe_file_name (jn_pre_restore_file j)" and ph: "\<not> early_phase (jn_phase j)" "jn_phase j \<noteq> Succeeded"
      using ok by (auto simp: settled_phase_def journal_ok_def)
    let ?L = "\<lambda>s. ?P s \<and> live_in env Y s"
    have L: "?L s'" if "touches {} s s'" "?L s" for s s'
      using that P [of s s'] live_items_cong [of s' s env] by (simp add: live_in_def touches_def)
    have "triple ?P (mbind (verify_database_at env (Backup (jn_pre_restore_file j)) now) (\<lambda>_.
        mbind (install_database env (Backup (jn_pre_restore_file j)) (jn_operation_id j)) (\<lambda>_.
        mbind (verify_database_at env LiveFile now) (\<lambda>_. mlift (Ok ()))))) (\<lambda>_. ?L) (awaiting env Y) (awaiting env Y)"
    proof (intro triple_bind)
      show "triple ?P (verify_database_at env (Backup (jn_pre_restore_file j)) now) (\<lambda>_. ?P) (awaiting env Y) (awaiting env Y)"
        by (rule triple_conseq [OF triple_verify [where P = ?P]]) (use P in auto)
      show "triple ?P (install_database env (Backup (jn_pre_restore_file j)) (jn_operation_id j)) (\<lambda>_. ?L)
          (awaiting env Y) (awaiting env Y)"
      proof (rule tripleI)
        fix s r s' assume "?P s" "install_database env (Backup (jn_pre_restore_file j)) (jn_operation_id j) s = (r, s')"
        from awaiting_install [OF conjunct2 [OF this(1)] j False sf conjunct1 [OF this(1)] this(2)]
        show "after r (\<lambda>_. ?L) (awaiting env Y) (awaiting env Y) s'" by (auto simp: after_def split: sum.splits failure.splits)
      qed
      show "triple ?L (verify_database_at env LiveFile now) (\<lambda>_. ?L) (awaiting env Y) (awaiting env Y)"
        by (rule triple_conseq [OF triple_verify [where P = ?L]]) (use L in auto)
      show "triple ?L (mlift (Ok ())) (\<lambda>_. ?L) (awaiting env Y) (awaiting env Y)" by (rule triple_mlift) simp
    qed
    with ph show ?thesis by (simp add: repair_def conj_assoc)
  qed
qed

lemma remove_file_cases:
  assumes "remove_file env p s = (r, s')"
  shows "touches {p} s s'" and "file_at s' p \<in> {file_at s p, None}" and "r = Inr u \<Longrightarrow> file_at s' p = None"
  using assms by (auto simp: remove_file_def system_call_def Let_def touches_def split: fate.splits if_splits)

lemma recovery_step:
  "triple (awaiting env Y) (recover_interrupted env now) (\<lambda>_ s. awaiting env Y s \<and> live_in env Y s) (awaiting env Y) (awaiting env Y)"
  unfolding recover_interrupted_def
proof (rule triple_bind)
  show "triple (awaiting env Y) (quiet_call env BackupIo) (\<lambda>_. awaiting env Y) (awaiting env Y) (awaiting env Y)"
    by (rule triple_touches [OF touches_quiet]) (rule awaiting_touches)
next
  let ?A = "awaiting env Y" and ?L = "\<lambda>s. awaiting env Y s \<and> live_in env Y s"
  have L: "?L s'" if "touches {} s s'" "?L s" for s s'
    using that awaiting_touches [of env Y s s'] live_items_cong [of s' s env] by (simp add: live_in_def touches_def)
  have tail: "triple (\<lambda>s. ?A s \<and> file_at s journal_file = Some b)
      (mbind (mlift (guard (length b \<le> 16 * 1024) BackupInvalid)) (\<lambda>_.
            mbind (mlift (ok_or BackupInvalid (re_parse_journal env b))) (\<lambda>j.
            mbind (mlift (guard (journal_ok env j) BackupInvalid)) (\<lambda>_.
            mbind (repair env now j) (\<lambda>_.
            mbind (remove_file env journal_file) (\<lambda>_.
            mbind (sync_directory env) (\<lambda>_. mlift (Ok True)))))))) (\<lambda>_. ?L) ?A ?A" for b
  proof (rule triple_bind, rule triple_guard, force, rule triple_bind)
    let ?P = "\<lambda>s. ?A s \<and> file_at s journal_file = Some b"
    show "triple ?P (mlift (ok_or BackupInvalid (re_parse_journal env b))) (\<lambda>j s. ?P s \<and> re_parse_journal env b = Some j) ?A ?A"
      by (rule triple_mlift) (auto simp: ok_or_def split: option.splits)
    fix j
    show "triple (\<lambda>s. ?P s \<and> re_parse_journal env b = Some j) (mbind (mlift (guard (journal_ok env j) BackupInvalid)) (\<lambda>_.
            mbind (repair env now j) (\<lambda>_.
            mbind (remove_file env journal_file) (\<lambda>_.
            mbind (sync_directory env) (\<lambda>_. mlift (Ok True)))))) (\<lambda>_. ?L) ?A ?A"
    proof (cases "re_parse_journal env b = Some j \<and> journal_ok env j")
      case True
      have g: "triple ?P (mlift (guard (journal_ok env j) BackupInvalid)) (\<lambda>_. ?P) ?A ?A" by (rule triple_guard) simp
      have rm: "triple (\<lambda>s. ?P s \<and> live_in env Y s) (remove_file env journal_file) (\<lambda>_. ?L) ?A ?A"
      proof (rule tripleI)
        fix s r s' assume p: "?P s \<and> live_in env Y s" and e: "remove_file env journal_file s = (r, s')"
        note c = remove_file_cases [OF e]
        have l: "live_in env Y s'" using p c(1) live_items_cong [of s' s env] by (simp add: live_in_def touches_def)
        have "?A s'"
        proof (cases "file_at s' journal_file = None")
          case True
          with l p c(1) show ?thesis by (simp add: awaiting_def recoverable_def touches_def)
        next
          case False
          with c(2) have "file_at s' journal_file = file_at s journal_file" by simp
          with c(1) have "file_at s' q = file_at s q" for q by (cases "q = journal_file") (simp_all add: touches_def)
          with c(1) have "touches {} s s'" by (simp add: touches_def)
          with p show ?thesis using awaiting_touches by blast
        qed
        with l show "after r (\<lambda>_. ?L) ?A ?A s'" by (auto simp: after_def split: sum.splits failure.splits)
      qed
      have sy: "triple ?L (sync_directory env) (\<lambda>_. ?L) ?A ?A"
        by (rule triple_conseq [OF triple_touches [OF touches_reading(5), where P = ?L]]) (use L in auto)
      have rp: "triple ?P (repair env now j) (\<lambda>_ s. ?P s \<and> live_in env Y s) ?A ?A"
        by (rule triple_conseq [OF repair_step [of env b j Y now]]) (use True in auto)
      have "triple ?P (mbind (mlift (guard (journal_ok env j) BackupInvalid)) (\<lambda>_.
            mbind (repair env now j) (\<lambda>_.
            mbind (remove_file env journal_file) (\<lambda>_.
            mbind (sync_directory env) (\<lambda>_. mlift (Ok True)))))) (\<lambda>_. ?L) ?A ?A"
        by (intro triple_bind [OF g] triple_bind [OF rp] triple_bind [OF rm] triple_bind [OF sy] triple_mlift) simp
      then show ?thesis by (rule triple_pre) simp
    next
      case False
      then show ?thesis by (intro tripleI) (auto simp: mbind_def mlift_def guard_def)
    qed
  qed
  fix u :: unit
  show "triple ?A (\<lambda>s. case file_at s journal_file of
         None \<Rightarrow> (Ok False, s)
       | Some b \<Rightarrow>
           (mbind (mlift (guard (length b \<le> 16 * 1024) BackupInvalid)) (\<lambda>_.
            mbind (mlift (ok_or BackupInvalid (re_parse_journal env b))) (\<lambda>j.
            mbind (mlift (guard (journal_ok env j) BackupInvalid)) (\<lambda>_.
            mbind (repair env now j) (\<lambda>_.
            mbind (remove_file env journal_file) (\<lambda>_.
            mbind (sync_directory env) (\<lambda>_. mlift (Ok True)))))))) s) (\<lambda>_. ?L) ?A ?A"
  proof (rule tripleI)
    fix s r s'
    assume a: "?A s" and e: "(case file_at s journal_file of
         None \<Rightarrow> (Ok False, s)
       | Some b \<Rightarrow>
           (mbind (mlift (guard (length b \<le> 16 * 1024) BackupInvalid)) (\<lambda>_.
            mbind (mlift (ok_or BackupInvalid (re_parse_journal env b))) (\<lambda>j.
            mbind (mlift (guard (journal_ok env j) BackupInvalid)) (\<lambda>_.
            mbind (repair env now j) (\<lambda>_.
            mbind (remove_file env journal_file) (\<lambda>_.
            mbind (sync_directory env) (\<lambda>_. mlift (Ok True)))))))) s) = (r, s')"
    show "after r (\<lambda>_. ?L) ?A ?A s'"
    proof (cases "file_at s journal_file")
      case None
      with a e show ?thesis by (auto simp: awaiting_def recoverable_def)
    next
      case (Some b)
      with e show ?thesis using tripleD [OF tail [of b], of s r s'] a by simp
    qed
  qed
qed

end
