(* ===== verification/RestoreGuarantees.thy ===== *)
theory RestoreGuarantees
  imports RestoreSafety
begin

text \<open>
  The guarantees of backups and of the restore, from a request to the recovery after a crash.
\<close>

section \<open>Before the maintenance\<close>

text \<open>The items the offered candidate holds.\<close>

definition candidate_items where
  "candidate_items env i s =
     {item_data (ld_items c) | d r b c. live_view env s = Some d \<and> r \<in> set (ld_backups d) \<and> br_id r = i
        \<and> file_at s (Backup (br_file_name r)) = Some b \<and> sq_read env b None = Some c}"

text \<open>Identifiers that are still to be given out are not those of backups that exist.\<close>

definition fresh_ids where
  "fresh_ids env s \<longleftrightarrow> (\<forall>d r k. live_view env s = Some d \<longrightarrow> r \<in> set (ld_backups d) \<longrightarrow> fs_ids s \<le> k \<longrightarrow>
     br_id r \<noteq> ev_uuid_text env (ev_ids env k) \<and> br_file_name r \<noteq> database_file_name (ev_uuid_text env (ev_ids env k)))"

text \<open>The live database is open, its items are \<open>x\<close>, and the journal at most announces a restore.\<close>

definition calm where
  "calm env x s \<longleftrightarrow> fs_open s \<and> live_items env s = Some x
     \<and> (\<forall>b. file_at s journal_file = Some b \<longrightarrow> (\<exists>j. re_parse_journal env b = Some j \<and> early_phase (jn_phase j)))"

lemma calm_recoverable: "calm env x s \<Longrightarrow> x \<in> Y \<Longrightarrow> recoverable env Y s"
  by (auto simp: calm_def recoverable_def settled_phase_def live_in_def split: option.splits)

lemma calm_journal:
  assumes "calm env x s" and "fs_open s' = fs_open s" and "live_items env s' = live_items env s"
    and "file_at s' journal_file \<in> {file_at s journal_file, None}
      \<or> (\<exists>b j. file_at s' journal_file = Some b \<and> re_parse_journal env b = Some j \<and> early_phase (jn_phase j))"
  shows "calm env x s'"
  using assms by (auto simp: calm_def)

lemma calm_touches: "calm env x s \<Longrightarrow> touches {} s s' \<Longrightarrow> calm env x s'"
proof -
  assume c: "calm env x s" and t: "touches {} s s'"
  have "live_items env s' = live_items env s" using t by (intro live_items_cong) (simp_all add: touches_def)
  with c t show ?thesis by (simp add: calm_def touches_def)
qed

lemma calm_remove: "calm env x s \<Longrightarrow> remove_journal env s = (r, s') \<Longrightarrow> calm env x s'"
  using remove_journal_cases [of env s r s']
  by (intro calm_journal [of env x s s']) (auto simp: touches_def intro: live_items_cong)

text \<open>The first stage: only the journal has been written since \<open>s0\<close>.\<close>

definition early_stage where
  "early_stage env x s0 s \<longleftrightarrow> touches {journal_file, journal_temporary} s0 s \<and> calm env x s"

lemma early_touches: "early_stage env x s0 s \<Longrightarrow> touches {} s s' \<Longrightarrow> early_stage env x s0 s'"
  using touches_trans [of "{journal_file, journal_temporary}" s0 s "{}" s'] calm_touches [of env x s s']
  by (simp add: early_stage_def)

lemma early_view: "early_stage env x s0 s \<Longrightarrow> live_view env s = live_view env s0"
  by (auto simp: early_stage_def intro: touches_live_view)

lemma early_quiet:
  assumes "ensures (touches {}) m"
  shows "triple (early_stage env x s0) m (\<lambda>_. early_stage env x s0) (early_stage env x s0) (early_stage env x s0)"
  by (rule triple_touches [OF assms]) (rule early_touches)

lemma early_journal:
  fixes s0 :: "'x storage_scheme"
  assumes "re_parse_journal env (re_journal_bytes env j) = Some j" and "early_phase (jn_phase j)"
  shows "triple (early_stage env x s0) (write_journal env j) (\<lambda>_. early_stage env x s0) (early_stage env x s0) (early_stage env x s0)"
proof (rule triple_ensures, rule ensuresI)
  fix s s' :: "'x storage_scheme" and r assume w: "write_journal env j s = (r, s')"
  have t: "touches {journal_temporary, journal_file} s s'" by (rule ensuresD [OF touches_write_journal w]) simp
  have "calm env x s'" if "calm env x s"
    by (rule calm_journal [OF that])
      (use t write_journal_atomic(1) [OF w] assms in \<open>auto simp: touches_def intro: live_items_cong\<close>)
  moreover have "touches {journal_file, journal_temporary} s0 s'" if "touches {journal_file, journal_temporary} s0 s"
    using touches_trans [OF that t] by (simp add: insert_commute)
  ultimately show "keeping (early_stage env x s0) s s'" by (simp add: keeping_def early_stage_def)
qed

text \<open>Giving up before the maintenance.\<close>

lemma abandon_step:
  assumes "triple P m Q E (recoverable env Y)" and "\<And>s. E s \<Longrightarrow> calm env x s" and "x \<in> Y"
  shows "triple P (or_abandon env m) Q (recoverable env Y) (recoverable env Y)"
  unfolding or_abandon_def
proof (rule triple_bind [OF triple_attempt [where Q = "\<lambda>r s. case r of Inr y \<Rightarrow> Q y s | Inl _ \<Rightarrow> calm env x s"]])
  show "triple P m (\<lambda>y s. case Inr y :: backup_error + 'b of Inr y \<Rightarrow> Q y s | Inl _ \<Rightarrow> calm env x s)
     (\<lambda>s. \<forall>e. case Inl e :: backup_error + 'b of Inr y \<Rightarrow> Q y s | Inl _ \<Rightarrow> calm env x s) (recoverable env Y)"
    by (rule triple_conseq [OF assms(1)]) (use assms(2) in auto)
next
  fix r :: "backup_error + 'b"
  have rm: "triple (calm env x) (remove_journal env) (\<lambda>_. calm env x) (recoverable env Y) (recoverable env Y)"
  proof (rule tripleI)
    fix s r s' assume "calm env x s" "remove_journal env s = (r, s')"
    then have c: "calm env x s'" by (rule calm_remove)
    with calm_recoverable [OF c assms(3)] show "after r (\<lambda>_. calm env x) (recoverable env Y) (recoverable env Y) s'"
      by (auto simp: after_def split: sum.splits failure.splits)
  qed
  show "triple (\<lambda>s. case r of Inr y \<Rightarrow> Q y s | Inl _ \<Rightarrow> calm env x s)
     (case r of Inr x \<Rightarrow> mlift (Ok x) | Inl e \<Rightarrow> mbind (remove_journal env) (\<lambda>_. mlift (Err e)))
     Q (recoverable env Y) (recoverable env Y)"
  proof (cases r)
    case (Inl e)
    have "triple (calm env x) (mlift (Err e)) Q (recoverable env Y) (recoverable env Y)"
      by (rule triple_mlift) (simp add: calm_recoverable [OF _ assms(3)])
    from triple_bind [OF rm this] Inl show ?thesis by simp
  qed (auto intro: triple_mlift)
qed

text \<open>After the backup of the live database: what is known of its file and of the candidate's.\<close>

definition backed_up where
  "backed_up env x s0 n s \<longleftrightarrow> calm env x s \<and> file_at s (Backup n) \<in> {file_at s0 (Backup n), None}"

definition saved_as where
  "saved_as env x t f s \<longleftrightarrow> f = database_file_name t
     \<and> (\<exists>b c. sq_read env b None = Some c \<and> item_data (ld_items c) = x \<and> file_at s (Backup f) \<in> {Some b, None})
     \<and> (\<forall>d r. live_view env s = Some d \<longrightarrow> r \<in> set (ld_backups d) \<longrightarrow> br_id r = t \<longrightarrow> br_file_name r = f)"

lemma backed_up_touches: "backed_up env x s0 n s \<Longrightarrow> touches {} s s' \<Longrightarrow> backed_up env x s0 n s'"
  using calm_touches [of env x s s'] by (simp add: backed_up_def touches_def)

lemma saved_as_touches: "saved_as env x t f s \<Longrightarrow> touches {} s s' \<Longrightarrow> saved_as env x t f s'"
proof -
  assume a: "saved_as env x t f s" and t: "touches {} s s'"
  have "file_at s' = file_at s" using t by (auto simp: touches_def)
  with a touches_view_refl [OF t, of env] show ?thesis unfolding saved_as_def by metis
qed

lemma saving_step:
  assumes fresh: "fresh_ids env s0" and n: "safe_file_name n" "r \<in> set (ld_backups d)" "br_file_name r = n"
    and d: "live_view env s0 = Some d" and x: "x = item_data (ld_items d)"
  shows "triple (early_stage env x s0) (create_backup env source who)
     (\<lambda>p s. backed_up env x s0 n s \<and> saved_as env x (bk_id p) (bk_file_name p) s) (backed_up env x s0 n) (backed_up env x s0 n)"
proof (rule tripleI)
  fix s a s' assume e: "early_stage env x s0 s" and c: "create_backup env source who s = (a, s')"
  let ?t = "ev_uuid_text env (ev_ids env (fs_ids s))"
  have t0: "touches {journal_file, journal_temporary} s0 s" "calm env x s" using e by (simp_all add: early_stage_def)
  have v: "live_view env s = Some d" using early_view [OF e] d by simp
  have td: "tidy env (created_files ?t) s s'" by (rule create_tidy [OF c])
  have "fs_ids s0 \<le> fs_ids s" using t0 by (simp add: touches_def)
  with fresh d have fr: "br_id q \<noteq> ?t" "br_file_name q \<noteq> database_file_name ?t" if "q \<in> set (ld_backups d)" for q
    using that by (auto simp: fresh_ids_def)
  have "journal_file \<notin> created_files ?t"
    by (auto simp: created_files_def journal_file_def temporary_database_name_def temporary_manifest_name_def
        database_file_name_def manifest_name_def file_stem_def dropWhile_append)
      (metis generated_names(1) list.sel(1))?
  then have "calm env x s'"
    using td t0 by (intro calm_journal [of env x s s']) (auto simp: tidy_def)
  moreover have "Backup n \<notin> created_files ?t"
    using fr(2) [OF n(2)] n(3) safe_ends [OF n(1)] by (auto simp: created_files_def)
  then have "file_at s' (Backup n) \<in> {file_at s (Backup n), None}" using td unfolding tidy_def by blast
  with t0(1) have "file_at s' (Backup n) \<in> {file_at s0 (Backup n), None}" using safe_path [OF n(1)] by (simp add: touches_def)
  ultimately have b: "backed_up env x s0 n s'" by (simp add: backed_up_def)
  have "saved_as env x (bk_id p) (bk_file_name p) s'" if "a = Inr p" for p
  proof -
    from create_Inr [OF c [unfolded that]] v obtain b d' where cr: "bk_id p = ?t" "bk_file_name p = database_file_name ?t"
      "sq_read env b None = Some d" "file_at s' (Backup (database_file_name ?t)) \<in> {Some b, None}" "live_view env s' = Some d'"
      "set (backup_names d') \<subseteq> insert (?t, database_file_name ?t) (set (backup_names d))" by auto
    have "br_file_name q = database_file_name ?t" if "q \<in> set (ld_backups d')" "br_id q = ?t" for q
    proof -
      note q = that(2)
      have "(br_id q, br_file_name q) \<in> set (backup_names d')" using that(1) unfolding backup_names_def set_map by (rule rev_image_eqI) simp
      then consider "br_file_name q = database_file_name ?t" | "(?t, br_file_name q) \<in> set (backup_names d)"
        using cr(6) q by auto
      then show ?thesis
      proof cases
        case 2
        then obtain p where "p \<in> set (ld_backups d)" "br_id p = ?t" by (auto simp: backup_names_def)
        with fr(1) show ?thesis by blast
      qed
    qed
    then have "\<forall>d r. live_view env s' = Some d \<longrightarrow> r \<in> set (ld_backups d) \<longrightarrow> br_id r = ?t \<longrightarrow> br_file_name r = database_file_name ?t"
      using cr(5) by auto
    with cr(1-4) x show ?thesis unfolding saved_as_def by metis
  qed
  with b show "after a (\<lambda>p s. backed_up env x s0 n s \<and> saved_as env x (bk_id p) (bk_file_name p) s)
      (backed_up env x s0 n) (backed_up env x s0 n) s'" by (auto simp: after_def split: sum.splits failure.splits)
qed

lemma saved_download:
  "triple (\<lambda>s. backed_up env x s0 n s \<and> saved_as env x t f s) (download_backup env t)
     (\<lambda>(k, pp) s. backed_up env x s0 n s \<and> pp = Backup f \<and> safe_file_name f \<and> readable_at env {x} (Backup f) s)
     (backed_up env x s0 n) (backed_up env x s0 n)"
proof (rule tripleI)
  fix s r s' assume b: "backed_up env x s0 n s \<and> saved_as env x t f s" and dl: "download_backup env t s = (r, s')"
  have td: "touches {} s s'" by (rule ensuresD [OF touches_download dl])
  have b': "backed_up env x s0 n s'" using b td backed_up_touches by blast
  show "after r (\<lambda>(k, pp) s. backed_up env x s0 n s \<and> pp = Backup f \<and> safe_file_name f \<and> readable_at env {x} (Backup f) s)
     (backed_up env x s0 n) (backed_up env x s0 n) s'"
  proof (cases r)
    case (Inl y)
    with b' show ?thesis by (cases y) simp_all
  next
    case (Inr kp)
    obtain k p where kp: "kp = (k, p)" by (cases kp)
    from download_Inr [OF dl [unfolded Inr kp]] obtain d r b2 where dl': "p = Backup (bk_file_name k)"
      "safe_file_name (bk_file_name k)" "live_view env s = Some d" "r \<in> set (ld_backups d)" "record_from_row r = Inr k"
      "br_id r = t" "file_at s p = Some b2" by auto
    with b record_of_row [OF dl'(5)] have f: "bk_file_name k = f" by (auto simp: saved_as_def)
    with b dl' have "readable_at env {x} (Backup f) s" by (auto simp: saved_as_def readable_at_def)
    with td have "readable_at env {x} (Backup f) s'" by (simp add: readable_at_def touches_def)
    with f dl' b' show ?thesis by (simp add: Inr kp)
  qed
qed

text \<open>The entry of the journal that commits to the backup of the former database.\<close>

lemma commitment_step:
  assumes law: "re_parse_journal env (re_journal_bytes env j) = Some j" and j: "jn_phase j = PreRestoreBackupVerified"
    "jn_pre_restore_file j = f" and sf: "safe_file_name f" "safe_file_name n" and Y: "x \<in> Y"
    and C: "\<And>b c. file_at s0 (Backup n) = Some b \<Longrightarrow> sq_read env b None = Some c \<Longrightarrow> item_data (ld_items c) \<in> C"
  shows "triple (\<lambda>s. backed_up env x s0 n s \<and> readable_at env {x} (Backup f) s) (write_journal env j)
     (\<lambda>_ s. under_guard env {x} C f n s \<and> serving env {x} s) (recoverable env Y) (recoverable env Y)"
proof (rule tripleI)
  fix s r s' assume p: "backed_up env x s0 n s \<and> readable_at env {x} (Backup f) s" and w: "write_journal env j s = (r, s')"
  have t: "touches {journal_temporary, journal_file} s s'" by (rule ensuresD [OF touches_write_journal w]) simp
  have fl: "file_at s' (Backup f) = file_at s (Backup f)" "file_at s' (Backup n) = file_at s (Backup n)"
    using t safe_path [OF sf(1)] safe_path [OF sf(2)] by (simp_all add: touches_def)
  have rd: "readable_at env {x} (Backup f) s'" using p fl by (simp add: readable_at_def)
  have i: "live_items env s' = live_items env s" using t by (intro live_items_cong) (simp_all add: touches_def)
  have ns: "\<not> settled_phase (jn_phase j)" by (simp add: j settled_phase_def early_phase_def)
  have "recoverable env Y s'"
  proof (cases "file_at s' journal_file = file_at s journal_file")
    case True
    have "calm env x s'" by (rule calm_journal [of env x s]) (use p True t i in \<open>auto simp: backed_up_def touches_def\<close>)
    then show ?thesis using Y by (rule calm_recoverable)
  next
    case False
    then have "file_at s' journal_file = Some (re_journal_bytes env j)" using write_journal_atomic(1) [OF w] by simp
    moreover have "readable_at env Y (Backup (jn_pre_restore_file j)) s'" using rd Y j by (auto simp: readable_at_def)
    ultimately show ?thesis using law ns by (simp add: recoverable_def)
  qed
  moreover have "under_guard env {x} C f n s' \<and> serving env {x} s'" if "r = Inr ()"
  proof -
    have "file_at s' journal_file = Some (re_journal_bytes env j)" by (rule write_journal_atomic(2) [OF w that])
    moreover have "\<forall>b c. file_at s' (Backup n) = Some b \<longrightarrow> sq_read env b None = Some c \<longrightarrow> item_data (ld_items c) \<in> C"
      using fl(2) p C by (auto simp: backed_up_def)
    ultimately have "under_guard env {x} C f n s'" using rd law ns j by (auto simp: under_guard_def)
    moreover have "serving env {x} s'" using p i t by (simp add: serving_def live_in_def backed_up_def calm_def touches_def)
    ultimately show ?thesis ..
  qed
  ultimately show "after r (\<lambda>_ s. under_guard env {x} C f n s \<and> serving env {x} s) (recoverable env Y) (recoverable env Y) s'"
    by (auto simp: after_def split: sum.splits failure.splits)
qed

lemma prepare_step:
  fixes s0 :: "'x storage_scheme"
  assumes fresh: "fresh_ids env s0" and d: "live_view env s0 = Some d" and x: "x = item_data (ld_items d)"
    and law: "\<And>j. re_parse_journal env (re_journal_bytes env j) = Some j" and Y: "x \<in> Y"
  shows "triple (\<lambda>s. s = s0 \<and> fs_open s \<and> file_at s journal_file = None) (prepare_restore env i who)
     (\<lambda>(j, candidate, cp, pp) s. \<exists>f n. cp = Backup n \<and> pp = Backup f \<and> safe_file_name f \<and> safe_file_name n
        \<and> jn_pre_restore_file j = f \<and> under_guard env {x} (candidate_items env i s0) f n s \<and> serving env {x} s)
     (recoverable env Y) (recoverable env Y)"
proof -
  let ?E = "early_stage env x s0" and ?R = "recoverable env Y"
  have R: "calm env x s \<Longrightarrow> ?R s" for s :: "'x storage_scheme" using Y by (rule calm_recoverable [rotated])
  have E: "?E s \<Longrightarrow> ?R s" "?E s \<Longrightarrow> calm env x s" for s by (simp_all add: early_stage_def R)
  have quiet: "triple ?E m (\<lambda>_. ?E) ?R ?R" if "ensures (touches {}) m" for m :: "('x, 'value) stored"
    by (rule triple_conseq [OF early_quiet [OF that]]) (auto dest: E)
  have init: "?E s" if "s = s0 \<and> fs_open s \<and> file_at s journal_file = None" for s
    using that d x by (auto simp: early_stage_def calm_def live_items_def)
  have cand: "triple ?E (download_backup env i) (\<lambda>(k, p) s. ?E s \<and> p = Backup (bk_file_name k) \<and> safe_file_name (bk_file_name k)
      \<and> (\<exists>r \<in> set (ld_backups d). br_id r = i \<and> br_file_name r = bk_file_name k)) ?E ?E"
  proof (rule tripleI)
    fix s r s' assume e: "?E s" and dl: "download_backup env i s = (r, s')"
    have e': "?E s'" by (rule early_touches [OF e ensuresD [OF touches_download dl]])
    show "after r (\<lambda>(k, p) s. ?E s \<and> p = Backup (bk_file_name k) \<and> safe_file_name (bk_file_name k)
      \<and> (\<exists>r \<in> set (ld_backups d). br_id r = i \<and> br_file_name r = bk_file_name k)) ?E ?E s'"
    proof (cases r)
      case (Inl y)
      with e' show ?thesis by (cases y) simp_all
    next
      case (Inr kp)
      obtain k p where kp: "kp = (k, p)" by (cases kp)
      from download_Inr [OF dl [unfolded Inr kp]] early_view [OF e] d e' record_of_row show ?thesis
        by (auto simp: Inr kp)
    qed
  qed
  let ?D = "\<lambda>(k, p) s. ?E s \<and> p = Backup (bk_file_name k) \<and> safe_file_name (bk_file_name k)
      \<and> (\<exists>r \<in> set (ld_backups d). br_id r = i \<and> br_file_name r = bk_file_name k)"
  let ?F = "\<lambda>(j, candidate, cp, pp) s. \<exists>f n. cp = Backup n \<and> pp = Backup f \<and> safe_file_name f \<and> safe_file_name n
        \<and> jn_pre_restore_file j = f \<and> under_guard env {x} (candidate_items env i s0) f n s \<and> serving env {x} s"
  have wj: "triple ?E (write_journal env j) (\<lambda>_. ?E) ?R ?R" if "early_phase (jn_phase j)" for j
    by (rule triple_conseq [OF early_journal [OF law that]]) (auto dest: E)
  have ph: "early_phase Requested" "early_phase CandidateVerified" by (simp_all add: early_phase_def)
  have first: "triple ?E (or_abandon env (download_backup env i)) ?D ?R ?R"
    by (rule abandon_step [OF triple_conseq [OF cand] _ Y]) (auto dest: E)
  have last: "triple (?D (k, p)) (mbind (write_journal env (j\<lparr>jn_phase := CandidateVerified\<rparr>)) (\<lambda>_.
     mbind (or_abandon env (create_backup env PreRestore who)) (\<lambda>pre_restore.
     mbind (or_abandon env (download_backup env (bk_id pre_restore))) (\<lambda>(_, pre_restore_path).
     mbind (write_journal env (j\<lparr>jn_pre_restore_file := bk_file_name pre_restore, jn_phase := PreRestoreBackupVerified\<rparr>)) (\<lambda>_.
       mlift (Ok (j\<lparr>jn_pre_restore_file := bk_file_name pre_restore\<rparr>, k, p, pre_restore_path))))))) ?F ?R ?R" for k p j
  proof (cases "p = Backup (bk_file_name k) \<and> safe_file_name (bk_file_name k)
      \<and> (\<exists>r \<in> set (ld_backups d). br_id r = i \<and> br_file_name r = bk_file_name k)")
    case False
    then show ?thesis by (intro tripleI) auto
  next
    case True
    let ?n = "bk_file_name k"
    from True obtain r where r: "r \<in> set (ld_backups d)" "br_id r = i" "br_file_name r = ?n" and n: "safe_file_name ?n"
      and p: "p = Backup ?n" by blast
    have C: "item_data (ld_items c) \<in> candidate_items env i s0"
      if "file_at s0 (Backup ?n) = Some b" "sq_read env b None = Some c" for b c
      unfolding candidate_items_def using that d r by (intro CollectI exI [of _ c] exI [of _ d] exI [of _ r] exI [of _ b]) simp
    have B: "backed_up env x s0 ?n s \<Longrightarrow> calm env x s" for s by (simp add: backed_up_def)
    have BR: "backed_up env x s0 ?n s \<Longrightarrow> ?R s" for s :: "'x storage_scheme" using B R by blast
    show ?thesis
    proof (rule triple_pre [where P' = ?E], intro triple_bind)
      show "triple ?E (write_journal env (j\<lparr>jn_phase := CandidateVerified\<rparr>)) (\<lambda>_. ?E) ?R ?R"
        by (rule wj) (simp add: ph)
      show "triple ?E (or_abandon env (create_backup env PreRestore who))
          (\<lambda>q s. backed_up env x s0 ?n s \<and> saved_as env x (bk_id q) (bk_file_name q) s) ?R ?R"
        by (rule abandon_step [OF triple_conseq [OF saving_step [OF fresh n r(1,3) d x]] _ Y]) (auto intro: B BR)
      fix q
      show "triple (\<lambda>s :: 'x storage_scheme. backed_up env x s0 ?n s \<and> saved_as env x (bk_id q) (bk_file_name q) s)
          (or_abandon env (download_backup env (bk_id q)))
          (\<lambda>(k, pp) s. backed_up env x s0 ?n s \<and> pp = Backup (bk_file_name q) \<and> safe_file_name (bk_file_name q)
             \<and> readable_at env {x} (Backup (bk_file_name q)) s) ?R ?R"
        by (rule abandon_step [OF triple_conseq [OF saved_download] _ Y]) (auto intro: B BR)
      fix kp :: "backup_record \<times> file_path"
      show "triple (case kp of (k, pp) \<Rightarrow> \<lambda>s. backed_up env x s0 ?n s \<and> pp = Backup (bk_file_name q) \<and> safe_file_name (bk_file_name q)
             \<and> readable_at env {x} (Backup (bk_file_name q)) s)
          (case kp of (_, pre_restore_path) \<Rightarrow>
             mbind (write_journal env (j\<lparr>jn_pre_restore_file := bk_file_name q, jn_phase := PreRestoreBackupVerified\<rparr>)) (\<lambda>_.
               mlift (Ok (j\<lparr>jn_pre_restore_file := bk_file_name q\<rparr>, k, p, pre_restore_path)))) ?F ?R ?R"
      proof (cases kp)
        case (Pair k2 pp)
        show ?thesis
        proof (cases "pp = Backup (bk_file_name q) \<and> safe_file_name (bk_file_name q)")
          case False
          with Pair show ?thesis by (intro tripleI) auto
        next
          case True
          let ?j = "j\<lparr>jn_pre_restore_file := bk_file_name q, jn_phase := PreRestoreBackupVerified\<rparr>"
          have "triple (\<lambda>s. backed_up env x s0 ?n s \<and> readable_at env {x} (Backup (bk_file_name q)) s) (write_journal env ?j)
              (\<lambda>_ s. under_guard env {x} (candidate_items env i s0) (bk_file_name q) ?n s \<and> serving env {x} s) ?R ?R"
            using True by (intro commitment_step law n Y C) simp_all
          moreover have "triple (\<lambda>s. under_guard env {x} (candidate_items env i s0) (bk_file_name q) ?n s \<and> serving env {x} s)
              (mlift (Ok (j\<lparr>jn_pre_restore_file := bk_file_name q\<rparr>, k, p, pp))) ?F ?R ?R"
            using True n p by (intro triple_mlift) simp
          ultimately have "triple (\<lambda>s. backed_up env x s0 ?n s \<and> readable_at env {x} (Backup (bk_file_name q)) s)
              (mbind (write_journal env ?j) (\<lambda>_. mlift (Ok (j\<lparr>jn_pre_restore_file := bk_file_name q\<rparr>, k, p, pp)))) ?F ?R ?R"
            by (rule triple_bind)
          then show ?thesis unfolding Pair prod.case by (rule triple_pre) simp
        qed
      qed
    qed simp
  qed
  have tail: "triple (?D kp) (case kp of (k, p) \<Rightarrow> mbind (write_journal env (j\<lparr>jn_phase := CandidateVerified\<rparr>)) (\<lambda>_.
     mbind (or_abandon env (create_backup env PreRestore who)) (\<lambda>pre_restore.
     mbind (or_abandon env (download_backup env (bk_id pre_restore))) (\<lambda>(_, pre_restore_path).
     mbind (write_journal env (j\<lparr>jn_pre_restore_file := bk_file_name pre_restore, jn_phase := PreRestoreBackupVerified\<rparr>)) (\<lambda>_.
       mlift (Ok (j\<lparr>jn_pre_restore_file := bk_file_name pre_restore\<rparr>, k, p, pre_restore_path))))))) ?F ?R ?R" for kp j
    using last by (cases kp) simp
  have "triple ?E (prepare_restore env i who) ?F ?R ?R"
    unfolding prepare_restore_def Let_def
    apply (rule triple_bind [OF quiet], rule touches_intros)
    apply (rule triple_bind [OF quiet], rule touches_intros)
    apply (rule triple_bind [OF quiet], rule touches_intros)
    apply (rule triple_bind [OF quiet], rule touches_intros)
    apply (rule triple_bind [OF wj], simp add: ph)
    apply (rule triple_bind [OF first])
    apply (rule tail)
    done
  then show ?thesis by (rule triple_pre) (rule init)
qed

section \<open>The whole restore\<close>

lemma control_update [simp]:
  fixes s :: "('m, 's, 'x) restore_site_scheme"
  shows "file_at (s\<lparr>rx_control := c\<rparr>) p = file_at s p" "live_view env (s\<lparr>rx_control := c\<rparr>) = live_view env s"
    "recoverable env Y (s\<lparr>rx_control := c\<rparr>) = recoverable env Y s"
    "settled_state env Z Y (s\<lparr>rx_control := c\<rparr>) = settled_state env Z Y s"
proof -
  show f: "file_at (s\<lparr>rx_control := c\<rparr>) p = file_at s p" for p by (simp add: file_at_def)
  then have l: "live_items env (s\<lparr>rx_control := c\<rparr>) = live_items env s"
    "live_view env (s\<lparr>rx_control := c\<rparr>) = live_view env s"
    by (intro live_items_cong live_view_cong; simp)+
  then show "live_view env (s\<lparr>rx_control := c\<rparr>) = live_view env s" by simp
  show r: "recoverable env Y (s\<lparr>rx_control := c\<rparr>) = recoverable env Y s"
    unfolding recoverable_def readable_at_def live_in_def f l ..
  show "settled_state env Z Y (s\<lparr>rx_control := c\<rparr>) = settled_state env Z Y s"
    by (simp add: settled_state_def r serving_def live_in_def l f)
qed

lemma others_commit_step:
  fixes E X :: "'x storage_scheme \<Rightarrow> bool"
  assumes "safe_file_name f" and "safe_file_name n"
  shows "triple (\<lambda>s. under_guard env Yp Yc f n s \<and> serving env Y s) (others_commit env)
     (\<lambda>_ s. under_guard env Yp Yc f n s \<and> poised s) E X"
proof (rule tripleI)
  fix s s' :: "'x storage_scheme" and r assume p: "under_guard env Yp Yc f n s \<and> serving env Y s" and e: "others_commit env s = (r, s')"
  have t: "changes {LiveLog} s s'" and o: "fs_open s' = fs_open s" and r: "r = Ok ()"
    using e by (auto simp: others_commit_def Let_def changes_def split: option.splits if_splits)
  have "under_guard env Yp Yc f n s'" using guarded_changes [OF conjunct1 [OF p] t] by simp
  moreover have "poised s'" using t o p serving_poised [of env Y s] by (simp add: poised_def changes_def serving_def)
  ultimately show "after r (\<lambda>_ s. under_guard env Yp Yc f n s \<and> poised s) E X s'" by (simp add: r)
qed

lemma holding_step:
  fixes m :: "('m, 's, 'x, 'a) restoring"
  assumes "triple P m Q E X" and "\<And>x s c. Q x s \<Longrightarrow> Q x (s\<lparr>rx_control := c\<rparr>)"
    and "\<And>s c. E s \<Longrightarrow> E (s\<lparr>rx_control := c\<rparr>)" and "\<And>s c. X s \<Longrightarrow> X (s\<lparr>rx_control := c\<rparr>)"
  shows "triple P (holding_workloads m) Q E X"
proof (rule tripleI)
  fix s r s' assume P: "P s" and h: "holding_workloads m s = (r, s')"
  obtain s1 where m: "m s = (r, s1)" "s' = s1\<lparr>rx_control := release_maintenance (rx_control s1)\<rparr>"
    using h by (auto simp: holding_workloads_def split: prod.splits)
  show "after r Q E X s'"
    using tripleD [OF assms(1) P m(1)] assms(2-4) m(2) by (auto simp: after_def split: sum.splits failure.splits)
qed

lemma quiesce_step:
  fixes env :: "('m, 's, 'z) restore_env_scheme" and m :: "('m, 's, 'a) controlled"
  assumes "safe_file_name f"
  shows "triple (\<lambda>s. under_guard env {x} C f n s \<and> serving env {x} s)
     (or_abandon env (on_workloads env m) :: ('m, 's, 'x, 'a) restoring)
     (\<lambda>_ s. under_guard env {x} C f n s \<and> serving env {x} s) (recoverable env ({x} \<union> C)) (recoverable env ({x} \<union> C))"
proof -
  let ?S = "\<lambda>s. under_guard env {x} C f n s \<and> serving env {x} s" and ?R = "recoverable env ({x} \<union> C)"
    and ?D = "settled_state env {x} ({x} \<union> C)"
  have D: "?S s \<Longrightarrow> ?D s" for s by (intro guarded_settled [of env "{x}" C f n s "{x}"] assms) auto
  show ?thesis
    unfolding or_abandon_def
  proof (rule triple_bind [OF triple_attempt [where Q = "\<lambda>r s. ?S s"]])
    show "triple ?S (on_workloads env m) (\<lambda>_. ?S) (\<lambda>s. \<forall>e. ?S s) ?R"
      by (rule triple_conseq [OF guarded_workloads]) (auto dest: guarded_recoverable)
  next
    fix r :: "backup_error + 'a"
    show "triple ?S (case r of Inr x \<Rightarrow> mlift (Ok x) | Inl e \<Rightarrow> mbind (remove_journal env) (\<lambda>_. mlift (Err e))) (\<lambda>_. ?S) ?R ?R"
    proof (cases r)
      case (Inl e)
      have "triple ?D (remove_journal env) (\<lambda>_. ?D) ?R ?R"
        by (rule triple_conseq [OF triple_ensures [OF settled_remove]]) (auto dest: settled_recoverable)
      moreover have "triple ?D (mlift (Err e)) (\<lambda>_. ?S) ?R ?R"
        by (rule triple_mlift) (simp add: settled_recoverable)
      ultimately have "triple ?D (mbind (remove_journal env) (\<lambda>_. mlift (Err e))) (\<lambda>_. ?S) ?R ?R" by (rule triple_bind)
      then show ?thesis unfolding Inl sum.case by (rule triple_pre) (rule D)
    qed (auto intro: triple_mlift)
  qed
qed

lemma restore_step:
  fixes s0 :: "('m, 's, 'x) restore_site_scheme" and env :: "('m, 's, 'z) restore_env_scheme" and i :: ustring
  assumes fresh: "fresh_ids env s0" and d: "live_view env s0 = Some d" and x: "x = item_data (ld_items d)"
    and law: "\<And>j. re_parse_journal env (re_journal_bytes env j) = Some j" and closes: "closes_cleanly env"
  defines "C \<equiv> candidate_items env i s0"
  shows "triple (\<lambda>s. s = s0 \<and> fs_open s \<and> file_at s journal_file = None) (restore env i confirmation who fault)
     (\<lambda>out s. settled_state env C ({x} \<union> C) s) (recoverable env ({x} \<union> C)) (recoverable env ({x} \<union> C))"
proof (cases "confirmation = restore_confirmation")
  case False
  have "recoverable env ({x} \<union> C) s0" if "file_at s0 journal_file = None"
    using d x that by (auto simp: recoverable_def live_in_def live_items_def)
  with False show ?thesis by (auto simp: restore_def intro!: triple_mlift)
next
  case True
  let ?R = "recoverable env ({x} \<union> C)"
  have rest: "triple (case p of (j, candidate, cp, pp) \<Rightarrow> \<lambda>s. \<exists>f n. cp = Backup n \<and> pp = Backup f \<and> safe_file_name f \<and> safe_file_name n
        \<and> jn_pre_restore_file j = f \<and> under_guard env {x} C f n s \<and> serving env {x} s)
     (case p of (j, candidate, cp, pp) \<Rightarrow>
        mbind (or_abandon env (on_workloads env (quiesce_for_maintenance (re_control env)))) (\<lambda>_.
        mbind (others_commit env) (\<lambda>_.
          holding_workloads (exchange env fault cp pp j (bk_id candidate) who))))
     (\<lambda>out s. settled_state env C ({x} \<union> C) s) ?R ?R" for p
  proof (cases p)
    case (fields j candidate cp pp)
    show ?thesis
    proof (cases "\<exists>f n. cp = Backup n \<and> pp = Backup f \<and> safe_file_name f \<and> safe_file_name n \<and> jn_pre_restore_file j = f")
      case False
      with fields show ?thesis by (intro tripleI) auto
    next
      case True
      then obtain f n where p: "cp = Backup n" "pp = Backup f" "safe_file_name f" "safe_file_name n" "jn_pre_restore_file j = f" by blast
      then have ok: "exchange_ok env f n j" using law closes by (simp add: exchange_ok_def)
      have h: "triple (\<lambda>s. under_guard env {x} C f n s \<and> poised s)
          (holding_workloads (exchange env fault (Backup n) (Backup f) j (bk_id candidate) who))
          (\<lambda>out s. settled_state env C ({x} \<union> C) s) ?R ?R"
        by (rule holding_step [OF exchange_step [OF ok]]) simp_all
      have "triple (\<lambda>s. under_guard env {x} C f n s \<and> serving env {x} s)
         (mbind (or_abandon env (on_workloads env (quiesce_for_maintenance (re_control env)))) (\<lambda>_.
          mbind (others_commit env) (\<lambda>_.
            holding_workloads (exchange env fault cp pp j (bk_id candidate) who))))
         (\<lambda>out s. settled_state env C ({x} \<union> C) s) ?R ?R"
        unfolding p(1,2)
        by (rule triple_bind [OF quiesce_step [OF p(3)]], rule triple_bind [OF others_commit_step [OF p(3,4)] h])
      then show ?thesis unfolding fields prod.case by (rule triple_pre) (use p in auto)
    qed
  qed
  have "triple (\<lambda>s. s = s0 \<and> fs_open s \<and> file_at s journal_file = None)
     (mbind (prepare_restore env i who) (\<lambda>(j, candidate, cp, pp).
        mbind (or_abandon env (on_workloads env (quiesce_for_maintenance (re_control env)))) (\<lambda>_.
        mbind (others_commit env) (\<lambda>_.
          holding_workloads (exchange env fault cp pp j (bk_id candidate) who)))))
     (\<lambda>out s. settled_state env C ({x} \<union> C) s) ?R ?R"
    by (rule triple_bind [OF prepare_step [OF fresh d x law] rest [unfolded C_def], folded C_def]) simp
  with True show ?thesis by (simp add: restore_def)
qed

end
