(* ===== verification/RestoreDemo.thy ===== *)
theory RestoreDemo
  imports RestoreGuarantees Lifecycle "HOL-Library.Code_Target_Nat"
begin

text \<open>
  A concrete run for the claims about the restore: a live database and a backup of other items, SQLite
  and the codecs as functions that can be computed, a restore that succeeds and one whose process
  dies right after the live file was replaced.
\<close>

fun phase_code :: "restore_phase \<Rightarrow> nat" where
  "phase_code Requested = 0"
| "phase_code CandidateVerified = 1"
| "phase_code PreRestoreBackupVerified = 2"
| "phase_code WorkloadsQuiesced = 3"
| "phase_code LiveReplaced = 4"
| "phase_code ReplacementVerified = 5"
| "phase_code WorkloadsRestarted = 6"
| "phase_code Succeeded = 7"
| "phase_code RollbackStarted = 8"
| "phase_code PreRestoreReinstalled = 9"
| "phase_code RollbackVerified = 10"
| "phase_code WorkloadsRestartedOrHeld = 11"
| "phase_code FailedPhase = 12"

definition all_phases :: "restore_phase list" where
  "all_phases = [Requested, CandidateVerified, PreRestoreBackupVerified, WorkloadsQuiesced, LiveReplaced, ReplacementVerified,
     WorkloadsRestarted, Succeeded, RollbackStarted, PreRestoreReinstalled, RollbackVerified, WorkloadsRestartedOrHeld, FailedPhase]"

definition demo_journal_bytes :: "restore_journal \<Rightarrow> bytes" where
  "demo_journal_bytes j = phase_code (jn_phase j) # length (jn_operation_id j) # length (jn_candidate_file j)
     # jn_operation_id j @ jn_candidate_file j @ jn_pre_restore_file j"

fun demo_parse_journal :: "bytes \<Rightarrow> restore_journal option" where
  "demo_parse_journal (p # m # n # b) =
     map_option (\<lambda>phase. \<lparr>jn_operation_id = take m b, jn_phase = phase, jn_candidate_file = take n (drop m b),
       jn_pre_restore_file = drop n (drop m b)\<rparr>) (find (\<lambda>x. phase_code x = p) all_phases)"
| "demo_parse_journal _ = None"

lemma demo_journal_codec: "demo_parse_journal (demo_journal_bytes j) = Some j"
proof -
  have "find (\<lambda>x. phase_code x = phase_code (jn_phase j)) all_phases = Some (jn_phase j)"
    by (cases "jn_phase j") (simp_all add: all_phases_def)
  then show ?thesis by (simp add: demo_journal_bytes_def)
qed

definition demo_digest :: "int \<Rightarrow> ustring" where "demo_digest v = [100]"

definition demo_page :: "nat \<Rightarrow> bytes" where "demo_page k = sqlite_header @ [16, 0, k]"

definition demo_manifest :: "nat \<Rightarrow> backup_source \<Rightarrow> backup_manifest" where
  "demo_manifest k source =
     \<lparr>bm_id = [97 + k], bm_file_name = database_file_name [97 + k], bm_source = source, bm_sha256 = replicate 64 97,
      bm_size_bytes = 19, bm_schema_version = 2, bm_created_at = [116], bm_verified_at = [116], bm_created_by = [117],
      bm_details = JObj []\<rparr>"

definition demo_actor :: admin_actor where "demo_actor = \<lparr>aa_actor_id = [117], aa_request_id = None\<rparr>"

abbreviation demo_system :: ustring where "demo_system \<equiv> [115, 121, 115, 116, 101, 109]"

definition demo_setting :: "ustring \<Rightarrow> int \<Rightarrow> setting_row" where
  "demo_setting key v = \<lparr>st_key = key, st_value = JNum v, st_version = 1, st_updated_at = 0, st_updated_by = demo_system\<rparr>"

definition demo_adapter :: "ustring \<Rightarrow> adapter_row" where
  "demo_adapter name = \<lparr>ar_name = name, ar_enabled = 0, ar_config = EmptyObject, ar_version = 1, ar_updated_at = 0,
     ar_updated_by = demo_system\<rparr>"

definition demo_seeded_admin :: admin_db where
  "demo_seeded_admin = \<lparr>setting_table =
     [demo_setting [115, 99, 104, 101, 100, 117, 108, 101, 114, 46, 112, 111, 108, 108, 95, 105, 110, 116, 101, 114, 118, 97, 108, 95, 115, 101, 99,
        111, 110, 100, 115] 30,
      demo_setting [115, 99, 104, 101, 100, 117, 108, 101, 114, 46, 108, 101, 97, 115, 101, 95, 115, 101, 99, 111, 110, 100, 115] 90,
      demo_setting [97, 100, 97, 112, 116, 101, 114, 115, 46, 116, 105, 109, 101, 111, 117, 116, 95, 115, 101, 99, 111, 110, 100, 115] 5,
      demo_setting [97, 100, 97, 112, 116, 101, 114, 115, 46, 109, 97, 120, 95, 99, 111, 110, 99, 117, 114, 114, 101, 110, 99, 121] 8,
      demo_setting [114, 101, 99, 117, 114, 114, 101, 110, 99, 101, 46, 109, 97, 120, 95, 99, 97, 116, 99, 104, 95, 117, 112, 95, 111, 99, 99, 117,
        114, 114, 101, 110, 99, 101, 115] 10,
      demo_setting [114, 101, 109, 105, 110, 100, 105, 46, 100, 101, 102, 97, 117, 108, 116, 95, 111, 118, 101, 114, 100, 117, 101, 95, 115, 101, 99,
        111, 110, 100, 115] 0,
      demo_setting [114, 101, 109, 105, 110, 100, 105, 46, 109, 97, 120, 95, 115, 110, 111, 111, 122, 101, 95, 115, 101, 99, 111, 110, 100, 115]
        31536000,
      demo_setting [105, 100, 101, 109, 112, 111, 116, 101, 110, 99, 121, 46, 114, 101, 116, 101, 110, 116, 105, 111, 110, 95, 100, 97, 121, 115] 30,
      demo_setting [98, 97, 99, 107, 117, 112, 115, 46, 105, 110, 116, 101, 114, 118, 97, 108, 95, 115, 101, 99, 111, 110, 100, 115] 86400,
      demo_setting [98, 97, 99, 107, 117, 112, 115, 46, 114, 101, 116, 101, 110, 116, 105, 111, 110, 95, 99, 111, 117, 110, 116] 14,
      demo_setting [98, 97, 99, 107, 117, 112, 115, 46, 117, 112, 108, 111, 97, 100, 95, 109, 97, 120, 95, 98, 121, 116, 101, 115] 1073741824],
     adapter_table =
     [demo_adapter [111, 98, 115, 101, 114, 118, 97, 116, 105, 111, 110, 95, 119, 105, 110, 100, 111, 119, 95, 101, 110, 100, 101, 100],
      demo_adapter [104, 116, 116, 112, 95, 104, 101, 97, 108, 116, 104],
      demo_adapter [116, 99, 112, 95, 114, 101, 97, 99, 104, 97, 98, 108, 101],
      demo_adapter [102, 105, 108, 101, 95, 101, 120, 105, 115, 116, 115]],
     admin_event_table = [], admin_last_sequence = 0\<rparr>"

definition demo_runtime :: "string \<Rightarrow> runtime_row" where
  "demo_runtime c = \<lparr>t_component = c, t_desired_state = ''running'', t_version = 1, t_updated_at = 0, t_updated_by = demo_system\<rparr>"

definition demo_small_admin :: admin_db where
  "demo_small_admin = \<lparr>setting_table = [demo_setting retention_key 14], adapter_table = [], admin_event_table = [],
     admin_last_sequence = 0\<rparr>"

definition demo_rows :: "backup_row list" where
  "demo_rows = [row_of_manifest (demo_manifest 0 Manual), row_of_manifest (demo_manifest 2 PreRestore)]"

definition demo_holding :: "int \<Rightarrow> backup_row list \<Rightarrow> live_db" where
  "demo_holding n rows =
     \<lparr>ld_scripts = [1, 2], ld_migrations = map (\<lambda>m. (fst m, migration_identity demo_digest m)) migrations,
      ld_items = \<lparr>remindi_table = [], link_table = [], event_table = [], last_sequence = n, evidence_table = [],
        idempotency_table = [], lease_table = [], runtime_table = [demo_runtime ''mcp'', demo_runtime ''scheduler'']\<rparr>,
      ld_admin = (if n = 5 then demo_small_admin else demo_seeded_admin), ld_backups = rows\<rparr>"

definition demo_logged :: "string \<Rightarrow> json \<Rightarrow> uuid \<Rightarrow> live_db \<Rightarrow> live_db" where
  "demo_logged kind dets i d =
     d\<lparr>ld_admin := insert_event (admin_event_of (ld_admin d) kind demo_actor ''succeeded'' dets i 0) (ld_admin d)\<rparr>"

definition demo_contents :: "nat \<Rightarrow> live_db option" where
  "demo_contents k =
     (if k = 0 then Some (demo_holding 5 (take 1 demo_rows))
      else if k = 1 then Some (demo_logged ''backup_created'' (backup_details [99]) 3 (demo_holding 5 demo_rows))
      else if k = 2 then Some (demo_holding 7 [])
      else if k = 3 then Some (demo_holding 7 (take 1 demo_rows))
      else if k = 4 then Some (demo_holding 7 demo_rows)
      else if k = 5 then Some (demo_logged ''restore_succeeded'' (restore_details [97] [98]) 4 (demo_holding 7 demo_rows))
      else None)"

definition demo_index :: "live_db \<Rightarrow> nat" where
  "demo_index d = (if last_sequence (ld_items d) = 5 then length (ld_backups d) - 1
     else 2 + length (ld_backups d) + length (admin_event_table (ld_admin d)))"

definition demo_read :: "bytes \<Rightarrow> bytes option \<Rightarrow> live_db option" where
  "demo_read b l = (if length b = 19 then demo_contents (case l of Some [k] \<Rightarrow> k | _ \<Rightarrow> last b) else None)"

definition demo_flush :: "bytes \<Rightarrow> bytes option \<Rightarrow> bytes" where
  "demo_flush b l = (if length b = 19 then demo_page (case l of Some [k] \<Rightarrow> k | _ \<Rightarrow> last b) else b)"

lemma demo_flush: "demo_read (demo_flush b l) None = demo_read b l"
  by (auto simp: demo_read_def demo_flush_def demo_page_def sqlite_header_def split: option.splits list.splits)

text \<open>The calls proceed, but the process dies in the one with the given number, which takes effect.\<close>

definition demo_fate :: "nat \<Rightarrow> nat \<Rightarrow> fate" where
  "demo_fate n = (\<lambda>k. if k = n then Dies True else Proceeds)"

definition demo_backup_env :: "nat \<Rightarrow> (bool, scheduler_workload) restore_env" where
  "demo_backup_env n =
     \<lparr>ev_fate = demo_fate n, ev_debris = (\<lambda>_. []), ev_keeps_log = (\<lambda>_. False), ev_now = (\<lambda>_. 0), ev_ids = (\<lambda>n. n + 1),
      sq_read = demo_read, sq_integrity = (\<lambda>_ _. ''ok''), sq_quick = (\<lambda>_ _. ''ok''),
      sq_vacuum = (\<lambda>d. demo_page (demo_index d)), sq_log = (\<lambda>_ _ d. [demo_index d]), sq_flush = demo_flush,
      sq_empty = [], sq_now = (\<lambda>_. 0), sq_digest = demo_digest, sq_object_text = (\<lambda>_. False),
      ev_owner = [111], ev_sha256 = (\<lambda>_. replicate 64 97), ev_uuid_text = (\<lambda>i. [97 + i]), ev_is_uuid = (\<lambda>_. True),
      ev_time_text = (\<lambda>_. [116]), ev_manifest_bytes = (\<lambda>m. [if bm_source m = Manual then 0 else 1]),
      ev_parse_manifest = (\<lambda>b. Some (if b = [0] then demo_manifest 0 Manual else demo_manifest 2 PreRestore)),
      ev_json_len = (\<lambda>_. 2),
      re_journal_bytes = demo_journal_bytes, re_parse_journal = demo_parse_journal, re_meanwhile = (\<lambda>d. d),
      re_control = demo_service\<rparr>"

definition demo_name :: "nat \<Rightarrow> ustring" where
  "demo_name k = [114, 101, 109, 105, 110, 100, 105, 45, 97 + k, 46, 115, 113, 108, 105, 116, 101, 51]"

definition demo_manifest_name :: "nat \<Rightarrow> ustring" where
  "demo_manifest_name k = demo_name k @ [46, 106, 115, 111, 110]"

definition demo_disk :: "(bool, scheduler_workload) restore_site" where
  "demo_disk =
     \<lparr>fs_disk = [(LiveFile, demo_page 0), (Backup (demo_name 0), demo_page 2), (Backup (demo_manifest_name 0), [0])],
      fs_open = True, fs_step = 0, fs_clock = 0, fs_ids = 0, rx_control = demo_control\<rparr>"

text \<open>The journal of the demo restore, and the disk in the course of it.\<close>

definition demo_journal :: "restore_phase \<Rightarrow> restore_journal" where
  "demo_journal p = \<lparr>jn_operation_id = [98], jn_phase = p, jn_candidate_file = demo_name 0, jn_pre_restore_file = demo_name 2\<rparr>"

definition demo_files :: "restore_phase \<Rightarrow> nat \<Rightarrow> (file_path \<times> bytes) list \<Rightarrow> (file_path \<times> bytes) list" where
  "demo_files p m rest =
     [(LiveFile, demo_page m), (Backup (demo_name 0), demo_page 2), (Backup (demo_manifest_name 0), [0]),
      (journal_file, demo_journal_bytes (demo_journal p)), (Backup (demo_name 2), demo_page 0),
      (Backup (demo_manifest_name 2), [1])] @ rest"

definition demo_at ::
  "(file_path \<times> bytes) list \<Rightarrow> bool \<Rightarrow> nat \<times> nat \<times> nat \<Rightarrow> (bool, scheduler_workload) control
     \<Rightarrow> (bool, scheduler_workload) restore_site" where
  "demo_at files is_open counters c =
     \<lparr>fs_disk = files, fs_open = is_open, fs_step = fst counters, fs_clock = fst (snd counters), fs_ids = snd (snd counters),
      rx_control = c\<rparr>"

definition demo_prepared :: "(bool, scheduler_workload) restore_site" where
  "demo_prepared = demo_at (demo_files PreRestoreBackupVerified 0 [(LiveLog, [1])]) True (55, 5, 3) demo_control"

definition demo_stopped :: "(bool, scheduler_workload) control" where
  "demo_stopped = snd (quiesce_for_maintenance demo_service demo_control)"

definition demo_quiesced :: "(bool, scheduler_workload) restore_site" where
  "demo_quiesced = demo_at (demo_files PreRestoreBackupVerified 0 [(LiveLog, [1])]) True (55, 5, 3) demo_stopped"

definition demo_torn :: "(bool, scheduler_workload) restore_site" where
  "demo_torn = demo_at (demo_files WorkloadsQuiesced 2 []) False (68, 5, 3) demo_stopped"

definition demo_crashed :: "(bool, scheduler_workload) restore_site" where
  "demo_crashed = demo_at (demo_files WorkloadsQuiesced 2 []) False (68, 5, 3) (release_maintenance demo_stopped)"

definition demo_exchanged :: "(bool, scheduler_workload) restore_site" where
  "demo_exchanged = demo_at (demo_files ReplacementVerified 2 [(LiveLog, [2])]) True (89, 5, 3) demo_stopped"

definition demo_reconciled :: "(bool, scheduler_workload) restore_site" where
  "demo_reconciled = demo_at (demo_files ReplacementVerified 2 [(LiveLog, [4])]) True (115, 7, 3) demo_stopped"

definition demo_restarted :: "(bool, scheduler_workload) restore_site" where
  "demo_restarted = demo_at (demo_files ReplacementVerified 2 [(LiveLog, [4])]) True (115, 7, 3)
     (snd (restart_from_persisted demo_service demo_stopped))"

definition demo_ready_for :: "restore_journal \<times> backup_record \<times> file_path \<times> file_path" where
  "demo_ready_for = (demo_journal Requested, record_of_manifest (demo_manifest 0 Manual), Backup (demo_name 0), Backup (demo_name 2))"

section \<open>The run\<close>

text \<open>Call by call; the two runs differ after the workloads have stopped.\<close>

lemma demo_prepares:
  "prepare_restore (demo_backup_env 1000) [97] demo_actor demo_disk = (Ok demo_ready_for, demo_prepared)"
  by code_simp

lemma demo_prepares_torn:
  "prepare_restore (demo_backup_env 67) [97] demo_actor demo_disk = (Ok demo_ready_for, demo_prepared)"
  by code_simp

lemma demo_restore_quiesces:
  "or_abandon (demo_backup_env n) (on_workloads (demo_backup_env n) (quiesce_for_maintenance demo_service)) demo_prepared
     = (Ok (), demo_quiesced)"
  by code_simp

lemma demo_others: "others_commit (demo_backup_env n) demo_quiesced = (Ok (), demo_quiesced)"
  by code_simp

lemma demo_replaces:
  "replace_live (demo_backup_env 1000) NoFault (Backup (demo_name 0)) (demo_journal Requested) demo_quiesced = (Ok (), demo_exchanged)"
  by code_simp

lemma demo_tears:
  "replace_live (demo_backup_env 67) NoFault (Backup (demo_name 0)) (demo_journal Requested) demo_quiesced = (Inl Diverge, demo_torn)"
  by code_simp

lemma demo_reconciles: "reconcile (demo_backup_env 1000) demo_exchanged = (Ok 2, demo_reconciled)"
  by code_simp

lemma demo_restarts:
  "case on_workloads (demo_backup_env 1000) (restart_from_persisted demo_service) demo_reconciled of
     (Inr _, s) \<Rightarrow> s = demo_restarted | _ \<Rightarrow> False"
  by code_simp

lemma demo_completes:
  "case complete_restore (demo_backup_env 1000) (demo_journal Requested) [97] demo_actor demo_restarted of
     (Inr _, s) \<Rightarrow> file_at s LiveFile = Some (demo_page 2) \<and> file_at s LiveLog = Some [5] | _ \<Rightarrow> False"
  by code_simp

lemma demo_recovers:
  "case recover_interrupted (demo_backup_env 67) 0 (demo_crashed\<lparr>fs_open := False\<rparr>) of
     (Inr changed, s) \<Rightarrow> changed \<and> file_at s LiveFile = Some (demo_page 0) \<and> file_at s journal_file = None | _ \<Rightarrow> False"
  by code_simp

end
