(* ===== verification/RestoreClaims.thy ===== *)
theory RestoreClaims
  imports RestoreDemo
begin

text \<open>
  The claims about backups and the restore, over the outcome logic of the steps, with the demo run as
  the input of their witnesses.
\<close>

section \<open>The demo run as a whole\<close>

lemma demo_env_fields [simp]:
  "re_control (demo_backup_env n) = demo_service" "re_parse_journal (demo_backup_env n) = demo_parse_journal"
  "re_journal_bytes (demo_backup_env n) = demo_journal_bytes" "sq_read (demo_backup_env n) = demo_read"
  "sq_flush (demo_backup_env n) = demo_flush" "ev_keeps_log (demo_backup_env n) = (\<lambda>_. False)"
  "ev_uuid_text (demo_backup_env n) = (\<lambda>i. [97 + i])" "ev_ids (demo_backup_env n) = (\<lambda>k. k + 1)"
  by (simp_all add: demo_backup_env_def)

lemma demo_start:
  "live_view (demo_backup_env n) demo_disk = Some (demo_holding 5 (take 1 demo_rows))" "fs_open demo_disk"
  "file_at demo_disk journal_file = None" "fs_ids demo_disk = 0"
  by code_simp+

lemma demo_fresh: "fresh_ids (demo_backup_env n) demo_disk"
  by (simp add: fresh_ids_def demo_start demo_holding_def demo_rows_def row_of_manifest_def demo_manifest_def
      database_file_name_def)

lemma demo_closes: "closes_cleanly (demo_backup_env n)"
  by (simp add: closes_cleanly_def demo_flush)

lemma demo_crashes:
  "restore (demo_backup_env 67) [97] restore_confirmation demo_actor NoFault demo_disk = (Inl Diverge, demo_crashed)"
proof -
  have "exchange (demo_backup_env 67) NoFault (Backup (demo_name 0)) (Backup (demo_name 2)) (demo_journal Requested) [97] demo_actor
      demo_quiesced = (Inl Diverge, demo_torn)"
    by (simp add: exchange_def mbind_def attempt_def demo_tears)
  moreover have "demo_torn\<lparr>rx_control := release_maintenance (rx_control demo_torn)\<rparr> = demo_crashed"
    by (simp add: demo_torn_def demo_crashed_def demo_at_def)
  ultimately show ?thesis
    by (simp add: restore_def mbind_def demo_prepares_torn demo_ready_for_def demo_restore_quiesces demo_others holding_workloads_def
        record_of_manifest_def demo_manifest_def)
qed

lemma demo_succeeds:
  "\<exists>out s. restore (demo_backup_env 1000) [97] restore_confirmation demo_actor NoFault demo_disk = (Ok out, s)
     \<and> file_at s LiveFile = Some (demo_page 2)"
proof -
  obtain out s where c: "complete_restore (demo_backup_env 1000) (demo_journal Requested) [97] demo_actor demo_restarted = (Inr out, s)"
    "file_at s LiveFile = Some (demo_page 2)"
    using demo_completes by (auto split: prod.splits sum.splits)
  obtain d where r: "on_workloads (demo_backup_env 1000) (restart_from_persisted demo_service) demo_reconciled = (Inr d, demo_restarted)"
    using demo_restarts by (auto split: prod.splits sum.splits)
  have "exchange (demo_backup_env 1000) NoFault (Backup (demo_name 0)) (Backup (demo_name 2)) (demo_journal Requested) [97] demo_actor
      demo_quiesced = (Ok out, s)"
    by (simp add: exchange_def mbind_def attempt_def demo_replaces demo_reconciles r c(1))
  then have "restore (demo_backup_env 1000) [97] restore_confirmation demo_actor NoFault demo_disk
      = (Ok out, s\<lparr>rx_control := release_maintenance (rx_control s)\<rparr>)"
    by (simp add: restore_def mbind_def demo_prepares demo_ready_for_def demo_restore_quiesces demo_others holding_workloads_def
        record_of_manifest_def demo_manifest_def)
  with c(2) show ?thesis by simp
qed

section \<open>The restore\<close>

text \<open>What is needed of a start: an open live database, no journal, and identifiers that are new.\<close>

definition restorable where
  "restorable env d s \<longleftrightarrow> live_view env s = Some d \<and> fs_open s \<and> file_at s journal_file = None \<and> fresh_ids env s
     \<and> closes_cleanly env \<and> (\<forall>j. re_parse_journal env (re_journal_bytes env j) = Some j)"

lemma restorable_step:
  assumes "restorable env d s" and "restore env i confirmation who fault s = (r, s')"
  shows "after r (\<lambda>_. settled_state env (candidate_items env i s) ({item_data (ld_items d)} \<union> candidate_items env i s))
    (recoverable env ({item_data (ld_items d)} \<union> candidate_items env i s))
    (recoverable env ({item_data (ld_items d)} \<union> candidate_items env i s)) s'"
proof -
  have a: "fresh_ids env s" "live_view env s = Some d" "closes_cleanly env"
    and law: "\<And>j. re_parse_journal env (re_journal_bytes env j) = Some j"
    and p: "s = s \<and> fs_open s \<and> file_at s journal_file = None"
    using assms(1) by (simp_all add: restorable_def)
  show ?thesis by (rule tripleD [OF restore_step [OF a(1,2) refl law a(3)] p assms(2)])
qed

lemma restorable_recoverable:
  assumes "restorable env d s" and "restore env i confirmation who fault s = (r, s')"
  shows "recoverable env ({item_data (ld_items d)} \<union> candidate_items env i s) s'"
  using restorable_step [OF assms] by (auto simp: after_def settled_state_def split: sum.splits failure.splits)

lemma recoverable_open: "recoverable env Y (s\<lparr>fs_open := b\<rparr>) = recoverable env Y s"
proof -
  have "live_in env Y (s\<lparr>fs_open := b\<rparr>) = live_in env Y s" "readable_at env Y p (s\<lparr>fs_open := b\<rparr>) = readable_at env Y p s" for p
    by (simp_all add: live_in_def readable_at_def)
  then show ?thesis unfolding recoverable_def by (simp only: file_at_updates)
qed



text \<open>
  C11: A restore that reports success has installed the chosen backup: the live database is open and its
  items are those of the backup file.
\<close>

theorem restore_installs:
  assumes "restorable env d s" and "restore env i confirmation who fault s = (Ok out, s1)"
  shows "fs_open s1 \<and> live_in env (candidate_items env i s) s1"
  using restorable_step [OF assms] by (simp add: settled_state_def serving_def)

theorem restore_installs_witness:
  "\<exists>out s1. restore (demo_backup_env 1000) [97] restore_confirmation demo_actor NoFault demo_disk = (Ok out, s1)
     \<and> fs_open s1 \<and> live_in (demo_backup_env 1000) (candidate_items (demo_backup_env 1000) [97] demo_disk) s1"
proof -
  have ok: "restorable (demo_backup_env 1000) (demo_holding 5 (take 1 demo_rows)) demo_disk"
    by (simp add: restorable_def demo_start demo_fresh demo_closes demo_journal_codec)
  from demo_succeeds obtain out s where
    r: "restore (demo_backup_env 1000) [97] restore_confirmation demo_actor NoFault demo_disk = (Ok out, s)" by blast
  from restore_installs [OF ok r] r show ?thesis by blast
qed


lemma demo_crashed_recoverable: "recoverable (demo_backup_env n) {item_data (ld_items (demo_holding 5 (take 1 demo_rows)))} demo_crashed"
proof -
  have j: "file_at demo_crashed journal_file = Some (demo_journal_bytes (demo_journal WorkloadsQuiesced))"
    and f: "file_at demo_crashed (Backup (demo_name 2)) = Some (demo_page 0)"
    and d: "demo_read (demo_page 0) None = Some (demo_holding 5 (take 1 demo_rows))" by code_simp+
  have "readable_at (demo_backup_env n) {item_data (ld_items (demo_holding 5 (take 1 demo_rows)))}
      (Backup (jn_pre_restore_file (demo_journal WorkloadsQuiesced))) demo_crashed"
    using f d by (simp add: readable_at_def demo_journal_def)
  with j show ?thesis
    by (simp add: recoverable_def demo_journal_codec settled_phase_def early_phase_def) (simp add: demo_journal_def)
qed

text \<open>The recovery dies after it copied the backup; the next one succeeds.\<close>

lemma demo_recovery_dies:
  "case recover_interrupted (demo_backup_env 74) 0 demo_crashed of (Inl Diverge, s) \<Rightarrow> file_at s LiveFile = Some (demo_page 2) | _ \<Rightarrow> False"
  by code_simp


end
