(* ===== verification/Retention.thy ===== *)
theory Retention
  imports RestoreDemo
begin

text \<open>
  What retention does to the inventory (\<open>BackupManager::apply_retention\<close> of \<open>src/admin/backup.rs\<close>): the
  newest automatic and uploaded backups stay, and no other kind of backup is touched.
\<close>

definition expired_rows :: "ustring set \<Rightarrow> backup_row list \<Rightarrow> backup_row list" where
  "expired_rows ids rows = map (\<lambda>r. if br_id r \<in> ids \<and> br_status r = ''ready'' then r\<lparr>br_status := ''expired''\<rparr> else r) rows"

lemma expired_rows_insert: "expired_rows ids (expired_rows {i} rows) = expired_rows (insert i ids) rows"
  by (simp add: expired_rows_def)

lemma expired_rows_none [simp]: "expired_rows {} rows = rows"
  by (simp add: expired_rows_def)

lemma expire_backup_Inr:
  assumes "expire_backup env who r s = (Inr u, s')" and "live_view env s = Some d"
  shows "\<exists>d'. live_view env s' = Some d' \<and> ld_backups d' = expired_rows {br_id r} (ld_backups d)"
proof -
  from assms(1) obtain e s1 u1 s2 d' s3 u2 s4 u3 s5 where st: "live_query env s = (Inr e, s1)" "statement_call env s1 = (Inr u1, s2)"
    "storage_audit env ''backup_expired'' who ''succeeded'' (backup_details (br_id r)) (expire_row (br_id r) e) s2 = (Inr d', s3)"
    "commit_live env d' s3 = (Inr u2, s4)" "remove_if_exists env (Backup (br_file_name r)) s4 = (Inr u3, s5)"
    "remove_if_exists env (Backup (manifest_name (br_file_name r))) s5 = (Inr u, s')"
    unfolding expire_backup_def mbind_eq_Inr by blast
  from live_query_Inr [OF st(1)] assms(2) have e: "e = d" by simp
  have "live_view env s4 = Some d'" using commit_live_cases(3) [OF st(4)] by simp
  moreover have "touches {Backup (br_file_name r)} s4 s5" by (rule ensuresD [OF touches_remove st(5)]) simp
  moreover have "touches {Backup (manifest_name (br_file_name r))} s5 s'" by (rule ensuresD [OF touches_remove st(6)]) simp
  ultimately have "live_view env s' = Some d'"
    using touches_live_view [of "{Backup (br_file_name r)}" s4 s5 env]
      touches_live_view [of "{Backup (manifest_name (br_file_name r))}" s5 s' env] by simp
  moreover have "ld_backups d' = expired_rows {br_id r} (ld_backups d)"
    using storage_audit_items [OF st(3)] e by (simp add: expire_row_def expired_rows_def)
  ultimately show ?thesis by blast
qed

lemma expire_each_Inr:
  assumes "each (expire_backup env who) rows s = (Inr u, s')" and "live_view env s = Some d"
  shows "\<exists>d'. live_view env s' = Some d' \<and> ld_backups d' = expired_rows (br_id ` set rows) (ld_backups d)"
  using assms
proof (induction rows arbitrary: s d)
  case Nil
  then show ?case by (simp add: mlift_Inr)
next
  case (Cons r rows)
  from Cons.prems(1) obtain v s1 where st: "expire_backup env who r s = (Inr v, s1)" "each (expire_backup env who) rows s1 = (Inr u, s')"
    by (auto simp: mbind_eq_Inr)
  from expire_backup_Inr [OF st(1) Cons.prems(2)] obtain d1 where d1: "live_view env s1 = Some d1"
    "ld_backups d1 = expired_rows {br_id r} (ld_backups d)" by blast
  from Cons.IH [OF st(2) d1(1)] d1(2) show ?case by (simp add: expired_rows_insert)
qed

lemma apply_retention_Inr:
  assumes "apply_retention env who s = (Inr k, s')" and "live_view env s = Some d"
  shows "\<exists>n d'. retention_count d = Some n \<and> live_view env s' = Some d' \<and> k = length (outdated_rows n d)
     \<and> ld_backups d' = expired_rows (br_id ` set (outdated_rows n d)) (ld_backups d)"
proof -
  from assms(1) obtain e s1 n s2 u1 s3 u2 s4 u3 where st: "live_query env s = (Inr e, s1)" "retention_count e = Some n" "s2 = s1"
    "statement_call env s2 = (Inr u1, s3)" "each (expire_backup env who) (outdated_rows n e) s3 = (Inr u2, s4)"
    "(if outdated_rows n e \<noteq> [] then sync_directory env else mlift (Ok ())) s4 = (Inr u3, s')" "k = length (outdated_rows n e)"
    unfolding apply_retention_def Let_def mbind_eq_Inr mlift_Inr ok_or_eq_Inr by blast
  from live_query_Inr [OF st(1)] assms(2) have e: "e = d" and t1: "touches {} s s1" by simp_all
  have t2: "touches {} s2 s3" by (rule ensuresD [OF touches_reading(6) st(4)])
  have "live_view env s3 = Some d" using t1 t2 st(3) assms(2) touches_view_refl [of s s1 env] touches_view_refl [of s2 s3 env] by simp
  from expire_each_Inr [OF st(5) this] e obtain d' where d': "live_view env s4 = Some d'"
    "ld_backups d' = expired_rows (br_id ` set (outdated_rows n d)) (ld_backups d)" by blast
  have "ensures (touches {}) (if outdated_rows n e \<noteq> [] then sync_directory env else mlift (Ok ()))" by (intro touches_intros)
  from ensuresD [OF this st(6)] have "live_view env s' = Some d'" using d'(1) touches_view_refl [of s4 s' env] by simp
  with d'(2) st(2,7) e show ?thesis by blast
qed

lemma retained_rows:
  assumes "distinct (map br_id rows)"
  shows "mset (filter retainable (expired_rows (br_id ` set (drop n (newest_first (filter retainable rows)))) rows))
     = mset (take n (newest_first (filter retainable rows)))"
proof -
  let ?L = "newest_first (filter retainable rows)" and ?ids = "br_id ` set (drop n (newest_first (filter retainable rows)))"
  have m: "mset ?L = mset (filter retainable rows)" by (simp add: newest_first_def)
  have "filter retainable (expired_rows ids rows) = filter (\<lambda>r. br_id r \<notin> ids) (filter retainable rows)" for ids
    by (induction rows) (auto simp: expired_rows_def retainable_def)
  then have "mset (filter retainable (expired_rows ?ids rows)) = mset (filter (\<lambda>r. br_id r \<notin> ?ids) ?L)"
    by (metis m mset_filter)
  also have "filter (\<lambda>r. br_id r \<notin> ?ids) ?L = take n ?L"
  proof -
    have "mset (map br_id ?L) = mset (map br_id (filter retainable rows))" using m by simp
    then have d: "distinct (map br_id ?L)"
      using assms distinct_map_filter [of br_id rows retainable] by (metis mset_eq_imp_distinct_iff)
    have s: "?L = take n ?L @ drop n ?L" by simp
    from d have "distinct (map br_id (take n ?L) @ map br_id (drop n ?L))" by (metis append_take_drop_id map_append)
    then have "\<forall>r \<in> set (take n ?L). br_id r \<notin> ?ids" by auto
    then have "filter (\<lambda>r. br_id r \<notin> ?ids) (take n ?L) = take n ?L" by (simp add: filter_id_conv)
    moreover have "filter (\<lambda>r. br_id r \<notin> ?ids) (drop n ?L) = []" by (auto simp: filter_empty_conv)
    ultimately show ?thesis by (metis s filter_append append_Nil2)
  qed
  finally show ?thesis .
qed


text \<open>One of two uploads is kept, and the manual backup stays.\<close>

definition demo_row :: "nat \<Rightarrow> string \<Rightarrow> backup_row" where
  "demo_row k source = (row_of_manifest (demo_manifest k Upload))\<lparr>br_source := source, br_created_at := [116 + k]\<rparr>"

definition demo_inventory :: "bool \<Rightarrow> live_db" where
  "demo_inventory after_retention =
     (let d = (demo_holding 5 [demo_row 0 ''upload'', demo_row 1 ''manual'', demo_row 2 ''automatic''])
                \<lparr>ld_admin := demo_small_admin\<lparr>setting_table := [demo_setting retention_key 1]\<rparr>\<rparr>
      in if after_retention then demo_logged ''backup_expired'' (backup_details [97]) 1 (expire_row [97] d) else d)"

definition demo_retention_env :: "(bool, scheduler_workload) restore_env" where
  "demo_retention_env = (demo_backup_env 1000)
     \<lparr>sq_read := (\<lambda>_ l. Some (demo_inventory (l \<noteq> None))), sq_log := (\<lambda>_ _ _. [])\<rparr>"

lemma demo_retention: "fst (apply_retention demo_retention_env demo_actor demo_disk) = Ok 1"
  by code_simp


end
