(* ===== verification/WebAdmin.thy ===== *)
theory WebAdmin
  imports SiteGuarantees
begin

text \<open>
  The administration routes of the browser interface, \<open>src/http/api/admin.rs\<close> (settings, adapters,
  workloads and the audit log), over the administration service and the workload controller, and the
  redacted view of the configuration (\<open>AdminService::bootstrap_view\<close> of \<open>src/admin/mod.rs\<close>).
\<close>

section \<open>The site with administration\<close>

type_synonym service_control = "(bool, scheduler_workload) control"

record admin_site = site +
  st_admin :: admin_world
  st_control :: service_control

text \<open>Both services are optional parts of \<open>WebApiState\<close>.\<close>

record admin_routes =
  ax_site :: site_env
  ax_admin :: "admin_env option"
  ax_control :: "(bool, scheduler_workload) control_env option"
  ax_bootstrap :: bootstrap_config

type_synonym ('x, 'a) admin_handler = "('x admin_site_scheme, response, 'a) effect"

definition on_admin :: "'a admin \<Rightarrow> ('x admin_site_scheme, admin_error, 'a) effect" where
  "on_admin m = (\<lambda>s. let (r, w) = m (st_admin s) in (r, s\<lparr>st_admin := w\<rparr>))"

definition on_control ::
  "(service_control, 'e, 'a) effect \<Rightarrow> ('x admin_site_scheme, 'e, 'a) effect" where
  "on_control m = (\<lambda>s. let (r, w) = m (st_control s) in (r, s\<lparr>st_control := w\<rparr>))"

section \<open>Errors\<close>

fun admin_error_response :: "header_map \<Rightarrow> admin_error \<Rightarrow> response" where
  "admin_error_response headers AdminValidation =
     api_error headers 400 ''VALIDATION_ERROR'' ''Administrative input failed validation.'' False None"
| "admin_error_response headers AdminVersionConflict =
     api_error headers 409 ''VERSION_CONFLICT'' ''The expected administrative version is stale.'' True None"
| "admin_error_response headers AdminDatabase =
     api_error headers 500 ''INTERNAL_ERROR'' ''The administrative operation failed.'' False None"

definition unavailable_response :: "header_map \<Rightarrow> response" where
  "unavailable_response headers =
     api_error headers 404 ''NOT_FOUND'' ''The requested resource was not found.'' False None"

definition admin_actor_of :: "admin_routes \<Rightarrow> header_map \<Rightarrow> http_method \<Rightarrow> ('x, admin_actor) admin_handler" where
  "admin_actor_of ax headers method =
     mbind (authorize_mutation (ax_site ax) headers method) (\<lambda>a.
       mlift (map_err (admin_error_response headers) (admin_actor_new (actor_id a) (request_id a))))"

definition available :: "header_map \<Rightarrow> 'a option \<Rightarrow> ('x, 'a) admin_handler" where
  "available headers part = mlift (ok_or (unavailable_response headers) part)"

definition admin_call_route :: "header_map \<Rightarrow> 'a admin \<Rightarrow> ('x, 'a) admin_handler" where
  "admin_call_route headers m = or_else (on_admin m) (admin_error_response headers)"

section \<open>The redacted configuration\<close>

type_synonym setting_view = "string \<times> json option \<times> bool \<times> bool \<times> bool"

definition visible_setting :: "string \<Rightarrow> json \<Rightarrow> setting_view" where
  "visible_setting name v = (name, Some v, True, False, False)"

definition redacted_setting :: "string \<Rightarrow> bool \<Rightarrow> setting_view" where
  "redacted_setting name configured =
     (name, if configured then Some (JStr (lit ''[configured]'')) else None, configured, True, False)"

definition secret_setting :: "string \<Rightarrow> bool \<Rightarrow> setting_view" where
  "secret_setting name configured = (name, None, configured, True, False)"

definition listener_address :: ustring where "listener_address = lit ''0.0.0.0:8000''"

definition bootstrap_view :: "bootstrap_config \<Rightarrow> setting_view list" where
  "bootstrap_view c =
     [redacted_setting ''REMINDI_DB_PATH'' True,
      redacted_setting ''REMINDI_OWNER_ID'' True,
      secret_setting ''REMINDI_MCP_TOKEN'' True,
      redacted_setting ''REMINDI_BACKUP_DIR'' True,
      redacted_setting ''REMINDI_HTTP_ALLOWED_HOSTS'' (bc_allowed_hosts c \<noteq> []),
      redacted_setting ''REMINDI_HTTP_ALLOWED_ORIGINS'' (bc_allowed_origins c \<noteq> []),
      visible_setting ''REMINDI_LOG_LEVEL'' (JStr (bc_log_level c)),
      visible_setting ''REMINDI_LOG_CONTENT'' (JBool (bc_log_content c)),
      visible_setting ''REMINDI_WEBUI_ENABLE'' (JBool (bc_webui_enabled c)),
      visible_setting ''REMINDI_WEBUI_AUTH'' (JBool (bc_webui_auth_enabled c)),
      secret_setting ''REMINDI_WEBUI_USERNAME'' (bc_webui_username c \<noteq> None),
      secret_setting ''REMINDI_WEBUI_PASSWORD'' (bc_webui_password c \<noteq> None),
      visible_setting ''REMINDI_WEBUI_SESSION_TTL_SECONDS'' (JNum (uint (bc_webui_session_ttl_seconds c))),
      visible_setting ''REMINDI_WEBUI_COOKIE_SECURE'' (JBool (bc_webui_cookie_secure c)),
      visible_setting ''REMINDI_WEBUI_TITLE'' (JStr (bc_webui_title c)),
      redacted_setting ''REMINDI_WEBUI_CUSTOM_CSS_FILE'' (bc_webui_custom_css_file c \<noteq> None),
      redacted_setting ''REMINDI_WEBUI_LOGO_FILE'' (bc_webui_logo_file c \<noteq> None),
      redacted_setting ''REMINDI_WEBUI_FAVICON_FILE'' (bc_webui_favicon_file c \<noteq> None),
      visible_setting ''REMINDI_LISTENER_ADDRESS'' (JStr listener_address)]"

section \<open>Routes\<close>

definition bootstrap_route :: "admin_routes \<Rightarrow> header_map \<Rightarrow> ('x, response) admin_handler" where
  "bootstrap_route ax headers =
     mbind (web_actor (ax_site ax) headers) (\<lambda>_.
     mbind (available headers (ax_admin ax)) (\<lambda>_.
       mlift (Ok (success_response headers (BootstrapData (bootstrap_view (ax_bootstrap ax)))))))"

definition settings_route :: "admin_routes \<Rightarrow> header_map \<Rightarrow> ('x, response) admin_handler" where
  "settings_route ax headers =
     mbind (web_actor (ax_site ax) headers) (\<lambda>_.
     mbind (available headers (ax_admin ax)) (\<lambda>env.
     mbind (admin_call_route headers (settings_list env)) (\<lambda>d.
       mlift (Ok (success_response headers (SettingsData d))))))"

text \<open>The value and the version of the body are \<open>i64\<close>.\<close>

definition update_setting_route ::
  "admin_routes \<Rightarrow> header_map \<Rightarrow> ustring \<Rightarrow> int \<Rightarrow> int \<Rightarrow> ('x, response) admin_handler" where
  "update_setting_route ax headers key v expected_version =
     mbind (admin_actor_of ax headers patch_method) (\<lambda>who.
     mbind (available headers (ax_admin ax)) (\<lambda>env.
     mbind (admin_call_route headers (update_runtime_setting env key v expected_version who)) (\<lambda>d.
       mlift (Ok (success_response headers (SettingData d))))))"

definition adapters_route :: "admin_routes \<Rightarrow> header_map \<Rightarrow> ('x, response) admin_handler" where
  "adapters_route ax headers =
     mbind (web_actor (ax_site ax) headers) (\<lambda>_.
     mbind (available headers (ax_admin ax)) (\<lambda>env.
     mbind (admin_call_route headers (adapters_list env)) (\<lambda>d.
       mlift (Ok (success_response headers (AdaptersData d))))))"

definition update_adapter_route ::
  "admin_routes \<Rightarrow> header_map \<Rightarrow> ustring \<Rightarrow> bool \<Rightarrow> adapter_configuration \<Rightarrow> int \<Rightarrow> ('x, response) admin_handler" where
  "update_adapter_route ax headers name enabled configuration expected_version =
     mbind (admin_actor_of ax headers patch_method) (\<lambda>who.
     mbind (available headers (ax_admin ax)) (\<lambda>env.
     mbind (admin_call_route headers (update_adapter env name enabled configuration expected_version who)) (\<lambda>d.
       mlift (Ok (success_response headers (AdapterData d))))))"

text \<open>\<open>WorkloadController::status\<close> has no error.\<close>

definition workload_failed :: "header_map \<Rightarrow> workload_error \<Rightarrow> response" where
  "workload_failed headers e =
     (if e = TransitionConflict
      then api_error headers 409 ''WORKLOAD_CONFLICT'' ''Another workload lifecycle operation is active.'' True None
      else api_error headers 500 ''INTERNAL_ERROR'' ''The workload transition failed.'' False None)"

definition workloads_route :: "admin_routes \<Rightarrow> header_map \<Rightarrow> ('x, response) admin_handler" where
  "workloads_route ax headers =
     mbind (web_actor (ax_site ax) headers) (\<lambda>_.
     mbind (available headers (ax_control ax)) (\<lambda>ce.
     mbind (or_else (on_control (control_status ce)) (workload_failed headers)) (\<lambda>d.
       mlift (Ok (success_response headers (WorkloadsData d))))))"

definition failure_code :: "workload_error + 'a \<Rightarrow> string option" where
  "failure_code result =
     (case result of
        Inr _ \<Rightarrow> None
      | Inl e \<Rightarrow> Some (if e = TransitionConflict then ''WORKLOAD_CONFLICT'' else ''INTERNAL_ERROR''))"

definition transition_route ::
  "admin_routes \<Rightarrow> header_map \<Rightarrow> workload_component \<Rightarrow> workload_action \<Rightarrow> ('x, response) admin_handler" where
  "transition_route ax headers component action =
     mbind (admin_actor_of ax headers post) (\<lambda>who.
     mbind (available headers (ax_admin ax)) (\<lambda>env.
     mbind (available headers (ax_control ax)) (\<lambda>ce.
     mbind (attempt (on_control (control_transition ce component action (aa_actor_id who)))) (\<lambda>result.
     mbind (admin_call_route headers (audit_workload_action env component action who (failure_code result))) (\<lambda>_.
       mlift (case result of
                Inr d \<Rightarrow> Ok (success_response headers (WorkloadsData d))
              | Inl e \<Rightarrow> Err (workload_failed headers e)))))))"

definition admin_events_route ::
  "admin_routes \<Rightarrow> header_map \<Rightarrow> int option \<Rightarrow> 16 word option \<Rightarrow> ('x, response) admin_handler" where
  "admin_events_route ax headers after_sequence limit =
     mbind (web_actor (ax_site ax) headers) (\<lambda>_.
     mbind (available headers (ax_admin ax)) (\<lambda>env.
     mbind (admin_call_route headers
              (audit_list env after_sequence (case limit of None \<Rightarrow> 100 | Some n \<Rightarrow> unat n))) (\<lambda>d.
       mlift (Ok (success_response headers (AdminEventsData d))))))"

definition recently_reauthenticated :: "instant option \<Rightarrow> instant \<Rightarrow> bool" where
  "recently_reauthenticated at now \<longleftrightarrow>
     (case at of None \<Rightarrow> False | Some t \<Rightarrow> t \<le> now \<and> now - t \<le> 5 * 60 * ns_per_sec)"

section \<open>Guarantees\<close>

text \<open>
  The configuration shown to administrators does not depend on the secrets, the paths, the owner or the
  allowed hosts and origins: two configurations that differ only there, and agree on which of the
  optional ones are configured, are shown alike.
\<close>

theorem secrets_not_shown:
  assumes "bc_allowed_hosts c = [] \<longleftrightarrow> hosts = []" and "bc_allowed_origins c = [] \<longleftrightarrow> origins = []"
    and "bc_webui_username c = None \<longleftrightarrow> user = None" and "bc_webui_password c = None \<longleftrightarrow> password = None"
    and "bc_webui_custom_css_file c = None \<longleftrightarrow> css = None" and "bc_webui_logo_file c = None \<longleftrightarrow> logo = None"
    and "bc_webui_favicon_file c = None \<longleftrightarrow> favicon = None"
  shows "bootstrap_view (c\<lparr>bc_database_path := path, bc_owner_id := owner, bc_mcp_token := token,
       bc_backup_directory := backups, bc_allowed_hosts := hosts, bc_allowed_origins := origins,
       bc_webui_username := user, bc_webui_password := password, bc_webui_custom_css_file := css,
       bc_webui_logo_file := logo, bc_webui_favicon_file := favicon\<rparr>) = bootstrap_view c"
  using assms by (auto simp: bootstrap_view_def)

theorem secrets_not_shown_witness:
  "bootstrap_view (demo_config\<lparr>bc_database_path := lit ''/elsewhere'', bc_mcp_token := lit ''another''\<rparr>) = bootstrap_view demo_config"
  using secrets_not_shown [where c = demo_config and hosts = "bc_allowed_hosts demo_config" and origins = "bc_allowed_origins demo_config"
      and user = "bc_webui_username demo_config" and password = "bc_webui_password demo_config"
      and css = "bc_webui_custom_css_file demo_config" and logo = "bc_webui_logo_file demo_config"
      and favicon = "bc_webui_favicon_file demo_config" and path = "lit ''/elsewhere''" and owner = "bc_owner_id demo_config"
      and token = "lit ''another''" and backups = "bc_backup_directory demo_config"]
  by simp

end
