(* ===== verification/AdminGuarantees.thy ===== *)
theory AdminGuarantees
  imports WebAdmin
begin

text \<open>
  What the administration routes guarantee: without an accepted session and its token nothing is
  changed, and a workload is not reported as moved unless the audit log names who moved it.
\<close>

section \<open>Inversion\<close>

lemma on_admin_eq: "on_admin m s = (r, s') \<longleftrightarrow> (\<exists>w. m (st_admin s) = (r, w) \<and> s' = s\<lparr>st_admin := w\<rparr>)"
  by (auto simp: on_admin_def split: prod.splits)

lemma on_control_eq: "on_control m s = (r, s') \<longleftrightarrow> (\<exists>w. m (st_control s) = (r, w) \<and> s' = s\<lparr>st_control := w\<rparr>)"
  by (auto simp: on_control_def split: prod.splits)

lemma attempt_Inr:
  "attempt m s = (Inr v, s') \<longleftrightarrow>
     (\<exists>x. v = Inr x \<and> m s = (Inr x, s')) \<or> (\<exists>e. v = Inl e \<and> m s = (Inl (Fail e), s'))"
  by (auto simp: attempt_def split: prod.splits sum.splits failure.splits)

lemma available_Inr: "available headers part s = (Inr x, s') \<longleftrightarrow> part = Some x \<and> s' = s"
  by (auto simp: available_def mlift_Inr ok_or_def split: option.splits)

text \<open>The services behind the routes, which checking a session leaves alone.\<close>

definition services :: "'x admin_site_scheme \<Rightarrow> world \<times> admin_world \<times> service_control" where
  "services s = (st_world s, st_admin s, st_control s)"

lemma authorize_services:
  assumes "authorize_mutation se headers method s = (r, s')"
  shows "services s' = services s"
proof -
  obtain x w where "web_authenticate (se_policy se) headers (se_now se (st_now s)) (st_web s) = (x, w)" by fastforce
  with assms show ?thesis
    by (auto simp: services_def authorize_mutation_def mbind_def mlift_def current_session_def now_utc_def or_else_def on_web_def
        split: sum.splits)
qed

section \<open>Who may change the configuration\<close>

datatype admin_change =
    ChangeSetting ustring int int
  | ChangeAdapter ustring bool adapter_configuration int
  | ChangeWorkload workload_component workload_action

fun admin_route :: "admin_routes \<Rightarrow> header_map \<Rightarrow> admin_change \<Rightarrow> ('x, response) admin_handler" where
  "admin_route ax headers (ChangeSetting key v expected) = update_setting_route ax headers key v expected"
| "admin_route ax headers (ChangeAdapter name enabled configuration expected) =
     update_adapter_route ax headers name enabled configuration expected"
| "admin_route ax headers (ChangeWorkload component action) = transition_route ax headers component action"

fun admin_method :: "admin_change \<Rightarrow> http_method" where
  "admin_method (ChangeWorkload _ _) = post"
| "admin_method _ = patch_method"

lemma admin_route_authorizes:
  "\<exists>f. admin_route ax headers m = mbind (authorize_mutation (ax_site ax) headers (admin_method m)) f"
  by (cases m) (auto simp: update_setting_route_def update_adapter_route_def transition_route_def admin_actor_of_def mbind_assoc)

text \<open>
  Administration is closed to strangers: a request to change a setting, an adapter or a workload without an accepted
  session, or without the Host, Origin and token that the session asks for, is answered with 401 or
  403, and no service changes: neither the settings, the adapters, the audit log, the workloads nor
  the items.
\<close>

theorem admin_changes_inert:
  fixes s :: "'x admin_site_scheme"
  assumes "\<not> may_act (ax_site ax) headers (admin_method m) s"
  shows "\<exists>r s'. respond (admin_route ax headers m) s = (Ok r, s') \<and> resp_status r \<in> {401, 403} \<and> services s' = services s"
proof -
  obtain f :: "actor \<Rightarrow> ('x, response) admin_handler"
    where f: "admin_route ax headers m = mbind (authorize_mutation (ax_site ax) headers (admin_method m)) f"
    using admin_route_authorizes by blast
  obtain r s' where a: "authorize_mutation (ax_site ax) headers (admin_method m) s = (r, s')" by fastforce
  with assms authorize_may_act obtain e where e: "r = Inl e" by (cases r) blast+
  from authorize_Inl [OF a [unfolded e]] obtain x where x: "e = Fail x" "resp_status x \<in> {401, 403}"
    by (auto simp: unauthenticated_response_def csrf_error_def api_error_def)
  have "respond (admin_route ax headers m) s = (Ok x, s')"
    by (simp add: respond_def f mbind_def a e x(1))
  with x(2) authorize_services [OF a] show ?thesis by blast
qed

definition demo_admin_routes :: admin_routes where
  "demo_admin_routes = \<lparr>ax_site = demo_site_env, ax_admin = Some demo_admin_env, ax_control = Some demo_service,
     ax_bootstrap = demo_config\<rparr>"

definition demo_admin_site :: admin_site where
  "demo_admin_site = \<lparr>st_web = demo_signed_in, st_world = demo_world, st_now = 0, st_admin = fresh_admin_world,
     st_control = demo_control\<rparr>"

theorem admin_changes_inert_witness:
  "\<exists>r s'. respond (admin_route demo_admin_routes [] (ChangeWorkload Mcp StopWorkload)) demo_admin_site = (Ok r, s')
     \<and> resp_status r \<in> {401, 403} \<and> services s' = services demo_admin_site"
proof -
  have "\<not> may_act (ax_site demo_admin_routes) [] (admin_method (ChangeWorkload Mcp StopWorkload)) demo_admin_site"
    by (simp add: may_act_def demo_admin_routes_def demo_site_env_def demo_web_policy_def web_authenticate_def cookie_value_def
        get_all_def)
  from admin_changes_inert [OF this] show ?thesis .
qed

section \<open>Who moved a workload\<close>

definition workload_event :: "workload_action \<Rightarrow> string" where
  "workload_event action =
     (case action of StartWorkload \<Rightarrow> ''workload_started'' | StopWorkload \<Rightarrow> ''workload_stopped''
                   | RestartWorkload \<Rightarrow> ''workload_restarted'')"

lemma audited_action:
  assumes "audit_workload_action env component action who code w = (Inr u, w')"
  shows "logged (workload_event action) who
     (case code of None \<Rightarrow> ''succeeded'' | Some c \<Rightarrow> if c = ''WORKLOAD_CONFLICT'' then ''rejected'' else ''failed'')
     (workload_details component code) (aw_db w) (aw_db w')"
  using audit_append_Inr [OF assms [unfolded audit_workload_action_def]] by (simp add: workload_event_def)

lemma admin_actor_Inr:
  assumes "admin_actor_of ax headers method s = (Inr who, s1)"
  obtains v w where "web_authenticate (se_policy (ax_site ax)) headers (se_now (ax_site ax) (st_now s)) (st_web s) = (Ok v, w)"
    and "aa_actor_id who = sv_actor_id v" and "aa_request_id who = Some (request_id_header headers)"
    and "services s1 = services s"
proof -
  from assms obtain a where a: "authorize_mutation (ax_site ax) headers method s = (Inr a, s1)"
    and n: "admin_actor_new (actor_id a) (request_id a) = Inr who"
    by (auto simp: admin_actor_of_def mbind_eq_Inr mlift_Inr res_simps)
  from a obtain v w where v: "web_authenticate (se_policy (ax_site ax)) headers (se_now (ax_site ax) (st_now s)) (st_web s) = (Ok v, w)"
    "a = user_actor headers v"
    by (auto simp: authorize_Inr)
  from n have "who = \<lparr>aa_actor_id = actor_id a, aa_request_id = request_id a\<rparr>"
    by (auto simp: admin_actor_new_def split: if_splits)
  with v authorize_services [OF a] show thesis by (intro that) (simp_all add: user_actor_def)
qed

text \<open>
  A workload that the interface reports as moved was moved, and the audit log says by whom: a route
  that ends in success has run the transition of the controller to its end and has appended
  exactly one event, which names the action, the component and the user of the session.
\<close>

theorem transitions_audited:
  fixes s :: "'x admin_site_scheme"
  assumes "transition_route ax headers component action s = (Ok r, s')"
  shows "\<exists>v w who env ce d. web_authenticate (se_policy (ax_site ax)) headers (se_now (ax_site ax) (st_now s)) (st_web s) = (Ok v, w)
     \<and> aa_actor_id who = sv_actor_id v \<and> ax_admin ax = Some env \<and> ax_control ax = Some ce
     \<and> control_transition ce component action (sv_actor_id v) (st_control s) = (Ok d, st_control s')
     \<and> r = success_response headers (WorkloadsData d)
     \<and> logged (workload_event action) who ''succeeded'' (workload_details component None)
         (aw_db (st_admin s)) (aw_db (st_admin s'))"
proof -
  from assms obtain who s1 env ce result s2 u s3
    where who: "admin_actor_of ax headers post s = (Inr who, s1)"
      and env: "ax_admin ax = Some env" and ce: "ax_control ax = Some ce"
      and run: "attempt (on_control (control_transition ce component action (aa_actor_id who))) s1 = (Inr result :: (response, _) res, s2)"
      and audit: "admin_call_route headers (audit_workload_action env component action who (failure_code result)) s2 = (Inr u, s3)"
      and ends: "(case result of Inr d \<Rightarrow> Ok (success_response headers (WorkloadsData d)) | Inl e \<Rightarrow> Err (workload_failed headers e)) = Ok r"
      and s': "s' = s3"
    unfolding transition_route_def mbind_eq_Inr mlift_Inr available_Inr by clarify (rule that; (assumption | rule refl))
  from who obtain v w where v: "web_authenticate (se_policy (ax_site ax)) headers (se_now (ax_site ax) (st_now s)) (st_web s) = (Ok v, w)"
    "aa_actor_id who = sv_actor_id v" "services s1 = services s" by (rule admin_actor_Inr)
  from ends obtain d where d: "result = Inr d" "r = success_response headers (WorkloadsData d)"
    by (cases result) auto
  from run d(1) obtain c where c: "control_transition ce component action (aa_actor_id who) (st_control s1) = (Inr d, c)"
    "s2 = s1\<lparr>st_control := c\<rparr>" by (auto simp: attempt_Inr on_control_eq)
  from audit obtain w' where w': "audit_workload_action env component action who (failure_code result) (st_admin s2) = (Inr u, w')"
    "s3 = s2\<lparr>st_admin := w'\<rparr>" by (auto simp: admin_call_route_def or_else_Inr on_admin_eq)
  from audited_action [OF w'(1)] d(1) have
    "logged (workload_event action) who ''succeeded'' (workload_details component None) (aw_db (st_admin s2)) (aw_db w')"
    by (simp add: failure_code_def)
  moreover from v(3) c(2) w'(2) s' have "st_control s1 = st_control s" "st_control s' = c" "st_admin s2 = st_admin s" "st_admin s' = w'"
    by (simp_all add: services_def)
  ultimately show ?thesis using v env ce c(1) d(2)
    by (intro exI [of _ v] exI [of _ w] exI [of _ who] exI [of _ env] exI [of _ ce] exI [of _ d]) simp
qed

text \<open>The user of the demo session stops the MCP workload.\<close>

abbreviation demo_admin_actor :: admin_actor where
  "demo_admin_actor \<equiv> \<lparr>aa_actor_id = lit ''webui:'' @ [117], aa_request_id = Some (lit ''request-unavailable'')\<rparr>"

lemma demo_admin_authorized:
  "authorize_mutation demo_site_env demo_request post demo_admin_site = (Ok demo_user, demo_admin_site\<lparr>st_now := 1\<rparr>)"
  by code_simp

lemma demo_admin_actor: "admin_actor_of demo_admin_routes demo_request post demo_admin_site = (Ok demo_admin_actor, demo_admin_site\<lparr>st_now := 1\<rparr>)"
proof -
  have "admin_actor_new (actor_id demo_user) (request_id demo_user) = Ok demo_admin_actor" by code_simp
  with demo_admin_authorized show ?thesis
    by (simp add: admin_actor_of_def mbind_def mlift_def demo_admin_routes_def)
qed

lemma demo_stops:
  obtains d c where "control_transition demo_service Mcp StopWorkload (aa_actor_id demo_admin_actor) demo_control = (Ok d, c)"
    and "ct_mcp demo_control" and "\<not> ct_mcp c"
proof -
  have "(case control_transition demo_service Mcp StopWorkload (aa_actor_id demo_admin_actor) demo_control of
      (Inr d, c) \<Rightarrow> ct_mcp demo_control \<and> \<not> ct_mcp c | _ \<Rightarrow> False)" by code_simp
  then show thesis by (auto split: prod.splits sum.splits intro: that)
qed

lemma demo_transition_route:
  assumes "ax_site ax = ax_site demo_admin_routes" and "ax_admin ax = Some env" and "ax_control ax = Some demo_service"
    and "audit_workload_action env Mcp StopWorkload demo_admin_actor None fresh_admin_world = (q, w)"
    and "q \<in> {Ok (), Err AdminDatabase}"
  obtains d c where "transition_route ax demo_request Mcp StopWorkload demo_admin_site =
      (if q = Ok () then Ok (success_response demo_request (WorkloadsData d)) else Err (admin_error_response demo_request AdminDatabase),
       demo_admin_site\<lparr>st_now := 1, st_control := c, st_admin := w\<rparr>)"
    and "ct_mcp demo_control" and "\<not> ct_mcp c"
proof -
  obtain d c where c: "control_transition demo_service Mcp StopWorkload (aa_actor_id demo_admin_actor) demo_control = (Ok d, c)"
    "ct_mcp demo_control" "\<not> ct_mcp c" by (rule demo_stops)
  have who: "admin_actor_of ax demo_request post demo_admin_site = (Ok demo_admin_actor, demo_admin_site\<lparr>st_now := 1\<rparr>)"
    using demo_admin_actor assms(1) by (simp add: admin_actor_of_def)
  have st: "st_control (demo_admin_site\<lparr>st_now := n\<rparr>) = demo_control"
    "st_admin (demo_admin_site\<lparr>st_now := n, st_control := x\<rparr>) = fresh_admin_world" for n x
    by (simp_all add: demo_admin_site_def)
  have "transition_route ax demo_request Mcp StopWorkload demo_admin_site =
      (if q = Ok () then Ok (success_response demo_request (WorkloadsData d)) else Err (admin_error_response demo_request AdminDatabase),
       demo_admin_site\<lparr>st_now := 1, st_control := c, st_admin := w\<rparr>)"
    unfolding transition_route_def mbind_def [of "admin_actor_of ax demo_request post"] who
    using c(1) assms(2-5)
    by (auto simp: mbind_def mlift_def available_def attempt_def on_control_def on_admin_def admin_call_route_def
        or_else_def failure_code_def st)
  from this c(2,3) show thesis by (rule that)
qed

lemma demo_stop_route:
  "\<exists>r s'. transition_route demo_admin_routes demo_request Mcp StopWorkload demo_admin_site = (Ok r, s')"
proof -
  have "case fst (audit_workload_action demo_admin_env Mcp StopWorkload demo_admin_actor None fresh_admin_world) of Inr _ \<Rightarrow> True | _ \<Rightarrow> False"
    by code_simp
  then obtain u w where a: "audit_workload_action demo_admin_env Mcp StopWorkload demo_admin_actor None fresh_admin_world = (Inr u, w)"
    by (cases "audit_workload_action demo_admin_env Mcp StopWorkload demo_admin_actor None fresh_admin_world") (auto split: sum.splits)
  show ?thesis
    by (rule demo_transition_route [OF refl _ _ a]) (simp_all add: demo_admin_routes_def)
qed

theorem transitions_audited_witness:
  "\<exists>who (s' :: admin_site). logged ''workload_stopped'' who ''succeeded'' (workload_details Mcp None)
     (aw_db (st_admin demo_admin_site)) (aw_db (st_admin s'))"
proof -
  obtain r s' where r: "transition_route demo_admin_routes demo_request Mcp StopWorkload demo_admin_site = (Ok r, s')"
    using demo_stop_route by blast
  have "workload_event StopWorkload = ''workload_stopped''" by (simp add: workload_event_def)
  with transitions_audited [OF r] show ?thesis by auto
qed

text \<open>
  The converse does not hold: the transition comes first, so when the audit log cannot be written the
  workload has moved, nothing records it, and the answer is an error.
\<close>

definition unwritable_routes :: admin_routes where
  "unwritable_routes = demo_admin_routes\<lparr>ax_admin := Some (demo_admin_env\<lparr>ae_fails := \<lambda>_. True\<rparr>)\<rparr>"

lemma unaudited_transition:
  "\<exists>r s'. respond (transition_route unwritable_routes demo_request Mcp StopWorkload) demo_admin_site = (Ok r, s')
     \<and> resp_status r = 500 \<and> ct_mcp (st_control demo_admin_site) \<and> \<not> ct_mcp (st_control s')
     \<and> admin_event_table (aw_db (st_admin s')) = []"
proof -
  have a: "audit_workload_action (demo_admin_env\<lparr>ae_fails := \<lambda>_. True\<rparr>) Mcp StopWorkload demo_admin_actor None fresh_admin_world
      = (Err AdminDatabase, fresh_admin_world\<lparr>aw_calls := 1\<rparr>)"
    by (simp add: audit_workload_action_def audit_append_def admin_transaction_def admin_call_def fresh_admin_world_def)
  have "admin_event_table (aw_db fresh_admin_world) = []" by (simp add: fresh_admin_world_def fresh_admin_db_def)
  moreover obtain d c where r: "transition_route unwritable_routes demo_request Mcp StopWorkload demo_admin_site =
      (Err (admin_error_response demo_request AdminDatabase),
       demo_admin_site\<lparr>st_now := 1, st_control := c, st_admin := fresh_admin_world\<lparr>aw_calls := 1\<rparr>\<rparr>)"
    and "ct_mcp demo_control" "\<not> ct_mcp c"
    by (rule demo_transition_route [OF _ _ _ a, of unwritable_routes]) (simp_all add: unwritable_routes_def demo_admin_routes_def)
  moreover have "resp_status (admin_error_response demo_request AdminDatabase) = 500" by (simp add: api_error_def)
  moreover have "st_control demo_admin_site = demo_control" by (simp add: demo_admin_site_def)
  ultimately show ?thesis by (simp add: respond_def)
qed

end
