(* ===== verification/WebBackups.thy ===== *)
theory WebBackups
  imports AdminGuarantees RestoreClaims
begin

text \<open>
  The backup routes of \<open>src/http/api/admin.rs\<close>: listing, creating, uploading, verifying, downloading and
  restoring backups. The controller of the workloads and the settings of the administration service
  are those of the site: the files are entered with the former, and the latter are read from the
  live database.
\<close>

section \<open>The site with its files\<close>

type_synonym service_files = "(bool, scheduler_workload) restore_site"
type_synonym service_restore = "(bool, scheduler_workload) restore_env"

record backup_site = admin_site +
  st_files :: service_files

text \<open>Both managers are optional parts of \<open>WebApiState\<close>.\<close>

record backup_routes =
  bx_admin :: admin_routes
  bx_backups :: "service_restore option"
  bx_restore :: "service_restore option"

type_synonym ('x, 'a) backup_handler = "('x backup_site_scheme, response, 'a) effect"

definition on_files ::
  "(service_files, backup_error, 'a) effect \<Rightarrow> ('x backup_site_scheme, backup_error, 'a) effect" where
  "on_files m = (\<lambda>s.
     let (r, f) = m ((st_files s)\<lparr>rx_control := st_control s\<rparr>)
     in (r, s\<lparr>st_control := rx_control f, st_files := f\<rparr>))"

definition on_live_admin ::
  "service_restore \<Rightarrow> 'a admin \<Rightarrow> ('x backup_site_scheme, admin_error, 'a) effect" where
  "on_live_admin env m = (\<lambda>s.
     case live_view env (st_files s) of
       None \<Rightarrow> (Err AdminDatabase, s)
     | Some d \<Rightarrow>
         let (r, w) = m ((st_admin s)\<lparr>aw_db := ld_admin d\<rparr>) in (r, s\<lparr>st_admin := w\<rparr>))"

section \<open>Errors\<close>

fun backup_error_response :: "header_map \<Rightarrow> backup_error \<Rightarrow> response" where
  "backup_error_response headers BackupInvalid =
     api_error headers 400 ''BACKUP_INVALID'' ''The backup failed verification.'' False None"
| "backup_error_response headers BackupLimitExceeded =
     api_error headers 413 ''LIMIT_EXCEEDED'' ''The backup upload exceeded its configured limit.'' False None"
| "backup_error_response headers BackupNotFound =
     api_error headers 404 ''NOT_FOUND'' ''The requested backup was not found.'' False None"
| "backup_error_response headers RestoreConfirmation =
     api_error headers 400 ''VALIDATION_ERROR'' ''The exact restore confirmation phrase is required.'' False None"
| "backup_error_response headers RestoreFailed =
     api_error headers 500 ''RESTORE_FAILED'' ''Restore failed and rollback was attempted.'' False None"
| "backup_error_response headers BackupWorkload =
     api_error headers 500 ''RESTORE_FAILED'' ''Restore failed and rollback was attempted.'' False None"
| "backup_error_response headers BackupDatabase =
     api_error headers 500 ''INTERNAL_ERROR'' ''The administrative operation failed.'' False None"
| "backup_error_response headers BackupIo =
     api_error headers 500 ''INTERNAL_ERROR'' ''The administrative operation failed.'' False None"

definition reauthentication_required :: "header_map \<Rightarrow> response" where
  "reauthentication_required headers =
     api_error headers 401 ''REAUTHENTICATION_REQUIRED'' ''Recent password verification is required.'' False None"

definition created_response :: "header_map \<Rightarrow> backup_record \<Rightarrow> response" where
  "created_response headers d = (success_response headers (BackupData d))\<lparr>resp_status := 201\<rparr>"

definition backup_call ::
  "header_map \<Rightarrow> (service_files, backup_error, 'a) effect \<Rightarrow> ('x, 'a) backup_handler" where
  "backup_call headers m = or_else (on_files m) (backup_error_response headers)"

section \<open>Routes\<close>

definition backups_route :: "backup_routes \<Rightarrow> header_map \<Rightarrow> ('x, response) backup_handler" where
  "backups_route bx headers =
     mbind (web_actor (ax_site (bx_admin bx)) headers) (\<lambda>_.
     mbind (available headers (bx_backups bx)) (\<lambda>env.
     mbind (backup_call headers (list_backups env)) (\<lambda>d.
       mlift (Ok (success_response headers (BackupsData d))))))"

definition create_backup_route :: "backup_routes \<Rightarrow> header_map \<Rightarrow> ('x, response) backup_handler" where
  "create_backup_route bx headers =
     mbind (admin_actor_of (bx_admin bx) headers post) (\<lambda>who.
     mbind (available headers (bx_backups bx)) (\<lambda>env.
     mbind (backup_call headers (create_backup env Manual who)) (\<lambda>d.
       mlift (Ok (created_response headers d)))))"

text \<open>The first field of the form, if there is one: its name, its type and its chunks.\<close>

record upload_part =
  up_name :: "ustring option"
  up_type :: "ustring option"
  up_chunks :: "bytes option list"

definition upload_key :: ustring where "upload_key = lit ''backups.upload_max_bytes''"

definition upload_maximum :: "runtime_setting list \<Rightarrow> u64 option" where
  "upload_maximum rows =
     Option.bind (find (\<lambda>r. rt_key r = upload_key) rows) (\<lambda>r. if rt_value r < 0 then None else Some (word_of_int (rt_value r)))"

definition accepted_part :: "upload_part \<Rightarrow> bool" where
  "accepted_part p \<longleftrightarrow> up_name p = Some (lit ''file'')
     \<and> up_type p \<in> {Some (lit ''application/vnd.sqlite3''), Some (lit ''application/x-sqlite3'')}"

definition upload_backup_route ::
  "backup_routes \<Rightarrow> header_map \<Rightarrow> upload_part option \<Rightarrow> ('x, response) backup_handler" where
  "upload_backup_route bx headers part =
     mbind (admin_actor_of (bx_admin bx) headers post) (\<lambda>who.
     mbind (available headers (ax_admin (bx_admin bx))) (\<lambda>service.
     mbind (available headers (bx_backups bx)) (\<lambda>env.
     mbind (or_else (on_live_admin env (settings_list service)) (admin_error_response headers)) (\<lambda>rows.
     mbind (mlift (ok_or (admin_error_response headers AdminDatabase) (upload_maximum rows))) (\<lambda>maximum.
     case part of
       None \<Rightarrow> mlift (Err (backup_error_response headers BackupInvalid))
     | Some p \<Rightarrow>
         mbind (mlift (guard (accepted_part p) (backup_error_response headers BackupInvalid))) (\<lambda>_.
         mbind (backup_call headers (upload_backup env (up_chunks p) maximum who)) (\<lambda>d.
           mlift (Ok (created_response headers d)))))))))"

definition backup_disposition :: "backup_record \<Rightarrow> ustring" where
  "backup_disposition r = lit ''attachment; filename='' @ 34 # bk_file_name r @ [34]"

definition backup_digest :: "backup_record \<Rightarrow> ustring" where
  "backup_digest r = lit ''sha-256='' @ bk_sha256 r"

definition download_backup_route ::
  "backup_routes \<Rightarrow> header_map \<Rightarrow> ustring \<Rightarrow> ('x, response) backup_handler" where
  "download_backup_route bx headers i =
     mbind (web_actor (ax_site (bx_admin bx)) headers) (\<lambda>_.
     mbind (available headers (bx_backups bx)) (\<lambda>env.
     mbind (backup_call headers (download_backup env i)) (\<lambda>(r, path).
     mbind (backup_call headers (read_file env BackupIo path)) (\<lambda>b.
     mbind (mlift (ok_or (backup_error_response headers BackupDatabase)
              (header_value_from_str (backup_disposition r)))) (\<lambda>disposition.
     mbind (mlift (ok_or (backup_error_response headers BackupDatabase)
              (header_value_from_str (backup_digest r)))) (\<lambda>digest.
       mlift (Ok (insert_header ''digest'' digest (insert_header ''content-disposition'' disposition
         (insert_header ''content-type'' (lit ''application/vnd.sqlite3'')
           \<lparr>resp_status = 200, resp_headers = [], resp_body = OtherBody b\<rparr>))))))))))"

definition verify_backup_route ::
  "backup_routes \<Rightarrow> header_map \<Rightarrow> ustring \<Rightarrow> ('x, response) backup_handler" where
  "verify_backup_route bx headers i =
     mbind (admin_actor_of (bx_admin bx) headers post) (\<lambda>who.
     mbind (available headers (bx_backups bx)) (\<lambda>env.
     mbind (backup_call headers (verify_backup env i who)) (\<lambda>d.
       mlift (Ok (success_response headers (BackupData d))))))"

text \<open>The session is looked up a second time, with its own reading of the clock.\<close>

definition recent_password :: "backup_routes \<Rightarrow> header_map \<Rightarrow> ('x, unit) backup_handler" where
  "recent_password bx headers =
     (let se = ax_site (bx_admin bx) in
      mbind (now_utc se) (\<lambda>now.
      mbind (or_else (on_web (web_authenticate (se_policy se) headers now)) (\<lambda>_. reauthentication_required headers)) (\<lambda>v.
        mlift (guard (recently_reauthenticated (sv_reauthenticated_at v) now) (reauthentication_required headers)))))"

definition restore_backup_route ::
  "backup_routes \<Rightarrow> header_map \<Rightarrow> ustring \<Rightarrow> ustring \<Rightarrow> ('x, response) backup_handler" where
  "restore_backup_route bx headers i confirmation =
     mbind (admin_actor_of (bx_admin bx) headers post) (\<lambda>who.
     mbind (recent_password bx headers) (\<lambda>_.
     mbind (available headers (bx_restore bx)) (\<lambda>env.
     mbind (backup_call headers (restore env i confirmation who NoFault)) (\<lambda>d.
       mlift (Ok (success_response headers (RestoreData d)))))))"

section \<open>Guarantees\<close>

lemma on_files_eq:
  "on_files m s = (r, s') \<longleftrightarrow> (\<exists>f. m ((st_files s)\<lparr>rx_control := st_control s\<rparr>) = (r, f)
     \<and> s' = s\<lparr>st_control := rx_control f, st_files := f\<rparr>)"
  by (auto simp: on_files_def split: prod.splits)

text \<open>Authorising looks at the sessions and the clock only.\<close>

lemma authorize_files:
  fixes s :: "'x backup_site_scheme"
  assumes "authorize_mutation se headers m s = (a, s1)"
  shows "st_files s1 = st_files s" and "st_now s1 = st_now s + 1"
    and "a = Inr who \<Longrightarrow> \<exists>v. web_authenticate (se_policy se) headers (se_now se (st_now s)) (st_web s) = (Ok v, st_web s1)
      \<and> validate_mutation m headers (sv_csrf_token v) = Ok ()"
proof -
  obtain x w where x: "web_authenticate (se_policy se) headers (se_now se (st_now s)) (st_web s) = (x, w)" by fastforce
  show "st_files s1 = st_files s" "st_now s1 = st_now s + 1"
    using assms x by (auto simp: authorize_mutation_def mbind_def mlift_def current_session_def now_utc_def or_else_def on_web_def
        split: sum.splits)
  show "\<exists>v. web_authenticate (se_policy se) headers (se_now se (st_now s)) (st_web s) = (Ok v, st_web s1)
      \<and> validate_mutation m headers (sv_csrf_token v) = Ok ()" if "a = Inr who"
    using assms that by (auto simp: authorize_mutation_def mbind_eq_Inr mlift_Inr current_session_Inr res_simps)
qed

lemma admin_actor_files:
  fixes s :: "'x backup_site_scheme"
  assumes "admin_actor_of ax headers m s = (a, s1)"
  shows "st_files s1 = st_files s" and "st_now s1 = st_now s + 1"
    and "a = Inr who \<Longrightarrow> \<exists>v. web_authenticate (se_policy (ax_site ax)) headers (se_now (ax_site ax) (st_now s)) (st_web s)
      = (Ok v, st_web s1) \<and> validate_mutation m headers (sv_csrf_token v) = Ok ()"
proof -
  obtain b s2 where b: "authorize_mutation (ax_site ax) headers m s = (b, s2)" by fastforce
  with assms have s: "s1 = s2" by (auto simp: admin_actor_of_def mbind_def mlift_def split: sum.splits)
  note f = authorize_files [OF b]
  show "st_files s1 = st_files s" "st_now s1 = st_now s + 1" using f s by simp_all
  show "\<exists>v. web_authenticate (se_policy (ax_site ax)) headers (se_now (ax_site ax) (st_now s)) (st_web s)
      = (Ok v, st_web s1) \<and> validate_mutation m headers (sv_csrf_token v) = Ok ()" if "a = Inr who"
    using assms that b s f(3) by (cases b) (auto simp: admin_actor_of_def mbind_def)
qed

lemma recent_password_files:
  fixes s :: "'x backup_site_scheme"
  assumes "recent_password bx headers s = (a, s1)"
  defines "se \<equiv> ax_site (bx_admin bx)"
  shows "st_files s1 = st_files s"
    and "a = Inr u \<Longrightarrow> \<exists>v w. web_authenticate (se_policy se) headers (se_now se (st_now s)) (st_web s) = (Ok v, w)
      \<and> recently_reauthenticated (sv_reauthenticated_at v) (se_now se (st_now s))"
proof -
  obtain x w where x: "web_authenticate (se_policy se) headers (se_now se (st_now s)) (st_web s) = (x, w)" by fastforce
  show "st_files s1 = st_files s"
    using assms x by (auto simp: recent_password_def mbind_def mlift_def now_utc_def or_else_def on_web_def Let_def
        split: sum.splits)
  show "\<exists>v w. web_authenticate (se_policy se) headers (se_now se (st_now s)) (st_web s) = (Ok v, w)
      \<and> recently_reauthenticated (sv_reauthenticated_at v) (se_now se (st_now s))" if "a = Inr u"
    using assms that x by (auto simp: recent_password_def mbind_eq_Inr mlift_Inr now_utc_def or_else_Inr on_web_eq guard_def Let_def
        split: if_splits)
qed

text \<open>
  C36: A restore needs more than a session: a request to the restore route changes a file only when the
  session is accepted, the request passes the CSRF checks of that session, the password was verified
  at most five minutes ago and not in the future, and the phrase of confirmation is exact.
\<close>

theorem restore_route_guarded:
  fixes s :: "'x backup_site_scheme" and bx :: backup_routes
  defines "se \<equiv> ax_site (bx_admin bx)"
  assumes "restore_backup_route bx headers i confirmation s = (r, s')" and "fs_disk (st_files s') \<noteq> fs_disk (st_files s)"
  shows "\<exists>v w v' w' at.
     web_authenticate (se_policy se) headers (se_now se (st_now s)) (st_web s) = (Ok v, w)
     \<and> validate_mutation post headers (sv_csrf_token v) = Ok ()
     \<and> web_authenticate (se_policy se) headers (se_now se (st_now s + 1)) w = (Ok v', w')
     \<and> sv_reauthenticated_at v' = Some at \<and> at \<le> se_now se (st_now s + 1)
     \<and> se_now se (st_now s + 1) \<le> at + 5 * 60 * ns_per_sec \<and> confirmation = restore_confirmation"
proof -
  obtain a s1 where a: "admin_actor_of (bx_admin bx) headers post s = (a, s1)" by fastforce
  note fa = admin_actor_files [OF a]
  obtain b s2 where b: "recent_password bx headers s1 = (b, s2)" by fastforce
  note fb = recent_password_files [OF b]
  from assms(2,3) a b fa(1) fb(1) obtain who u where v: "a = Inr who" "b = Inr u"
    by (cases a; cases b) (auto simp: restore_backup_route_def mbind_def)
  have "confirmation = restore_confirmation"
  proof (rule ccontr)
    assume c: "confirmation \<noteq> restore_confirmation"
    then have "restore_backup_route bx headers i confirmation s = (r', s3) \<Longrightarrow> fs_disk (st_files s3) = fs_disk (st_files s2)" for r' s3
      using a b v by (cases "bx_restore bx") (auto simp: restore_backup_route_def mbind_def mlift_def available_def ok_or_def
          backup_call_def or_else_def on_files_def restore_def)
    with assms(2,3) fa(1) fb(1) show False by simp
  qed
  with fa(2) fa(3) [OF v(1)] fb(2) [OF v(2)] show ?thesis
    unfolding se_def by (fastforce simp: recently_reauthenticated_def split: option.splits)
qed

text \<open>The demo session restores; the process dies after the temporary journal was created.\<close>

definition demo_backup_routes :: "nat \<Rightarrow> backup_routes" where
  "demo_backup_routes n = \<lparr>bx_admin = demo_admin_routes, bx_backups = Some (demo_backup_env n), bx_restore = Some (demo_backup_env n)\<rparr>"

definition demo_backup_site :: backup_site where
  "demo_backup_site = \<lparr>st_web = demo_signed_in, st_world = demo_world, st_now = 0, st_admin = fresh_admin_world,
     st_control = demo_control, st_files = demo_disk\<rparr>"

lemma demo_restore_route:
  "length (fs_disk (st_files (snd (restore_backup_route (demo_backup_routes 1) demo_request [97] restore_confirmation demo_backup_site))))
     = 4"
  by code_simp

theorem restore_route_guarded_witness:
  "\<exists>v w v' w' at.
     web_authenticate demo_web_policy demo_request 2 demo_signed_in = (Ok v, w)
     \<and> validate_mutation post demo_request (sv_csrf_token v) = Ok ()
     \<and> web_authenticate demo_web_policy demo_request 2 w = (Ok v', w')
     \<and> sv_reauthenticated_at v' = Some at \<and> at \<le> 2 \<and> 2 \<le> at + 5 * 60 * ns_per_sec \<and> restore_confirmation = restore_confirmation"
proof -
  obtain r s' where r: "restore_backup_route (demo_backup_routes 1) demo_request [97] restore_confirmation demo_backup_site = (r, s')"
    by fastforce
  with demo_restore_route have "length (fs_disk (st_files s')) = 4" by simp
  then have "fs_disk (st_files s') \<noteq> fs_disk (st_files demo_backup_site)"
    by (auto simp: demo_backup_site_def demo_disk_def)
  from restore_route_guarded [OF r this] show ?thesis
    by (simp add: demo_backup_routes_def demo_admin_routes_def demo_site_env_def demo_backup_site_def)
qed

text \<open>
  C37: What a download delivers is sound: when the download route answers with a file, its bytes are an intact
  database of a known version with the items of the owner only, and the digest header names the hash of
  exactly these bytes.
\<close>

theorem served_backup_intact:
  fixes s :: "'x backup_site_scheme"
  assumes "download_backup_route bx headers i s = (Ok r, s')" and "bx_backups bx = Some env"
  shows "\<exists>b c v. resp_status r = 200 \<and> resp_body r = OtherBody b \<and> sound_file env b c
     \<and> header_value_from_str (lit ''sha-256='' @ ev_sha256 env b) = Some v \<and> get_header (resp_headers r) ''digest'' = Some v"
proof -
  from assms have "\<exists>k path b digest (s1 :: 'x backup_site_scheme) s2 s3.
      backup_call headers (download_backup env i) s1 = (Inr (k, path), s2)
      \<and> backup_call headers (read_file env BackupIo path) s2 = (Inr b, s3)
      \<and> header_value_from_str (backup_digest k) = Some digest
      \<and> resp_status r = 200 \<and> resp_body r = OtherBody b \<and> get_header (resp_headers r) ''digest'' = Some digest"
    unfolding download_backup_route_def
    by (auto simp: mbind_eq_Inr mlift_Inr available_Inr ok_or_eq_Inr insert_header_def get_header_def get_all_def) blast
  then obtain k path b digest and s1 s2 s3 :: "'x backup_site_scheme" where
    d: "backup_call headers (download_backup env i) s1 = (Inr (k, path), s2)"
    and f: "backup_call headers (read_file env BackupIo path) s2 = (Inr b, s3)"
    and g: "header_value_from_str (backup_digest k) = Some digest"
    and r: "resp_status r = 200" "resp_body r = OtherBody b" "get_header (resp_headers r) ''digest'' = Some digest"
    by blast
  from d obtain t where t: "download_backup env i ((st_files s1)\<lparr>rx_control := st_control s1\<rparr>) = (Inr (k, path), t)"
    "s2 = s1\<lparr>st_control := rx_control t, st_files := t\<rparr>"
    by (auto simp: backup_call_def or_else_Inr on_files_eq)
  from f t(2) obtain u where u: "read_file env BackupIo path (t\<lparr>rx_control := rx_control t\<rparr>) = (Inr b, u)"
    by (auto simp: backup_call_def or_else_Inr on_files_eq)
  from download_Inr [OF t(1)] obtain b' c where b': "file_at ((st_files s1)\<lparr>rx_control := st_control s1\<rparr>) path = Some b'"
    "sound_file env b' c" "ev_sha256 env b' = bk_sha256 k" "touches {} ((st_files s1)\<lparr>rx_control := st_control s1\<rparr>) t" by blast
  then have "file_at t path = Some b'" by (simp add: touches_def)
  with read_file_Inr [OF u] have "b' = b" by simp
  with b' g r show ?thesis by (auto simp: backup_digest_def)
qed

lemma demo_download_route:
  "case fst (download_backup_route (demo_backup_routes 1000) demo_request [97] demo_backup_site) of Inr r \<Rightarrow> True | _ \<Rightarrow> False"
  by code_simp

theorem served_backup_intact_witness:
  "\<exists>r s' b c. download_backup_route (demo_backup_routes 1000) demo_request [97] demo_backup_site = (Ok r, s')
     \<and> resp_body r = OtherBody b \<and> sound_file (demo_backup_env 1000) b c"
proof -
  obtain r s' where r: "download_backup_route (demo_backup_routes 1000) demo_request [97] demo_backup_site = (Ok r, s')"
    using demo_download_route
    by (cases "download_backup_route (demo_backup_routes 1000) demo_request [97] demo_backup_site") (auto split: sum.splits)
  from served_backup_intact [OF r] show ?thesis using r by (simp add: demo_backup_routes_def) blast
qed

end
