(* ===== verification/Spec2Isabelle.thy ===== *)
theory Spec2Isabelle
  imports Creation History Listing Lifecycle Cookies Agreement Assets McpServer RestoreClaims Retention WebBackups
begin

text \<open>
  A verification library for Remindi, a service that reminds agents of their tasks. One process
  holds a SQLite database of items and offers it through eight MCP tools, a JSON API with a browser
  interface, and a scheduler that evaluates triggers; administrators change settings, start and stop
  the two workloads, and make, upload and restore backups. The theories follow the files under
  \<open>src/src/\<close>; a definition has the name of the function it translates, or that name with a suffix.

  \<^bold>\<open>The item service.\<close> \<open>Model\<close>, \<open>StateMachine\<close>, \<open>Recurrence\<close>, \<open>Evidence\<close> and \<open>Evaluator\<close> are the pure domain
  (\<open>remindi/model.rs\<close>, \<open>state_machine.rs\<close>, \<open>recurrence.rs\<close>, \<open>evidence.rs\<close>, \<open>triggers/evaluator.rs\<close>).
  \<open>Requests\<close> and \<open>Operations\<close> are the validation and the pure halves of the handlers of
  \<open>remindi/service.rs\<close>, \<open>Paging\<close> its cursors; \<open>Database\<close> and \<open>Repository\<close> are the tables of
  \<open>migrations/0001_initial.sql\<close> with their constraints and the statements of \<open>remindi/repository.rs\<close>;
  \<open>Service\<close> composes them into the handlers, each a function from a world (database and counters of the
  readings of clock, identifiers and connections) to its result and the next world.
  \<open>Store\<close> and \<open>Transactions\<close> relate the table to a map from identifiers to items (refinement) and
  invert a committed run; \<open>Guarantees\<close>, \<open>Commands\<close>, \<open>Creation\<close> and \<open>Listing\<close> state the database invariant,
  the effect of every command on each branch, idempotent retries and complete pagination. \<open>History\<close> is the
  program as a transition system, one rule per handler; a check and a poll write from any earlier
  reading. The properties of this theory are about every history.

  \<^bold>\<open>The scheduler.\<close> \<open>Lease\<close> and \<open>Runner\<close> are \<open>scheduler/lease.rs\<close> and \<open>scheduler/runner.rs\<close>; \<open>Adapters\<close> are the
  condition adapters and the network policy of \<open>triggers/adapters\<close>. Lemmas: a lease is granted to one
  holder, a deposed holder writes nothing, the loop returns when it is cancelled, destinations outside
  the policy are refused.

  \<^bold>\<open>Administration.\<close> \<open>AdminStore\<close>, \<open>Settings\<close>, \<open>AdapterConfig\<close> and \<open>Administration\<close> are \<open>admin/mod.rs\<close>,
  \<open>audit.rs\<close>, \<open>settings.rs\<close> and \<open>adapters.rs\<close>; \<open>Workloads\<close>, \<open>Controller\<close> and \<open>Lifecycle\<close> the runtimes and
  \<open>admin/workloads.rs\<close>; \<open>Bootstrap\<close> is \<open>config.rs\<close>. Lemmas: settings stay valid, the audit log is ordered and
  complete, the status is truthful, maintenance is quiet.

  \<^bold>\<open>Files, migrations, backups.\<close> \<open>Migrations\<close> is \<open>db/migrations.rs\<close>. \<open>Storage\<close> is the disk and the live database
  with its write-ahead log, as \<open>db/manager.rs\<close> and \<open>db/transactions.rs\<close> use them: every call to the file
  system or to SQLite proceeds, fails, or is the last of the process, before or after it took effect.
  \<open>Backups\<close> is \<open>BackupManager\<close> and \<open>Restore\<close> is \<open>RestoreManager\<close> of \<open>admin/backup.rs\<close>: the journalled exchange, its
  rollback, and the recovery at start-up. \<open>Outcomes\<close> is a Hoare logic with a third postcondition for
  the state in which the process stopped; \<open>BackupFrames\<close>, \<open>RestoreSafety\<close> and \<open>RestoreGuarantees\<close> prove one triple per step,
  and \<open>RestoreClaims\<close> that a restore is safe against crashes (docs/SPEC.md, Recovery: either the original
  database or the replacement), that its success is real, and that the recovery can be repeated. \<open>Retention\<close>
  is about the inventory; \<open>RestoreDemo\<close> is the concrete run at which these claims are applied.

  \<^bold>\<open>The interfaces.\<close> \<open>Headers\<close>, \<open>RequestAuth\<close>, \<open>Sessions\<close>, \<open>SessionGuarantees\<close> and \<open>Cookies\<close> are \<open>auth/\<close>; \<open>Schemas\<close>, \<open>Views\<close>,
  \<open>Tools\<close> and \<open>McpServer\<close> are \<open>mcp/\<close>; \<open>WebApi\<close>, \<open>WebRemindi\<close>, \<open>WebAdmin\<close> and \<open>WebBackups\<close> are \<open>http/api/\<close>; \<open>Assets\<close> is \<open>webui/\<close>.
  \<open>SiteGuarantees\<close>, \<open>AdminGuarantees\<close>, \<open>Agreement\<close> and \<open>WebBackups\<close> state that requests without a session or its token
  change nothing, that changes name the user who signed in, that both interfaces agree, and what a
  restore asks for.

  \<^bold>\<open>Shared.\<close> \<open>Prelude\<close> has results (\<open>Inl (Fail e)\<close> an error, \<open>Inl Panic\<close> a panic, \<open>Inl Diverge\<close> an
  operation that does not return, \<open>Inr\<close> a value), strings as code points, instants in nanoseconds and checked
  arithmetic; \<open>Text\<close> and \<open>Effects\<close> add text and operations with a state; \<open>Samples\<close> has the items of the witnesses.
  The interfaces are locales, each interpreted on the model: \<open>cas_store\<close> (item table), \<open>mutation_closure\<close>
  (handlers), \<open>keyset\<close> (cursors), \<open>fencing_lease\<close> (lease), \<open>workload_runtime\<close> and \<open>workload_controller\<close>.

  \<^bold>\<open>Bounds.\<close> Fixed-width counters are words or checked against \<open>i64\<close>, and every overflow is an error, a panic
  or a wrap as in the source. The loops of the scheduler and of the recurrence are \<open>partial_function (option)\<close>
  and their termination is proved; all other loops terminate by construction. There is no fuel.

  \<^bold>\<open>Parameters.\<close> SQLite's files, JSON, SHA-256 and HMAC, base64, random bytes, RFC 3339, URLs, name resolution,
  connections, the HTTP client and the readings of clock and identifiers are arguments; what a property needs of
  them (a codec that reads what it wrote, SQLite writing its log back when it closes, new identifiers) is a
  hypothesis of that property, and a witness instantiates it.

  \<^bold>\<open>Not modelled.\<close> \<open>clock.rs\<close> (the readings are parameters); routing, extraction and body decoding of axum,
  request identifiers and tracing (\<open>http/router.rs\<close>, \<open>http/middleware.rs\<close>), the health probes, the schema generator and
  the rmcp transport, the assembly of the process and its signals (\<open>main.rs\<close>, \<open>app.rs\<close>): framework
  calls and I/O without a decision of the program. Of \<open>db/manager.rs\<close> the connection options and the checks of path,
  owner and permissions of the data file. The death of the process is modelled, the loss of power (unsynced
  writes) is not. During a restore other requests may commit only between the backup of the former database and the
  maintenance, which is where the code lets them in before the exchange; what they commit after it succeeded and
  before the workloads are restarted is not considered.
\<close>

section \<open>Every history\<close>

text \<open>
  C1: whatever the handlers do, in whatever order, with checks and polls that write from readings
  of any earlier database: every database of a history satisfies the invariant \<open>db_wf\<close> (well-formed
  rows with unique identifiers, monotone event sequence, complete audit, consistent responses), and
  each extends every earlier one (versions only grow, events and responses are only appended).
\<close>

theorem history_invariant:
  assumes "timeline env h" and "clock_ok env"
  shows "timeline_wf h"
  using assms by (rule timeline_inv)

lemma demo_timeline:
  "\<exists>d e. timeline demo_env [d, empty_db] \<and> store_view d 100 = Some fresh_item \<and> event_table d = [e] \<and>
     idempotency d (actor_id sample_actor) ''remindi_cancel'' key = None"
proof -
  obtain w' where r: "add demo_env sample_actor sample_add empty_world = (Inr fresh_item, w')" using demo_add_runs by blast
  have e: "w_db empty_world = empty_db" by (simp add: empty_world_def sample_db_def empty_db_def)
  have n: "idempotency empty_db k tool key' = None" "event_table empty_db = []" for k tool key'
    by (simp_all add: idempotency_def empty_db_def)
  have t: "timeline demo_env (w_db w' # empty_db # [])" by (rule timeline.add [OF timeline.start e r])
  from r demo_add_plan show ?thesis
  proof (rule add_Ok)
    fix c w1 w2
    assume w1: "w_db w1 = w_db empty_world" and c: "w_db w' = (if c then w_db w2 else w_db empty_world)"
      and b: "add_body demo_env sample_actor demo_add_prepared 5 (env_clock demo_env (w_clock empty_world)) w1 = (Inr (fresh_item, c), w2)"
    from b show ?thesis
    proof (cases rule: add_body_cases)
      case replay
      with n w1 e show ?thesis by simp
    next
      case (commit nf i ne d1 d2 d3 dets eid at)
      then have "added demo_env sample_actor demo_add_prepared 5 (w_db w1) fresh_item (w_db w2)"
        using add_body_commit(3) [of w1 "env_clock demo_env (w_clock empty_world)" demo_env sample_actor demo_add_prepared 5 fresh_item w2]
          b w1 empty_world_wf clock_ok_low [OF demo_clock] by auto
      then have "store_view (w_db w2) 100 = Some (stored fresh_item)" "\<exists>ev. event_table (w_db w2) = [ev]"
        using n w1 e by (auto simp: added_def)
      moreover have "stored fresh_item = fresh_item"
        by (simp add: stored_def new_item_def trunc_ms_def ns_per_ms_def t0_def)
      moreover have "idempotency_table d3 = []"
        using insert_remindi_refines(4) [OF _ commit(7)] replace_links_frame [OF commit(8)] append_event_Ok(1) [OF commit(9)]
          fresh_storable(1) empty_world_wf w1 e by (auto simp: db_wf_def empty_db_def)
      then have "idempotency (w_db w2) (actor_id sample_actor) ''remindi_cancel'' key = None"
        using insert_idempotency_Ok(1) [OF commit(10)] by (simp add: idempotency_def)
      ultimately show ?thesis using t c commit(1) by auto
    qed
  qed
qed

text \<open>The history of one item: created, then cancelled.\<close>

abbreviation fresh_cancel :: cancel_request where
  "fresh_cancel \<equiv> sample_cancel\<lparr>xr_remindi_id := 100, xr_expected_version := 1\<rparr>"

abbreviation fresh_cancelled :: remindi where
  "fresh_cancelled \<equiv> fresh_item\<lparr>state := Cancelled, cancelled_at := Some t0, version := 2, updated_at := t0\<rparr>"

lemma demo_life:
  "\<exists>d1 d2. timeline demo_env [d2, d1, empty_db] \<and> store_view d2 100 = Some fresh_cancelled"
proof -
  obtain d e where t: "timeline demo_env [d, empty_db]" and v: "store_view d 100 = Some fresh_item"
    and ev: "event_table d = [e]" and idm: "idempotency d (actor_id sample_actor) ''remindi_cancel'' (lit ''key-0002'') = None"
    using demo_timeline by blast
  let ?call = "demo_call\<lparr>mc_id := 100, mc_expected_version := 1\<rparr>" and ?op = "cancel_operation fresh_cancel t0"
  let ?w = "\<lparr>w_db = d, w_clock = 0, w_ids = e_event_id e, w_gate = 0\<rparr>"
  have wf: "db_wf d" using timeline_inv [OF t demo_clock] by (simp add: timeline_wf_def)
  have p: "command_plan demo_env sample_actor t0 (C_Cancel fresh_cancel) = Inr (?call, ?op)"
    by (simp add: prepare_cancel_def sample_cancel_def sample_actor_def agent_actor_def validate_actor_def trim_def
      is_whitespace_def validate_idempotency_key_def utf8_len_def utf8_width_def is_ascii_alphanumeric_def
      is_ascii_alphabetic_def is_ascii_digit_def required_text_def validate_expected_version_def request_hash_def
      demo_call_def)
  obtain out where o: "?op fresh_item = Inr (fresh_cancelled, out)" "op_links out = None" "op_evidence out = None"
    by (simp add: cancel_operation_def cancel_item_def clear_snooze_def sample_cancel_def new_item_def is_active_def
      trim_def is_whitespace_def)
  have s: "storable fresh_cancelled" "check_remindi (columns fresh_cancelled)" "stored fresh_cancelled = fresh_cancelled"
    by (simp_all add: new_item_def sample_add_def storable_def times_ok_def counters_ok_def rfc3339_ok_def year_zero_def
      max_instant_def t0_def i64_max_def recurrence_serializable_def every_hour_def check_remindi_def columns_def
      sql_length_def state_variants_def priority_variants_def stored_def trunc_ms_def ns_per_ms_def)
  have room: "room_for demo_env ?call ?w"
    using idm ev demo_room by (simp add: room_for_def)
  have "fst (run_command demo_env sample_actor (C_Cancel fresh_cancel) ?w) = Inr fresh_cancelled"
    using run_room [where op = ?op and item = fresh_item and a = sample_actor and cmd = "C_Cancel fresh_cancel",
        OF _ demo_clock room _ _ _ _ o s(1,2)] wf p v by simp
  then obtain w' where r: "run_command demo_env sample_actor (C_Cancel fresh_cancel) ?w = (Inr fresh_cancelled, w')"
    by (metis fst_conv prod.collapse)
  have "mutated demo_env ?call ?op d fresh_cancelled (w_db w')"
    using run_effect [OF _ demo_clock r] wf p idm by simp
  then have "store_view (w_db w') 100 = Some fresh_cancelled" using s(3) by (auto simp: mutated_def)
  moreover have "timeline demo_env [w_db w', d, empty_db]"
    using timeline.cancel [OF t, where w = ?w] r by simp
  ultimately show ?thesis by blast
qed

theorem history_invariant_witness:
  "\<exists>d1 d2. timeline demo_env [d2, d1, empty_db] \<and> db_wf d2 \<and> db_extends d1 d2"
proof -
  obtain d1 d2 where t: "timeline demo_env [d2, d1, empty_db]" using demo_life by blast
  from history_invariant [OF t demo_clock] t show ?thesis by (auto simp: timeline_wf_def)
qed

text \<open>
  C7: the audit trail is complete. In every database of every history, each version that a stored
  item has had, from 1 to the current one, is the new version of an event of that item.
\<close>

theorem audit_complete:
  assumes "timeline env h" and "clock_ok env" and "d \<in> set h"
    and "store_view d i = Some item" and "1 \<le> v" and "v \<le> uint (version item)"
  shows "\<exists>e \<in> set (event_table d). e_remindi_id e = i \<and> e_new_version e = Some v"
proof -
  have wf: "db_wf d" using timeline_inv [OF assms(1,2)] assms(3) by (simp add: timeline_wf_def)
  then have "columns item \<in> set (remindi_table d)" "remindi_id item = i"
    using assms(4) by (simp_all add: store_view_iff db_wf_def)
  with wf assms(5,6) show ?thesis by (fastforce simp: db_wf_def audited_def has_event_def)
qed

theorem audit_complete_witness:
  "\<exists>d1 d2. timeline demo_env [d2, d1, empty_db] \<and>
     (\<exists>e \<in> set (event_table d2). e_remindi_id e = 100 \<and> e_new_version e = Some 2)"
proof -
  obtain d1 d2 where t: "timeline demo_env [d2, d1, empty_db]" and v: "store_view d2 100 = Some fresh_cancelled"
    using demo_life by blast
  from audit_complete [OF t demo_clock _ v, of 2] t show ?thesis by auto
qed

text \<open>
  C8: completed and cancelled are final: an item that is terminal in some database of a history is
  stored unchanged, field by field, in every later database.
\<close>

theorem terminal_is_final:
  assumes "timeline env (new @ old # rest)" and "clock_ok env" and "d \<in> set new"
    and "store_view old i = Some item" and "is_terminal (state item)"
  shows "store_view d i = Some item"
proof -
  have "db_extends old d"
    using timeline_inv [OF assms(1,2)] assms(3) by (auto simp: timeline_wf_def sorted_wrt_append)
  from extends_terminal [OF this assms(4,5)] show ?thesis .
qed

theorem terminal_is_final_witness:
  "\<exists>d1 d2 d3. timeline demo_env [d3, d2, d1, empty_db] \<and> store_view d2 100 = Some fresh_cancelled \<and>
     store_view d3 100 = Some fresh_cancelled"
proof -
  obtain d1 d2 where t: "timeline demo_env [d2, d1, empty_db]" and v: "store_view d2 100 = Some fresh_cancelled"
    using demo_life by blast
  obtain r w' where "add demo_env sample_actor sample_add (demo_world\<lparr>w_db := d2\<rparr>) = (r, w')" by fastforce
  then have t3: "timeline demo_env [w_db w', d2, d1, empty_db]"
    using timeline.add [OF t, of "demo_world\<lparr>w_db := d2\<rparr>"] by simp
  have "is_terminal (state fresh_cancelled)" by (simp add: is_terminal_def)
  then have "store_view (w_db w') 100 = Some fresh_cancelled"
    using terminal_is_final [of demo_env "[w_db w']" d2 "[d1, empty_db]" "w_db w'", OF _ demo_clock _ v] t3 by simp
  with t3 v show ?thesis by blast
qed

text \<open>
  C2: failure leaves no trace. A handler that returns an error (or panics) leaves the database as it
  found it, wherever it failed: in validation, in the middle of its transaction, or at commit; and
  the queries never change the database.
\<close>

theorem failure_is_atomic:
  "atomic (add env a ar) \<and> atomic (complete env a cr skew) \<and> atomic (snooze env a sr horizon) \<and>
   atomic (cancel env a xr) \<and> atomic (update env a ur) \<and> atomic (check env a kr) \<and>
   atomic (apply_scheduler_evaluation env a prior now c detail) \<and>
   reads_only (list_items env a lr) \<and> reads_only (get_item env a i) \<and> reads_only (history env a hr)"
  by (intro conjI atomic_add atomic_commands atomic_check atomic_scheduler ro_intros)

section \<open>Items over time\<close>

text \<open>One operation of the program on an item: a command of the service or an evaluation.\<close>

inductive item_step :: "remindi \<Rightarrow> remindi \<Rightarrow> bool" where
  "complete_operation creq ev now r = Inr (r', out) \<Longrightarrow> item_step r r'"
| "snooze_operation sreq now r = Inr (r', out) \<Longrightarrow> item_step r r'"
| "cancel_operation xreq now r = Inr (r', out) \<Longrightarrow> item_step r r'"
| "update_operation ureq now r = Inr (r', out) \<Longrightarrow> item_step r r'"
| "evaluate r now ctx c = Inr (r', res) \<Longrightarrow> item_step r r'"

lemma evaluate_active: "evaluate r now ctx c = Inr (r', out) \<Longrightarrow> \<not> is_terminal (state r)"
  by (auto simp: evaluate_def split: if_splits)

lemma closure_step:
  assumes "mutation_closure op at" and "op r = Inr (r', out)"
  shows "\<not> is_terminal (state r) \<and> same_identity r r' \<and> (item_wf r \<longrightarrow> item_wf r')"
  using assms mutation_closure.active_only mutation_closure.keeps_identity mutation_closure.keeps_wf
  by (fastforce simp: is_active_iff_not_terminal)

lemma item_step_keeps:
  "item_step r r' \<Longrightarrow> \<not> is_terminal (state r) \<and> same_identity r r' \<and> (item_wf r \<longrightarrow> item_wf r')"
proof (erule item_step.cases, goal_cases)
  case 5
  then show ?case using evaluate_active evaluate_wf evaluate_frame by (simp add: eval_frame_def)
qed (simp_all add: closure_step [OF complete_closure.mutation_closure_axioms] closure_step [OF snooze_closure.mutation_closure_axioms]
   closure_step [OF cancel_closure.mutation_closure_axioms] closure_step [OF update_closure.mutation_closure_axioms])

lemma item_step_transition: "item_step r r' \<Longrightarrow> transition (state r) (state r')"
  by (erule item_step.cases)
    (auto dest: complete_transition snooze_transition cancel_transition update_transition evaluate_transition)



text \<open>
  C13: an evaluation of an item that has changed since it was read is dropped. When the stored item is
  no longer the one the poll read, the scheduler's write commits nothing, and still reports success.
\<close>

theorem stale_evaluation_dropped:
  assumes "db_wf (w_db w)" and "seen (w_db w) prior"
    and "store_view (w_db w) (remindi_id prior) = Some current" and "current \<noteq> prior" and "owner_id current = env_owner env"
    and "\<forall>n. env_gate env n = None"
    and "evaluate prior now plain_context c = Inr (evaluated, out)"
  shows "fst (apply_scheduler_evaluation env a prior now c detail w) = Inr () \<and>
    w_db (snd (apply_scheduler_evaluation env a prior now c detail w)) = w_db w"
proof -
  have v: "version current \<noteq> version prior" using seen_current [OF assms(2,3)] assms(4) by blast
  have f: "find_remindi d (env_owner env) (remindi_id prior) = Ok (Some current)" if "d = w_db w" for d
    using assms(1,3,5) that by (simp add: find_row_view db_wf_def)
  have "remindi_id evaluated = remindi_id prior"
    using evaluate_frame [OF assms(7)] by (simp add: eval_frame_def same_identity_def)
  then have i: "remindi_id (ensure_bumped now prior (if b then evaluated\<lparr>last_condition_detail := x\<rparr> else evaluated)) = remindi_id prior"
    for b x by (simp add: ensure_bumped_def)
  have p: "persist_evaluated env a prior cand rd es ctx det v = (Inr None, v)"
    if "remindi_id cand = remindi_id prior" "w_db v = w_db w" for cand rd es ctx det v
    using v f that by (simp add: persist_evaluated_def sbind_def slift_def db_read_def)
  let ?ctx = plain_context
  have "\<exists>x w'. evaluate_one env a prior now ?ctx c detail w = (Inr x, w') \<and> w_db w' = w_db w"
  proof (cases "res_events out = []")
    case True
    with assms(7) show ?thesis by (simp add: evaluate_one_def sbind_def slift_def Let_def)
  next
    case False
    have "\<exists>w'. transaction env (sbind (persist_evaluated env a prior (ensure_bumped now prior
          (if c \<noteq> CE_NotEvaluated then evaluated\<lparr>last_condition_detail := detail\<rparr> else evaluated))
          (res_readiness out) (res_events out) ?ctx detail) (\<lambda>item. slift (Ok (item, True)))) w = (Inr None, w') \<and> w_db w' = w_db w"
      using p [OF i] assms(6) by (simp add: transaction_as_def gate_as_def sbind_def slift_def)
    then show ?thesis
      unfolding evaluate_one_def assms(7) sbind_slift map_err_def sum.case prod.case Let_def using False
      by (simp only: if_False) blast
  qed
  then show ?thesis by (auto simp: apply_scheduler_evaluation_def sbind_def slift_def plain_context_def)
qed

text \<open>The demo item as an earlier poll read it: scheduled, in version 1.\<close>

definition earlier_db :: db where
  "earlier_db = sample_db\<lparr>remindi_table := [columns scheduled_item], event_table := [demo_event 1 ''created'' None],
     last_sequence := 1\<rparr>"

lemma scheduled_writable: "writable scheduled_item" "check_remindi (columns scheduled_item)" "stored scheduled_item = scheduled_item"
proof -
  have "storable (r\<lparr>state := Scheduled, due_since := None, version := 1\<rparr>)" if "storable r" for r
    using that by (simp add: storable_def times_ok_def counters_ok_def i64_max_def)
  moreover have "item_wf scheduled_item" by (simp add: sample_item_def item_wf_defs)
  ultimately show "writable scheduled_item" using sample_writable(1) by blast
  show "check_remindi (columns scheduled_item)"
    by (simp add: check_remindi_def columns_def sql_length_def state_variants_def priority_variants_def sample_item_def)
  show "stored scheduled_item = scheduled_item" using sample_writable(4) by (simp add: stored_def sample_item_def)
qed

lemma earlier_seen: "seen demo_db scheduled_item"
proof -
  have wf: "items_wf earlier_db"
    using row_okI [of scheduled_item] scheduled_writable by (simp add: earlier_db_def items_wf_def)
  have t: "remindi_table earlier_db = [columns scheduled_item]" by (simp add: earlier_db_def)
  have c: "c_id (columns scheduled_item) = 7" "c_version (columns scheduled_item) = 1" "remindi_id scheduled_item = 7"
    by (simp_all add: sample_item_def)
  have "db_wf earlier_db"
    unfolding db_wf_def events_wf_def audited_def responses_wf_def t using wf c
    by (auto simp: has_event_def earlier_db_def demo_event_def sample_db_def)
  moreover have v: "store_view earlier_db i = (if i = 7 then Some scheduled_item else None)" for i
  proof (cases "i = 7")
    case True
    then show ?thesis
      using scheduled_writable c by (simp add: store_view_iff [OF wf] t storable_def)
  next
    case False
    then show ?thesis using c by (simp add: store_view_def t)
  qed
  moreover have "db_extends earlier_db demo_db"
    unfolding db_extends_def v
    using demo_view by (auto simp: item_extends_def same_identity_def is_active_def earlier_db_def demo_db_def sample_db_def
        split: if_splits) (simp_all add: sample_item_def)
  ultimately show ?thesis using c unfolding seen_def by (intro exI [of _ earlier_db]) simp
qed

theorem stale_evaluation_dropped_witness:
  "fst (apply_scheduler_evaluation demo_env sample_actor scheduled_item t0 CE_NotEvaluated None demo_world) = Inr ()"
proof -
  have ne: "sample_item \<noteq> scheduled_item" by (auto dest: arg_cong [of _ _ version] simp: sample_item_def)
  from stale_evaluation_dropped [OF _ _ _ ne _ _ sample_becomes_due, of demo_world demo_env sample_actor None]
    demo_db_wf earlier_seen demo_view demo_owner show ?thesis by (simp add: sample_item_def)
qed

end
